(* ===== verification/Prelude.thy ===== *)
theory Prelude
  imports Main "HOL-Library.Word" "HOL-Library.Monad_Syntax"
begin

text \<open>
  Shared vocabulary of the development: the machine integer types of the Rust sources, the error
  type of \<^verbatim>\<open>server/src/error.rs\<close>, the result type every fallible operation returns, the
  decimal rendering of integers (\<^verbatim>\<open>to_string\<close>), and the generic lemmas on words, lists and
  maps that the component theories use.

  Conventions.  A Rust \<^verbatim>\<open>String\<close> is the list of its UTF-8 bytes, each byte one
  \<open>char\<close> (Isabelle characters are exactly the 256 byte values), so that \<open>length\<close> is
  \<^verbatim>\<open>String::len\<close>.  A \<^verbatim>\<open>HashMap\<close> is a partial function.  Unsigned integers are words of
  their width; \<open>+\<close> on them wraps around, as it does in the release profile the workspace builds
  (no \<^verbatim>\<open>overflow-checks\<close> setting in any Cargo.toml).
\<close>

section \<open>Types\<close>

type_synonym byte = "8 word"
type_synonym bytes = "byte list"
type_synonym u8 = "8 word"
type_synonym u16 = "16 word"
type_synonym u32 = "32 word"
type_synonym u64 = "64 word"

text \<open>
  \<^verbatim>\<open>StoreError\<close>.  Of \<^verbatim>\<open>std::io::Error\<close> the code only inspects the kind: to recognise the end of
  the input, a timed-out read and a lost connection.
\<close>

datatype io_kind =
    UnexpectedEof | WouldBlock | TimedOut | ConnectionReset | ConnectionAborted | BrokenPipe | ConnectionRefused | NotConnected
  | OtherIo

datatype store_error =
    Io io_kind
  | Corrupt string
  | NotFound string
  | InvalidInput string

type_synonym 'a res = "store_error + 'a"

definition rbind :: "'e + 'a \<Rightarrow> ('a \<Rightarrow> 'e + 'b) \<Rightarrow> 'e + 'b" where
  "rbind m f = (case m of Inl e \<Rightarrow> Inl e | Inr a \<Rightarrow> f a)"

definition ok_or :: "'e \<Rightarrow> 'a option \<Rightarrow> 'e + 'a" where
  "ok_or e m = (case m of None \<Rightarrow> Inl e | Some a \<Rightarrow> Inr a)"

lemma rbind_simps [simp]: "rbind (Inl e) f = Inl e" "rbind (Inr a) f = f a"
  by (simp_all add: rbind_def)

lemma rbind_eq_Inr [simp]: "rbind m f = Inr b \<longleftrightarrow> (\<exists>a. m = Inr a \<and> f a = Inr b)"
  by (cases m) auto

lemma rbind_eq_Inl: "rbind m f = Inl e \<longleftrightarrow> m = Inl e \<or> (\<exists>a. m = Inr a \<and> f a = Inl e)"
  by (cases m) auto

lemma ok_or_simps [simp]: "ok_or e None = Inl e" "ok_or e (Some a) = Inr a"
  by (simp_all add: ok_or_def)

lemma ok_or_eq_Inr [simp]: "ok_or e m = Inr a \<longleftrightarrow> m = Some a"
  by (cases m) auto

lemma ok_or_eq_Inl: "ok_or e m = Inl e' \<longleftrightarrow> m = None \<and> e' = e"
  by (cases m) auto

section \<open>Decimal rendering\<close>

text \<open>\<^verbatim>\<open>ToString\<close> of an unsigned integer.\<close>

definition digit_char :: "nat \<Rightarrow> char" where
  "digit_char d = char_of (48 + d)"

fun dec_str :: "nat \<Rightarrow> string" where
  "dec_str n = (if n < 10 then [digit_char n] else dec_str (n div 10) @ [digit_char (n mod 10)])"

declare dec_str.simps [simp del]

text \<open>\<^verbatim>\<open>str::parse\<close> at an unsigned integer type of \<open>b\<close> values: an optional plus sign, then
  one or more ASCII digits whose value is below \<open>b\<close>.\<close>

definition digit_val :: "char \<Rightarrow> nat option" where
  "digit_val c = (let n = of_char c :: nat in if 48 \<le> n \<and> n \<le> 57 then Some (n - 48) else None)"

fun parse_digits :: "nat \<Rightarrow> nat \<Rightarrow> string \<Rightarrow> nat option" where
  "parse_digits b acc [] = Some acc"
| "parse_digits b acc (c # cs) =
     (case digit_val c of
        None \<Rightarrow> None
      | Some d \<Rightarrow> if acc * 10 + d < b then parse_digits b (acc * 10 + d) cs else None)"

definition parse_uint :: "nat \<Rightarrow> string \<Rightarrow> nat option" where
  "parse_uint b s =
     (case s of
        [] \<Rightarrow> None
      | c # cs \<Rightarrow>
          if c = CHR ''+'' then (if cs = [] then None else parse_digits b 0 cs)
          else parse_digits b 0 s)"

definition parse_u64 :: "string \<Rightarrow> u64 option" where
  "parse_u64 s = map_option of_nat (parse_uint (2 ^ 64) s)"

definition parse_u32 :: "string \<Rightarrow> u32 option" where
  "parse_u32 s = map_option of_nat (parse_uint (2 ^ 32) s)"

lemma digit_val_digit_char [simp]: "d < 10 \<Longrightarrow> digit_val (digit_char d) = Some d"
  by (simp add: digit_val_def digit_char_def of_char_of)

lemma digit_char_neq_plus [simp]: "d < 10 \<Longrightarrow> digit_char d \<noteq> CHR ''+''"
proof
  assume "d < 10" "digit_char d = CHR ''+''"
  then have "(of_char (digit_char d) :: nat) = of_char (CHR ''+'')" by simp
  with \<open>d < 10\<close> show False by (simp add: digit_char_def of_char_of)
qed

lemma dec_str_nonempty [simp]: "dec_str n \<noteq> []"
  by (subst dec_str.simps) simp

lemma digits_ascii: "c \<in> set (dec_str n) \<Longrightarrow> 48 \<le> (of_char c :: nat) \<and> (of_char c :: nat) \<le> 57"
proof (induction n rule: dec_str.induct)
  case (1 n)
  have d: "48 \<le> (of_char (digit_char d) :: nat) \<and> (of_char (digit_char d) :: nat) \<le> 57" if "d < 10" for d
    using that by (simp add: digit_char_def of_char_of)
  from 1 d show ?case by (subst (asm) dec_str.simps) (auto split: if_splits)
qed

lemma hd_dec_str: "hd (dec_str n) \<noteq> CHR ''+''"
proof (induction n rule: dec_str.induct)
  case (1 n)
  then show ?case by (subst dec_str.simps) (auto simp: hd_append)
qed

lemma parse_digits_append:
  "parse_digits b acc (xs @ ys) = Option.bind (parse_digits b acc xs) (\<lambda>a. parse_digits b a ys)"
  by (induction b acc xs rule: parse_digits.induct) (auto split: option.splits)

lemma parse_digits_dec_str: "n < b \<Longrightarrow> parse_digits b 0 (dec_str n) = Some n"
proof (induction n rule: dec_str.induct)
  case (1 n)
  show ?case
  proof (cases "n < 10")
    case True
    with 1 show ?thesis by (subst dec_str.simps) simp
  next
    case False
    with 1 have "parse_digits b 0 (dec_str (n div 10)) = Some (n div 10)" by simp
    with False 1 show ?thesis by (subst dec_str.simps) (simp add: parse_digits_append)
  qed
qed

lemma parse_uint_dec_str: "n < b \<Longrightarrow> parse_uint b (dec_str n) = Some n"
proof -
  assume "n < b"
  obtain c cs where eq: "dec_str n = c # cs" by (cases "dec_str n") auto
  with hd_dec_str [of n] have "c \<noteq> CHR ''+''" by simp
  with eq parse_digits_dec_str [OF \<open>n < b\<close>] show ?thesis by (simp add: parse_uint_def)
qed

lemma parse_u64_dec_str [simp]: "parse_u64 (dec_str (unat (w :: u64))) = Some w"
  using unsigned_less [of w, where ?'a = nat] by (simp add: parse_u64_def parse_uint_dec_str)

section \<open>Words\<close>

named_theorems word_facts \<open>reading machine words as natural numbers\<close>

lemma unat_Suc_word [word_facts]:
  "unat (w :: 'a::len word) + 1 < 2 ^ LENGTH('a) \<Longrightarrow> unat (w + 1) = unat w + 1"
  by (simp add: unat_word_ariths unsigned_1)

lemma unat_eq_0_word [word_facts]: "unat (w :: 'a::len word) = 0 \<longleftrightarrow> w = 0"
  by (simp add: unat_eq_0)

lemma word_neq_if_unat_less: "unat (v :: 'a::len word) < unat w \<Longrightarrow> v \<noteq> w"
  by auto

section \<open>Lists and maps\<close>

lemma strict_prefix_split:
  assumes "xs = p @ q" and "q \<noteq> []"
  shows "length p < length xs"
  using assms by simp

lemma take_append_same [simp]: "take (length xs) (xs @ ys) = xs"
  by simp

lemma dom_upd_insert: "dom (m(k \<mapsto> v)) = insert k (dom m)"
  by simp

text \<open>
  Rust's \<^verbatim>\<open>HashMap\<close> yields its entries in an unspecified order.  An operation that iterates over
  a map takes that order as an argument: a function listing the entries of every finite map.
\<close>

type_synonym ('k, 'v) hash_iter = "('k \<rightharpoonup> 'v) \<Rightarrow> ('k \<times> 'v) list"

definition hash_iter_ok :: "('k, 'v) hash_iter \<Rightarrow> bool" where
  "hash_iter_ok it \<longleftrightarrow>
     (\<forall>m. finite (dom m) \<longrightarrow> distinct (map fst (it m)) \<and> map_of (it m) = m)"

lemma hash_iter_set:
  assumes "hash_iter_ok it" and "finite (dom m)"
  shows "set (it m) = {(k, v). m k = Some v}"
proof -
  from assms have d: "distinct (map fst (it m))" and m: "map_of (it m) = m"
    by (auto simp: hash_iter_ok_def)
  show ?thesis using map_of_eq_Some_iff [OF d] m by auto
qed

text \<open>One such order, by increasing key.\<close>

definition sorted_iter :: "('k::linorder, 'v) hash_iter" where
  "sorted_iter m = map (\<lambda>k. (k, the (m k))) (sorted_list_of_set (dom m))"

lemma hash_iter_ok_sorted_iter: "hash_iter_ok sorted_iter"
  unfolding hash_iter_ok_def
proof (intro allI impI conjI)
  fix m :: "'a \<rightharpoonup> 'b"
  assume fin: "finite (dom m)"
  show "distinct (map fst (sorted_iter m))"
    by (simp add: sorted_iter_def comp_def)
  show "map_of (sorted_iter m) = m"
  proof
    fix k
    have "map_of (map (\<lambda>k. (k, the (m k))) xs) k = (if k \<in> set xs then Some (the (m k)) else None)" for xs
      by (induction xs) auto
    with fin show "map_of (sorted_iter m) k = m k"
      by (auto simp: sorted_iter_def dom_def)
  qed
qed

lemma hash_iter_keys:
  "hash_iter_ok it \<Longrightarrow> finite (dom m) \<Longrightarrow> fst ` set (it m) = dom m"
  by (auto simp: hash_iter_set dom_def image_iff)

lemma hash_iter_distinct: "hash_iter_ok it \<Longrightarrow> finite (dom m) \<Longrightarrow> distinct (map fst (it m))"
  by (simp add: hash_iter_ok_def)

lemma finite_dom_word [simp]: "finite (dom (m :: 'a::len word \<rightharpoonup> 'b))"
  by simp

end
