(* ===== verification/Bytes.thy ===== *)
theory Bytes
  imports Prelude
begin

text \<open>
  The byte-level layer every on-disk record and every protocol message is written in: the
  little-endian integer codecs of the \<^verbatim>\<open>byteorder\<close> extension traits
  (\<^verbatim>\<open>write_u64::<LittleEndian>\<close>, \<^verbatim>\<open>read_u64::<LittleEndian>\<close>, ...), \<^verbatim>\<open>Read::read_exact\<close>
  on a cursor, and the conversions between bytes and strings (\<^verbatim>\<open>String::from_utf8\<close>,
  \<^verbatim>\<open>str::as_bytes\<close>).

  A reader takes the bytes ahead of the cursor and returns the value with the bytes that are left;
  \<open>None\<close> is \<^verbatim>\<open>ErrorKind::UnexpectedEof\<close>.  Both round-trip directions are proved: what is
  written reads back (\<open>read_word_write\<close>), and whatever a reader accepts is exactly what the writer
  would have written (\<open>read_word_SomeD\<close>), so no two byte strings read as the same value.
\<close>

section \<open>Little-endian integers\<close>

fun le_bytes :: "nat \<Rightarrow> nat \<Rightarrow> bytes" where
  "le_bytes 0 n = []"
| "le_bytes (Suc k) n = of_nat (n mod 256) # le_bytes k (n div 256)"

fun le_val :: "bytes \<Rightarrow> nat" where
  "le_val [] = 0"
| "le_val (b # bs) = unat b + 256 * le_val bs"

definition read_exact :: "nat \<Rightarrow> bytes \<Rightarrow> (bytes \<times> bytes) option" where
  "read_exact n bs = (if n \<le> length bs then Some (take n bs, drop n bs) else None)"

definition write_word :: "'a::len word \<Rightarrow> bytes" where
  "write_word w = le_bytes (LENGTH('a) div 8) (unat w)"

definition read_word :: "bytes \<Rightarrow> ('a::len word \<times> bytes) option" where
  "read_word bs =
     (case read_exact (LENGTH('a) div 8) bs of
        None \<Rightarrow> None
      | Some (x, rest) \<Rightarrow> Some (of_nat (le_val x), rest))"

abbreviation write_u16 :: "u16 \<Rightarrow> bytes" where "write_u16 \<equiv> write_word"
abbreviation write_u32 :: "u32 \<Rightarrow> bytes" where "write_u32 \<equiv> write_word"
abbreviation write_u64 :: "u64 \<Rightarrow> bytes" where "write_u64 \<equiv> write_word"
abbreviation read_u16 :: "bytes \<Rightarrow> (u16 \<times> bytes) option" where "read_u16 \<equiv> read_word"
abbreviation read_u32 :: "bytes \<Rightarrow> (u32 \<times> bytes) option" where "read_u32 \<equiv> read_word"
abbreviation read_u64 :: "bytes \<Rightarrow> (u64 \<times> bytes) option" where "read_u64 \<equiv> read_word"

text \<open>The widths the sources use: two, four and eight bytes.\<close>

lemma length_le_bytes [simp]: "length (le_bytes k n) = k"
  by (induction k arbitrary: n) auto

lemma length_write_word [simp]: "length (write_word (w :: 'a::len word)) = LENGTH('a) div 8"
  by (simp add: write_word_def)

lemma unat_byte_mod [simp]: "unat (of_nat (n mod 256) :: byte) = n mod 256"
  by (simp add: unat_of_nat)

lemma le_val_le_bytes: "le_val (le_bytes k n) = n mod 256 ^ k"
proof (induction k arbitrary: n)
  case 0
  then show ?case by simp
next
  case (Suc k)
  have "n mod (256 * 256 ^ k) = 256 * (n div 256 mod 256 ^ k) + n mod 256"
    by (rule mod_mult2_eq)
  with Suc show ?case by simp
qed

lemma le_val_bound: "le_val bs < 256 ^ length bs"
proof (induction bs)
  case Nil
  then show ?case by simp
next
  case (Cons b bs)
  have "unat b < 256" using unsigned_less [of b, where ?'a = nat] by simp
  with Cons show ?case by simp
qed

lemma le_bytes_le_val: "le_bytes (length bs) (le_val bs) = bs"
proof (induction bs)
  case Nil
  then show ?case by simp
next
  case (Cons b bs)
  have b: "unat b < 256" using unsigned_less [of b, where ?'a = nat] by simp
  then have "(unat b + 256 * le_val bs) mod 256 = unat b" by simp
  moreover from b have "(unat b + 256 * le_val bs) div 256 = le_val bs" by simp
  ultimately show ?case using Cons by simp
qed

lemma read_exact_append [simp]: "n = length xs \<Longrightarrow> read_exact n (xs @ ys) = Some (xs, ys)"
  by (simp add: read_exact_def)

lemma read_exact_SomeD: "read_exact n bs = Some (x, rest) \<Longrightarrow> bs = x @ rest \<and> length x = n"
  by (auto simp: read_exact_def split: if_splits)

lemma read_exact_None [simp]: "read_exact n bs = None \<longleftrightarrow> length bs < n"
  by (auto simp: read_exact_def)

lemma read_exact_mono: "read_exact n bs = Some (x, rest) \<Longrightarrow> read_exact n (bs @ ys) = Some (x, rest @ ys)"
  by (auto simp: read_exact_def split: if_splits)

text \<open>A word type whose width is a whole number of bytes.\<close>

abbreviation byte_width :: "'a::len itself \<Rightarrow> bool" where
  "byte_width T \<equiv> 256 ^ (LENGTH('a) div 8) = (2 ^ LENGTH('a) :: nat)"

lemma read_word_write:
  assumes "byte_width TYPE('a::len)"
  shows "read_word (write_word (w :: 'a word) @ ys) = Some (w, ys)"
proof -
  have "unat w < 2 ^ LENGTH('a)" by (rule unsigned_less)
  with assms have "le_val (write_word w) = unat w"
    by (simp add: write_word_def le_val_le_bytes)
  then show ?thesis by (simp add: read_word_def)
qed

lemma read_word_SomeD_gen:
  assumes "byte_width TYPE('a::len)" and "read_word bs = Some (w :: 'a word, rest)"
  shows "bs = write_word w @ rest"
proof -
  from assms(2) obtain x where x: "bs = x @ rest" "length x = LENGTH('a) div 8"
    and w: "w = of_nat (le_val x)"
    by (auto simp: read_word_def dest!: read_exact_SomeD split: option.splits)
  from le_val_bound [of x] x(2) assms(1) have "le_val x < 2 ^ LENGTH('a)" by simp
  with w have "unat w = le_val x" by (simp add: unat_of_nat)
  with x(2) have "write_word w = x" by (simp add: write_word_def le_bytes_le_val flip: x(2))
  with x(1) show ?thesis by simp
qed

lemma byte_widths [simp]:
  "byte_width TYPE(16)" "byte_width TYPE(32)" "byte_width TYPE(64)"
  by simp_all

lemmas read_word_write_sized [simp] =
  read_word_write [where 'a = 16, simplified]
  read_word_write [where 'a = 32, simplified]
  read_word_write [where 'a = 64, simplified]

lemmas read_word_SomeD =
  read_word_SomeD_gen [where 'a = 16, OF byte_widths(1)]
  read_word_SomeD_gen [where 'a = 32, OF byte_widths(2)]
  read_word_SomeD_gen [where 'a = 64, OF byte_widths(3)]

lemma read_word_None [simp]:
  "(read_word bs :: ('a::len word \<times> bytes) option) = None \<longleftrightarrow> length bs < LENGTH('a) div 8"
  by (auto simp: read_word_def read_exact_def)

lemma read_word_short [simp]:
  "length bs < LENGTH('a) div 8 \<Longrightarrow> (read_word bs :: ('a::len word \<times> bytes) option) = None"
  by simp

lemma read_word_mono:
  "read_word bs = Some (w :: 'a::len word, rest) \<Longrightarrow> read_word (bs @ ys) = Some (w, rest @ ys)"
  by (auto simp: read_word_def read_exact_def split: if_splits)

lemma read_word_length:
  "read_word bs = Some (w :: 'a::len word, rest) \<Longrightarrow> length bs = LENGTH('a) div 8 + length rest"
  by (auto simp: read_word_def dest!: read_exact_SomeD split: option.splits)

text \<open>Reading from a torn prefix of what was written.\<close>

lemma read_exact_take:
  "n = length xs \<Longrightarrow>
    read_exact n (take k (xs @ ys)) = (if n \<le> k then Some (xs, take (k - n) ys) else None)"
  by (auto simp: read_exact_def)

lemma read_word_take:
  assumes "byte_width TYPE('a::len)"
  shows "read_word (take k (write_word (w :: 'a word) @ ys)) =
    (if LENGTH('a) div 8 \<le> k then Some (w, take (k - LENGTH('a) div 8) ys) else None)"
proof (cases "LENGTH('a) div 8 \<le> k")
  case True
  with read_word_write [OF assms, of w "take (k - LENGTH('a) div 8) ys"] show ?thesis
    by simp
qed simp

lemma read_word_take_last:
  assumes "byte_width TYPE('a::len)" and "k < LENGTH('a) div 8"
  shows "(read_word (take k (write_word (w :: 'a word))) :: ('a word \<times> bytes) option) = None"
  using assms by simp

lemmas read_word_take_sized =
  read_word_take [where 'a = 16, OF byte_widths(1)]
  read_word_take [where 'a = 32, OF byte_widths(2)]
  read_word_take [where 'a = 64, OF byte_widths(3)]
  read_word_take_last [where 'a = 16, OF byte_widths(1)]
  read_word_take_last [where 'a = 32, OF byte_widths(2)]
  read_word_take_last [where 'a = 64, OF byte_widths(3)]

text \<open>Inverting a successful sequence of reads.\<close>

lemmas read_invs = read_word_SomeD read_exact_SomeD

section \<open>Strings\<close>

definition as_byte :: "char \<Rightarrow> byte" where
  "as_byte c = of_nat (of_char c)"

definition as_bytes :: "string \<Rightarrow> bytes" where
  "as_bytes s = map as_byte s"

definition chars_of :: "bytes \<Rightarrow> string" where
  "chars_of bs = map (\<lambda>b. char_of (unat b)) bs"

lemma char_of_as_byte [simp]: "char_of (unat (as_byte c)) = c"
  by (simp add: as_byte_def unat_of_nat)

lemma as_byte_char_of [simp]: "as_byte (char_of (unat b)) = b"
proof -
  have "unat b < 256" using unsigned_less [of b, where ?'a = nat] by simp
  then show ?thesis by (simp add: as_byte_def)
qed

lemma chars_of_as_bytes [simp]: "chars_of (as_bytes s) = s"
  by (simp add: chars_of_def as_bytes_def comp_def)

lemma as_bytes_chars_of [simp]: "as_bytes (chars_of bs) = bs"
  by (simp add: chars_of_def as_bytes_def comp_def)

lemma length_as_bytes [simp]: "length (as_bytes s) = length s"
  by (simp add: as_bytes_def)

lemma as_bytes_inject [simp]: "as_bytes s = as_bytes t \<longleftrightarrow> s = t"
  by (metis chars_of_as_bytes)

subsection \<open>UTF-8\<close>

text \<open>
  Well-formed UTF-8 as the standard library checks it: no overlong forms, no surrogates, nothing
  above U+10FFFF (table 3-7 of the Unicode standard).
\<close>

definition utf8_cont :: "byte \<Rightarrow> bool" where
  "utf8_cont b \<longleftrightarrow> 0x80 \<le> b \<and> b \<le> 0xBF"

fun utf8_valid :: "bytes \<Rightarrow> bool" where
  "utf8_valid [] = True"
| "utf8_valid (a # bs) =
     (if a < 0x80 then utf8_valid bs
      else if 0xC2 \<le> a \<and> a \<le> 0xDF then
        (case bs of b # r \<Rightarrow> utf8_cont b \<and> utf8_valid r | _ \<Rightarrow> False)
      else if 0xE0 \<le> a \<and> a \<le> 0xEF then
        (case bs of b # c # r \<Rightarrow>
             utf8_cont b \<and> (a = 0xE0 \<longrightarrow> 0xA0 \<le> b) \<and> (a = 0xED \<longrightarrow> b \<le> 0x9F)
             \<and> utf8_cont c \<and> utf8_valid r
         | _ \<Rightarrow> False)
      else if 0xF0 \<le> a \<and> a \<le> 0xF4 then
        (case bs of b # c # d # r \<Rightarrow>
             utf8_cont b \<and> (a = 0xF0 \<longrightarrow> 0x90 \<le> b) \<and> (a = 0xF4 \<longrightarrow> b \<le> 0x8F)
             \<and> utf8_cont c \<and> utf8_cont d \<and> utf8_valid r
         | _ \<Rightarrow> False)
      else False)"

definition from_utf8 :: "bytes \<Rightarrow> string option" where
  "from_utf8 bs = (if utf8_valid bs then Some (chars_of bs) else None)"

text \<open>The invariant of the type \<^verbatim>\<open>String\<close>.\<close>

definition rust_string :: "string \<Rightarrow> bool" where
  "rust_string s \<longleftrightarrow> utf8_valid (as_bytes s)"

lemma from_utf8_as_bytes: "rust_string s \<Longrightarrow> from_utf8 (as_bytes s) = Some s"
  by (simp add: from_utf8_def rust_string_def)

lemma from_utf8_SomeD: "from_utf8 bs = Some s \<Longrightarrow> bs = as_bytes s \<and> rust_string s"
  by (auto simp: from_utf8_def rust_string_def split: if_splits)

lemma utf8_valid_ascii: "(\<forall>b\<in>set bs. b < 0x80) \<Longrightarrow> utf8_valid bs"
  by (induction bs) auto

text \<open>
  \<^verbatim>\<open>String::from_utf8_lossy\<close>: every maximal prefix of a well-formed sequence that is cut short, and
  every byte that starts none, becomes U+FFFD.
\<close>

definition utf8_second :: "byte \<Rightarrow> byte \<Rightarrow> bool" where
  "utf8_second a b \<longleftrightarrow>
     utf8_cont b \<and> (a = 0xE0 \<longrightarrow> 0xA0 \<le> b) \<and> (a = 0xED \<longrightarrow> b \<le> 0x9F)
     \<and> (a = 0xF0 \<longrightarrow> 0x90 \<le> b) \<and> (a = 0xF4 \<longrightarrow> b \<le> 0x8F)"

text \<open>The number of continuation bytes a lead byte asks for; \<open>None\<close> for a byte that is not a lead.\<close>

definition utf8_need :: "byte \<Rightarrow> nat option" where
  "utf8_need a =
     (if a < 0x80 then Some 0
      else if 0xC2 \<le> a \<and> a \<le> 0xDF then Some 1
      else if 0xE0 \<le> a \<and> a \<le> 0xEF then Some 2
      else if 0xF0 \<le> a \<and> a \<le> 0xF4 then Some 3
      else None)"

text \<open>How many of the following bytes continue the sequence that \<open>a\<close> starts, at most \<open>n\<close>.\<close>

definition utf8_run :: "byte \<Rightarrow> nat \<Rightarrow> bytes \<Rightarrow> nat" where
  "utf8_run a n bs =
     (case bs of
        [] \<Rightarrow> 0
      | b # r \<Rightarrow>
          if n = 0 \<or> \<not> utf8_second a b then 0
          else 1 + length (takeWhile utf8_cont (take (n - 1) r)))"

function utf8_lossy :: "bytes \<Rightarrow> bytes" where
  "utf8_lossy [] = []"
| "utf8_lossy (a # bs) =
     (case utf8_need a of
        None \<Rightarrow> [0xEF, 0xBF, 0xBD] @ utf8_lossy bs
      | Some n \<Rightarrow>
          let k = utf8_run a n bs
          in (if k = n then a # take n bs else [0xEF, 0xBF, 0xBD]) @ utf8_lossy (drop k bs))"
  by pat_completeness auto
termination
  by (relation "measure length") auto

declare utf8_lossy.simps(2) [simp del]

definition from_utf8_lossy :: "bytes \<Rightarrow> string" where
  "from_utf8_lossy bs = chars_of (utf8_lossy bs)"

lemma utf8_run_0 [simp]: "utf8_run a 0 bs = 0"
  by (simp add: utf8_run_def split: list.split)

lemma utf8_lossy_step:
  "utf8_need a = Some n \<Longrightarrow> utf8_run a n bs = n \<Longrightarrow> utf8_lossy (drop n bs) = drop n bs \<Longrightarrow>
    utf8_lossy (a # bs) = a # bs"
  by (simp add: utf8_lossy.simps(2))

lemma utf8_valid_step:
  assumes "utf8_valid (a # bs)"
  shows "\<exists>n. utf8_need a = Some n \<and> utf8_run a n bs = n \<and> utf8_valid (drop n bs)"
proof -
  have "a < 0x80 \<or> 0xC2 \<le> a \<and> a \<le> 0xDF \<or> 0xE0 \<le> a \<and> a \<le> 0xEF \<or> 0xF0 \<le> a \<and> a \<le> 0xF4"
    using assms by (auto split: if_splits)
  then consider (one) "a < 0x80" | (two) "0xC2 \<le> a" "a \<le> 0xDF" | (three) "0xE0 \<le> a" "a \<le> 0xEF"
    | (four) "0xF0 \<le> a" "a \<le> 0xF4" by blast
  then show ?thesis
  proof cases
    case one
    with assms show ?thesis by (simp add: utf8_need_def)
  next
    case two
    then have "\<not> a < 0x80" "a \<noteq> 0xE0" "a \<noteq> 0xED" "a \<noteq> 0xF0" "a \<noteq> 0xF4" by (auto simp: word_less_nat_alt word_le_nat_alt)
    with two assms show ?thesis
      by (auto simp: utf8_need_def utf8_run_def utf8_second_def split: list.splits)
  next
    case three
    then have "\<not> a < 0x80" "\<not> a \<le> 0xDF" "a \<noteq> 0xF0" "a \<noteq> 0xF4" by (auto simp: word_less_nat_alt word_le_nat_alt)
    with three assms show ?thesis
      by (auto simp: utf8_need_def utf8_run_def utf8_second_def split: list.splits)
  next
    case four
    then have "\<not> a < 0x80" "\<not> a \<le> 0xDF" "\<not> a \<le> 0xEF" "a \<noteq> 0xE0" "a \<noteq> 0xED" by (auto simp: word_less_nat_alt word_le_nat_alt)
    with four assms show ?thesis
      by (auto simp: utf8_need_def utf8_run_def utf8_second_def split: list.splits)
  qed
qed

lemma utf8_lossy_valid: "utf8_valid bs \<Longrightarrow> utf8_lossy bs = bs"
proof (induction bs rule: length_induct)
  case (1 bs)
  show ?case
  proof (cases bs)
    case (Cons a r)
    with 1 utf8_valid_step [of a r] obtain n where
      "utf8_need a = Some n" "utf8_run a n r = n" "utf8_valid (drop n r)" by auto
    with 1 Cons utf8_lossy_step [of a n r] show ?thesis by auto
  qed simp
qed

lemma from_utf8_lossy_string: "rust_string s \<Longrightarrow> from_utf8_lossy (as_bytes s) = s"
  by (simp add: from_utf8_lossy_def rust_string_def utf8_lossy_valid)

end
