(* ===== verification/Msgpack.thy ===== *)
theory Msgpack
  imports Bytes
begin

text \<open>
  MessagePack values as the crate \<^verbatim>\<open>rmpv\<close> represents them.  Decoding bytes
  (\<^verbatim>\<open>rmpv::decode::read_value\<close>) is third-party code and a parameter \<open>read_value\<close> of the
  definitions that call it; what the sources do with a decoded value is modelled.

  A string is the list of its bytes and need not be UTF-8 (\<^verbatim>\<open>Utf8String\<close>); integers are those of
  the 64-bit signed and unsigned ranges; floats are their IEEE bit patterns.
\<close>

datatype mp =
    MNil
  | MBool bool
  | MInt int
  | MF32 u32
  | MF64 u64
  | MStr bytes
  | MBin bytes
  | MArr "mp list"
  | MMap "(mp \<times> mp) list"
  | MExt int bytes

type_synonym read_value = "bytes \<Rightarrow> string + mp"

text \<open>\<^verbatim>\<open>Integer::as_u64\<close>, \<^verbatim>\<open>Integer::as_i64\<close>, \<^verbatim>\<open>Value::as_u64\<close>, \<^verbatim>\<open>Utf8String::as_str\<close>, \<^verbatim>\<open>Value::as_str\<close>.\<close>

definition int_as_u64 :: "int \<Rightarrow> u64 option" where
  "int_as_u64 i = (if 0 \<le> i \<and> i < 2 ^ 64 then Some (of_int i) else None)"

definition int_as_i64 :: "int \<Rightarrow> int option" where
  "int_as_i64 i = (if - (2 ^ 63) \<le> i \<and> i < 2 ^ 63 then Some i else None)"

fun mp_as_u64 :: "mp \<Rightarrow> u64 option" where
  "mp_as_u64 (MInt i) = int_as_u64 i"
| "mp_as_u64 _ = None"

fun mp_as_str :: "mp \<Rightarrow> string option" where
  "mp_as_str (MStr b) = from_utf8 b"
| "mp_as_str _ = None"

definition unwrap_or :: "'a \<Rightarrow> 'a option \<Rightarrow> 'a" where
  "unwrap_or d m = (case m of None \<Rightarrow> d | Some a \<Rightarrow> a)"

lemma unwrap_or_simps [simp]: "unwrap_or d None = d" "unwrap_or d (Some a) = a"
  by (simp_all add: unwrap_or_def)

lemma mp_as_str_rust_string: "mp_as_str v = Some s \<Longrightarrow> rust_string s"
  by (cases v) (auto dest: from_utf8_SomeD)

lemma int_as_u64_word [simp]: "int_as_u64 (uint w) = Some w"
  using unsigned_less [of w, where ?'a = int] by (simp add: int_as_u64_def)

end
