(* ===== verification/Record_Log.thy ===== *)
theory Record_Log
  imports Bytes
begin

text \<open>
  The append-only record files of the store (\<^verbatim>\<open>turns.log\<close>, \<^verbatim>\<open>turns.meta\<close>, \<^verbatim>\<open>heads.tbl\<close>,
  \<^verbatim>\<open>blobs.idx\<close>, \<^verbatim>\<open>roots.idx\<close>) are all loaded by the same kind of loop: decode one record at
  the cursor, fold it into the in-memory maps, and go on until the bytes run out or a record does not
  decode.  A loop body is a \<^emph>\<open>step\<close> on the bytes ahead of the cursor; \<open>scan_log\<close> is the loop.

  The locale \<open>record_log\<close> is the interface between a record format and this loop: how one record
  is written, and what the step makes of a written record, of a longer file and of a torn tail.
  What an append and a crash mean for the next load is proved once, here.  The formats that interpret
  it are in the component theories.
\<close>

section \<open>The scan loop\<close>

text \<open>
  What one iteration does: a record and the rest of the file; \<^verbatim>\<open>break\<close>;
  \<^verbatim>\<open>set_len(start)\<close> and \<^verbatim>\<open>break\<close>; or \<^verbatim>\<open>return Err(e)\<close>.
\<close>

datatype 'r scan_step = Rec 'r bytes | Stop_Keep | Stop_Trunc | Fail store_error

text \<open>
  The result is the folded state, the position at which the loop stopped and whether the file is
  cut off there.  The length guard never fails for the formats of the store: every record has at
  least one byte (\<open>step_progress\<close> below).
\<close>

function scan_log ::
    "(bytes \<Rightarrow> 'r scan_step) \<Rightarrow> (nat \<Rightarrow> 'r \<Rightarrow> 's \<Rightarrow> 's) \<Rightarrow> bytes \<Rightarrow> nat \<Rightarrow> 's \<Rightarrow> ('s \<times> nat \<times> bool) res" where
  "scan_log step ins bs pos st =
     (case step bs of
        Rec r rest \<Rightarrow>
          if length rest < length bs
          then scan_log step ins rest (pos + (length bs - length rest)) (ins pos r st)
          else Inr (st, pos, False)
      | Stop_Keep \<Rightarrow> Inr (st, pos, False)
      | Stop_Trunc \<Rightarrow> Inr (st, pos, True)
      | Fail e \<Rightarrow> Inl e)"
  by pat_completeness auto
termination
  by (relation "measure (\<lambda>(step, ins, bs, pos, st). length bs)") auto

declare scan_log.simps [simp del]

text \<open>The file after the loop: \<^verbatim>\<open>set_len(start)\<close> or untouched.\<close>

definition file_after :: "bytes \<Rightarrow> nat \<Rightarrow> bool \<Rightarrow> bytes" where
  "file_after file pos trunc = (if trunc then take pos file else file)"

text \<open>Folding a list of records that sit one behind the other from position \<open>pos\<close>.\<close>

fun ins_all :: "('r \<Rightarrow> bytes) \<Rightarrow> (nat \<Rightarrow> 'r \<Rightarrow> 's \<Rightarrow> 's) \<Rightarrow> nat \<Rightarrow> 'r list \<Rightarrow> 's \<Rightarrow> 's" where
  "ins_all enc ins pos [] st = st"
| "ins_all enc ins pos (r # rs) st = ins_all enc ins (pos + length (enc r)) rs (ins pos r st)"

text \<open>The whole file was read: the loop stopped at its end.\<close>

definition scans_to :: "(bytes \<Rightarrow> 'r scan_step) \<Rightarrow> (nat \<Rightarrow> 'r \<Rightarrow> 's \<Rightarrow> 's) \<Rightarrow> bytes \<Rightarrow> 's \<Rightarrow> 's \<Rightarrow> bool" where
  "scans_to step ins bs st st' \<longleftrightarrow>
     (case scan_log step ins bs 0 st of
        Inl e \<Rightarrow> False
      | Inr (t, pos, trunc) \<Rightarrow> t = st' \<and> pos = length bs)"

section \<open>Record formats\<close>

locale record_log =
  fixes step :: "bytes \<Rightarrow> 'r scan_step"
    and enc :: "'r \<Rightarrow> bytes"
    and valid :: "'r \<Rightarrow> bool"
  assumes step_enc: "valid r \<Longrightarrow> step (enc r @ rest) = Rec r rest"
    and step_progress: "step bs = Rec r rest \<Longrightarrow> length rest < length bs"
    and step_append: "step bs = Rec r rest \<Longrightarrow> step (bs @ ys) = Rec r (rest @ ys)"
    and step_empty: "step [] = Stop_Keep \<or> step [] = Stop_Trunc"
    and step_torn: "valid r \<Longrightarrow> enc r = p @ q \<Longrightarrow> q \<noteq> [] \<Longrightarrow> step p = Stop_Keep \<or> step p = Stop_Trunc"
begin

lemma scan_Rec:
  "step bs = Rec r rest \<Longrightarrow>
    scan_log step ins bs pos st = scan_log step ins rest (pos + (length bs - length rest)) (ins pos r st)"
  using step_progress by (subst scan_log.simps) auto

lemma scan_stop:
  "step bs = Stop_Keep \<or> step bs = Stop_Trunc \<Longrightarrow>
    scan_log step ins bs pos st = Inr (st, pos, step bs = Stop_Trunc)"
  by (subst scan_log.simps) auto

lemma enc_nonempty: "valid r \<Longrightarrow> enc r \<noteq> []"
  using step_enc [of r "[]"] step_progress [of "enc r" r "[]"] by auto

lemma scan_enc:
  "valid r \<Longrightarrow>
    scan_log step ins (enc r @ rest) pos st = scan_log step ins rest (pos + length (enc r)) (ins pos r st)"
  using scan_Rec [OF step_enc] by simp

text \<open>A loop that reached the end of \<open>bs\<close> goes on with whatever is appended to it.\<close>

lemma scan_append:
  assumes "scan_log step ins bs pos st = Inr (st', pos + length bs, trunc)"
  shows "scan_log step ins (bs @ ys) pos st = scan_log step ins ys (pos + length bs) st'"
  using assms
proof (induction step\<equiv>step ins bs pos st rule: scan_log.induct)
  case (1 ins bs pos st)
  show ?case
  proof (cases "step bs")
    case (Rec r rest)
    then have less: "length rest < length bs" by (rule step_progress)
    let ?pos = "pos + (length bs - length rest)"
    from 1(2) Rec less have "scan_log step ins rest ?pos (ins pos r st) = Inr (st', ?pos + length rest, trunc)"
      by (simp add: scan_Rec)
    from 1(1) [OF Rec less this]
    have "scan_log step ins (rest @ ys) ?pos (ins pos r st) = scan_log step ins ys (?pos + length rest) st'" .
    with scan_Rec [OF step_append [OF Rec], of ins ys pos st] less show ?thesis by simp
  next
    case Stop_Keep
    with 1(2) have "bs = []" "st = st'" by (auto simp: scan_stop)
    then show ?thesis by simp
  next
    case Stop_Trunc
    with 1(2) have "bs = []" "st = st'" by (auto simp: scan_stop)
    then show ?thesis by simp
  next
    case (Fail e)
    with 1(2) show ?thesis by (subst (asm) scan_log.simps) simp
  qed
qed

lemma scans_toD:
  "scans_to step ins bs st st' \<Longrightarrow> \<exists>trunc. scan_log step ins bs 0 st = Inr (st', 0 + length bs, trunc)"
  by (auto simp: scans_to_def split: sum.splits prod.splits)

lemma scans_to_Nil: "scans_to step ins [] st st"
  using step_empty by (auto simp: scans_to_def scan_stop)

text \<open>Appending a record to a file that loads completely gives one that loads completely.\<close>

lemma scans_to_append:
  assumes "scans_to step ins bs st st'" and "valid r"
  shows "scans_to step ins (bs @ enc r) st (ins (length bs) r st')"
proof -
  from scans_toD [OF assms(1)] obtain trunc
    where "scan_log step ins bs 0 st = Inr (st', 0 + length bs, trunc)" ..
  from scan_append [OF this, of "enc r"]
  have "scan_log step ins (bs @ enc r) 0 st = scan_log step ins (enc r) (length bs) st'" by simp
  also have "\<dots> = scan_log step ins [] (length bs + length (enc r)) (ins (length bs) r st')"
    using scan_enc [OF assms(2), of ins "[]"] by simp
  finally show ?thesis using step_empty by (auto simp: scans_to_def scan_stop)
qed

lemma scans_to_concat:
  "(\<And>r. r \<in> set rs \<Longrightarrow> valid r) \<Longrightarrow>
    scan_log step ins (concat (map enc rs) @ bs) pos st =
    scan_log step ins bs (pos + length (concat (map enc rs))) (ins_all enc ins pos rs st)"
  by (induction rs arbitrary: pos st) (simp_all add: scan_enc add.assoc)

text \<open>
  A crash while a record was being appended leaves a strict prefix of it behind: the next load still
  succeeds, with exactly the records written before.
\<close>

lemma scan_torn:
  assumes "scans_to step ins bs st st'" and "valid r" and "enc r = p @ q" and "q \<noteq> []"
  shows "scan_log step ins (bs @ p) 0 st = Inr (st', length bs, step p = Stop_Trunc)"
proof -
  from scans_toD [OF assms(1)] obtain trunc
    where "scan_log step ins bs 0 st = Inr (st', 0 + length bs, trunc)" ..
  from scan_append [OF this, of p]
  have "scan_log step ins (bs @ p) 0 st = scan_log step ins p (length bs) st'" by simp
  with step_torn [OF assms(2-4)] show ?thesis by (simp add: scan_stop)
qed

text \<open>Whatever number of bytes of the record reached the file.\<close>

lemma scan_take:
  assumes "scans_to step ins bs st st'" and "valid r"
  shows "\<exists>pos trunc. scan_log step ins (bs @ take k (enc r)) 0 st =
    Inr (if k < length (enc r) then st' else ins (length bs) r st', pos, trunc)"
proof (cases "k < length (enc r)")
  case True
  then have "enc r = take k (enc r) @ drop k (enc r)" "drop k (enc r) \<noteq> []" by simp_all
  from scan_torn [OF assms this] True show ?thesis by auto
next
  case False
  with scans_toD [OF scans_to_append [OF assms]] show ?thesis by auto
qed

end

text \<open>
  How a format is shown to satisfy the interface: the step reads back what is written and accepts
  nothing else, so progress and stability under appending follow.
\<close>

lemma record_logI:
  assumes enc: "\<And>r rest. valid r \<Longrightarrow> step (enc r @ rest) = Rec r rest"
    and inv: "\<And>bs r rest. step bs = Rec r rest \<Longrightarrow> bs = enc r @ rest \<and> valid r"
    and ne: "\<And>r. valid r \<Longrightarrow> enc r \<noteq> []"
    and empty: "step [] = Stop_Keep \<or> step [] = Stop_Trunc"
    and torn: "\<And>r k. valid r \<Longrightarrow> k < length (enc r) \<Longrightarrow>
      step (take k (enc r)) = Stop_Keep \<or> step (take k (enc r)) = Stop_Trunc"
  shows "record_log step enc valid"
proof
  fix r rest bs ys p q
  show "valid r \<Longrightarrow> step (enc r @ rest) = Rec r rest" by (rule enc)
  show "length rest < length bs" if "step bs = Rec r rest"
    using inv [OF that] ne [of r] by auto
  show "step (bs @ ys) = Rec r (rest @ ys)" if "step bs = Rec r rest"
    using inv [OF that] enc [of r "rest @ ys"] by simp
  show "step [] = Stop_Keep \<or> step [] = Stop_Trunc" by (rule empty)
  show "step p = Stop_Keep \<or> step p = Stop_Trunc" if "valid r" "enc r = p @ q" "q \<noteq> []"
    using torn [OF that(1), of "length p"] that(2,3) by simp
qed

text \<open>
  A format whose step cuts off every torn tail.  Only then is the file again a sequence of whole
  records after the load, so that what is appended next can be read back.
\<close>

locale truncating_log = record_log +
  assumes torn_trunc:
    "valid r \<Longrightarrow> enc r = p @ q \<Longrightarrow> p \<noteq> [] \<Longrightarrow> q \<noteq> [] \<Longrightarrow> step p = Stop_Trunc"
begin

lemma torn_repaired:
  assumes "scans_to step ins bs st st'" and "valid r" and "enc r = p @ q" and "q \<noteq> []"
  shows "\<exists>trunc. scan_log step ins (bs @ p) 0 st = Inr (st', length bs, trunc) \<and>
    file_after (bs @ p) (length bs) trunc = bs"
proof (cases "p = []")
  case True
  with scan_torn [OF assms] show ?thesis by (auto simp: file_after_def)
next
  case False
  with scan_torn [OF assms] torn_trunc [OF assms(2,3) False assms(4)] show ?thesis
    by (auto simp: file_after_def)
qed

text \<open>After the repair, appending is again safe.\<close>

lemma take_repaired:
  assumes "scans_to step ins bs st st'" and "valid r"
  shows "\<exists>pos trunc. scan_log step ins (bs @ take k (enc r)) 0 st =
      Inr (if k < length (enc r) then st' else ins (length bs) r st', pos, trunc) \<and>
    file_after (bs @ take k (enc r)) pos trunc = (if k < length (enc r) then bs else bs @ enc r)"
proof (cases "k < length (enc r)")
  case True
  then have "enc r = take k (enc r) @ drop k (enc r)" "drop k (enc r) \<noteq> []" by simp_all
  from torn_repaired [OF assms this] True show ?thesis by auto
next
  case False
  from scans_toD [OF scans_to_append [OF assms]] obtain trunc where
    "scan_log step ins (bs @ enc r) 0 st = Inr (ins (length bs) r st', length (bs @ enc r), trunc)" by auto
  moreover have "file_after (bs @ enc r) (length (bs @ enc r)) trunc = bs @ enc r"
    by (simp add: file_after_def)
  ultimately show ?thesis using False by auto
qed

end

end
