(* ===== verification/Turn_Store.thy ===== *)
theory Turn_Store
  imports Record_Log
begin

text \<open>
  The turn store (\<^verbatim>\<open>server/src/turn_store/mod.rs\<close>): an append-only DAG of turns, a table of
  context heads and the per-turn type metadata, kept in memory and in four files.

  The state record has one field per field of \<^verbatim>\<open>TurnStore\<close>; a file is the list of its bytes.
  Every operation returns the new state together with its result, so that what a failing call leaves
  behind is visible.  CRC-32 (crate \<^verbatim>\<open>crc32fast\<close>) is the parameter \<open>crc\<close>; the clock
  (\<^verbatim>\<open>now_unix_ms\<close>) is an argument \<open>now\<close>.  The four loaders are instances of
  \<open>scan_log\<close>; their record formats interpret \<open>record_log\<close>, and the turn log also
  \<open>truncating_log\<close>.
\<close>

section \<open>Data\<close>

record TurnRecord =
  tr_turn_id :: u64
  tr_parent_turn_id :: u64
  tr_depth :: u32
  tr_codec :: u32
  tr_type_tag :: u64
  tr_payload_hash :: bytes
  tr_flags :: u32
  tr_created_at_unix_ms :: u64

record TurnMeta =
  tm_declared_type_id :: string
  tm_declared_type_version :: u32
  tm_encoding :: u32
  tm_compression :: u32
  tm_uncompressed_len :: u32

record ContextHead =
  ch_context_id :: u64
  ch_head_turn_id :: u64
  ch_head_depth :: u32
  ch_created_at_unix_ms :: u64
  ch_flags :: u32

record TurnStore =
  turns_log :: bytes
  turns_idx :: bytes
  turns_meta :: bytes
  heads_tbl :: bytes
  turns :: "u64 \<rightharpoonup> TurnRecord"
  turn_index :: "u64 \<rightharpoonup> u64"
  turn_meta :: "u64 \<rightharpoonup> TurnMeta"
  heads :: "u64 \<rightharpoonup> ContextHead"
  next_turn_id :: u64
  next_context_id :: u64

type_synonym crc_fun = "bytes \<Rightarrow> u32"

section \<open>Record encodings\<close>

definition turn_record_body :: "TurnRecord \<Rightarrow> bytes" where
  "turn_record_body r =
     write_u64 (tr_turn_id r) @ write_u64 (tr_parent_turn_id r) @ write_u32 (tr_depth r)
     @ write_u32 (tr_codec r) @ write_u64 (tr_type_tag r) @ tr_payload_hash r
     @ write_u32 (tr_flags r) @ write_u64 (tr_created_at_unix_ms r)"

definition encode_turn_record :: "crc_fun \<Rightarrow> TurnRecord \<Rightarrow> bytes" where
  "encode_turn_record crc r = turn_record_body r @ write_u32 (crc (turn_record_body r))"

definition read_turn_record :: "crc_fun \<Rightarrow> bytes \<Rightarrow> (TurnRecord \<times> bytes) res" where
  "read_turn_record crc bs =
     (case do {
        (turn_id, bs) \<leftarrow> read_u64 bs;
        (parent_turn_id, bs) \<leftarrow> read_u64 bs;
        (depth, bs) \<leftarrow> read_u32 bs;
        (codec, bs) \<leftarrow> read_u32 bs;
        (type_tag, bs) \<leftarrow> read_u64 bs;
        (payload_hash, bs) \<leftarrow> read_exact 32 bs;
        (flags, bs) \<leftarrow> read_u32 bs;
        (created_at, bs) \<leftarrow> read_u64 bs;
        (stored_crc, bs) \<leftarrow> read_u32 bs;
        Some (\<lparr>tr_turn_id = turn_id, tr_parent_turn_id = parent_turn_id, tr_depth = depth,
               tr_codec = codec, tr_type_tag = type_tag, tr_payload_hash = payload_hash,
               tr_flags = flags, tr_created_at_unix_ms = created_at\<rparr>, stored_crc, bs)
      } of
        None \<Rightarrow> Inl (Io UnexpectedEof)
      | Some (r, stored_crc, rest) \<Rightarrow>
          if stored_crc \<noteq> crc (turn_record_body r) then Inl (Corrupt ''turn crc mismatch'')
          else Inr (r, rest))"

definition encode_turn_meta :: "u64 \<times> TurnMeta \<Rightarrow> bytes" where
  "encode_turn_meta tm =
     (case tm of (turn_id, m) \<Rightarrow>
       write_u64 turn_id @ write_u32 (of_nat (length (tm_declared_type_id m)))
       @ as_bytes (tm_declared_type_id m) @ write_u32 (tm_declared_type_version m)
       @ write_u32 (tm_encoding m) @ write_u32 (tm_compression m) @ write_u32 (tm_uncompressed_len m))"

definition head_body :: "ContextHead \<Rightarrow> bytes" where
  "head_body h =
     write_u64 (ch_context_id h) @ write_u64 (ch_head_turn_id h) @ write_u32 (ch_head_depth h)
     @ write_u32 (ch_flags h) @ write_u64 (ch_created_at_unix_ms h)"

definition encode_head :: "crc_fun \<Rightarrow> ContextHead \<Rightarrow> bytes" where
  "encode_head crc h = head_body h @ write_u32 (crc (head_body h))"

section \<open>Loading\<close>

subsection \<open>Loop bodies\<close>

definition turn_step :: "crc_fun \<Rightarrow> bytes \<Rightarrow> TurnRecord scan_step" where
  "turn_step crc bs =
     (case read_turn_record crc bs of
        Inr (r, rest) \<Rightarrow> Rec r rest
      | Inl (Corrupt _) \<Rightarrow> Stop_Trunc
      | Inl (Io UnexpectedEof) \<Rightarrow> Stop_Trunc
      | Inl e \<Rightarrow> Fail e)"

definition meta_step :: "bytes \<Rightarrow> (u64 \<times> TurnMeta) scan_step" where
  "meta_step bs =
     (case read_u64 bs of
        None \<Rightarrow> Stop_Keep
      | Some (turn_id, bs) \<Rightarrow>
     (case do { (len, bs) \<leftarrow> read_u32 bs; read_exact (unat len) bs } of
        None \<Rightarrow> Stop_Trunc
      | Some (buf, bs) \<Rightarrow>
     (case from_utf8 buf of
        None \<Rightarrow> Fail (Corrupt ''invalid type id utf8'')
      | Some declared_type_id \<Rightarrow>
     (case do {
        (declared_type_version, bs) \<leftarrow> read_u32 bs;
        (encoding, bs) \<leftarrow> read_u32 bs;
        (compression, bs) \<leftarrow> read_u32 bs;
        (uncompressed_len, bs) \<leftarrow> read_u32 bs;
        Some (\<lparr>tm_declared_type_id = declared_type_id,
               tm_declared_type_version = declared_type_version, tm_encoding = encoding,
               tm_compression = compression, tm_uncompressed_len = uncompressed_len\<rparr>, bs)
      } of
        None \<Rightarrow> Stop_Trunc
      | Some (m, rest) \<Rightarrow> Rec (turn_id, m) rest))))"

definition head_step :: "crc_fun \<Rightarrow> bytes \<Rightarrow> ContextHead scan_step" where
  "head_step crc bs =
     (case read_u64 bs of
        None \<Rightarrow> Stop_Keep
      | Some (context_id, bs) \<Rightarrow>
     (case do {
        (head_turn_id, bs) \<leftarrow> read_u64 bs;
        (head_depth, bs) \<leftarrow> read_u32 bs;
        (flags, bs) \<leftarrow> read_u32 bs;
        (created_at, bs) \<leftarrow> read_u64 bs;
        (stored_crc, bs) \<leftarrow> read_u32 bs;
        Some (\<lparr>ch_context_id = context_id, ch_head_turn_id = head_turn_id,
               ch_head_depth = head_depth, ch_created_at_unix_ms = created_at,
               ch_flags = flags\<rparr>, stored_crc, bs)
      } of
        None \<Rightarrow> Stop_Trunc
      | Some (h, stored_crc, rest) \<Rightarrow>
          if stored_crc \<noteq> crc (head_body h) then Stop_Trunc else Rec h rest))"

subsection \<open>Loaders\<close>

definition ins_turn ::
    "nat \<Rightarrow> TurnRecord \<Rightarrow> (u64 \<rightharpoonup> TurnRecord) \<times> (u64 \<rightharpoonup> u64) \<Rightarrow> (u64 \<rightharpoonup> TurnRecord) \<times> (u64 \<rightharpoonup> u64)" where
  "ins_turn pos r st =
     ((fst st)(tr_turn_id r \<mapsto> r), (snd st)(tr_turn_id r \<mapsto> of_nat pos))"

definition ins_meta :: "nat \<Rightarrow> u64 \<times> TurnMeta \<Rightarrow> (u64 \<rightharpoonup> TurnMeta) \<Rightarrow> (u64 \<rightharpoonup> TurnMeta)" where
  "ins_meta pos tm m = m(fst tm \<mapsto> snd tm)"

definition ins_head :: "nat \<Rightarrow> ContextHead \<Rightarrow> (u64 \<rightharpoonup> ContextHead) \<Rightarrow> (u64 \<rightharpoonup> ContextHead)" where
  "ins_head pos h m = m(ch_context_id h \<mapsto> h)"

definition load_turns :: "crc_fun \<Rightarrow> TurnStore \<Rightarrow> TurnStore res" where
  "load_turns crc s =
     (case scan_log (turn_step crc) ins_turn (turns_log s) 0 (Map.empty, Map.empty) of
        Inl e \<Rightarrow> Inl e
      | Inr ((ts, ix), pos, trunc) \<Rightarrow>
          Inr (s\<lparr>turns := ts, turn_index := ix, turns_log := file_after (turns_log s) pos trunc\<rparr>))"

definition load_meta :: "TurnStore \<Rightarrow> TurnStore res" where
  "load_meta s =
     (case scan_log meta_step ins_meta (turns_meta s) 0 Map.empty of
        Inl e \<Rightarrow> Inl e
      | Inr (m, pos, trunc) \<Rightarrow>
          Inr (s\<lparr>turn_meta := m, turns_meta := file_after (turns_meta s) pos trunc\<rparr>))"

definition load_heads :: "crc_fun \<Rightarrow> TurnStore \<Rightarrow> TurnStore res" where
  "load_heads crc s =
     (case scan_log (head_step crc) ins_head (heads_tbl s) 0 Map.empty of
        Inl e \<Rightarrow> Inl e
      | Inr (m, pos, trunc) \<Rightarrow>
          Inr (s\<lparr>heads := m, heads_tbl := file_after (heads_tbl s) pos trunc\<rparr>))"

definition idx_entry :: "u64 \<times> u64 \<Rightarrow> bytes" where
  "idx_entry e = write_u64 (fst e) @ write_u64 (snd e)"

definition rebuild_index :: "(u64, u64) hash_iter \<Rightarrow> TurnStore \<Rightarrow> TurnStore" where
  "rebuild_index it s = s\<lparr>turns_idx := concat (map idx_entry (it (turn_index s)))\<rparr>"

text \<open>\<^verbatim>\<open>keys().max()\<close>\<close>

definition max_key :: "(u64 \<rightharpoonup> 'a) \<Rightarrow> u64 option" where
  "max_key m = (if dom m = {} then None else Some (Max (dom m)))"

definition update_counters :: "TurnStore \<Rightarrow> TurnStore" where
  "update_counters s =
     s\<lparr>next_turn_id := (case max_key (turns s) of None \<Rightarrow> next_turn_id s | Some m \<Rightarrow> m + 1),
       next_context_id := (case max_key (heads s) of None \<Rightarrow> next_context_id s | Some m \<Rightarrow> m + 1)\<rparr>"

text \<open>\<^verbatim>\<open>TurnStore::open\<close> on the contents of the four files.\<close>

definition ts_new :: "bytes \<Rightarrow> bytes \<Rightarrow> bytes \<Rightarrow> bytes \<Rightarrow> TurnStore" where
  "ts_new log idx meta hds =
     \<lparr>turns_log = log, turns_idx = idx, turns_meta = meta, heads_tbl = hds,
      turns = Map.empty, turn_index = Map.empty, turn_meta = Map.empty, heads = Map.empty,
      next_turn_id = 1, next_context_id = 1\<rparr>"

definition ts_open ::
    "crc_fun \<Rightarrow> (u64, u64) hash_iter \<Rightarrow> bytes \<Rightarrow> bytes \<Rightarrow> bytes \<Rightarrow> bytes \<Rightarrow> TurnStore res" where
  "ts_open crc it log idx meta hds =
     rbind (load_turns crc (ts_new log idx meta hds)) (\<lambda>s.
     rbind (load_meta s) (\<lambda>s.
     rbind (load_heads crc s) (\<lambda>s.
     Inr (update_counters (rebuild_index it s)))))"

section \<open>Writing\<close>

definition write_head :: "crc_fun \<Rightarrow> TurnStore \<Rightarrow> ContextHead \<Rightarrow> TurnStore" where
  "write_head crc s h = s\<lparr>heads_tbl := heads_tbl s @ encode_head crc h\<rparr>"

text \<open>The head a new context starts from: empty, or an existing turn.\<close>

definition resolve_base :: "TurnStore \<Rightarrow> u64 \<Rightarrow> (u64 \<times> u32) res" where
  "resolve_base s base_turn_id =
     (if base_turn_id = 0 then Inr (0, 0)
      else (case turns s base_turn_id of
              None \<Rightarrow> Inl (NotFound ''base turn'')
            | Some turn \<Rightarrow> Inr (tr_turn_id turn, tr_depth turn)))"

definition create_context :: "crc_fun \<Rightarrow> u64 \<Rightarrow> TurnStore \<Rightarrow> u64 \<Rightarrow> TurnStore \<times> ContextHead res" where
  "create_context crc now s base_turn_id =
     (case resolve_base s base_turn_id of
        Inl e \<Rightarrow> (s, Inl e)
      | Inr (head_turn_id, head_depth) \<Rightarrow>
          let context_id = next_context_id s;
              s = s\<lparr>next_context_id := next_context_id s + 1\<rparr>;
              head = \<lparr>ch_context_id = context_id, ch_head_turn_id = head_turn_id,
                      ch_head_depth = head_depth, ch_created_at_unix_ms = now, ch_flags = 0\<rparr>;
              s = write_head crc s head
          in (s\<lparr>heads := (heads s)(context_id \<mapsto> head)\<rparr>, Inr head))"

definition fork_context :: "crc_fun \<Rightarrow> u64 \<Rightarrow> TurnStore \<Rightarrow> u64 \<Rightarrow> TurnStore \<times> ContextHead res" where
  "fork_context crc now s base_turn_id = create_context crc now s base_turn_id"

text \<open>The parent an append attaches to, and the depth of the new turn.\<close>

definition resolve_parent :: "TurnStore \<Rightarrow> u64 \<Rightarrow> u64 \<Rightarrow> (u64 \<times> u32) res" where
  "resolve_parent s context_id parent_turn_id =
     (if parent_turn_id \<noteq> 0 then
        (case turns s parent_turn_id of
           None \<Rightarrow> Inl (NotFound ''parent turn'')
         | Some parent \<Rightarrow> Inr (tr_turn_id parent, tr_depth parent + 1))
      else
        (case heads s context_id of
           None \<Rightarrow> Inl (NotFound ''context'')
         | Some head \<Rightarrow>
             if ch_head_turn_id head = 0 then Inr (0, 0)
             else (case turns s (ch_head_turn_id head) of
                     None \<Rightarrow> Inl (NotFound ''head turn'')
                   | Some parent \<Rightarrow> Inr (tr_turn_id parent, tr_depth parent + 1))))"

definition append_turn ::
    "crc_fun \<Rightarrow> u64 \<Rightarrow> TurnStore \<Rightarrow> u64 \<Rightarrow> u64 \<Rightarrow> bytes \<Rightarrow> u32 \<Rightarrow> string \<Rightarrow> u32 \<Rightarrow> u32 \<Rightarrow> u32
     \<Rightarrow> TurnStore \<times> TurnRecord res" where
  "append_turn crc now s context_id parent_turn_id payload_hash encoding declared_type_id
      declared_type_version compression uncompressed_len =
     (case resolve_parent s context_id parent_turn_id of
        Inl e \<Rightarrow> (s, Inl e)
      | Inr (parent_id, depth) \<Rightarrow>
          let turn_id = next_turn_id s;
              s = s\<lparr>next_turn_id := next_turn_id s + 1\<rparr>;
              rec = \<lparr>tr_turn_id = turn_id, tr_parent_turn_id = parent_id, tr_depth = depth,
                     tr_codec = encoding, tr_type_tag = 0, tr_payload_hash = payload_hash,
                     tr_flags = 0, tr_created_at_unix_ms = now\<rparr>;
              offset = of_nat (length (turns_log s)) :: u64;
              s = s\<lparr>turns_log := turns_log s @ encode_turn_record crc rec\<rparr>;
              s = s\<lparr>turns_idx := turns_idx s @ idx_entry (turn_id, offset)\<rparr>;
              meta = \<lparr>tm_declared_type_id = declared_type_id,
                      tm_declared_type_version = declared_type_version, tm_encoding = encoding,
                      tm_compression = compression, tm_uncompressed_len = uncompressed_len\<rparr>;
              s = s\<lparr>turns_meta := turns_meta s @ encode_turn_meta (turn_id, meta)\<rparr>;
              s = s\<lparr>turn_meta := (turn_meta s)(turn_id \<mapsto> meta)\<rparr>;
              s = s\<lparr>turns := (turns s)(turn_id \<mapsto> rec)\<rparr>;
              s = s\<lparr>turn_index := (turn_index s)(turn_id \<mapsto> offset)\<rparr>;
              head = \<lparr>ch_context_id = context_id, ch_head_turn_id = turn_id,
                      ch_head_depth = depth, ch_created_at_unix_ms = tr_created_at_unix_ms rec,
                      ch_flags = 0\<rparr>;
              s = write_head crc s head
          in (s\<lparr>heads := (heads s)(context_id \<mapsto> head)\<rparr>, Inr rec))"

section \<open>Reading\<close>

definition get_head :: "TurnStore \<Rightarrow> u64 \<Rightarrow> ContextHead res" where
  "get_head s context_id = ok_or (NotFound ''context'') (heads s context_id)"

definition get_turn :: "TurnStore \<Rightarrow> u64 \<Rightarrow> TurnRecord res" where
  "get_turn s turn_id = ok_or (NotFound ''turn'') (turns s turn_id)"

definition get_turn_meta :: "TurnStore \<Rightarrow> u64 \<Rightarrow> TurnMeta res" where
  "get_turn_meta s turn_id = ok_or (NotFound ''turn meta'') (turn_meta s turn_id)"

text \<open>
  The loop \<^verbatim>\<open>while current != 0 && results.len() < limit\<close> of \<^verbatim>\<open>get_last\<close> and
  \<^verbatim>\<open>get_before\<close>: the turns from \<open>current\<close> towards the root, at most \<open>n\<close> of them, nearest
  first.
\<close>

fun walk_back :: "(u64 \<rightharpoonup> TurnRecord) \<Rightarrow> u64 \<Rightarrow> nat \<Rightarrow> TurnRecord list res" where
  "walk_back ts current 0 = Inr []"
| "walk_back ts current (Suc n) =
     (if current = 0 then Inr []
      else (case ts current of
              None \<Rightarrow> Inl (NotFound ''turn'')
            | Some rec \<Rightarrow> rbind (walk_back ts (tr_parent_turn_id rec) n) (\<lambda>rs. Inr (rec # rs))))"

definition get_last :: "TurnStore \<Rightarrow> u64 \<Rightarrow> u32 \<Rightarrow> TurnRecord list res" where
  "get_last s context_id limit =
     (case heads s context_id of
        None \<Rightarrow> Inl (NotFound ''context'')
      | Some head \<Rightarrow> map_sum id rev (walk_back (turns s) (ch_head_turn_id head) (unat limit)))"

definition get_before :: "TurnStore \<Rightarrow> u64 \<Rightarrow> u64 \<Rightarrow> u32 \<Rightarrow> TurnRecord list res" where
  "get_before s context_id before_turn_id limit =
     (case heads s context_id of
        None \<Rightarrow> Inl (NotFound ''context'')
      | Some head \<Rightarrow>
          if before_turn_id = 0 \<or> ch_head_turn_id head = 0 then get_last s context_id limit
          else (case turns s before_turn_id of
                  None \<Rightarrow> Inl (NotFound ''before turn'')
                | Some before \<Rightarrow>
                    map_sum id rev (walk_back (turns s) (tr_parent_turn_id before) (unat limit))))"

text \<open>
  The loop of \<^verbatim>\<open>get_first_turn\<close> has no bound of its own: on a parent chain with a cycle it does
  not return, which is \<open>None\<close>.
\<close>

partial_function (option) first_turn_loop ::
    "(u64 \<rightharpoonup> TurnRecord) \<Rightarrow> u64 \<Rightarrow> TurnRecord res option" where
  "first_turn_loop ts current =
     (if current = 0 then Some (Inl (NotFound ''first turn''))
      else (case ts current of
              None \<Rightarrow> Some (Inl (NotFound ''turn''))
            | Some rec \<Rightarrow>
                if tr_depth rec = 0 then Some (Inr rec)
                else first_turn_loop ts (tr_parent_turn_id rec)))"

definition get_first_turn :: "TurnStore \<Rightarrow> u64 \<Rightarrow> TurnRecord res option" where
  "get_first_turn s context_id =
     (case heads s context_id of
        None \<Rightarrow> Some (Inl (NotFound ''context''))
      | Some head \<Rightarrow> first_turn_loop (turns s) (ch_head_turn_id head))"

text \<open>
  \<^verbatim>\<open>list_recent_contexts\<close>: a stable sort, newest first, of the heads in hash order.
\<close>

definition recent_first :: "ContextHead list \<Rightarrow> ContextHead list" where
  "recent_first hs = sort_key (\<lambda>h. - int (unat (ch_created_at_unix_ms h))) hs"

definition list_recent_contexts :: "(u64, ContextHead) hash_iter \<Rightarrow> TurnStore \<Rightarrow> u32 \<Rightarrow> ContextHead list" where
  "list_recent_contexts it s limit = take (unat limit) (recent_first (map snd (it (heads s))))"

record TurnStoreStats =
  turns_total :: nat
  contexts_total :: nat
  heads_total :: nat
  turns_log_bytes :: nat
  turns_index_bytes :: nat
  turns_meta_bytes :: nat
  heads_table_bytes :: nat

definition ts_stats :: "TurnStore \<Rightarrow> TurnStoreStats" where
  "ts_stats s =
     \<lparr>turns_total = card (dom (turns s)), contexts_total = card (dom (heads s)),
      heads_total = card (dom (heads s)), turns_log_bytes = length (turns_log s),
      turns_index_bytes = length (turns_idx s), turns_meta_bytes = length (turns_meta s),
      heads_table_bytes = length (heads_tbl s)\<rparr>"

section \<open>The record formats\<close>

definition valid_turn :: "TurnRecord \<Rightarrow> bool" where
  "valid_turn r \<longleftrightarrow> length (tr_payload_hash r) = 32"

definition valid_meta :: "u64 \<times> TurnMeta \<Rightarrow> bool" where
  "valid_meta tm \<longleftrightarrow>
     rust_string (tm_declared_type_id (snd tm)) \<and> length (tm_declared_type_id (snd tm)) < 2 ^ 32"

named_theorems codec_defs \<open>definitions of the record writers and readers\<close>

declare turn_record_body_def [codec_defs] encode_turn_record_def [codec_defs]
  encode_turn_meta_def [codec_defs] head_body_def [codec_defs] encode_head_def [codec_defs]

lemma unat_len_u32: "n < 2 ^ 32 \<Longrightarrow> unat (of_nat n :: u32) = n"
  by (simp add: unat_of_nat)

lemma read_turn_record_encode:
  "valid_turn r \<Longrightarrow> read_turn_record crc (encode_turn_record crc r @ rest) = Inr (r, rest)"
  by (cases r) (simp add: read_turn_record_def codec_defs valid_turn_def)

lemma read_turn_record_InrD:
  "read_turn_record crc bs = Inr (r, rest) \<Longrightarrow> bs = encode_turn_record crc r @ rest \<and> valid_turn r"
  by (auto simp: read_turn_record_def codec_defs valid_turn_def bind_eq_Some_conv
      dest!: read_invs split: option.splits if_splits)

lemma length_encode_turn_record: "valid_turn r \<Longrightarrow> length (encode_turn_record crc r) = 80"
  by (simp add: codec_defs valid_turn_def)

lemma read_turn_record_short: "length bs < 80 \<Longrightarrow> read_turn_record crc bs = Inl (Io UnexpectedEof)"
  by (auto simp: read_turn_record_def bind_eq_Some_conv split: option.split
      dest!: read_word_length read_exact_SomeD)

lemma turn_step_Rec: "turn_step crc bs = Rec r rest \<longleftrightarrow> read_turn_record crc bs = Inr (r, rest)"
  by (auto simp: turn_step_def split: sum.splits store_error.splits io_kind.splits)

lemma turn_step_short: "length bs < 80 \<Longrightarrow> turn_step crc bs = Stop_Trunc"
  by (simp add: turn_step_def read_turn_record_short)

interpretation turn_log: truncating_log "turn_step crc" "encode_turn_record crc" valid_turn for crc
proof (intro truncating_log.intro truncating_log_axioms.intro record_logI)
  fix r p q
  show "turn_step crc p = Stop_Trunc" if "valid_turn r" "encode_turn_record crc r = p @ q" "q \<noteq> []"
    using that length_encode_turn_record [of r crc] by (cases q) (simp_all add: turn_step_short)
qed (auto simp: turn_step_Rec read_turn_record_encode read_turn_record_InrD turn_step_short
      length_encode_turn_record simp flip: length_greater_0_conv)

lemma meta_step_enc: "valid_meta tm \<Longrightarrow> meta_step (encode_turn_meta tm @ rest) = Rec tm rest"
  by (cases tm) (simp add: meta_step_def codec_defs valid_meta_def unat_len_u32 from_utf8_as_bytes)

lemma len_eq_unat:
  "length xs = unat (w :: u32) \<Longrightarrow> of_nat (length xs) = w \<and> length xs < 2 ^ 32"
  using unsigned_less [of w, where ?'a = nat] by simp

lemma meta_step_RecD: "meta_step bs = Rec tm rest \<Longrightarrow> bs = encode_turn_meta tm @ rest \<and> valid_meta tm"
  by (auto simp: meta_step_def codec_defs valid_meta_def bind_eq_Some_conv
      dest!: read_invs from_utf8_SomeD len_eq_unat split: option.splits)

lemma meta_step_torn:
  "valid_meta tm \<Longrightarrow> k < length (encode_turn_meta tm) \<Longrightarrow>
    meta_step (take k (encode_turn_meta tm)) = (if k < 8 then Stop_Keep else Stop_Trunc)"
  by (cases tm) (auto simp: meta_step_def codec_defs valid_meta_def unat_len_u32 from_utf8_as_bytes
      read_word_take_sized read_exact_take simp del: take_append)

lemma head_step_enc: "head_step crc (encode_head crc h @ rest) = Rec h rest"
  by (cases h) (simp add: head_step_def codec_defs)

lemma head_step_RecD: "head_step crc bs = Rec h rest \<Longrightarrow> bs = encode_head crc h @ rest"
  by (auto simp: head_step_def codec_defs bind_eq_Some_conv
      dest!: read_invs split: option.splits if_splits)

lemma head_step_torn:
  "k < length (encode_head crc h) \<Longrightarrow>
    head_step crc (take k (encode_head crc h)) = (if k < 8 then Stop_Keep else Stop_Trunc)"
  by (auto simp: head_step_def codec_defs read_word_take_sized simp del: take_append)

lemma meta_step_Nil [simp]: "meta_step [] = Stop_Keep"
  by (simp add: meta_step_def)

lemma head_step_Nil [simp]: "head_step crc [] = Stop_Keep"
  by (simp add: head_step_def)

lemma length_encode_turn_meta:
  "length (encode_turn_meta tm) = 28 + length (tm_declared_type_id (snd tm))"
  by (cases tm) (simp add: codec_defs)

lemma length_encode_head: "length (encode_head crc h) = 36"
  by (simp add: codec_defs)

lemma encodings_nonempty [simp]: "encode_turn_meta tm \<noteq> []" "encode_head crc h \<noteq> []"
  using length_encode_turn_meta [of tm] length_encode_head [of crc h] by auto

interpretation meta_log: record_log meta_step encode_turn_meta valid_meta
  by (rule record_logI) (simp_all add: meta_step_enc meta_step_RecD meta_step_torn)

interpretation head_log: record_log "head_step crc" "encode_head crc" "\<lambda>_. True" for crc
  by (rule record_logI) (simp_all add: head_step_enc head_step_RecD head_step_torn)

end
