(* ===== verification/Blob_Store.thy ===== *)
theory Blob_Store
  imports Record_Log
begin

text \<open>
  The blob store (\<^verbatim>\<open>server/src/blob_store/mod.rs\<close>): content-addressed payloads in an append-only
  pack file, found through an index file that is loaded into memory.

  Compression (crate \<^verbatim>\<open>zstd\<close>) is two parameters: \<open>zenc\<close> for \<^verbatim>\<open>encode_all(_, 1)\<close>, which may
  fail, and \<open>zdec\<close> for \<^verbatim>\<open>decode_all\<close>, whose failure carries a message.  What the store needs of them
  is that decoding undoes encoding (\<open>zstd_ok\<close>).  \<^verbatim>\<open>crc32fast\<close> is the parameter \<open>crc\<close>.
\<close>

section \<open>Data\<close>

datatype BlobCodec = Codec_None | Codec_Zstd

record BlobIndexEntry =
  be_offset :: u64
  be_raw_len :: u32
  be_stored_len :: u32
  be_codec :: BlobCodec

record BlobStore =
  pack_file :: bytes
  idx_file :: bytes
  index :: "bytes \<rightharpoonup> BlobIndexEntry"

type_synonym zstd_enc = "bytes \<Rightarrow> bytes option"
type_synonym zstd_dec = "bytes \<Rightarrow> string + bytes"

definition zstd_ok :: "zstd_enc \<Rightarrow> zstd_dec \<Rightarrow> bool" where
  "zstd_ok zenc zdec \<longleftrightarrow> (\<forall>raw z. zenc raw = Some z \<longrightarrow> zdec z = Inr raw)"

definition BLOB_MAGIC :: u32 where "BLOB_MAGIC = 0x42534C42"
definition BLOB_VERSION :: u16 where "BLOB_VERSION = 1"

fun codec_u16 :: "BlobCodec \<Rightarrow> u16" where
  "codec_u16 Codec_None = 0"
| "codec_u16 Codec_Zstd = 1"

definition codec_of_u16 :: "u16 \<Rightarrow> BlobCodec option" where
  "codec_of_u16 w = (if w = 0 then Some Codec_None else if w = 1 then Some Codec_Zstd else None)"

section \<open>The index file\<close>

definition encode_blob_idx :: "bytes \<times> BlobIndexEntry \<times> u16 \<Rightarrow> bytes" where
  "encode_blob_idx r =
     (case r of (hash, e, reserved) \<Rightarrow>
       hash @ write_u64 (be_offset e) @ write_u32 (be_raw_len e) @ write_u32 (be_stored_len e)
       @ write_u16 (codec_u16 (be_codec e)) @ write_u16 reserved)"

text \<open>
  One iteration of \<^verbatim>\<open>load_index\<close>.  A partial entry ends the loop, and the file is then cut at
  \<^verbatim>\<open>valid_len\<close>, the end of the last whole entry.
\<close>

definition blob_idx_step :: "bytes \<Rightarrow> (bytes \<times> BlobIndexEntry \<times> u16) scan_step" where
  "blob_idx_step bs =
     (if bs = [] then Stop_Keep
      else if length bs < 52 then Stop_Trunc
      else (case do {
        (hash, bs) \<leftarrow> read_exact 32 bs;
        (offset, bs) \<leftarrow> read_u64 bs;
        (raw_len, bs) \<leftarrow> read_u32 bs;
        (stored_len, bs) \<leftarrow> read_u32 bs;
        (codec_raw, bs) \<leftarrow> read_u16 bs;
        (reserved, bs) \<leftarrow> read_u16 bs;
        Some (hash, offset, raw_len, stored_len, codec_raw, reserved, bs)
      } of
        None \<Rightarrow> Stop_Trunc
      | Some (hash, offset, raw_len, stored_len, codec_raw, reserved, rest) \<Rightarrow>
          (case codec_of_u16 codec_raw of
             None \<Rightarrow> Fail (Corrupt ''unknown blob codec'')
           | Some codec \<Rightarrow>
               Rec (hash, \<lparr>be_offset = offset, be_raw_len = raw_len, be_stored_len = stored_len,
                           be_codec = codec\<rparr>, reserved) rest)))"

definition ins_blob :: "nat \<Rightarrow> bytes \<times> BlobIndexEntry \<times> u16 \<Rightarrow> (bytes \<rightharpoonup> BlobIndexEntry) \<Rightarrow> (bytes \<rightharpoonup> BlobIndexEntry)" where
  "ins_blob pos r m = m(fst r \<mapsto> fst (snd r))"

definition load_index :: "BlobStore \<Rightarrow> BlobStore res" where
  "load_index s =
     (case scan_log blob_idx_step ins_blob (idx_file s) 0 (index s) of
        Inl e \<Rightarrow> Inl e
      | Inr (m, pos, trunc) \<Rightarrow> Inr (s\<lparr>index := m, idx_file := file_after (idx_file s) pos trunc\<rparr>))"

definition blob_open :: "bytes \<Rightarrow> bytes \<Rightarrow> BlobStore res" where
  "blob_open pack idx = load_index \<lparr>pack_file = pack, idx_file = idx, index = Map.empty\<rparr>"

section \<open>Writing\<close>

definition contains :: "BlobStore \<Rightarrow> bytes \<Rightarrow> bool" where
  "contains s hash \<longleftrightarrow> index s hash \<noteq> None"

definition blob_header :: "bytes \<Rightarrow> BlobCodec \<Rightarrow> u32 \<Rightarrow> u32 \<Rightarrow> bytes" where
  "blob_header hash codec raw_len stored_len =
     write_u32 BLOB_MAGIC @ write_u16 BLOB_VERSION @ write_u16 (codec_u16 codec)
     @ write_u32 raw_len @ write_u32 stored_len @ hash"

definition choose_codec :: "zstd_enc \<Rightarrow> bytes \<Rightarrow> bytes \<times> BlobCodec" where
  "choose_codec zenc raw_bytes =
     (case zenc raw_bytes of
        Some compressed \<Rightarrow>
          if length compressed < length raw_bytes then (compressed, Codec_Zstd) else (raw_bytes, Codec_None)
      | None \<Rightarrow> (raw_bytes, Codec_None))"

definition put_if_absent ::
    "(bytes \<Rightarrow> u32) \<Rightarrow> zstd_enc \<Rightarrow> BlobStore \<Rightarrow> bytes \<Rightarrow> bytes \<Rightarrow> BlobStore \<times> BlobIndexEntry res" where
  "put_if_absent crc zenc s hash raw_bytes =
     (case index s hash of
        Some entry \<Rightarrow> (s, Inr entry)
      | None \<Rightarrow>
          let (stored_bytes, codec) = choose_codec zenc raw_bytes;
              raw_len = of_nat (length raw_bytes);
              stored_len = of_nat (length stored_bytes);
              offset = of_nat (length (pack_file s));
              header = blob_header hash codec raw_len stored_len;
              crc32 = crc (header @ stored_bytes);
              s = s\<lparr>pack_file := pack_file s @ header @ stored_bytes @ write_u32 crc32\<rparr>;
              entry = \<lparr>be_offset = offset, be_raw_len = raw_len, be_stored_len = stored_len, be_codec = codec\<rparr>;
              s = s\<lparr>idx_file := idx_file s @ encode_blob_idx (hash, entry, 0)\<rparr>
          in (s\<lparr>index := (index s)(hash \<mapsto> entry)\<rparr>, Inr entry))"

section \<open>Reading\<close>

text \<open>
  \<^verbatim>\<open>read_at\<close> (\<^verbatim>\<open>pread\<close>) on a file: what the file has at the offset, nothing at or past its
  end; an offset that is not a signed 64-bit number is refused by the system.
\<close>

definition read_at :: "bytes \<Rightarrow> u64 \<Rightarrow> nat \<Rightarrow> bytes res" where
  "read_at file offset n =
     (if 2 ^ 63 \<le> unat offset then Inl (Io OtherIo)
      else Inr (take n (drop (unat offset) file)))"

text \<open>The loop of \<^verbatim>\<open>read_at_exact\<close>; \<open>buf\<close> is what has been read so far, \<open>n\<close> the length of the buffer.\<close>

function read_at_exact :: "bytes \<Rightarrow> u64 \<Rightarrow> nat \<Rightarrow> bytes \<Rightarrow> bytes res" where
  "read_at_exact file offset n buf =
     (if length buf < n then
        (case read_at file (offset + of_nat (length buf)) (n - length buf) of
           Inl e \<Rightarrow> Inl e
         | Inr chunk \<Rightarrow>
             if chunk = [] then Inl (Corrupt ''unexpected EOF reading blob'')
             else read_at_exact file offset n (buf @ chunk))
      else Inr buf)"
  by pat_completeness auto
termination
  by (relation "measure (\<lambda>(file, offset, n, buf). n - length buf)") (auto simp: neq_Nil_conv)

declare read_at_exact.simps [simp del]

definition HEADER_SIZE :: nat where "HEADER_SIZE = 48"

definition decode_header :: "bytes \<Rightarrow> (u32 \<times> u16 \<times> u16 \<times> u32 \<times> u32 \<times> bytes) res" where
  "decode_header header =
     ok_or (Io UnexpectedEof) (do {
        (magic, bs) \<leftarrow> read_u32 header;
        (version, bs) \<leftarrow> read_u16 bs;
        (codec_raw, bs) \<leftarrow> read_u16 bs;
        (raw_len, bs) \<leftarrow> read_u32 bs;
        (stored_len, bs) \<leftarrow> read_u32 bs;
        (stored_hash, bs) \<leftarrow> read_exact 32 bs;
        Some (magic, version, codec_raw, raw_len, stored_len, stored_hash)
      })"

text \<open>
  The checks \<^verbatim>\<open>get\<close> makes on the header, in their order.  (The source tests the magic and the version
  before it reads on; as the header always has its 48 bytes, reading cannot fail in between.)
\<close>

definition check_header :: "bytes \<Rightarrow> BlobIndexEntry \<Rightarrow> bytes \<Rightarrow> (u16 \<times> u32 \<times> u32) res" where
  "check_header hash entry header =
     rbind (decode_header header) (\<lambda>(magic, version, codec_raw, raw_len, stored_len, stored_hash).
       if magic \<noteq> BLOB_MAGIC then Inl (Corrupt ''invalid blob magic'')
       else if version \<noteq> BLOB_VERSION then Inl (Corrupt ''unsupported blob version'')
       else if stored_hash \<noteq> hash then Inl (Corrupt ''blob hash mismatch'')
       else if stored_len \<noteq> be_stored_len entry \<or> raw_len \<noteq> be_raw_len entry then
         Inl (Corrupt ''blob index/header length mismatch'')
       else Inr (codec_raw, raw_len, stored_len))"

definition decode_body :: "zstd_dec \<Rightarrow> BlobCodec \<Rightarrow> bytes \<Rightarrow> bytes res" where
  "decode_body zdec codec stored_bytes =
     (case codec of
        Codec_None \<Rightarrow> Inr stored_bytes
      | Codec_Zstd \<Rightarrow>
          (case zdec stored_bytes of
             Inl e \<Rightarrow> Inl (Corrupt (''zstd decode failed: '' @ e))
           | Inr raw \<Rightarrow> Inr raw))"

definition blob_get :: "(bytes \<Rightarrow> u32) \<Rightarrow> zstd_dec \<Rightarrow> BlobStore \<Rightarrow> bytes \<Rightarrow> bytes res" where
  "blob_get crc zdec s hash =
     (case index s hash of
        None \<Rightarrow> Inl (NotFound ''blob'')
      | Some entry \<Rightarrow>
     rbind (read_at_exact (pack_file s) (be_offset entry) HEADER_SIZE []) (\<lambda>header.
     rbind (check_header hash entry header) (\<lambda>(codec_raw, raw_len, stored_len).
     if 2 ^ 64 \<le> unat (be_offset entry) + HEADER_SIZE then Inl (Corrupt ''blob offset overflow'')
     else if 2 ^ 64 \<le> unat stored_len + 4 then Inl (Corrupt ''blob length overflow'')
     else
       rbind (read_at_exact (pack_file s) (be_offset entry + of_nat HEADER_SIZE) (unat stored_len + 4) []) (\<lambda>body.
       let stored_bytes = take (unat stored_len) body in
       rbind (ok_or (Io UnexpectedEof) (read_u32 (take 4 (drop (unat stored_len) body)))) (\<lambda>(crc32, _).
       if crc32 \<noteq> crc (header @ stored_bytes) then Inl (Corrupt ''blob crc mismatch'')
       else
         (case codec_of_u16 codec_raw of
            None \<Rightarrow> Inl (Corrupt ''unknown blob codec'')
          | Some codec \<Rightarrow>
              rbind (decode_body zdec codec stored_bytes) (\<lambda>raw_bytes.
              if of_nat (length raw_bytes) \<noteq> raw_len then Inl (Corrupt ''blob length mismatch'')
              else Inr raw_bytes)))))))"

definition raw_len :: "BlobStore \<Rightarrow> bytes \<Rightarrow> u32 option" where
  "raw_len s hash = map_option be_raw_len (index s hash)"

definition stored_len :: "BlobStore \<Rightarrow> bytes \<Rightarrow> u32 option" where
  "stored_len s hash = map_option be_stored_len (index s hash)"

record BlobStoreStats =
  blobs_total :: nat
  pack_bytes :: nat
  idx_bytes :: nat

definition blob_stats :: "BlobStore \<Rightarrow> BlobStoreStats" where
  "blob_stats s =
     \<lparr>blobs_total = card (dom (index s)), pack_bytes = length (pack_file s), idx_bytes = length (idx_file s)\<rparr>"

section \<open>The index file as a record log\<close>

definition valid_idx :: "bytes \<times> BlobIndexEntry \<times> u16 \<Rightarrow> bool" where
  "valid_idx r \<longleftrightarrow> length (fst r) = 32"

lemma codec_of_u16_codec [simp]: "codec_of_u16 (codec_u16 c) = Some c"
  by (cases c) (auto simp: codec_of_u16_def)

lemma codec_of_u16_SomeD: "codec_of_u16 w = Some c \<Longrightarrow> w = codec_u16 c"
  by (auto simp: codec_of_u16_def split: if_splits)

lemma length_encode_blob_idx: "valid_idx r \<Longrightarrow> length (encode_blob_idx r) = 52"
  by (cases r) (simp add: encode_blob_idx_def valid_idx_def)

lemma blob_idx_step_enc: "valid_idx r \<Longrightarrow> blob_idx_step (encode_blob_idx r @ rest) = Rec r rest"
  by (cases r) (auto simp: blob_idx_step_def encode_blob_idx_def valid_idx_def)

lemma blob_idx_step_RecD:
  "blob_idx_step bs = Rec r rest \<Longrightarrow> bs = encode_blob_idx r @ rest \<and> valid_idx r"
  by (auto simp: blob_idx_step_def encode_blob_idx_def valid_idx_def bind_eq_Some_conv
      dest!: read_invs codec_of_u16_SomeD split: option.splits if_splits)

lemma blob_idx_step_short: "bs \<noteq> [] \<Longrightarrow> length bs < 52 \<Longrightarrow> blob_idx_step bs = Stop_Trunc"
  by (simp add: blob_idx_step_def)

lemma blob_idx_step_Nil [simp]: "blob_idx_step [] = Stop_Keep"
  by (simp add: blob_idx_step_def)

interpretation blob_idx_log: truncating_log blob_idx_step encode_blob_idx valid_idx
proof (intro truncating_log.intro truncating_log_axioms.intro record_logI)
  fix r p q
  show "blob_idx_step p = Stop_Trunc" if "valid_idx r" "encode_blob_idx r = p @ q" "p \<noteq> []" "q \<noteq> []"
    using that length_encode_blob_idx [of r] by (cases q) (simp_all add: blob_idx_step_short)
next
  fix r k
  assume "valid_idx r" "k < length (encode_blob_idx r)"
  then show "blob_idx_step (take k (encode_blob_idx r)) = Stop_Keep \<or>
      blob_idx_step (take k (encode_blob_idx r)) = Stop_Trunc"
    by (cases k) (auto simp: length_encode_blob_idx intro: blob_idx_step_short)
qed (auto simp: blob_idx_step_enc blob_idx_step_RecD length_encode_blob_idx simp flip: length_greater_0_conv)

end
