(* ===== verification/Fs_Store.thy ===== *)
theory Fs_Store
  imports Msgpack Turn_Store Blob_Store
begin

text \<open>
  Filesystem snapshots (\<^verbatim>\<open>server/src/fs_store/mod.rs\<close>): the index from turns to snapshot roots, and
  directory trees read from the blob store.

  Trees are blobs, so the functions that walk them take the blob store's \<open>blob_get\<close> partially
  applied, as \<open>get\<close>; \<^verbatim>\<open>rmpv\<close> is the parameter \<open>read_value\<close>.
\<close>

section \<open>Data\<close>

datatype EntryKind = File | Directory | Symlink

definition entry_kind :: "u8 \<Rightarrow> EntryKind" where
  "entry_kind v = (if v = 0 then File else if v = 1 then Directory else if v = 2 then Symlink else File)"

record TreeEntry =
  te_name :: string
  te_kind :: u8
  te_mode :: u32
  te_size :: u64
  te_hash :: bytes

definition hash_array :: "TreeEntry \<Rightarrow> bytes res" where
  "hash_array e =
     (if length (te_hash e) \<noteq> 32
      then Inl (Corrupt (''invalid hash length: '' @ dec_str (length (te_hash e))))
      else Inr (te_hash e))"

definition kind_enum :: "TreeEntry \<Rightarrow> EntryKind" where
  "kind_enum e = entry_kind (te_kind e)"

record FsRootsIndex =
  fr_file :: bytes
  fr_roots :: "u64 \<rightharpoonup> bytes"

section \<open>The roots index\<close>

definition compute_crc :: "crc_fun \<Rightarrow> u64 \<Rightarrow> bytes \<Rightarrow> u32" where
  "compute_crc crc turn_id fs_root_hash = crc (write_u64 turn_id @ fs_root_hash)"

definition encode_root :: "crc_fun \<Rightarrow> u64 \<times> bytes \<Rightarrow> bytes" where
  "encode_root crc r =
     (case r of (turn_id, fs_root_hash) \<Rightarrow>
       write_u64 turn_id @ fs_root_hash @ write_u32 (compute_crc crc turn_id fs_root_hash))"

definition root_step :: "crc_fun \<Rightarrow> bytes \<Rightarrow> (u64 \<times> bytes) scan_step" where
  "root_step crc bs =
     (case read_u64 bs of
        None \<Rightarrow> Stop_Keep
      | Some (turn_id, bs) \<Rightarrow>
     (case read_exact 32 bs of
        None \<Rightarrow> Stop_Trunc
      | Some (fs_root_hash, bs) \<Rightarrow>
     (case read_u32 bs of
        None \<Rightarrow> Stop_Trunc
      | Some (stored_crc, rest) \<Rightarrow>
          if stored_crc \<noteq> compute_crc crc turn_id fs_root_hash then Stop_Trunc
          else Rec (turn_id, fs_root_hash) rest)))"

definition ins_root :: "nat \<Rightarrow> u64 \<times> bytes \<Rightarrow> (u64 \<rightharpoonup> bytes) \<Rightarrow> (u64 \<rightharpoonup> bytes)" where
  "ins_root pos r m = m(fst r \<mapsto> snd r)"

definition fs_open :: "crc_fun \<Rightarrow> bytes \<Rightarrow> FsRootsIndex res" where
  "fs_open crc file' =
     (case scan_log (root_step crc) ins_root file' 0 Map.empty of
        Inl e \<Rightarrow> Inl e
      | Inr (m, pos, trunc) \<Rightarrow> Inr \<lparr>fr_file = file_after file' pos trunc, fr_roots = m\<rparr>)"

definition attach :: "crc_fun \<Rightarrow> FsRootsIndex \<Rightarrow> u64 \<Rightarrow> bytes \<Rightarrow> FsRootsIndex" where
  "attach crc f turn_id fs_root_hash =
     f\<lparr>fr_file := fr_file f @ encode_root crc (turn_id, fs_root_hash),
       fr_roots := (fr_roots f)(turn_id \<mapsto> fs_root_hash)\<rparr>"

definition fs_get :: "FsRootsIndex \<Rightarrow> u64 \<Rightarrow> bytes option" where
  "fs_get f turn_id = fr_roots f turn_id"

text \<open>The walk up the parent chain; not returning is \<open>None\<close>.\<close>

partial_function (option) inherited_loop ::
    "(u64 \<rightharpoonup> bytes) \<Rightarrow> TurnStore \<Rightarrow> u64 \<Rightarrow> bytes option option" where
  "inherited_loop roots ts current =
     (if current = 0 then Some None
      else (case get_turn ts current of
              Inl e \<Rightarrow> Some None
            | Inr turn \<Rightarrow>
                (case roots (tr_turn_id turn) of
                   Some hash \<Rightarrow> Some (Some hash)
                 | None \<Rightarrow> inherited_loop roots ts (tr_parent_turn_id turn))))"

definition get_inherited :: "FsRootsIndex \<Rightarrow> TurnStore \<Rightarrow> u64 \<Rightarrow> bytes option option" where
  "get_inherited f ts turn_id =
     (case fr_roots f turn_id of
        Some hash \<Rightarrow> Some (Some hash)
      | None \<Rightarrow> inherited_loop (fr_roots f) ts turn_id)"

definition has_snapshot :: "FsRootsIndex \<Rightarrow> TurnStore \<Rightarrow> u64 \<Rightarrow> bool option" where
  "has_snapshot f ts turn_id = map_option (\<lambda>r. r \<noteq> None) (get_inherited f ts turn_id)"

text \<open>\<^verbatim>\<open>unique_roots\<close>: the root hashes in hash order, each once.\<close>

fun uniq :: "'a set \<Rightarrow> 'a list \<Rightarrow> 'a list" where
  "uniq seen [] = []"
| "uniq seen (x # xs) = (if x \<in> seen then uniq seen xs else x # uniq (insert x seen) xs)"

definition unique_roots :: "(u64, bytes) hash_iter \<Rightarrow> FsRootsIndex \<Rightarrow> bytes list" where
  "unique_roots it f = uniq {} (map snd (it (fr_roots f)))"

record FsRootsStats =
  entries_total :: nat
  file_bytes :: nat
  content_bytes :: nat

definition fs_stats :: "FsRootsIndex \<Rightarrow> FsRootsStats" where
  "fs_stats f = \<lparr>entries_total = card (dom (fr_roots f)), file_bytes = length (fr_file f), content_bytes = 0\<rparr>"

section \<open>Trees\<close>

definition tree_key :: "mp \<Rightarrow> u64 option" where
  "tree_key k =
     (case k of
        MInt i \<Rightarrow> Some (unwrap_or 0 (int_as_u64 i))
      | MStr s \<Rightarrow> Some (unwrap_or 0 (Option.bind (from_utf8 s) parse_u64))
      | _ \<Rightarrow> None)"

definition tree_field :: "TreeEntry \<Rightarrow> mp \<times> mp \<Rightarrow> TreeEntry" where
  "tree_field e kv =
     (case tree_key (fst kv) of
        None \<Rightarrow> e
      | Some key \<Rightarrow>
          if key = 1 then (case snd kv of MStr s \<Rightarrow> e\<lparr>te_name := unwrap_or [] (from_utf8 s)\<rparr> | _ \<Rightarrow> e)
          else if key = 2 then (case snd kv of MInt i \<Rightarrow> e\<lparr>te_kind := ucast (unwrap_or 0 (int_as_u64 i))\<rparr> | _ \<Rightarrow> e)
          else if key = 3 then (case snd kv of MInt i \<Rightarrow> e\<lparr>te_mode := ucast (unwrap_or 0 (int_as_u64 i))\<rparr> | _ \<Rightarrow> e)
          else if key = 4 then (case snd kv of MInt i \<Rightarrow> e\<lparr>te_size := unwrap_or 0 (int_as_u64 i)\<rparr> | _ \<Rightarrow> e)
          else if key = 5 then (case snd kv of MBin b \<Rightarrow> e\<lparr>te_hash := b\<rparr> | _ \<Rightarrow> e)
          else e)"

definition parse_tree_entry :: "mp \<Rightarrow> TreeEntry res" where
  "parse_tree_entry v =
     (case v of
        MMap m \<Rightarrow> Inr (foldl tree_field \<lparr>te_name = [], te_kind = 0, te_mode = 0, te_size = 0, te_hash = []\<rparr> m)
      | _ \<Rightarrow> Inl (Corrupt ''tree entry is not a map''))"

fun parse_tree_items :: "mp list \<Rightarrow> TreeEntry list res" where
  "parse_tree_items [] = Inr []"
| "parse_tree_items (v # vs) =
     rbind (parse_tree_entry v) (\<lambda>e. rbind (parse_tree_items vs) (\<lambda>es. Inr (e # es)))"

definition parse_tree_entries :: "read_value \<Rightarrow> bytes \<Rightarrow> TreeEntry list res" where
  "parse_tree_entries read_value bs =
     (case read_value bs of
        Inl e \<Rightarrow> Inl (Corrupt (''invalid tree msgpack: '' @ e))
      | Inr (MArr arr) \<Rightarrow> parse_tree_items arr
      | Inr _ \<Rightarrow> Inl (Corrupt ''tree is not an array''))"

definition load_tree_entries :: "read_value \<Rightarrow> (bytes \<Rightarrow> bytes res) \<Rightarrow> bytes \<Rightarrow> TreeEntry list res" where
  "load_tree_entries read_value get tree_hash = rbind (get tree_hash) (parse_tree_entries read_value)"

subsection \<open>Paths\<close>

text \<open>\<^verbatim>\<open>trim_matches\<close>, \<^verbatim>\<open>split\<close> and the filter on the components.\<close>

definition trim_matches :: "char \<Rightarrow> string \<Rightarrow> string" where
  "trim_matches c s = rev (dropWhile (\<lambda>x. x = c) (rev (dropWhile (\<lambda>x. x = c) s)))"

fun split_on :: "char \<Rightarrow> string \<Rightarrow> string list" where
  "split_on c [] = [[]]"
| "split_on c (x # xs) =
     (if x = c then [] # split_on c xs
      else (case split_on c xs of [] \<Rightarrow> [[x]] | p # ps \<Rightarrow> (x # p) # ps))"

definition path_parts :: "string \<Rightarrow> string list" where
  "path_parts path = filter (\<lambda>s. s \<noteq> [] \<and> s \<noteq> ''.'') (split_on (CHR ''/'') (trim_matches (CHR ''/'') path))"

definition find_entry :: "TreeEntry list \<Rightarrow> string \<Rightarrow> TreeEntry res" where
  "find_entry entries part =
     ok_or (NotFound (''path component not found: '' @ part)) (find (\<lambda>e. te_name e = part) entries)"

definition lookup_part :: "read_value \<Rightarrow> (bytes \<Rightarrow> bytes res) \<Rightarrow> bytes \<Rightarrow> string \<Rightarrow> (TreeEntry \<times> bytes) res" where
  "lookup_part read_value get current_hash part =
     rbind (load_tree_entries read_value get current_hash) (\<lambda>entries.
     rbind (find_entry entries part) (\<lambda>entry.
     rbind (hash_array entry) (\<lambda>entry_hash. Inr (entry, entry_hash))))"

text \<open>The loops of \<^verbatim>\<open>resolve_path\<close> and \<^verbatim>\<open>get_file_at_path\<close> over the components.  The empty list is
  \<^verbatim>\<open>unreachable!()\<close>: both callers return before it.\<close>

fun resolve_loop :: "read_value \<Rightarrow> (bytes \<Rightarrow> bytes res) \<Rightarrow> bytes \<Rightarrow> string list \<Rightarrow> (bytes \<times> bool) res option" where
  "resolve_loop read_value get current_hash [] = None"
| "resolve_loop read_value get current_hash (part # parts) =
     (case lookup_part read_value get current_hash part of
        Inl e \<Rightarrow> Some (Inl e)
      | Inr (entry, entry_hash) \<Rightarrow>
          if parts = [] then Some (Inr (entry_hash, kind_enum entry = Directory))
          else if kind_enum entry \<noteq> Directory then Some (Inl (InvalidInput (''not a directory: '' @ part)))
          else resolve_loop read_value get entry_hash parts)"

definition resolve_path :: "read_value \<Rightarrow> (bytes \<Rightarrow> bytes res) \<Rightarrow> bytes \<Rightarrow> string \<Rightarrow> (bytes \<times> bool) res option" where
  "resolve_path read_value get root_hash path =
     (if path = [] \<or> path = ''/'' then Some (Inr (root_hash, True))
      else if path_parts path = [] then Some (Inr (root_hash, True))
      else resolve_loop read_value get root_hash (path_parts path))"

fun file_loop :: "read_value \<Rightarrow> (bytes \<Rightarrow> bytes res) \<Rightarrow> string \<Rightarrow> bytes \<Rightarrow> string list \<Rightarrow> (bytes \<times> TreeEntry) res option" where
  "file_loop read_value get path current_hash [] = None"
| "file_loop read_value get path current_hash (part # parts) =
     (case lookup_part read_value get current_hash part of
        Inl e \<Rightarrow> Some (Inl e)
      | Inr (entry, entry_hash) \<Rightarrow>
          if parts = [] then
            (case kind_enum entry of
               File \<Rightarrow> Some (rbind (get entry_hash) (\<lambda>content. Inr (content, entry)))
             | Symlink \<Rightarrow> Some (rbind (get entry_hash) (\<lambda>content. Inr (content, entry)))
             | Directory \<Rightarrow> Some (Inl (InvalidInput (''path is a directory: '' @ path))))
          else if kind_enum entry \<noteq> Directory then Some (Inl (InvalidInput (''not a directory: '' @ part)))
          else file_loop read_value get path entry_hash parts)"

definition get_file_at_path :: "read_value \<Rightarrow> (bytes \<Rightarrow> bytes res) \<Rightarrow> bytes \<Rightarrow> string \<Rightarrow> (bytes \<times> TreeEntry) res option" where
  "get_file_at_path read_value get root_hash path =
     (if path_parts path = [] then Some (Inl (InvalidInput ''empty path''))
      else file_loop read_value get path root_hash (path_parts path))"

section \<open>The roots index as a record log\<close>

definition valid_root :: "u64 \<times> bytes \<Rightarrow> bool" where
  "valid_root r \<longleftrightarrow> length (snd r) = 32"

lemma root_step_enc: "valid_root r \<Longrightarrow> root_step crc (encode_root crc r @ rest) = Rec r rest"
  by (cases r) (simp add: root_step_def encode_root_def valid_root_def)

lemma root_step_RecD: "root_step crc bs = Rec r rest \<Longrightarrow> bs = encode_root crc r @ rest \<and> valid_root r"
  by (auto simp: root_step_def encode_root_def valid_root_def dest!: read_invs split: option.splits if_splits)

lemma root_step_torn:
  "valid_root r \<Longrightarrow> k < length (encode_root crc r) \<Longrightarrow>
    root_step crc (take k (encode_root crc r)) = (if k < 8 then Stop_Keep else Stop_Trunc)"
  by (cases r) (auto simp: root_step_def encode_root_def valid_root_def read_word_take_sized read_exact_take
      simp del: take_append)

lemma length_encode_root: "valid_root r \<Longrightarrow> length (encode_root crc r) = 44"
  by (cases r) (simp add: encode_root_def valid_root_def)

interpretation root_log: record_log "root_step crc" "encode_root crc" valid_root for crc
proof (rule record_logI)
  show "root_step crc [] = Stop_Keep \<or> root_step crc [] = Stop_Trunc" by (simp add: root_step_def)
  show "encode_root crc r \<noteq> []" if "valid_root r" for r
    using length_encode_root [OF that, of crc] by auto
qed (auto simp: root_step_enc root_step_RecD root_step_torn)

end
