(* ===== verification/Metadata.thy ===== *)
theory Metadata
  imports Msgpack
begin

text \<open>
  Context metadata: what \<^verbatim>\<open>server/src/store.rs\<close> extracts from the payload of a context's first turn
  (\<^verbatim>\<open>extract_context_metadata\<close>, \<^verbatim>\<open>extract_provenance\<close> and their helpers).  The payload is
  MessagePack; its decoder is the parameter \<open>read_value\<close>.
\<close>

record Provenance =
  pv_parent_context_id :: "u64 option"
  pv_spawn_reason :: "string option"
  pv_root_context_id :: "u64 option"
  pv_trace_id :: "string option"
  pv_span_id :: "string option"
  pv_correlation_id :: "string option"
  pv_on_behalf_of :: "string option"
  pv_on_behalf_of_source :: "string option"
  pv_on_behalf_of_email :: "string option"
  pv_writer_method :: "string option"
  pv_writer_subject :: "string option"
  pv_writer_issuer :: "string option"
  pv_service_name :: "string option"
  pv_service_version :: "string option"
  pv_service_instance_id :: "string option"
  pv_process_pid :: "int option"
  pv_process_owner :: "string option"
  pv_host_name :: "string option"
  pv_host_arch :: "string option"
  pv_client_address :: "string option"
  pv_client_port :: "int option"
  pv_env :: "(string \<rightharpoonup> string) option"
  pv_sdk_name :: "string option"
  pv_sdk_version :: "string option"
  pv_captured_at :: "int option"

record ContextMetadata =
  cm_client_tag :: "string option"
  cm_title :: "string option"
  cm_labels :: "string list option"
  cm_provenance :: "Provenance option"

definition default_provenance :: Provenance where
  "default_provenance =
     \<lparr>pv_parent_context_id = None, pv_spawn_reason = None, pv_root_context_id = None,
      pv_trace_id = None, pv_span_id = None, pv_correlation_id = None,
      pv_on_behalf_of = None, pv_on_behalf_of_source = None, pv_on_behalf_of_email = None,
      pv_writer_method = None, pv_writer_subject = None, pv_writer_issuer = None,
      pv_service_name = None, pv_service_version = None, pv_service_instance_id = None,
      pv_process_pid = None, pv_process_owner = None, pv_host_name = None, pv_host_arch = None,
      pv_client_address = None, pv_client_port = None, pv_env = None,
      pv_sdk_name = None, pv_sdk_version = None, pv_captured_at = None\<rparr>"

definition default_metadata :: ContextMetadata where
  "default_metadata =
     \<lparr>cm_client_tag = None, cm_title = None, cm_labels = None, cm_provenance = None\<rparr>"

section \<open>Extraction\<close>

definition key_to_tag :: "mp \<Rightarrow> u64 option" where
  "key_to_tag key =
     (case key of
        MInt i \<Rightarrow>
          (case int_as_u64 i of
             Some u \<Rightarrow> Some u
           | None \<Rightarrow> Option.bind (int_as_i64 i) (\<lambda>v. if 0 \<le> v then Some (of_int v) else None))
      | MStr s \<Rightarrow> Option.bind (from_utf8 s) parse_u64
      | _ \<Rightarrow> None)"

fun extract_string :: "mp \<Rightarrow> string option" where
  "extract_string (MStr s) = from_utf8 s"
| "extract_string _ = None"

fun extract_u64 :: "mp \<Rightarrow> u64 option" where
  "extract_u64 (MInt i) = int_as_u64 i"
| "extract_u64 _ = None"

fun extract_i64 :: "mp \<Rightarrow> int option" where
  "extract_i64 (MInt i) = int_as_i64 i"
| "extract_i64 _ = None"

definition string_entry :: "mp \<times> mp \<Rightarrow> (string \<times> string) option" where
  "string_entry kv = do { key \<leftarrow> extract_string (fst kv); val \<leftarrow> extract_string (snd kv); Some (key, val) }"

text \<open>Collecting into a \<^verbatim>\<open>HashMap\<close>: a later entry replaces an earlier one.\<close>

fun extract_string_map :: "mp \<Rightarrow> (string \<rightharpoonup> string) option" where
  "extract_string_map (MMap m) =
     (let es = List.map_filter string_entry m in if es = [] then None else Some (map_of (rev es)))"
| "extract_string_map _ = None"

definition provenance_field :: "Provenance \<Rightarrow> mp \<times> mp \<Rightarrow> Provenance" where
  "provenance_field prov kv =
     (case key_to_tag (fst kv) of
        None \<Rightarrow> prov
      | Some key \<Rightarrow>
          let v = snd kv in
          if key = 1 then prov\<lparr>pv_parent_context_id := extract_u64 v\<rparr>
          else if key = 2 then prov\<lparr>pv_spawn_reason := extract_string v\<rparr>
          else if key = 3 then prov\<lparr>pv_root_context_id := extract_u64 v\<rparr>
          else if key = 10 then prov\<lparr>pv_trace_id := extract_string v\<rparr>
          else if key = 11 then prov\<lparr>pv_span_id := extract_string v\<rparr>
          else if key = 12 then prov\<lparr>pv_correlation_id := extract_string v\<rparr>
          else if key = 20 then prov\<lparr>pv_on_behalf_of := extract_string v\<rparr>
          else if key = 21 then prov\<lparr>pv_on_behalf_of_source := extract_string v\<rparr>
          else if key = 22 then prov\<lparr>pv_on_behalf_of_email := extract_string v\<rparr>
          else if key = 30 then prov\<lparr>pv_writer_method := extract_string v\<rparr>
          else if key = 31 then prov\<lparr>pv_writer_subject := extract_string v\<rparr>
          else if key = 32 then prov\<lparr>pv_writer_issuer := extract_string v\<rparr>
          else if key = 40 then prov\<lparr>pv_service_name := extract_string v\<rparr>
          else if key = 41 then prov\<lparr>pv_service_version := extract_string v\<rparr>
          else if key = 42 then prov\<lparr>pv_service_instance_id := extract_string v\<rparr>
          else if key = 43 then prov\<lparr>pv_process_pid := extract_i64 v\<rparr>
          else if key = 44 then prov\<lparr>pv_process_owner := extract_string v\<rparr>
          else if key = 45 then prov\<lparr>pv_host_name := extract_string v\<rparr>
          else if key = 46 then prov\<lparr>pv_host_arch := extract_string v\<rparr>
          else if key = 50 then prov\<lparr>pv_client_address := extract_string v\<rparr>
          else if key = 51 then prov\<lparr>pv_client_port := extract_i64 v\<rparr>
          else if key = 60 then prov\<lparr>pv_env := extract_string_map v\<rparr>
          else if key = 70 then prov\<lparr>pv_sdk_name := extract_string v\<rparr>
          else if key = 71 then prov\<lparr>pv_sdk_version := extract_string v\<rparr>
          else if key = 80 then prov\<lparr>pv_captured_at := extract_i64 v\<rparr>
          else prov)"

definition extract_provenance :: "(mp \<times> mp) list \<Rightarrow> Provenance" where
  "extract_provenance prov_map = foldl provenance_field default_provenance prov_map"

definition metadata_field :: "ContextMetadata \<Rightarrow> mp \<times> mp \<Rightarrow> ContextMetadata" where
  "metadata_field metadata kv =
     (case key_to_tag (fst kv) of
        None \<Rightarrow> metadata
      | Some key \<Rightarrow>
          if key = 1 then (case snd kv of MStr s \<Rightarrow> metadata\<lparr>cm_client_tag := from_utf8 s\<rparr> | _ \<Rightarrow> metadata)
          else if key = 2 then (case snd kv of MStr s \<Rightarrow> metadata\<lparr>cm_title := from_utf8 s\<rparr> | _ \<Rightarrow> metadata)
          else if key = 3 then
            (case snd kv of
               MArr arr \<Rightarrow>
                 let labels = List.map_filter extract_string arr
                 in if labels \<noteq> [] then metadata\<lparr>cm_labels := Some labels\<rparr> else metadata
             | _ \<Rightarrow> metadata)
          else if key = 10 then
            (case snd kv of MMap m \<Rightarrow> metadata\<lparr>cm_provenance := Some (extract_provenance m)\<rparr> | _ \<Rightarrow> metadata)
          else metadata)"

text \<open>\<^verbatim>\<open>find_map\<close> for key 30.\<close>

fun find_key30 :: "(mp \<times> mp) list \<Rightarrow> mp option" where
  "find_key30 [] = None"
| "find_key30 ((k, v) # m) = (if key_to_tag k = Some 30 then Some v else find_key30 m)"

definition metadata_of_value :: "mp \<Rightarrow> ContextMetadata option" where
  "metadata_of_value value =
     (case value of
        MMap m \<Rightarrow>
          (case find_key30 m of
             Some (MMap metadata_map) \<Rightarrow>
               let metadata = foldl metadata_field default_metadata metadata_map
               in if cm_client_tag metadata \<noteq> None \<or> cm_title metadata \<noteq> None
                     \<or> cm_labels metadata \<noteq> None \<or> cm_provenance metadata \<noteq> None
                  then Some metadata else None
           | _ \<Rightarrow> None)
      | _ \<Rightarrow> None)"

definition extract_context_metadata :: "read_value \<Rightarrow> bytes \<Rightarrow> ContextMetadata option" where
  "extract_context_metadata read_value payload =
     (case read_value payload of Inl e \<Rightarrow> None | Inr value \<Rightarrow> metadata_of_value value)"

section \<open>Key encodings\<close>

text \<open>
  Go clients write integer keys as decimal strings.  \<open>string_key\<close> re-encodes one key,
  \<open>string_keys\<close> the keys of the payload map, of its metadata map and of its provenance map.
\<close>

definition string_key :: "mp \<Rightarrow> mp" where
  "string_key k =
     (case k of
        MInt i \<Rightarrow> MStr (as_bytes ((if i < 0 then ''-'' else []) @ dec_str (nat \<bar>i\<bar>)))
      | _ \<Rightarrow> k)"

definition on_map :: "((mp \<times> mp) list \<Rightarrow> (mp \<times> mp) list) \<Rightarrow> mp \<Rightarrow> mp" where
  "on_map f v = (case v of MMap m \<Rightarrow> MMap (f m) | _ \<Rightarrow> v)"

definition string_keys :: "mp \<Rightarrow> mp" where
  "string_keys =
     on_map (map (\<lambda>(k, v). (string_key k,
       on_map (map (\<lambda>(k, v). (string_key k, on_map (map (apfst string_key)) v))) v)))"

text \<open>The integers \<^verbatim>\<open>rmpv\<close> can hold.\<close>

definition mp_key_ok :: "mp \<Rightarrow> bool" where
  "mp_key_ok k \<longleftrightarrow> (case k of MInt i \<Rightarrow> - (2 ^ 63) \<le> i \<and> i < 2 ^ 64 | _ \<Rightarrow> True)"

fun keys_ok :: "nat \<Rightarrow> mp \<Rightarrow> bool" where
  "keys_ok (Suc n) (MMap m) \<longleftrightarrow> (\<forall>(k, v)\<in>set m. mp_key_ok k \<and> keys_ok n v)"
| "keys_ok _ _ \<longleftrightarrow> True"

lemma rust_string_ascii:
  assumes "\<And>c. c \<in> set s \<Longrightarrow> (of_char c :: nat) < 128"
  shows "rust_string s"
proof -
  have "as_byte c < 0x80" if "c \<in> set s" for c
    using assms [OF that] by (simp add: as_byte_def word_less_nat_alt unat_of_nat)
  then show ?thesis by (auto simp: rust_string_def as_bytes_def intro!: utf8_valid_ascii)
qed

lemma rust_string_dec_str: "rust_string (dec_str n)" "rust_string (CHR ''-'' # dec_str n)"
proof -
  have "(of_char c :: nat) < 128" if "c \<in> set (dec_str n)" for c using digits_ascii [OF that] by simp
  then show "rust_string (dec_str n)" "rust_string (CHR ''-'' # dec_str n)"
    by (auto intro!: rust_string_ascii)
qed

lemma parse_u64_minus: "parse_u64 (CHR ''-'' # cs) = None"
  by (simp add: parse_u64_def parse_uint_def digit_val_def)

lemma key_to_tag_string_key: "mp_key_ok k \<Longrightarrow> key_to_tag (string_key k) = key_to_tag k"
proof (cases k)
  case (MInt i)
  assume ok: "mp_key_ok k"
  show ?thesis
  proof (cases "i < 0")
    case True
    with MInt ok show ?thesis
      by (simp add: key_to_tag_def string_key_def from_utf8_as_bytes [OF rust_string_dec_str(2)] parse_u64_minus
          int_as_u64_def int_as_i64_def)
  next
    case False
    with MInt ok have "nat i < 2 ^ 64" by (simp add: mp_key_ok_def)
    then have "parse_u64 (dec_str (nat i)) = Some (of_nat (nat i))" by (simp add: parse_u64_def parse_uint_dec_str)
    with False MInt ok show ?thesis
      by (simp add: key_to_tag_def string_key_def from_utf8_as_bytes [OF rust_string_dec_str(1)]
          int_as_u64_def mp_key_ok_def)
  qed
qed (auto simp: string_key_def)

lemma foldl_map_same:
  "(\<And>x a. x \<in> set xs \<Longrightarrow> f a (g x) = f a x) \<Longrightarrow> foldl f a (map g xs) = foldl f a xs"
  by (induction xs arbitrary: a) auto

lemma provenance_field_key:
  "key_to_tag k' = key_to_tag k \<Longrightarrow> provenance_field prov (k', v) = provenance_field prov (k, v)"
  by (simp add: provenance_field_def cong: option.case_cong)

lemma extract_provenance_string_key:
  "keys_ok (Suc n) (MMap m) \<Longrightarrow> extract_provenance (map (apfst string_key) m) = extract_provenance m"
  unfolding extract_provenance_def
  by (rule foldl_map_same) (auto intro!: provenance_field_key key_to_tag_string_key)

lemma metadata_field_string_key:
  assumes "mp_key_ok k" and "keys_ok 1 v"
  shows "metadata_field md (string_key k, on_map (map (apfst string_key)) v) = metadata_field md (k, v)"
  using assms extract_provenance_string_key [of 0]
  by (cases v) (auto simp: metadata_field_def key_to_tag_string_key on_map_def split: option.split)

lemma find_key30_map:
  "\<forall>kv\<in>set m. mp_key_ok (fst kv) \<Longrightarrow>
    find_key30 (map (\<lambda>(k, v). (string_key k, g v)) m) = map_option g (find_key30 m)"
  by (induction m) (auto simp: key_to_tag_string_key)

lemma find_key30_in: "find_key30 m = Some v \<Longrightarrow> \<exists>k. (k, v) \<in> set m"
  by (induction m rule: find_key30.induct) (auto split: if_splits)

lemma metadata_of_value_string_keys:
  assumes "keys_ok 3 v"
  shows "metadata_of_value (string_keys v) = metadata_of_value v"
proof (cases v)
  case (MMap m)
  let ?g = "on_map (map (\<lambda>(k, v). (string_key k, on_map (map (apfst string_key)) v)))"
  have ok: "mp_key_ok k" "keys_ok 2 w" if "(k, w) \<in> set m" for k w
    using assms that MMap by (auto simp: numeral_eq_Suc)
  have find: "find_key30 (map (\<lambda>(k, v). (string_key k, ?g v)) m) = map_option ?g (find_key30 m)"
    using ok(1) by (intro find_key30_map) auto
  have "foldl metadata_field default_metadata
      (map (\<lambda>(k, v). (string_key k, on_map (map (apfst string_key)) v)) mm) = foldl metadata_field default_metadata mm"
    if "find_key30 m = Some (MMap mm)" for mm
  proof -
    from find_key30_in [OF that] ok have "keys_ok 2 (MMap mm)" by blast
    then show ?thesis
      by (intro foldl_map_same) (auto simp: numeral_eq_Suc metadata_field_string_key)
  qed
  with find MMap show ?thesis
    by (auto simp: metadata_of_value_def string_keys_def on_map_def split: option.split mp.split)
qed (auto simp: string_keys_def on_map_def)

section \<open>Properties\<close>

text \<open>Metadata is extracted the same from a payload with integer keys and from the same payload with
  its keys written as decimal strings, as Go clients write them, on all three levels of maps.\<close>

theorem metadata_key_encoding:
  assumes "read_value p = Inr v" and "read_value p' = Inr (string_keys v)" and "keys_ok 3 v"
  shows "extract_context_metadata read_value p' = extract_context_metadata read_value p"
  using assms metadata_of_value_string_keys [OF assms(3)] by (simp add: extract_context_metadata_def)

definition demo_meta_value :: mp where
  "demo_meta_value = MMap [(MInt 30, MMap [(MInt 1, MStr (as_bytes ''cli'')),
     (MInt 10, MMap [(MInt 40, MStr (as_bytes ''svc'')), (MInt 1, MInt 7)])])]"

theorem metadata_key_encoding_witness:
  "extract_context_metadata (\<lambda>p. if p = [1] then Inr demo_meta_value else Inr (string_keys demo_meta_value)) [2] =
    extract_context_metadata (\<lambda>p. if p = [1] then Inr demo_meta_value else Inr (string_keys demo_meta_value)) [1] \<and>
   map_option cm_client_tag (extract_context_metadata (\<lambda>p. Inr demo_meta_value) [1]) = Some (Some ''cli'')"
proof
  show "extract_context_metadata (\<lambda>p. if p = [1] then Inr demo_meta_value else Inr (string_keys demo_meta_value)) [2] =
      extract_context_metadata (\<lambda>p. if p = [1] then Inr demo_meta_value else Inr (string_keys demo_meta_value)) [1]"
    by (rule metadata_key_encoding [where v = demo_meta_value]) (simp_all add: demo_meta_value_def numeral_eq_Suc mp_key_ok_def)
  show "map_option cm_client_tag (extract_context_metadata (\<lambda>p. Inr demo_meta_value) [1]) = Some (Some ''cli'')"
    by code_simp
qed

end
