(* ===== verification/Rust_Str.thy ===== *)
theory Rust_Str
  imports Bytes
begin

text \<open>
  The operations of \<^verbatim>\<open>str\<close> that the sources use, on the bytes of the string: characters, white space,
  trimming, prefixes, substrings, line ends and joining.  A Rust \<^verbatim>\<open>char\<close> is the string of its UTF-8
  bytes.  The white space characters of Unicode are written out.
\<close>

section \<open>Characters\<close>

type_synonym rchar = string

definition utf8_len :: "char \<Rightarrow> nat" where
  "utf8_len c = (let n = of_char c :: nat in if n < 128 then 1 else if n < 224 then 2 else if n < 240 then 3 else 4)"

text \<open>\<^verbatim>\<open>Chars::next\<close>\<close>

definition next_char :: "string \<Rightarrow> (rchar \<times> string) option" where
  "next_char s = (case s of [] \<Rightarrow> None | c # _ \<Rightarrow> Some (take (utf8_len c) s, drop (utf8_len c) s))"

definition is_ascii :: "rchar \<Rightarrow> bool" where
  "is_ascii ch \<longleftrightarrow> (\<forall>c\<in>set ch. (of_char c :: nat) < 128)"

definition code1 :: "rchar \<Rightarrow> nat" where
  "code1 ch = (case ch of [c] \<Rightarrow> of_char c | _ \<Rightarrow> 256)"

definition is_ascii_digit :: "rchar \<Rightarrow> bool" where
  "is_ascii_digit ch \<longleftrightarrow> 48 \<le> code1 ch \<and> code1 ch \<le> 57"

definition is_ascii_alphabetic :: "rchar \<Rightarrow> bool" where
  "is_ascii_alphabetic ch \<longleftrightarrow> 65 \<le> code1 ch \<and> code1 ch \<le> 90 \<or> 97 \<le> code1 ch \<and> code1 ch \<le> 122"

definition is_whitespace :: "rchar \<Rightarrow> bool" where
  "is_whitespace ch \<longleftrightarrow>
     9 \<le> code1 ch \<and> code1 ch \<le> 13 \<or> code1 ch = 32
     \<or> map of_char ch \<in> set ([[194, 133], [194, 160], [225, 154, 128], [226, 128, 168], [226, 128, 169], [226, 128, 175],
          [226, 129, 159], [227, 128, 128]] @ map (\<lambda>n. [226, 128, 128 + n]) [0..<11 :: nat])"

lemma utf8_len_pos [simp]: "0 < utf8_len c"
  by (simp add: utf8_len_def Let_def)

lemma next_char_SomeD: "next_char s = Some (ch, rest) \<Longrightarrow> s = ch @ rest \<and> ch \<noteq> [] \<and> length rest < length s"
  using utf8_len_pos [of "hd s"]
  by (auto simp: next_char_def split: list.splits simp del: utf8_len_pos)

text \<open>\<^verbatim>\<open>str::chars\<close>\<close>

function rust_chars :: "string \<Rightarrow> rchar list" where
  "rust_chars s = (case next_char s of None \<Rightarrow> [] | Some (ch, rest) \<Rightarrow> ch # rust_chars rest)"
  by pat_completeness auto
termination
  by (relation "measure length") (auto dest: next_char_SomeD)

declare rust_chars.simps [simp del]

lemma rust_chars_Nil [simp]: "rust_chars [] = []"
  by (simp add: rust_chars.simps next_char_def)

lemma concat_rust_chars [simp]: "concat (rust_chars s) = s"
proof (induction s rule: rust_chars.induct)
  case (1 s)
  show ?case
  proof (cases "next_char s")
    case None
    then show ?thesis by (subst rust_chars.simps) (simp add: next_char_def split: list.splits)
  next
    case (Some x)
    then obtain ch rest where x: "next_char s = Some (ch, rest)" by (cases x) auto
    with 1 [OF x refl] next_char_SomeD [OF x] show ?thesis by (subst rust_chars.simps) simp
  qed
qed

section \<open>Trimming\<close>

definition trim_start :: "string \<Rightarrow> string" where
  "trim_start s = concat (dropWhile is_whitespace (rust_chars s))"

definition trim_end :: "string \<Rightarrow> string" where
  "trim_end s = concat (rev (dropWhile is_whitespace (rev (rust_chars s))))"

definition trim :: "string \<Rightarrow> string" where
  "trim s = trim_end (trim_start s)"

text \<open>\<^verbatim>\<open>trim_end_matches\<close> and \<^verbatim>\<open>trim_start_matches\<close> at an ASCII character.\<close>

definition trim_end_matches :: "char \<Rightarrow> string \<Rightarrow> string" where
  "trim_end_matches c s = rev (dropWhile (\<lambda>x. x = c) (rev s))"

definition trim_start_matches :: "char \<Rightarrow> string \<Rightarrow> string" where
  "trim_start_matches c s = dropWhile (\<lambda>x. x = c) s"

section \<open>Prefixes and substrings\<close>

fun starts_with :: "string \<Rightarrow> string \<Rightarrow> bool" where
  "starts_with s [] \<longleftrightarrow> True"
| "starts_with [] (p # ps) \<longleftrightarrow> False"
| "starts_with (x # xs) (p # ps) \<longleftrightarrow> x = p \<and> starts_with xs ps"

lemma starts_with_iff: "starts_with s p \<longleftrightarrow> (\<exists>t. s = p @ t)"
  by (induction s p rule: starts_with.induct) auto

definition strip_prefix :: "string \<Rightarrow> string \<Rightarrow> string option" where
  "strip_prefix s p = (if starts_with s p then Some (drop (length p) s) else None)"

lemma strip_prefix_iff [simp]: "strip_prefix s p = Some t \<longleftrightarrow> s = p @ t"
  by (auto simp: strip_prefix_def starts_with_iff)

fun str_contains :: "string \<Rightarrow> string \<Rightarrow> bool" where
  "str_contains [] p \<longleftrightarrow> p = []"
| "str_contains (x # s) p \<longleftrightarrow> starts_with (x # s) p \<or> str_contains s p"

lemma str_contains_iff: "str_contains s p \<longleftrightarrow> (\<exists>u v. s = u @ p @ v)"
proof (induction s)
  case (Cons x s)
  have "(\<exists>u v. x # s = u @ p @ v) \<longleftrightarrow> (\<exists>v. x # s = p @ v) \<or> (\<exists>u v. s = u @ p @ v)"
    by (metis append_Cons append_Nil append_eq_Cons_conv)
  with Cons show ?case by (simp add: starts_with_iff)
qed simp

text \<open>\<^verbatim>\<open>eq_ignore_ascii_case\<close> and \<^verbatim>\<open>to_ascii_lowercase\<close>.\<close>

definition ascii_lower :: "char \<Rightarrow> char" where
  "ascii_lower c = (let n = of_char c :: nat in if 65 \<le> n \<and> n \<le> 90 then char_of (n + 32) else c)"

definition to_ascii_lowercase :: "string \<Rightarrow> string" where
  "to_ascii_lowercase s = map ascii_lower s"

definition eq_ignore_ascii_case :: "string \<Rightarrow> string \<Rightarrow> bool" where
  "eq_ignore_ascii_case s t \<longleftrightarrow> to_ascii_lowercase s = to_ascii_lowercase t"

section \<open>Joining and lines\<close>

fun join :: "string \<Rightarrow> string list \<Rightarrow> string" where
  "join sep [] = []"
| "join sep [s] = s"
| "join sep (s # t # ss) = s @ sep @ join sep (t # ss)"

definition LF :: char where
  "LF = char_of (10 :: nat)"

definition CR :: char where
  "CR = char_of (13 :: nat)"

lemma LF_neq_CR [simp]: "LF \<noteq> CR" "CR \<noteq> LF"
  by (simp_all add: LF_def CR_def)

text \<open>\<^verbatim>\<open>str::lines\<close>: the pieces between line feeds, without the carriage return before a line feed;
  nothing after a final line feed.\<close>

fun split_lf :: "string \<Rightarrow> string list" where
  "split_lf [] = [[]]"
| "split_lf (c # s) =
     (if c = LF then [] # split_lf s
      else case split_lf s of [] \<Rightarrow> [[c]] | l # ls \<Rightarrow> (c # l) # ls)"

definition strip_cr :: "string \<Rightarrow> string" where
  "strip_cr l = (if l \<noteq> [] \<and> last l = CR then butlast l else l)"

definition lines :: "string \<Rightarrow> string list" where
  "lines s = (let ls = split_lf s in map strip_cr (butlast ls) @ (if last ls = [] then [] else [last ls]))"

end
