(* ===== verification/Cql_Index.thy ===== *)
theory Cql_Index
  imports Metadata Turn_Store Rust_Str "HOL-Library.Char_ord" "HOL-Library.List_Lexorder"
begin

text \<open>
  The secondary indexes of the query language (\<^verbatim>\<open>server/src/cql/indexes.rs\<close>).

  The four string fields that are searched case-sensitively and case-insensitively have the same four
  maps each (\<^verbatim>\<open>tag_exact\<close>, \<^verbatim>\<open>tag_sorted\<close>, \<^verbatim>\<open>tag_lower_exact\<close>, \<^verbatim>\<open>tag_lower_sorted\<close>
  and so on); the record \<open>StrIndex\<close> groups them.  A \<^verbatim>\<open>BTreeMap\<close> is its list of entries by
  increasing key.  \<^verbatim>\<open>str::to_lowercase\<close> (the Unicode case tables) is the parameter \<open>lower\<close>.
\<close>

section \<open>Data\<close>

type_synonym 'k id_map = "'k \<rightharpoonup> u64 set"
type_synonym 'k btree = "('k \<times> u64 set) list"

record StrIndex =
  si_exact :: "string id_map"
  si_sorted :: "(string \<times> u64) list"
  si_lower_exact :: "string id_map"
  si_lower_sorted :: "(string \<times> u64) list"

record SecondaryIndexes =
  tag_ix :: StrIndex
  title_ix :: StrIndex
  label_exact :: "string id_map"
  user_ix :: StrIndex
  service_ix :: StrIndex
  host_exact :: "string id_map"
  host_sorted :: "(string \<times> u64) list"
  trace_id_exact :: "string id_map"
  parent_exact :: "u64 id_map"
  root_exact :: "u64 id_map"
  created_btree :: "u64 btree"
  depth_btree :: "u32 btree"
  all_context_ids :: "u64 set"

definition empty_str_index :: StrIndex where
  "empty_str_index = \<lparr>si_exact = Map.empty, si_sorted = [], si_lower_exact = Map.empty, si_lower_sorted = []\<rparr>"

definition idx_new :: SecondaryIndexes where
  "idx_new =
     \<lparr>tag_ix = empty_str_index, title_ix = empty_str_index, label_exact = Map.empty,
      user_ix = empty_str_index, service_ix = empty_str_index, host_exact = Map.empty, host_sorted = [],
      trace_id_exact = Map.empty, parent_exact = Map.empty, root_exact = Map.empty,
      created_btree = [], depth_btree = [], all_context_ids = {}\<rparr>"

section \<open>Maps of id sets\<close>

text \<open>\<^verbatim>\<open>entry(k).or_default().insert(id)\<close> and \<^verbatim>\<open>get(k).cloned().unwrap_or_default()\<close>.\<close>

definition hm_add :: "'k \<Rightarrow> u64 \<Rightarrow> 'k id_map \<Rightarrow> 'k id_map" where
  "hm_add k i m = m(k \<mapsto> insert i (unwrap_or {} (m k)))"

definition hm_get :: "'k id_map \<Rightarrow> 'k \<Rightarrow> u64 set" where
  "hm_get m k = unwrap_or {} (m k)"

fun bt_add :: "'k::linorder \<Rightarrow> u64 \<Rightarrow> 'k btree \<Rightarrow> 'k btree" where
  "bt_add k i [] = [(k, {i})]"
| "bt_add k i ((j, s) # m) =
     (if k < j then (k, {i}) # (j, s) # m
      else if k = j then (j, insert i s) # m
      else (j, s) # bt_add k i m)"

definition bt_range :: "('k \<Rightarrow> bool) \<Rightarrow> 'k btree \<Rightarrow> u64 set" where
  "bt_range P m = \<Union> (set (map snd (filter (\<lambda>e. P (fst e)) m)))"

definition bt_get :: "'k btree \<Rightarrow> 'k \<Rightarrow> u64 set" where
  "bt_get m k = unwrap_or {} (map_of m k)"

section \<open>Indexing\<close>

definition str_add :: "(string \<Rightarrow> string) \<Rightarrow> u64 \<Rightarrow> string \<Rightarrow> StrIndex \<Rightarrow> StrIndex" where
  "str_add lower context_id s ix =
     ix\<lparr>si_exact := hm_add s context_id (si_exact ix),
        si_sorted := si_sorted ix @ [(s, context_id)],
        si_lower_exact := hm_add (lower s) context_id (si_lower_exact ix),
        si_lower_sorted := si_lower_sorted ix @ [(lower s, context_id)]\<rparr>"

definition opt_do :: "('a \<Rightarrow> 's \<Rightarrow> 's) \<Rightarrow> 'a option \<Rightarrow> 's \<Rightarrow> 's" where
  "opt_do f m s = (case m of None \<Rightarrow> s | Some a \<Rightarrow> f a s)"

definition index_tag :: "(string \<Rightarrow> string) \<Rightarrow> u64 \<Rightarrow> string \<Rightarrow> SecondaryIndexes \<Rightarrow> SecondaryIndexes" where
  "index_tag lower c tag ix = ix\<lparr>tag_ix := str_add lower c tag (tag_ix ix)\<rparr>"

definition index_title :: "(string \<Rightarrow> string) \<Rightarrow> u64 \<Rightarrow> string \<Rightarrow> SecondaryIndexes \<Rightarrow> SecondaryIndexes" where
  "index_title lower c title ix = ix\<lparr>title_ix := str_add lower c title (title_ix ix)\<rparr>"

definition index_label :: "u64 \<Rightarrow> string \<Rightarrow> SecondaryIndexes \<Rightarrow> SecondaryIndexes" where
  "index_label c label ix = ix\<lparr>label_exact := hm_add label c (label_exact ix)\<rparr>"

definition index_user :: "(string \<Rightarrow> string) \<Rightarrow> u64 \<Rightarrow> string \<Rightarrow> SecondaryIndexes \<Rightarrow> SecondaryIndexes" where
  "index_user lower c user ix = ix\<lparr>user_ix := str_add lower c user (user_ix ix)\<rparr>"

definition index_service :: "(string \<Rightarrow> string) \<Rightarrow> u64 \<Rightarrow> string \<Rightarrow> SecondaryIndexes \<Rightarrow> SecondaryIndexes" where
  "index_service lower c service ix = ix\<lparr>service_ix := str_add lower c service (service_ix ix)\<rparr>"

definition index_host :: "u64 \<Rightarrow> string \<Rightarrow> SecondaryIndexes \<Rightarrow> SecondaryIndexes" where
  "index_host c host ix =
     ix\<lparr>host_exact := hm_add host c (host_exact ix), host_sorted := host_sorted ix @ [(host, c)]\<rparr>"

definition index_trace :: "u64 \<Rightarrow> string \<Rightarrow> SecondaryIndexes \<Rightarrow> SecondaryIndexes" where
  "index_trace c trace_id ix = ix\<lparr>trace_id_exact := hm_add trace_id c (trace_id_exact ix)\<rparr>"

definition index_parent :: "u64 \<Rightarrow> u64 \<Rightarrow> SecondaryIndexes \<Rightarrow> SecondaryIndexes" where
  "index_parent c parent ix = ix\<lparr>parent_exact := hm_add parent c (parent_exact ix)\<rparr>"

definition index_root :: "u64 \<Rightarrow> u64 \<Rightarrow> SecondaryIndexes \<Rightarrow> SecondaryIndexes" where
  "index_root c root ix = ix\<lparr>root_exact := hm_add root c (root_exact ix)\<rparr>"

definition index_provenance :: "(string \<Rightarrow> string) \<Rightarrow> u64 \<Rightarrow> Provenance \<Rightarrow> SecondaryIndexes \<Rightarrow> SecondaryIndexes" where
  "index_provenance lower c prov ix =
     opt_do (index_root c) (pv_root_context_id prov)
     (opt_do (index_parent c) (pv_parent_context_id prov)
     (opt_do (index_trace c) (pv_trace_id prov)
     (opt_do (index_host c) (pv_host_name prov)
     (opt_do (index_service lower c) (pv_service_name prov)
     (opt_do (index_user lower c) (pv_on_behalf_of prov) ix)))))"

definition index_metadata :: "(string \<Rightarrow> string) \<Rightarrow> u64 \<Rightarrow> ContextMetadata \<Rightarrow> SecondaryIndexes \<Rightarrow> SecondaryIndexes" where
  "index_metadata lower c metadata ix =
     opt_do (index_provenance lower c) (cm_provenance metadata)
     (opt_do (fold (index_label c)) (cm_labels metadata)
     (opt_do (index_title lower c) (cm_title metadata)
     (opt_do (index_tag lower c) (cm_client_tag metadata) ix)))"

text \<open>\<^verbatim>\<open>sort_by(|a, b| a.0.cmp(&b.0))\<close> is stable.\<close>

definition sort_str :: "StrIndex \<Rightarrow> StrIndex" where
  "sort_str ix =
     ix\<lparr>si_sorted := sort_key fst (si_sorted ix), si_lower_sorted := sort_key fst (si_lower_sorted ix)\<rparr>"

definition sort_indexes :: "SecondaryIndexes \<Rightarrow> SecondaryIndexes" where
  "sort_indexes ix =
     ix\<lparr>tag_ix := sort_str (tag_ix ix), title_ix := sort_str (title_ix ix),
        user_ix := sort_str (user_ix ix), service_ix := sort_str (service_ix ix),
        host_sorted := sort_key fst (host_sorted ix)\<rparr>"

definition index_head :: "u64 \<Rightarrow> u64 \<Rightarrow> u32 \<Rightarrow> SecondaryIndexes \<Rightarrow> SecondaryIndexes" where
  "index_head c created_at depth ix =
     ix\<lparr>all_context_ids := insert c (all_context_ids ix),
        created_btree := bt_add created_at c (created_btree ix),
        depth_btree := bt_add depth c (depth_btree ix)\<rparr>"

definition index_cached :: "(string \<Rightarrow> string) \<Rightarrow> u64 \<times> ContextMetadata option \<Rightarrow> SecondaryIndexes \<Rightarrow> SecondaryIndexes" where
  "index_cached lower e ix =
     opt_do (index_metadata lower (fst e)) (snd e) (ix\<lparr>all_context_ids := insert (fst e) (all_context_ids ix)\<rparr>)"

text \<open>\<^verbatim>\<open>build_from_cache\<close>; \<open>it\<close> is the iteration order of the cache.\<close>

definition build_from_cache ::
    "(string \<Rightarrow> string) \<Rightarrow> (u64, ContextMetadata option) hash_iter \<Rightarrow> (u64 \<rightharpoonup> ContextMetadata option) \<Rightarrow>
     ContextHead list \<Rightarrow> SecondaryIndexes \<Rightarrow> SecondaryIndexes" where
  "build_from_cache lower it metadata_cache hds ix =
     sort_indexes
       (fold (\<lambda>h. index_head (ch_context_id h) (ch_created_at_unix_ms h) (ch_head_depth h)) hds
         (fold (index_cached lower) (it metadata_cache) ix))"

definition idx_add_context ::
    "(string \<Rightarrow> string) \<Rightarrow> u64 \<Rightarrow> ContextMetadata option \<Rightarrow> u64 \<Rightarrow> u32 \<Rightarrow> SecondaryIndexes \<Rightarrow> SecondaryIndexes" where
  "idx_add_context lower context_id metadata created_at depth ix =
     (let ix = ix\<lparr>all_context_ids := insert context_id (all_context_ids ix)\<rparr>;
          ix = (case metadata of
                  None \<Rightarrow> ix
                | Some md \<Rightarrow> sort_indexes (index_metadata lower context_id md ix));
          ix = ix\<lparr>created_btree := bt_add created_at context_id (created_btree ix)\<rparr>
      in ix\<lparr>depth_btree := bt_add depth context_id (depth_btree ix)\<rparr>)"

section \<open>Lookups\<close>

text \<open>\<^verbatim>\<open>slice::partition_point\<close>: binary search for the first element on which \<open>P\<close> fails.\<close>

function pp_loop :: "('a \<Rightarrow> bool) \<Rightarrow> 'a list \<Rightarrow> nat \<Rightarrow> nat \<Rightarrow> nat" where
  "pp_loop P xs lo hi =
     (if lo < hi then
        let mid = lo + (hi - lo) div 2
        in if P (xs ! mid) then pp_loop P xs (mid + 1) hi else pp_loop P xs lo mid
      else lo)"
  by pat_completeness auto
termination
  by (relation "measure (\<lambda>(P, xs, lo, hi). hi - lo)") (auto simp: Let_def)

declare pp_loop.simps [simp del]

definition partition_point :: "('a \<Rightarrow> bool) \<Rightarrow> 'a list \<Rightarrow> nat" where
  "partition_point P xs = pp_loop P xs 0 (length xs)"

definition prefix_search :: "(string \<times> u64) list \<Rightarrow> string \<Rightarrow> u64 set" where
  "prefix_search sorted_ids prefix =
     (if sorted_ids = [] then {}
      else
        let start = partition_point (\<lambda>e. fst e < prefix) sorted_ids
        in set (map snd (takeWhile (\<lambda>e. starts_with (fst e) prefix) (drop start sorted_ids))))"

definition str_exact :: "StrIndex \<Rightarrow> string \<Rightarrow> u64 set" where
  "str_exact ix value = hm_get (si_exact ix) value"

definition str_exact_ci :: "(string \<Rightarrow> string) \<Rightarrow> StrIndex \<Rightarrow> string \<Rightarrow> u64 set" where
  "str_exact_ci lower ix value = hm_get (si_lower_exact ix) (lower value)"

definition str_prefix :: "StrIndex \<Rightarrow> string \<Rightarrow> u64 set" where
  "str_prefix ix prefix = prefix_search (si_sorted ix) prefix"

definition str_prefix_ci :: "(string \<Rightarrow> string) \<Rightarrow> StrIndex \<Rightarrow> string \<Rightarrow> u64 set" where
  "str_prefix_ci lower ix prefix = prefix_search (si_lower_sorted ix) (lower prefix)"

definition lookup_label_exact :: "SecondaryIndexes \<Rightarrow> string \<Rightarrow> u64 set" where
  "lookup_label_exact ix value = hm_get (label_exact ix) value"

definition lookup_host_exact :: "SecondaryIndexes \<Rightarrow> string \<Rightarrow> u64 set" where
  "lookup_host_exact ix value = hm_get (host_exact ix) value"

definition lookup_trace_id_exact :: "SecondaryIndexes \<Rightarrow> string \<Rightarrow> u64 set" where
  "lookup_trace_id_exact ix value = hm_get (trace_id_exact ix) value"

definition lookup_parent_exact :: "SecondaryIndexes \<Rightarrow> u64 \<Rightarrow> u64 set" where
  "lookup_parent_exact ix value = hm_get (parent_exact ix) value"

definition lookup_root_exact :: "SecondaryIndexes \<Rightarrow> u64 \<Rightarrow> u64 set" where
  "lookup_root_exact ix value = hm_get (root_exact ix) value"

definition lookup_host_prefix :: "SecondaryIndexes \<Rightarrow> string \<Rightarrow> u64 set" where
  "lookup_host_prefix ix prefix = prefix_search (host_sorted ix) prefix"

definition lookup_created_gt :: "SecondaryIndexes \<Rightarrow> u64 \<Rightarrow> u64 set" where
  "lookup_created_gt ix t = bt_range (\<lambda>k. t < k) (created_btree ix)"

definition lookup_created_gte :: "SecondaryIndexes \<Rightarrow> u64 \<Rightarrow> u64 set" where
  "lookup_created_gte ix t = bt_range (\<lambda>k. t \<le> k) (created_btree ix)"

definition lookup_created_lt :: "SecondaryIndexes \<Rightarrow> u64 \<Rightarrow> u64 set" where
  "lookup_created_lt ix t = bt_range (\<lambda>k. k < t) (created_btree ix)"

definition lookup_created_lte :: "SecondaryIndexes \<Rightarrow> u64 \<Rightarrow> u64 set" where
  "lookup_created_lte ix t = bt_range (\<lambda>k. k \<le> t) (created_btree ix)"

definition lookup_created_eq :: "SecondaryIndexes \<Rightarrow> u64 \<Rightarrow> u64 set" where
  "lookup_created_eq ix t = bt_get (created_btree ix) t"

definition lookup_depth_gt :: "SecondaryIndexes \<Rightarrow> u32 \<Rightarrow> u64 set" where
  "lookup_depth_gt ix d = bt_range (\<lambda>k. d < k) (depth_btree ix)"

definition lookup_depth_gte :: "SecondaryIndexes \<Rightarrow> u32 \<Rightarrow> u64 set" where
  "lookup_depth_gte ix d = bt_range (\<lambda>k. d \<le> k) (depth_btree ix)"

definition lookup_depth_lt :: "SecondaryIndexes \<Rightarrow> u32 \<Rightarrow> u64 set" where
  "lookup_depth_lt ix d = bt_range (\<lambda>k. k < d) (depth_btree ix)"

definition lookup_depth_lte :: "SecondaryIndexes \<Rightarrow> u32 \<Rightarrow> u64 set" where
  "lookup_depth_lte ix d = bt_range (\<lambda>k. k \<le> d) (depth_btree ix)"

definition lookup_depth_eq :: "SecondaryIndexes \<Rightarrow> u32 \<Rightarrow> u64 set" where
  "lookup_depth_eq ix d = bt_get (depth_btree ix) d"

record IndexStats =
  contexts_indexed :: nat
  tag_entries :: nat
  title_entries :: nat
  user_entries :: nat
  service_entries :: nat
  host_entries :: nat
  created_entries :: nat

definition idx_stats :: "SecondaryIndexes \<Rightarrow> IndexStats" where
  "idx_stats ix =
     \<lparr>contexts_indexed = card (all_context_ids ix), tag_entries = card (dom (si_exact (tag_ix ix))),
      title_entries = card (dom (si_exact (title_ix ix))), user_entries = card (dom (si_exact (user_ix ix))),
      service_entries = card (dom (si_exact (service_ix ix))), host_entries = card (dom (host_exact ix)),
      created_entries = length (created_btree ix)\<rparr>"

end
