(* ===== verification/Cql_Executor.thy ===== *)
theory Cql_Executor
  imports Cql_Index
begin

text \<open>
  The query language's syntax tree (\<^verbatim>\<open>server/src/cql/ast.rs\<close>) and its executor
  (\<^verbatim>\<open>server/src/cql/executor.rs\<close>).

  What the executor takes from outside is the record \<open>cql_env\<close>: \<^verbatim>\<open>to_lowercase\<close>, the captures of
  the regular expression of relative dates (crate \<^verbatim>\<open>regex\<close>), the two date parsers (crate
  \<^verbatim>\<open>chrono\<close>, as milliseconds since the epoch), and the clock.
\<close>

section \<open>Syntax\<close>

datatype Operator = Eq | Neq | Starts | EqCi | StartsCi | Gt | Gte | Lt | Lte | In

text \<open>A number is an IEEE 754 double, given by its 64 bits.\<close>

datatype cql_value =
    VString string
  | VNumber u64
  | VDate string bool
  | VList "cql_value list"

datatype Expression =
    ExprAnd Expression Expression
  | ExprOr Expression Expression
  | ExprNot Expression
  | Comparison string Operator cql_value

record CqlQuery =
  cq_raw :: string
  cq_ast :: Expression

datatype FieldName = Id | Tag | Title | Label | User | Service | Host | TraceId | Parent | Root
  | Created | Depth | IsLive

datatype CqlErrorType = SyntaxError | UnknownField | InvalidOperator | InvalidValue

record Position =
  ps_line :: nat
  ps_column :: nat
  ps_offset :: nat

record CqlError =
  ce_error_type :: CqlErrorType
  ce_message :: string
  ce_position :: "Position option"
  ce_field :: "string option"

type_synonym 'a cql_res = "CqlError + 'a"

definition field_from_str :: "string \<Rightarrow> FieldName option" where
  "field_from_str s =
     (if s = ''id'' then Some Id
      else if s = ''tag'' then Some Tag
      else if s = ''title'' then Some Title
      else if s = ''label'' then Some Label
      else if s = ''user'' then Some User
      else if s = ''service'' then Some Service
      else if s = ''host'' then Some Host
      else if s = ''trace_id'' then Some TraceId
      else if s = ''parent'' then Some Parent
      else if s = ''root'' then Some Root
      else if s = ''created'' then Some Created
      else if s = ''depth'' then Some Depth
      else if s = ''is_live'' then Some IsLive
      else None)"

fun field_as_str :: "FieldName \<Rightarrow> string" where
  "field_as_str Id = ''id''"
| "field_as_str Tag = ''tag''"
| "field_as_str Title = ''title''"
| "field_as_str Label = ''label''"
| "field_as_str User = ''user''"
| "field_as_str Service = ''service''"
| "field_as_str Host = ''host''"
| "field_as_str TraceId = ''trace_id''"
| "field_as_str Parent = ''parent''"
| "field_as_str Root = ''root''"
| "field_as_str Created = ''created''"
| "field_as_str Depth = ''depth''"
| "field_as_str IsLive = ''is_live''"

definition field_all :: "FieldName list" where
  "field_all = [Id, Tag, Title, Label, User, Service, Host, TraceId, Parent, Root, Created, Depth, IsLive]"

text \<open>\<^verbatim>\<open>{:?}\<close> of an operator.\<close>

fun op_debug :: "Operator \<Rightarrow> string" where
  "op_debug Eq = ''Eq''"
| "op_debug Neq = ''Neq''"
| "op_debug Starts = ''Starts''"
| "op_debug EqCi = ''EqCi''"
| "op_debug StartsCi = ''StartsCi''"
| "op_debug Gt = ''Gt''"
| "op_debug Gte = ''Gte''"
| "op_debug Lt = ''Lt''"
| "op_debug Lte = ''Lte''"
| "op_debug In = ''In''"

text \<open>\<^verbatim>\<open>n as u64\<close> for a double: towards zero, saturating, 0 for NaN.\<close>

definition f64_as_u64 :: "u64 \<Rightarrow> u64" where
  "f64_as_u64 w =
     (let n = unat w; sign = n div 2 ^ 63; e = n div 2 ^ 52 mod 2 ^ 11; m = n mod 2 ^ 52
      in if sign = 1 then 0
         else if e = 2047 then (if m = 0 then - 1 else 0)
         else if e < 1023 then 0
         else if 1023 + 64 \<le> e then - 1
         else if 1075 \<le> e then of_nat ((2 ^ 52 + m) * 2 ^ (e - 1075))
         else of_nat ((2 ^ 52 + m) div 2 ^ (1075 - e)))"

fun as_string :: "cql_value \<Rightarrow> string option" where
  "as_string (VString v) = Some v"
| "as_string (VDate v _) = Some v"
| "as_string _ = None"

fun as_number :: "cql_value \<Rightarrow> u64 option" where
  "as_number (VNumber v) = Some v"
| "as_number _ = None"

definition as_u64 :: "cql_value \<Rightarrow> u64 option" where
  "as_u64 v = map_option f64_as_u64 (as_number v)"

fun as_list :: "cql_value \<Rightarrow> cql_value list option" where
  "as_list (VList vs) = Some vs"
| "as_list _ = None"

section \<open>Errors\<close>

definition cql_err :: "CqlErrorType \<Rightarrow> string \<Rightarrow> CqlError" where
  "cql_err ty msg = \<lparr>ce_error_type = ty, ce_message = msg, ce_position = None, ce_field = None\<rparr>"

definition expected_string :: CqlError where
  "expected_string = cql_err InvalidValue ''Expected string value''"

definition expected_list :: CqlError where
  "expected_list = cql_err InvalidValue ''Expected list value for IN operator''"

definition expected_number :: "string \<Rightarrow> CqlError" where
  "expected_number field = cql_err InvalidValue (''Expected numeric value for '' @ field)"

definition bad_operator :: "Operator \<Rightarrow> string \<Rightarrow> CqlError" where
  "bad_operator op what = cql_err InvalidOperator (''Operator '' @ op_debug op @ '' not supported for '' @ what)"

section \<open>Environment\<close>

record cql_env =
  env_lower :: "string \<Rightarrow> string"
  env_rel_captures :: "string \<Rightarrow> (string \<times> string) option"
  env_rfc3339 :: "string \<Rightarrow> int option"
  env_ymd :: "string \<Rightarrow> int option"
  env_now :: u64

section \<open>Dates\<close>

definition parse_relative_date :: "cql_env \<Rightarrow> string \<Rightarrow> u64 cql_res" where
  "parse_relative_date env value =
     (case env_rel_captures env value of
        None \<Rightarrow> Inl (cql_err InvalidValue (''Invalid relative date format: '' @ value))
      | Some (digits, unit) \<Rightarrow>
     (case parse_u64 digits of
        None \<Rightarrow> Inl (cql_err InvalidValue (''Invalid number in relative date: '' @ value))
      | Some amount \<Rightarrow>
          if unit = ''h'' then Inr (env_now env - amount * 60 * 60 * 1000)
          else if unit = ''d'' then Inr (env_now env - amount * 24 * 60 * 60 * 1000)
          else if unit = ''m'' then Inr (env_now env - amount * 60 * 1000)
          else Inl (cql_err InvalidValue (''Invalid time unit: '' @ unit))))"

definition parse_absolute_date :: "cql_env \<Rightarrow> string \<Rightarrow> u64 cql_res" where
  "parse_absolute_date env value =
     (case env_rfc3339 env value of
        Some ms \<Rightarrow> Inr (of_int ms)
      | None \<Rightarrow>
     (case env_ymd env value of
        Some ms \<Rightarrow> Inr (of_int ms)
      | None \<Rightarrow> Inl (cql_err InvalidValue (''Invalid date format: '' @ value))))"

fun parse_date_value :: "cql_env \<Rightarrow> cql_value \<Rightarrow> u64 cql_res" where
  "parse_date_value env (VDate value relative) =
     (if relative then parse_relative_date env value else parse_absolute_date env value)"
| "parse_date_value env (VString value) =
     (case parse_relative_date env value of Inr ts \<Rightarrow> Inr ts | Inl _ \<Rightarrow> parse_absolute_date env value)"
| "parse_date_value env (VNumber value) = Inr (f64_as_u64 value)"
| "parse_date_value env (VList _) = Inl (cql_err InvalidValue ''Expected date value'')"

section \<open>Fields\<close>

datatype StringField = SF_Tag | SF_Title | SF_User | SF_Service | SF_Host

fun sf_exact :: "SecondaryIndexes \<Rightarrow> StringField \<Rightarrow> string \<Rightarrow> u64 set" where
  "sf_exact ix SF_Tag s = str_exact (tag_ix ix) s"
| "sf_exact ix SF_Title s = str_exact (title_ix ix) s"
| "sf_exact ix SF_User s = str_exact (user_ix ix) s"
| "sf_exact ix SF_Service s = str_exact (service_ix ix) s"
| "sf_exact ix SF_Host s = lookup_host_exact ix s"

fun sf_exact_ci :: "(string \<Rightarrow> string) \<Rightarrow> SecondaryIndexes \<Rightarrow> StringField \<Rightarrow> string \<Rightarrow> u64 set" where
  "sf_exact_ci lower ix SF_Tag s = str_exact_ci lower (tag_ix ix) s"
| "sf_exact_ci lower ix SF_Title s = str_exact_ci lower (title_ix ix) s"
| "sf_exact_ci lower ix SF_User s = str_exact_ci lower (user_ix ix) s"
| "sf_exact_ci lower ix SF_Service s = str_exact_ci lower (service_ix ix) s"
| "sf_exact_ci lower ix SF_Host s = lookup_host_exact ix s"

fun sf_prefix :: "SecondaryIndexes \<Rightarrow> StringField \<Rightarrow> string \<Rightarrow> u64 set" where
  "sf_prefix ix SF_Tag s = str_prefix (tag_ix ix) s"
| "sf_prefix ix SF_Title s = str_prefix (title_ix ix) s"
| "sf_prefix ix SF_User s = str_prefix (user_ix ix) s"
| "sf_prefix ix SF_Service s = str_prefix (service_ix ix) s"
| "sf_prefix ix SF_Host s = lookup_host_prefix ix s"

fun sf_prefix_ci :: "(string \<Rightarrow> string) \<Rightarrow> SecondaryIndexes \<Rightarrow> StringField \<Rightarrow> string \<Rightarrow> u64 set" where
  "sf_prefix_ci lower ix SF_Tag s = str_prefix_ci lower (tag_ix ix) s"
| "sf_prefix_ci lower ix SF_Title s = str_prefix_ci lower (title_ix ix) s"
| "sf_prefix_ci lower ix SF_User s = str_prefix_ci lower (user_ix ix) s"
| "sf_prefix_ci lower ix SF_Service s = str_prefix_ci lower (service_ix ix) s"
| "sf_prefix_ci lower ix SF_Host s = lookup_host_prefix ix s"

text \<open>The loop of the \<^verbatim>\<open>In\<close> branches: values of another type are skipped.\<close>

definition in_union :: "(cql_value \<Rightarrow> 'a option) \<Rightarrow> ('a \<Rightarrow> u64 set) \<Rightarrow> cql_value list \<Rightarrow> u64 set" where
  "in_union get f vs = fold (\<lambda>v result. case get v of Some a \<Rightarrow> result \<union> f a | None \<Rightarrow> result) vs {}"

definition execute_string_field ::
    "(string \<Rightarrow> string) \<Rightarrow> Operator \<Rightarrow> cql_value \<Rightarrow> SecondaryIndexes \<Rightarrow> StringField \<Rightarrow> u64 set cql_res" where
  "execute_string_field lower op value ix field =
     (case op of
        Eq \<Rightarrow> rbind (ok_or expected_string (as_string value)) (\<lambda>s. Inr (sf_exact ix field s))
      | EqCi \<Rightarrow> rbind (ok_or expected_string (as_string value)) (\<lambda>s. Inr (sf_exact_ci lower ix field s))
      | Starts \<Rightarrow> rbind (ok_or expected_string (as_string value)) (\<lambda>s. Inr (sf_prefix ix field s))
      | StartsCi \<Rightarrow> rbind (ok_or expected_string (as_string value)) (\<lambda>s. Inr (sf_prefix_ci lower ix field s))
      | Neq \<Rightarrow> rbind (ok_or expected_string (as_string value)) (\<lambda>s. Inr (all_context_ids ix - sf_exact ix field s))
      | In \<Rightarrow> rbind (ok_or expected_list (as_list value)) (\<lambda>vs. Inr (in_union as_string (sf_exact ix field) vs))
      | _ \<Rightarrow> Inl (bad_operator op ''string fields''))"

definition execute_id :: "Operator \<Rightarrow> cql_value \<Rightarrow> SecondaryIndexes \<Rightarrow> u64 set cql_res" where
  "execute_id op value ix =
     (case op of
        Eq \<Rightarrow> rbind (ok_or (expected_number ''id'') (as_u64 value)) (\<lambda>i.
                Inr (if i \<in> all_context_ids ix then {i} else {}))
      | Neq \<Rightarrow> rbind (ok_or (expected_number ''id'') (as_u64 value)) (\<lambda>i. Inr (all_context_ids ix - {i}))
      | In \<Rightarrow> rbind (ok_or expected_list (as_list value)) (\<lambda>vs.
                Inr (in_union as_u64 (\<lambda>i. if i \<in> all_context_ids ix then {i} else {}) vs))
      | _ \<Rightarrow> Inl (bad_operator op ''id field''))"

definition execute_label :: "Operator \<Rightarrow> cql_value \<Rightarrow> SecondaryIndexes \<Rightarrow> u64 set cql_res" where
  "execute_label op value ix =
     (case op of
        Eq \<Rightarrow> rbind (ok_or expected_string (as_string value)) (\<lambda>s. Inr (lookup_label_exact ix s))
      | Neq \<Rightarrow> rbind (ok_or expected_string (as_string value)) (\<lambda>s. Inr (all_context_ids ix - lookup_label_exact ix s))
      | In \<Rightarrow> rbind (ok_or expected_list (as_list value)) (\<lambda>vs. Inr (in_union as_string (lookup_label_exact ix) vs))
      | _ \<Rightarrow> Inl (bad_operator op ''label field''))"

definition execute_trace_id :: "Operator \<Rightarrow> cql_value \<Rightarrow> SecondaryIndexes \<Rightarrow> u64 set cql_res" where
  "execute_trace_id op value ix =
     (case op of
        Eq \<Rightarrow> rbind (ok_or expected_string (as_string value)) (\<lambda>s. Inr (lookup_trace_id_exact ix s))
      | Neq \<Rightarrow> rbind (ok_or expected_string (as_string value)) (\<lambda>s. Inr (all_context_ids ix - lookup_trace_id_exact ix s))
      | _ \<Rightarrow> Inl (bad_operator op ''trace_id field''))"

definition execute_parent :: "Operator \<Rightarrow> cql_value \<Rightarrow> SecondaryIndexes \<Rightarrow> u64 set cql_res" where
  "execute_parent op value ix =
     (case op of
        Eq \<Rightarrow> rbind (ok_or (expected_number ''parent'') (as_u64 value)) (\<lambda>i. Inr (lookup_parent_exact ix i))
      | Neq \<Rightarrow> rbind (ok_or (expected_number ''parent'') (as_u64 value)) (\<lambda>i. Inr (all_context_ids ix - lookup_parent_exact ix i))
      | In \<Rightarrow> rbind (ok_or expected_list (as_list value)) (\<lambda>vs. Inr (in_union as_u64 (lookup_parent_exact ix) vs))
      | _ \<Rightarrow> Inl (bad_operator op ''parent field''))"

definition execute_root :: "Operator \<Rightarrow> cql_value \<Rightarrow> SecondaryIndexes \<Rightarrow> u64 set cql_res" where
  "execute_root op value ix =
     (case op of
        Eq \<Rightarrow> rbind (ok_or (expected_number ''root'') (as_u64 value)) (\<lambda>i. Inr (lookup_root_exact ix i))
      | Neq \<Rightarrow> rbind (ok_or (expected_number ''root'') (as_u64 value)) (\<lambda>i. Inr (all_context_ids ix - lookup_root_exact ix i))
      | In \<Rightarrow> rbind (ok_or expected_list (as_list value)) (\<lambda>vs. Inr (in_union as_u64 (lookup_root_exact ix) vs))
      | _ \<Rightarrow> Inl (bad_operator op ''root field''))"

definition execute_created :: "cql_env \<Rightarrow> Operator \<Rightarrow> cql_value \<Rightarrow> SecondaryIndexes \<Rightarrow> u64 set cql_res" where
  "execute_created env op value ix =
     rbind (parse_date_value env value) (\<lambda>timestamp.
       case op of
         Eq \<Rightarrow> Inr (lookup_created_eq ix timestamp)
       | Neq \<Rightarrow> Inr (all_context_ids ix - lookup_created_eq ix timestamp)
       | Gt \<Rightarrow> Inr (lookup_created_gt ix timestamp)
       | Gte \<Rightarrow> Inr (lookup_created_gte ix timestamp)
       | Lt \<Rightarrow> Inr (lookup_created_lt ix timestamp)
       | Lte \<Rightarrow> Inr (lookup_created_lte ix timestamp)
       | _ \<Rightarrow> Inl (bad_operator op ''created field''))"

definition execute_depth :: "Operator \<Rightarrow> cql_value \<Rightarrow> SecondaryIndexes \<Rightarrow> u64 set cql_res" where
  "execute_depth op value ix =
     rbind (ok_or (expected_number ''depth'') (as_u64 value)) (\<lambda>n.
       let depth = ucast n :: u32 in
       case op of
         Eq \<Rightarrow> Inr (lookup_depth_eq ix depth)
       | Neq \<Rightarrow> Inr (all_context_ids ix - lookup_depth_eq ix depth)
       | Gt \<Rightarrow> Inr (lookup_depth_gt ix depth)
       | Gte \<Rightarrow> Inr (lookup_depth_gte ix depth)
       | Lt \<Rightarrow> Inr (lookup_depth_lt ix depth)
       | Lte \<Rightarrow> Inr (lookup_depth_lte ix depth)
       | _ \<Rightarrow> Inl (bad_operator op ''depth field''))"

definition execute_is_live :: "Operator \<Rightarrow> cql_value \<Rightarrow> u64 set \<Rightarrow> SecondaryIndexes \<Rightarrow> u64 set cql_res" where
  "execute_is_live op value live ix =
     (case value of
        VString v \<Rightarrow>
          if op = Eq then
            (if v = ''true'' then Inr live else Inr (all_context_ids ix - live))
          else Inl (bad_operator op ''is_live field'')
      | _ \<Rightarrow> Inl (cql_err InvalidValue ''Expected boolean value for is_live''))"

section \<open>Expressions\<close>

definition execute_comparison ::
    "cql_env \<Rightarrow> string \<Rightarrow> Operator \<Rightarrow> cql_value \<Rightarrow> SecondaryIndexes \<Rightarrow> u64 set \<Rightarrow> u64 set cql_res" where
  "execute_comparison env field op value ix live =
     (case field_from_str field of
        None \<Rightarrow> Inl \<lparr>ce_error_type = UnknownField, ce_message = ''Unknown field: '' @ field,
                     ce_position = None, ce_field = Some field\<rparr>
      | Some f \<Rightarrow>
          (case f of
             Id \<Rightarrow> execute_id op value ix
           | Tag \<Rightarrow> execute_string_field (env_lower env) op value ix SF_Tag
           | Title \<Rightarrow> execute_string_field (env_lower env) op value ix SF_Title
           | Label \<Rightarrow> execute_label op value ix
           | User \<Rightarrow> execute_string_field (env_lower env) op value ix SF_User
           | Service \<Rightarrow> execute_string_field (env_lower env) op value ix SF_Service
           | Host \<Rightarrow> execute_string_field (env_lower env) op value ix SF_Host
           | TraceId \<Rightarrow> execute_trace_id op value ix
           | Parent \<Rightarrow> execute_parent op value ix
           | Root \<Rightarrow> execute_root op value ix
           | Created \<Rightarrow> execute_created env op value ix
           | Depth \<Rightarrow> execute_depth op value ix
           | IsLive \<Rightarrow> execute_is_live op value live ix))"

fun execute :: "cql_env \<Rightarrow> Expression \<Rightarrow> SecondaryIndexes \<Rightarrow> u64 set \<Rightarrow> u64 set cql_res" where
  "execute env (ExprAnd left right) ix live =
     rbind (execute env left ix live) (\<lambda>l. rbind (execute env right ix live) (\<lambda>r. Inr (l \<inter> r)))"
| "execute env (ExprOr left right) ix live =
     rbind (execute env left ix live) (\<lambda>l. rbind (execute env right ix live) (\<lambda>r. Inr (l \<union> r)))"
| "execute env (ExprNot inner) ix live =
     rbind (execute env inner ix live) (\<lambda>i. Inr (all_context_ids ix - i))"
| "execute env (Comparison field op value) ix live = execute_comparison env field op value ix live"

end
