(* ===== verification/Store.thy ===== *)
theory Store
  imports Fs_Store Cql_Executor Blob_Store
begin

text \<open>
  The store (\<^verbatim>\<open>server/src/store.rs\<close>): the turn store, the blob store and the snapshot roots, with a
  cache of context metadata and the secondary indexes kept beside them.

  What it takes from outside is the record \<open>store_env\<close>: checksum, compression, BLAKE3, MessagePack
  decoding, \<^verbatim>\<open>to_lowercase\<close> and the iteration orders of the hash maps.  A lookup that follows a
  parent chain may not return on corrupt data; the operations that use it return an option.
\<close>

section \<open>Data\<close>

record store_env =
  se_crc :: crc_fun
  se_zenc :: zstd_enc
  se_zdec :: zstd_dec
  se_blake3 :: "bytes \<Rightarrow> bytes"
  se_read_value :: read_value
  se_lower :: "string \<Rightarrow> string"
  se_it_index :: "(u64, u64) hash_iter"
  se_it_heads :: "(u64, ContextHead) hash_iter"
  se_it_cache :: "(u64, ContextMetadata option) hash_iter"
  se_it_ids :: "u64 set \<Rightarrow> u64 list"

record Store =
  blob_store :: BlobStore
  turn_store :: TurnStore
  fs_roots :: FsRootsIndex
  context_metadata_cache :: "u64 \<rightharpoonup> ContextMetadata option"
  secondary_indexes :: SecondaryIndexes

record TurnWithMeta =
  tw_record :: TurnRecord
  tw_meta :: TurnMeta
  tw_payload :: "bytes option"

record SearchResult =
  sr_context_ids :: "u64 list"
  sr_total_count :: nat
  sr_query :: CqlQuery

section \<open>Metadata cache\<close>

abbreviation sblob_get :: "store_env \<Rightarrow> Store \<Rightarrow> bytes \<Rightarrow> bytes res" where
  "sblob_get env s \<equiv> blob_get (se_crc env) (se_zdec env) (blob_store s)"

definition load_context_metadata :: "store_env \<Rightarrow> Store \<Rightarrow> u64 \<Rightarrow> ContextMetadata option option" where
  "load_context_metadata env s context_id =
     (case get_first_turn (turn_store s) context_id of
        None \<Rightarrow> None
      | Some (Inl e) \<Rightarrow> Some None
      | Some (Inr first_turn) \<Rightarrow>
          (case sblob_get env s (tr_payload_hash first_turn) of
             Inl e \<Rightarrow> Some None
           | Inr payload \<Rightarrow> Some (extract_context_metadata (se_read_value env) payload)))"

definition get_context_metadata :: "store_env \<Rightarrow> Store \<Rightarrow> u64 \<Rightarrow> (Store \<times> ContextMetadata option) option" where
  "get_context_metadata env s context_id =
     (case context_metadata_cache s context_id of
        Some cached \<Rightarrow> Some (s, cached)
      | None \<Rightarrow>
          (case load_context_metadata env s context_id of
             None \<Rightarrow> None
           | Some metadata \<Rightarrow>
               Some (s\<lparr>context_metadata_cache := (context_metadata_cache s)(context_id \<mapsto> metadata)\<rparr>, metadata)))"

definition maybe_cache_metadata :: "store_env \<Rightarrow> Store \<Rightarrow> u64 \<Rightarrow> bytes \<Rightarrow> Store \<times> ContextMetadata option" where
  "maybe_cache_metadata env s context_id payload =
     (case context_metadata_cache s context_id of
        None \<Rightarrow>
          let metadata = extract_context_metadata (se_read_value env) payload
          in (s\<lparr>context_metadata_cache := (context_metadata_cache s)(context_id \<mapsto> metadata)\<rparr>, metadata)
      | Some _ \<Rightarrow> (s, None))"

section \<open>Opening\<close>

fun cache_all :: "store_env \<Rightarrow> ContextHead list \<Rightarrow> Store \<Rightarrow> Store option" where
  "cache_all env [] s = Some s"
| "cache_all env (h # hs) s =
     (case get_context_metadata env s (ch_context_id h) of
        None \<Rightarrow> None
      | Some (s, _) \<Rightarrow> cache_all env hs s)"

text \<open>\<^verbatim>\<open>list_recent_contexts(u32::MAX)\<close>\<close>

definition build_indexes :: "store_env \<Rightarrow> Store \<Rightarrow> Store option" where
  "build_indexes env s =
     (let hds = list_recent_contexts (se_it_heads env) (turn_store s) (- 1) in
      case cache_all env hds s of
        None \<Rightarrow> None
      | Some s \<Rightarrow>
          Some (s\<lparr>secondary_indexes :=
            build_from_cache (se_lower env) (se_it_cache env) (context_metadata_cache s) hds (secondary_indexes s)\<rparr>))"

definition store_open ::
    "store_env \<Rightarrow> bytes \<Rightarrow> bytes \<Rightarrow> bytes \<Rightarrow> bytes \<Rightarrow> bytes \<Rightarrow> bytes \<Rightarrow> bytes \<Rightarrow> Store res option" where
  "store_open env pack idx log tidx meta hds roots =
     (case rbind (blob_open pack idx) (\<lambda>b.
           rbind (ts_open (se_crc env) (se_it_index env) log tidx meta hds) (\<lambda>t.
           rbind (fs_open (se_crc env) roots) (\<lambda>f.
           Inr \<lparr>blob_store = b, turn_store = t, fs_roots = f, context_metadata_cache = Map.empty,
                secondary_indexes = idx_new\<rparr>))) of
        Inl e \<Rightarrow> Some (Inl e)
      | Inr s \<Rightarrow> map_option Inr (build_indexes env s))"

section \<open>Writing\<close>

definition st_create_context :: "store_env \<Rightarrow> u64 \<Rightarrow> Store \<Rightarrow> u64 \<Rightarrow> Store \<times> ContextHead res" where
  "st_create_context env now s base_turn_id =
     (case create_context (se_crc env) now (turn_store s) base_turn_id of
        (t, r) \<Rightarrow> (s\<lparr>turn_store := t\<rparr>, r))"

definition st_fork_context :: "store_env \<Rightarrow> u64 \<Rightarrow> Store \<Rightarrow> u64 \<Rightarrow> Store \<times> ContextHead res" where
  "st_fork_context env now s base_turn_id =
     (case fork_context (se_crc env) now (turn_store s) base_turn_id of
        (t, r) \<Rightarrow> (s\<lparr>turn_store := t\<rparr>, r))"

definition st_get_head :: "Store \<Rightarrow> u64 \<Rightarrow> ContextHead res" where
  "st_get_head s context_id = get_head (turn_store s) context_id"

definition decompress :: "store_env \<Rightarrow> u32 \<Rightarrow> bytes \<Rightarrow> bytes res" where
  "decompress env compression payload_bytes =
     (if compression = 0 then Inr payload_bytes
      else if compression = 1 then
        (case se_zdec env payload_bytes of
           Inl e \<Rightarrow> Inl (InvalidInput (''zstd decode failed: '' @ e))
         | Inr raw \<Rightarrow> Inr raw)
      else Inl (InvalidInput (''unsupported compression: '' @ dec_str (unat compression))))"

definition check_payload :: "store_env \<Rightarrow> u32 \<Rightarrow> u32 \<Rightarrow> bytes \<Rightarrow> bytes \<Rightarrow> bytes res" where
  "check_payload env compression uncompressed_len content_hash payload_bytes =
     rbind (decompress env compression payload_bytes) (\<lambda>raw_bytes.
       if of_nat (length raw_bytes) \<noteq> uncompressed_len then Inl (InvalidInput ''uncompressed length mismatch'')
       else if se_blake3 env raw_bytes \<noteq> content_hash then Inl (InvalidInput ''content hash mismatch'')
       else Inr raw_bytes)"

definition st_append_turn ::
    "store_env \<Rightarrow> u64 \<Rightarrow> Store \<Rightarrow> u64 \<Rightarrow> u64 \<Rightarrow> string \<Rightarrow> u32 \<Rightarrow> u32 \<Rightarrow> u32 \<Rightarrow> u32 \<Rightarrow> bytes \<Rightarrow> bytes
     \<Rightarrow> Store \<times> (TurnRecord \<times> ContextMetadata option) res" where
  "st_append_turn env now s context_id parent_turn_id declared_type_id declared_type_version encoding compression
      uncompressed_len content_hash payload_bytes =
     (case check_payload env compression uncompressed_len content_hash payload_bytes of
        Inl e \<Rightarrow> (s, Inl e)
      | Inr raw_bytes \<Rightarrow>
     (case put_if_absent (se_crc env) (se_zenc env) (blob_store s) content_hash raw_bytes of
        (b, Inl e) \<Rightarrow> (s\<lparr>blob_store := b\<rparr>, Inl e)
      | (b, Inr _) \<Rightarrow>
     (let s = s\<lparr>blob_store := b\<rparr> in
      case append_turn (se_crc env) now (turn_store s) context_id parent_turn_id content_hash encoding
             declared_type_id declared_type_version compression uncompressed_len of
        (t, Inl e) \<Rightarrow> (s\<lparr>turn_store := t\<rparr>, Inl e)
      | (t, Inr record') \<Rightarrow>
          let s = s\<lparr>turn_store := t\<rparr>;
              (s, metadata) = maybe_cache_metadata env s context_id raw_bytes
          in (case metadata of
                None \<Rightarrow> (s, Inr (record', metadata))
              | Some md \<Rightarrow>
                  (case get_head (turn_store s) context_id of
                     Inl e \<Rightarrow> (s, Inl e)
                   | Inr head \<Rightarrow>
                       (s\<lparr>secondary_indexes :=
                          idx_add_context (se_lower env) context_id metadata (ch_created_at_unix_ms head)
                            (tr_depth record') (secondary_indexes s)\<rparr>,
                        Inr (record', metadata)))))))"

definition st_attach_fs :: "store_env \<Rightarrow> Store \<Rightarrow> u64 \<Rightarrow> bytes \<Rightarrow> Store \<times> unit res" where
  "st_attach_fs env s turn_id fs_root_hash =
     (case get_turn (turn_store s) turn_id of
        Inl e \<Rightarrow> (s, Inl e)
      | Inr _ \<Rightarrow>
          if \<not> contains (blob_store s) fs_root_hash then (s, Inl (NotFound ''fs root tree blob''))
          else (s\<lparr>fs_roots := attach (se_crc env) (fs_roots s) turn_id fs_root_hash\<rparr>, Inr ()))"

section \<open>Reading\<close>

fun with_meta :: "store_env \<Rightarrow> Store \<Rightarrow> bool \<Rightarrow> TurnRecord list \<Rightarrow> TurnWithMeta list res" where
  "with_meta env s include_payload [] = Inr []"
| "with_meta env s include_payload (r # rs) =
     rbind (get_turn_meta (turn_store s) (tr_turn_id r)) (\<lambda>meta.
     rbind (if include_payload then map_sum id Some (sblob_get env s (tr_payload_hash r)) else Inr None) (\<lambda>payload.
     rbind (with_meta env s include_payload rs) (\<lambda>out.
     Inr (\<lparr>tw_record = r, tw_meta = meta, tw_payload = payload\<rparr> # out))))"

definition st_get_last :: "store_env \<Rightarrow> Store \<Rightarrow> u64 \<Rightarrow> u32 \<Rightarrow> bool \<Rightarrow> TurnWithMeta list res" where
  "st_get_last env s context_id limit include_payload =
     rbind (get_last (turn_store s) context_id limit) (with_meta env s include_payload)"

definition st_get_before :: "store_env \<Rightarrow> Store \<Rightarrow> u64 \<Rightarrow> u64 \<Rightarrow> u32 \<Rightarrow> bool \<Rightarrow> TurnWithMeta list res" where
  "st_get_before env s context_id before_turn_id limit include_payload =
     rbind (get_before (turn_store s) context_id before_turn_id limit) (with_meta env s include_payload)"

definition st_get_blob :: "store_env \<Rightarrow> Store \<Rightarrow> bytes \<Rightarrow> bytes res" where
  "st_get_blob env s hash = sblob_get env s hash"

definition st_list_recent_contexts :: "store_env \<Rightarrow> Store \<Rightarrow> u32 \<Rightarrow> ContextHead list" where
  "st_list_recent_contexts env s limit = list_recent_contexts (se_it_heads env) (turn_store s) limit"

definition list_contexts_by_label :: "store_env \<Rightarrow> Store \<Rightarrow> string \<Rightarrow> u32 \<Rightarrow> ContextHead list" where
  "list_contexts_by_label env s label limit =
     (let matching_ids = se_it_ids env (lookup_label_exact (secondary_indexes s) label);
          hds = List.map_filter (\<lambda>i. case get_head (turn_store s) i of Inl _ \<Rightarrow> None | Inr h \<Rightarrow> Some h) matching_ids
      in take (unat limit) (recent_first hds))"

subsection \<open>Lineage\<close>

definition desc_ids :: "u64 set \<Rightarrow> u64 list" where
  "desc_ids ids = rev (sorted_list_of_set ids)"

definition child_context_ids :: "Store \<Rightarrow> u64 \<Rightarrow> u64 list" where
  "child_context_ids s parent_context_id = desc_ids (lookup_parent_exact (secondary_indexes s) parent_context_id)"

text \<open>
  The loop of \<^verbatim>\<open>descendant_context_ids\<close> over the queue.  It ends because every iteration either
  shortens the queue or visits a new 64-bit id.
\<close>

function bfs :: "(u64 \<Rightarrow> u64 list) \<Rightarrow> u32 option \<Rightarrow> u64 list \<Rightarrow> u64 set \<Rightarrow> u64 list \<Rightarrow> u64 list" where
  "bfs children limit [] visited out = out"
| "bfs children limit (c # queue) visited out =
     (if c \<in> visited then bfs children limit queue visited out
      else
        let visited = insert c visited; out = out @ [c]
        in (case limit of
              Some m \<Rightarrow>
                if unat m \<le> length out then out
                else bfs children limit (queue @ filter (\<lambda>d. d \<notin> visited) (children c)) visited out
            | None \<Rightarrow> bfs children limit (queue @ filter (\<lambda>d. d \<notin> visited) (children c)) visited out))"
  by pat_completeness auto
termination
proof (relation "measures [\<lambda>(ch, l, q, v, out). card (UNIV - v), \<lambda>(ch, l, q, v, out). length q]", goal_cases)
  case 1
  show ?case by simp
next
  case (2 ch l c q v out)
  then show ?case by simp
next
  case (3 ch l c q v out)
  then have "card (UNIV - insert c v) < card (UNIV - v)" by (intro psubset_card_mono) auto
  with 3 show ?case by simp
next
  case (4 ch l c q v out)
  then have "card (UNIV - insert c v) < card (UNIV - v)" by (intro psubset_card_mono) auto
  with 4 show ?case by simp
qed

definition descendant_context_ids :: "Store \<Rightarrow> u64 \<Rightarrow> u32 option \<Rightarrow> u64 list" where
  "descendant_context_ids s parent_context_id limit =
     rev (sort (bfs (child_context_ids s) limit (child_context_ids s parent_context_id) {} []))"

subsection \<open>Search and snapshots\<close>

definition search_contexts_parsed ::
    "cql_env \<Rightarrow> Store \<Rightarrow> CqlQuery \<Rightarrow> u64 set \<Rightarrow> u32 option \<Rightarrow> SearchResult cql_res" where
  "search_contexts_parsed env s query live_contexts limit =
     rbind (execute env (cq_ast query) (secondary_indexes s) live_contexts) (\<lambda>matching_ids.
       let sorted_ids = desc_ids matching_ids
       in Inr \<lparr>sr_context_ids = (case limit of None \<Rightarrow> sorted_ids | Some l \<Rightarrow> take (unat l) sorted_ids),
               sr_total_count = length sorted_ids, sr_query = query\<rparr>)"

definition st_get_fs_root :: "Store \<Rightarrow> u64 \<Rightarrow> bytes option option" where
  "st_get_fs_root s turn_id = get_inherited (fs_roots s) (turn_store s) turn_id"

definition st_get_fs_root_direct :: "Store \<Rightarrow> u64 \<Rightarrow> bytes option" where
  "st_get_fs_root_direct s turn_id = fs_get (fs_roots s) turn_id"

definition list_fs_entries :: "store_env \<Rightarrow> Store \<Rightarrow> u64 \<Rightarrow> string \<Rightarrow> TreeEntry list res option" where
  "list_fs_entries env s turn_id path =
     (case st_get_fs_root s turn_id of
        None \<Rightarrow> None
      | Some None \<Rightarrow> Some (Inl (NotFound ''no fs snapshot for turn''))
      | Some (Some fs_root) \<Rightarrow>
          map_option (\<lambda>r. rbind r (\<lambda>(tree_hash, is_dir).
              if \<not> is_dir then Inl (InvalidInput (''path is not a directory: '' @ path))
              else load_tree_entries (se_read_value env) (sblob_get env s) tree_hash))
            (resolve_path (se_read_value env) (sblob_get env s) fs_root path))"

definition get_fs_file :: "store_env \<Rightarrow> Store \<Rightarrow> u64 \<Rightarrow> string \<Rightarrow> (bytes \<times> TreeEntry) res option" where
  "get_fs_file env s turn_id path =
     (case st_get_fs_root s turn_id of
        None \<Rightarrow> None
      | Some None \<Rightarrow> Some (Inl (NotFound ''no fs snapshot for turn''))
      | Some (Some fs_root) \<Rightarrow> get_file_at_path (se_read_value env) (sblob_get env s) fs_root path)"

end
