(* ===== verification/Turn_Dag.thy ===== *)
theory Turn_Dag
  imports Turn_Store
begin

text \<open>
  The turn store as a DAG of turns: its well-formedness invariant, that every operation keeps it, and
  what the reading operations return in terms of the ancestry of a turn.  The specification is the
  inductive relation \<open>ancestry\<close>: the list of turns from a turn up to its root.
\<close>

section \<open>What the writing operations do to the state\<close>

definition new_head :: "u64 \<Rightarrow> u64 \<Rightarrow> u32 \<Rightarrow> u64 \<Rightarrow> ContextHead" where
  "new_head c t d now =
     \<lparr>ch_context_id = c, ch_head_turn_id = t, ch_head_depth = d, ch_created_at_unix_ms = now, ch_flags = 0\<rparr>"

definition new_turn :: "u64 \<Rightarrow> u64 \<Rightarrow> u32 \<Rightarrow> u32 \<Rightarrow> bytes \<Rightarrow> u64 \<Rightarrow> TurnRecord" where
  "new_turn t p d enc hash now =
     \<lparr>tr_turn_id = t, tr_parent_turn_id = p, tr_depth = d, tr_codec = enc, tr_type_tag = 0,
      tr_payload_hash = hash, tr_flags = 0, tr_created_at_unix_ms = now\<rparr>"

definition new_meta :: "string \<Rightarrow> u32 \<Rightarrow> u32 \<Rightarrow> u32 \<Rightarrow> u32 \<Rightarrow> TurnMeta" where
  "new_meta ty ver enc cmp len =
     \<lparr>tm_declared_type_id = ty, tm_declared_type_version = ver, tm_encoding = enc,
      tm_compression = cmp, tm_uncompressed_len = len\<rparr>"

lemma new_head_sel [simp]:
  "ch_context_id (new_head c t d now) = c" "ch_head_turn_id (new_head c t d now) = t"
  "ch_head_depth (new_head c t d now) = d" "ch_created_at_unix_ms (new_head c t d now) = now"
  by (simp_all add: new_head_def)

lemma new_turn_sel [simp]:
  "tr_turn_id (new_turn t p d enc hash now) = t"
  "tr_parent_turn_id (new_turn t p d enc hash now) = p"
  "tr_depth (new_turn t p d enc hash now) = d"
  "tr_payload_hash (new_turn t p d enc hash now) = hash"
  "tr_created_at_unix_ms (new_turn t p d enc hash now) = now"
  by (simp_all add: new_turn_def)

lemma new_meta_sel [simp]: "tm_declared_type_id (new_meta ty ver enc cmp len) = ty"
  by (simp add: new_meta_def)

lemma create_context_eq:
  "create_context crc now s base =
     (case resolve_base s base of
        Inl e \<Rightarrow> (s, Inl e)
      | Inr (t, d) \<Rightarrow>
          let c = next_context_id s; h = new_head c t d now
          in (s\<lparr>next_context_id := c + 1, heads_tbl := heads_tbl s @ encode_head crc h,
                heads := (heads s)(c \<mapsto> h)\<rparr>, Inr h))"
  by (simp add: create_context_def write_head_def new_head_def Let_def split: sum.split prod.split)

lemma append_turn_eq:
  "append_turn crc now s c p hash enc ty ver cmp len =
     (case resolve_parent s c p of
        Inl e \<Rightarrow> (s, Inl e)
      | Inr (parent, d) \<Rightarrow>
          let t = next_turn_id s; r = new_turn t parent d enc hash now;
              m = new_meta ty ver enc cmp len; h = new_head c t d now;
              off = of_nat (length (turns_log s))
          in (s\<lparr>turns_log := turns_log s @ encode_turn_record crc r,
                turns_idx := turns_idx s @ idx_entry (t, off),
                turns_meta := turns_meta s @ encode_turn_meta (t, m),
                heads_tbl := heads_tbl s @ encode_head crc h,
                turns := (turns s)(t \<mapsto> r), turn_index := (turn_index s)(t \<mapsto> off),
                turn_meta := (turn_meta s)(t \<mapsto> m), heads := (heads s)(c \<mapsto> h),
                next_turn_id := t + 1\<rparr>, Inr r))"
  by (simp add: append_turn_def write_head_def new_head_def new_turn_def new_meta_def Let_def
      split: sum.split prod.split)

lemma append_turn_InrE:
  assumes "append_turn crc now s c p hash enc ty ver cmp len = (s', Inr r)"
  obtains parent d where "resolve_parent s c p = Inr (parent, d)"
    and "r = new_turn (next_turn_id s) parent d enc hash now"
    and "turns s' = (turns s)(next_turn_id s \<mapsto> r)"
    and "turn_meta s' = (turn_meta s)(next_turn_id s \<mapsto> new_meta ty ver enc cmp len)"
    and "heads s' = (heads s)(c \<mapsto> new_head c (next_turn_id s) d now)"
    and "turns_log s' = turns_log s @ encode_turn_record crc r"
    and "length (turns_idx s') = length (turns_idx s) + 16"
    and "turns_meta s' = turns_meta s @ encode_turn_meta (next_turn_id s, new_meta ty ver enc cmp len)"
    and "heads_tbl s' = heads_tbl s @ encode_head crc (new_head c (next_turn_id s) d now)"
    and "next_turn_id s' = next_turn_id s + 1" and "next_context_id s' = next_context_id s"
  using assms that by (auto simp: append_turn_eq Let_def idx_entry_def split: sum.splits)

text \<open>A call that fails changes nothing.\<close>

lemma create_context_Inl: "create_context crc now s base = (s', Inl e) \<Longrightarrow> s' = s"
  by (auto simp: create_context_eq Let_def split: sum.splits)

lemma append_turn_Inl:
  "append_turn crc now s c p hash enc ty ver cmp len = (s', Inl e) \<Longrightarrow> s' = s"
  by (auto simp: append_turn_eq Let_def split: sum.splits)

section \<open>Well-formed stores\<close>

definition turn_ok :: "(u64 \<rightharpoonup> TurnRecord) \<Rightarrow> u64 \<Rightarrow> TurnRecord \<Rightarrow> bool" where
  "turn_ok ts i r \<longleftrightarrow>
     tr_turn_id r = i \<and> i \<noteq> 0 \<and> unat (tr_depth r) < unat i \<and>
     (if tr_parent_turn_id r = 0 then tr_depth r = 0
      else unat (tr_parent_turn_id r) < unat i \<and>
        (\<exists>p. ts (tr_parent_turn_id r) = Some p \<and> unat (tr_depth r) = unat (tr_depth p) + 1))"

definition head_ok :: "(u64 \<rightharpoonup> TurnRecord) \<Rightarrow> u64 \<Rightarrow> ContextHead \<Rightarrow> bool" where
  "head_ok ts c h \<longleftrightarrow>
     ch_context_id h = c \<and>
     (if ch_head_turn_id h = 0 then ch_head_depth h = 0
      else \<exists>r. ts (ch_head_turn_id h) = Some r \<and> ch_head_depth h = tr_depth r)"

definition dag_wf :: "TurnStore \<Rightarrow> bool" where
  "dag_wf s \<longleftrightarrow>
     (\<forall>i r. turns s i = Some r \<longrightarrow> turn_ok (turns s) i r \<and> unat i < unat (next_turn_id s)) \<and>
     next_turn_id s \<noteq> 0 \<and>
     (\<forall>c h. heads s c = Some h \<longrightarrow> head_ok (turns s) c h)"

lemma dag_wf_turnD:
  "dag_wf s \<Longrightarrow> turns s i = Some r \<Longrightarrow> turn_ok (turns s) i r"
  "dag_wf s \<Longrightarrow> turns s i = Some r \<Longrightarrow> unat i < unat (next_turn_id s)"
  by (auto simp: dag_wf_def)

lemma dag_wf_headD: "dag_wf s \<Longrightarrow> heads s c = Some h \<Longrightarrow> head_ok (turns s) c h"
  by (simp add: dag_wf_def)

lemma dag_wf_next_fresh: "dag_wf s \<Longrightarrow> turns s (next_turn_id s) = None"
  by (cases "turns s (next_turn_id s)") (auto dest: dag_wf_turnD(2))

lemma dag_wf_new: "dag_wf (ts_new log idx meta hds)"
  by (simp add: dag_wf_def ts_new_def)

text \<open>
  Adding a turn under a fresh number keeps every fact about the old turns: a new number is never an
  old turn's parent.
\<close>

lemma turn_ok_upd: "turn_ok ts i r \<Longrightarrow> ts t = None \<Longrightarrow> turn_ok (ts(t \<mapsto> x)) i r"
  by (auto simp: turn_ok_def split: if_splits)

lemma head_ok_upd: "head_ok ts c h \<Longrightarrow> ts t = None \<Longrightarrow> head_ok (ts(t \<mapsto> x)) c h"
  by (auto simp: head_ok_def split: if_splits)

lemma resolve_base_Inr:
  "dag_wf s \<Longrightarrow> resolve_base s base = Inr (t, d) \<Longrightarrow>
    t = base \<and> (if t = 0 then d = 0 else \<exists>r. turns s t = Some r \<and> d = tr_depth r)"
  by (auto simp: resolve_base_def turn_ok_def dest: dag_wf_turnD(1) split: if_splits option.splits)

lemma resolve_parent_Inr:
  assumes "dag_wf s" and "resolve_parent s c p = Inr (t, d)"
  shows "t = 0 \<and> d = 0 \<or> t \<noteq> 0 \<and> (\<exists>r. turns s t = Some r \<and> d = tr_depth r + 1)"
  using assms dag_wf_turnD(1) [OF assms(1)] dag_wf_headD [OF assms(1), of c]
  by (fastforce simp: resolve_parent_def turn_ok_def split: if_splits option.splits)

lemma dag_wf_create_context:
  assumes "dag_wf s" and "create_context crc now s base = (s', res)"
  shows "dag_wf s'"
  using assms resolve_base_Inr [OF assms(1), of base]
  by (fastforce simp: create_context_eq Let_def dag_wf_def head_ok_def split: sum.splits if_splits)

text \<open>
  The capacity under which an append keeps the invariant: fewer than \<open>2\<^sup>3\<^sup>2\<close> turns were ever
  written, so that neither the depth (32 bits) nor the turn number (64 bits) wraps.
\<close>

lemma new_turn_ok:
  assumes wf: "dag_wf s" and cap: "unat (next_turn_id s) < 2 ^ 32"
    and res: "resolve_parent s c p = Inr (parent, d)"
  shows "turn_ok ((turns s)(next_turn_id s \<mapsto> x)) (next_turn_id s) (new_turn (next_turn_id s) parent d enc hash now)"
proof (cases "parent = 0")
  case True
  with resolve_parent_Inr [OF wf res] wf show ?thesis
    by (auto simp: turn_ok_def dag_wf_def unat_gt_0)
next
  case False
  with resolve_parent_Inr [OF wf res] obtain q where q: "turns s parent = Some q" "d = tr_depth q + 1"
    by auto
  have ok: "turn_ok (turns s) parent q" and lt: "unat parent < unat (next_turn_id s)"
    using wf q(1) by (auto dest: dag_wf_turnD)
  then have below: "unat (tr_depth q) + 1 < unat (next_turn_id s)" by (simp add: turn_ok_def)
  with cap q(2) have "unat d = unat (tr_depth q) + 1" by (simp add: unat_Suc_word)
  moreover have "next_turn_id s \<noteq> 0" using wf by (simp add: dag_wf_def)
  ultimately show ?thesis using False q lt below
    by (auto simp: turn_ok_def)
qed

lemma dag_wf_append_turn:
  assumes wf: "dag_wf s" and cap: "unat (next_turn_id s) < 2 ^ 32"
    and app: "append_turn crc now s c p hash enc ty ver cmp len = (s', res)"
  shows "dag_wf s'"
proof (cases "resolve_parent s c p")
  case (Inl e)
  with app wf show ?thesis by (simp add: append_turn_eq)
next
  case (Inr pd)
  obtain parent d where pd: "pd = (parent, d)" by (cases pd)
  let ?t = "next_turn_id s" and ?r = "new_turn (next_turn_id s) parent d enc hash now"
  from Inr pd app have s': "turns s' = (turns s)(?t \<mapsto> ?r)"
      "heads s' = (heads s)(c \<mapsto> new_head c ?t d now)" "next_turn_id s' = ?t + 1"
    by (auto simp: append_turn_eq Let_def)
  have fresh: "turns s ?t = None" by (rule dag_wf_next_fresh [OF wf])
  have suc: "unat (?t + 1) = unat ?t + 1" using cap by (simp add: unat_Suc_word)
  then have "?t + 1 \<noteq> 0" by (metis add_eq_0_iff_both_eq_0 unat_0 zero_neq_one)
  moreover have "turn_ok (turns s') i r \<and> unat i < unat (next_turn_id s')" if "turns s' i = Some r" for i r
    using that new_turn_ok [OF wf cap Inr [unfolded pd]] fresh dag_wf_turnD [OF wf, of i r] suc
    by (auto simp: s' turn_ok_upd split: if_splits)
  moreover have "head_ok (turns s') c' h" if "heads s' c' = Some h" for c' h
  proof (cases "c' = c")
    case True
    with that show ?thesis using wf by (auto simp: s' head_ok_def dag_wf_def)
  next
    case False
    with that have "heads s c' = Some h" by (simp add: s')
    from head_ok_upd [OF dag_wf_headD [OF wf this] fresh] show ?thesis by (simp add: s')
  qed
  ultimately show ?thesis by (auto simp: dag_wf_def s')
qed

section \<open>Ancestry\<close>

text \<open>\<open>ancestry ts i rs\<close>: following parents from turn \<open>i\<close> to a root meets the turns \<open>rs\<close>, in that
  order; 0 is the empty history.\<close>

inductive ancestry :: "(u64 \<rightharpoonup> TurnRecord) \<Rightarrow> u64 \<Rightarrow> TurnRecord list \<Rightarrow> bool" for ts where
  none: "ancestry ts 0 []"
| turn: "i \<noteq> 0 \<Longrightarrow> ts i = Some r \<Longrightarrow> ancestry ts (tr_parent_turn_id r) rs \<Longrightarrow> ancestry ts i (r # rs)"

inductive_simps ancestry_0 [simp]: "ancestry ts 0 rs"
inductive_simps ancestry_Cons: "ancestry ts i (r # rs)"
inductive_simps ancestry_Nil [simp]: "ancestry ts i []"

lemma ancestry_fun: "ancestry ts i rs \<Longrightarrow> ancestry ts i rs' \<Longrightarrow> rs = rs'"
proof (induction arbitrary: rs' rule: ancestry.induct)
  case none
  then show ?case by simp
next
  case (turn i r rs)
  from turn.prems turn.hyps(1,2) obtain rs'' where "rs' = r # rs''" "ancestry ts (tr_parent_turn_id r) rs''"
    by (cases rs') (auto simp: ancestry_Cons)
  with turn.IH show ?case by blast
qed

lemma ancestry_upd: "ancestry ts i rs \<Longrightarrow> ts t = None \<Longrightarrow> ancestry (ts(t \<mapsto> x)) i rs"
  by (induction rule: ancestry.induct) (auto intro!: ancestry.intros)

text \<open>In a well-formed store every turn has an ancestry: parents have smaller numbers.\<close>

lemma ancestry_ex:
  assumes wf: "dag_wf s" and i: "i = 0 \<or> turns s i \<noteq> None"
  shows "\<exists>rs. ancestry (turns s) i rs"
  using i
proof (induction "unat i" arbitrary: i rule: less_induct)
  case less
  show ?case
  proof (cases "i = 0")
    case True
    then show ?thesis by (auto intro: ancestry.none)
  next
    case False
    with less.prems obtain r where r: "turns s i = Some r" by auto
    with wf have ok: "turn_ok (turns s) i r" by (rule dag_wf_turnD(1))
    have "\<exists>rs. ancestry (turns s) (tr_parent_turn_id r) rs"
      using less.hyps [of "tr_parent_turn_id r"] ok by (auto simp: turn_ok_def split: if_splits)
    with False r show ?thesis by (auto intro: ancestry.turn)
  qed
qed

text \<open>Depths count down to 0 along an ancestry.\<close>

lemma ancestry_depths:
  assumes wf: "dag_wf s" and "ancestry (turns s) i rs"
  shows "map (unat \<circ> tr_depth) rs = rev [0..<length rs]"
  using assms(2)
proof (induction rule: ancestry.induct)
  case none
  then show ?case by simp
next
  case (turn i r rs)
  have ok: "turn_ok (turns s) i r" using wf turn.hyps(2) by (rule dag_wf_turnD(1))
  have "unat (tr_depth r) = length rs"
  proof (cases rs)
    case Nil
    with turn.hyps(3) ok show ?thesis by (auto simp: turn_ok_def)
  next
    case (Cons q qs)
    with turn.hyps(3) have q: "turns s (tr_parent_turn_id r) = Some q" "tr_parent_turn_id r \<noteq> 0"
      by (auto simp: ancestry_Cons)
    from turn.IH Cons have "unat (tr_depth q) = length qs" by simp
    with q ok Cons show ?thesis by (auto simp: turn_ok_def)
  qed
  with turn.IH show ?case by simp
qed

lemma walk_back_ancestry: "ancestry ts i rs \<Longrightarrow> walk_back ts i n = Inr (take n rs)"
proof (induction arbitrary: n rule: ancestry.induct)
  case none
  then show ?case by (cases n) auto
next
  case (turn i r rs)
  then show ?case by (cases n) auto
qed

lemma first_turn_ancestry:
  assumes wf: "dag_wf s" and "ancestry (turns s) i rs" and "rs \<noteq> []"
  shows "first_turn_loop (turns s) i = Some (Inr (last rs))"
  using assms(2,3)
proof (induction rule: ancestry.induct)
  case none
  then show ?case by simp
next
  case (turn i r rs)
  have ok: "turn_ok (turns s) i r" using wf turn.hyps(2) by (rule dag_wf_turnD(1))
  show ?case
  proof (cases "rs = []")
    case True
    with turn.hyps ok show ?thesis by (subst first_turn_loop.simps) (auto simp: turn_ok_def)
  next
    case False
    with turn.hyps(3) have "tr_parent_turn_id r \<noteq> 0" by auto
    with ok have "tr_depth r \<noteq> 0" by (auto simp: turn_ok_def)
    with turn False show ?thesis by (subst first_turn_loop.simps) auto
  qed
qed

lemma head_ancestry:
  "dag_wf s \<Longrightarrow> heads s c = Some h \<Longrightarrow> \<exists>rs. ancestry (turns s) (ch_head_turn_id h) rs"
  by (rule ancestry_ex) (auto dest!: dag_wf_headD simp: head_ok_def split: if_splits)

end
