(* ===== verification/Turn_Persist.thy ===== *)
theory Turn_Persist
  imports Turn_Dag
begin

text \<open>
  Durability of the turn store: the files always load back to the in-memory maps, reopening restores
  them, and a crash in the middle of an append leaves a store that opens with the old turns and heads
  intact.  The reachable states are those of any sequence of operations and reopenings
  (\<open>ts_reach\<close>).
\<close>

section \<open>Files and maps agree\<close>

definition synced :: "crc_fun \<Rightarrow> TurnStore \<Rightarrow> bool" where
  "synced crc s \<longleftrightarrow>
     scans_to (turn_step crc) ins_turn (turns_log s) (Map.empty, Map.empty) (turns s, turn_index s) \<and>
     scans_to meta_step ins_meta (turns_meta s) Map.empty (turn_meta s) \<and>
     scans_to (head_step crc) ins_head (heads_tbl s) Map.empty (heads s)"

lemma synced_new: "synced crc (ts_new [] idx [] [])"
  by (simp add: synced_def ts_new_def turn_log.scans_to_Nil meta_log.scans_to_Nil head_log.scans_to_Nil)

lemma scans_to_heads_append:
  "scans_to (head_step crc) ins_head bs Map.empty m \<Longrightarrow> ch_context_id h = c \<Longrightarrow>
    scans_to (head_step crc) ins_head (bs @ encode_head crc h) Map.empty (m(c \<mapsto> h))"
  using head_log.scans_to_append [of crc ins_head bs Map.empty m h] by (simp add: ins_head_def)

lemma synced_create_context:
  assumes "synced crc s" and "create_context crc now s base = (s', res)"
  shows "synced crc s'"
  using assms
  by (auto simp: create_context_eq Let_def synced_def scans_to_heads_append split: sum.splits)

lemma synced_append_turn:
  assumes "synced crc s" and "length hash = 32" and "rust_string ty" and "length ty < 2 ^ 32"
    and "append_turn crc now s c p hash enc ty ver cmp len = (s', res)"
  shows "synced crc s'"
proof (cases "resolve_parent s c p")
  case (Inl e)
  with assms show ?thesis by (simp add: append_turn_eq)
next
  case (Inr pd)
  obtain parent d where pd: "pd = (parent, d)" by (cases pd)
  let ?t = "next_turn_id s"
  let ?r = "new_turn ?t parent d enc hash now" and ?m = "new_meta ty ver enc cmp len"
  have v: "valid_turn ?r" "valid_meta (?t, ?m)" using assms by (simp_all add: valid_turn_def valid_meta_def)
  note sy = assms(1) [unfolded synced_def]
  from turn_log.scans_to_append [OF conjunct1 [OF sy] v(1)]
    meta_log.scans_to_append [OF conjunct1 [OF conjunct2 [OF sy]] v(2)]
    scans_to_heads_append [OF conjunct2 [OF conjunct2 [OF sy]], of "new_head c ?t d now"]
    assms(5) Inr pd
  show ?thesis
    by (auto simp: append_turn_eq Let_def synced_def ins_turn_def ins_meta_def)
qed

section \<open>Reopening\<close>

lemma scans_to_file_after:
  "scans_to step ins bs st st' \<Longrightarrow>
    \<exists>trunc. scan_log step ins bs 0 st = Inr (st', length bs, trunc) \<and> file_after bs (length bs) trunc = bs"
  by (auto simp: scans_to_def file_after_def split: sum.splits prod.splits)

definition counter_after :: "(u64 \<rightharpoonup> 'a) \<Rightarrow> u64" where
  "counter_after m = (case max_key m of None \<Rightarrow> 1 | Some k \<Rightarrow> k + 1)"

text \<open>
  Opening files whose scans stop at \<open>pos\<close>: the general form, of which a clean reopening and a
  recovery after a crash are instances.
\<close>

lemma ts_open_scans:
  assumes "scan_log (turn_step crc) ins_turn log 0 (Map.empty, Map.empty) = Inr ((ts, ix), p1, b1)"
    and "scan_log meta_step ins_meta meta 0 Map.empty = Inr (tm, p2, b2)"
    and "scan_log (head_step crc) ins_head hds 0 Map.empty = Inr (hs, p3, b3)"
  shows "ts_open crc it log idx meta hds = Inr
    \<lparr>turns_log = file_after log p1 b1, turns_idx = concat (map idx_entry (it ix)),
     turns_meta = file_after meta p2 b2, heads_tbl = file_after hds p3 b3,
     turns = ts, turn_index = ix, turn_meta = tm, heads = hs,
     next_turn_id = counter_after ts, next_context_id = counter_after hs\<rparr>"
  using assms
  by (simp add: ts_open_def load_turns_def load_meta_def load_heads_def ts_new_def rebuild_index_def
      update_counters_def counter_after_def split: option.split)

lemma ts_open_synced:
  assumes "synced crc s"
  shows "ts_open crc it (turns_log s) idx (turns_meta s) (heads_tbl s) =
    Inr (s\<lparr>turns_idx := concat (map idx_entry (it (turn_index s))),
           next_turn_id := counter_after (turns s), next_context_id := counter_after (heads s)\<rparr>)"
  using assms unfolding synced_def
  by (elim conjE) (drule scans_to_file_after, elim exE conjE, drule scans_to_file_after, elim exE conjE,
      drule scans_to_file_after, elim exE conjE, simp add: ts_open_scans)

subsection \<open>Counters\<close>

lemma max_key_None [simp]: "max_key m = None \<longleftrightarrow> m = Map.empty"
  by (simp add: max_key_def)

lemma max_key_empty [simp]: "max_key Map.empty = None"
  by simp

lemma max_key_SomeD:
  assumes "max_key m = Some k"
  shows "k \<in> dom m \<and> (\<forall>j\<in>dom m. j \<le> k)"
proof -
  from assms have "dom m \<noteq> {}" and k: "k = Max (dom m)"
    by (auto simp: max_key_def split: if_splits)
  moreover have "finite (dom m)" by simp
  ultimately show ?thesis using Max_in Max_ge by blast
qed

lemma max_key_upd:
  "max_key (m(k \<mapsto> v)) = Some (case max_key m of None \<Rightarrow> k | Some j \<Rightarrow> max k j)"
  by (auto simp: max_key_def)

lemma counter_after_above:
  assumes "\<forall>i\<in>dom m. unat i < unat (n :: u64)" and "n \<noteq> 0"
  shows "counter_after m \<noteq> 0" and "\<forall>i\<in>dom m. unat i < unat (counter_after m)"
proof -
  have "counter_after m \<noteq> 0 \<and> (\<forall>i\<in>dom m. unat i < unat (counter_after m))"
  proof (cases "max_key m")
    case None
    then show ?thesis by (simp add: counter_after_def)
  next
    case (Some k)
    then have k: "k \<in> dom m" "\<forall>j\<in>dom m. j \<le> k" by (auto dest: max_key_SomeD)
    with assms(1) have "unat k + 1 < 2 ^ 64 \<or> unat k + 1 = 2 ^ 64" using unsigned_less [of k, where ?'a = nat] by auto
    moreover have "unat k < unat n" using assms(1) k(1) by blast
    moreover have "unat n < 2 ^ 64" using unsigned_less [of n, where ?'a = nat] by simp
    ultimately have suc: "unat (k + 1) = unat k + 1" by (simp add: unat_Suc_word)
    then have "k + 1 \<noteq> 0" by (metis add_eq_0_iff_both_eq_0 unat_0 zero_neq_one)
    with suc k(2) Some show ?thesis by (auto simp: counter_after_def word_le_nat_alt less_Suc_eq_le)
  qed
  then show "counter_after m \<noteq> 0" "\<forall>i\<in>dom m. unat i < unat (counter_after m)" by auto
qed

lemma counter_after_fresh:
  assumes "counter_after m = n" and "unat n + 1 < 2 ^ 64" and "n \<noteq> 0" and "\<forall>i\<in>dom m. unat i < unat n"
  shows "counter_after (m(n \<mapsto> v)) = n + 1"
proof -
  have "j < n" if "max_key m = Some j" for j
    using max_key_SomeD [OF that] assms(4) by (auto simp: word_less_nat_alt)
  then show ?thesis
    by (auto simp: counter_after_def max_key_upd max_def split: option.splits)
qed

lemma dag_wf_counters:
  assumes "dag_wf s" and "turns s' = turns s" and "heads s' = heads s"
    and "next_turn_id s' = counter_after (turns s)"
  shows "dag_wf s'"
  using assms counter_after_above [of "turns s" "next_turn_id s"] by (auto simp: dag_wf_def)

section \<open>Reachable states\<close>

inductive ts_reach :: "crc_fun \<Rightarrow> TurnStore \<Rightarrow> bool" for crc where
  start: "ts_reach crc (ts_new [] [] [] [])"
| create: "ts_reach crc s \<Longrightarrow> create_context crc now s base = (s', res) \<Longrightarrow> ts_reach crc s'"
| fork: "ts_reach crc s \<Longrightarrow> fork_context crc now s base = (s', res) \<Longrightarrow> ts_reach crc s'"
| append: "ts_reach crc s \<Longrightarrow> length hash = 32 \<Longrightarrow> rust_string ty \<Longrightarrow> length ty < 2 ^ 32 \<Longrightarrow>
    unat (next_turn_id s) < 2 ^ 32 \<Longrightarrow>
    append_turn crc now s c p hash enc ty ver cmp len = (s', res) \<Longrightarrow> ts_reach crc s'"
| reopen: "ts_reach crc s \<Longrightarrow>
    ts_open crc it (turns_log s) (turns_idx s) (turns_meta s) (heads_tbl s) = Inr s' \<Longrightarrow> ts_reach crc s'"

definition ts_inv :: "crc_fun \<Rightarrow> TurnStore \<Rightarrow> bool" where
  "ts_inv crc s \<longleftrightarrow>
     dag_wf s \<and> synced crc s \<and> dom (turn_meta s) = dom (turns s) \<and>
     next_turn_id s = counter_after (turns s)"

lemma ts_inv_create: "ts_inv crc s \<Longrightarrow> create_context crc now s base = (s', res) \<Longrightarrow> ts_inv crc s'"
  using dag_wf_create_context [of s crc now base s' res] synced_create_context [of crc s now base s' res]
  by (clarsimp simp: ts_inv_def create_context_eq Let_def split: sum.splits)

lemma ts_inv_append:
  assumes "ts_inv crc s" "length hash = 32" "rust_string ty" "length ty < 2 ^ 32"
    and "unat (next_turn_id s) < 2 ^ 32"
    and app: "append_turn crc now s c p hash enc ty ver cmp len = (s', res)"
  shows "ts_inv crc s'"
proof -
  from assms have "dag_wf s'" "synced crc s'"
    by (auto simp: ts_inv_def dest: dag_wf_append_turn synced_append_turn)
  moreover have "dom (turn_meta s') = dom (turns s')"
    using assms(1) app by (clarsimp simp: ts_inv_def append_turn_eq Let_def split: sum.splits)
  moreover have "next_turn_id s' = counter_after (turns s')"
  proof (cases res)
    case (Inl e)
    from append_turn_Inl [OF app [unfolded Inl]] assms(1) show ?thesis by (simp add: ts_inv_def)
  next
    case (Inr r)
    with app have "turns s' = (turns s)(next_turn_id s \<mapsto> r)" "next_turn_id s' = next_turn_id s + 1"
      by (auto elim!: append_turn_InrE)
    with assms(1,5) show ?thesis
      by (auto simp: ts_inv_def dag_wf_def dom_def intro!: counter_after_fresh [symmetric])
  qed
  ultimately show ?thesis by (simp add: ts_inv_def)
qed

lemma ts_inv_reopen:
  assumes inv: "ts_inv crc s"
    and op: "ts_open crc it (turns_log s) idx (turns_meta s) (heads_tbl s) = Inr s'"
  shows "ts_inv crc s'"
proof -
  from inv op have s': "s' = s\<lparr>turns_idx := concat (map idx_entry (it (turn_index s))),
      next_turn_id := counter_after (turns s), next_context_id := counter_after (heads s)\<rparr>"
    by (simp add: ts_inv_def ts_open_synced)
  with inv show ?thesis by (auto simp: ts_inv_def synced_def intro: dag_wf_counters)
qed

lemma ts_reach_inv: "ts_reach crc s \<Longrightarrow> ts_inv crc s"
proof (induction rule: ts_reach.induct)
  case start
  show ?case by (simp add: ts_inv_def dag_wf_new synced_new) (simp add: ts_new_def counter_after_def)
qed (auto simp: fork_context_def intro: ts_inv_create ts_inv_append ts_inv_reopen)

section \<open>Crashes\<close>

text \<open>
  An operation that takes the store from \<open>s\<close> to \<open>s'\<close> writes to \<^verbatim>\<open>turns.log\<close>, \<^verbatim>\<open>turns.idx\<close>,
  \<^verbatim>\<open>turns.meta\<close> and \<^verbatim>\<open>heads.tbl\<close>, in that order, each followed by \<^verbatim>\<open>sync_all\<close>.  The files a
  crash leaves when \<open>n\<close> of the written bytes have reached the disk:
\<close>

definition crash_files :: "nat \<Rightarrow> TurnStore \<Rightarrow> TurnStore \<Rightarrow> bytes \<times> bytes \<times> bytes \<times> bytes" where
  "crash_files n s s' =
     (let a = length (turns_log s') - length (turns_log s);
          b = length (turns_idx s') - length (turns_idx s);
          c = length (turns_meta s') - length (turns_meta s)
      in (take (length (turns_log s) + n) (turns_log s'),
          take (length (turns_idx s) + (n - a)) (turns_idx s'),
          take (length (turns_meta s) + (n - a - b)) (turns_meta s'),
          take (length (heads_tbl s) + (n - a - b - c)) (heads_tbl s')))"

text \<open>The maps a crash in the middle of an append can leave: the writes happen in order.\<close>

definition crash_outcomes ::
    "TurnStore \<Rightarrow> TurnStore \<Rightarrow> ((u64 \<rightharpoonup> TurnRecord) \<times> (u64 \<rightharpoonup> TurnMeta) \<times> (u64 \<rightharpoonup> ContextHead)) set" where
  "crash_outcomes s s' =
     {(turns s, turn_meta s, heads s), (turns s', turn_meta s, heads s),
      (turns s', turn_meta s', heads s), (turns s', turn_meta s', heads s')}"

lemma crash_dag_wf:
  assumes wf: "dag_wf s" "dag_wf s'" and ts: "turns s' = (turns s)(next_turn_id s \<mapsto> r)"
    and out: "(turns t, turn_meta t, heads t) \<in> crash_outcomes s s'"
    and cnt: "next_turn_id t = counter_after (turns t)"
  shows "dag_wf t"
proof -
  have mid: "dag_wf (s'\<lparr>heads := heads s\<rparr>)"
    using wf head_ok_upd [OF dag_wf_headD [OF wf(1)] dag_wf_next_fresh [OF wf(1)]]
    by (simp add: dag_wf_def ts)
  from out have "turns t = turns s \<and> heads t = heads s \<or> turns t = turns s' \<and> heads t = heads s
      \<or> turns t = turns s' \<and> heads t = heads s'"
    by (auto simp: crash_outcomes_def)
  then show ?thesis
    using cnt dag_wf_counters [OF wf(1), of t] dag_wf_counters [OF wf(2), of t] dag_wf_counters [OF mid, of t]
    by auto
qed

lemma append_crash:
  assumes inv: "ts_inv crc s" and v: "length hash = 32" "rust_string ty" "length ty < 2 ^ 32"
    and cap: "unat (next_turn_id s) < 2 ^ 32"
    and app: "append_turn crc now s c p hash enc ty ver cmp len = (s', Inr r)"
    and cr: "crash_files n s s' = (l, i, m, h)"
  shows "\<exists>t. ts_open crc it l i m h = Inr t \<and> dag_wf t \<and>
    (turns t, turn_meta t, heads t) \<in> crash_outcomes s s'"
proof -
  from app obtain parent d where r: "r = new_turn (next_turn_id s) parent d enc hash now"
      and s': "turns s' = (turns s)(next_turn_id s \<mapsto> r)"
      "turn_meta s' = (turn_meta s)(next_turn_id s \<mapsto> new_meta ty ver enc cmp len)"
      "heads s' = (heads s)(c \<mapsto> new_head c (next_turn_id s) d now)"
      "turns_log s' = turns_log s @ encode_turn_record crc r" "length (turns_idx s') = length (turns_idx s) + 16"
      "turns_meta s' = turns_meta s @ encode_turn_meta (next_turn_id s, new_meta ty ver enc cmp len)"
      "heads_tbl s' = heads_tbl s @ encode_head crc (new_head c (next_turn_id s) d now)"
    by (elim append_turn_InrE) blast
  let ?A = "encode_turn_record crc r" and ?h = "new_head c (next_turn_id s) d now"
  let ?m = "(next_turn_id s, new_meta ty ver enc cmp len)"
  let ?B = "encode_turn_meta ?m" and ?H = "encode_head crc ?h"
  define k3 where "k3 = n - length ?A - 16"
  define k4 where "k4 = k3 - length ?B"
  from cr s' have lmh: "l = turns_log s @ take n ?A" "m = turns_meta s @ take k3 ?B" "h = heads_tbl s @ take k4 ?H"
    by (auto simp: crash_files_def Let_def k3_def k4_def)
  have vs: "valid_turn r" "valid_meta ?m" using v by (simp_all add: r valid_turn_def valid_meta_def)
  note sy = inv [unfolded ts_inv_def synced_def]
  from turn_log.scan_take [OF _ vs(1), of crc ins_turn "turns_log s" "(Map.empty, Map.empty)" "(turns s, turn_index s)" n] sy
  obtain p1 b1 ix where L: "scan_log (turn_step crc) ins_turn l 0 (Map.empty, Map.empty) =
      Inr ((if n < length ?A then turns s else turns s', ix), p1, b1)"
    by (force simp: lmh s' r ins_turn_def split: if_splits)
  from meta_log.scan_take [OF _ vs(2), of ins_meta "turns_meta s" Map.empty "turn_meta s" k3] sy
  obtain p2 b2 where M: "scan_log meta_step ins_meta m 0 Map.empty =
      Inr (if k3 < length ?B then turn_meta s else turn_meta s', p2, b2)"
    by (auto simp: lmh s' ins_meta_def)
  from head_log.scan_take [OF _ TrueI, of crc ins_head "heads_tbl s" Map.empty "heads s" k4 ?h] sy
  obtain p3 b3 where H: "scan_log (head_step crc) ins_head h 0 Map.empty =
      Inr (if k4 < length ?H then heads s else heads s', p3, b3)"
    by (auto simp: lmh s' ins_head_def)
  have pos: "0 < length ?B" "0 < length ?H" by simp_all
  obtain t where t: "ts_open crc it l i m h = Inr t" and maps: "turns t = (if n < length ?A then turns s else turns s')"
      "turn_meta t = (if k3 < length ?B then turn_meta s else turn_meta s')"
      "heads t = (if k4 < length ?H then heads s else heads s')" "next_turn_id t = counter_after (turns t)"
    using ts_open_scans [OF L M H, of it i] by simp
  have out: "(turns t, turn_meta t, heads t) \<in> crash_outcomes s s'"
    using pos by (auto simp: maps crash_outcomes_def k3_def k4_def)
  have "dag_wf s" "dag_wf s'"
    using inv dag_wf_append_turn [OF _ cap app] by (auto simp: ts_inv_def)
  from crash_dag_wf [OF this s'(1) out maps(4)] t out show ?thesis by blast
qed

end
