(* ===== verification/Turn_Props.thy ===== *)
theory Turn_Props
  imports Turn_Persist
begin

text \<open>
  The properties of the turn store, each stated over the operations of \<open>Turn_Store\<close> and proved from
  the lemmas of \<open>Turn_Dag\<close> and \<open>Turn_Persist\<close>, with a witness on a small store: one
  context holding two turns, written with a toy checksum.
\<close>

section \<open>Shared lemmas\<close>

lemma reach_dag_wf: "ts_reach crc s \<Longrightarrow> dag_wf s"
  by (drule ts_reach_inv) (simp add: ts_inv_def)

lemma get_last_ancestry:
  "heads s c = Some h \<Longrightarrow> ancestry (turns s) (ch_head_turn_id h) rs \<Longrightarrow>
    get_last s c limit = Inr (rev (take (unat limit) rs))"
  by (simp add: get_last_def walk_back_ancestry)

lemma ancestry_length_head:
  assumes "dag_wf s" and "heads s c = Some h" and "ancestry (turns s) (ch_head_turn_id h) rs"
  shows "length rs = (if ch_head_turn_id h = 0 then 0 else unat (ch_head_depth h) + 1)"
proof (cases rs)
  case Nil
  with assms(3) show ?thesis by simp
next
  case (Cons r rs')
  with assms(3) have i: "ch_head_turn_id h \<noteq> 0" "turns s (ch_head_turn_id h) = Some r"
    by (auto simp: ancestry_Cons)
  with dag_wf_headD [OF assms(1,2)] have "ch_head_depth h = tr_depth r" by (simp add: head_ok_def)
  moreover from ancestry_depths [OF assms(1,3)] Cons have "unat (tr_depth r) = length rs'" by simp
  ultimately show ?thesis using i Cons by simp
qed

lemma depths_rev_take:
  assumes "map d rs = rev [0..<length rs]"
  shows "map d (rev (take n rs)) = [length rs - n..<length rs]"
proof -
  have "map d (rev (take n rs)) = rev (take n (map d rs))" by (simp add: take_map rev_map)
  also have "\<dots> = drop (length rs - n) [0..<length rs]" by (simp add: assms take_rev)
  finally show ?thesis by simp
qed

text \<open>A suffix of an ancestry that starts at one of its turns is the ancestry of that turn's parent.\<close>

lemma ancestry_split:
  assumes "dag_wf s"
  shows "ancestry (turns s) i rs \<Longrightarrow> n < length rs \<Longrightarrow>
    turns s (tr_turn_id (rs ! n)) = Some (rs ! n) \<and>
    ancestry (turns s) (tr_parent_turn_id (rs ! n)) (drop (Suc n) rs)"
proof (induction arbitrary: n rule: ancestry.induct)
  case none
  then show ?case by simp
next
  case (turn i r rs)
  have "tr_turn_id r = i" using dag_wf_turnD(1) [OF assms turn.hyps(2)] by (simp add: turn_ok_def)
  with turn show ?case by (cases n) auto
qed

lemma turn_in_use: "dag_wf s \<Longrightarrow> heads s c = Some h \<Longrightarrow> ch_head_turn_id h \<noteq> 0 \<Longrightarrow>
    \<exists>r. turns s (ch_head_turn_id h) = Some r"
  by (auto dest!: dag_wf_headD simp: head_ok_def)

text \<open>A head record whose checksum does not match is cut off, whatever its bytes mean.\<close>

lemma head_step_bad_crc:
  assumes "36 \<le> length x" and "crc (take 32 x) \<noteq> of_nat (le_val (take 4 (drop 32 x)))"
  shows "head_step crc x = Stop_Trunc"
proof -
  have "head_step crc x \<noteq> Stop_Keep" "head_step crc x \<noteq> Fail e" for e
    using assms(1) by (auto simp: head_step_def read_word_def read_exact_def split: option.splits if_splits)
  moreover have "head_step crc x \<noteq> Rec h rest" for h rest
  proof
    assume "head_step crc x = Rec h rest"
    then have x: "x = head_body h @ write_u32 (crc (head_body h)) @ rest"
      by (auto dest: head_step_RecD simp: encode_head_def)
    have "length (head_body h) = 32" by (simp add: head_body_def)
    with x have "take 32 x = head_body h" "take 4 (drop 32 x) = write_u32 (crc (head_body h))" by simp_all
    moreover have "of_nat (le_val (write_u32 w)) = w" for w
      using read_word_write_sized(2) [of w "[]"] by (simp add: read_word_def read_exact_def)
    ultimately show False using assms(2) by simp
  qed
  ultimately show ?thesis by (cases "head_step crc x") auto
qed

lemma scan_heads_append:
  "scans_to (head_step crc) ins_head bs Map.empty m \<Longrightarrow>
    scan_log (head_step crc) ins_head (bs @ x) 0 Map.empty = scan_log (head_step crc) ins_head x (length bs) m"
  by (drule head_log.scans_toD) (auto dest: head_log.scan_append [where pos = 0, simplified])

lemma reopen_with_heads:
  assumes "ts_reach crc s"
    and "scan_log (head_step crc) ins_head hds 0 Map.empty = Inr (hs, p, b)"
  shows "ts_open crc it (turns_log s) idx (turns_meta s) hds = Inr
    (s\<lparr>turns_idx := concat (map idx_entry (it (turn_index s))), heads_tbl := file_after hds p b, heads := hs,
       next_turn_id := counter_after (turns s), next_context_id := counter_after hs\<rparr>)"
  using ts_reach_inv [OF assms(1)]
  by (auto simp: ts_inv_def synced_def dest!: scans_to_file_after intro!: ts_open_scans [THEN trans] assms(2))

section \<open>Witness store\<close>

definition demo_crc :: crc_fun where
  "demo_crc bs = sum_list (map ucast bs)"

definition demo_hash :: bytes where
  "demo_hash = replicate 32 7"

definition demo0 :: TurnStore where
  "demo0 = fst (create_context demo_crc 100 (ts_new [] [] [] []) 0)"

definition demo1 :: TurnStore where
  "demo1 = fst (append_turn demo_crc 200 demo0 1 0 demo_hash 1 ''T'' 1 0 5)"

definition demo2 :: TurnStore where
  "demo2 = fst (append_turn demo_crc 300 demo1 1 0 demo_hash 1 ''T'' 1 0 5)"

lemma rust_string_T: "rust_string ''T''"
  by code_simp

lemma demo0_reach: "ts_reach demo_crc demo0"
  unfolding demo0_def by (rule ts_reach.create [OF ts_reach.start]) (rule surjective_pairing)

lemma demo0_sel [simp]: "next_turn_id demo0 = 1" "next_context_id demo0 = 2" "turns demo0 = Map.empty"
    "heads demo0 = [1 \<mapsto> new_head 1 0 0 100]"
  by (simp_all add: demo0_def create_context_eq resolve_base_def ts_new_def Let_def)

lemma demo1_sel [simp]: "next_turn_id demo1 = 2" "next_context_id demo1 = 2"
    "turns demo1 = [1 \<mapsto> new_turn 1 0 0 1 demo_hash 200]" "heads demo1 = [1 \<mapsto> new_head 1 1 0 200]"
  by (simp_all add: demo1_def append_turn_eq resolve_parent_def Let_def)

lemma demo2_sel [simp]: "next_turn_id demo2 = 3" "next_context_id demo2 = 2"
    "turns demo2 = [1 \<mapsto> new_turn 1 0 0 1 demo_hash 200, 2 \<mapsto> new_turn 2 1 1 1 demo_hash 300]"
    "heads demo2 = [1 \<mapsto> new_head 1 2 1 300]"
  by (simp_all add: demo2_def append_turn_eq resolve_parent_def Let_def)

lemma length_demo_hash [simp]: "length demo_hash = 32"
  by (simp add: demo_hash_def)

lemma demo1_reach: "ts_reach demo_crc demo1"
  unfolding demo1_def
  by (rule ts_reach.append [OF demo0_reach _ rust_string_T _ _ surjective_pairing]) simp_all

lemma demo2_reach: "ts_reach demo_crc demo2"
  unfolding demo2_def
  by (rule ts_reach.append [OF demo1_reach _ rust_string_T _ _ surjective_pairing]) simp_all

lemma demo_append:
  "append_turn demo_crc 300 demo1 1 0 demo_hash 1 ''T'' 1 0 5 = (demo2, Inr (new_turn 2 1 1 1 demo_hash 300))"
  by (simp add: prod_eq_iff demo2_def) (simp add: append_turn_eq resolve_parent_def Let_def)

section \<open>Properties\<close>

text \<open>C1. Every store reached from an empty directory by creating, forking, appending and reopening
  (with fewer than \<open>2\<^sup>3\<^sup>2\<close> turns) is a well-formed DAG: parents exist and have smaller
  numbers, depths are one more than the parent's, heads point to existing turns at their depth; its
  files read back to its maps; and exactly the stored turns have type metadata.\<close>

theorem turn_store_invariant:
  assumes "ts_reach crc s"
  shows "dag_wf s \<and> synced crc s \<and> dom (turn_meta s) = dom (turns s)"
  using ts_reach_inv [OF assms] by (simp add: ts_inv_def)

theorem turn_store_invariant_witness:
  "dag_wf demo2 \<and> synced demo_crc demo2 \<and> dom (turn_meta demo2) = dom (turns demo2)"
  by (rule turn_store_invariant [OF demo2_reach])

text \<open>C2. Closing and reopening the store restores every turn, its metadata and offset, every context
  head and the turn counter, and leaves the three record files untouched.\<close>

theorem reopen_restores:
  assumes "ts_reach crc s"
  shows "\<exists>s'. ts_open crc it (turns_log s) (turns_idx s) (turns_meta s) (heads_tbl s) = Inr s' \<and>
    turns s' = turns s \<and> turn_index s' = turn_index s \<and> turn_meta s' = turn_meta s \<and>
    heads s' = heads s \<and> next_turn_id s' = next_turn_id s \<and>
    turns_log s' = turns_log s \<and> turns_meta s' = turns_meta s \<and> heads_tbl s' = heads_tbl s"
  using ts_reach_inv [OF assms] ts_open_synced [of crc s it "turns_idx s"] by (simp add: ts_inv_def)

theorem reopen_restores_witness:
  "\<exists>s'. ts_open demo_crc sorted_iter (turns_log demo2) (turns_idx demo2) (turns_meta demo2)
      (heads_tbl demo2) = Inr s' \<and> turns s' 2 = Some (new_turn 2 1 1 1 demo_hash 300)"
  using reopen_restores [OF demo2_reach, of sorted_iter] by auto

text \<open>A crash during an append, after any number of the bytes it writes has reached the disk, loses
  no turn and no head: the store opens, is a well-formed DAG, and its turns, metadata and heads are
  those before the append with some initial part of the append's writes applied.\<close>

theorem append_crash_safe:
  assumes "ts_reach crc s" and "length hash = 32" and "rust_string ty" and "length ty < 2 ^ 32"
    and "unat (next_turn_id s) < 2 ^ 32"
    and "append_turn crc now s c p hash enc ty ver cmp len = (s', Inr r)"
    and "crash_files n s s' = (l, i, m, h)"
  shows "\<exists>t. ts_open crc it l i m h = Inr t \<and> dag_wf t \<and>
    (turns t, turn_meta t, heads t) \<in> crash_outcomes s s'"
  using append_crash [OF ts_reach_inv [OF assms(1)]] assms(2-) by blast

theorem append_crash_safe_witness:
  "\<exists>t. (case crash_files 50 demo1 demo2 of (l, i, m, h) \<Rightarrow> ts_open demo_crc sorted_iter l i m h) = Inr t \<and>
    dag_wf t \<and> (turns t, turn_meta t, heads t) \<in> crash_outcomes demo1 demo2"
proof (cases "crash_files 50 demo1 demo2")
  case (fields l i m h)
  from append_crash_safe [OF demo1_reach length_demo_hash rust_string_T _ _ demo_append fields]
  show ?thesis by (simp add: fields)
qed

text \<open>C6. \<^verbatim>\<open>get_last\<close> returns the last \<open>limit\<close> turns of the context's history, oldest first: the end of
  the parent chain of its head, whose depths are consecutive and end with the head's depth.\<close>

theorem get_last_history:
  assumes "ts_reach crc s" and "heads s c = Some h"
  shows "\<exists>rs page. ancestry (turns s) (ch_head_turn_id h) rs \<and>
    length rs = (if ch_head_turn_id h = 0 then 0 else unat (ch_head_depth h) + 1) \<and>
    get_last s c limit = Inr page \<and> page = rev (take (unat limit) rs) \<and>
    map (unat \<circ> tr_depth) page = [length rs - unat limit..<length rs]"
proof -
  have wf: "dag_wf s" using assms(1) by (rule reach_dag_wf)
  obtain rs where rs: "ancestry (turns s) (ch_head_turn_id h) rs" using head_ancestry [OF wf assms(2)] ..
  from rs ancestry_length_head [OF wf assms(2) rs] get_last_ancestry [OF assms(2) rs, of limit]
    depths_rev_take [OF ancestry_depths [OF wf rs], of "unat limit"]
  show ?thesis by blast
qed

theorem get_last_history_witness:
  "get_last demo2 1 7 = Inr [new_turn 1 0 0 1 demo_hash 200, new_turn 2 1 1 1 demo_hash 300]"
proof -
  obtain rs where rs: "ancestry (turns demo2) 2 rs" "get_last demo2 1 7 = Inr (rev (take 7 rs))" "length rs = 2"
    using get_last_history [OF demo2_reach, of 1 "new_head 1 2 1 300" 7] by auto
  then show ?thesis by (cases rs) (auto simp: ancestry_Cons neq_Nil_conv length_Suc_conv)
qed

text \<open>Appending to the head of a context adds exactly the new turn at the end of that context's
  history and changes no other context's history.\<close>

theorem append_extends_history:
  assumes "ts_reach crc s" and "unat (next_turn_id s) < 2 ^ 32"
    and "append_turn crc now s c 0 hash enc ty ver cmp len = (s', Inr r)"
    and "heads s c = Some h" and "ancestry (turns s) (ch_head_turn_id h) rs"
  shows "get_last s' c limit = Inr (rev (take (unat limit) (r # rs))) \<and>
    (c' \<noteq> c \<longrightarrow> get_last s' c' limit = get_last s c' limit)"
proof -
  have wf: "dag_wf s" using assms(1) by (rule reach_dag_wf)
  have fresh: "turns s (next_turn_id s) = None" "next_turn_id s \<noteq> 0"
    using dag_wf_next_fresh [OF wf] wf by (auto simp: dag_wf_def)
  from assms(3) obtain parent d where pd: "resolve_parent s c 0 = Inr (parent, d)"
      and r: "r = new_turn (next_turn_id s) parent d enc hash now"
      and s': "turns s' = (turns s)(next_turn_id s \<mapsto> r)" "heads s' = (heads s)(c \<mapsto> new_head c (next_turn_id s) d now)"
    by (elim append_turn_InrE)
  have "parent = ch_head_turn_id h"
    using pd assms(4) dag_wf_turnD(1) [OF wf, of "ch_head_turn_id h"]
    by (auto simp: resolve_parent_def turn_ok_def split: if_splits option.splits)
  with r ancestry_upd [OF assms(5) fresh(1), of r] fresh
  have "ancestry (turns s') (next_turn_id s) (r # rs)" by (simp add: s' ancestry_Cons)
  with s'(2) have "get_last s' c limit = Inr (rev (take (unat limit) (r # rs)))"
    by (intro get_last_ancestry) auto
  moreover have "get_last s' c' limit = get_last s c' limit" if "c' \<noteq> c"
  proof (cases "heads s c'")
    case None
    with that show ?thesis by (simp add: get_last_def s')
  next
    case (Some h')
    from head_ancestry [OF wf Some] obtain qs where "ancestry (turns s) (ch_head_turn_id h') qs" ..
    from get_last_ancestry [OF Some this] get_last_ancestry [of s' c' h' qs limit] ancestry_upd [OF this fresh(1), of r]
    show ?thesis using that Some by (simp add: s')
  qed
  ultimately show ?thesis by blast
qed

theorem append_extends_history_witness:
  "get_last demo2 1 9 = Inr (rev [new_turn 2 1 1 1 demo_hash 300, new_turn 1 0 0 1 demo_hash 200])"
  using append_extends_history [OF demo1_reach _ demo_append, of "new_head 1 1 0 200"
      "[new_turn 1 0 0 1 demo_hash 200]" 9 2]
  by (simp add: ancestry_Cons)

text \<open>Paging backwards loses nothing: asking for the \<open>n\<close> turns before the first turn of a page of
  \<open>m\<close> gives the turns that, put in front of the page, are the last \<open>n + m\<close> turns.\<close>

theorem pages_concatenate:
  assumes "ts_reach crc s" and "get_last s c m = Inr page" and "page \<noteq> []"
    and "unat n + unat m < 2 ^ 32"
  shows "\<exists>older. get_before s c (tr_turn_id (hd page)) n = Inr older \<and>
    get_last s c (n + m) = Inr (older @ page)"
proof -
  have wf: "dag_wf s" using assms(1) by (rule reach_dag_wf)
  from assms(2) obtain h where h: "heads s c = Some h" by (auto simp: get_last_def split: option.splits)
  obtain rs where rs: "ancestry (turns s) (ch_head_turn_id h) rs" using head_ancestry [OF wf h] ..
  from assms(2) have page: "page = rev (take (unat m) rs)" by (simp add: get_last_ancestry [OF h rs])
  define k where "k = min (unat m) (length rs) - 1"
  have k: "k < length rs" "take (unat m) rs \<noteq> []" using assms(3) page by (auto simp: k_def min_def)
  then have "hd page = rs ! k" by (simp add: page hd_rev last_conv_nth k_def min_def)
  with ancestry_split [OF wf rs k(1)] have before: "turns s (tr_turn_id (hd page)) = Some (rs ! k)"
    and anc: "ancestry (turns s) (tr_parent_turn_id (rs ! k)) (drop (Suc k) rs)" by auto
  have "Suc k = min (unat m) (length rs)" using k by (auto simp: k_def min_def)
  then have "drop (Suc k) rs = drop (unat m) rs" by (simp add: min_def)
  moreover have "ch_head_turn_id h \<noteq> 0" "tr_turn_id (hd page) \<noteq> 0"
    using rs k(1) dag_wf_turnD(1) [OF wf before] by (auto simp: turn_ok_def)
  ultimately have "get_before s c (tr_turn_id (hd page)) n = Inr (rev (take (unat n) (drop (unat m) rs)))"
    using walk_back_ancestry [OF anc] by (simp add: get_before_def h before)
  moreover have "unat (n + m) = unat m + unat n" using assms(4) by (simp add: unat_word_ariths)
  ultimately show ?thesis by (simp add: get_last_ancestry [OF h rs] page take_add flip: rev_append)
qed

theorem pages_concatenate_witness:
  "\<exists>older. get_before demo2 1 2 3 = Inr older \<and> get_last demo2 1 4 = Inr (older @ [new_turn 2 1 1 1 demo_hash 300])"
  using pages_concatenate [OF demo2_reach, of 1 1 "[new_turn 2 1 1 1 demo_hash 300]" 3]
  by (simp add: get_last_def)

text \<open>C40. The search for the first turn of a non-empty context always ends, with the root of its history:
  the turn of depth 0 that has no parent.\<close>

theorem get_first_turn_root:
  assumes "ts_reach crc s" and "heads s c = Some h" and "ch_head_turn_id h \<noteq> 0"
  shows "\<exists>rs r. ancestry (turns s) (ch_head_turn_id h) rs \<and> rs \<noteq> [] \<and> r = last rs \<and>
    get_first_turn s c = Some (Inr r) \<and> tr_depth r = 0 \<and> tr_parent_turn_id r = 0"
proof -
  have wf: "dag_wf s" using assms(1) by (rule reach_dag_wf)
  obtain rs where rs: "ancestry (turns s) (ch_head_turn_id h) rs" using head_ancestry [OF wf assms(2)] ..
  with assms(3) have ne: "rs \<noteq> []" by auto
  then have last: "last rs = rs ! (length rs - 1)" by (rule last_conv_nth)
  with ancestry_split [OF wf rs, of "length rs - 1"] ne
  have root: "turns s (tr_turn_id (last rs)) = Some (last rs)" "tr_parent_turn_id (last rs) = 0" by auto
  with dag_wf_turnD(1) [OF wf root(1)] have "tr_depth (last rs) = 0" by (simp add: turn_ok_def)
  with rs ne root first_turn_ancestry [OF wf rs ne] assms(2) show ?thesis
    by (auto simp: get_first_turn_def)
qed

theorem get_first_turn_root_witness:
  "\<exists>r. get_first_turn demo2 1 = Some (Inr r) \<and> tr_depth r = 0"
  using get_first_turn_root [OF demo2_reach, of 1 "new_head 1 2 1 300"] by auto

text \<open>A fork at a turn starts with exactly that turn's history, at the next context number, and
  changes no other context.\<close>

theorem fork_shares_history:
  assumes "ts_reach crc s" and "turns s t = Some r" and "ancestry (turns s) t rs"
    and "fork_context crc now s t = (s', res)"
  shows "res = Inr (new_head (next_context_id s) t (tr_depth r) now) \<and>
    get_last s' (next_context_id s) limit = Inr (rev (take (unat limit) rs)) \<and>
    (c \<noteq> next_context_id s \<longrightarrow> get_last s' c limit = get_last s c limit)"
proof -
  have "turn_ok (turns s) t r" using reach_dag_wf [OF assms(1)] assms(2) by (rule dag_wf_turnD(1))
  then have "resolve_base s t = Inr (t, tr_depth r)" using assms(2) by (auto simp: resolve_base_def turn_ok_def)
  with assms(4) have res: "res = Inr (new_head (next_context_id s) t (tr_depth r) now)"
      "heads s' = (heads s)(next_context_id s \<mapsto> new_head (next_context_id s) t (tr_depth r) now)" "turns s' = turns s"
    by (auto simp: fork_context_def create_context_eq Let_def)
  with assms(3) get_last_ancestry [of s' "next_context_id s" _ rs limit] show ?thesis
    by (auto simp: get_last_def split: option.split)
qed

theorem fork_shares_history_witness:
  "get_last (fst (fork_context demo_crc 400 demo2 1)) 2 5 = Inr [new_turn 1 0 0 1 demo_hash 200]"
  using fork_shares_history [OF demo2_reach, of 1 "new_turn 1 0 0 1 demo_hash 200"
      "[new_turn 1 0 0 1 demo_hash 200]" 400 _ _ 5 7, OF _ _ surjective_pairing]
  by (simp add: ancestry_Cons)

text \<open>On a reachable store an append fails exactly when the named parent does not exist, or no parent
  is named and the context does not exist; a failing append changes nothing.\<close>

theorem append_turn_errors:
  assumes "ts_reach crc s"
  shows "append_turn crc now s c p hash enc ty ver cmp len = (s', Inl e) \<longleftrightarrow>
    s' = s \<and> (p \<noteq> 0 \<and> turns s p = None \<and> e = NotFound ''parent turn'' \<or>
              p = 0 \<and> heads s c = None \<and> e = NotFound ''context'')"
proof -
  have "\<exists>r. turns s (ch_head_turn_id h) = Some r" if "heads s c = Some h" "ch_head_turn_id h \<noteq> 0" for h
    using turn_in_use [OF reach_dag_wf [OF assms] that] .
  then show ?thesis
    by (auto simp: append_turn_eq resolve_parent_def Let_def split: sum.splits if_splits option.splits)
qed

theorem append_turn_errors_witness:
  "append_turn demo_crc 9 demo2 8 0 demo_hash 1 ''T'' 1 0 5 = (demo2, Inl (NotFound ''context''))"
  by (simp add: append_turn_errors [OF demo2_reach])

text \<open>A torn head record of 1 to 7 bytes is not removed when the store opens (the loader of
  \<^verbatim>\<open>heads.tbl\<close> truncates only after it has read the context number), so the next acknowledged head
  is written behind the fragment, out of step with the records.  Unless the checksum of the misaligned
  bytes happens to match, the following open discards it: the context that was created is gone.\<close>

theorem torn_head_hides_new_context:
  assumes "ts_reach crc s" and "0 < k" and "k < 8"
    and "ts_open crc it (turns_log s) (turns_idx s) (turns_meta s) (heads_tbl s @ take k (encode_head crc h0)) = Inr t"
    and "create_context crc now t base = (t', Inr h)"
    and "crc (take 32 (drop (length (heads_tbl s)) (heads_tbl t'))) \<noteq>
      of_nat (le_val (take 4 (drop 32 (drop (length (heads_tbl s)) (heads_tbl t')))))"
  shows "heads t = heads s \<and> heads t' (ch_context_id h) = Some h \<and>
    (\<exists>u. ts_open crc it (turns_log t') (turns_idx t') (turns_meta t') (heads_tbl t') = Inr u \<and>
         heads u = heads s)"
proof -
  let ?torn = "take k (encode_head crc h0)"
  have sy: "scans_to (head_step crc) ins_head (heads_tbl s) Map.empty (heads s)"
    using ts_reach_inv [OF assms(1)] by (simp add: ts_inv_def synced_def)
  have "head_step crc ?torn = Stop_Keep" using assms(3) by (simp add: head_step_torn length_encode_head)
  with scan_heads_append [OF sy]
  have "scan_log (head_step crc) ins_head (heads_tbl s @ ?torn) 0 Map.empty = Inr (heads s, length (heads_tbl s), False)"
    by (simp add: head_log.scan_stop)
  from reopen_with_heads [OF assms(1) this] assms(4)
  have t: "heads t = heads s" "heads_tbl t = heads_tbl s @ ?torn" "turns_log t = turns_log s" "turns_meta t = turns_meta s"
    by (auto simp: file_after_def)
  from assms(5) t have t': "heads t' (ch_context_id h) = Some h" "heads_tbl t' = heads_tbl s @ ?torn @ encode_head crc h"
      "turns_log t' = turns_log s" "turns_meta t' = turns_meta s"
    by (auto simp: create_context_eq Let_def split: sum.splits)
  have "head_step crc (?torn @ encode_head crc h) = Stop_Trunc"
    using assms(6) by (intro head_step_bad_crc) (simp_all add: t' length_encode_head)
  with scan_heads_append [OF sy]
  have "scan_log (head_step crc) ins_head (heads_tbl t') 0 Map.empty = Inr (heads s, length (heads_tbl s), True)"
    by (simp add: t' head_log.scan_stop)
  from reopen_with_heads [OF assms(1) this] t t' show ?thesis by simp
qed

theorem torn_head_hides_new_context_witness:
  "\<exists>t t' h u. ts_open (\<lambda>_. 7) sorted_iter [] [] [] (take 1 (encode_head (\<lambda>_. 7) (new_head 1 0 0 100))) = Inr t \<and>
    create_context (\<lambda>_. 7) 200 t 0 = (t', Inr h) \<and> heads t' 1 = Some h \<and>
    ts_open (\<lambda>_. 7) sorted_iter (turns_log t') (turns_idx t') (turns_meta t') (heads_tbl t') = Inr u \<and>
    heads u 1 = None"
proof -
  let ?crc = "\<lambda>_. 7 :: u32" and ?s = "ts_new [] [] [] []"
  let ?torn = "take 1 (encode_head ?crc (new_head 1 0 0 100))"
  have torn: "?torn = [1]" by code_simp
  have "head_step ?crc [1] = Stop_Keep"
    by (simp add: head_step_def read_word_def read_exact_def)
  then have scan: "scan_log (head_step ?crc) ins_head ?torn 0 Map.empty = Inr (Map.empty, 0, False)"
    by (simp only: torn) (simp add: head_log.scan_stop)
  note op = reopen_with_heads [OF ts_reach.start scan, of sorted_iter "[]"]
  define t where "t = ?s\<lparr>heads_tbl := [1]\<rparr>"
  have t: "ts_open ?crc sorted_iter [] [] [] ?torn = Inr t"
    using op torn by (simp add: t_def file_after_def ts_new_def counter_after_def sorted_iter_def)
  define t' where "t' = fst (create_context ?crc 200 t 0)"
  have c: "create_context ?crc 200 t 0 = (t', Inr (new_head 1 0 0 200))"
    by (simp add: t'_def create_context_eq resolve_base_def Let_def t_def ts_new_def)
  have mis: "?crc (take 32 (drop (length (heads_tbl ?s)) (heads_tbl t'))) \<noteq>
      of_nat (le_val (take 4 (drop 32 (drop (length (heads_tbl ?s)) (heads_tbl t')))))"
    unfolding t'_def t_def by code_simp
  from torn_head_hides_new_context [OF ts_reach.start _ _ _ c mis, of 1 sorted_iter "new_head 1 0 0 100"] t c
  show ?thesis by (fastforce simp: ts_new_def)
qed

text \<open>An append that names a parent does not look at its context.  Given the next free context
  number it succeeds and gives that context a head, but the number stays free: the next context that is
  created takes it over, and the appended turn is no longer in any history.\<close>

theorem append_to_unknown_context_clobbered:
  assumes "ts_reach crc s" and "turns s p = Some q" and "unat (next_turn_id s) < 2 ^ 32"
    and "c = next_context_id s" and "heads s c = None"
    and "append_turn crc now s c p hash enc ty ver cmp len = (s', res)"
    and "create_context crc now' s' 0 = (s'', res')"
  shows "\<exists>r h. res = Inr r \<and> get_last s' c 1 = Inr [r] \<and>
    res' = Inr h \<and> ch_context_id h = c \<and> get_last s'' c limit = Inr []"
proof -
  have wf: "dag_wf s" using assms(1) by (rule reach_dag_wf)
  have "turn_ok (turns s) p q" using wf assms(2) by (rule dag_wf_turnD(1))
  then have "resolve_parent s c p = Inr (p, tr_depth q + 1)" using assms(2)
    by (auto simp: resolve_parent_def turn_ok_def)
  moreover have "next_turn_id s \<noteq> 0" using wf by (simp add: dag_wf_def)
  moreover have "walk_back ts 0 n = Inr []" for ts n by (cases n) auto
  ultimately show ?thesis using assms(6,7)
    by (auto simp: append_turn_eq create_context_eq resolve_base_def Let_def assms(4) get_last_def)
qed

theorem append_to_unknown_context_clobbered_witness:
  "get_last (fst (create_context demo_crc 500 (fst (append_turn demo_crc 400 demo2 2 1 demo_hash 1 ''T'' 1 0 5)) 0)) 2 9
    = Inr []"
proof -
  let ?s = "append_turn demo_crc 400 demo2 2 1 demo_hash 1 ''T'' 1 0 5"
  let ?t = "create_context demo_crc 500 (fst ?s) 0"
  have "\<exists>r h. snd ?s = Inr r \<and> get_last (fst ?s) 2 1 = Inr [r] \<and>
      snd ?t = Inr h \<and> ch_context_id h = 2 \<and> get_last (fst ?t) 2 9 = Inr []"
    by (rule append_to_unknown_context_clobbered
        [OF demo2_reach _ _ _ _ surjective_pairing surjective_pairing]) simp_all
  then show ?thesis by blast
qed

text \<open>\<^verbatim>\<open>list_recent_contexts\<close> returns distinct contexts, newest first, as many as there are up to the
  limit, and none it leaves out is newer than one it returns.\<close>

theorem list_recent_contexts_newest:
  assumes "hash_iter_ok it" and "ts_reach crc s" and "out = list_recent_contexts it s limit"
  shows "sorted (rev (map ch_created_at_unix_ms out)) \<and> distinct (map ch_context_id out) \<and>
    length out = min (unat limit) (card (dom (heads s))) \<and> set out \<subseteq> ran (heads s) \<and>
    (\<forall>g\<in>set out. \<forall>h\<in>ran (heads s) - set out. ch_created_at_unix_ms h \<le> ch_created_at_unix_ms g)"
proof -
  define all where "all = recent_first (map snd (it (heads s)))"
  have out: "out = take (unat limit) all" by (simp add: assms(3) list_recent_contexts_def all_def)
  have srt: "sorted (map (\<lambda>h. - int (unat (ch_created_at_unix_ms h))) all)"
    by (simp add: all_def recent_first_def)
  then have desc: "sorted_wrt (\<lambda>g h. ch_created_at_unix_ms h \<le> ch_created_at_unix_ms g) all"
    by (simp add: sorted_map word_le_def)
  note hs = hash_iter_set [OF assms(1), of "heads s"]
  have "map ch_context_id (map snd (it (heads s))) = map fst (it (heads s))"
    using hs dag_wf_headD [OF reach_dag_wf [OF assms(2)]] by (auto simp: head_ok_def)
  then have "distinct (map ch_context_id (map snd (it (heads s))))"
    using hash_iter_distinct [OF assms(1), of "heads s"] by (simp del: map_map)
  then have dist: "distinct (map ch_context_id all)"
    by (simp add: all_def recent_first_def distinct_map del: map_map)
  have set_all: "set all = ran (heads s)" using hs by (auto simp: all_def recent_first_def ran_def image_iff)
  have "length all = card (fst ` set (it (heads s)))"
    using hash_iter_distinct [OF assms(1), of "heads s"]
    by (simp add: all_def recent_first_def distinct_card [symmetric] del: set_map)
       (metis distinct_card length_map set_map)
  then have len: "length all = card (dom (heads s))" by (simp add: hash_iter_keys [OF assms(1)])
  have split: "all = out @ drop (unat limit) all" by (simp add: out)
  have "sorted_wrt (\<lambda>g h. ch_created_at_unix_ms h \<le> ch_created_at_unix_ms g) (out @ drop (unat limit) all)"
    using desc by (simp add: out)
  then have "sorted (rev (map ch_created_at_unix_ms out))"
    and less: "\<forall>g\<in>set out. \<forall>h\<in>set (drop (unat limit) all). ch_created_at_unix_ms h \<le> ch_created_at_unix_ms g"
    by (simp_all add: sorted_wrt_append sorted_wrt_rev sorted_wrt_map rev_map)
  moreover have "distinct (map ch_context_id out)" using dist by (simp add: out take_map [symmetric])
  moreover have "ran (heads s) - set out \<subseteq> set (drop (unat limit) all)"
    using arg_cong [OF split, of set] by (auto simp: set_all)
  moreover have "set out \<subseteq> ran (heads s)" using set_take_subset [of _ all] by (simp add: out set_all [symmetric])
  ultimately show ?thesis using len by (auto simp: out min.commute)
qed

theorem list_recent_contexts_newest_witness:
  "distinct (map ch_context_id (list_recent_contexts sorted_iter demo2 10))"
  using list_recent_contexts_newest [OF hash_iter_ok_sorted_iter demo2_reach refl] by blast

end
