(* ===== verification/Blob_Props.thy ===== *)
theory Blob_Props
  imports Blob_Store
begin

text \<open>
  Correctness of the blob store.  The interface the rest of the server relies on is the locale
  \<open>content_store\<close>: what is put can be got, and nothing that could be got is lost or changed.  The
  store's invariant \<open>blob_inv\<close> says that every index entry points at a complete, checksummed record
  of the pack file and that the index file loads to the index; under it the store is a
  \<open>content_store\<close>.
\<close>

section \<open>The interface\<close>

locale content_store =
  fixes get :: "'s \<Rightarrow> bytes \<Rightarrow> bytes res"
    and put :: "'s \<Rightarrow> bytes \<Rightarrow> bytes \<Rightarrow> 's"
    and inv :: "'s \<Rightarrow> bool"
    and fits :: "'s \<Rightarrow> bytes \<Rightarrow> bytes \<Rightarrow> bool"
  assumes put_inv: "inv s \<Longrightarrow> fits s h raw \<Longrightarrow> inv (put s h raw)"
    and put_new: "inv s \<Longrightarrow> fits s h raw \<Longrightarrow> (\<And>v. get s h \<noteq> Inr v) \<Longrightarrow> get (put s h raw) h = Inr raw"
    and put_keeps: "inv s \<Longrightarrow> fits s h raw \<Longrightarrow> get s k = Inr v \<Longrightarrow> get (put s h raw) k = Inr v"
    and put_other: "inv s \<Longrightarrow> fits s h raw \<Longrightarrow> k \<noteq> h \<Longrightarrow> get (put s h raw) k = get s k"
begin

text \<open>Every blob is stored under its own hash.\<close>

definition addressed :: "(bytes \<Rightarrow> bytes) \<Rightarrow> 's \<Rightarrow> bool" where
  "addressed hash s \<longleftrightarrow> (\<forall>h v. get s h = Inr v \<longrightarrow> hash v = h)"

lemma put_found: "inv s \<Longrightarrow> fits s h raw \<Longrightarrow> \<exists>v. get (put s h raw) h = Inr v"
  using put_new [of s h raw] put_keeps [of s h raw h] by blast

lemma put_addressed:
  assumes "inv s" and "fits s h raw" and "addressed hash s" and "hash raw = h"
  shows "addressed hash (put s h raw)"
  unfolding addressed_def
proof (intro allI impI)
  fix k v
  assume v: "get (put s h raw) k = Inr v"
  show "hash v = k"
  proof (cases "k \<noteq> h \<or> (\<exists>w. get s k = Inr w)")
    case True
    then have "get s k = Inr v"
      using v put_other [OF assms(1,2), of k] put_keeps [OF assms(1,2), of k] by (cases "k = h") auto
    with assms(3) show ?thesis by (simp add: addressed_def)
  next
    case False
    then have "k = h" and "\<And>w. get s h \<noteq> Inr w" by auto
    with put_new [OF assms(1,2)] v assms(4) show ?thesis by simp
  qed
qed

text \<open>Under a hash without collisions on the stored blobs, what is put is what is got.\<close>

lemma put_get:
  assumes "inv s" and "fits s h raw" and "addressed hash s" and "hash raw = h"
    and "\<And>v. get s h = Inr v \<Longrightarrow> hash v = hash raw \<Longrightarrow> v = raw"
  shows "get (put s h raw) h = Inr raw"
proof (cases "\<exists>v. get s h = Inr v")
  case True
  then obtain v where v: "get s h = Inr v" ..
  with assms(3,4) have "hash v = hash raw" by (simp add: addressed_def)
  with assms(5) v put_keeps [OF assms(1,2)] show ?thesis by blast
next
  case False
  with put_new [OF assms(1,2)] show ?thesis by auto
qed

end

section \<open>Reading the pack file\<close>

lemma read_at_exact_eq:
  assumes "unat off < 2 ^ 63" and "unat off + n \<le> length file"
  shows "read_at_exact file off n [] = Inr (take n (drop (unat off) file))"
  using assms by (subst read_at_exact.simps) (auto simp: read_at_def read_at_exact.simps)

lemma read_at_exact_InrD:
  assumes "read_at_exact file off n [] = Inr b" and "length file < 2 ^ 63" and "0 < n"
  shows "unat off + n \<le> length file \<and> b = take n (drop (unat off) file)"
proof (rule ccontr)
  assume neg: "\<not> ?thesis"
  from assms have off: "unat off < 2 ^ 63" by (subst (asm) read_at_exact.simps) (auto simp: read_at_def split: if_splits)
  have short: "length file < unat off + n"
    using neg assms(1) read_at_exact_eq [OF off] by (metis Inr_inject not_le)
  let ?c = "drop (unat off) file"
  have "read_at_exact file off n [] \<noteq> Inr b"
  proof (cases "?c = []")
    case True
    with assms(3) off show ?thesis by (subst read_at_exact.simps) (simp add: read_at_def)
  next
    case False
    then have len: "unat off + length ?c = length file" by simp
    with assms(2) have "unat (off + of_nat (length ?c)) = length file"
      by (simp add: unat_word_ariths unat_of_nat)
    then have "read_at_exact file off n ?c = Inl (Corrupt ''unexpected EOF reading blob'')"
      using assms(2) short len by (subst read_at_exact.simps) (auto simp: read_at_def)
    with False short off assms(3) show ?thesis
      by (subst read_at_exact.simps) (auto simp: read_at_def)
  qed
  with assms(1) show False by simp
qed

section \<open>Well-formed records\<close>

definition blob_record :: "(bytes \<Rightarrow> u32) \<Rightarrow> bytes \<Rightarrow> BlobIndexEntry \<Rightarrow> bytes \<Rightarrow> bytes" where
  "blob_record crc hash e stored =
     (let header = blob_header hash (be_codec e) (be_raw_len e) (be_stored_len e)
      in header @ stored @ write_u32 (crc (header @ stored)))"

definition blob_ok :: "(bytes \<Rightarrow> u32) \<Rightarrow> zstd_dec \<Rightarrow> bytes \<Rightarrow> bytes \<Rightarrow> BlobIndexEntry \<Rightarrow> bytes \<Rightarrow> bool" where
  "blob_ok crc zdec pack hash e raw \<longleftrightarrow>
     (\<exists>pre stored post. pack = pre @ blob_record crc hash e stored @ post \<and>
        length pre = unat (be_offset e) \<and> length pre < 2 ^ 62 \<and>
        length stored = unat (be_stored_len e) \<and> length hash = 32 \<and>
        decode_body zdec (be_codec e) stored = Inr raw \<and> of_nat (length raw) = be_raw_len e)"

lemma blob_okI:
  "length pre = unat (be_offset e) \<Longrightarrow> length pre < 2 ^ 62 \<Longrightarrow> length stored = unat (be_stored_len e) \<Longrightarrow>
    length hash = 32 \<Longrightarrow> decode_body zdec (be_codec e) stored = Inr raw \<Longrightarrow> of_nat (length raw) = be_raw_len e \<Longrightarrow>
    blob_ok crc zdec (pre @ blob_record crc hash e stored) hash e raw"
  unfolding blob_ok_def by (metis append_Nil2)

lemma blob_ok_append: "blob_ok crc zdec pack hash e raw \<Longrightarrow> blob_ok crc zdec (pack @ rest) hash e raw"
  by (fastforce simp: blob_ok_def)

lemma length_blob_header [simp]: "length (blob_header hash codec rl sl) = 16 + length hash"
  by (simp add: blob_header_def)

lemma check_header_ok:
  "length hash = 32 \<Longrightarrow>
    check_header hash e (blob_header hash (be_codec e) (be_raw_len e) (be_stored_len e)) =
      Inr (codec_u16 (be_codec e), be_raw_len e, be_stored_len e)"
  using read_exact_append [of 32 hash "[]"]
  by (simp add: check_header_def decode_header_def blob_header_def)

text \<open>A complete record is read back.\<close>

lemma blob_get_ok:
  assumes "index s hash = Some e" and "blob_ok crc zdec (pack_file s) hash e raw"
  shows "blob_get crc zdec s hash = Inr raw"
proof -
  let ?h = "blob_header hash (be_codec e) (be_raw_len e) (be_stored_len e)"
  from assms(2) obtain pre stored post where
      pack: "pack_file s = pre @ ?h @ (stored @ write_u32 (crc (?h @ stored))) @ post"
    and pre: "length pre = unat (be_offset e)" "length pre < 2 ^ 62"
    and stored: "length stored = unat (be_stored_len e)" and hash: "length hash = 32"
    and raw: "decode_body zdec (be_codec e) stored = Inr raw" "of_nat (length raw) = be_raw_len e"
    by (auto simp: blob_ok_def blob_record_def Let_def)
  have sl: "unat (be_stored_len e) < 2 ^ 32" using unsigned_less [of "be_stored_len e", where ?'a = nat] by simp
  have off: "unat (be_offset e + of_nat HEADER_SIZE) = unat (be_offset e) + 48"
    using pre by (simp add: HEADER_SIZE_def unat_word_ariths)
  have r1: "read_at_exact (pack_file s) (be_offset e) HEADER_SIZE [] = Inr ?h"
    using pre hash by (subst read_at_exact_eq) (simp_all add: pack HEADER_SIZE_def)
  have r2: "read_at_exact (pack_file s) (be_offset e + of_nat HEADER_SIZE) (unat (be_stored_len e) + 4) [] =
      Inr (stored @ write_u32 (crc (?h @ stored)))"
    using pre stored hash off by (subst read_at_exact_eq) (simp_all add: pack)
  have "read_u32 (write_u32 w) = Some (w, [])" for w using read_word_write_sized(2) [of w "[]"] by simp
  with r1 r2 pre stored hash raw sl show ?thesis
    by (simp add: blob_get_def assms(1) check_header_ok HEADER_SIZE_def)
qed

text \<open>What the header checks accept.\<close>

lemma check_header_InrD:
  assumes "check_header hash e header = Inr (codec_raw, rl, sl)" and "length header = 48"
  shows "header = write_u32 BLOB_MAGIC @ write_u16 BLOB_VERSION @ write_u16 codec_raw @ write_u32 rl @ write_u32 sl @ hash
    \<and> rl = be_raw_len e \<and> sl = be_stored_len e"
  using assms
  by (auto simp: check_header_def decode_header_def bind_eq_Some_conv dest!: read_invs split: if_splits)

lemma drop_split: "drop i xs = take m (drop i xs) @ take n (drop (i + m) xs) @ drop (i + m + n) xs"
  using append_take_drop_id [of m "drop i xs"] append_take_drop_id [of n "drop (i + m) xs"]
  by (simp add: add.commute add.left_commute del: append_take_drop_id)

lemma read_u32_take: "read_u32 (take 4 bs) = Some (w, rest) \<Longrightarrow> \<exists>more'. bs = write_u32 w @ more'"
  by (drule read_invs(2)) (metis append_assoc append_take_drop_id)

section \<open>The invariant\<close>

definition blob_inv :: "(bytes \<Rightarrow> u32) \<Rightarrow> zstd_dec \<Rightarrow> BlobStore \<Rightarrow> bool" where
  "blob_inv crc zdec s \<longleftrightarrow>
     (\<forall>hash e. index s hash = Some e \<longrightarrow> (\<exists>raw. blob_ok crc zdec (pack_file s) hash e raw)) \<and>
     scans_to blob_idx_step ins_blob (idx_file s) Map.empty (index s)"

text \<open>What a caller of \<^verbatim>\<open>put_if_absent\<close> must respect: a 32-byte hash, a payload whose length fits the
  32-bit length field, and a pack file far from the largest file offset.\<close>

definition blob_fits :: "BlobStore \<Rightarrow> bytes \<Rightarrow> bytes \<Rightarrow> bool" where
  "blob_fits s hash raw \<longleftrightarrow>
     length hash = 32 \<and> length raw < 2 ^ 32 \<and> length (pack_file s) < 2 ^ 62"

definition new_entry :: "zstd_enc \<Rightarrow> BlobStore \<Rightarrow> bytes \<Rightarrow> BlobIndexEntry" where
  "new_entry zenc s raw =
     (case choose_codec zenc raw of (stored, codec) \<Rightarrow>
       \<lparr>be_offset = of_nat (length (pack_file s)), be_raw_len = of_nat (length raw),
        be_stored_len = of_nat (length stored), be_codec = codec\<rparr>)"

lemma put_if_absent_eq:
  "put_if_absent crc zenc s hash raw =
     (case index s hash of
        Some e \<Rightarrow> (s, Inr e)
      | None \<Rightarrow>
          let e = new_entry zenc s raw
          in (s\<lparr>pack_file := pack_file s @ blob_record crc hash e (fst (choose_codec zenc raw)),
                idx_file := idx_file s @ encode_blob_idx (hash, e, 0),
                index := (index s)(hash \<mapsto> e)\<rparr>, Inr e))"
  by (simp add: put_if_absent_def new_entry_def blob_record_def Let_def split: option.split prod.split)

lemma choose_codec_le: "length (fst (choose_codec zenc raw)) \<le> length raw"
  by (auto simp: choose_codec_def split: option.split)

lemma decode_choose_codec:
  "zstd_ok zenc zdec \<Longrightarrow>
    decode_body zdec (snd (choose_codec zenc raw)) (fst (choose_codec zenc raw)) = Inr raw"
  by (auto simp: choose_codec_def zstd_ok_def decode_body_def split: option.split)

lemma blob_ok_new:
  assumes "zstd_ok zenc zdec" and "blob_fits s hash raw"
  shows "blob_ok crc zdec (pack_file s @ blob_record crc hash (new_entry zenc s raw) (fst (choose_codec zenc raw)))
    hash (new_entry zenc s raw) raw"
proof -
  have "length (fst (choose_codec zenc raw)) < 2 ^ 32"
    using assms(2) choose_codec_le [of zenc raw] by (simp add: blob_fits_def)
  then show ?thesis
    using assms(2) decode_choose_codec [OF assms(1), of raw]
    by (intro blob_okI) (auto simp: new_entry_def blob_fits_def unat_of_nat split: prod.splits)
qed

lemma blob_inv_put:
  assumes "zstd_ok zenc zdec" and "blob_inv crc zdec s" and "blob_fits s hash raw"
  shows "blob_inv crc zdec (fst (put_if_absent crc zenc s hash raw))"
proof (cases "index s hash")
  case None
  have "valid_idx (hash, new_entry zenc s raw, 0)" using assms(3) by (simp add: valid_idx_def blob_fits_def)
  from blob_idx_log.scans_to_append [of ins_blob "idx_file s" Map.empty "index s", OF _ this] assms(2) None
    blob_ok_new [OF assms(1,3), of crc] blob_ok_append [of crc zdec "pack_file s"]
  show ?thesis by (fastforce simp: blob_inv_def put_if_absent_eq Let_def ins_blob_def)
qed (simp add: put_if_absent_eq assms(2))

lemma blob_get_None: "index s hash = None \<Longrightarrow> blob_get crc zdec s hash = Inl (NotFound ''blob'')"
  by (simp add: blob_get_def)

lemma blob_getD:
  assumes "blob_inv crc zdec s" and "blob_get crc zdec s hash = Inr v"
  shows "\<exists>e. index s hash = Some e \<and> blob_ok crc zdec (pack_file s) hash e v"
proof (cases "index s hash")
  case (Some e)
  with assms(1) obtain w where w: "blob_ok crc zdec (pack_file s) hash e w" by (auto simp: blob_inv_def)
  with blob_get_ok [OF Some w] assms(2) Some show ?thesis by simp
qed (use assms(2) blob_get_None in simp)

lemma blob_get_index:
  "blob_inv crc zdec s \<Longrightarrow> (\<exists>raw. blob_get crc zdec s hash = Inr raw) \<longleftrightarrow> index s hash \<noteq> None"
  by (metis blob_getD blob_get_ok blob_inv_def not_None_eq)

lemma blob_get_put:
  assumes "zstd_ok zenc zdec" and "blob_inv crc zdec s" and "blob_fits s hash raw"
  shows "blob_get crc zdec (fst (put_if_absent crc zenc s hash raw)) k =
    (if k = hash \<and> index s hash = None then Inr raw else blob_get crc zdec s k)"
proof (cases "index s hash")
  case None
  let ?t = "fst (put_if_absent crc zenc s hash raw)" and ?e = "new_entry zenc s raw"
  have t: "index ?t = (index s)(hash \<mapsto> ?e)"
      "pack_file ?t = pack_file s @ blob_record crc hash ?e (fst (choose_codec zenc raw))"
    by (simp_all add: put_if_absent_eq None Let_def)
  show ?thesis
  proof (cases "k = hash")
    case True
    with t None blob_ok_new [OF assms(1,3)] show ?thesis by (simp add: blob_get_ok)
  next
    case False
    show ?thesis
    proof (cases "index s k")
      case None
      with t False show ?thesis by (simp add: blob_get_def)
    next
      case (Some e)
      with assms(2) obtain v where "blob_ok crc zdec (pack_file s) k e v" by (auto simp: blob_inv_def)
      with Some t False show ?thesis by (simp add: blob_get_ok blob_ok_append)
    qed
  qed
qed (simp add: put_if_absent_eq)

definition blob_store_inv :: "(bytes \<Rightarrow> u32) \<Rightarrow> zstd_enc \<Rightarrow> zstd_dec \<Rightarrow> BlobStore \<Rightarrow> bool" where
  "blob_store_inv crc zenc zdec s \<longleftrightarrow> zstd_ok zenc zdec \<and> blob_inv crc zdec s"

interpretation blob_store: content_store "blob_get crc zdec"
  "\<lambda>s h raw. fst (put_if_absent crc zenc s h raw)" "blob_store_inv crc zenc zdec" blob_fits
  for crc zenc zdec
proof
  fix s h raw k v
  assume "blob_store_inv crc zenc zdec s" and fits: "blob_fits s h raw"
  then have z: "zstd_ok zenc zdec" and inv: "blob_inv crc zdec s" by (auto simp: blob_store_inv_def)
  note [simp] = blob_get_put [OF z inv fits]
  show "blob_store_inv crc zenc zdec (fst (put_if_absent crc zenc s h raw))"
    by (simp add: blob_store_inv_def z blob_inv_put [OF z inv fits])
  show "blob_get crc zdec (fst (put_if_absent crc zenc s h raw)) h = Inr raw" if "\<And>v. blob_get crc zdec s h \<noteq> Inr v"
    using that blob_get_index [OF inv, of h] by auto
  show "blob_get crc zdec (fst (put_if_absent crc zenc s h raw)) k = Inr v" if "blob_get crc zdec s k = Inr v"
    using that blob_get_index [OF inv, of k] by auto
  show "blob_get crc zdec (fst (put_if_absent crc zenc s h raw)) k = blob_get crc zdec s k" if "k \<noteq> h"
    using that by simp
qed

section \<open>Reopening and crashes\<close>

lemma blob_open_scan:
  "scan_log blob_idx_step ins_blob idx 0 Map.empty = Inr (m, pos, trunc) \<Longrightarrow>
    blob_open pack idx = Inr \<lparr>pack_file = pack, idx_file = file_after idx pos trunc, index = m\<rparr>"
  by (simp add: blob_open_def load_index_def)

lemma blob_open_empty: "blob_open [] [] = Inr \<lparr>pack_file = [], idx_file = [], index = Map.empty\<rparr>"
  by (simp add: blob_open_def load_index_def blob_idx_log.scan_stop file_after_def)

lemma blob_open_inv:
  assumes "blob_inv crc zdec s"
  shows "blob_open (pack_file s) (idx_file s) = Inr s"
proof -
  from assms have "scans_to blob_idx_step ins_blob (idx_file s) Map.empty (index s)" by (simp add: blob_inv_def)
  from blob_idx_log.scans_toD [OF this] obtain trunc where
    "scan_log blob_idx_step ins_blob (idx_file s) 0 Map.empty = Inr (index s, length (idx_file s), trunc)" by auto
  from blob_open_scan [OF this] show ?thesis by (simp add: file_after_def)
qed

text \<open>
  \<^verbatim>\<open>put_if_absent\<close> writes the pack file, syncs it, then writes the index file.  What a crash leaves
  after \<open>n\<close> of the written bytes:
\<close>

definition blob_crash :: "nat \<Rightarrow> BlobStore \<Rightarrow> BlobStore \<Rightarrow> bytes \<times> bytes" where
  "blob_crash n s s' =
     (take (length (pack_file s) + n) (pack_file s'),
      take (length (idx_file s) + (n - (length (pack_file s') - length (pack_file s)))) (idx_file s'))"

lemma blob_inv_extend:
  assumes "blob_inv crc zdec s"
  shows "blob_inv crc zdec (s\<lparr>pack_file := pack_file s @ rest\<rparr>)"
  using assms blob_ok_append [of crc zdec "pack_file s" _ _ _ rest] unfolding blob_inv_def by fastforce

lemma blob_crash_open:
  assumes z: "zstd_ok zenc zdec" and inv: "blob_inv crc zdec s" and fits: "blob_fits s hash raw"
    and put: "s' = fst (put_if_absent crc zenc s hash raw)" and cr: "blob_crash n s s' = (p, i)"
  shows "\<exists>t. blob_open p i = Inr t \<and> blob_inv crc zdec t \<and> (index t = index s \<or> index t = index s')"
proof (cases "index s hash")
  case (Some e)
  then have "s' = s" by (simp add: put put_if_absent_eq)
  with cr blob_open_inv [OF inv] inv show ?thesis by (auto simp: blob_crash_def)
next
  case None
  let ?e = "new_entry zenc s raw"
  let ?R = "blob_record crc hash ?e (fst (choose_codec zenc raw))" and ?I = "encode_blob_idx (hash, ?e, 0)"
  from None have s': "pack_file s' = pack_file s @ ?R" "idx_file s' = idx_file s @ ?I" "index s' = (index s)(hash \<mapsto> ?e)"
    by (simp_all add: put put_if_absent_eq Let_def)
  define k where "k = n - length ?R"
  from cr s' have pi: "p = pack_file s @ take n ?R" "i = idx_file s @ take k ?I" by (auto simp: blob_crash_def k_def)
  have valid: "valid_idx (hash, ?e, 0)" using fits by (simp add: valid_idx_def blob_fits_def)
  have sc: "scans_to blob_idx_step ins_blob (idx_file s) Map.empty (index s)" using inv by (simp add: blob_inv_def)
  from blob_idx_log.take_repaired [OF sc valid, of k] obtain pos trunc where
      scan: "scan_log blob_idx_step ins_blob i 0 Map.empty = Inr (if k < length ?I then index s else index s', pos, trunc)"
    and fil: "file_after i pos trunc = (if k < length ?I then idx_file s else idx_file s')"
    by (auto simp: pi s' ins_blob_def)
  show ?thesis
  proof (cases "k < length ?I")
    case True
    with fil blob_open_scan [OF scan, of p] have "blob_open p i = Inr (s\<lparr>pack_file := pack_file s @ take n ?R\<rparr>)"
      by (cases s) (simp add: pi)
    with blob_inv_extend [OF inv] show ?thesis by auto
  next
    case False
    with valid have "length ?R < n" by (simp add: k_def length_encode_blob_idx)
    with False pi s' fil blob_open_scan [OF scan, of p] blob_inv_put [OF z inv fits] show ?thesis
      by (auto simp: put blob_inv_def)
  qed
qed

lemma blob_crash_gets:
  assumes "zstd_ok zenc zdec" and inv: "blob_inv crc zdec s" and "blob_fits s hash raw"
    and "put_if_absent crc zenc s hash raw = (s', res)" and "blob_crash n s s' = (p, i)"
  shows "\<exists>t. blob_open p i = Inr t \<and> blob_inv crc zdec t \<and>
    (\<forall>k v. blob_get crc zdec s k = Inr v \<longrightarrow> blob_get crc zdec t k = Inr v) \<and>
    (\<forall>k v. blob_get crc zdec t k = Inr v \<longrightarrow> blob_get crc zdec s' k = Inr v)"
proof -
  from blob_crash_open [OF assms(1) inv assms(3) _ assms(5)] assms(4) obtain t where
    t: "blob_open p i = Inr t" "blob_inv crc zdec t" "index t = index s \<or> index t = index s'" by auto
  have "pack_file t = p" using t(1) by (auto simp: blob_open_def load_index_def split: sum.splits)
  with assms(5) have t_pack: "pack_file t = take (length (pack_file s) + n) (pack_file s')"
    by (simp add: blob_crash_def)
  obtain R where R: "pack_file s' = pack_file s @ R"
    using assms(4) by (cases "index s hash") (auto simp: put_if_absent_eq Let_def)
  have sub: "index s' k = Some e" if "index s k = Some e" for k e
    using that assms(4) by (cases "index s hash") (auto simp: put_if_absent_eq Let_def)
  from t(3) sub have idx: "\<And>k e. index s k = Some e \<Longrightarrow> index t k = Some e" "\<And>k e. index t k = Some e \<Longrightarrow> index s' k = Some e"
    by auto
  from t_pack R have packs: "pack_file t = pack_file s @ take n R" "pack_file s' = pack_file t @ drop n R" by simp_all
  show ?thesis
    using t(1,2) blob_getD [OF inv] blob_getD [OF t(2)] idx packs blob_ok_append blob_get_ok by metis
qed

section \<open>Reachable stores\<close>

inductive blob_reach :: "(bytes \<Rightarrow> u32) \<Rightarrow> zstd_enc \<Rightarrow> BlobStore \<Rightarrow> bool" for crc zenc where
  start: "blob_open [] [] = Inr s \<Longrightarrow> blob_reach crc zenc s"
| put: "blob_reach crc zenc s \<Longrightarrow> blob_fits s hash raw \<Longrightarrow> put_if_absent crc zenc s hash raw = (s', res) \<Longrightarrow>
    blob_reach crc zenc s'"
| crash: "blob_reach crc zenc s \<Longrightarrow> blob_fits s hash raw \<Longrightarrow> put_if_absent crc zenc s hash raw = (s', res) \<Longrightarrow>
    blob_crash n s s' = (p, i) \<Longrightarrow> blob_open p i = Inr t \<Longrightarrow> blob_reach crc zenc t"
| reopen: "blob_reach crc zenc s \<Longrightarrow> blob_open (pack_file s) (idx_file s) = Inr t \<Longrightarrow> blob_reach crc zenc t"

lemma blob_reach_inv:
  assumes "zstd_ok zenc zdec"
  shows "blob_reach crc zenc s \<Longrightarrow> blob_inv crc zdec s"
proof (induction rule: blob_reach.induct)
  case (start s)
  then show ?case
    by (auto simp: blob_open_empty blob_inv_def blob_idx_log.scans_to_Nil)
next
  case (put s hash raw s' res)
  then show ?case using blob_inv_put [OF assms put.IH put.hyps(2)] by simp
next
  case (crash s hash raw s' res n p i t)
  then show ?case using blob_crash_open [OF assms crash.IH crash.hyps(2) _ crash.hyps(4)] by auto
next
  case (reopen s t)
  then show ?case using blob_open_inv [OF reopen.IH] by simp
qed

section \<open>Witness store\<close>

text \<open>A toy compressor that shortens one payload, and a store holding that payload and another.\<close>

definition demo_zenc :: zstd_enc where
  "demo_zenc raw = Some (if raw = replicate 100 0 then [1] else 0 # raw)"

definition demo_zdec :: zstd_dec where
  "demo_zdec z = (if z = [1] then Inr (replicate 100 0) else if hd z = 0 then Inr (tl z) else Inl ''bad frame'')"

lemma demo_zstd_ok: "zstd_ok demo_zenc demo_zdec"
  by (simp add: zstd_ok_def demo_zenc_def demo_zdec_def)

definition demo_sum :: "bytes \<Rightarrow> u32" where
  "demo_sum bs = sum_list (map ucast bs)"

definition blob0 :: BlobStore where
  "blob0 = \<lparr>pack_file = [], idx_file = [], index = Map.empty\<rparr>"

definition blob1 :: BlobStore where
  "blob1 = fst (put_if_absent demo_sum demo_zenc blob0 (replicate 32 1) (replicate 100 0))"

lemma blob0_reach: "blob_reach demo_sum demo_zenc blob0"
  by (rule blob_reach.start) (simp add: blob0_def blob_open_empty)

lemma blob_fits0: "blob_fits blob0 (replicate 32 1) (replicate 100 0)"
  by (simp add: blob_fits_def blob0_def)

lemma blob1_reach: "blob_reach demo_sum demo_zenc blob1"
  unfolding blob1_def by (rule blob_reach.put [OF blob0_reach blob_fits0 surjective_pairing])

lemma blob1_index: "index blob1 (replicate 32 1) = Some \<lparr>be_offset = 0, be_raw_len = 100, be_stored_len = 1, be_codec = Codec_Zstd\<rparr>"
    "index blob1 (replicate 32 2) = None" "length (pack_file blob1) = 53"
  by (simp_all add: blob1_def put_if_absent_eq blob0_def Let_def new_entry_def choose_codec_def demo_zenc_def blob_record_def)

section \<open>Properties\<close>

text \<open>C14. In every store reached by puts, crashes and reopenings, a payload put under a new hash is
  read back unchanged, compressed or not, and no other blob changes.\<close>

theorem blob_put_get:
  assumes "zstd_ok zenc zdec" and "blob_reach crc zenc s" and "blob_fits s hash raw"
    and "put_if_absent crc zenc s hash raw = (s', res)" and "\<not> contains s hash"
  shows "(\<exists>e. res = Inr e \<and> be_raw_len e = of_nat (length raw)) \<and> contains s' hash \<and>
    blob_get crc zdec s' hash = Inr raw \<and>
    (\<forall>k. k \<noteq> hash \<longrightarrow> blob_get crc zdec s' k = blob_get crc zdec s k)"
proof -
  have inv: "blob_inv crc zdec s" using assms(1,2) by (rule blob_reach_inv)
  have "res = Inr (new_entry zenc s raw)" "contains s' hash"
    using assms(4,5) by (auto simp: put_if_absent_eq contains_def Let_def)
  with blob_get_put [OF assms(1) inv assms(3)] assms(4,5) show ?thesis
    by (auto simp: contains_def new_entry_def split: prod.split)
qed

theorem blob_put_get_witness:
  "blob_get demo_sum demo_zdec (fst (put_if_absent demo_sum demo_zenc blob1 (replicate 32 2) [9])) (replicate 32 2) = Inr [9]"
  using blob_put_get [OF demo_zstd_ok blob1_reach _ surjective_pairing, of "replicate 32 2" "[9]"]
  by (simp add: blob_fits_def contains_def blob1_index)

text \<open>Putting a hash that is present writes nothing and returns the existing entry; its payload
  can be read.\<close>

theorem blob_put_idempotent:
  assumes "zstd_ok zenc zdec" and "blob_reach crc zenc s" and "contains s hash"
  shows "\<exists>e v. put_if_absent crc zenc s hash raw = (s, Inr e) \<and> index s hash = Some e \<and>
    blob_get crc zdec s hash = Inr v \<and> raw_len s hash = Some (of_nat (length v))"
proof -
  have inv: "blob_inv crc zdec s" using assms(1,2) by (rule blob_reach_inv)
  from assms(3) obtain e where e: "index s hash = Some e" by (auto simp: contains_def)
  with inv obtain v where v: "blob_ok crc zdec (pack_file s) hash e v" by (auto simp: blob_inv_def)
  then have "be_raw_len e = of_nat (length v)" by (auto simp: blob_ok_def)
  with e blob_get_ok [OF e v] show ?thesis by (simp add: put_if_absent_eq raw_len_def)
qed

theorem blob_put_idempotent_witness:
  "\<exists>e. put_if_absent demo_sum demo_zenc blob1 (replicate 32 1) [5] = (blob1, Inr e)"
  using blob_put_idempotent [OF demo_zstd_ok blob1_reach, of "replicate 32 1" "[5]"]
  by (auto simp: contains_def blob1_index)

text \<open>A crash during a put, after any number of its bytes, loses nothing: the store opens, every blob
  that could be read still reads the same, and the new blob is either complete or absent.\<close>

theorem blob_crash_safe:
  assumes "zstd_ok zenc zdec" and "blob_reach crc zenc s" and "blob_fits s hash raw"
    and "put_if_absent crc zenc s hash raw = (s', res)" and "blob_crash n s s' = (p, i)"
  shows "\<exists>t. blob_open p i = Inr t \<and>
    (\<forall>k v. blob_get crc zdec s k = Inr v \<longrightarrow> blob_get crc zdec t k = Inr v) \<and>
    (\<forall>k v. blob_get crc zdec t k = Inr v \<longrightarrow> blob_get crc zdec s' k = Inr v)"
  using blob_crash_gets [OF assms(1) blob_reach_inv [OF assms(1,2)] assms(3-)] by blast

theorem blob_crash_safe_witness:
  "\<exists>t. (case blob_crash 70 blob0 blob1 of (p, i) \<Rightarrow> blob_open p i) = Inr t \<and>
    (\<forall>k v. blob_get demo_sum demo_zdec t k = Inr v \<longrightarrow> blob_get demo_sum demo_zdec blob1 k = Inr v)"
proof (cases "blob_crash 70 blob0 blob1")
  case (Pair p i)
  from blob_crash_safe [OF demo_zstd_ok blob0_reach blob_fits0 surjective_pairing, folded blob1_def, OF Pair]
  show ?thesis by (auto simp: Pair)
qed

text \<open>C26. Whatever the files contain, \<^verbatim>\<open>get\<close> returns only verified data: the indexed place of the pack
  file holds a header with the magic, the version, the requested hash and the indexed lengths, the
  stored bytes with a matching checksum, and the returned payload is their decoding, of the recorded
  length.\<close>

theorem blob_get_verified:
  assumes "blob_get crc zdec s hash = Inr raw" and "length (pack_file s) < 2 ^ 63"
  shows "\<exists>e codec stored rest. index s hash = Some e \<and>
    drop (unat (be_offset e)) (pack_file s) =
      blob_header hash codec (be_raw_len e) (be_stored_len e) @ stored @
      write_u32 (crc (blob_header hash codec (be_raw_len e) (be_stored_len e) @ stored)) @ rest \<and>
    length stored = unat (be_stored_len e) \<and> decode_body zdec codec stored = Inr raw \<and>
    of_nat (length raw) = be_raw_len e"
  proof -
  from assms(1) obtain e header codec_raw sl body x codec where
      e: "index s hash = Some e"
    and h: "read_at_exact (pack_file s) (be_offset e) 48 [] = Inr header"
    and ch: "check_header hash e header = Inr (codec_raw, of_nat (length raw), sl)"
    and b: "\<not> 2 ^ 64 \<le> unat (be_offset e) + 48"
      "read_at_exact (pack_file s) (be_offset e + 48) (unat sl + 4) [] = Inr body"
    and c: "read_u32 (take 4 (drop (unat sl) body)) = Some (crc (header @ take (unat sl) body), x)"
    and cd: "codec_of_u16 codec_raw = Some codec" "decode_body zdec codec (take (unat sl) body) = Inr raw"
    by (auto simp: blob_get_def HEADER_SIZE_def Let_def split: option.splits if_splits)
  let ?P = "pack_file s" and ?o = "unat (be_offset e)"
  have hd: "?o + 48 \<le> length ?P" "header = take 48 (drop ?o ?P)"
    using read_at_exact_InrD [OF h assms(2)] by auto
  have "unat (be_offset e + 48) = ?o + 48" using b(1) by (simp add: unat_word_ariths)
  with read_at_exact_InrD [OF b(2) assms(2)]
  have bd: "?o + 48 + (unat sl + 4) \<le> length ?P" "body = take (unat sl + 4) (drop (?o + 48) ?P)" by auto
  from check_header_InrD [OF ch] hd cd(1)
  have hdr: "header = blob_header hash codec (be_raw_len e) (be_stored_len e)"
    and lens: "of_nat (length raw) = be_raw_len e" "sl = be_stored_len e"
    by (auto simp: blob_header_def dest!: codec_of_u16_SomeD)
  obtain rest where "drop (unat sl) body = write_u32 (crc (header @ take (unat sl) body)) @ rest"
    using read_u32_take [OF c] by auto
  then have "body = take (unat sl) body @ write_u32 (crc (header @ take (unat sl) body)) @ rest"
    by (metis append_take_drop_id)
  moreover have "drop ?o ?P = header @ body @ drop (?o + 48 + (unat sl + 4)) ?P"
    unfolding hd(2) bd(2) by (rule drop_split)
  ultimately have "drop ?o ?P = header @ take (unat sl) body @ write_u32 (crc (header @ take (unat sl) body)) @
      rest @ drop (?o + 48 + (unat sl + 4)) ?P"
    by (metis append_assoc)
  moreover have "length (take (unat sl) body) = unat sl" using bd by simp
  ultimately show ?thesis using e cd(2) lens unfolding hdr by blast
qed

theorem blob_get_verified_witness:
  "\<exists>e. index blob1 (replicate 32 1) = Some e \<and> of_nat (length (replicate 100 (0 :: byte))) = be_raw_len e"
proof -
  have "blob_get demo_sum demo_zdec blob1 (replicate 32 1) = Inr (replicate 100 0)"
    using blob_get_put [OF demo_zstd_ok blob_reach_inv [OF demo_zstd_ok blob0_reach] blob_fits0, folded blob1_def]
    by (simp add: blob0_def)
  from blob_get_verified [OF this] show ?thesis by (auto simp: blob1_index)
qed

end
