(* ===== verification/Fs_Props.thy ===== *)
theory Fs_Props
  imports Fs_Store Turn_Props
begin

text \<open>
  Properties of the filesystem snapshots: inheritance along the turn history, durability of the
  roots index, and the agreement of the two path walks.
\<close>

section \<open>Shared lemmas\<close>

lemma inherited_loop_ancestry:
  assumes wf: "dag_wf s" and "ancestry (turns s) i rs"
  shows "inherited_loop roots s i =
    Some (Option.bind (find (\<lambda>r. roots (tr_turn_id r) \<noteq> None) rs) (\<lambda>r. roots (tr_turn_id r)))"
  using assms(2)
proof (induction rule: ancestry.induct)
  case none
  then show ?case by (simp add: inherited_loop.simps)
next
  case (turn i r rs)
  then show ?case
    by (subst inherited_loop.simps) (auto simp: get_turn_def split: option.split)
qed

text \<open>Reachable indexes: any sequence of attachments of 32-byte hashes and reopenings.\<close>

inductive fs_reach :: "crc_fun \<Rightarrow> FsRootsIndex \<Rightarrow> bool" for crc where
  start: "fs_reach crc \<lparr>fr_file = [], fr_roots = Map.empty\<rparr>"
| attach: "fs_reach crc f \<Longrightarrow> length h = 32 \<Longrightarrow> fs_reach crc (attach crc f t h)"
| reopen: "fs_reach crc f \<Longrightarrow> fs_open crc (fr_file f) = Inr g \<Longrightarrow> fs_reach crc g"

lemma fs_open_scans:
  assumes "scans_to (root_step crc) ins_root (fr_file f) Map.empty (fr_roots f)"
  shows "fs_open crc (fr_file f) = Inr f"
proof -
  from root_log.scans_toD [OF assms] obtain trunc where
    "scan_log (root_step crc) ins_root (fr_file f) 0 Map.empty = Inr (fr_roots f, length (fr_file f), trunc)" by auto
  then show ?thesis by (simp add: fs_open_def file_after_def)
qed

lemma fs_reach_scans:
  "fs_reach crc f \<Longrightarrow> scans_to (root_step crc) ins_root (fr_file f) Map.empty (fr_roots f)"
proof (induction rule: fs_reach.induct)
  case start
  show ?case by (simp add: root_log.scans_to_Nil)
next
  case (attach f h t)
  from root_log.scans_to_append [OF attach.IH, of "(t, h)"] attach.hyps(2) show ?case
    by (simp add: attach_def valid_root_def ins_root_def)
next
  case (reopen f g)
  with fs_open_scans [OF reopen.IH] show ?case by simp
qed

text \<open>The two walks visit the same entries.\<close>

lemma lookup_part_InrD: "lookup_part rv get h part = Inr (e, eh) \<Longrightarrow> te_name e = part \<and> eh = te_hash e"
  by (auto simp: lookup_part_def find_entry_def hash_array_def find_Some_iff split: if_splits)

lemma file_loop_resolve_loop:
  "file_loop rv get path h parts = Some (Inr (content, e)) \<Longrightarrow>
    \<exists>eh. resolve_loop rv get h parts = Some (Inr (eh, False)) \<and> eh = te_hash e \<and> get eh = Inr content \<and>
      kind_enum e \<noteq> Directory \<and> te_name e = last parts"
proof (induction parts arbitrary: h)
  case (Cons part parts)
  show ?case
  proof (cases "lookup_part rv get h part")
    case (Inl er)
    with Cons.prems show ?thesis by simp
  next
    case (Inr p)
    obtain en eh where p: "p = (en, eh)" by (cases p)
    note en = lookup_part_InrD [OF Inr [unfolded p]]
    show ?thesis
    proof (cases "parts = []")
      case True
      with Cons.prems Inr p en show ?thesis by (auto split: EntryKind.splits)
    next
      case False
      with Cons.prems Inr p have d: "kind_enum en = Directory" "file_loop rv get path eh parts = Some (Inr (content, e))"
        by (auto split: if_splits)
      from Cons.IH [OF d(2)] d(1) False Inr p show ?thesis by simp
    qed
  qed
qed simp

lemma resolve_loop_file_loop:
  "resolve_loop rv get h parts = Some (Inr (eh, False)) \<Longrightarrow>
    \<exists>e. te_hash e = eh \<and> file_loop rv get path h parts = Some (rbind (get eh) (\<lambda>content. Inr (content, e)))"
proof (induction parts arbitrary: h)
  case (Cons part parts)
  show ?case
  proof (cases "lookup_part rv get h part")
    case (Inl er)
    with Cons.prems show ?thesis by simp
  next
    case (Inr p)
    obtain en eh' where p: "p = (en, eh')" by (cases p)
    note en = lookup_part_InrD [OF Inr [unfolded p]]
    show ?thesis
    proof (cases "parts = []")
      case True
      with Cons.prems Inr p en show ?thesis by (auto split: EntryKind.splits)
    next
      case False
      with Cons.prems Inr p have d: "kind_enum en = Directory" "resolve_loop rv get eh' parts = Some (Inr (eh, False))"
        by (auto split: if_splits)
      from Cons.IH [OF d(2)] d(1) False Inr p show ?thesis by simp
    qed
  qed
qed simp

lemma loops_return:
  "parts \<noteq> [] \<Longrightarrow> \<exists>r. resolve_loop rv get h parts = Some r"
  "parts \<noteq> [] \<Longrightarrow> \<exists>r. file_loop rv get path h parts = Some r"
  by (induction parts arbitrary: h) (auto split: sum.split EntryKind.split simp del: rbind_eq_Inr)

section \<open>Properties\<close>

text \<open>A turn's snapshot is the one attached to the nearest turn of its history, itself first; the
  search always ends.\<close>

theorem snapshot_inherited_from_nearest:
  assumes "ts_reach crc s" and "turns s t \<noteq> None" and "ancestry (turns s) t rs"
  shows "get_inherited f s t = Some
    (case dropWhile (\<lambda>r. fs_get f (tr_turn_id r) = None) rs of
       [] \<Rightarrow> None
     | r # _ \<Rightarrow> fs_get f (tr_turn_id r))"
proof -
  have wf: "dag_wf s" using assms(1) by (rule reach_dag_wf)
  have find: "Option.bind (find (\<lambda>r. fr_roots f (tr_turn_id r) \<noteq> None) xs) (\<lambda>r. fr_roots f (tr_turn_id r)) =
      (case dropWhile (\<lambda>r. fr_roots f (tr_turn_id r) = None) xs of [] \<Rightarrow> None | r # _ \<Rightarrow> fr_roots f (tr_turn_id r))" for xs
    by (induction xs) auto
  from assms(2) obtain r where r: "turns s t = Some r" by auto
  with dag_wf_turnD(1) [OF wf] have "tr_turn_id r = t" "t \<noteq> 0" by (auto simp: turn_ok_def)
  moreover obtain rs' where "rs = r # rs'"
    using assms(3) r \<open>t \<noteq> 0\<close> by (cases rs) (auto simp: ancestry_Cons)
  ultimately show ?thesis
    unfolding fs_get_def using inherited_loop_ancestry [OF wf assms(3), of "fr_roots f"] find [of rs]
    by (auto simp: get_inherited_def split: option.split)
qed

theorem snapshot_inherited_from_nearest_witness:
  "get_inherited (attach demo_crc \<lparr>fr_file = [], fr_roots = Map.empty\<rparr> 1 demo_hash) demo2 2 = Some (Some demo_hash)"
  using snapshot_inherited_from_nearest [OF demo2_reach, of 2
      "[new_turn 2 1 1 1 demo_hash 300, new_turn 1 0 0 1 demo_hash 200]"
      "attach demo_crc \<lparr>fr_file = [], fr_roots = Map.empty\<rparr> 1 demo_hash"]
  by (simp add: ancestry_Cons attach_def fs_get_def)

text \<open>The roots index keeps the last root attached to each turn, across reopenings.\<close>

theorem fs_roots_last_write_wins:
  assumes "fs_reach crc f" and "length h = 32"
  shows "\<exists>g. fs_open crc (fr_file (attach crc f t h)) = Inr g \<and> fs_get g t = Some h \<and>
    (\<forall>u. u \<noteq> t \<longrightarrow> fs_get g u = fs_get f u)"
proof -
  have "fs_reach crc (attach crc f t h)" using assms by (rule fs_reach.attach)
  from fs_open_scans [OF fs_reach_scans [OF this]] show ?thesis by (simp add: fs_get_def attach_def)
qed

theorem fs_roots_last_write_wins_witness:
  "\<exists>g. fs_open demo_crc (fr_file (attach demo_crc (attach demo_crc \<lparr>fr_file = [], fr_roots = Map.empty\<rparr> 1 (replicate 32 2))
      1 demo_hash)) = Inr g \<and> fs_get g 1 = Some demo_hash"
  using fs_roots_last_write_wins [OF fs_reach.attach [OF fs_reach.start, of "replicate 32 2" demo_crc 1] length_demo_hash, of 1]
  by auto

text \<open>Reading a file by path and resolving the path agree: \<^verbatim>\<open>get_file_at_path\<close> returns content
  exactly when \<^verbatim>\<open>resolve_path\<close> finds a non-directory whose blob can be read, and the content is that
  blob; both always return.\<close>

theorem file_content_is_resolved_blob:
  "\<exists>r res. get_file_at_path rv get root path = Some r \<and> resolve_path rv get root path = Some res \<and>
    ((\<exists>e. r = Inr (content, e)) \<longleftrightarrow> (\<exists>h. res = Inr (h, False) \<and> get h = Inr content))"
proof (cases "path_parts path = []")
  case True
  then show ?thesis by (auto simp: get_file_at_path_def resolve_path_def)
next
  case False
  then have ne: "path \<noteq> []" "path \<noteq> ''/''" by (auto simp: path_parts_def trim_matches_def)
  obtain r res where r: "file_loop rv get path root (path_parts path) = Some r"
      "resolve_loop rv get root (path_parts path) = Some res"
    using loops_return [OF False] by metis
  have "(\<exists>e. r = Inr (content, e)) \<longleftrightarrow> (\<exists>h. res = Inr (h, False) \<and> get h = Inr content)"
  proof
    assume "\<exists>e. r = Inr (content, e)"
    then show "\<exists>h. res = Inr (h, False) \<and> get h = Inr content"
      using file_loop_resolve_loop [of rv get path root "path_parts path" content] r by auto
  next
    assume "\<exists>h. res = Inr (h, False) \<and> get h = Inr content"
    then obtain h where "res = Inr (h, False)" "get h = Inr content" by blast
    with resolve_loop_file_loop [of rv get root "path_parts path" h path] r show "\<exists>e. r = Inr (content, e)" by auto
  qed
  with False ne r show ?thesis by (simp add: get_file_at_path_def resolve_path_def)
qed

end
