(* ===== verification/Cql_Facts.thy ===== *)
theory Cql_Facts
  imports Cql_Index
begin

text \<open>
  What the secondary indexes represent: a set of facts, each a context and one of its field values.
  \<open>idx_facts lower F ix\<close> says that \<open>ix\<close> stores exactly the facts \<open>F\<close>; every indexing operation
  adds the facts it should and keeps the relation.  Lookups are then queries on \<open>F\<close>; the prefix
  lookups rest on the correctness of the binary search.
\<close>

datatype fact =
    FPresent
  | FTag string
  | FTitle string
  | FLabel string
  | FUser string
  | FService string
  | FHost string
  | FTrace string
  | FParent u64
  | FRoot u64
  | FCreated u64
  | FDepth u32

type_synonym facts = "(u64 \<times> fact) set"

section \<open>Maps and trees\<close>

lemma hm_get_empty [simp]: "hm_get Map.empty k = {}"
  by (simp add: hm_get_def)

lemma hm_get_add [simp]: "hm_get (hm_add k c m) j = (if j = k then insert c (hm_get m k) else hm_get m j)"
  by (simp add: hm_get_def hm_add_def)

text \<open>Keys in strictly increasing order.\<close>

definition bt_wf :: "'k::linorder btree \<Rightarrow> bool" where
  "bt_wf m \<longleftrightarrow> sorted_wrt (<) (map fst m)"

definition bt_rel :: "'k btree \<Rightarrow> ('k \<times> u64) set" where
  "bt_rel m = {(k, c). \<exists>s. (k, s) \<in> set m \<and> c \<in> s}"

lemma bt_rel_Nil [simp]: "bt_rel [] = {}"
  by (simp add: bt_rel_def)

lemma bt_rel_Cons: "bt_rel ((j, s) # m) = {j} \<times> s \<union> bt_rel m"
  by (auto simp: bt_rel_def)

lemma bt_rel_add [simp]: "bt_rel (bt_add k c m) = insert (k, c) (bt_rel m)"
  by (induction k c m rule: bt_add.induct) (auto simp: bt_rel_Cons)

lemma keys_bt_add: "fst ` set (bt_add k c m) = insert k (fst ` set m)"
  by (induction k c m rule: bt_add.induct) auto

lemma bt_wf_add: "bt_wf m \<Longrightarrow> bt_wf (bt_add k c m)"
proof (induction k c m rule: bt_add.induct)
  case (2 k i j s m)
  then have "x \<in> fst ` set (bt_add k i m) \<Longrightarrow> x = k \<or> x \<in> fst ` set m" for x by (simp add: keys_bt_add)
  with 2 show ?case by (fastforce simp: bt_wf_def)
qed (simp add: bt_wf_def)

lemma bt_range_rel: "bt_range P m = {c. \<exists>k. P k \<and> (k, c) \<in> bt_rel m}"
  by (fastforce simp: bt_range_def bt_rel_def)

lemma bt_get_rel:
  assumes "bt_wf m"
  shows "bt_get m k = {c. (k, c) \<in> bt_rel m}"
proof -
  have d: "distinct (map fst m)" using assms by (simp add: bt_wf_def strict_sorted_iff)
  show ?thesis
  proof (cases "map_of m k")
    case None
    then have "k \<notin> fst ` set m" by (simp add: map_of_eq_None_iff)
    then show ?thesis using None by (force simp: bt_get_def bt_rel_def)
  next
    case (Some s)
    have "(k, s') \<in> set m \<longleftrightarrow> s' = s" for s'
      using Some map_of_eq_Some_iff [OF d, of k s'] by auto
    with Some show ?thesis by (simp add: bt_get_def bt_rel_def)
  qed
qed

section \<open>Binary search\<close>

lemma pp_loop_correct:
  assumes "\<forall>i j. i < j \<longrightarrow> j < length xs \<longrightarrow> P (xs ! j) \<longrightarrow> P (xs ! i)"
    and "lo \<le> hi" and "hi \<le> length xs" and "\<forall>i<lo. P (xs ! i)" and "\<forall>i<length xs. hi \<le> i \<longrightarrow> \<not> P (xs ! i)"
  shows "pp_loop P xs lo hi \<le> length xs \<and> (\<forall>i < pp_loop P xs lo hi. P (xs ! i)) \<and>
    (\<forall>i < length xs. pp_loop P xs lo hi \<le> i \<longrightarrow> \<not> P (xs ! i))"
  using assms
proof (induction P xs lo hi rule: pp_loop.induct)
  case (1 P xs lo hi)
  let ?mid = "lo + (hi - lo) div 2"
  show ?case
  proof (cases "lo < hi")
    case False
    then have "pp_loop P xs lo hi = lo" by (simp add: pp_loop.simps)
    with 1(4-7) False show ?thesis by simp
  next
    case True
    then have mid: "lo \<le> ?mid" "?mid < hi" by auto
    show ?thesis
    proof (cases "P (xs ! ?mid)")
      case P: True
      have "P (xs ! i)" if "i < ?mid + 1" for i
        using 1(3) [rule_format, of i ?mid] P mid 1(5) that by (cases "i = ?mid") simp_all
      then have below: "\<forall>i<?mid + 1. P (xs ! i)" by blast
      have "?mid + 1 \<le> hi" using mid by simp
      note IH = 1(1) [OF True refl P 1(3) this 1(5) below 1(7)]
      have "pp_loop P xs lo hi = pp_loop P xs (?mid + 1) hi"
        using True P by (subst pp_loop.simps) (simp add: Let_def)
      then show ?thesis using IH by presburger
    next
      case N: False
      have "\<not> P (xs ! i)" if "?mid \<le> i" "i < length xs" for i
        using 1(3) [rule_format, of ?mid i] N that by (cases "i = ?mid") auto
      then have above: "\<forall>i<length xs. ?mid \<le> i \<longrightarrow> \<not> P (xs ! i)" by blast
      have le: "?mid \<le> length xs" using mid 1(5) by simp
      note IH = 1(2) [OF True refl N 1(3) mid(1) le 1(6) above]
      have "pp_loop P xs lo hi = pp_loop P xs lo ?mid"
        using True N by (subst pp_loop.simps) (simp add: Let_def)
      then show ?thesis using IH by presburger
    qed
  qed
qed

lemma partition_point_split:
  assumes "\<forall>i j. i < j \<longrightarrow> j < length xs \<longrightarrow> P (xs ! j) \<longrightarrow> P (xs ! i)"
  shows "(\<forall>x \<in> set (take (partition_point P xs) xs). P x) \<and> (\<forall>x \<in> set (drop (partition_point P xs) xs). \<not> P x)"
proof -
  let ?k = "partition_point P xs"
  have k: "?k \<le> length xs" "\<forall>i<?k. P (xs ! i)" "\<forall>i<length xs. ?k \<le> i \<longrightarrow> \<not> P (xs ! i)"
    using pp_loop_correct [OF assms, of 0 "length xs"] by (auto simp: partition_point_def)
  then show ?thesis by (auto simp: in_set_conv_nth)
qed

subsection \<open>Prefixes in lexicographic order\<close>

lemma prefix_le: "starts_with s p \<Longrightarrow> p \<le> s"
  by (induction s p rule: starts_with.induct) (auto simp: Cons_le_Cons)

lemma prefix_between: "p \<le> s \<Longrightarrow> s \<le> t \<Longrightarrow> starts_with t p \<Longrightarrow> starts_with s p"
proof (induction t p arbitrary: s rule: starts_with.induct)
  case (3 x xs p ps)
  then show ?case by (cases s) (auto simp: Cons_le_Cons)
qed auto

lemma takeWhile_sorted_prefix:
  "sorted (map fst xs) \<Longrightarrow> \<forall>e\<in>set xs. p \<le> fst e \<Longrightarrow>
    set (takeWhile (\<lambda>e. starts_with (fst e) p) xs) = {e \<in> set xs. starts_with (fst e) p}"
proof (induction xs)
  case (Cons e xs)
  then show ?case using prefix_between [of p "fst e"] by (auto 4 3)
qed simp

lemma snd_image_filter: "snd ` {e \<in> S. Q (fst e)} = {c. \<exists>s. (s, c) \<in> S \<and> Q s}"
  by force

lemma prefix_search_set:
  assumes "sorted (map fst xs)"
  shows "prefix_search xs p = {c. \<exists>s. (s, c) \<in> set xs \<and> starts_with s p}"
proof -
  let ?k = "partition_point (\<lambda>e. fst e < p) xs"
  have split: "(\<forall>e\<in>set (take ?k xs). fst e < p) \<and> (\<forall>e\<in>set (drop ?k xs). \<not> fst e < p)"
  proof (intro partition_point_split allI impI)
    fix i j
    assume "i < j" "j < length xs" "fst (xs ! j) < p"
    with sorted_nth_mono [OF assms, of i j] show "fst (xs ! i) < p" by simp
  qed
  have low: "\<forall>e\<in>set (take ?k xs). \<not> starts_with (fst e) p"
    using conjunct1 [OF split] prefix_le leD by blast
  have high: "\<forall>e\<in>set (drop ?k xs). p \<le> fst e"
    using conjunct2 [OF split] leI by blast
  have "sorted (map fst (drop ?k xs))" using assms by (simp add: drop_map [symmetric] sorted_wrt_drop)
  from takeWhile_sorted_prefix [OF this high] have
    tw: "set (takeWhile (\<lambda>e. starts_with (fst e) p) (drop ?k xs)) = {e \<in> set (drop ?k xs). starts_with (fst e) p}" .
  have "set xs = set (take ?k xs) \<union> set (drop ?k xs)" by (metis append_take_drop_id set_append)
  with low have "{e \<in> set (drop ?k xs). starts_with (fst e) p} = {e \<in> set xs. starts_with (fst e) p}" by auto
  moreover have "prefix_search xs p = snd ` set (takeWhile (\<lambda>e. starts_with (fst e) p) (drop ?k xs))"
    by (simp add: prefix_search_def Let_def)
  ultimately have "prefix_search xs p = snd ` {e \<in> set xs. starts_with (fst e) p}" by (simp only: tw)
  then show ?thesis using snd_image_filter [of "set xs" "\<lambda>s. starts_with s p"] by simp
qed

section \<open>The facts an index stores\<close>

definition str_facts :: "(string \<Rightarrow> string) \<Rightarrow> (u64 \<times> string) set \<Rightarrow> StrIndex \<Rightarrow> bool" where
  "str_facts lower R ix \<longleftrightarrow>
     (\<forall>s. hm_get (si_exact ix) s = {c. (c, s) \<in> R}) \<and>
     (\<forall>s. hm_get (si_lower_exact ix) s = {c. \<exists>t. lower t = s \<and> (c, t) \<in> R}) \<and>
     set (si_sorted ix) = {(s, c). (c, s) \<in> R} \<and>
     set (si_lower_sorted ix) = {(s, c). \<exists>t. lower t = s \<and> (c, t) \<in> R}"

definition str_sorted :: "StrIndex \<Rightarrow> bool" where
  "str_sorted ix \<longleftrightarrow> sorted (map fst (si_sorted ix)) \<and> sorted (map fst (si_lower_sorted ix))"

definition field_rel :: "('a \<Rightarrow> fact) \<Rightarrow> facts \<Rightarrow> (u64 \<times> 'a) set" where
  "field_rel K F = {(c, v). (c, K v) \<in> F}"

definition map_facts :: "('k \<Rightarrow> fact) \<Rightarrow> facts \<Rightarrow> 'k id_map \<Rightarrow> bool" where
  "map_facts K F m \<longleftrightarrow> (\<forall>k. hm_get m k = {c. (c, K k) \<in> F})"

definition tree_facts :: "('k::linorder \<Rightarrow> fact) \<Rightarrow> facts \<Rightarrow> 'k btree \<Rightarrow> bool" where
  "tree_facts K F m \<longleftrightarrow> bt_wf m \<and> bt_rel m = {(k, c). (c, K k) \<in> F}"

definition idx_facts :: "(string \<Rightarrow> string) \<Rightarrow> facts \<Rightarrow> SecondaryIndexes \<Rightarrow> bool" where
  "idx_facts lower F ix \<longleftrightarrow>
     str_facts lower (field_rel FTag F) (tag_ix ix) \<and> str_facts lower (field_rel FTitle F) (title_ix ix) \<and>
     str_facts lower (field_rel FUser F) (user_ix ix) \<and> str_facts lower (field_rel FService F) (service_ix ix) \<and>
     map_facts FLabel F (label_exact ix) \<and> map_facts FHost F (host_exact ix) \<and>
     set (host_sorted ix) = {(s, c). (c, FHost s) \<in> F} \<and>
     map_facts FTrace F (trace_id_exact ix) \<and> map_facts FParent F (parent_exact ix) \<and>
     map_facts FRoot F (root_exact ix) \<and>
     tree_facts FCreated F (created_btree ix) \<and> tree_facts FDepth F (depth_btree ix) \<and>
     all_context_ids ix = {c. (c, FPresent) \<in> F}"

definition idx_sorted :: "SecondaryIndexes \<Rightarrow> bool" where
  "idx_sorted ix \<longleftrightarrow>
     str_sorted (tag_ix ix) \<and> str_sorted (title_ix ix) \<and> str_sorted (user_ix ix) \<and> str_sorted (service_ix ix) \<and>
     sorted (map fst (host_sorted ix))"

text \<open>The facts of a context's metadata.\<close>

definition prov_facts :: "Provenance \<Rightarrow> fact set" where
  "prov_facts p =
     FUser ` set_option (pv_on_behalf_of p) \<union> FService ` set_option (pv_service_name p) \<union>
     FHost ` set_option (pv_host_name p) \<union> FTrace ` set_option (pv_trace_id p) \<union>
     FParent ` set_option (pv_parent_context_id p) \<union> FRoot ` set_option (pv_root_context_id p)"

definition meta_facts :: "ContextMetadata \<Rightarrow> fact set" where
  "meta_facts md =
     FTag ` set_option (cm_client_tag md) \<union> FTitle ` set_option (cm_title md) \<union>
     (\<Union>ls\<in>set_option (cm_labels md). FLabel ` set ls) \<union> (\<Union>p\<in>set_option (cm_provenance md). prov_facts p)"

subsection \<open>Adding one fact\<close>

lemma str_facts_add:
  "str_facts lower R ix \<Longrightarrow> str_facts lower (insert (c, s) R) (str_add lower c s ix)"
  by (auto simp: str_facts_def str_add_def)

lemma field_rel_insert [simp]:
  "inj K \<Longrightarrow> field_rel K (insert (c, K v) F) = insert (c, v) (field_rel K F)"
  "\<forall>w. f \<noteq> K w \<Longrightarrow> field_rel K (insert (c, f) F) = field_rel K F"
  by (auto simp: field_rel_def dest: injD)

lemma map_facts_add:
  "inj K \<Longrightarrow> map_facts K F m \<Longrightarrow> map_facts K (insert (c, K k) F) (hm_add k c m)"
  "\<forall>w. f \<noteq> K w \<Longrightarrow> map_facts K (insert (c, f) F) m = map_facts K F m"
  by (auto simp: map_facts_def dest: injD)

lemma tree_facts_add:
  "inj K \<Longrightarrow> tree_facts K F m \<Longrightarrow> tree_facts K (insert (c, K k) F) (bt_add k c m)"
  "\<forall>w. f \<noteq> K w \<Longrightarrow> tree_facts K (insert (c, f) F) m = tree_facts K F m"
  by (auto simp: tree_facts_def bt_wf_add dest: injD)

lemma inj_facts [simp]:
  "inj FTag" "inj FTitle" "inj FLabel" "inj FUser" "inj FService" "inj FHost" "inj FTrace" "inj FParent"
  "inj FRoot" "inj FCreated" "inj FDepth"
  by (simp_all add: inj_def)

named_theorems index_ops \<open>definitions of the single-field indexing operations\<close>

declare index_tag_def [index_ops] index_title_def [index_ops] index_label_def [index_ops]
  index_user_def [index_ops] index_service_def [index_ops] index_host_def [index_ops]
  index_trace_def [index_ops] index_parent_def [index_ops] index_root_def [index_ops]

lemma idx_facts_add:
  assumes "idx_facts lower F ix"
  shows "idx_facts lower (insert (c, FTag s) F) (index_tag lower c s ix)"
    and "idx_facts lower (insert (c, FTitle s) F) (index_title lower c s ix)"
    and "idx_facts lower (insert (c, FLabel s) F) (index_label c s ix)"
    and "idx_facts lower (insert (c, FUser s) F) (index_user lower c s ix)"
    and "idx_facts lower (insert (c, FService s) F) (index_service lower c s ix)"
    and "idx_facts lower (insert (c, FHost s) F) (index_host c s ix)"
    and "idx_facts lower (insert (c, FTrace s) F) (index_trace c s ix)"
    and "idx_facts lower (insert (c, FParent p) F) (index_parent c p ix)"
    and "idx_facts lower (insert (c, FRoot p) F) (index_root c p ix)"
  using assms by (auto simp: idx_facts_def index_ops str_facts_add map_facts_add tree_facts_add)

lemma idx_facts_new: "idx_facts lower {} idx_new"
  by (simp add: idx_facts_def idx_new_def empty_str_index_def str_facts_def map_facts_def tree_facts_def bt_wf_def field_rel_def)

subsection \<open>Adding a context\<close>

lemma idx_facts_opt:
  assumes "idx_facts lower F ix" and "\<And>v G jx. idx_facts lower G jx \<Longrightarrow> idx_facts lower (insert (c, K v) G) (f v jx)"
  shows "idx_facts lower (F \<union> {c} \<times> K ` set_option m) (opt_do f m ix)"
  using assms by (cases m) (simp_all add: opt_do_def)

lemma idx_facts_labels:
  "idx_facts lower F ix \<Longrightarrow> idx_facts lower (F \<union> {c} \<times> FLabel ` set ls) (fold (index_label c) ls ix)"
proof (induction ls arbitrary: F ix)
  case (Cons l ls)
  have "insert (c, FLabel l) F \<union> {c} \<times> FLabel ` set ls = F \<union> {c} \<times> FLabel ` set (l # ls)" by auto
  with Cons.IH [OF idx_facts_add(3) [OF Cons.prems, of c l]] show ?case by simp
qed simp

lemma idx_facts_provenance:
  assumes "idx_facts lower F ix"
  shows "idx_facts lower (F \<union> {c} \<times> prov_facts p) (index_provenance lower c p ix)"
proof -
  note step = idx_facts_opt [where c = c]
  from assms have "idx_facts lower ((((((F \<union> {c} \<times> FUser ` set_option (pv_on_behalf_of p))
      \<union> {c} \<times> FService ` set_option (pv_service_name p)) \<union> {c} \<times> FHost ` set_option (pv_host_name p))
      \<union> {c} \<times> FTrace ` set_option (pv_trace_id p)) \<union> {c} \<times> FParent ` set_option (pv_parent_context_id p))
      \<union> {c} \<times> FRoot ` set_option (pv_root_context_id p)) (index_provenance lower c p ix)"
    unfolding index_provenance_def by (intro step idx_facts_add)
  moreover have "F \<union> {c} \<times> prov_facts p = ((((((F \<union> {c} \<times> FUser ` set_option (pv_on_behalf_of p))
      \<union> {c} \<times> FService ` set_option (pv_service_name p)) \<union> {c} \<times> FHost ` set_option (pv_host_name p))
      \<union> {c} \<times> FTrace ` set_option (pv_trace_id p)) \<union> {c} \<times> FParent ` set_option (pv_parent_context_id p))
      \<union> {c} \<times> FRoot ` set_option (pv_root_context_id p))"
    by (simp add: prov_facts_def Sigma_Un_distrib2 Un_assoc)
  ultimately show ?thesis by simp
qed

lemma idx_facts_metadata:
  assumes "idx_facts lower F ix"
  shows "idx_facts lower (F \<union> {c} \<times> meta_facts md) (index_metadata lower c md ix)"
proof -
  let ?F1 = "(F \<union> {c} \<times> FTag ` set_option (cm_client_tag md)) \<union> {c} \<times> FTitle ` set_option (cm_title md)"
  let ?ix1 = "opt_do (index_title lower c) (cm_title md) (opt_do (index_tag lower c) (cm_client_tag md) ix)"
  let ?F2 = "?F1 \<union> {c} \<times> (\<Union>ls\<in>set_option (cm_labels md). FLabel ` set ls)"
  have "idx_facts lower ?F1 ?ix1" using assms by (intro idx_facts_opt idx_facts_add)
  then have "idx_facts lower ?F2 (opt_do (fold (index_label c)) (cm_labels md) ?ix1)"
    using idx_facts_labels [of lower ?F1 ?ix1 c] by (cases "cm_labels md") (simp_all add: opt_do_def)
  then have "idx_facts lower (?F2 \<union> {c} \<times> (\<Union>p\<in>set_option (cm_provenance md). prov_facts p)) (index_metadata lower c md ix)"
    using idx_facts_provenance [of lower ?F2 _ c] by (cases "cm_provenance md") (simp_all add: opt_do_def index_metadata_def)
  moreover have "F \<union> {c} \<times> meta_facts md = ?F2 \<union> {c} \<times> (\<Union>p\<in>set_option (cm_provenance md). prov_facts p)"
    by (simp only: meta_facts_def Sigma_Un_distrib2 Un_assoc)
  ultimately show ?thesis by simp
qed

lemma str_facts_sort: "str_facts lower R (sort_str ix) = str_facts lower R ix"
  by (simp add: str_facts_def sort_str_def)

lemma idx_facts_sort [simp]: "idx_facts lower F (sort_indexes ix) = idx_facts lower F ix"
  by (simp add: idx_facts_def sort_indexes_def str_facts_sort)

lemma idx_sorted_sort [simp]: "idx_sorted (sort_indexes ix)"
  by (simp add: idx_sorted_def sort_indexes_def str_sorted_def sort_str_def)

lemma idx_facts_present:
  "idx_facts lower F ix \<Longrightarrow>
    idx_facts lower (insert (c, FPresent) F) (ix\<lparr>all_context_ids := insert c (all_context_ids ix)\<rparr>)"
  by (auto simp: idx_facts_def map_facts_add(2) tree_facts_add(2))

lemma idx_facts_head:
  "idx_facts lower F ix \<Longrightarrow>
    idx_facts lower (F \<union> {c} \<times> {FPresent, FCreated t, FDepth d}) (index_head c t d ix)"
proof -
  assume "idx_facts lower F ix"
  then have "idx_facts lower (insert (c, FDepth d) (insert (c, FCreated t) (insert (c, FPresent) F))) (index_head c t d ix)"
    by (auto simp: idx_facts_def index_head_def map_facts_add(2) tree_facts_add)
  moreover have "insert (c, FDepth d) (insert (c, FCreated t) (insert (c, FPresent) F)) = F \<union> {c} \<times> {FPresent, FCreated t, FDepth d}"
    by auto
  ultimately show ?thesis by simp
qed

definition add_facts :: "u64 \<Rightarrow> ContextMetadata option \<Rightarrow> u64 \<Rightarrow> u32 \<Rightarrow> facts" where
  "add_facts c md t d = {c} \<times> ({FPresent, FCreated t, FDepth d} \<union> (\<Union>m\<in>set_option md. meta_facts m))"

lemma idx_facts_add_context:
  assumes "idx_facts lower F ix"
  shows "idx_facts lower (F \<union> add_facts c md t d) (idx_add_context lower c md t d ix)"
proof -
  let ?ix = "ix\<lparr>all_context_ids := insert c (all_context_ids ix)\<rparr>"
  have 1: "idx_facts lower (insert (c, FPresent) F) ?ix" using assms by (rule idx_facts_present)
  then have 2: "idx_facts lower (insert (c, FPresent) F \<union> {c} \<times> (\<Union>m\<in>set_option md. meta_facts m))
      (case md of None \<Rightarrow> ?ix | Some m \<Rightarrow> sort_indexes (index_metadata lower c m ?ix))"
    using idx_facts_metadata [OF 1, of c] by (cases md) auto
  let ?jx = "case md of None \<Rightarrow> ?ix | Some m \<Rightarrow> sort_indexes (index_metadata lower c m ?ix)"
  have "idx_facts lower (insert (c, FDepth d) (insert (c, FCreated t)
      (insert (c, FPresent) F \<union> {c} \<times> (\<Union>m\<in>set_option md. meta_facts m)))) (idx_add_context lower c md t d ix)"
    using 2 unfolding idx_add_context_def Let_def
    by (auto simp: idx_facts_def map_facts_add(2) tree_facts_add simp del: Un_insert_left)
  moreover have "insert (c, FDepth d) (insert (c, FCreated t)
      (insert (c, FPresent) F \<union> {c} \<times> (\<Union>m\<in>set_option md. meta_facts m))) = F \<union> add_facts c md t d"
    by (auto simp: add_facts_def)
  ultimately show ?thesis by simp
qed

definition cached_facts :: "u64 \<times> ContextMetadata option \<Rightarrow> facts" where
  "cached_facts e = {fst e} \<times> ({FPresent} \<union> (\<Union>m\<in>set_option (snd e). meta_facts m))"

definition head_facts :: "ContextHead \<Rightarrow> facts" where
  "head_facts h = {ch_context_id h} \<times> {FPresent, FCreated (ch_created_at_unix_ms h), FDepth (ch_head_depth h)}"

lemma idx_facts_cached:
  assumes "idx_facts lower F ix"
  shows "idx_facts lower (F \<union> cached_facts e) (index_cached lower e ix)"
proof (cases "snd e")
  case None
  with idx_facts_present [OF assms, of "fst e"] show ?thesis
    by (simp add: index_cached_def opt_do_def cached_facts_def)
next
  case (Some m)
  have "insert (fst e, FPresent) F \<union> {fst e} \<times> meta_facts m = F \<union> cached_facts e"
    by (auto simp: cached_facts_def Some)
  with idx_facts_metadata [OF idx_facts_present [OF assms, of "fst e"], of "fst e" m] Some show ?thesis
    by (simp add: index_cached_def opt_do_def)
qed

lemma idx_facts_fold:
  assumes "\<And>x G jx. idx_facts lower G jx \<Longrightarrow> idx_facts lower (G \<union> f x) (g x jx)"
  shows "idx_facts lower F ix \<Longrightarrow> idx_facts lower (F \<union> (\<Union>x\<in>set xs. f x)) (fold g xs ix)"
proof (induction xs arbitrary: F ix)
  case (Cons x xs)
  have "F \<union> f x \<union> (\<Union>y\<in>set xs. f y) = F \<union> (\<Union>y\<in>set (x # xs). f y)" by auto
  with Cons.IH [OF assms [OF Cons.prems, of x]] show ?case by simp
qed simp

lemma idx_facts_build:
  assumes "idx_facts lower F ix"
  shows "idx_facts lower (F \<union> (\<Union>e\<in>set (it cache). cached_facts e) \<union> (\<Union>h\<in>set hds. head_facts h))
    (build_from_cache lower it cache hds ix)"
  unfolding build_from_cache_def idx_facts_sort
  by (intro idx_facts_fold assms idx_facts_cached) (simp only: head_facts_def idx_facts_head)

lemma idx_sorted_add:
  assumes "idx_sorted ix"
  shows "idx_sorted (idx_add_context lower c md t d ix)"
proof -
  have "idx_sorted (jx\<lparr>created_btree := a, depth_btree := b\<rparr>) = idx_sorted jx" for jx a b
    by (simp add: idx_sorted_def)
  moreover have "idx_sorted (ix\<lparr>all_context_ids := a\<rparr>)" for a using assms by (simp add: idx_sorted_def)
  ultimately show ?thesis by (cases md) (simp_all add: idx_add_context_def Let_def)
qed

text \<open>
  The indexes a store can have: built from the metadata cache and the heads when it opens, then
  extended context by context; \<open>F\<close> collects the facts.
\<close>

inductive idx_reach :: "(string \<Rightarrow> string) \<Rightarrow> facts \<Rightarrow> SecondaryIndexes \<Rightarrow> bool" for lower where
  build: "idx_reach lower ((\<Union>e\<in>set (it cache). cached_facts e) \<union> (\<Union>h\<in>set hds. head_facts h))
    (build_from_cache lower it cache hds idx_new)"
| add: "idx_reach lower F ix \<Longrightarrow>
    idx_reach lower (F \<union> add_facts c md t d) (idx_add_context lower c md t d ix)"

lemma idx_reach_ok: "idx_reach lower F ix \<Longrightarrow> idx_facts lower F ix \<and> idx_sorted ix"
proof (induction rule: idx_reach.induct)
  case (build it cache hds)
  from idx_facts_build [OF idx_facts_new] show ?case by (fastforce simp: build_from_cache_def)
next
  case (add F ix c md t d)
  then show ?case by (simp add: idx_facts_add_context idx_sorted_add)
qed

section \<open>Lookups as queries on the facts\<close>

lemma str_lookups:
  assumes "str_facts lower (field_rel K F) ix" and "str_sorted ix"
  shows "str_exact ix s = {c. (c, K s) \<in> F}"
    and "str_exact_ci lower ix s = {c. \<exists>t. lower t = lower s \<and> (c, K t) \<in> F}"
    and "str_prefix ix s = {c. \<exists>t. starts_with t s \<and> (c, K t) \<in> F}"
    and "str_prefix_ci lower ix s = {c. \<exists>t. starts_with (lower t) (lower s) \<and> (c, K t) \<in> F}"
  using assms
  by (auto simp: str_facts_def str_sorted_def str_exact_def str_exact_ci_def str_prefix_def str_prefix_ci_def
      prefix_search_set field_rel_def)

lemma tree_lookups:
  assumes "tree_facts K F m"
  shows "bt_range P m = {c. \<exists>k. P k \<and> (c, K k) \<in> F}" and "bt_get m k = {c. (c, K k) \<in> F}"
  using assms by (auto simp: tree_facts_def bt_range_rel bt_get_rel)

lemma idx_lookups:
  assumes "idx_facts lower F ix" and "idx_sorted ix"
  shows "lookup_label_exact ix s = {c. (c, FLabel s) \<in> F}"
    and "lookup_host_exact ix s = {c. (c, FHost s) \<in> F}"
    and "lookup_host_prefix ix s = {c. \<exists>t. starts_with t s \<and> (c, FHost t) \<in> F}"
    and "lookup_trace_id_exact ix s = {c. (c, FTrace s) \<in> F}"
    and "lookup_parent_exact ix p = {c. (c, FParent p) \<in> F}"
    and "lookup_root_exact ix p = {c. (c, FRoot p) \<in> F}"
  using assms
  by (auto simp: idx_facts_def idx_sorted_def map_facts_def lookup_label_exact_def lookup_host_exact_def
      lookup_host_prefix_def lookup_trace_id_exact_def lookup_parent_exact_def lookup_root_exact_def prefix_search_set)

end
