(* ===== verification/Cql_Props.thy ===== *)
theory Cql_Props
  imports Cql_Executor Cql_Facts
begin

text \<open>
  Correctness of the query executor: a reference semantics that looks at one context's facts at a
  time (\<open>sat\<close>), and the theorem that the index-based executor computes exactly the contexts that
  satisfy the query.
\<close>

section \<open>Reference semantics\<close>

text \<open>The values a context has for a field, and whether it is indexed at all.\<close>

definition vals :: "('a \<Rightarrow> fact) \<Rightarrow> facts \<Rightarrow> u64 \<Rightarrow> 'a set" where
  "vals K F c = {v. (c, K v) \<in> F}"

definition present :: "facts \<Rightarrow> u64 \<Rightarrow> bool" where
  "present F c \<longleftrightarrow> (c, FPresent) \<in> F"

text \<open>A string field with values \<open>V\<close>; \<open>norm\<close> is what the case-insensitive operators compare.\<close>

fun str_sat :: "(string \<Rightarrow> string) \<Rightarrow> bool \<Rightarrow> string set \<Rightarrow> Operator \<Rightarrow> cql_value \<Rightarrow> bool" where
  "str_sat norm pres V Eq v \<longleftrightarrow> (case as_string v of None \<Rightarrow> False | Some s \<Rightarrow> s \<in> V)"
| "str_sat norm pres V Neq v \<longleftrightarrow> (case as_string v of None \<Rightarrow> False | Some s \<Rightarrow> pres \<and> s \<notin> V)"
| "str_sat norm pres V EqCi v \<longleftrightarrow> (case as_string v of None \<Rightarrow> False | Some s \<Rightarrow> norm s \<in> norm ` V)"
| "str_sat norm pres V Starts v \<longleftrightarrow> (case as_string v of None \<Rightarrow> False | Some s \<Rightarrow> \<exists>t\<in>V. starts_with t s)"
| "str_sat norm pres V StartsCi v \<longleftrightarrow>
     (case as_string v of None \<Rightarrow> False | Some s \<Rightarrow> \<exists>t\<in>V. starts_with (norm t) (norm s))"
| "str_sat norm pres V In v \<longleftrightarrow>
     (case as_list v of None \<Rightarrow> False | Some vs \<Rightarrow> \<exists>w\<in>set vs. \<exists>s\<in>set_option (as_string w). s \<in> V)"
| "str_sat norm pres V _ v \<longleftrightarrow> False"

text \<open>A field compared for equality only.\<close>

fun eq_sat :: "(cql_value \<Rightarrow> 'a option) \<Rightarrow> bool \<Rightarrow> 'a set \<Rightarrow> Operator \<Rightarrow> cql_value \<Rightarrow> bool" where
  "eq_sat get pres V Eq v \<longleftrightarrow> (case get v of None \<Rightarrow> False | Some a \<Rightarrow> a \<in> V)"
| "eq_sat get pres V Neq v \<longleftrightarrow> (case get v of None \<Rightarrow> False | Some a \<Rightarrow> pres \<and> a \<notin> V)"
| "eq_sat get pres V In v \<longleftrightarrow>
     (case as_list v of None \<Rightarrow> False | Some vs \<Rightarrow> \<exists>w\<in>set vs. \<exists>a\<in>set_option (get w). a \<in> V)"
| "eq_sat get pres V _ v \<longleftrightarrow> False"

text \<open>A field compared in an order.\<close>

fun ord_sat :: "bool \<Rightarrow> 'a::linorder set \<Rightarrow> Operator \<Rightarrow> 'a option \<Rightarrow> bool" where
  "ord_sat pres V op None \<longleftrightarrow> False"
| "ord_sat pres V Eq (Some t) \<longleftrightarrow> t \<in> V"
| "ord_sat pres V Neq (Some t) \<longleftrightarrow> pres \<and> t \<notin> V"
| "ord_sat pres V Gt (Some t) \<longleftrightarrow> (\<exists>k\<in>V. t < k)"
| "ord_sat pres V Gte (Some t) \<longleftrightarrow> (\<exists>k\<in>V. t \<le> k)"
| "ord_sat pres V Lt (Some t) \<longleftrightarrow> (\<exists>k\<in>V. k < t)"
| "ord_sat pres V Lte (Some t) \<longleftrightarrow> (\<exists>k\<in>V. k \<le> t)"
| "ord_sat pres V _ (Some t) \<longleftrightarrow> False"

definition ok :: "'e + 'a \<Rightarrow> 'a option" where
  "ok r = (case r of Inl _ \<Rightarrow> None | Inr a \<Rightarrow> Some a)"

fun field_sat :: "cql_env \<Rightarrow> facts \<Rightarrow> u64 set \<Rightarrow> FieldName \<Rightarrow> Operator \<Rightarrow> cql_value \<Rightarrow> u64 \<Rightarrow> bool" where
  "field_sat env F live Id op v c \<longleftrightarrow> present F c \<and> eq_sat as_u64 True {c} op v"
| "field_sat env F live Tag op v c \<longleftrightarrow> str_sat (env_lower env) (present F c) (vals FTag F c) op v"
| "field_sat env F live Title op v c \<longleftrightarrow> str_sat (env_lower env) (present F c) (vals FTitle F c) op v"
| "field_sat env F live Label op v c \<longleftrightarrow> eq_sat as_string (present F c) (vals FLabel F c) op v"
| "field_sat env F live User op v c \<longleftrightarrow> str_sat (env_lower env) (present F c) (vals FUser F c) op v"
| "field_sat env F live Service op v c \<longleftrightarrow> str_sat (env_lower env) (present F c) (vals FService F c) op v"
| "field_sat env F live Host op v c \<longleftrightarrow> str_sat id (present F c) (vals FHost F c) op v"
| "field_sat env F live TraceId op v c \<longleftrightarrow> op \<noteq> In \<and> eq_sat as_string (present F c) (vals FTrace F c) op v"
| "field_sat env F live Parent op v c \<longleftrightarrow> eq_sat as_u64 (present F c) (vals FParent F c) op v"
| "field_sat env F live Root op v c \<longleftrightarrow> eq_sat as_u64 (present F c) (vals FRoot F c) op v"
| "field_sat env F live Created op v c \<longleftrightarrow> ord_sat (present F c) (vals FCreated F c) op (ok (parse_date_value env v))"
| "field_sat env F live Depth op v c \<longleftrightarrow> ord_sat (present F c) (vals FDepth F c) op (map_option ucast (as_u64 v))"
| "field_sat env F live IsLive op v c \<longleftrightarrow>
     op = Eq \<and> (case v of VString s \<Rightarrow> if s = ''true'' then c \<in> live else present F c \<and> c \<notin> live | _ \<Rightarrow> False)"

fun sat :: "cql_env \<Rightarrow> facts \<Rightarrow> u64 set \<Rightarrow> Expression \<Rightarrow> u64 \<Rightarrow> bool" where
  "sat env F live (ExprAnd l r) c \<longleftrightarrow> sat env F live l c \<and> sat env F live r c"
| "sat env F live (ExprOr l r) c \<longleftrightarrow> sat env F live l c \<or> sat env F live r c"
| "sat env F live (ExprNot e) c \<longleftrightarrow> present F c \<and> \<not> sat env F live e c"
| "sat env F live (Comparison field op v) c \<longleftrightarrow>
     (case field_from_str field of None \<Rightarrow> False | Some f \<Rightarrow> field_sat env F live f op v c)"

section \<open>The executor against the semantics\<close>

lemma in_union_eq: "in_union get f vs = (\<Union>w\<in>set vs. \<Union>a\<in>set_option (get w). f a)"
proof -
  have "fold (\<lambda>v result. case get v of Some a \<Rightarrow> result \<union> f a | None \<Rightarrow> result) vs R =
      R \<union> (\<Union>w\<in>set vs. \<Union>a\<in>set_option (get w). f a)" for R
    by (induction vs arbitrary: R) (auto split: option.split)
  then show ?thesis by (simp add: in_union_def)
qed

lemma all_context_ids_facts: "idx_facts lower F ix \<Longrightarrow> all_context_ids ix = {c. present F c}"
  by (simp add: idx_facts_def present_def)

lemma in_union_mem: "c \<in> in_union get f vs \<longleftrightarrow> (\<exists>w\<in>set vs. \<exists>a\<in>set_option (get w). c \<in> f a)"
  by (simp add: in_union_eq)

text \<open>The string fields, what they index and how they normalise.\<close>

fun sf_fact :: "StringField \<Rightarrow> string \<Rightarrow> fact" where
  "sf_fact SF_Tag = FTag"
| "sf_fact SF_Title = FTitle"
| "sf_fact SF_User = FUser"
| "sf_fact SF_Service = FService"
| "sf_fact SF_Host = FHost"

fun sf_norm :: "(string \<Rightarrow> string) \<Rightarrow> StringField \<Rightarrow> string \<Rightarrow> string" where
  "sf_norm lower SF_Host = id"
| "sf_norm lower _ = lower"

lemma sf_lookups:
  assumes "idx_facts lower F ix" and "idx_sorted ix"
  shows "sf_exact ix f s = {c. (c, sf_fact f s) \<in> F}"
    and "sf_exact_ci lower ix f s = {c. \<exists>t. sf_norm lower f t = sf_norm lower f s \<and> (c, sf_fact f t) \<in> F}"
    and "sf_prefix ix f s = {c. \<exists>t. starts_with t s \<and> (c, sf_fact f t) \<in> F}"
    and "sf_prefix_ci lower ix f s =
      {c. \<exists>t. starts_with (sf_norm lower f t) (sf_norm lower f s) \<and> (c, sf_fact f t) \<in> F}"
proof -
  from assms have t: "str_facts lower (field_rel FTag F) (tag_ix ix)" "str_sorted (tag_ix ix)"
    "str_facts lower (field_rel FTitle F) (title_ix ix)" "str_sorted (title_ix ix)"
    "str_facts lower (field_rel FUser F) (user_ix ix)" "str_sorted (user_ix ix)"
    "str_facts lower (field_rel FService F) (service_ix ix)" "str_sorted (service_ix ix)"
    by (simp_all add: idx_facts_def idx_sorted_def)
  note lk = str_lookups [OF t(1,2)] str_lookups [OF t(3,4)] str_lookups [OF t(5,6)] str_lookups [OF t(7,8)]
    idx_lookups [OF assms]
  show "sf_exact ix f s = {c. (c, sf_fact f s) \<in> F}"
    "sf_exact_ci lower ix f s = {c. \<exists>t. sf_norm lower f t = sf_norm lower f s \<and> (c, sf_fact f t) \<in> F}"
    "sf_prefix ix f s = {c. \<exists>t. starts_with t s \<and> (c, sf_fact f t) \<in> F}"
    "sf_prefix_ci lower ix f s =
      {c. \<exists>t. starts_with (sf_norm lower f t) (sf_norm lower f s) \<and> (c, sf_fact f t) \<in> F}"
    by (cases f; simp add: lk)+
qed

text \<open>The lookups in the terms of the semantics.\<close>

lemma vals_conv:
  "{c. (c, K s) \<in> F} = {c. s \<in> vals K F c}"
  "{c. \<exists>t. P t \<and> (c, K t) \<in> F} = {c. \<exists>t\<in>vals K F c. P t}"
  by (auto simp: vals_def)

lemma vals_conv_image: "{c. \<exists>t. n t = n s \<and> (c, K t) \<in> F} = {c. n s \<in> n ` vals K F c}"
proof -
  have "(\<exists>t. n t = n s \<and> (c, K t) \<in> F) \<longleftrightarrow> n s \<in> n ` vals K F c" for c
    unfolding vals_def image_iff by (metis mem_Collect_eq)
  then show ?thesis by blast
qed

lemma str_field_sound:
  assumes "execute_string_field lower op v ix f = Inr R" and "idx_facts lower F ix" and "idx_sorted ix"
  shows "R = {c. str_sat (sf_norm lower f) (present F c) (vals (sf_fact f) F c) op v}"
proof -
  note lk = sf_lookups(1,3,4) [OF assms(2,3), unfolded vals_conv] sf_lookups(2) [OF assms(2,3), unfolded vals_conv_image]
    all_context_ids_facts [OF assms(2)]
  show ?thesis
  proof (cases op)
    case In
    with assms(1) show ?thesis by (clarsimp simp: execute_string_field_def) (simp add: in_union_mem lk set_eq_iff)
  qed (use assms(1) in \<open>clarsimp simp: execute_string_field_def; simp add: lk Collect_conj_eq Collect_neg_eq Diff_eq\<close>)+
qed

named_theorems exec_defs \<open>definitions of the field executors\<close>

declare execute_id_def [exec_defs] execute_label_def [exec_defs] execute_trace_id_def [exec_defs]
  execute_parent_def [exec_defs] execute_root_def [exec_defs] execute_created_def [exec_defs]
  execute_depth_def [exec_defs] execute_is_live_def [exec_defs]

text \<open>One equality-compared field with lookup \<open>look\<close>.\<close>

definition eq_exec :: "(cql_value \<Rightarrow> 'a option) \<Rightarrow> ('a \<Rightarrow> u64 set) \<Rightarrow> u64 set \<Rightarrow> Operator \<Rightarrow> cql_value \<Rightarrow> u64 set option" where
  "eq_exec get look al op v =
     (case op of
        Eq \<Rightarrow> map_option look (get v)
      | Neq \<Rightarrow> map_option (\<lambda>a. al - look a) (get v)
      | In \<Rightarrow> map_option (in_union get look) (as_list v)
      | _ \<Rightarrow> None)"

lemma eq_exec_sound:
  assumes "eq_exec get look {c. present F c} op v = Some R" and "\<And>a. look a = {c. a \<in> V c}"
  shows "R = {c. eq_sat get (present F c) (V c) op v}"
proof (cases op)
  case In
  with assms(1) show ?thesis by (clarsimp simp: eq_exec_def) (simp add: in_union_mem assms(2) set_eq_iff)
qed (use assms(1) in \<open>auto simp: eq_exec_def assms(2)\<close>)

lemma eq_fields_exec:
  "execute_label op v ix = Inr R \<Longrightarrow> eq_exec as_string (lookup_label_exact ix) (all_context_ids ix) op v = Some R"
  "execute_trace_id op v ix = Inr R \<Longrightarrow>
    op \<noteq> In \<and> eq_exec as_string (lookup_trace_id_exact ix) (all_context_ids ix) op v = Some R"
  "execute_parent op v ix = Inr R \<Longrightarrow> eq_exec as_u64 (lookup_parent_exact ix) (all_context_ids ix) op v = Some R"
  "execute_root op v ix = Inr R \<Longrightarrow> eq_exec as_u64 (lookup_root_exact ix) (all_context_ids ix) op v = Some R"
  by (cases op; auto simp: exec_defs eq_exec_def)+

lemma execute_id_sound:
  assumes "execute_id op v ix = Inr R" and "idx_facts lower F ix"
  shows "R = {c. present F c \<and> eq_sat as_u64 True {c} op v}"
proof (cases op)
  case In
  with assms show ?thesis
    by (clarsimp simp: exec_defs all_context_ids_facts) (auto simp: in_union_mem set_eq_iff split: if_splits)
qed (use assms in \<open>auto simp: exec_defs all_context_ids_facts split: if_splits\<close>)

lemma ord_fields_sound:
  assumes "idx_facts lower F ix"
  shows "execute_created env op v ix = Inr R \<Longrightarrow>
      R = {c. ord_sat (present F c) (vals FCreated F c) op (ok (parse_date_value env v))}"
    and "execute_depth op v ix = Inr R \<Longrightarrow>
      R = {c. ord_sat (present F c) (vals FDepth F c) op (map_option ucast (as_u64 v))}"
proof -
  have tr: "tree_facts FCreated F (created_btree ix)" "tree_facts FDepth F (depth_btree ix)"
    using assms by (simp_all add: idx_facts_def)
  note lk = tree_lookups [OF tr(1), unfolded vals_conv] tree_lookups [OF tr(2), unfolded vals_conv]
    lookup_created_eq_def lookup_created_gt_def lookup_created_gte_def lookup_created_lt_def lookup_created_lte_def
    lookup_depth_eq_def lookup_depth_gt_def lookup_depth_gte_def lookup_depth_lt_def lookup_depth_lte_def
    all_context_ids_facts [OF assms]
  show "R = {c. ord_sat (present F c) (vals FCreated F c) op (ok (parse_date_value env v))}"
    if "execute_created env op v ix = Inr R"
    using that by (cases op) (auto simp: exec_defs ok_def lk)
  show "R = {c. ord_sat (present F c) (vals FDepth F c) op (map_option ucast (as_u64 v))}"
    if "execute_depth op v ix = Inr R"
    using that by (cases op) (auto simp: exec_defs Let_def lk)
qed

lemma is_live_sound:
  assumes "execute_is_live op v live ix = Inr R" and "idx_facts lower F ix"
  shows "R = {c. field_sat env F live IsLive op v c}"
  using assms by (cases v) (auto simp: exec_defs all_context_ids_facts split: if_splits)

lemma comparison_sound:
  assumes ex: "execute_comparison env field op v ix live = Inr R"
    and ix: "idx_facts (env_lower env) F ix" "idx_sorted ix"
  shows "R = {c. sat env F live (Comparison field op v) c}"
proof (cases "field_from_str field")
  case None
  with ex show ?thesis by (simp add: execute_comparison_def)
next
  case (Some f)
  note all = all_context_ids_facts [OF ix(1)]
  note lk = idx_lookups [OF ix, unfolded vals_conv]
  show ?thesis
  proof (cases f)
    case Id
    with ex Some execute_id_sound [OF _ ix(1)] show ?thesis by (simp add: execute_comparison_def)
  next
    case Label
    with ex Some eq_exec_sound [OF eq_fields_exec(1) [of op v ix R, unfolded all] lk(1)]
    show ?thesis by (simp add: execute_comparison_def)
  next
    case TraceId
    with ex Some have "execute_trace_id op v ix = Inr R" by (simp add: execute_comparison_def)
    from eq_fields_exec(2) [OF this, unfolded all] eq_exec_sound [OF _ lk(4)] TraceId Some show ?thesis by simp
  next
    case Parent
    with ex Some eq_exec_sound [OF eq_fields_exec(3) [of op v ix R, unfolded all] lk(5)]
    show ?thesis by (simp add: execute_comparison_def)
  next
    case Root
    with ex Some eq_exec_sound [OF eq_fields_exec(4) [of op v ix R, unfolded all] lk(6)]
    show ?thesis by (simp add: execute_comparison_def)
  next
    case Created
    with ex Some ord_fields_sound(1) [OF ix(1)] show ?thesis by (simp add: execute_comparison_def)
  next
    case Depth
    with ex Some ord_fields_sound(2) [OF ix(1)] show ?thesis by (simp add: execute_comparison_def)
  next
    case IsLive
    with ex Some is_live_sound [OF _ ix(1), of op v live R env] show ?thesis by (simp add: execute_comparison_def)
  qed (use ex Some str_field_sound [OF _ ix] in \<open>force simp: execute_comparison_def\<close>)+
qed

lemma execute_sound:
  assumes "idx_facts (env_lower env) F ix" and "idx_sorted ix"
  shows "execute env e ix live = Inr R \<Longrightarrow> R = {c. sat env F live e c}"
proof (induction e arbitrary: R)
  case (Comparison field op v)
  then show ?case using comparison_sound [OF _ assms] by simp
qed (auto simp: all_context_ids_facts [OF assms(1)])

text \<open>Whether a query is accepted, and the error if not, is a matter of the query alone.\<close>

lemma field_errors:
  "execute_string_field lower op v ix f = Inl err \<Longrightarrow> execute_string_field lower op v jx f = Inl err"
  "execute_id op v ix = Inl err \<Longrightarrow> execute_id op v jx = Inl err"
  "execute_label op v ix = Inl err \<Longrightarrow> execute_label op v jx = Inl err"
  "execute_trace_id op v ix = Inl err \<Longrightarrow> execute_trace_id op v jx = Inl err"
  "execute_parent op v ix = Inl err \<Longrightarrow> execute_parent op v jx = Inl err"
  "execute_root op v ix = Inl err \<Longrightarrow> execute_root op v jx = Inl err"
  "execute_created env op v ix = Inl err \<Longrightarrow> execute_created env op v jx = Inl err"
  "execute_depth op v ix = Inl err \<Longrightarrow> execute_depth op v jx = Inl err"
  by (cases op; auto simp: exec_defs execute_string_field_def rbind_eq_Inl ok_or_eq_Inl Let_def)+

lemma is_live_error: "execute_is_live op v live ix = Inl err \<Longrightarrow> execute_is_live op v live' jx = Inl err"
  by (auto simp: exec_defs split: cql_value.splits if_splits)

lemma comparison_error:
  assumes "execute_comparison env field op v ix live = Inl err"
  shows "execute_comparison env field op v jx live' = Inl err"
proof (cases "field_from_str field")
  case (Some f)
  with assms field_errors [where ix = ix and jx = jx] is_live_error [where ix = ix and jx = jx] show ?thesis
    by (cases f) (auto simp: execute_comparison_def)
qed (use assms in \<open>simp add: execute_comparison_def\<close>)

definition err_of :: "'e + 'a \<Rightarrow> 'e option" where
  "err_of r = (case r of Inl e \<Rightarrow> Some e | Inr _ \<Rightarrow> None)"

lemma err_of_simps [simp]: "err_of (Inl e) = Some e" "err_of (Inr a) = None"
  by (simp_all add: err_of_def)

lemma err_of_rbind_Inr [simp]: "err_of (rbind m (\<lambda>a. Inr (g a))) = err_of m"
  by (cases m) simp_all

lemma err_of_rbind2:
  "err_of (rbind m (\<lambda>a. rbind n (\<lambda>b. Inr (g a b)))) = (case err_of m of Some e \<Rightarrow> Some e | None \<Rightarrow> err_of n)"
  by (cases m) simp_all

lemma comparison_err_of:
  "err_of (execute_comparison env field op v ix live) = err_of (execute_comparison env field op v jx live')"
  using comparison_error [of env field op v ix live _ jx live'] comparison_error [of env field op v jx live' _ ix live]
  by (cases "execute_comparison env field op v ix live"; cases "execute_comparison env field op v jx live'") auto

lemma execute_err_of: "err_of (execute env e ix live) = err_of (execute env e jx live')"
  by (induction e)
     (simp_all add: err_of_rbind2 comparison_err_of [of env _ _ _ ix live jx live'] split: option.split)

section \<open>Witness\<close>

definition demo_env :: cql_env where
  "demo_env = \<lparr>env_lower = id, env_rel_captures = (\<lambda>s. if s = ''-30000d'' then Some (dec_str 30000, ''d'') else None),
     env_rfc3339 = (\<lambda>_. None), env_ymd = (\<lambda>_. None), env_now = 1700000000000\<rparr>"

definition demo_md :: ContextMetadata where
  "demo_md = default_metadata\<lparr>cm_client_tag := Some ''amp'', cm_labels := Some [''x'']\<rparr>"

definition demo_ix :: SecondaryIndexes where
  "demo_ix = idx_add_context id 2 None 60 0
     (idx_add_context id 1 (Some demo_md) 50 0 (build_from_cache id (\<lambda>_. []) Map.empty [] idx_new))"

lemma demo_ix_reach: "idx_reach id ({} \<union> add_facts 1 (Some demo_md) 50 0 \<union> add_facts 2 None 60 0) demo_ix"
  using idx_reach.add [OF idx_reach.add [OF idx_reach.build [of id "\<lambda>_. []" Map.empty "[]"],
      of 1 "Some demo_md" 50 0], of 2 None 60 0]
  by (simp add: demo_ix_def)

section \<open>Properties\<close>



text \<open>Whether a query is rejected, and with which error, depends on the query alone, never on the
  indexed contexts or the live ones.\<close>

theorem cql_errors_static:
  "err_of (execute env e ix live) = err_of (execute env e jx live')"
  by (rule execute_err_of)

text \<open>The binary search for a prefix finds exactly the entries that start with it, in every sorted
  index list.\<close>

theorem prefix_search_exact:
  assumes "sorted (map fst xs)"
  shows "prefix_search xs p = {c. \<exists>s. (s, c) \<in> set xs \<and> (\<exists>t. s = p @ t)}"
  using prefix_search_set [OF assms, of p] by (simp add: starts_with_iff)

theorem prefix_search_exact_witness:
  "prefix_search [(''a'', 1), (''am'', 2), (''amp'', 3), (''b'', 4)] ''am'' = {2, 3}"
proof -
  have "sorted (map fst [(''a'', 1 :: u64), (''am'', 2), (''amp'', 3), (''b'', 4)])" by code_simp
  from prefix_search_exact [OF this, of "''am''"] show ?thesis by auto
qed

text \<open>A relative date that reaches back before the epoch wraps around to a time in the future, so that
  \<^verbatim>\<open>created >\<close> with such a date, which should select every context, compares with a huge
  timestamp instead.\<close>

theorem relative_date_wraps:
  assumes "env_rel_captures env s = Some (dec_str n, ''d'')" and "n * 86400000 < 2 ^ 64"
    and "unat (env_now env) < n * 86400000"
  shows "\<exists>ts. parse_relative_date env s = Inr ts \<and> env_now env < ts"
proof -
  let ?a = "of_nat n :: u64"
  have n: "n < 2 ^ 64" using assms(2) by simp
  then have p: "parse_u64 (dec_str n) = Some ?a" by (simp add: parse_u64_def parse_uint_dec_str)
  have "?a * 24 * 60 * 60 * 1000 = of_nat (n * 86400000)" by simp
  moreover have "unat (of_nat (n * 86400000) :: u64) = n * 86400000" using assms(2) by (simp only: unat_of_nat) simp
  ultimately have m: "unat (?a * 24 * 60 * 60 * 1000) = n * 86400000" by metis
  then have "env_now env < env_now env - ?a * 24 * 60 * 60 * 1000"
    using assms(2,3) by (simp add: word_less_nat_alt unat_sub_if_size word_size)
  with p assms(1) show ?thesis by (simp add: parse_relative_date_def)
qed

theorem relative_date_wraps_witness:
  "\<exists>ts. parse_relative_date demo_env ''-30000d'' = Inr ts \<and> 1700000000000 < ts"
  using relative_date_wraps [of demo_env "''-30000d''" 30000] by (simp add: demo_env_def)

end
