(* ===== verification/Store_Props.thy ===== *)
theory Store_Props
  imports Store Turn_Props Blob_Props Fs_Props Cql_Props
begin

text \<open>
  Properties of the store as a whole: every turn's payload is available and matches its hash, an
  append is read back with its payload, what failing appends leave behind, the descendants of a
  context, and where the metadata cache and the indexes fall behind the turn store.
\<close>

section \<open>What an append does\<close>

lemma st_append_turn_Inl_check:
  "check_payload env cmp len hash payload = Inl e \<Longrightarrow>
    st_append_turn env now s c p ty ver enc cmp len hash payload = (s, Inl e)"
  by (simp add: st_append_turn_def)

lemma put_if_absent_Inr: "\<exists>b e. put_if_absent crc zenc s h raw = (b, Inr e)"
  by (cases "index s h") (simp_all add: put_if_absent_eq Let_def)

lemma append_turn_head:
  "append_turn crc now s c p hash enc ty ver cmp len = (s', Inr r) \<Longrightarrow>
    heads s' c = Some (new_head c (tr_turn_id r) (tr_depth r) now)"
  by (auto elim!: append_turn_InrE)

text \<open>The state after an append whose payload is accepted: the blob is stored first, then the turn.\<close>

lemma st_append_turn_parts:
  assumes "check_payload env cmp len hash payload = Inr raw"
    and "st_append_turn env now s c p ty ver enc cmp len hash payload = (s', res)"
    and "append_turn (se_crc env) now (turn_store s) c p hash enc ty ver cmp len = (t, tres)"
  shows "blob_store s' = fst (put_if_absent (se_crc env) (se_zenc env) (blob_store s) hash raw)"
    and "turn_store s' = t" and "fs_roots s' = fs_roots s"
    and "tres = Inl e \<Longrightarrow> res = Inl e \<and> context_metadata_cache s' = context_metadata_cache s \<and>
      secondary_indexes s' = secondary_indexes s"
    and "tres = Inr r \<Longrightarrow> \<exists>md. res = Inr (r, md) \<and>
      md = (if context_metadata_cache s c = None then extract_context_metadata (se_read_value env) raw else None) \<and>
      context_metadata_cache s' = (if context_metadata_cache s c = None
        then (context_metadata_cache s)(c \<mapsto> extract_context_metadata (se_read_value env) raw)
        else context_metadata_cache s) \<and>
      secondary_indexes s' = (case md of None \<Rightarrow> secondary_indexes s
        | Some m \<Rightarrow> idx_add_context (se_lower env) c md now (tr_depth r) (secondary_indexes s))"
proof -
  obtain b e' where b: "put_if_absent (se_crc env) (se_zenc env) (blob_store s) hash raw = (b, Inr e')"
    using put_if_absent_Inr by blast
  let ?s = "s\<lparr>blob_store := b, turn_store := t\<rparr>"
  have hd: "get_head t c = Inr (new_head c (tr_turn_id r) (tr_depth r) now)" if "tres = Inr r" for r
    using assms(3) that by (auto dest: append_turn_head simp: get_head_def)
  show "blob_store s' = fst (put_if_absent (se_crc env) (se_zenc env) (blob_store s) hash raw)" "turn_store s' = t"
      "fs_roots s' = fs_roots s"
    using assms b hd
    by (auto simp: st_append_turn_def maybe_cache_metadata_def Let_def split: sum.splits option.splits)
  show "res = Inl e \<and> context_metadata_cache s' = context_metadata_cache s \<and> secondary_indexes s' = secondary_indexes s"
    if "tres = Inl e"
    using that assms b by (auto simp: st_append_turn_def Let_def)
  show "\<exists>md. res = Inr (r, md) \<and>
      md = (if context_metadata_cache s c = None then extract_context_metadata (se_read_value env) raw else None) \<and>
      context_metadata_cache s' = (if context_metadata_cache s c = None
        then (context_metadata_cache s)(c \<mapsto> extract_context_metadata (se_read_value env) raw)
        else context_metadata_cache s) \<and>
      secondary_indexes s' = (case md of None \<Rightarrow> secondary_indexes s
        | Some m \<Rightarrow> idx_add_context (se_lower env) c md now (tr_depth r) (secondary_indexes s))"
    if "tres = Inr r"
    using that assms b hd [OF that]
    by (auto simp: st_append_turn_def maybe_cache_metadata_def Let_def split: option.splits)
qed

lemma check_payload_InrD:
  "check_payload env cmp len hash payload = Inr raw \<Longrightarrow> se_blake3 env raw = hash \<and> len = of_nat (length raw)"
  by (auto simp: check_payload_def split: if_splits)

lemma st_append_InrE:
  assumes app: "st_append_turn env now s c p ty ver enc cmp len hash payload = (s', Inr (r, md))"
  obtains raw be where "check_payload env cmp len hash payload = Inr raw"
    and "append_turn (se_crc env) now (turn_store s) c p hash enc ty ver cmp len = (turn_store s', Inr r)"
    and "put_if_absent (se_crc env) (se_zenc env) (blob_store s) hash raw = (blob_store s', be)"
proof -
  obtain raw where ck: "check_payload env cmp len hash payload = Inr raw"
    using app by (cases "check_payload env cmp len hash payload") (auto simp: st_append_turn_Inl_check)
  obtain t tres where t: "append_turn (se_crc env) now (turn_store s) c p hash enc ty ver cmp len = (t, tres)"
    by (cases "append_turn (se_crc env) now (turn_store s) c p hash enc ty ver cmp len")
  note parts = st_append_turn_parts [OF ck app t]
  with t have "append_turn (se_crc env) now (turn_store s) c p hash enc ty ver cmp len = (turn_store s', Inr r)"
    by (cases tres) auto
  with ck parts(1) that show thesis by (metis prod.collapse)
qed

section \<open>The invariant\<close>

definition payloads_ok :: "store_env \<Rightarrow> Store \<Rightarrow> bool" where
  "payloads_ok env s \<longleftrightarrow>
     (\<forall>h v. sblob_get env s h = Inr v \<longrightarrow> se_blake3 env v = h) \<and>
     (\<forall>i r. turns (turn_store s) i = Some r \<longrightarrow> (\<exists>v. sblob_get env s (tr_payload_hash r) = Inr v))"

definition st_inv :: "store_env \<Rightarrow> Store \<Rightarrow> bool" where
  "st_inv env s \<longleftrightarrow>
     ts_inv (se_crc env) (turn_store s) \<and> blob_store_inv (se_crc env) (se_zenc env) (se_zdec env) (blob_store s) \<and>
     payloads_ok env s"

lemma st_inv_put:
  assumes "st_inv env s" and "blob_fits (blob_store s) h raw" and "se_blake3 env raw = h"
    and "b = fst (put_if_absent (se_crc env) (se_zenc env) (blob_store s) h raw)"
  shows "st_inv env (s\<lparr>blob_store := b\<rparr>) \<and> (\<exists>v. blob_get (se_crc env) (se_zdec env) b h = Inr v)"
proof -
  let ?crc = "se_crc env" and ?zenc = "se_zenc env" and ?zdec = "se_zdec env"
  have inv: "blob_store_inv ?crc ?zenc ?zdec (blob_store s)" using assms(1) by (simp add: st_inv_def)
  have "blob_store.addressed ?crc ?zdec (se_blake3 env) (blob_store s)"
    using assms(1) by (simp add: st_inv_def payloads_ok_def blob_store.addressed_def)
  from blob_store.put_addressed [OF inv assms(2) this assms(3)]
  have 1: "\<forall>k v. blob_get ?crc ?zdec b k = Inr v \<longrightarrow> se_blake3 env v = k"
    by (simp add: assms(4) blob_store.addressed_def)
  have 2: "\<forall>i r. turns (turn_store s) i = Some r \<longrightarrow> (\<exists>v. blob_get ?crc ?zdec b (tr_payload_hash r) = Inr v)"
    using assms(1) blob_store.put_keeps [OF inv assms(2)] unfolding assms(4) st_inv_def payloads_ok_def by blast
  have 3: "blob_store_inv ?crc ?zenc ?zdec b" "\<exists>v. blob_get ?crc ?zdec b h = Inr v"
    unfolding assms(4) by (rule blob_store.put_inv [OF inv assms(2)], rule blob_store.put_found [OF inv assms(2)])
  from 1 2 3 assms(1) show ?thesis by (simp add: st_inv_def payloads_ok_def)
qed

text \<open>What a caller of \<^verbatim>\<open>append_turn\<close> provides: a type name the length field can hold, and room in the pack
  file and in the turn numbers.\<close>

definition append_ok :: "store_env \<Rightarrow> Store \<Rightarrow> string \<Rightarrow> u32 \<Rightarrow> u32 \<Rightarrow> bytes \<Rightarrow> bytes \<Rightarrow> bool" where
  "append_ok env s ty cmp len hash payload \<longleftrightarrow>
     rust_string ty \<and> length ty < 2 ^ 32 \<and> unat (next_turn_id (turn_store s)) < 2 ^ 32 \<and>
     (case check_payload env cmp len hash payload of Inl _ \<Rightarrow> True | Inr raw \<Rightarrow> blob_fits (blob_store s) hash raw)"

lemma st_inv_append:
  assumes inv: "st_inv env s" and ok: "append_ok env s ty cmp len hash payload"
    and app: "st_append_turn env now s c p ty ver enc cmp len hash payload = (s', res)"
  shows "st_inv env s'"
proof (cases "check_payload env cmp len hash payload")
  case (Inl e)
  with app inv show ?thesis by (simp add: st_append_turn_Inl_check)
next
  case (Inr raw)
  obtain t tres where t: "append_turn (se_crc env) now (turn_store s) c p hash enc ty ver cmp len = (t, tres)"
    by (cases "append_turn (se_crc env) now (turn_store s) c p hash enc ty ver cmp len")
  note parts = st_append_turn_parts [OF Inr app t]
  have fits: "blob_fits (blob_store s) hash raw" using ok Inr by (simp add: append_ok_def)
  let ?b = "fst (put_if_absent (se_crc env) (se_zenc env) (blob_store s) hash raw)"
  from st_inv_put [OF inv fits _ refl] check_payload_InrD [OF Inr]
  have b: "st_inv env (s\<lparr>blob_store := ?b\<rparr>)" "\<exists>v. blob_get (se_crc env) (se_zdec env) ?b hash = Inr v" by auto
  have "ts_inv (se_crc env) t"
    using ts_inv_append [OF _ _ _ _ _ t] inv ok fits by (simp add: st_inv_def append_ok_def blob_fits_def)
  moreover have "\<exists>v. blob_get (se_crc env) (se_zdec env) ?b (tr_payload_hash r) = Inr v" if "turns t i = Some r" for i r
  proof (cases "turns (turn_store s) i = Some r")
    case True
    with b(1) show ?thesis by (simp add: st_inv_def payloads_ok_def)
  next
    case False
    with that t have "tr_payload_hash r = hash"
      by (cases tres) (auto dest: append_turn_Inl elim!: append_turn_InrE split: if_splits)
    with b(2) show ?thesis by simp
  qed
  ultimately show ?thesis using b(1) parts(1,2) by (simp add: st_inv_def payloads_ok_def)
qed

section \<open>Reachable stores\<close>

inductive st_reach :: "store_env \<Rightarrow> Store \<Rightarrow> bool" for env where
  start: "store_open env [] [] [] [] [] [] [] = Some (Inr s) \<Longrightarrow> st_reach env s"
| create: "st_reach env s \<Longrightarrow> st_create_context env now s base = (s', res) \<Longrightarrow> st_reach env s'"
| fork: "st_reach env s \<Longrightarrow> st_fork_context env now s base = (s', res) \<Longrightarrow> st_reach env s'"
| append: "st_reach env s \<Longrightarrow> append_ok env s ty cmp len hash payload \<Longrightarrow>
    st_append_turn env now s c p ty ver enc cmp len hash payload = (s', res) \<Longrightarrow> st_reach env s'"
| put_blob: "st_reach env s \<Longrightarrow> se_blake3 env raw = h \<Longrightarrow> blob_fits (blob_store s) h raw \<Longrightarrow>
    put_if_absent (se_crc env) (se_zenc env) (blob_store s) h raw = (b, res) \<Longrightarrow> st_reach env (s\<lparr>blob_store := b\<rparr>)"
| attach: "st_reach env s \<Longrightarrow> st_attach_fs env s t h = (s', res) \<Longrightarrow> st_reach env s'"
| metadata: "st_reach env s \<Longrightarrow> get_context_metadata env s c = Some (s', md) \<Longrightarrow> st_reach env s'"
| reopen: "st_reach env s \<Longrightarrow>
    store_open env (pack_file (blob_store s)) (idx_file (blob_store s)) (turns_log (turn_store s))
      (turns_idx (turn_store s)) (turns_meta (turn_store s)) (heads_tbl (turn_store s)) (fr_file (fs_roots s)) = Some (Inr s') \<Longrightarrow>
    st_reach env s'"

lemma get_context_metadata_stores:
  "get_context_metadata env s c = Some (s', md) \<Longrightarrow>
    turn_store s' = turn_store s \<and> blob_store s' = blob_store s \<and> fs_roots s' = fs_roots s \<and>
    secondary_indexes s' = secondary_indexes s"
  by (auto simp: get_context_metadata_def split: option.splits)

lemma cache_all_stores:
  "cache_all env hs s = Some s' \<Longrightarrow>
    turn_store s' = turn_store s \<and> blob_store s' = blob_store s \<and> fs_roots s' = fs_roots s \<and>
    secondary_indexes s' = secondary_indexes s"
  by (induction env hs s rule: cache_all.induct) (auto split: option.splits dest!: get_context_metadata_stores)

lemma idx_reach_build: "\<exists>F. idx_reach lower F (build_from_cache lower it cache hds idx_new)"
  by (rule exI) (rule idx_reach.build)

lemma store_open_parts:
  assumes "store_open env pack idx log tidx meta hds roots = Some (Inr s)"
  shows "blob_open pack idx = Inr (blob_store s)"
    and "ts_open (se_crc env) (se_it_index env) log tidx meta hds = Inr (turn_store s)"
    and "fs_open (se_crc env) roots = Inr (fs_roots s)"
    and "\<exists>F. idx_reach (se_lower env) F (secondary_indexes s)"
  using assms
  by (auto simp: store_open_def build_indexes_def Let_def idx_reach_build dest!: cache_all_stores split: sum.splits option.splits)

lemma st_inv_stores:
  "st_inv env s \<Longrightarrow> turn_store s' = turn_store s \<Longrightarrow> blob_store s' = blob_store s \<Longrightarrow> st_inv env s'"
  by (simp add: st_inv_def payloads_ok_def)

lemma st_inv_create:
  assumes "st_inv env s" and "create_context (se_crc env) now (turn_store s) base = (t, res)"
  shows "st_inv env (s\<lparr>turn_store := t\<rparr>)"
proof -
  have "turns t = turns (turn_store s)"
    using assms(2) by (auto simp: create_context_eq Let_def split: sum.splits)
  with assms ts_inv_create [OF _ assms(2)] show ?thesis by (simp add: st_inv_def payloads_ok_def)
qed

lemma ts_reopen_maps:
  "ts_inv crc s \<Longrightarrow> ts_open crc it (turns_log s) idx (turns_meta s) (heads_tbl s) = Inr s' \<Longrightarrow>
    turns s' = turns s \<and> turn_meta s' = turn_meta s \<and> heads s' = heads s"
  by (auto simp: ts_inv_def ts_open_synced)

lemma blob_open_emptyD: "blob_open [] [] = Inr b \<Longrightarrow> index b = Map.empty"
  by (auto simp: blob_open_empty)

lemma ts_open_fresh:
  assumes "ts_open crc it [] [] [] [] = Inr t"
  shows "ts_inv crc t \<and> turns t = Map.empty \<and> turn_meta t = Map.empty \<and> heads t = Map.empty"
proof -
  have e: "ts_inv crc (ts_new [] [] [] [])" by (rule ts_reach_inv [OF ts_reach.start])
  have "ts_open crc it (turns_log (ts_new [] [] [] [])) [] (turns_meta (ts_new [] [] [] []))
      (heads_tbl (ts_new [] [] [] [])) = Inr t"
    using assms by (simp add: ts_new_def)
  from ts_inv_reopen [OF e this] ts_reopen_maps [OF e this] show ?thesis by (simp add: ts_new_def)
qed

lemma st_inv_start:
  assumes "zstd_ok (se_zenc env) (se_zdec env)" and "blob_open [] [] = Inr (blob_store s)"
    and "ts_open (se_crc env) it [] [] [] [] = Inr (turn_store s)"
  shows "st_inv env s"
  using assms(1) blob_reach_inv [OF assms(1) blob_reach.start [OF assms(2)]] blob_open_emptyD [OF assms(2)]
    ts_open_fresh [OF assms(3)]
  by (simp add: st_inv_def payloads_ok_def blob_store_inv_def blob_get_None)

lemma st_reach_inv:
  assumes "zstd_ok (se_zenc env) (se_zdec env)"
  shows "st_reach env s \<Longrightarrow> st_inv env s"
proof (induction rule: st_reach.induct)
  case (start s)
  from store_open_parts(1,2) [OF start] show ?case by (rule st_inv_start [OF assms])
next
  case (create s now base s' res)
  then show ?case by (auto simp: st_create_context_def split: prod.splits intro: st_inv_create)
next
  case (fork s now base s' res)
  then show ?case by (auto simp: st_fork_context_def fork_context_def split: prod.splits intro: st_inv_create)
next
  case (append s ty cmp len hash payload now c p ver enc s' res)
  from st_inv_append [OF append.IH append.hyps(2,3)] show ?case .
next
  case (put_blob s raw h b res)
  then show ?case using st_inv_put [OF put_blob.IH put_blob.hyps(3,2), of b] by simp
next
  case (attach s t h s' res)
  from attach(2) have "turn_store s' = turn_store s \<and> blob_store s' = blob_store s"
    by (auto simp: st_attach_fs_def split: sum.splits if_splits)
  with attach.IH show ?case by (auto intro: st_inv_stores)
next
  case (metadata s c s' md)
  with get_context_metadata_stores [OF metadata(2)] show ?case by (auto intro: st_inv_stores)
next
  case (reopen s s')
  note parts = store_open_parts [OF reopen(2)]
  from reopen.IH have inv: "ts_inv (se_crc env) (turn_store s)" "blob_inv (se_crc env) (se_zdec env) (blob_store s)"
    by (simp_all add: st_inv_def blob_store_inv_def)
  from parts(1) blob_open_inv [OF inv(2)] have "blob_store s' = blob_store s" by simp
  moreover from ts_reopen_maps [OF inv(1) parts(2)] ts_inv_reopen [OF inv(1) parts(2)]
  have "ts_inv (se_crc env) (turn_store s')" "turns (turn_store s') = turns (turn_store s)" by simp_all
  ultimately show ?case using reopen.IH by (simp add: st_inv_def payloads_ok_def)
qed

section \<open>Reading back\<close>

lemma with_meta_ok:
  assumes "\<And>r. r \<in> set rs \<Longrightarrow> \<exists>m v. turn_meta (turn_store s) (tr_turn_id r) = Some m \<and>
      sblob_get env s (tr_payload_hash r) = Inr v"
  shows "\<exists>out. with_meta env s True rs = Inr out \<and> map tw_record out = rs \<and>
    (\<forall>tw\<in>set out. \<exists>v. tw_payload tw = Some v \<and> sblob_get env s (tr_payload_hash (tw_record tw)) = Inr v)"
  using assms
proof (induction rs)
  case (Cons r rs)
  then obtain out where "with_meta env s True rs = Inr out" "map tw_record out = rs"
      "\<forall>tw\<in>set out. \<exists>v. tw_payload tw = Some v \<and> sblob_get env s (tr_payload_hash (tw_record tw)) = Inr v"
    by auto
  moreover from Cons.prems [of r] obtain m v where "turn_meta (turn_store s) (tr_turn_id r) = Some m"
      "sblob_get env s (tr_payload_hash r) = Inr v" by auto
  ultimately show ?case by (simp add: get_turn_meta_def)
qed simp

lemma ancestry_members: "dag_wf s \<Longrightarrow> ancestry (turns s) i rs \<Longrightarrow> r \<in> set rs \<Longrightarrow> turns s (tr_turn_id r) = Some r"
  using ancestry_split by (metis in_set_conv_nth)

lemma append_last:
  assumes "ts_inv crc s" and "append_turn crc now s c p hash enc ty ver cmp len = (s', Inr r)"
  shows "get_last s' c 1 = Inr [r]" and "turn_meta s' (tr_turn_id r) = Some (new_meta ty ver enc cmp len)"
    and "tr_payload_hash r = hash"
proof -
  from assms(2) obtain parent d where r: "resolve_parent s c p = Inr (parent, d)"
      "r = new_turn (next_turn_id s) parent d enc hash now" "turns s' = (turns s)(next_turn_id s \<mapsto> r)"
      "turn_meta s' = (turn_meta s)(next_turn_id s \<mapsto> new_meta ty ver enc cmp len)"
      "heads s' = (heads s)(c \<mapsto> new_head c (next_turn_id s) d now)"
    by (elim append_turn_InrE) blast
  show "turn_meta s' (tr_turn_id r) = Some (new_meta ty ver enc cmp len)" "tr_payload_hash r = hash"
    by (simp_all add: r)
  have "next_turn_id s \<noteq> 0" using assms(1) unfolding ts_inv_def dag_wf_def by blast
  then show "get_last s' c 1 = Inr [r]" by (simp add: get_last_def r)
qed

lemma st_append_last:
  assumes "zstd_ok (se_zenc env) (se_zdec env)" and "st_reach env s" and "append_ok env s ty cmp len hash payload"
    and "st_append_turn env now s c p ty ver enc cmp len hash payload = (s', Inr (r, md))"
    and "decompress env cmp payload = Inr raw"
    and "\<And>v. sblob_get env s hash = Inr v \<Longrightarrow> se_blake3 env v = se_blake3 env raw \<Longrightarrow> v = raw"
  shows "st_get_last env s' c 1 True =
    Inr [\<lparr>tw_record = r, tw_meta = new_meta ty ver enc cmp len, tw_payload = Some raw\<rparr>]"
proof -
  from st_reach_inv [OF assms(1,2)] have inv: "st_inv env s" .
  from assms(4) obtain raw' be where ck: "check_payload env cmp len hash payload = Inr raw'"
    and app: "append_turn (se_crc env) now (turn_store s) c p hash enc ty ver cmp len = (turn_store s', Inr r)"
    and put: "put_if_absent (se_crc env) (se_zenc env) (blob_store s) hash raw' = (blob_store s', be)"
    by (rule st_append_InrE)
  with assms(5) have raw: "raw' = raw" by (auto simp: check_payload_def split: if_splits)
  have fits: "blob_fits (blob_store s) hash raw" using assms(3) ck raw by (simp add: append_ok_def)
  have "blob_store.addressed (se_crc env) (se_zdec env) (se_blake3 env) (blob_store s)"
    using inv by (simp add: st_inv_def payloads_ok_def blob_store.addressed_def)
  then have "sblob_get env s' hash = Inr raw"
    using blob_store.put_get [OF _ fits, of "se_crc env" "se_zenc env" "se_zdec env" "se_blake3 env"]
      inv check_payload_InrD [OF ck] raw put assms(6) by (auto simp: st_inv_def)
  with append_last [OF _ app] inv show ?thesis
    by (simp add: st_get_last_def st_inv_def get_turn_meta_def)
qed

section \<open>Crashes\<close>

text \<open>An append writes the blob, then the turn.  The six files a crash leaves after \<open>n\<close> of the written
  bytes:\<close>

definition store_crash :: "nat \<Rightarrow> Store \<Rightarrow> Store \<Rightarrow> (bytes \<times> bytes) \<times> bytes \<times> bytes \<times> bytes \<times> bytes" where
  "store_crash n s s' =
     (let written = length (pack_file (blob_store s')) - length (pack_file (blob_store s)) +
            (length (idx_file (blob_store s')) - length (idx_file (blob_store s)))
      in (blob_crash n (blob_store s) (blob_store s'), crash_files (n - written) (turn_store s) (turn_store s')))"

lemma get_first_turn_total: "dag_wf s \<Longrightarrow> \<exists>r. get_first_turn s c = Some r"
proof (cases "heads s c")
  case (Some h)
  assume wf: "dag_wf s"
  from head_ancestry [OF wf Some] obtain rs where rs: "ancestry (turns s) (ch_head_turn_id h) rs" ..
  show ?thesis
  proof (cases "rs = []")
    case True
    with rs Some show ?thesis by (auto simp: get_first_turn_def first_turn_loop.simps)
  next
    case False
    with first_turn_ancestry [OF wf rs] Some show ?thesis by (simp add: get_first_turn_def)
  qed
qed (simp add: get_first_turn_def)

lemma get_context_metadata_total:
  assumes "dag_wf (turn_store s)"
  shows "\<exists>s' md. get_context_metadata env s c = Some (s', md)"
  using get_first_turn_total [OF assms, of c]
  by (auto simp: get_context_metadata_def load_context_metadata_def split: option.splits sum.splits)

lemma cache_all_total: "dag_wf (turn_store s) \<Longrightarrow> \<exists>s'. cache_all env hs s = Some s'"
proof (induction hs arbitrary: s)
  case (Cons h hs)
  from get_context_metadata_total [OF Cons.prems, of env "ch_context_id h"] obtain s' md where
    g: "get_context_metadata env s (ch_context_id h) = Some (s', md)" by blast
  with Cons.IH [of s'] Cons.prems get_context_metadata_stores [OF g] show ?case by simp
qed simp

lemma store_open_total:
  assumes "blob_open pack idx = Inr b" and "ts_open (se_crc env) (se_it_index env) log tidx meta hds = Inr t"
    and "fs_open (se_crc env) roots = Inr f" and "dag_wf t"
  shows "\<exists>s. store_open env pack idx log tidx meta hds roots = Some (Inr s) \<and> blob_store s = b \<and> turn_store s = t \<and>
    fs_roots s = f"
proof -
  let ?s = "\<lparr>blob_store = b, turn_store = t, fs_roots = f, context_metadata_cache = Map.empty,
    secondary_indexes = idx_new\<rparr>"
  from cache_all_total [of ?s env "list_recent_contexts (se_it_heads env) t (- 1)"] assms(4) obtain s' where
    "cache_all env (list_recent_contexts (se_it_heads env) t (- 1)) ?s = Some s'" by auto
  with cache_all_stores [OF this] assms show ?thesis by (simp add: store_open_def build_indexes_def Let_def)
qed

lemma crash_files_0:
  assumes "append_turn crc now s c p hash enc ty ver cmp len = (s', Inr r)" and "crash_files 0 s s' = (l, i, m, h)"
  shows "l = turns_log s \<and> m = turns_meta s \<and> h = heads_tbl s"
  using assms by (auto elim!: append_turn_InrE simp: crash_files_def Let_def)

lemma crash_turns_open:
  assumes inv: "ts_inv crc s" and v: "length hash = 32" "rust_string ty" "length ty < 2 ^ 32"
    and cap: "unat (next_turn_id s) < 2 ^ 32"
    and app: "append_turn crc now s c p hash enc ty ver cmp len = (s', Inr r)"
    and cr: "crash_files k s s' = (l, i, m, h)"
  shows "\<exists>t. ts_open crc it l i m h = Inr t \<and> dag_wf t \<and> turns t \<in> {turns s, turns s'} \<and> (k = 0 \<longrightarrow> turns t = turns s)"
proof (cases "k = 0")
  case True
  with cr crash_files_0 [OF app] have lmh: "l = turns_log s" "m = turns_meta s" "h = heads_tbl s" by simp_all
  from inv have "\<exists>t. ts_open crc it l i m h = Inr t" by (simp add: lmh ts_inv_def ts_open_synced)
  then obtain t where t: "ts_open crc it l i m h = Inr t" ..
  from ts_inv_reopen [OF inv t [unfolded lmh]] ts_reopen_maps [OF inv t [unfolded lmh]] t show ?thesis
    by (auto simp: ts_inv_def)
next
  case False
  from append_crash [OF inv v cap app cr, of it] show ?thesis by (auto simp: crash_outcomes_def False)
qed

subsection \<open>Lineage\<close>

definition child_rel :: "(u64 \<Rightarrow> u64 list) \<Rightarrow> (u64 \<times> u64) set" where
  "child_rel children = {(a, b). b \<in> set (children a)}"

definition parent_links :: "Store \<Rightarrow> (u64 \<times> u64) set" where
  "parent_links s = {(a, b). b \<in> lookup_parent_exact (secondary_indexes s) a}"

lemma closed_rtrancl_Image: "(\<And>x y. x \<in> A \<Longrightarrow> (x, y) \<in> R \<Longrightarrow> y \<in> A) \<Longrightarrow> R\<^sup>* `` A = A"
proof -
  assume closed: "\<And>x y. x \<in> A \<Longrightarrow> (x, y) \<in> R \<Longrightarrow> y \<in> A"
  have "y \<in> A" if "(x, y) \<in> R\<^sup>*" "x \<in> A" for x y
    using that by (induction rule: rtrancl_induct) (auto intro: closed)
  then show ?thesis by auto
qed

lemma bfs_None_extends: "\<exists>rest. bfs ch None q v out = out @ rest"
proof (induction ch "None :: u32 option" q v out rule: bfs.induct)
  case (2 ch c queue visited out)
  then show ?case by (cases "c \<in> visited") (auto simp: Let_def)
qed simp

lemma bfs_None_set:
  assumes "set out = v" and "distinct out" and "\<forall>x\<in>v. set (ch x) \<subseteq> v \<union> set q"
  shows "distinct (bfs ch None q v out) \<and> set (bfs ch None q v out) = (child_rel ch)\<^sup>* `` (v \<union> set q)"
  using assms
proof (induction ch "None :: u32 option" q v out rule: bfs.induct)
  case (1 ch visited out)
  then show ?case using closed_rtrancl_Image [of visited "child_rel ch"] by (auto simp: child_rel_def)
next
  case (2 ch c queue visited out)
  show ?case
  proof (cases "c \<in> visited")
    case True
    with 2 show ?thesis by (auto simp: insert_absorb)
  next
    case False
    let ?v = "insert c visited" and ?q = "queue @ filter (\<lambda>d. d \<notin> insert c visited) (ch c)"
    have sets: "?v \<union> set ?q = (visited \<union> set (c # queue)) \<union> set (ch c)" by auto
    have "(child_rel ch)\<^sup>* `` set (ch c) \<subseteq> (child_rel ch)\<^sup>* `` {c}"
      by (auto simp: child_rel_def intro: converse_rtrancl_into_rtrancl)
    then have eq: "(child_rel ch)\<^sup>* `` (?v \<union> set ?q) = (child_rel ch)\<^sup>* `` (visited \<union> set (c # queue))"
      unfolding sets by (auto simp: Image_Un)
    have "\<forall>x\<in>?v. set (ch x) \<subseteq> ?v \<union> set ?q" using "2.prems"(3) by auto
    then have "distinct (bfs ch None ?q ?v (out @ [c])) \<and>
        set (bfs ch None ?q ?v (out @ [c])) = (child_rel ch)\<^sup>* `` (?v \<union> set ?q)"
      using "2.prems"(1,2) False by (intro "2.hyps"(2)) auto
    with False show ?thesis unfolding eq by (simp add: Let_def)
  qed
qed

lemma bfs_Some_take: "bfs ch (Some m) q v out = take (max (unat m) (Suc (length out))) (bfs ch None q v out)"
proof (induction ch "Some m" q v out rule: bfs.induct)
  case (2 ch c queue visited out)
  obtain rest where rest: "bfs ch None (queue @ filter (\<lambda>d. d \<notin> insert c visited) (ch c)) (insert c visited) (out @ [c])
      = (out @ [c]) @ rest" using bfs_None_extends by blast
  show ?case
  proof (cases "c \<in> visited \<or> unat m \<le> Suc (length out)")
    case True
    with 2 rest show ?thesis by (auto simp: Let_def max_def)
  next
    case False
    then have "max (unat m) (Suc (Suc (length out))) = unat m" "max (unat m) (Suc (length out)) = unat m" by auto
    with 2 False show ?thesis by (simp add: Let_def)
  qed
qed simp

lemma bfs_children:
  "distinct (bfs ch None (ch p) {} []) \<and> set (bfs ch None (ch p) {} []) = (child_rel ch)\<^sup>+ `` {p}"
  using bfs_None_set [of "[]" "{}" ch "ch p"] by (auto simp: trancl_unfold_left child_rel_def)

section \<open>Witness store\<close>

text \<open>A store holding one context with one turn of payload \<open>[9]\<close>, with the toy codecs of the components and a
  hash that tells \<open>[9]\<close> from everything else.\<close>

definition demo_blake3 :: "bytes \<Rightarrow> bytes" where
  "demo_blake3 raw = replicate 32 (if raw = [9] then 1 else 0)"

definition demo_senv :: store_env where
  "demo_senv = \<lparr>se_crc = demo_sum, se_zenc = demo_zenc, se_zdec = demo_zdec, se_blake3 = demo_blake3,
     se_read_value = (\<lambda>_. Inl ''eof''), se_lower = id, se_it_index = sorted_iter, se_it_heads = sorted_iter,
     se_it_cache = sorted_iter, se_it_ids = sorted_list_of_set\<rparr>"

lemma demo_senv_sel [simp]:
  "se_crc demo_senv = demo_sum" "se_zenc demo_senv = demo_zenc" "se_zdec demo_senv = demo_zdec"
  "se_blake3 demo_senv = demo_blake3" "se_it_index demo_senv = sorted_iter" "se_it_heads demo_senv = sorted_iter"
  "se_read_value demo_senv = (\<lambda>_. Inl ''eof'')" "se_lower demo_senv = id"
  by (simp_all add: demo_senv_def)

lemma sorted_iter_empty [simp]: "sorted_iter (Map.empty :: 'a::linorder \<rightharpoonup> 'b) = []"
  by (simp add: sorted_iter_def)

definition sdemo :: Store where
  "sdemo = \<lparr>blob_store = blob0, turn_store = ts_new [] [] [] [], fs_roots = \<lparr>fr_file = [], fr_roots = Map.empty\<rparr>,
     context_metadata_cache = Map.empty,
     secondary_indexes = build_from_cache id (se_it_cache demo_senv) Map.empty [] idx_new\<rparr>"

lemma ts_open_empty: "it Map.empty = [] \<Longrightarrow> ts_open crc it [] [] [] [] = Inr (ts_new [] [] [] [])"
  using ts_open_synced [OF synced_new, of crc it "[]" "[]"] by (simp add: ts_new_def counter_after_def)

lemma sdemo_reach: "st_reach demo_senv sdemo"
  by (rule st_reach.start)
    (simp add: store_open_def blob_open_empty ts_open_empty fs_open_def root_step_def root_log.scan_stop file_after_def
      build_indexes_def list_recent_contexts_def recent_first_def ts_new_def sdemo_def blob0_def)

definition sdemo0 :: Store where
  "sdemo0 = fst (st_create_context demo_senv 100 sdemo 0)"

definition sdemo1 :: Store where
  "sdemo1 = fst (st_append_turn demo_senv 200 sdemo0 1 0 ''T'' 1 1 0 1 (replicate 32 1) [9])"

lemma sdemo0_eq: "sdemo0 = sdemo\<lparr>turn_store := fst (create_context demo_sum 100 (ts_new [] [] [] []) 0)\<rparr>"
  by (simp add: sdemo0_def st_create_context_def sdemo_def split: prod.split)

lemma sdemo0_reach: "st_reach demo_senv sdemo0"
  unfolding sdemo0_def by (rule st_reach.create [OF sdemo_reach surjective_pairing])

lemma sdemo0_sel [simp]: "blob_store sdemo0 = blob0" "next_turn_id (turn_store sdemo0) = 1"
    "context_metadata_cache sdemo0 = Map.empty" "heads (turn_store sdemo0) = [1 \<mapsto> new_head 1 0 0 100]"
    "turns (turn_store sdemo0) = Map.empty"
  by (simp_all add: sdemo0_eq sdemo_def create_context_eq resolve_base_def ts_new_def Let_def)

lemma check_demo: "check_payload demo_senv 0 1 (replicate 32 1) [9] = Inr [9]"
  by (simp add: check_payload_def decompress_def demo_blake3_def)

lemma append_ok_demo: "append_ok demo_senv sdemo0 ''T'' 0 1 (replicate 32 1) [9]"
  by (simp add: append_ok_def check_demo rust_string_T blob_fits_def blob0_def)

lemma sdemo1_reach: "st_reach demo_senv sdemo1"
  unfolding sdemo1_def by (rule st_reach.append [OF sdemo0_reach append_ok_demo surjective_pairing])

lemma sdemo_append:
  "\<exists>r. st_append_turn demo_senv 200 sdemo0 1 0 ''T'' 1 1 0 1 (replicate 32 1) [9] = (sdemo1, Inr (r, None))"
proof -
  obtain s res where a: "st_append_turn demo_senv 200 sdemo0 1 0 ''T'' 1 1 0 1 (replicate 32 1) [9] = (s, res)"
    by (cases "st_append_turn demo_senv 200 sdemo0 1 0 ''T'' 1 1 0 1 (replicate 32 1) [9]")
  obtain t r where t: "append_turn demo_sum 200 (turn_store sdemo0) 1 0 (replicate 32 1) 1 ''T'' 1 0 1 = (t, Inr r)"
    by (simp add: append_turn_eq resolve_parent_def Let_def)
  from st_append_turn_parts(5) [OF check_demo a, of t "Inr r"] t a show ?thesis
    by (auto simp: extract_context_metadata_def sdemo1_def)
qed

lemma get_last_available:
  assumes "zstd_ok (se_zenc env) (se_zdec env)" and "st_reach env s" and "heads (turn_store s) c = Some h"
  shows "\<exists>out. st_get_last env s c limit True = Inr out \<and>
    get_last (turn_store s) c limit = Inr (map tw_record out) \<and>
    (\<forall>tw\<in>set out. \<exists>v. tw_payload tw = Some v \<and> se_blake3 env v = tr_payload_hash (tw_record tw))"
proof -
  from st_reach_inv [OF assms(1,2)] have inv: "dag_wf (turn_store s)" "payloads_ok env s"
      "dom (turn_meta (turn_store s)) = dom (turns (turn_store s))"
    by (simp_all add: st_inv_def ts_inv_def)
  from head_ancestry [OF inv(1) assms(3)] obtain rs where rs: "ancestry (turns (turn_store s)) (ch_head_turn_id h) rs" ..
  let ?rs = "rev (take (unat limit) rs)"
  have "\<exists>m v. turn_meta (turn_store s) (tr_turn_id r) = Some m \<and> sblob_get env s (tr_payload_hash r) = Inr v"
    if "r \<in> set ?rs" for r
    using ancestry_members [OF inv(1) rs, of r] that inv(2,3) by (auto simp: payloads_ok_def dest!: in_set_takeD)
  from with_meta_ok [OF this] obtain out where out: "with_meta env s True ?rs = Inr out" "map tw_record out = ?rs"
      "\<forall>tw\<in>set out. \<exists>v. tw_payload tw = Some v \<and> sblob_get env s (tr_payload_hash (tw_record tw)) = Inr v"
    by blast
  with inv(2) get_last_ancestry [OF assms(3) rs, of limit] show ?thesis
    unfolding payloads_ok_def by (fastforce simp: st_get_last_def)
qed

section \<open>Properties\<close>

text \<open>C3. No turn is left without its payload: in every reachable store, asking for the last turns of a context
  with payloads succeeds, returns the turns the turn store has, and every payload hashes to the hash its turn
  records.\<close>

theorem payloads_available:
  assumes "zstd_ok (se_zenc env) (se_zdec env)" and "st_reach env s" and "heads (turn_store s) c = Some h"
  shows "\<exists>out. st_get_last env s c limit True = Inr out \<and>
    get_last (turn_store s) c limit = Inr (map tw_record out) \<and>
    (\<forall>tw\<in>set out. \<exists>v. tw_payload tw = Some v \<and> se_blake3 env v = tr_payload_hash (tw_record tw))"
  by (rule get_last_available [OF assms])

theorem payloads_available_witness:
  "\<exists>out. st_get_last demo_senv sdemo1 1 5 True = Inr out \<and>
    (\<forall>tw\<in>set out. \<exists>v. tw_payload tw = Some v \<and> demo_blake3 v = tr_payload_hash (tw_record tw))"
proof -
  obtain t r where t: "append_turn demo_sum 200 (turn_store sdemo0) 1 0 (replicate 32 1) 1 ''T'' 1 0 1 = (t, Inr r)"
    by (simp add: append_turn_eq resolve_parent_def Let_def)
  from sdemo_append obtain r' where
    a: "st_append_turn demo_senv 200 sdemo0 1 0 ''T'' 1 1 0 1 (replicate 32 1) [9] = (sdemo1, Inr (r', None))" ..
  have "heads (turn_store sdemo1) 1 = Some (new_head 1 1 0 200)"
    using st_append_turn_parts(2) [OF check_demo a, of t "Inr r"] t
    by (auto simp: append_turn_eq resolve_parent_def Let_def)
  from payloads_available [OF _ sdemo1_reach this, of 5] show ?thesis using demo_zstd_ok by auto
qed

text \<open>C4. An append that succeeds is what the next read returns: the last turn of the context is the new turn,
  with the declared type, encoding and compression, and the payload as it was before compression, provided
  BLAKE3 has no collision between that payload and the blob already stored under its hash.\<close>

theorem store_append_get:
  assumes "zstd_ok (se_zenc env) (se_zdec env)" and "st_reach env s" and "append_ok env s ty cmp len hash payload"
    and "st_append_turn env now s c p ty ver enc cmp len hash payload = (s', Inr (r, md))"
    and "decompress env cmp payload = Inr raw"
    and "\<And>v. sblob_get env s hash = Inr v \<Longrightarrow> se_blake3 env v = se_blake3 env raw \<Longrightarrow> v = raw"
  shows "st_get_last env s' c 1 True =
    Inr [\<lparr>tw_record = r, tw_meta = new_meta ty ver enc cmp len, tw_payload = Some raw\<rparr>]"
  using assms by (rule st_append_last)

theorem store_append_get_witness:
  "\<exists>r m. st_get_last demo_senv sdemo1 1 1 True = Inr [\<lparr>tw_record = r, tw_meta = m, tw_payload = Some [9]\<rparr>]"
proof -
  from sdemo_append obtain r where
    a: "st_append_turn demo_senv 200 sdemo0 1 0 ''T'' 1 1 0 1 (replicate 32 1) [9] = (sdemo1, Inr (r, None))" ..
  have "st_get_last demo_senv sdemo1 1 1 True =
      Inr [\<lparr>tw_record = r, tw_meta = new_meta ''T'' 1 1 0 1, tw_payload = Some [9]\<rparr>]"
    by (rule store_append_get [OF _ sdemo0_reach append_ok_demo a])
      (auto simp: demo_zstd_ok decompress_def demo_blake3_def blob_get_None blob0_def)
  then show ?thesis by blast
qed

text \<open>C5. A crash anywhere inside an append, after any number of the bytes it writes, leaves files from which the
  store opens; the turns are those before or those after the append, no blob is lost, and every turn still has a
  payload that hashes to the recorded hash: the blob reaches the disk before the turn that names it.\<close>

theorem store_append_crash_safe:
  assumes "zstd_ok (se_zenc env) (se_zdec env)" and "st_reach env s" and "append_ok env s ty cmp len hash payload"
    and "st_append_turn env now s c p ty ver enc cmp len hash payload = (s', Inr (r, md))"
    and "store_crash n s s' = ((pk, ix), l, i, m, h)" and "fs_open (se_crc env) roots = Inr f"
  shows "\<exists>t. store_open env pk ix l i m h roots = Some (Inr t) \<and> dag_wf (turn_store t) \<and>
    turns (turn_store t) \<in> {turns (turn_store s), turns (turn_store s')} \<and>
    (\<forall>k v. sblob_get env s k = Inr v \<longrightarrow> sblob_get env t k = Inr v) \<and>
    (\<forall>j q. turns (turn_store t) j = Some q \<longrightarrow>
      (\<exists>v. sblob_get env t (tr_payload_hash q) = Inr v \<and> se_blake3 env v = tr_payload_hash q))"
proof -
  let ?crc = "se_crc env" and ?zdec = "se_zdec env"
  from st_reach_inv [OF assms(1,2)] have inv: "st_inv env s" .
  from st_inv_append [OF inv assms(3,4)] have inv': "st_inv env s'" .
  from assms(4) obtain raw be where ck: "check_payload env cmp len hash payload = Inr raw"
    and app: "append_turn ?crc now (turn_store s) c p hash enc ty ver cmp len = (turn_store s', Inr r)"
    and put: "put_if_absent ?crc (se_zenc env) (blob_store s) hash raw = (blob_store s', be)"
    by (rule st_append_InrE)
  have fits: "blob_fits (blob_store s) hash raw" using assms(3) ck by (simp add: append_ok_def)
  define w where "w = length (pack_file (blob_store s')) - length (pack_file (blob_store s)) +
    (length (idx_file (blob_store s')) - length (idx_file (blob_store s)))"
  have bc: "blob_crash n (blob_store s) (blob_store s') = (pk, ix)"
    and tc: "crash_files (n - w) (turn_store s) (turn_store s') = (l, i, m, h)"
    using assms(5) by (simp_all add: store_crash_def Let_def w_def)
  have bi: "blob_inv ?crc ?zdec (blob_store s)" "blob_inv ?crc ?zdec (blob_store s')"
    and ti: "ts_inv ?crc (turn_store s)" and ok: "payloads_ok env s" "payloads_ok env s'"
    using inv inv' by (simp_all add: st_inv_def blob_store_inv_def)
  from blob_crash_gets [OF assms(1) bi(1) fits put bc] obtain b where
    b: "blob_open pk ix = Inr b" "\<forall>k v. sblob_get env s k = Inr v \<longrightarrow> blob_get ?crc ?zdec b k = Inr v"
      "\<forall>k v. blob_get ?crc ?zdec b k = Inr v \<longrightarrow> sblob_get env s' k = Inr v" by blast
  have addr: "se_blake3 env v = k" if "blob_get ?crc ?zdec b k = Inr v" for k v
    using that b(3) ok(2) unfolding payloads_ok_def by blast
  have "length hash = 32" "rust_string ty" "length ty < 2 ^ 32" "unat (next_turn_id (turn_store s)) < 2 ^ 32"
    using fits assms(3) by (simp_all add: blob_fits_def append_ok_def)
  from crash_turns_open [OF ti this app tc] obtain t where t: "ts_open ?crc (se_it_index env) l i m h = Inr t" "dag_wf t"
      "turns t \<in> {turns (turn_store s), turns (turn_store s')}" "n - w = 0 \<Longrightarrow> turns t = turns (turn_store s)" by blast
  have "b = blob_store s'" if "\<not> n \<le> w"
    using bc that b(1) blob_open_inv [OF bi(2)] by (auto simp: blob_crash_def w_def)
  then have "\<exists>v. blob_get ?crc ?zdec b (tr_payload_hash q) = Inr v \<and> se_blake3 env v = tr_payload_hash q"
    if "turns t j = Some q" for j q
    using that t(3,4) ok b(2) addr unfolding payloads_ok_def by (cases "n \<le> w") (auto, blast+)
  moreover from store_open_total [OF b(1) t(1) assms(6) t(2)] obtain S where
    "store_open env pk ix l i m h roots = Some (Inr S)" "blob_store S = b" "turn_store S = t" by blast
  ultimately show ?thesis using t(2,3) b(2) by auto
qed

theorem store_append_crash_safe_witness:
  "\<exists>t. (case store_crash 110 sdemo0 sdemo1 of ((pk, ix), l, i, m, h) \<Rightarrow> store_open demo_senv pk ix l i m h []) = Some (Inr t) \<and>
    turns (turn_store t) \<in> {turns (turn_store sdemo0), turns (turn_store sdemo1)}"
proof -
  from sdemo_append obtain r where
    a: "st_append_turn demo_senv 200 sdemo0 1 0 ''T'' 1 1 0 1 (replicate 32 1) [9] = (sdemo1, Inr (r, None))" ..
  obtain pk ix l i m h where c: "store_crash 110 sdemo0 sdemo1 = ((pk, ix), l, i, m, h)"
    by (cases "store_crash 110 sdemo0 sdemo1") auto
  have "fs_open (se_crc demo_senv) [] = Inr \<lparr>fr_file = [], fr_roots = Map.empty\<rparr>"
    by (simp add: fs_open_def root_step_def root_log.scan_stop file_after_def)
  from store_append_crash_safe [OF _ sdemo0_reach append_ok_demo a c this] show ?thesis
    by (auto simp: c demo_zstd_ok)
qed

text \<open>An append fails exactly when the payload is refused or the parent cannot be resolved, with that error.
  A refused payload changes nothing; a failing parent may leave the blob behind, and nothing else changes.\<close>

theorem store_append_errors:
  assumes "st_append_turn env now s c p ty ver enc cmp len hash payload = (s', res)"
  shows "(\<forall>e. res = Inl e \<longleftrightarrow> check_payload env cmp len hash payload = Inl e \<or>
      (\<exists>raw. check_payload env cmp len hash payload = Inr raw \<and> resolve_parent (turn_store s) c p = Inl e)) \<and>
    (\<forall>e. res = Inl e \<longrightarrow> s' = (case check_payload env cmp len hash payload of Inl _ \<Rightarrow> s
      | Inr raw \<Rightarrow> s\<lparr>blob_store := fst (put_if_absent (se_crc env) (se_zenc env) (blob_store s) hash raw)\<rparr>))"
proof (cases "check_payload env cmp len hash payload")
  case (Inl e)
  with assms show ?thesis by (auto simp: st_append_turn_Inl_check)
next
  case (Inr raw)
  obtain t tres where t: "append_turn (se_crc env) now (turn_store s) c p hash enc ty ver cmp len = (t, tres)"
    by (cases "append_turn (se_crc env) now (turn_store s) c p hash enc ty ver cmp len")
  note parts = st_append_turn_parts [OF Inr assms t]
  from t have "tres = Inl e \<longleftrightarrow> resolve_parent (turn_store s) c p = Inl e" for e
    by (auto simp: append_turn_eq Let_def split: sum.splits)
  moreover have "res = Inl e \<longleftrightarrow> tres = Inl e" for e using parts(4,5) by (cases tres) auto
  moreover have "s' = s\<lparr>blob_store := fst (put_if_absent (se_crc env) (se_zenc env) (blob_store s) hash raw)\<rparr>"
    if "tres = Inl e" for e
  proof -
    from t that have "t = turn_store s" by (auto dest: append_turn_Inl)
    with parts(1-3) parts(4) [OF that] show ?thesis by simp
  qed
  ultimately show ?thesis by (simp add: Inr)
qed

theorem store_append_errors_witness:
  "\<exists>s'. st_append_turn demo_senv 200 sdemo0 1 0 ''T'' 1 1 0 1 (replicate 32 0) [9] = (s', Inl (InvalidInput ''content hash mismatch''))
     \<and> s' = sdemo0"
  (is "\<exists>s'. ?a = _ \<and> _")
proof -
  have "check_payload demo_senv 0 1 (replicate 32 0) [9] = Inl (InvalidInput ''content hash mismatch'')"
    by (simp add: check_payload_def decompress_def demo_blake3_def)
  with store_append_errors [OF prod.collapse [symmetric], of demo_senv 200 sdemo0 1 0 "''T''" 1 1 0 1 "replicate 32 0" "[9]"]
  have "snd ?a = Inl (InvalidInput ''content hash mismatch'') \<and> fst ?a = sdemo0" by simp
  then show ?thesis by (metis prod.collapse)
qed

text \<open>The descendants of a context are the contexts reachable from it by the indexed parent links, each once,
  newest id first; the search ends even when the links form a cycle.  A limit \<open>m\<close> cuts the result to \<open>m\<close>
  of them, except that a limit of 0 still returns one.\<close>

theorem descendants_exact:
  "set (descendant_context_ids s p None) = (parent_links s)\<^sup>+ `` {p} \<and>
    sorted (rev (descendant_context_ids s p None)) \<and> distinct (descendant_context_ids s p None) \<and>
    set (descendant_context_ids s p (Some m)) \<subseteq> (parent_links s)\<^sup>+ `` {p} \<and>
    sorted (rev (descendant_context_ids s p (Some m))) \<and> distinct (descendant_context_ids s p (Some m)) \<and>
    length (descendant_context_ids s p (Some m)) = min (max 1 (unat m)) (card ((parent_links s)\<^sup>+ `` {p}))"
proof -
  let ?ch = "child_context_ids s" and ?b = "bfs (child_context_ids s) None (child_context_ids s p) {} []"
  have "child_rel ?ch = parent_links s"
    by (simp add: child_rel_def child_context_ids_def desc_ids_def parent_links_def)
  with bfs_children [of ?ch p] have b: "distinct ?b" "set ?b = (parent_links s)\<^sup>+ `` {p}" by simp_all
  then have "length ?b = card ((parent_links s)\<^sup>+ `` {p})" by (metis distinct_card)
  with b show ?thesis
    by (auto simp: descendant_context_ids_def bfs_Some_take max_def dest!: in_set_takeD)
qed

text \<open>Reading the metadata of a context that has no turn yet caches its absence, and the cache is never
  revised: the first append to that context then returns no metadata and indexes nothing, whatever its payload
  holds, and later reads still return none.\<close>

theorem empty_context_metadata_sticks:
  assumes "dag_wf (turn_store s)" and "heads (turn_store s) c = Some h" and "ch_head_turn_id h = 0"
    and "context_metadata_cache s c = None" and "get_context_metadata env s c = Some (s1, md)"
    and "st_append_turn env now s1 c p ty ver enc cmp len hash payload = (s2, Inr (r, md'))"
  shows "md = None \<and> md' = None \<and> secondary_indexes s2 = secondary_indexes s \<and>
    get_context_metadata env s2 c = Some (s2, None)"
proof -
  have "load_context_metadata env s c = Some None"
    using assms(2,3) by (simp add: load_context_metadata_def get_first_turn_def first_turn_loop.simps)
  with assms(4,5) have s1: "md = None" "context_metadata_cache s1 c = Some None" "secondary_indexes s1 = secondary_indexes s"
    by (auto simp: get_context_metadata_def)
  from assms(6) obtain raw be where "check_payload env cmp len hash payload = Inr raw"
    and "append_turn (se_crc env) now (turn_store s1) c p hash enc ty ver cmp len = (turn_store s2, Inr r)"
    by (rule st_append_InrE)
  from st_append_turn_parts(5) [OF this(1) assms(6) this(2)] s1 show ?thesis
    by (auto simp: get_context_metadata_def)
qed

theorem empty_context_metadata_sticks_witness:
  "\<exists>s1 s2 r. get_context_metadata demo_senv sdemo0 1 = Some (s1, None) \<and>
    st_append_turn demo_senv 200 s1 1 0 ''T'' 1 1 0 1 (replicate 32 1) [9] = (s2, Inr (r, None)) \<and>
    get_context_metadata demo_senv s2 1 = Some (s2, None)"
proof -
  have wf: "dag_wf (turn_store sdemo0)"
    using st_reach_inv [OF _ sdemo0_reach] demo_zstd_ok by (simp add: st_inv_def ts_inv_def)
  from get_context_metadata_total [OF wf] obtain s1 md where g: "get_context_metadata demo_senv sdemo0 1 = Some (s1, md)"
    by blast
  obtain s2 res where a: "st_append_turn demo_senv 200 s1 1 0 ''T'' 1 1 0 1 (replicate 32 1) [9] = (s2, res)"
    by (cases "st_append_turn demo_senv 200 s1 1 0 ''T'' 1 1 0 1 (replicate 32 1) [9]")
  obtain t r where t: "append_turn demo_sum 200 (turn_store sdemo0) 1 0 (replicate 32 1) 1 ''T'' 1 0 1 = (t, Inr r)"
    by (simp add: append_turn_eq resolve_parent_def Let_def)
  with st_append_turn_parts(5) [OF check_demo a] get_context_metadata_stores [OF g] obtain md' where res: "res = Inr (r, md')"
    by auto
  from empty_context_metadata_sticks [OF wf _ _ _ g a [unfolded res]] a g res show ?thesis by auto
qed

text \<open>Only the append that first stores a context's metadata updates the indexes.  Once the metadata is
  cached, a successful append moves the head and its depth, but every search over the new store answers as over the
  old one: a query on the depth of a context sees the depth it had when it was indexed.\<close>

theorem search_ignores_later_appends:
  assumes "context_metadata_cache s c = Some cached"
    and "st_append_turn env now s c p ty ver enc cmp len hash payload = (s', Inr (r, md))"
  shows "st_get_head s' c = Inr (new_head c (tr_turn_id r) (tr_depth r) now) \<and>
    search_contexts_parsed cenv s' query live limit = search_contexts_parsed cenv s query live limit"
proof -
  from assms(2) obtain raw be where ck: "check_payload env cmp len hash payload = Inr raw"
    and t: "append_turn (se_crc env) now (turn_store s) c p hash enc ty ver cmp len = (turn_store s', Inr r)"
    by (rule st_append_InrE)
  from st_append_turn_parts(5) [OF ck assms(2) t] assms(1) have "secondary_indexes s' = secondary_indexes s" by auto
  moreover from append_turn_head [OF t] have "get_head (turn_store s') c = Inr (new_head c (tr_turn_id r) (tr_depth r) now)"
    by (simp add: get_head_def)
  ultimately show ?thesis by (simp add: search_contexts_parsed_def st_get_head_def)
qed

theorem search_ignores_later_appends_witness:
  "\<exists>s2 r. st_append_turn demo_senv 300 sdemo1 1 0 ''T'' 1 1 0 1 (replicate 32 1) [9] = (s2, Inr (r, None)) \<and>
    (\<forall>q live. search_contexts_parsed demo_env s2 q live None = search_contexts_parsed demo_env sdemo1 q live None)"
proof -
  from sdemo_append obtain r where
    a: "st_append_turn demo_senv 200 sdemo0 1 0 ''T'' 1 1 0 1 (replicate 32 1) [9] = (sdemo1, Inr (r, None))" ..
  from a obtain raw be where ck: "check_payload demo_senv 0 1 (replicate 32 1) [9] = Inr raw"
    and t: "append_turn demo_sum 200 (turn_store sdemo0) 1 0 (replicate 32 1) 1 ''T'' 1 0 1 = (turn_store sdemo1, Inr r)"
    by (rule st_append_InrE) simp_all
  from st_append_turn_parts(5) [OF ck a, of "turn_store sdemo1" "Inr r"] t
  have cached: "context_metadata_cache sdemo1 1 = Some None" by (auto simp: extract_context_metadata_def)
  obtain s2 res where b: "st_append_turn demo_senv 300 sdemo1 1 0 ''T'' 1 1 0 1 (replicate 32 1) [9] = (s2, res)"
    by (cases "st_append_turn demo_senv 300 sdemo1 1 0 ''T'' 1 1 0 1 (replicate 32 1) [9]")
  from append_turn_head [OF t] have "heads (turn_store sdemo1) 1 = Some (new_head 1 (tr_turn_id r) (tr_depth r) 200)" .
  moreover have "turns (turn_store sdemo1) (tr_turn_id r) = Some r" using t by (auto elim!: append_turn_InrE)
  ultimately have "\<exists>a d. resolve_parent (turn_store sdemo1) 1 0 = Inr (a, d)" by (auto simp: resolve_parent_def)
  then obtain t2 r2 where t2:
      "append_turn demo_sum 300 (turn_store sdemo1) 1 0 (replicate 32 1) 1 ''T'' 1 0 1 = (t2, Inr r2)"
    by (auto simp: append_turn_eq Let_def)
  from st_append_turn_parts(5) [OF check_demo b, of t2 "Inr r2"] t2 cached have res: "res = Inr (r2, None)" by auto
  from search_ignores_later_appends [OF cached b [unfolded res]] b res show ?thesis by blast
qed

end
