(* ===== verification/Store_Refine.thy ===== *)
theory Store_Refine
  imports Store_Props
begin

text \<open>
  What the store promises, without files, hashes or parent links: every turn stands for the list of payloads from
  the first turn to it, and every context for the list of payloads of its head turn.  The store's operations
  implement the operations on such logs.
\<close>

section \<open>Logs\<close>

record log_spec =
  lg_contexts :: "u64 \<rightharpoonup> bytes list"
  lg_turns :: "u64 \<rightharpoonup> bytes list"

definition spec_base :: "log_spec \<Rightarrow> u64 \<Rightarrow> bytes list option" where
  "spec_base L t = (if t = 0 then Some [] else lg_turns L t)"

definition spec_create :: "u64 \<Rightarrow> u64 \<Rightarrow> log_spec \<Rightarrow> log_spec option" where
  "spec_create c base L = map_option (\<lambda>l. L\<lparr>lg_contexts := (lg_contexts L)(c \<mapsto> l)\<rparr>) (spec_base L base)"

definition spec_append :: "u64 \<Rightarrow> u64 \<Rightarrow> u64 \<Rightarrow> bytes \<Rightarrow> log_spec \<Rightarrow> log_spec option" where
  "spec_append c p t raw L =
     map_option (\<lambda>l. L\<lparr>lg_contexts := (lg_contexts L)(c \<mapsto> l @ [raw]), lg_turns := (lg_turns L)(t \<mapsto> l @ [raw])\<rparr>)
       (if p = 0 then lg_contexts L c else lg_turns L p)"

definition spec_last :: "u64 \<Rightarrow> nat \<Rightarrow> log_spec \<Rightarrow> bytes list option" where
  "spec_last c n L = map_option (\<lambda>l. drop (length l - n) l) (lg_contexts L c)"

section \<open>The logs of a store\<close>

definition payload_of :: "store_env \<Rightarrow> Store \<Rightarrow> TurnRecord \<Rightarrow> bytes" where
  "payload_of env s r = (case sblob_get env s (tr_payload_hash r) of Inr v \<Rightarrow> v | Inl _ \<Rightarrow> [])"

definition turn_log :: "store_env \<Rightarrow> Store \<Rightarrow> u64 \<Rightarrow> bytes list" where
  "turn_log env s i =
     (case walk_back (turns (turn_store s)) i (unat i) of Inr rs \<Rightarrow> rev (map (payload_of env s) rs) | Inl _ \<Rightarrow> [])"

definition logs_of :: "store_env \<Rightarrow> Store \<Rightarrow> log_spec" where
  "logs_of env s =
     \<lparr>lg_contexts = (\<lambda>c. map_option (\<lambda>h. turn_log env s (ch_head_turn_id h)) (heads (turn_store s) c)),
      lg_turns = (\<lambda>i. map_option (\<lambda>_. turn_log env s i) (turns (turn_store s) i))\<rparr>"

lemma ancestry_short:
  assumes "dag_wf s" and "ancestry (turns s) i rs"
  shows "length rs \<le> unat i"
proof (cases rs)
  case (Cons r rs')
  with assms(2) have r: "turns s i = Some r" by (simp add: ancestry_Cons)
  from ancestry_depths [OF assms] Cons have "unat (tr_depth r) = length rs'" by simp
  moreover from dag_wf_turnD(1) [OF assms(1) r] have "unat (tr_depth r) < unat i" by (simp add: turn_ok_def)
  ultimately show ?thesis using Cons by simp
qed simp

lemma turn_log_ancestry:
  assumes "dag_wf (turn_store s)" and "ancestry (turns (turn_store s)) i rs"
  shows "turn_log env s i = rev (map (payload_of env s) rs)"
  using ancestry_short [OF assms] by (simp add: turn_log_def walk_back_ancestry [OF assms(2)])

lemma turn_log_0 [simp]: "turn_log env s 0 = []"
  by (simp add: turn_log_def)

lemma turn_log_same:
  "turns (turn_store s') = turns (turn_store s) \<Longrightarrow> blob_store s' = blob_store s \<Longrightarrow> turn_log env s' = turn_log env s"
  by (rule ext) (simp add: turn_log_def payload_of_def [abs_def] split: sum.split)

text \<open>The two stores around a successful append.\<close>

lemma turn_log_append:
  assumes inv: "st_inv env s" "st_inv env s'"
    and ts: "turns (turn_store s') = (turns (turn_store s))(t \<mapsto> r)" "turns (turn_store s) t = None" "t \<noteq> 0"
    and keep: "\<forall>k v. sblob_get env s k = Inr v \<longrightarrow> sblob_get env s' k = Inr v"
    and raw: "sblob_get env s' (tr_payload_hash r) = Inr raw"
  shows "i = 0 \<or> turns (turn_store s) i \<noteq> None \<Longrightarrow> turn_log env s' i = turn_log env s i"
    and "tr_parent_turn_id r = 0 \<or> turns (turn_store s) (tr_parent_turn_id r) \<noteq> None \<Longrightarrow>
      turn_log env s' t = turn_log env s (tr_parent_turn_id r) @ [raw]"
proof -
  have wf: "dag_wf (turn_store s)" "dag_wf (turn_store s')" using inv by (simp_all add: st_inv_def ts_inv_def)
  have same: "payload_of env s' q = payload_of env s q" if "turns (turn_store s) j = Some q" for j q
    using that inv(1) keep unfolding st_inv_def payloads_ok_def payload_of_def by (metis sum.case(2))
  have old: "ancestry (turns (turn_store s')) i rs \<and> map (payload_of env s') rs = map (payload_of env s) rs"
    if "ancestry (turns (turn_store s)) i rs" for i rs
    using ancestry_upd [OF that ts(2)] ancestry_members [OF wf(1) that] same by (auto simp: ts(1))
  show "turn_log env s' i = turn_log env s i" if "i = 0 \<or> turns (turn_store s) i \<noteq> None" for i
  proof -
    from ancestry_ex [OF wf(1) that] obtain rs where rs: "ancestry (turns (turn_store s)) i rs" ..
    from old [OF rs] show ?thesis
      by (simp only: turn_log_ancestry [OF wf(1) rs] turn_log_ancestry [OF wf(2) conjunct1 [OF old [OF rs]]])
  qed
  show "turn_log env s' t = turn_log env s (tr_parent_turn_id r) @ [raw]"
    if p: "tr_parent_turn_id r = 0 \<or> turns (turn_store s) (tr_parent_turn_id r) \<noteq> None"
  proof -
    from ancestry_ex [OF wf(1) p] obtain rs where rs: "ancestry (turns (turn_store s)) (tr_parent_turn_id r) rs" ..
    have new: "ancestry (turns (turn_store s')) t (r # rs)" using old [OF rs] ts by (auto intro: ancestry.turn)
    have "payload_of env s' r = raw" by (simp add: payload_of_def raw)
    with conjunct2 [OF old [OF rs]] show ?thesis
      by (simp only: turn_log_ancestry [OF wf(1) rs] turn_log_ancestry [OF wf(2) new] list.map rev.simps)
  qed
qed

lemma logs_of_create:
  assumes "create_context crc now (turn_store s) base = (t, Inr h)" and "dag_wf (turn_store s)"
  shows "spec_create (ch_context_id h) base (logs_of env s) = Some (logs_of env (s\<lparr>turn_store := t\<rparr>))"
proof -
  from assms(1) have t: "turns t = turns (turn_store s)" "heads t = (heads (turn_store s))(ch_context_id h \<mapsto> h)"
    and r: "resolve_base (turn_store s) base = Inr (ch_head_turn_id h, ch_head_depth h)"
    by (auto simp: create_context_eq Let_def split: sum.splits)
  from resolve_base_Inr [OF assms(2) r] have b: "ch_head_turn_id h = base" "base \<noteq> 0 \<Longrightarrow> turns (turn_store s) base \<noteq> None"
    by (auto split: if_splits)
  have "turn_log env (s\<lparr>turn_store := t\<rparr>) = turn_log env s" by (rule turn_log_same) (simp_all add: t)
  with t b show ?thesis
    by (auto simp: spec_create_def spec_base_def logs_of_def fun_eq_iff)
qed

lemma create_error_logs:
  assumes "create_context crc now (turn_store s) base = (t, Inl e)"
  shows "spec_create c base (logs_of env s) = None \<and> t = turn_store s"
  using assms by (auto simp: create_context_eq resolve_base_def spec_create_def spec_base_def logs_of_def Let_def
      split: sum.splits if_splits option.splits)

lemma append_error_logs:
  assumes "resolve_parent (turn_store s) c p = Inl e" and "dag_wf (turn_store s)"
  shows "spec_append c p t raw (logs_of env s) = None"
  using assms turn_in_use [OF assms(2), of c]
  by (auto simp: resolve_parent_def spec_append_def logs_of_def split: if_splits option.splits)

text \<open>What a successful append does to blobs, turns and heads.\<close>

lemma append_blobs:
  assumes inv: "st_inv env s" and ok: "append_ok env s ty cmp len hash payload"
    and app: "st_append_turn env now s c p ty ver enc cmp len hash payload = (s', Inr (r, md))"
    and dec: "decompress env cmp payload = Inr raw"
    and coll: "\<forall>v. sblob_get env s hash = Inr v \<and> se_blake3 env v = se_blake3 env raw \<longrightarrow> v = raw"
  shows "sblob_get env s' hash = Inr raw" and "\<forall>k v. sblob_get env s k = Inr v \<longrightarrow> sblob_get env s' k = Inr v"
proof -
  from app obtain raw' be where ck: "check_payload env cmp len hash payload = Inr raw'"
    and put: "put_if_absent (se_crc env) (se_zenc env) (blob_store s) hash raw' = (blob_store s', be)"
    by (rule st_append_InrE)
  with dec have raw': "raw' = raw" by (auto simp: check_payload_def split: if_splits)
  have fits: "blob_fits (blob_store s) hash raw" using ok ck raw' by (simp add: append_ok_def)
  have binv: "blob_store_inv (se_crc env) (se_zenc env) (se_zdec env) (blob_store s)" using inv by (simp add: st_inv_def)
  have addr: "blob_store.addressed (se_crc env) (se_zdec env) (se_blake3 env) (blob_store s)"
    using inv by (simp add: st_inv_def payloads_ok_def blob_store.addressed_def)
  show "sblob_get env s' hash = Inr raw"
    using blob_store.put_get [OF binv fits addr] check_payload_InrD [OF ck] raw' put coll by auto
  show "\<forall>k v. sblob_get env s k = Inr v \<longrightarrow> sblob_get env s' k = Inr v"
    using blob_store.put_keeps [OF binv fits] put raw' by simp
qed

lemma append_logs:
  assumes inv: "st_inv env s" and ok: "append_ok env s ty cmp len hash payload"
    and app: "st_append_turn env now s c p ty ver enc cmp len hash payload = (s', Inr (r, md))"
    and dec: "decompress env cmp payload = Inr raw"
    and coll: "\<forall>v. sblob_get env s hash = Inr v \<and> se_blake3 env v = se_blake3 env raw \<longrightarrow> v = raw"
  shows "spec_append c p (tr_turn_id r) raw (logs_of env s) = Some (logs_of env s')"
proof -
  have inv': "st_inv env s'" by (rule st_inv_append [OF inv ok app])
  from inv have wf: "dag_wf (turn_store s)" by (simp add: st_inv_def ts_inv_def)
  note blobs = append_blobs [OF inv ok app dec coll]
  let ?t = "next_turn_id (turn_store s)"
  from app have "append_turn (se_crc env) now (turn_store s) c p hash enc ty ver cmp len = (turn_store s', Inr r)"
    by (rule st_append_InrE)
  then obtain parent d where res: "resolve_parent (turn_store s) c p = Inr (parent, d)"
    and r: "r = new_turn ?t parent d enc hash now" and ts: "turns (turn_store s') = (turns (turn_store s))(?t \<mapsto> r)"
    and hd: "heads (turn_store s') = (heads (turn_store s))(c \<mapsto> new_head c ?t d now)"
    by (elim append_turn_InrE) blast
  have fresh: "turns (turn_store s) ?t = None" "?t \<noteq> 0"
    using dag_wf_next_fresh [OF wf] wf unfolding dag_wf_def by auto
  have h: "sblob_get env s' (tr_payload_hash r) = Inr raw" by (simp add: r blobs)
  note logs = turn_log_append [OF inv inv' ts fresh blobs(2) h]
  have par: "tr_parent_turn_id r = 0 \<or> turns (turn_store s) (tr_parent_turn_id r) \<noteq> None"
    using resolve_parent_Inr [OF wf res] by (auto simp: r)
  have base: "(if p = 0 then lg_contexts (logs_of env s) c else lg_turns (logs_of env s) p) = Some (turn_log env s parent)"
    using res dag_wf_turnD(1) [OF wf] by (fastforce simp: resolve_parent_def logs_of_def turn_ok_def split: if_splits option.splits)
  have heads: "ch_head_turn_id hh = 0 \<or> turns (turn_store s) (ch_head_turn_id hh) \<noteq> None" if "heads (turn_store s) x = Some hh" for x hh
    using dag_wf_headD [OF wf that] by (auto simp: head_ok_def split: if_splits)
  have "lg_contexts (logs_of env s') = (lg_contexts (logs_of env s))(c \<mapsto> turn_log env s parent @ [raw])"
    using logs(2) [OF par] logs(1) heads by (auto simp: logs_of_def hd r fun_eq_iff map_option_case split: option.splits)
  moreover have "lg_turns (logs_of env s') = (lg_turns (logs_of env s))(?t \<mapsto> turn_log env s parent @ [raw])"
    using logs(2) [OF par] logs(1) by (auto simp: logs_of_def ts r fun_eq_iff map_option_case split: option.splits)
  ultimately show ?thesis by (simp add: spec_append_def base r)
qed

lemma get_last_logs:
  assumes inv: "st_inv env s" and out: "st_get_last env s c limit True = Inr out"
  shows "spec_last c (unat limit) (logs_of env s) = Some (map (\<lambda>tw. the (tw_payload tw)) out)"
proof -
  from inv have wf: "dag_wf (turn_store s)" by (simp add: st_inv_def ts_inv_def)
  from out obtain rs where rs: "get_last (turn_store s) c limit = Inr rs" "with_meta env s True rs = Inr out"
    by (auto simp: st_get_last_def)
  from rs(1) obtain h where h: "heads (turn_store s) c = Some h" by (auto simp: get_last_def split: option.splits)
  from head_ancestry [OF wf h] obtain as where as: "ancestry (turns (turn_store s)) (ch_head_turn_id h) as" ..
  with get_last_ancestry [OF h as, of limit] rs(1) have rs': "rs = rev (take (unat limit) as)" by simp
  have "map (\<lambda>tw. the (tw_payload tw)) out = map (payload_of env s) rs"
    using rs(2) by (induction rs arbitrary: out) (auto simp: payload_of_def map_sum_def split: sum.splits)
  moreover have "drop (length as - unat limit) (rev (map (payload_of env s) as)) = rev (map (payload_of env s) (take (unat limit) as))"
    by (cases "unat limit \<le> length as") (simp_all add: rev_map [symmetric] drop_rev take_map drop_map)
  ultimately show ?thesis
    by (simp add: spec_last_def logs_of_def h turn_log_ancestry [OF wf as] rs' rev_map)
qed

section \<open>Refinement\<close>

text \<open>C16. The store refines the logs.  On every reachable store: creating or forking a context gives it the log of its
  base turn, and fails exactly when the base turn has no log; an append adds the payload to the log of its context,
  or of the named parent turn, and gives the new turn that log; an append whose parent cannot be resolved has no
  counterpart and leaves the logs alone; and reading the last turns returns the end of the log.\<close>

theorem store_refines_logs:
  assumes "zstd_ok (se_zenc env) (se_zdec env)" and "st_reach env s"
  shows "(\<forall>now base s' h. st_create_context env now s base = (s', Inr h) \<or> st_fork_context env now s base = (s', Inr h) \<longrightarrow>
      spec_create (ch_context_id h) base (logs_of env s) = Some (logs_of env s')) \<and>
    (\<forall>now base s' e c. st_create_context env now s base = (s', Inl e) \<or> st_fork_context env now s base = (s', Inl e) \<longrightarrow>
      spec_create c base (logs_of env s) = None \<and> logs_of env s' = logs_of env s) \<and>
    (\<forall>now c p ty ver enc cmp len hash payload s' r md raw.
      append_ok env s ty cmp len hash payload \<and> decompress env cmp payload = Inr raw \<and>
      (\<forall>v. sblob_get env s hash = Inr v \<and> se_blake3 env v = se_blake3 env raw \<longrightarrow> v = raw) \<and>
      st_append_turn env now s c p ty ver enc cmp len hash payload = (s', Inr (r, md)) \<longrightarrow>
      spec_append c p (tr_turn_id r) raw (logs_of env s) = Some (logs_of env s')) \<and>
    (\<forall>c p e t raw. resolve_parent (turn_store s) c p = Inl e \<longrightarrow> spec_append c p t raw (logs_of env s) = None) \<and>
    (\<forall>c limit out. st_get_last env s c limit True = Inr out \<longrightarrow>
      spec_last c (unat limit) (logs_of env s) = Some (map (\<lambda>tw. the (tw_payload tw)) out))"
proof -
  from st_reach_inv [OF assms] have inv: "st_inv env s" .
  then have wf: "dag_wf (turn_store s)" by (simp add: st_inv_def ts_inv_def)
  have made: "create_context (se_crc env) now (turn_store s) base = (turn_store s', res) \<and> s' = s\<lparr>turn_store := turn_store s'\<rparr>"
    if "st_create_context env now s base = (s', res) \<or> st_fork_context env now s base = (s', res)" for now base s' res
    using that by (auto simp: st_create_context_def st_fork_context_def fork_context_def split: prod.splits)
  have "spec_create (ch_context_id h) base (logs_of env s) = Some (logs_of env s')"
    if "st_create_context env now s base = (s', Inr h) \<or> st_fork_context env now s base = (s', Inr h)" for now base s' h
    using logs_of_create [OF conjunct1 [OF made [OF that]] wf, of env] made [OF that] by simp
  moreover have "spec_create c base (logs_of env s) = None \<and> logs_of env s' = logs_of env s"
    if "st_create_context env now s base = (s', Inl e) \<or> st_fork_context env now s base = (s', Inl e)" for now base s' e c
    using create_error_logs [OF conjunct1 [OF made [OF that]], of c env] made [OF that] by simp
  moreover have "spec_append c p (tr_turn_id r) raw (logs_of env s) = Some (logs_of env s')"
    if "append_ok env s ty cmp len hash payload \<and> decompress env cmp payload = Inr raw \<and>
      (\<forall>v. sblob_get env s hash = Inr v \<and> se_blake3 env v = se_blake3 env raw \<longrightarrow> v = raw) \<and>
      st_append_turn env now s c p ty ver enc cmp len hash payload = (s', Inr (r, md))"
    for now c p ty ver enc cmp len hash payload s' r md raw
    using that by (elim conjE) (rule append_logs [OF inv])
  ultimately show ?thesis
    using append_error_logs [OF _ wf] get_last_logs [OF inv] by (intro conjI allI impI) simp_all
qed

theorem store_refines_logs_witness:
  "\<exists>s' r. st_append_turn demo_senv 200 sdemo0 1 0 ''T'' 1 1 0 1 (replicate 32 1) [9] = (s', Inr (r, None)) \<and>
    spec_append 1 0 (tr_turn_id r) [9] (logs_of demo_senv sdemo0) = Some (logs_of demo_senv s')"
proof -
  have z: "zstd_ok (se_zenc demo_senv) (se_zdec demo_senv)" by (simp add: demo_zstd_ok)
  from sdemo_append obtain r where
    a: "st_append_turn demo_senv 200 sdemo0 1 0 ''T'' 1 1 0 1 (replicate 32 1) [9] = (sdemo1, Inr (r, None))" ..
  have "decompress demo_senv 0 [9] = Inr [9]"
    "\<forall>v. sblob_get demo_senv sdemo0 (replicate 32 1) = Inr v \<and> se_blake3 demo_senv v = se_blake3 demo_senv [9] \<longrightarrow> v = [9]"
    by (simp_all add: decompress_def blob_get_None blob0_def)
  with conjunct1 [OF conjunct2 [OF conjunct2 [OF store_refines_logs [OF z sdemo0_reach]]]] append_ok_demo a
  have "spec_append 1 0 (tr_turn_id r) [9] (logs_of demo_senv sdemo0) = Some (logs_of demo_senv sdemo1)" by blast
  with a show ?thesis by blast
qed

end
