(* ===== verification/Protocol.thy ===== *)
theory Protocol
  imports Bytes
begin

text \<open>
  The binary protocol of the server (\<^verbatim>\<open>server/src/protocol/mod.rs\<close>): framing, the request parsers
  and the response encoders.

  A stream is the list of the bytes still to be read together with the reason why no more will come
  (\<open>ending\<close>: the peer closed the connection, or the read timed out).  A payload cursor that runs
  out of bytes gives \<^verbatim>\<open>UnexpectedEof\<close>.
\<close>

section \<open>Data\<close>

datatype MsgType = Hello | CtxCreate | CtxFork | GetHead | AppendTurn | GetLast | GetBefore
  | GetRangeByDepth | GetBlob | AttachFs | PutBlob | Error

fun msg_code :: "MsgType \<Rightarrow> u16" where
  "msg_code Hello = 1"
| "msg_code CtxCreate = 2"
| "msg_code CtxFork = 3"
| "msg_code GetHead = 4"
| "msg_code AppendTurn = 5"
| "msg_code GetLast = 6"
| "msg_code GetBefore = 7"
| "msg_code GetRangeByDepth = 8"
| "msg_code GetBlob = 9"
| "msg_code AttachFs = 10"
| "msg_code PutBlob = 11"
| "msg_code Error = 255"

record FrameHeader =
  fh_len :: u32
  fh_msg_type :: u16
  fh_flags :: u16
  fh_req_id :: u64

record AppendTurnRequest =
  ar_context_id :: u64
  ar_parent_turn_id :: u64
  ar_declared_type_id :: string
  ar_declared_type_version :: u32
  ar_encoding :: u32
  ar_compression :: u32
  ar_uncompressed_len :: u32
  ar_content_hash :: bytes
  ar_payload_bytes :: bytes
  ar_idempotency_key :: bytes
  ar_fs_root_hash :: "bytes option"

record AttachFsRequest =
  af_turn_id :: u64
  af_fs_root_hash :: bytes

record PutBlobRequest =
  pb_hash :: bytes
  pb_data :: bytes

record GetLastRequest =
  gl_context_id :: u64
  gl_limit :: u32
  gl_include_payload :: u32

record HelloRequest =
  hr_protocol_version :: u16
  hr_client_tag :: string
  hr_client_meta_json :: "string option"

definition MAX_FRAME_SIZE :: u32 where
  "MAX_FRAME_SIZE = 64 * 1024 * 1024"

section \<open>Frames\<close>

definition read_frame :: "io_kind \<Rightarrow> bytes \<Rightarrow> (FrameHeader \<times> bytes \<times> bytes) res" where
  "read_frame ending bs =
     rbind (ok_or (Io ending) (read_u32 bs)) (\<lambda>(len, bs).
     if MAX_FRAME_SIZE < len then
       Inl (InvalidInput (''frame size '' @ dec_str (unat len) @ '' exceeds maximum '' @ dec_str (unat MAX_FRAME_SIZE)))
     else
       ok_or (Io ending) (do {
         (msg_type, bs) \<leftarrow> read_u16 bs;
         (flags, bs) \<leftarrow> read_u16 bs;
         (req_id, bs) \<leftarrow> read_u64 bs;
         (payload, bs) \<leftarrow> read_exact (unat len) bs;
         Some (\<lparr>fh_len = len, fh_msg_type = msg_type, fh_flags = flags, fh_req_id = req_id\<rparr>, payload, bs)
       }))"

definition write_frame :: "u16 \<Rightarrow> u16 \<Rightarrow> u64 \<Rightarrow> bytes \<Rightarrow> bytes" where
  "write_frame msg_type flags req_id payload =
     write_u32 (of_nat (length payload)) @ write_u16 msg_type @ write_u16 flags @ write_u64 req_id @ payload"

section \<open>Requests\<close>

definition parse_ctx_create :: "bytes \<Rightarrow> u64 res" where
  "parse_ctx_create payload = map_sum id fst (ok_or (Io UnexpectedEof) (read_u64 payload))"

definition parse_ctx_fork :: "bytes \<Rightarrow> u64 res" where
  "parse_ctx_fork payload = parse_ctx_create payload"

definition parse_get_head :: "bytes \<Rightarrow> u64 res" where
  "parse_get_head payload = parse_ctx_create payload"

definition parse_get_last :: "bytes \<Rightarrow> GetLastRequest res" where
  "parse_get_last payload =
     ok_or (Io UnexpectedEof) (do {
       (context_id, bs) \<leftarrow> read_u64 payload;
       (limit, bs) \<leftarrow> read_u32 bs;
       (include_payload, bs) \<leftarrow> read_u32 bs;
       Some \<lparr>gl_context_id = context_id, gl_limit = limit, gl_include_payload = include_payload\<rparr>
     })"

definition parse_get_blob :: "bytes \<Rightarrow> bytes res" where
  "parse_get_blob payload =
     (if length payload \<noteq> 32 then Inl (InvalidInput ''invalid blob hash length'') else Inr payload)"

text \<open>\<^verbatim>\<open>flags & 1 != 0\<close>\<close>

definition fs_flag :: "u16 \<Rightarrow> bool" where
  "fs_flag flags \<longleftrightarrow> and flags 1 \<noteq> 0"

definition parse_append_turn :: "bytes \<Rightarrow> u16 \<Rightarrow> AppendTurnRequest res" where
  "parse_append_turn payload flags =
     rbind (ok_or (Io UnexpectedEof) (do {
       (context_id, bs) \<leftarrow> read_u64 payload;
       (parent_turn_id, bs) \<leftarrow> read_u64 bs;
       (type_id_len, bs) \<leftarrow> read_u32 bs;
       (type_id_bytes, bs) \<leftarrow> read_exact (unat type_id_len) bs;
       Some (context_id, parent_turn_id, type_id_bytes, bs)
     })) (\<lambda>(context_id, parent_turn_id, type_id_bytes, bs).
     rbind (ok_or (InvalidInput ''declared_type_id not utf8'') (from_utf8 type_id_bytes)) (\<lambda>declared_type_id.
     ok_or (Io UnexpectedEof) (do {
       (declared_type_version, bs) \<leftarrow> read_u32 bs;
       (encoding, bs) \<leftarrow> read_u32 bs;
       (compression, bs) \<leftarrow> read_u32 bs;
       (uncompressed_len, bs) \<leftarrow> read_u32 bs;
       (content_hash, bs) \<leftarrow> read_exact 32 bs;
       (payload_len, bs) \<leftarrow> read_u32 bs;
       (payload_bytes, bs) \<leftarrow> read_exact (unat payload_len) bs;
       (idempotency_len, bs) \<leftarrow> read_u32 bs;
       (idempotency_key, bs) \<leftarrow>
         (if 0 < idempotency_len then read_exact (unat idempotency_len) bs else Some ([], bs));
       (fs_root_hash, bs) \<leftarrow>
         (if fs_flag flags then map_option (map_prod Some id) (read_exact 32 bs) else Some (None, bs));
       Some \<lparr>ar_context_id = context_id, ar_parent_turn_id = parent_turn_id,
             ar_declared_type_id = declared_type_id, ar_declared_type_version = declared_type_version,
             ar_encoding = encoding, ar_compression = compression, ar_uncompressed_len = uncompressed_len,
             ar_content_hash = content_hash, ar_payload_bytes = payload_bytes,
             ar_idempotency_key = idempotency_key, ar_fs_root_hash = fs_root_hash\<rparr>
     })))"

definition parse_attach_fs :: "bytes \<Rightarrow> AttachFsRequest res" where
  "parse_attach_fs payload =
     (if length payload < 40 then Inl (InvalidInput ''attach_fs payload too short'')
      else ok_or (Io UnexpectedEof) (do {
        (turn_id, bs) \<leftarrow> read_u64 payload;
        (fs_root_hash, bs) \<leftarrow> read_exact 32 bs;
        Some \<lparr>af_turn_id = turn_id, af_fs_root_hash = fs_root_hash\<rparr>
      }))"

definition parse_put_blob :: "bytes \<Rightarrow> PutBlobRequest res" where
  "parse_put_blob payload =
     (if length payload < 36 then Inl (InvalidInput ''put_blob payload too short'')
      else ok_or (Io UnexpectedEof) (do {
        (hash, bs) \<leftarrow> read_exact 32 payload;
        (data_len, bs) \<leftarrow> read_u32 bs;
        (data, bs) \<leftarrow> read_exact (unat data_len) bs;
        Some \<lparr>pb_hash = hash, pb_data = data\<rparr>
      }))"

definition parse_hello :: "bytes \<Rightarrow> HelloRequest res" where
  "parse_hello payload =
     (if payload = [] then Inr \<lparr>hr_protocol_version = 0, hr_client_tag = [], hr_client_meta_json = None\<rparr>
      else if length payload < 4 then Inl (InvalidInput ''hello payload too short'')
      else
        rbind (ok_or (Io UnexpectedEof) (do {
          (protocol_version, bs) \<leftarrow> read_u16 payload;
          (client_tag_len, bs) \<leftarrow> read_u16 bs;
          Some (protocol_version, client_tag_len, bs)
        })) (\<lambda>(protocol_version, client_tag_len, bs).
        if length payload < 4 + unat client_tag_len + 4 then Inl (InvalidInput ''hello payload truncated'')
        else
          rbind (ok_or (Io UnexpectedEof)
            (if 0 < client_tag_len then read_exact (unat client_tag_len) bs else Some ([], bs))) (\<lambda>(tag_bytes, bs).
          rbind (ok_or (InvalidInput ''client_tag not utf8'') (from_utf8 tag_bytes)) (\<lambda>client_tag.
          rbind (ok_or (Io UnexpectedEof) (read_u32 bs)) (\<lambda>(meta_len, bs).
          if 0 < meta_len then
            rbind (ok_or (Io UnexpectedEof) (read_exact (unat meta_len) bs)) (\<lambda>(meta_bytes, bs).
            rbind (ok_or (InvalidInput ''client_meta_json not utf8'') (from_utf8 meta_bytes)) (\<lambda>meta_json.
            Inr \<lparr>hr_protocol_version = protocol_version, hr_client_tag = client_tag,
                 hr_client_meta_json = Some meta_json\<rparr>))
          else
            Inr \<lparr>hr_protocol_version = protocol_version, hr_client_tag = client_tag,
                 hr_client_meta_json = None\<rparr>)))))"

section \<open>Responses\<close>

definition encode_attach_fs_resp :: "u64 \<Rightarrow> bytes \<Rightarrow> bytes" where
  "encode_attach_fs_resp turn_id fs_root_hash = write_u64 turn_id @ fs_root_hash"

definition encode_put_blob_resp :: "bytes \<Rightarrow> bool \<Rightarrow> bytes" where
  "encode_put_blob_resp hash was_new = hash @ [if was_new then 1 else 0]"

definition encode_ctx_create_resp :: "u64 \<Rightarrow> u64 \<Rightarrow> u32 \<Rightarrow> bytes" where
  "encode_ctx_create_resp context_id head_turn_id head_depth =
     write_u64 context_id @ write_u64 head_turn_id @ write_u32 head_depth"

definition encode_append_ack :: "u64 \<Rightarrow> u64 \<Rightarrow> u32 \<Rightarrow> bytes \<Rightarrow> bytes" where
  "encode_append_ack context_id new_turn_id new_depth hash =
     write_u64 context_id @ write_u64 new_turn_id @ write_u32 new_depth @ hash"

definition encode_error :: "u32 \<Rightarrow> string \<Rightarrow> bytes" where
  "encode_error code detail = write_u32 code @ write_u32 (of_nat (length detail)) @ as_bytes detail"

definition encode_hello_resp :: "u64 \<Rightarrow> u16 \<Rightarrow> bytes" where
  "encode_hello_resp session_id protocol_version = write_u64 session_id @ write_u16 protocol_version"

section \<open>Framing lemmas\<close>

text \<open>A frame within the limit is read back, and exactly its bytes are taken from the stream.\<close>

lemma read_frame_write_frame:
  assumes "length payload \<le> unat MAX_FRAME_SIZE"
  shows "read_frame ending (write_frame ty flags req_id payload @ rest) =
    Inr (\<lparr>fh_len = of_nat (length payload), fh_msg_type = ty, fh_flags = flags, fh_req_id = req_id\<rparr>, payload, rest)"
proof -
  have "unat (of_nat (length payload) :: u32) = length payload"
    using assms by (simp add: MAX_FRAME_SIZE_def unat_of_nat)
  moreover from this have "\<not> MAX_FRAME_SIZE < of_nat (length payload)"
    using assms by (simp add: word_less_nat_alt)
  ultimately show ?thesis by (simp add: read_frame_def write_frame_def)
qed

lemma read_frame_InrD:
  assumes "read_frame ending bs = Inr (h, payload, rest)"
  shows "bs = write_frame (fh_msg_type h) (fh_flags h) (fh_req_id h) payload @ rest \<and>
    length payload = unat (fh_len h) \<and> fh_len h \<le> MAX_FRAME_SIZE"
proof -
  from assms have "fh_len h \<le> MAX_FRAME_SIZE" "length payload = unat (fh_len h)"
    "bs = write_u32 (fh_len h) @ write_u16 (fh_msg_type h) @ write_u16 (fh_flags h) @ write_u64 (fh_req_id h) @ payload @ rest"
    by (auto simp: read_frame_def bind_eq_Some_conv not_less dest!: read_invs split: if_splits)
  then show ?thesis by (simp add: write_frame_def)
qed

lemma length_write_frame [simp]: "length (write_frame ty flags req_id payload) = 16 + length payload"
  by (simp add: write_frame_def)

end
