(* ===== verification/Client.thy ===== *)
theory Client
  imports Protocol
begin

text \<open>
  The Rust client (\<^verbatim>\<open>clients/rust/src\<close>: \<^verbatim>\<open>protocol.rs\<close>, \<^verbatim>\<open>client.rs\<close>, \<^verbatim>\<open>context.rs\<close>,
  \<^verbatim>\<open>turn.rs\<close>, \<^verbatim>\<open>fs.rs\<close>): how requests are written, how responses are read, and the
  request/response exchange with its closed, cancelled and deadline checks.

  The connection is the bytes the peer sends back and the reason why they end; BLAKE3 is the parameter
  \<open>blake3\<close>; instants are natural numbers and the clock is an argument.
\<close>

section \<open>Data\<close>

datatype client_error =
    ClientClosed
  | ContextNotFound
  | TurnNotFound
  | InvalidResponse string
  | Server u32 string
  | CIo io_kind
  | Tls string
  | Timeout
  | Cancelled
  | QueueFull

type_synonym 'a cres = "client_error + 'a"

record AppendRequest =
  rq_context_id :: u64
  rq_parent_turn_id :: u64
  rq_type_id :: string
  rq_type_version :: u32
  rq_payload :: bytes
  rq_idempotency_key :: bytes
  rq_encoding :: u32
  rq_compression :: u32

record ClientTurnRecord =
  ct_turn_id :: u64
  ct_parent_id :: u64
  ct_depth :: u32
  ct_type_id :: string
  ct_type_version :: u32
  ct_encoding :: u32
  ct_compression :: u32
  ct_payload_hash :: bytes
  ct_payload :: bytes

record AppendResult =
  rs_context_id :: u64
  rs_turn_id :: u64
  rs_depth :: u32
  rs_payload_hash :: bytes

record ClientContextHead =
  cc_context_id :: u64
  cc_head_turn_id :: u64
  cc_head_depth :: u32

record RequestContext =
  rc_deadline :: "nat option"
  rc_cancelled :: bool

record ClientState =
  cl_req_id :: u64
  cl_closed :: bool
  cl_timeout :: nat
  cl_session_id :: u64
  cl_client_tag :: string

definition ENCODING_MSGPACK :: u32 where "ENCODING_MSGPACK = 1"
definition CLIENT_MAX_FRAME_SIZE :: u32 where "CLIENT_MAX_FRAME_SIZE = 64 * 1024 * 1024"

section \<open>Frames\<close>

definition client_write_frame :: "u16 \<Rightarrow> u16 \<Rightarrow> u64 \<Rightarrow> bytes \<Rightarrow> bytes" where
  "client_write_frame msg_type flags req_id payload =
     write_u32 (of_nat (length payload)) @ write_u16 msg_type @ write_u16 flags @ write_u64 req_id @ payload"

definition map_header_error :: "io_kind \<Rightarrow> client_error" where
  "map_header_error k =
     (if k = UnexpectedEof then InvalidResponse ''frame header truncated'' else CIo k)"

definition client_read_frame :: "io_kind \<Rightarrow> bytes \<Rightarrow> (FrameHeader \<times> bytes \<times> bytes) cres" where
  "client_read_frame ending bs =
     rbind (ok_or (map_header_error ending) (read_u32 bs)) (\<lambda>(len, bs).
     if CLIENT_MAX_FRAME_SIZE < len then
       Inl (InvalidResponse (''frame size '' @ dec_str (unat len) @ '' exceeds maximum ''
         @ dec_str (unat CLIENT_MAX_FRAME_SIZE)))
     else
       rbind (ok_or (map_header_error ending) (do {
         (msg_type, bs) \<leftarrow> read_u16 bs;
         (flags, bs) \<leftarrow> read_u16 bs;
         (req_id, bs) \<leftarrow> read_u64 bs;
         Some (\<lparr>fh_len = len, fh_msg_type = msg_type, fh_flags = flags, fh_req_id = req_id\<rparr>, bs)
       })) (\<lambda>(h, bs).
       rbind (ok_or (if ending = UnexpectedEof then InvalidResponse ''frame payload truncated'' else CIo ending)
         (read_exact (unat len) bs)) (\<lambda>(payload, bs).
       Inr (h, payload, bs))))"

section \<open>Requests\<close>

definition client_hello_payload :: "string \<Rightarrow> bytes" where
  "client_hello_payload client_tag =
     write_u16 1 @ write_u16 (of_nat (length client_tag)) @ as_bytes client_tag @ write_u32 0"

text \<open>\<^verbatim>\<open>create_context\<close>, \<^verbatim>\<open>fork_context\<close> and \<^verbatim>\<open>get_head\<close> send one number.\<close>

definition client_u64_payload :: "u64 \<Rightarrow> bytes" where
  "client_u64_payload n = write_u64 n"

definition client_encoding :: "AppendRequest \<Rightarrow> u32" where
  "client_encoding req = (if rq_encoding req = 0 then ENCODING_MSGPACK else rq_encoding req)"

definition client_append_payload :: "(bytes \<Rightarrow> bytes) \<Rightarrow> AppendRequest \<Rightarrow> bytes" where
  "client_append_payload blake3 req =
     write_u64 (rq_context_id req) @ write_u64 (rq_parent_turn_id req)
     @ write_u32 (of_nat (length (rq_type_id req))) @ as_bytes (rq_type_id req)
     @ write_u32 (rq_type_version req) @ write_u32 (client_encoding req) @ write_u32 (rq_compression req)
     @ write_u32 (of_nat (length (rq_payload req))) @ blake3 (rq_payload req)
     @ write_u32 (of_nat (length (rq_payload req))) @ rq_payload req
     @ write_u32 (of_nat (length (rq_idempotency_key req)))
     @ (if rq_idempotency_key req \<noteq> [] then rq_idempotency_key req else [])"

definition client_append_with_fs :: "(bytes \<Rightarrow> bytes) \<Rightarrow> AppendRequest \<Rightarrow> bytes option \<Rightarrow> u16 \<times> bytes" where
  "client_append_with_fs blake3 req fs_root_hash =
     (case fs_root_hash of
        None \<Rightarrow> (0, client_append_payload blake3 req)
      | Some hash \<Rightarrow> (or 0 1, client_append_payload blake3 req @ hash))"

definition client_get_last_payload :: "u64 \<Rightarrow> u32 \<Rightarrow> bool \<Rightarrow> bytes" where
  "client_get_last_payload context_id limit include_payload =
     write_u64 context_id @ write_u32 (if limit = 0 then 10 else limit)
     @ write_u32 (if include_payload then 1 else 0)"

definition client_attach_fs_payload :: "AttachFsRequest \<Rightarrow> bytes" where
  "client_attach_fs_payload req = write_u64 (af_turn_id req) @ af_fs_root_hash req"

definition client_put_blob_payload :: "(bytes \<Rightarrow> bytes) \<Rightarrow> bytes \<Rightarrow> bytes" where
  "client_put_blob_payload blake3 data = blake3 data @ write_u32 (of_nat (length data)) @ data"

section \<open>Responses\<close>

definition too_short :: "string \<Rightarrow> bytes \<Rightarrow> client_error" where
  "too_short what payload = InvalidResponse (what @ '' too short ('' @ dec_str (length payload) @ '' bytes)'')"

definition parse_context_head :: "bytes \<Rightarrow> ClientContextHead cres" where
  "parse_context_head payload =
     (if length payload < 20 then Inl (too_short ''context head'' payload)
      else ok_or (CIo UnexpectedEof) (do {
        (context_id, bs) \<leftarrow> read_u64 payload;
        (head_turn_id, bs) \<leftarrow> read_u64 bs;
        (head_depth, bs) \<leftarrow> read_u32 bs;
        Some \<lparr>cc_context_id = context_id, cc_head_turn_id = head_turn_id, cc_head_depth = head_depth\<rparr>
      }))"

definition parse_append_result :: "bytes \<Rightarrow> AppendResult cres" where
  "parse_append_result payload =
     (if length payload < 52 then Inl (too_short ''append response'' payload)
      else ok_or (CIo UnexpectedEof) (do {
        (context_id, bs) \<leftarrow> read_u64 payload;
        (turn_id, bs) \<leftarrow> read_u64 bs;
        (depth, bs) \<leftarrow> read_u32 bs;
        (hash, bs) \<leftarrow> read_exact 32 bs;
        Some \<lparr>rs_context_id = context_id, rs_turn_id = turn_id, rs_depth = depth, rs_payload_hash = hash\<rparr>
      }))"

definition parse_turn_record :: "bytes \<Rightarrow> (ClientTurnRecord \<times> bytes) cres" where
  "parse_turn_record bs =
     rbind (ok_or (CIo UnexpectedEof) (do {
       (turn_id, bs) \<leftarrow> read_u64 bs;
       (parent_id, bs) \<leftarrow> read_u64 bs;
       (depth, bs) \<leftarrow> read_u32 bs;
       (type_len, bs) \<leftarrow> read_u32 bs;
       (type_bytes, bs) \<leftarrow> read_exact (unat type_len) bs;
       Some (turn_id, parent_id, depth, type_bytes, bs)
     })) (\<lambda>(turn_id, parent_id, depth, type_bytes, bs).
     rbind (ok_or (InvalidResponse ''type_id not utf8'') (from_utf8 type_bytes)) (\<lambda>type_id.
     ok_or (CIo UnexpectedEof) (do {
       (type_version, bs) \<leftarrow> read_u32 bs;
       (encoding, bs) \<leftarrow> read_u32 bs;
       (compression, bs) \<leftarrow> read_u32 bs;
       (uncompressed_len, bs) \<leftarrow> read_u32 bs;
       (payload_hash, bs) \<leftarrow> read_exact 32 bs;
       (payload_len, bs) \<leftarrow> read_u32 bs;
       (payload_bytes, bs) \<leftarrow> read_exact (unat payload_len) bs;
       Some (\<lparr>ct_turn_id = turn_id, ct_parent_id = parent_id, ct_depth = depth, ct_type_id = type_id,
              ct_type_version = type_version, ct_encoding = encoding, ct_compression = compression,
              ct_payload_hash = payload_hash, ct_payload = payload_bytes\<rparr>, bs)
     })))"

fun parse_turn_record_loop :: "nat \<Rightarrow> bytes \<Rightarrow> ClientTurnRecord list cres" where
  "parse_turn_record_loop 0 bs = Inr []"
| "parse_turn_record_loop (Suc n) bs =
     rbind (parse_turn_record bs) (\<lambda>(r, bs). rbind (parse_turn_record_loop n bs) (\<lambda>rs. Inr (r # rs)))"

definition parse_turn_records :: "bytes \<Rightarrow> ClientTurnRecord list cres" where
  "parse_turn_records payload =
     (if length payload < 4 then Inl (InvalidResponse ''turn records too short'')
      else rbind (ok_or (CIo UnexpectedEof) (read_u32 payload)) (\<lambda>(count, bs).
        parse_turn_record_loop (unat count) bs))"

definition parse_attach_fs_result :: "bytes \<Rightarrow> AttachFsRequest cres" where
  "parse_attach_fs_result payload =
     (if length payload < 40 then Inl (too_short ''attach fs response'' payload)
      else ok_or (CIo UnexpectedEof) (do {
        (turn_id, bs) \<leftarrow> read_u64 payload;
        (hash, bs) \<leftarrow> read_exact 32 bs;
        Some \<lparr>af_turn_id = turn_id, af_fs_root_hash = hash\<rparr>
      }))"

definition parse_put_blob_result :: "bytes \<Rightarrow> (bytes \<times> bool) cres" where
  "parse_put_blob_result payload =
     (if length payload < 33 then Inl (too_short ''put blob response'' payload)
      else Inr (take 32 payload, payload ! 32 = 1))"

definition parse_server_error :: "bytes \<Rightarrow> client_error" where
  "parse_server_error payload =
     (if length payload < 8 then Server 0 ''unknown error''
      else
        let code = of_nat (le_val (take 4 payload));
            detail_len = unat (of_nat (le_val (take 4 (drop 4 payload))) :: u32);
            detail = (if 8 + detail_len \<le> length payload
                      then from_utf8_lossy (take detail_len (drop 8 payload)) else [])
        in Server code detail)"

section \<open>The exchange\<close>

definition compute_deadline :: "nat \<Rightarrow> ClientState \<Rightarrow> RequestContext \<Rightarrow> nat cres" where
  "compute_deadline now c ctx =
     (let deadline = now + cl_timeout c;
          deadline = (case rc_deadline ctx of
                        Some d \<Rightarrow> if d < deadline then d else deadline
                      | None \<Rightarrow> deadline)
      in if deadline \<le> now then Inl Timeout else Inr deadline)"

text \<open>
  \<^verbatim>\<open>send_request_with_flags\<close>: the new client state, the bytes written to the connection and the
  response.  The peer is a function from the bytes written to the bytes it answers with.
\<close>

definition send_request_with_flags ::
    "nat \<Rightarrow> (bytes \<Rightarrow> bytes) \<Rightarrow> io_kind \<Rightarrow> ClientState \<Rightarrow> RequestContext \<Rightarrow> u16 \<Rightarrow> u16 \<Rightarrow> bytes
     \<Rightarrow> ClientState \<times> bytes \<times> (FrameHeader \<times> bytes) cres" where
  "send_request_with_flags now peer ending c ctx msg_type flags payload =
     (if cl_closed c then (c, [], Inl ClientClosed)
      else if rc_cancelled ctx then (c, [], Inl Cancelled)
      else (case compute_deadline now c ctx of
              Inl e \<Rightarrow> (c, [], Inl e)
            | Inr effective_deadline \<Rightarrow>
                let req_id = cl_req_id c + 1;
                    c = c\<lparr>cl_req_id := req_id\<rparr>;
                    sent = client_write_frame msg_type flags req_id payload
                in (case client_read_frame ending (peer sent) of
                      Inl e \<Rightarrow> (c, sent, Inl e)
                    | Inr (h, resp, rest) \<Rightarrow>
                        if fh_msg_type h = msg_code Error then (c, sent, Inl (parse_server_error resp))
                        else (c, sent, Inr (h, resp)))))"

definition send_hello ::
    "nat \<Rightarrow> (bytes \<Rightarrow> bytes) \<Rightarrow> io_kind \<Rightarrow> ClientState \<Rightarrow> string \<Rightarrow> ClientState \<times> bytes \<times> unit cres" where
  "send_hello now peer ending c client_tag =
     (case send_request_with_flags now peer ending c
             \<lparr>rc_deadline = Some (now + cl_timeout c), rc_cancelled = False\<rparr>
             (msg_code Hello) 0 (client_hello_payload client_tag) of
        (c, sent, Inl e) \<Rightarrow> (c, sent, Inl e)
      | (c, sent, Inr (h, resp)) \<Rightarrow>
          if fh_msg_type h \<noteq> msg_code Hello then
            (c, sent, Inl (InvalidResponse (''unexpected response type: '' @ dec_str (unat (fh_msg_type h)))))
          else if 8 \<le> length resp then
            (c\<lparr>cl_session_id := of_nat (le_val (take 8 resp))\<rparr>, sent, Inr ())
          else (c, sent, Inr ()))"

definition client_close :: "ClientState \<Rightarrow> ClientState" where
  "client_close c = c\<lparr>cl_closed := True\<rparr>"

text \<open>Both ends agree on the frame format.\<close>

lemma client_write_frame_eq: "client_write_frame = write_frame"
  by (simp add: client_write_frame_def write_frame_def fun_eq_iff)

lemma client_read_frame_write_frame:
  assumes "length payload \<le> unat CLIENT_MAX_FRAME_SIZE"
  shows "client_read_frame ending (write_frame ty flags req_id payload @ rest) =
    Inr (\<lparr>fh_len = of_nat (length payload), fh_msg_type = ty, fh_flags = flags, fh_req_id = req_id\<rparr>, payload, rest)"
proof -
  have "unat (of_nat (length payload) :: u32) = length payload"
    using assms by (simp add: CLIENT_MAX_FRAME_SIZE_def unat_of_nat)
  moreover from this have "\<not> CLIENT_MAX_FRAME_SIZE < of_nat (length payload)"
    using assms by (simp add: word_less_nat_alt)
  ultimately show ?thesis by (simp add: client_read_frame_def write_frame_def)
qed

end
