(* ===== verification/Metrics.thy ===== *)
theory Metrics
  imports Prelude
begin

text \<open>
  The session tracker and the counters of \<^verbatim>\<open>server/src/metrics.rs\<close>.

  The tracker's two maps, each behind its own lock, are the fields of one record; an operation takes the
  locks one after the other, and is modelled as one step.  The clock is the argument \<open>now\<close>.  Of
  \<^verbatim>\<open>Metrics\<close> the counters, the activity map, the error log and the latency buffers are modelled; a
  latency sample is the duration itself, before its conversion to floating-point milliseconds.  The derived
  rates, the percentiles and the machine's memory and disk figures are not modelled.
\<close>

section \<open>Sessions\<close>

record ClientSession =
  cs_session_id :: u64
  cs_client_tag :: string
  cs_peer_addr :: "string option"
  cs_connected_at :: u64
  cs_last_activity_at :: u64
  cs_contexts_created :: "u64 list"

record SessionTracker =
  sessions :: "u64 \<rightharpoonup> ClientSession"
  context_to_session :: "u64 \<rightharpoonup> u64"

definition tracker_new :: SessionTracker where
  "tracker_new = \<lparr>sessions = Map.empty, context_to_session = Map.empty\<rparr>"

definition register :: "u64 \<Rightarrow> SessionTracker \<Rightarrow> u64 \<Rightarrow> string \<Rightarrow> string option \<Rightarrow> SessionTracker" where
  "register now t session_id client_tag peer_addr =
     (let session = \<lparr>cs_session_id = session_id, cs_client_tag = client_tag, cs_peer_addr = peer_addr,
                     cs_connected_at = now, cs_last_activity_at = now, cs_contexts_created = []\<rparr>
      in t\<lparr>sessions := (sessions t)(session_id \<mapsto> session)\<rparr>)"

definition get_peer_addr :: "SessionTracker \<Rightarrow> u64 \<Rightarrow> string option" where
  "get_peer_addr t session_id = Option.bind (sessions t session_id) cs_peer_addr"

definition record_activity :: "u64 \<Rightarrow> SessionTracker \<Rightarrow> u64 \<Rightarrow> SessionTracker" where
  "record_activity now t session_id =
     (case sessions t session_id of
        None \<Rightarrow> t
      | Some session \<Rightarrow>
          t\<lparr>sessions := (sessions t)(session_id \<mapsto> session\<lparr>cs_last_activity_at := now\<rparr>)\<rparr>)"

definition add_context :: "SessionTracker \<Rightarrow> u64 \<Rightarrow> u64 \<Rightarrow> SessionTracker" where
  "add_context t session_id context_id =
     (let t = t\<lparr>context_to_session := (context_to_session t)(context_id \<mapsto> session_id)\<rparr>
      in case sessions t session_id of
           None \<Rightarrow> t
         | Some session \<Rightarrow>
             if context_id \<notin> set (cs_contexts_created session) then
               t\<lparr>sessions := (sessions t)(session_id \<mapsto>
                   session\<lparr>cs_contexts_created := cs_contexts_created session @ [context_id]\<rparr>)\<rparr>
             else t)"

definition unregister :: "SessionTracker \<Rightarrow> u64 \<Rightarrow> SessionTracker \<times> u64 list" where
  "unregister t session_id =
     (case sessions t session_id of
        None \<Rightarrow> (t, [])
      | Some session \<Rightarrow>
          (t\<lparr>sessions := (sessions t)(session_id := None),
             context_to_session :=
               fold (\<lambda>ctx_id m. m(ctx_id := None)) (cs_contexts_created session) (context_to_session t)\<rparr>,
           cs_contexts_created session))"

definition get_session_for_context :: "SessionTracker \<Rightarrow> u64 \<Rightarrow> ClientSession option" where
  "get_session_for_context t context_id = Option.bind (context_to_session t context_id) (sessions t)"

definition get_active_sessions :: "(u64, ClientSession) hash_iter \<Rightarrow> SessionTracker \<Rightarrow> ClientSession list" where
  "get_active_sessions it t = map snd (it (sessions t))"

definition get_live_context_ids :: "SessionTracker \<Rightarrow> u64 set" where
  "get_live_context_ids t = dom (context_to_session t)"

definition get_client_tag :: "SessionTracker \<Rightarrow> u64 \<Rightarrow> string option" where
  "get_client_tag t session_id = map_option cs_client_tag (sessions t session_id)"

definition is_context_live :: "SessionTracker \<Rightarrow> u64 \<Rightarrow> bool" where
  "is_context_live t context_id \<longleftrightarrow> context_to_session t context_id \<noteq> None"

definition get_active_tags :: "(u64, ClientSession) hash_iter \<Rightarrow> SessionTracker \<Rightarrow> string set" where
  "get_active_tags it t =
     set (filter (\<lambda>tag. tag \<noteq> []) (map (\<lambda>p. cs_client_tag (snd p)) (it (sessions t))))"

section \<open>Counters\<close>

definition MAX_LATENCY_SAMPLES :: nat where "MAX_LATENCY_SAMPLES = 2048"
definition MAX_ERROR_ENTRIES :: nat where "MAX_ERROR_ENTRIES = 256"

record ErrorEntry =
  ee_timestamp_ms :: u64
  ee_kind :: string
  ee_status_code :: u16
  ee_message :: string
  ee_path :: "string option"

record LatencyStore =
  ls_append :: "nat list"
  ls_get_last :: "nat list"
  ls_get_blob :: "nat list"
  ls_http :: "nat list"

record Metrics =
  sessions_total :: u64
  sessions_active :: u64
  last_session_activity_ms :: u64
  next_session_id :: u64
  session_activity :: "u64 \<rightharpoonup> u64"
  append_total :: u64
  get_last_total :: u64
  get_blob_total :: u64
  registry_ingest_total :: u64
  http_total :: u64
  http_errors_total :: u64
  errors_total :: u64
  errors_by_type :: "string \<rightharpoonup> u64"
  recent_errors :: "ErrorEntry list"
  latencies :: LatencyStore

definition metrics_new :: Metrics where
  "metrics_new = \<lparr>sessions_total = 0, sessions_active = 0, last_session_activity_ms = 0, next_session_id = 1,
     session_activity = Map.empty, append_total = 0, get_last_total = 0, get_blob_total = 0,
     registry_ingest_total = 0, http_total = 0, http_errors_total = 0, errors_total = 0,
     errors_by_type = Map.empty, recent_errors = [],
     latencies = \<lparr>ls_append = [], ls_get_last = [], ls_get_blob = [], ls_http = []\<rparr>\<rparr>"

definition register_session :: "u64 \<Rightarrow> Metrics \<Rightarrow> Metrics \<times> u64" where
  "register_session now m =
     (let session_id = next_session_id m
      in (m\<lparr>next_session_id := session_id + 1, sessions_total := sessions_total m + 1,
            sessions_active := sessions_active m + 1, last_session_activity_ms := now,
            session_activity := (session_activity m)(session_id \<mapsto> now)\<rparr>, session_id))"

definition record_session_activity :: "u64 \<Rightarrow> Metrics \<Rightarrow> u64 \<Rightarrow> Metrics" where
  "record_session_activity now m session_id =
     (let m = m\<lparr>last_session_activity_ms := now\<rparr>
      in case session_activity m session_id of
           None \<Rightarrow> m
         | Some _ \<Rightarrow> m\<lparr>session_activity := (session_activity m)(session_id \<mapsto> now)\<rparr>)"

text \<open>\<^verbatim>\<open>SessionGuard::drop\<close>\<close>

definition unregister_session :: "Metrics \<Rightarrow> u64 \<Rightarrow> Metrics" where
  "unregister_session m session_id =
     m\<lparr>sessions_active := sessions_active m - 1, session_activity := (session_activity m)(session_id := None)\<rparr>"

definition push_sample :: "nat list \<Rightarrow> nat \<Rightarrow> nat list" where
  "push_sample buf value = (if length buf = MAX_LATENCY_SAMPLES then tl buf else buf) @ [value]"

definition record_append :: "Metrics \<Rightarrow> nat \<Rightarrow> Metrics" where
  "record_append m duration =
     m\<lparr>append_total := append_total m + 1,
       latencies := (latencies m)\<lparr>ls_append := push_sample (ls_append (latencies m)) duration\<rparr>\<rparr>"

definition record_get_last :: "Metrics \<Rightarrow> nat \<Rightarrow> Metrics" where
  "record_get_last m duration =
     m\<lparr>get_last_total := get_last_total m + 1,
       latencies := (latencies m)\<lparr>ls_get_last := push_sample (ls_get_last (latencies m)) duration\<rparr>\<rparr>"

definition record_get_blob :: "Metrics \<Rightarrow> nat \<Rightarrow> Metrics" where
  "record_get_blob m duration =
     m\<lparr>get_blob_total := get_blob_total m + 1,
       latencies := (latencies m)\<lparr>ls_get_blob := push_sample (ls_get_blob (latencies m)) duration\<rparr>\<rparr>"

definition record_registry_ingest :: "Metrics \<Rightarrow> Metrics" where
  "record_registry_ingest m = m\<lparr>registry_ingest_total := registry_ingest_total m + 1\<rparr>"

definition record_http :: "Metrics \<Rightarrow> u16 \<Rightarrow> nat \<Rightarrow> Metrics" where
  "record_http m status_code duration =
     (let m = m\<lparr>http_total := http_total m + 1\<rparr>;
          m = (if 400 \<le> status_code then m\<lparr>http_errors_total := http_errors_total m + 1\<rparr> else m)
      in m\<lparr>latencies := (latencies m)\<lparr>ls_http := push_sample (ls_http (latencies m)) duration\<rparr>\<rparr>)"

definition record_error :: "u64 \<Rightarrow> Metrics \<Rightarrow> string \<Rightarrow> u16 \<Rightarrow> string \<Rightarrow> string option \<Rightarrow> Metrics" where
  "record_error now m kind status_code message path =
     (let entry = \<lparr>ee_timestamp_ms = now, ee_kind = kind, ee_status_code = status_code, ee_message = message,
                   ee_path = path\<rparr>;
          buf = recent_errors m;
          buf = (if MAX_ERROR_ENTRIES \<le> length buf then tl buf else buf)
      in m\<lparr>errors_total := errors_total m + 1,
           errors_by_type := (errors_by_type m)(kind \<mapsto> (case errors_by_type m kind of None \<Rightarrow> 0 | Some n \<Rightarrow> n) + 1),
           recent_errors := buf @ [entry]\<rparr>)"

definition list_recent_errors :: "Metrics \<Rightarrow> nat \<Rightarrow> ErrorEntry list" where
  "list_recent_errors m limit = take limit (rev (recent_errors m))"

text \<open>The session figures of \<^verbatim>\<open>snapshot\<close>: \<^verbatim>\<open>saturating_sub\<close> and \<^verbatim>\<open>saturating_mul\<close> on 64 bits.\<close>

definition idle_sessions :: "(u64, u64) hash_iter \<Rightarrow> Metrics \<Rightarrow> u64 \<Rightarrow> u64 \<Rightarrow> u64" where
  "idle_sessions it m idle_seconds now_ms =
     (let window = min (unat idle_seconds * 1000) (2 ^ 64 - 1);
          idle_cutoff = of_nat (unat now_ms - window)
      in of_nat (length (filter (\<lambda>p. snd p < idle_cutoff) (it (session_activity m)))))"

text \<open>The session figures are changed only when a session is opened or closed.\<close>

lemma sessions_kept [simp]:
  "next_session_id (record_append m d) = next_session_id m" "sessions_active (record_append m d) = sessions_active m"
  "next_session_id (record_get_last m d) = next_session_id m" "sessions_active (record_get_last m d) = sessions_active m"
  "next_session_id (record_get_blob m d) = next_session_id m" "sessions_active (record_get_blob m d) = sessions_active m"
  "next_session_id (record_error now m kind code msg path) = next_session_id m"
  "sessions_active (record_error now m kind code msg path) = sessions_active m"
  "next_session_id (record_session_activity now m i) = next_session_id m"
  "sessions_active (record_session_activity now m i) = sessions_active m"
  by (simp_all add: record_append_def record_get_last_def record_get_blob_def record_error_def
      record_session_activity_def Let_def split: option.split)

section \<open>Buffers stay bounded\<close>

definition metrics_bounded :: "Metrics \<Rightarrow> bool" where
  "metrics_bounded m \<longleftrightarrow>
     length (recent_errors m) \<le> MAX_ERROR_ENTRIES \<and>
     length (ls_append (latencies m)) \<le> MAX_LATENCY_SAMPLES \<and>
     length (ls_get_last (latencies m)) \<le> MAX_LATENCY_SAMPLES \<and>
     length (ls_get_blob (latencies m)) \<le> MAX_LATENCY_SAMPLES \<and>
     length (ls_http (latencies m)) \<le> MAX_LATENCY_SAMPLES"

lemma push_sample_bound: "length buf \<le> MAX_LATENCY_SAMPLES \<Longrightarrow> length (push_sample buf d) \<le> MAX_LATENCY_SAMPLES"
  by (auto simp: push_sample_def MAX_LATENCY_SAMPLES_def)

lemma metrics_bounded_ops:
  assumes "metrics_bounded m"
  shows "metrics_bounded (record_append m d)" "metrics_bounded (record_get_last m d)"
    "metrics_bounded (record_get_blob m d)" "metrics_bounded (record_http m code d)"
    "metrics_bounded (record_registry_ingest m)" "metrics_bounded (record_error now m kind code msg path)"
    "metrics_bounded (fst (register_session now m))" "metrics_bounded (record_session_activity now m i)"
    "metrics_bounded (unregister_session m i)"
  using assms push_sample_bound
  by (auto simp: metrics_bounded_def record_append_def record_get_last_def record_get_blob_def record_http_def
      record_registry_ingest_def record_error_def register_session_def record_session_activity_def
      unregister_session_def Let_def MAX_ERROR_ENTRIES_def split: option.splits)

lemma metrics_bounded_new: "metrics_bounded metrics_new"
  by (simp add: metrics_bounded_def metrics_new_def)

section \<open>The tracker's invariant\<close>

text \<open>The two maps agree: a context is live exactly when the session it points to is registered and lists it,
  and no two sessions list the same context.\<close>

definition tracker_inv :: "SessionTracker \<Rightarrow> bool" where
  "tracker_inv t \<longleftrightarrow>
     (\<forall>i s. sessions t i = Some s \<longrightarrow> cs_session_id s = i \<and> distinct (cs_contexts_created s)) \<and>
     (\<forall>c i. context_to_session t c = Some i \<longleftrightarrow> (\<exists>s. sessions t i = Some s \<and> c \<in> set (cs_contexts_created s)))"

lemma tracker_inv_new: "tracker_inv tracker_new"
  by (simp add: tracker_inv_def tracker_new_def)

lemma tracker_inv_register:
  "tracker_inv t \<Longrightarrow> sessions t i = None \<Longrightarrow> tracker_inv (register now t i tag addr)"
  by (auto simp: tracker_inv_def register_def Let_def)

lemma tracker_inv_activity: "tracker_inv t \<Longrightarrow> tracker_inv (record_activity now t i)"
  by (auto simp: tracker_inv_def record_activity_def split: option.splits if_splits)

lemma tracker_inv_add:
  assumes "tracker_inv t" and "sessions t i = Some s" and "context_to_session t c = None"
  shows "tracker_inv (add_context t i c)"
proof -
  have new: "c \<notin> set (cs_contexts_created r)" if "sessions t j = Some r" for j r
    using assms(1,3) that unfolding tracker_inv_def by (metis option.distinct(1))
  with assms show ?thesis by (auto simp: tracker_inv_def add_context_def Let_def)
qed

lemma fold_remove: "fold (\<lambda>k m. m(k := None)) ks m = (\<lambda>k. if k \<in> set ks then None else m k)"
  by (induction ks arbitrary: m) (auto simp: fun_eq_iff)

lemma tracker_inv_unregister:
  assumes "tracker_inv t" and "unregister t i = (t', cs)"
  shows "tracker_inv t' \<and> sessions t' = (sessions t)(i := None) \<and>
    get_live_context_ids t' = get_live_context_ids t - set cs \<and> (\<forall>c. context_to_session t' c \<noteq> Some i)"
proof (cases "sessions t i")
  case None
  with assms show ?thesis by (auto simp: unregister_def tracker_inv_def)
next
  case (Some s)
  then have t': "sessions t' = (sessions t)(i := None)" "cs = cs_contexts_created s"
      "context_to_session t' = (\<lambda>k. if k \<in> set cs then None else context_to_session t k)"
    using assms(2) by (auto simp: unregister_def fold_remove)
  have mine: "context_to_session t c = Some i \<longleftrightarrow> c \<in> set cs" for c
    using assms(1) Some t'(2) by (simp add: tracker_inv_def)
  have "context_to_session t c = Some j \<longleftrightarrow> (\<exists>s. sessions t j = Some s \<and> c \<in> set (cs_contexts_created s))" for c j
    using assms(1) by (simp add: tracker_inv_def)
  then have "context_to_session t' c = Some j \<longleftrightarrow> (\<exists>s. sessions t' j = Some s \<and> c \<in> set (cs_contexts_created s))" for c j
    using mine [of c] unfolding t'(1,3) by (cases "c \<in> set cs"; cases "j = i") (simp_all, metis option.inject)
  with assms(1) t' mine show ?thesis
    by (auto simp: tracker_inv_def get_live_context_ids_def split: if_splits)
qed

end
