(* ===== verification/Json.thy ===== *)
theory Json
  imports Bytes "HOL-Library.AList" "HOL-Library.Char_ord" "HOL-Library.List_Lexorder"
begin

text \<open>
  JSON values (\<^verbatim>\<open>serde_json::Value\<close>) and the maps of the standard library that the HTTP side of the server
  iterates over.  An object is the list of its members; \<^verbatim>\<open>serde_json::Map\<close> keeps them sorted by key.
  A \<^verbatim>\<open>HashMap\<close> that is iterated over is the list of its entries in the order in which it yields them,
  a \<^verbatim>\<open>BTreeMap\<close> the list of its entries by increasing key.
\<close>

datatype json = JNull | JBool bool | JInt int | JFloat u64 | JStr string | JList "json list" | JObj "(string \<times> json) list"

section \<open>Maps as lists of entries\<close>

fun bt_put :: "'k::linorder \<Rightarrow> 'v \<Rightarrow> ('k \<times> 'v) list \<Rightarrow> ('k \<times> 'v) list" where
  "bt_put k v [] = [(k, v)]"
| "bt_put k v ((k', v') # xs) =
     (if k < k' then (k, v) # (k', v') # xs else if k = k' then (k, v) # xs else (k', v') # bt_put k v xs)"

lemma map_of_bt_put [simp]: "map_of (bt_put k v xs) = (map_of xs)(k \<mapsto> v)"
  by (induction k v xs rule: bt_put.induct) auto

lemma keys_bt_put: "set (map fst (bt_put k v xs)) = insert k (set (map fst xs))"
  by (induction k v xs rule: bt_put.induct) auto

lemma sorted_bt_put: "sorted_wrt (<) (map fst xs) \<Longrightarrow> sorted_wrt (<) (map fst (bt_put k v xs))"
proof (induction k v xs rule: bt_put.induct)
  case (2 k v k' v' xs)
  then show ?case using keys_bt_put [of k v xs] by auto
qed simp

definition hm_put :: "'k \<Rightarrow> 'v \<Rightarrow> ('k \<times> 'v) list \<Rightarrow> ('k \<times> 'v) list" where
  "hm_put = AList.update"

lemma map_of_hm_put [simp]: "map_of (hm_put k v xs) = (map_of xs)(k \<mapsto> v)"
  by (simp add: hm_put_def update_conv')

lemma distinct_hm_put: "distinct (map fst xs) \<Longrightarrow> distinct (map fst (hm_put k v xs))"
  by (simp add: hm_put_def distinct_update)

text \<open>Equality of two hash maps does not see the order.\<close>

definition same_map :: "('k \<times> 'v) list \<Rightarrow> ('k \<times> 'v) list \<Rightarrow> bool" where
  "same_map xs ys \<longleftrightarrow>
     list_all (\<lambda>(k, v). map_of ys k = map_of xs k) xs \<and> list_all (\<lambda>(k, v). map_of xs k = map_of ys k) ys"

lemma same_map_iff: "same_map xs ys \<longleftrightarrow> map_of xs = map_of ys"
proof
  assume s: "same_map xs ys"
  show "map_of xs = map_of ys"
  proof
    fix k
    show "map_of xs k = map_of ys k"
    proof (cases "map_of xs k")
      case (Some v)
      with s show ?thesis by (fastforce simp: same_map_def list_all_iff dest: map_of_SomeD)
    next
      case None
      show ?thesis
      proof (rule ccontr)
        assume "map_of xs k \<noteq> map_of ys k"
        with None obtain v where "map_of ys k = Some v" by (cases "map_of ys k") auto
        moreover from map_of_SomeD [OF this] s have "map_of xs k = map_of ys k" by (auto simp: same_map_def list_all_iff)
        ultimately show False using None by simp
      qed
    qed
  qed
qed (auto simp: same_map_def list_all_iff)

definition obj_get :: "string \<Rightarrow> (string \<times> json) list \<Rightarrow> json option" where
  "obj_get k ms = map_of ms k"

section \<open>Access\<close>

text \<open>\<^verbatim>\<open>Value::get\<close>, \<^verbatim>\<open>as_str\<close>, \<^verbatim>\<open>as_array\<close>, \<^verbatim>\<open>as_bool\<close>, \<^verbatim>\<open>as_u64\<close> and what is put together from them.\<close>

definition jget :: "json \<Rightarrow> string \<Rightarrow> json option" where
  "jget v k = (case v of JObj ms \<Rightarrow> obj_get k ms | _ \<Rightarrow> None)"

definition j_str :: "json \<Rightarrow> string option" where
  "j_str v = (case v of JStr s \<Rightarrow> Some s | _ \<Rightarrow> None)"

definition j_array :: "json \<Rightarrow> json list option" where
  "j_array v = (case v of JList vs \<Rightarrow> Some vs | _ \<Rightarrow> None)"

definition j_bool :: "json \<Rightarrow> bool option" where
  "j_bool v = (case v of JBool b \<Rightarrow> Some b | _ \<Rightarrow> None)"

definition j_u64 :: "json \<Rightarrow> u64 option" where
  "j_u64 v = (case v of JInt i \<Rightarrow> if 0 \<le> i \<and> i < 2 ^ 64 then Some (of_int i) else None | _ \<Rightarrow> None)"

definition get_str :: "json \<Rightarrow> string \<Rightarrow> string option" where
  "get_str v k = Option.bind (jget v k) j_str"

definition get_array :: "json \<Rightarrow> string \<Rightarrow> json list option" where
  "get_array v k = Option.bind (jget v k) j_array"

definition or_else :: "'a option \<Rightarrow> 'a option \<Rightarrow> 'a option" where
  "or_else a b = (case a of Some x \<Rightarrow> Some x | None \<Rightarrow> b)"

definition or_default :: "'a list option \<Rightarrow> 'a list" where
  "or_default a = (case a of Some x \<Rightarrow> x | None \<Rightarrow> [])"

definition first_of :: "'a list \<Rightarrow> 'a option" where
  "first_of xs = (case xs of [] \<Rightarrow> None | x # _ \<Rightarrow> Some x)"

lemma size_obj_get: "map_of ms k = Some v \<Longrightarrow> size v < size (JObj ms)"
  by (induction ms) (auto split: if_splits)

text \<open>\<^verbatim>\<open>json!\<close> of an object literal and of an optional value.\<close>

definition jobj :: "(string \<times> json) list \<Rightarrow> json" where
  "jobj ms = JObj (foldl (\<lambda>obj (k, v). bt_put k v obj) [] ms)"

definition jopt :: "('a \<Rightarrow> json) \<Rightarrow> 'a option \<Rightarrow> json" where
  "jopt f v = (case v of None \<Rightarrow> JNull | Some a \<Rightarrow> f a)"

end
