(* ===== verification/Events.thy ===== *)
theory Events
  imports Metrics "HOL-Library.Sublist" Json
begin

text \<open>
  Event broadcasting (\<^verbatim>\<open>server/src/events.rs\<close>): the store events, their server-sent-event form and the bus
  that fans them out.

  The bus holds the sending ends of bounded channels.  A channel of \<^verbatim>\<open>std::sync::mpsc\<close> is the list of the
  buffered events and whether its receiver still exists; the bus refers to channels by number, since the
  receiving end lives with the subscriber.
\<close>

section \<open>Events\<close>

datatype StoreEvent =
    ContextCreated string string string u64
  | ContextMetadataUpdated string "string option" "string option" "string list option" bool
  | ContextLinked string string "string option" "string option"
  | TurnAppended string string string u32 "string option" "u32 option"
  | ClientConnected string string
  | ClientDisconnected string string "string list"
  | ErrorOccurred u64 string u16 string "string option"

definition opt_member :: "string \<Rightarrow> ('a \<Rightarrow> json) \<Rightarrow> 'a option \<Rightarrow> (string \<times> json) list" where
  "opt_member k f v = (case v of None \<Rightarrow> [] | Some x \<Rightarrow> [(k, f x)])"

fun event_type :: "StoreEvent \<Rightarrow> string" where
  "event_type (ContextCreated _ _ _ _) = ''context_created''"
| "event_type (ContextMetadataUpdated _ _ _ _ _) = ''context_metadata_updated''"
| "event_type (ContextLinked _ _ _ _) = ''context_linked''"
| "event_type (TurnAppended _ _ _ _ _ _) = ''turn_appended''"
| "event_type (ClientConnected _ _) = ''client_connected''"
| "event_type (ClientDisconnected _ _ _) = ''client_disconnected''"
| "event_type (ErrorOccurred _ _ _ _ _) = ''error_occurred''"

fun event_data :: "StoreEvent \<Rightarrow> json" where
  "event_data (ContextCreated context_id session_id client_tag created_at) =
     JObj [(''context_id'', JStr context_id), (''session_id'', JStr session_id), (''client_tag'', JStr client_tag),
           (''created_at'', JInt (uint created_at))]"
| "event_data (ContextMetadataUpdated context_id client_tag title labels has_provenance) =
     JObj ([(''context_id'', JStr context_id), (''has_provenance'', JBool has_provenance)]
           @ opt_member ''client_tag'' JStr client_tag @ opt_member ''title'' JStr title
           @ opt_member ''labels'' (\<lambda>l. JList (map JStr l)) labels)"
| "event_data (ContextLinked child_context_id parent_context_id root_context_id spawn_reason) =
     JObj ([(''child_context_id'', JStr child_context_id), (''parent_context_id'', JStr parent_context_id)]
           @ opt_member ''root_context_id'' JStr root_context_id @ opt_member ''spawn_reason'' JStr spawn_reason)"
| "event_data (TurnAppended context_id turn_id parent_turn_id depth declared_type_id declared_type_version) =
     JObj ([(''context_id'', JStr context_id), (''turn_id'', JStr turn_id), (''parent_turn_id'', JStr parent_turn_id),
            (''depth'', JInt (uint depth))]
           @ opt_member ''declared_type_id'' JStr declared_type_id
           @ opt_member ''declared_type_version'' (\<lambda>v. JInt (uint v)) declared_type_version)"
| "event_data (ClientConnected session_id client_tag) =
     JObj [(''session_id'', JStr session_id), (''client_tag'', JStr client_tag)]"
| "event_data (ClientDisconnected session_id client_tag contexts) =
     JObj [(''session_id'', JStr session_id), (''client_tag'', JStr client_tag), (''contexts'', JList (map JStr contexts))]"
| "event_data (ErrorOccurred timestamp_ms kind status_code message path) =
     JObj ([(''timestamp_ms'', JInt (uint timestamp_ms)), (''kind'', JStr kind),
            (''status_code'', JInt (uint status_code)), (''message'', JStr message)]
           @ opt_member ''path'' JStr path)"

text \<open>\<^verbatim>\<open>to_sse\<close>; \<open>to_string\<close> is serde_json's printer.\<close>

definition to_sse :: "(json \<Rightarrow> string) \<Rightarrow> StoreEvent \<Rightarrow> string \<times> string" where
  "to_sse to_string e = (event_type e, to_string (event_data e))"

section \<open>The bus\<close>

definition SUBSCRIBER_CHANNEL_BOUND :: nat where "SUBSCRIBER_CHANNEL_BOUND = 4096"

record channel =
  chan_buffer :: "StoreEvent list"
  chan_receiver :: bool

record EventBus =
  subscribers :: "nat list"
  channels :: "nat \<rightharpoonup> channel"
  next_channel :: nat

definition bus_new :: EventBus where
  "bus_new = \<lparr>subscribers = [], channels = Map.empty, next_channel = 0\<rparr>"

definition subscribe :: "EventBus \<Rightarrow> EventBus \<times> nat" where
  "subscribe b =
     (let i = next_channel b
      in (b\<lparr>subscribers := subscribers b @ [i],
            channels := (channels b)(i \<mapsto> \<lparr>chan_buffer = [], chan_receiver = True\<rparr>),
            next_channel := i + 1\<rparr>, i))"

datatype send_result = Sent | Full | Disconnected

text \<open>\<^verbatim>\<open>SyncSender::try_send\<close>\<close>

definition try_send :: "(nat \<rightharpoonup> channel) \<Rightarrow> nat \<Rightarrow> StoreEvent \<Rightarrow> (nat \<rightharpoonup> channel) \<times> send_result" where
  "try_send cs i event =
     (case cs i of
        None \<Rightarrow> (cs, Disconnected)
      | Some c \<Rightarrow>
          if \<not> chan_receiver c then (cs, Disconnected)
          else if SUBSCRIBER_CHANNEL_BOUND \<le> length (chan_buffer c) then (cs, Full)
          else (cs(i \<mapsto> c\<lparr>chan_buffer := chan_buffer c @ [event]\<rparr>), Sent))"

fun retain_send :: "StoreEvent \<Rightarrow> nat list \<Rightarrow> (nat \<rightharpoonup> channel) \<Rightarrow> nat list \<times> (nat \<rightharpoonup> channel)" where
  "retain_send event [] cs = ([], cs)"
| "retain_send event (i # subs) cs =
     (case try_send cs i event of (cs, r) \<Rightarrow>
        (case retain_send event subs cs of (kept, cs) \<Rightarrow>
           (if r = Disconnected then kept else i # kept, cs)))"

definition publish :: "EventBus \<Rightarrow> StoreEvent \<Rightarrow> EventBus" where
  "publish b event =
     (case retain_send event (subscribers b) (channels b) of (subs, cs) \<Rightarrow> b\<lparr>subscribers := subs, channels := cs\<rparr>)"

definition subscriber_count :: "EventBus \<Rightarrow> nat" where
  "subscriber_count b = length (subscribers b)"

text \<open>The receiving end: \<^verbatim>\<open>try_recv\<close>, and dropping the \<^verbatim>\<open>EventSubscriber\<close>.\<close>

definition try_recv :: "EventBus \<Rightarrow> nat \<Rightarrow> EventBus \<times> StoreEvent option" where
  "try_recv b i =
     (case channels b i of
        None \<Rightarrow> (b, None)
      | Some c \<Rightarrow>
          (case chan_buffer c of
             [] \<Rightarrow> (b, None)
           | e # es \<Rightarrow> (b\<lparr>channels := (channels b)(i \<mapsto> c\<lparr>chan_buffer := es\<rparr>)\<rparr>, Some e)))"

definition drop_subscriber :: "EventBus \<Rightarrow> nat \<Rightarrow> EventBus" where
  "drop_subscriber b i =
     (case channels b i of
        None \<Rightarrow> b
      | Some c \<Rightarrow> b\<lparr>channels := (channels b)(i \<mapsto> c\<lparr>chan_buffer := [], chan_receiver := False\<rparr>)\<rparr>)"

section \<open>What a subscriber sees\<close>

definition bus_inv :: "EventBus \<Rightarrow> bool" where
  "bus_inv b \<longleftrightarrow>
     distinct (subscribers b) \<and> set (subscribers b) \<subseteq> dom (channels b) \<and>
     (\<forall>i c. channels b i = Some c \<longrightarrow> i < next_channel b \<and> length (chan_buffer c) \<le> SUBSCRIBER_CHANNEL_BOUND \<and>
        (chan_receiver c \<longrightarrow> i \<in> set (subscribers b)))"

definition deliver :: "StoreEvent \<Rightarrow> channel \<Rightarrow> channel" where
  "deliver event c =
     (if chan_receiver c \<and> length (chan_buffer c) < SUBSCRIBER_CHANNEL_BOUND
      then c\<lparr>chan_buffer := chan_buffer c @ [event]\<rparr> else c)"

lemma deliver_receiver [simp]: "chan_receiver (deliver event c) = chan_receiver c"
  by (simp add: deliver_def)

lemma deliver_bound: "length (chan_buffer c) \<le> SUBSCRIBER_CHANNEL_BOUND \<Longrightarrow>
    length (chan_buffer (deliver event c)) \<le> SUBSCRIBER_CHANNEL_BOUND"
  by (simp add: deliver_def)

lemma try_send_eq:
  "cs i = Some c \<Longrightarrow> try_send cs i event =
    (cs(i \<mapsto> deliver event c),
     if \<not> chan_receiver c then Disconnected
     else if length (chan_buffer c) < SUBSCRIBER_CHANNEL_BOUND then Sent else Full)"
  by (auto simp: try_send_def deliver_def)

lemma retain_send_eq:
  assumes "distinct subs" and "set subs \<subseteq> dom cs"
  shows "retain_send event subs cs =
    (filter (\<lambda>i. chan_receiver (the (cs i))) subs,
     \<lambda>i. if i \<in> set subs then map_option (deliver event) (cs i) else cs i)"
  using assms
proof (induction subs arbitrary: cs)
  case (Cons i subs)
  from Cons.prems obtain c where c: "cs i = Some c" by auto
  let ?cs = "cs(i \<mapsto> deliver event c)"
  have "filter (\<lambda>j. chan_receiver (the (?cs j))) subs = filter (\<lambda>j. chan_receiver (the (cs j))) subs"
    using Cons.prems(1) by (intro filter_cong) auto
  moreover have "retain_send event subs ?cs = (filter (\<lambda>j. chan_receiver (the (?cs j))) subs,
      \<lambda>j. if j \<in> set subs then map_option (deliver event) (?cs j) else ?cs j)"
    using Cons.prems by (intro Cons.IH) auto
  ultimately show ?case using c Cons.prems(1) by (auto simp: try_send_eq fun_eq_iff)
qed (simp add: fun_eq_iff)

lemma publish_eq:
  assumes "bus_inv b"
  shows "publish b event = b\<lparr>subscribers := filter (\<lambda>i. chan_receiver (the (channels b i))) (subscribers b),
    channels := \<lambda>i. if i \<in> set (subscribers b) then map_option (deliver event) (channels b i) else channels b i\<rparr>"
  using assms by (simp add: publish_def bus_inv_def retain_send_eq)

lemma bus_inv_publish: "bus_inv b \<Longrightarrow> bus_inv (publish b event)"
  using deliver_bound by (subst publish_eq) (auto simp: bus_inv_def split: if_splits)

lemma bus_inv_subscribe: "bus_inv b \<Longrightarrow> bus_inv (fst (subscribe b))"
  by (fastforce simp: bus_inv_def subscribe_def Let_def split: if_splits)

lemma bus_inv_try_recv: "bus_inv b \<Longrightarrow> try_recv b i = (b', r) \<Longrightarrow> bus_inv b'"
  by (fastforce simp: bus_inv_def try_recv_def split: option.splits list.splits if_splits)

lemma bus_inv_drop: "bus_inv b \<Longrightarrow> bus_inv (drop_subscriber b i)"
  by (auto simp: bus_inv_def drop_subscriber_def split: option.splits if_splits)

text \<open>
  The history of one subscriber: what was published since it subscribed and what it has received, while other
  subscribers come, read and go.
\<close>

inductive sub_view :: "nat \<Rightarrow> EventBus \<Rightarrow> StoreEvent list \<Rightarrow> StoreEvent list \<Rightarrow> bool" for i where
  start: "bus_inv b \<Longrightarrow> subscribe b = (b', i) \<Longrightarrow> sub_view i b' [] []"
| publish: "sub_view i b ps rs \<Longrightarrow> sub_view i (publish b e) (ps @ [e]) rs"
| recv: "sub_view i b ps rs \<Longrightarrow> try_recv b i = (b', Some e) \<Longrightarrow> sub_view i b' ps (rs @ [e])"
| other_recv: "sub_view i b ps rs \<Longrightarrow> j \<noteq> i \<Longrightarrow> try_recv b j = (b', r) \<Longrightarrow> sub_view i b' ps rs"
| other_sub: "sub_view i b ps rs \<Longrightarrow> subscribe b = (b', j) \<Longrightarrow> sub_view i b' ps rs"
| other_drop: "sub_view i b ps rs \<Longrightarrow> j \<noteq> i \<Longrightarrow> sub_view i (drop_subscriber b j) ps rs"

definition view_ok :: "nat \<Rightarrow> EventBus \<Rightarrow> StoreEvent list \<Rightarrow> StoreEvent list \<Rightarrow> bool" where
  "view_ok i b ps rs \<longleftrightarrow> bus_inv b \<and>
     (\<exists>c. channels b i = Some c \<and> chan_receiver c \<and> subseq (rs @ chan_buffer c) ps \<and>
       (length ps \<le> SUBSCRIBER_CHANNEL_BOUND \<longrightarrow> rs @ chan_buffer c = ps))"

lemma view_ok_publish:
  assumes "view_ok i b ps rs"
  shows "view_ok i (publish b e) (ps @ [e]) rs"
proof -
  from assms obtain c where inv: "bus_inv b" and c: "channels b i = Some c" "chan_receiver c"
      "subseq (rs @ chan_buffer c) ps" "length ps \<le> SUBSCRIBER_CHANNEL_BOUND \<longrightarrow> rs @ chan_buffer c = ps"
    by (auto simp: view_ok_def)
  from inv c(1,2) have "i \<in> set (subscribers b)" by (auto simp: bus_inv_def)
  with inv c(1) have ch: "channels (publish b e) i = Some (deliver e c)" by (simp add: publish_eq)
  show ?thesis
  proof (cases "length (chan_buffer c) < SUBSCRIBER_CHANNEL_BOUND")
    case True
    with c(2) have "chan_buffer (deliver e c) = chan_buffer c @ [e]" by (simp add: deliver_def)
    moreover have "subseq ((rs @ chan_buffer c) @ [e]) (ps @ [e])" using c(3) by (intro list_emb_append_mono) auto
    ultimately show ?thesis using ch c bus_inv_publish [OF inv] by (simp add: view_ok_def)
  next
    case False
    then have "deliver e c = c" by (simp add: deliver_def)
    moreover have "length ps \<ge> length (chan_buffer c)" using list_emb_length [OF c(3)] by simp
    ultimately show ?thesis using ch c False bus_inv_publish [OF inv] by (auto simp: view_ok_def)
  qed
qed

lemma sub_view_ok: "sub_view i b ps rs \<Longrightarrow> view_ok i b ps rs"
proof (induction rule: sub_view.induct)
  case (start b b')
  with bus_inv_subscribe [of b] show ?case by (auto simp: view_ok_def subscribe_def Let_def)
next
  case (publish b ps rs e)
  then show ?case by (intro view_ok_publish)
next
  case (recv b ps rs b' e)
  then show ?case using bus_inv_try_recv [of b i b' "Some e"]
    by (auto simp: view_ok_def try_recv_def split: list.splits)
next
  case (other_recv b ps rs j b' r)
  then show ?case using bus_inv_try_recv [of b j b' r]
    by (auto simp: view_ok_def try_recv_def split: list.splits option.splits)
next
  case (other_sub b ps rs b' j)
  have "next_channel b \<noteq> i" using other_sub.IH by (auto simp: view_ok_def bus_inv_def)
  with other_sub bus_inv_subscribe [of b] show ?case by (auto simp: view_ok_def subscribe_def Let_def)
next
  case (other_drop b ps rs j)
  then show ?case using bus_inv_drop [of b j]
    by (auto simp: view_ok_def drop_subscriber_def split: option.splits)
qed

end
