(* ===== verification/Server.thy ===== *)
theory Server
  imports Store Client Events
begin

text \<open>
  The server's connection handler (\<^verbatim>\<open>server/src/main.rs\<close>): what one frame does to the store, the metrics,
  the session tracker and the event bus, the loop over the frames of a connection, and connections interleaving.

  \<^verbatim>\<open>handle_client\<close> leaves its loop in two ways: by \<^verbatim>\<open>break\<close>, after which the session is unregistered,
  and by \<^verbatim>\<open>?\<close>, which returns at once.  The outcome of a message keeps them apart: \<open>Reply\<close> and
  \<open>Fail\<close> are the two values of \<^verbatim>\<open>response\<close>, \<open>Abort\<close> is a \<^verbatim>\<open>?\<close> that fails.

  The clock is read once per frame (\<open>now\<close>); \<open>elapsed\<close> is the duration of the operation;
  \<open>wok\<close> tells whether writing the response to the socket succeeds; \<open>io_msg\<close> is the text of an I/O
  error.  The store is behind one lock, held for the whole of an arm of the match, so a frame is one step.
\<close>

section \<open>State\<close>

record ServerState =
  sv_store :: Store
  sv_metrics :: Metrics
  sv_tracker :: SessionTracker
  sv_bus :: EventBus

record Conn =
  cn_session_id :: u64
  cn_tag_received :: bool
  cn_client_tag :: string
  cn_peer_addr :: string

datatype outcome = Reply MsgType bytes | Fail store_error | Abort store_error

type_synonym handled = "ServerState \<times> Conn \<times> outcome"

definition id_str :: "u64 \<Rightarrow> string" where
  "id_str n = dec_str (unat n)"

abbreviation sv_publish :: "ServerState \<Rightarrow> StoreEvent \<Rightarrow> ServerState" where
  "sv_publish s e \<equiv> s\<lparr>sv_bus := publish (sv_bus s) e\<rparr>"

definition map_error :: "(io_kind \<Rightarrow> string) \<Rightarrow> store_error \<Rightarrow> u32 \<times> string" where
  "map_error io_msg err =
     (case err of
        NotFound msg \<Rightarrow> (404, msg)
      | InvalidInput msg \<Rightarrow> (422, msg)
      | Corrupt msg \<Rightarrow> (500, msg)
      | Io k \<Rightarrow> (500, io_msg k))"

section \<open>Messages\<close>

definition handle_hello :: "u64 \<Rightarrow> ServerState \<Rightarrow> Conn \<Rightarrow> bytes \<Rightarrow> handled" where
  "handle_hello now s c payload =
     (case parse_hello payload of
        Inl e \<Rightarrow> (s, c, Abort e)
      | Inr hello \<Rightarrow>
          let (s, c) =
            (if \<not> cn_tag_received c then
               (sv_publish
                  (s\<lparr>sv_tracker := register now (sv_tracker s) (cn_session_id c) (hr_client_tag hello)
                       (Some (cn_peer_addr c))\<rparr>)
                  (ClientConnected (id_str (cn_session_id c)) (hr_client_tag hello)),
                c\<lparr>cn_client_tag := hr_client_tag hello, cn_tag_received := True\<rparr>)
             else (s, c))
          in (s, c, Reply Hello (encode_hello_resp (cn_session_id c) 1)))"

text \<open>A connection that sends no handshake is registered with an empty tag by its first context.\<close>

definition ensure_registered :: "u64 \<Rightarrow> ServerState \<Rightarrow> Conn \<Rightarrow> ServerState \<times> Conn" where
  "ensure_registered now s c =
     (if \<not> cn_tag_received c then
        (s\<lparr>sv_tracker := register now (sv_tracker s) (cn_session_id c) [] (Some (cn_peer_addr c))\<rparr>,
         c\<lparr>cn_tag_received := True\<rparr>)
      else (s, c))"

text \<open>The tail of \<^verbatim>\<open>CTX_CREATE\<close> and \<^verbatim>\<open>CTX_FORK\<close> after the store has made the context.\<close>

definition context_made :: "u64 \<Rightarrow> ServerState \<Rightarrow> Conn \<Rightarrow> MsgType \<Rightarrow> ContextHead \<Rightarrow> handled" where
  "context_made now s c ty head =
     (let s = s\<lparr>sv_tracker := add_context (sv_tracker s) (cn_session_id c) (ch_context_id head)\<rparr>;
          s = sv_publish s (ContextCreated (id_str (ch_context_id head)) (id_str (cn_session_id c)) (cn_client_tag c) now)
      in (s, c, Reply ty (encode_ctx_create_resp (ch_context_id head) (ch_head_turn_id head) (ch_head_depth head))))"

definition handle_ctx_create :: "store_env \<Rightarrow> u64 \<Rightarrow> ServerState \<Rightarrow> Conn \<Rightarrow> bytes \<Rightarrow> handled" where
  "handle_ctx_create env now s c payload =
     (case ensure_registered now s c of (s, c) \<Rightarrow>
       (case parse_ctx_create payload of
          Inl e \<Rightarrow> (s, c, Abort e)
        | Inr base_turn_id \<Rightarrow>
            (case st_create_context env now (sv_store s) base_turn_id of
               (st, Inl e) \<Rightarrow> (s\<lparr>sv_store := st\<rparr>, c, Abort e)
             | (st, Inr head) \<Rightarrow> context_made now (s\<lparr>sv_store := st\<rparr>) c CtxCreate head)))"

definition handle_ctx_fork :: "store_env \<Rightarrow> u64 \<Rightarrow> ServerState \<Rightarrow> Conn \<Rightarrow> bytes \<Rightarrow> handled" where
  "handle_ctx_fork env now s c payload =
     (case ensure_registered now s c of (s, c) \<Rightarrow>
       (case parse_ctx_fork payload of
          Inl e \<Rightarrow> (s, c, Abort e)
        | Inr base_turn_id \<Rightarrow>
            (case st_fork_context env now (sv_store s) base_turn_id of
               (st, Inl e) \<Rightarrow> (s\<lparr>sv_store := st\<rparr>, c, Abort e)
             | (st, Inr head) \<Rightarrow> context_made now (s\<lparr>sv_store := st\<rparr>) c CtxFork head)))"

definition handle_get_head :: "ServerState \<Rightarrow> Conn \<Rightarrow> bytes \<Rightarrow> handled" where
  "handle_get_head s c payload =
     (case parse_get_head payload of
        Inl e \<Rightarrow> (s, c, Abort e)
      | Inr context_id \<Rightarrow>
          (case st_get_head (sv_store s) context_id of
             Inr head \<Rightarrow>
               (s, c, Reply GetHead (encode_ctx_create_resp (ch_context_id head) (ch_head_turn_id head) (ch_head_depth head)))
           | Inl e \<Rightarrow> (s, c, Fail e)))"

text \<open>The events of an append: the turn, the metadata when it was extracted, the link to a parent context.\<close>

definition append_events :: "AppendTurnRequest \<Rightarrow> TurnRecord \<Rightarrow> ContextMetadata option \<Rightarrow> StoreEvent list" where
  "append_events req rec metadata =
     TurnAppended (id_str (ar_context_id req)) (id_str (tr_turn_id rec)) (id_str (tr_parent_turn_id rec)) (tr_depth rec)
       (Some (ar_declared_type_id req)) (Some (ar_declared_type_version req)) #
     (case metadata of
        None \<Rightarrow> []
      | Some meta \<Rightarrow>
          ContextMetadataUpdated (id_str (ar_context_id req)) (cm_client_tag meta) (cm_title meta) (cm_labels meta)
            (cm_provenance meta \<noteq> None) #
          (case cm_provenance meta of
             None \<Rightarrow> []
           | Some prov \<Rightarrow>
               (case pv_parent_context_id prov of
                  None \<Rightarrow> []
                | Some parent_context_id \<Rightarrow>
                    [ContextLinked (id_str (ar_context_id req)) (id_str parent_context_id)
                       (map_option id_str (pv_root_context_id prov)) (pv_spawn_reason prov)])))"

definition handle_append_turn ::
    "store_env \<Rightarrow> u64 \<Rightarrow> nat \<Rightarrow> ServerState \<Rightarrow> Conn \<Rightarrow> u16 \<Rightarrow> bytes \<Rightarrow> handled" where
  "handle_append_turn env now elapsed s c flags payload =
     (case parse_append_turn payload flags of
        Inl e \<Rightarrow> (s, c, Abort e)
      | Inr req \<Rightarrow>
          (case st_append_turn env now (sv_store s) (ar_context_id req) (ar_parent_turn_id req)
                  (ar_declared_type_id req) (ar_declared_type_version req) (ar_encoding req) (ar_compression req)
                  (ar_uncompressed_len req) (ar_content_hash req) (ar_payload_bytes req) of
             (st, Inl e) \<Rightarrow> (s\<lparr>sv_store := st\<rparr>, c, Abort e)
           | (st, Inr (rec, metadata)) \<Rightarrow>
               (case (case ar_fs_root_hash req of
                        None \<Rightarrow> (st, Inr ())
                      | Some h \<Rightarrow> st_attach_fs env st (tr_turn_id rec) h) of
                  (st, Inl e) \<Rightarrow> (s\<lparr>sv_store := st\<rparr>, c, Abort e)
                | (st, Inr _) \<Rightarrow>
                    let s = s\<lparr>sv_store := st, sv_metrics := record_append (sv_metrics s) elapsed\<rparr>;
                        s = s\<lparr>sv_bus := foldl publish (sv_bus s) (append_events req rec metadata)\<rparr>
                    in (s, c, Reply AppendTurn (encode_append_ack (ar_context_id req) (tr_turn_id rec) (tr_depth rec)
                                (tr_payload_hash rec))))))"

definition handle_attach_fs :: "store_env \<Rightarrow> ServerState \<Rightarrow> Conn \<Rightarrow> bytes \<Rightarrow> handled" where
  "handle_attach_fs env s c payload =
     (case parse_attach_fs payload of
        Inl e \<Rightarrow> (s, c, Abort e)
      | Inr req \<Rightarrow>
          (case st_attach_fs env (sv_store s) (af_turn_id req) (af_fs_root_hash req) of
             (st, Inl e) \<Rightarrow> (s\<lparr>sv_store := st\<rparr>, c, Abort e)
           | (st, Inr _) \<Rightarrow>
               (s\<lparr>sv_store := st\<rparr>, c,
                Reply AttachFs (encode_attach_fs_resp (af_turn_id req) (af_fs_root_hash req)))))"

definition handle_put_blob :: "store_env \<Rightarrow> ServerState \<Rightarrow> Conn \<Rightarrow> bytes \<Rightarrow> handled" where
  "handle_put_blob env s c payload =
     (case parse_put_blob payload of
        Inl e \<Rightarrow> (s, c, Abort e)
      | Inr req \<Rightarrow>
          if se_blake3 env (pb_data req) \<noteq> pb_hash req then (s, c, Fail (InvalidInput ''blob hash mismatch''))
          else
            let was_new = \<not> contains (blob_store (sv_store s)) (pb_hash req)
            in (case put_if_absent (se_crc env) (se_zenc env) (blob_store (sv_store s)) (pb_hash req) (pb_data req) of
                  (b, Inl e) \<Rightarrow> (s\<lparr>sv_store := (sv_store s)\<lparr>blob_store := b\<rparr>\<rparr>, c, Abort e)
                | (b, Inr _) \<Rightarrow>
                    (s\<lparr>sv_store := (sv_store s)\<lparr>blob_store := b\<rparr>\<rparr>, c,
                     Reply PutBlob (encode_put_blob_resp (pb_hash req) was_new))))"

text \<open>One turn of a \<^verbatim>\<open>GET_LAST\<close> response: the payload and its length only when payloads were asked for.\<close>

definition encode_turn_item :: "TurnWithMeta \<Rightarrow> bytes" where
  "encode_turn_item item =
     write_u64 (tr_turn_id (tw_record item)) @ write_u64 (tr_parent_turn_id (tw_record item))
     @ write_u32 (tr_depth (tw_record item))
     @ write_u32 (of_nat (length (tm_declared_type_id (tw_meta item)))) @ as_bytes (tm_declared_type_id (tw_meta item))
     @ write_u32 (tm_declared_type_version (tw_meta item)) @ write_u32 (tm_encoding (tw_meta item))
     @ write_u32 (case tw_payload item of Some _ \<Rightarrow> 0 | None \<Rightarrow> tm_compression (tw_meta item))
     @ write_u32 (case tw_payload item of Some p \<Rightarrow> of_nat (length p) | None \<Rightarrow> tm_uncompressed_len (tw_meta item))
     @ tr_payload_hash (tw_record item)
     @ (case tw_payload item of None \<Rightarrow> [] | Some p \<Rightarrow> write_u32 (of_nat (length p)) @ p)"

definition encode_turn_items :: "TurnWithMeta list \<Rightarrow> bytes" where
  "encode_turn_items items = write_u32 (of_nat (length items)) @ concat (map encode_turn_item items)"

definition handle_get_last :: "store_env \<Rightarrow> nat \<Rightarrow> ServerState \<Rightarrow> Conn \<Rightarrow> bytes \<Rightarrow> handled" where
  "handle_get_last env elapsed s c payload =
     (case parse_get_last payload of
        Inl e \<Rightarrow> (s, c, Abort e)
      | Inr req \<Rightarrow>
          (case st_get_last env (sv_store s) (gl_context_id req) (gl_limit req) (gl_include_payload req \<noteq> 0) of
             Inl e \<Rightarrow> (s, c, Abort e)
           | Inr items \<Rightarrow>
               (s\<lparr>sv_metrics := record_get_last (sv_metrics s) elapsed\<rparr>, c, Reply GetLast (encode_turn_items items))))"

definition handle_get_blob :: "store_env \<Rightarrow> nat \<Rightarrow> ServerState \<Rightarrow> Conn \<Rightarrow> bytes \<Rightarrow> handled" where
  "handle_get_blob env elapsed s c payload =
     (case parse_get_blob payload of
        Inl e \<Rightarrow> (s, c, Abort e)
      | Inr hash \<Rightarrow>
          (case st_get_blob env (sv_store s) hash of
             Inr bytes \<Rightarrow>
               (s\<lparr>sv_metrics := record_get_blob (sv_metrics s) elapsed\<rparr>, c,
                Reply GetBlob (write_u32 (of_nat (length bytes)) @ bytes))
           | Inl e \<Rightarrow> (s, c, Fail e)))"

definition handle_message ::
    "store_env \<Rightarrow> u64 \<Rightarrow> nat \<Rightarrow> ServerState \<Rightarrow> Conn \<Rightarrow> FrameHeader \<Rightarrow> bytes \<Rightarrow> handled" where
  "handle_message env now elapsed s c header payload =
     (let x = fh_msg_type header in
      if x = msg_code Hello then handle_hello now s c payload
      else if x = msg_code CtxCreate then handle_ctx_create env now s c payload
      else if x = msg_code CtxFork then handle_ctx_fork env now s c payload
      else if x = msg_code GetHead then handle_get_head s c payload
      else if x = msg_code AppendTurn then handle_append_turn env now elapsed s c (fh_flags header) payload
      else if x = msg_code AttachFs then handle_attach_fs env s c payload
      else if x = msg_code PutBlob then handle_put_blob env s c payload
      else if x = msg_code GetLast then handle_get_last env elapsed s c payload
      else if x = msg_code GetBlob then handle_get_blob env elapsed s c payload
      else (s, c, Fail (InvalidInput ''unknown msg_type'')))"

section \<open>Frames and connections\<close>

text \<open>Writing the response: \<^verbatim>\<open>Inl\<close> when \<^verbatim>\<open>handle_client\<close> returns the error.\<close>

definition respond :: "(io_kind \<Rightarrow> string) \<Rightarrow> u64 \<Rightarrow> bool \<Rightarrow> ServerState \<Rightarrow> u64 \<Rightarrow> outcome \<Rightarrow> ServerState \<times> bytes res" where
  "respond io_msg now wok s req_id out =
     (case out of
        Abort e \<Rightarrow> (s, Inl e)
      | Reply ty resp \<Rightarrow>
          (s, if wok then Inr (write_frame (msg_code ty) 0 req_id resp) else Inl (Io OtherIo))
      | Fail err \<Rightarrow>
          (case map_error io_msg err of (code, detail) \<Rightarrow>
             (sv_publish (s\<lparr>sv_metrics := record_error now (sv_metrics s) ''binary'' (ucast code) detail None\<rparr>)
                (ErrorOccurred now ''binary'' (ucast code) detail None),
              if wok then Inr (write_frame (msg_code Error) 0 req_id (encode_error code detail)) else Inl (Io OtherIo))))"

definition handle_frame ::
    "store_env \<Rightarrow> (io_kind \<Rightarrow> string) \<Rightarrow> u64 \<Rightarrow> nat \<Rightarrow> bool \<Rightarrow> ServerState \<Rightarrow> Conn \<Rightarrow> FrameHeader \<Rightarrow> bytes
     \<Rightarrow> ServerState \<times> Conn \<times> bytes res" where
  "handle_frame env io_msg now elapsed wok s c header payload =
     (let s = s\<lparr>sv_metrics := record_session_activity now (sv_metrics s) (cn_session_id c),
                sv_tracker := record_activity now (sv_tracker s) (cn_session_id c)\<rparr>
      in case handle_message env now elapsed s c header payload of
           (s, c, out) \<Rightarrow> (case respond io_msg now wok s (fh_req_id header) out of (s, r) \<Rightarrow> (s, c, r)))"

text \<open>The end of \<^verbatim>\<open>handle_client\<close> after its loop; the session guard is dropped on every way out.\<close>

definition close_connection :: "ServerState \<Rightarrow> Conn \<Rightarrow> ServerState" where
  "close_connection s c =
     (case unregister (sv_tracker s) (cn_session_id c) of
        (t, orphaned) \<Rightarrow>
          let s = sv_publish (s\<lparr>sv_tracker := t\<rparr>)
                (ClientDisconnected (id_str (cn_session_id c)) (cn_client_tag c) (map id_str orphaned))
          in s\<lparr>sv_metrics := unregister_session (sv_metrics s) (cn_session_id c)\<rparr>)"

definition abort_connection :: "ServerState \<Rightarrow> Conn \<Rightarrow> ServerState" where
  "abort_connection s c = s\<lparr>sv_metrics := unregister_session (sv_metrics s) (cn_session_id c)\<rparr>"

definition open_connection :: "u64 \<Rightarrow> ServerState \<Rightarrow> string \<Rightarrow> ServerState \<times> Conn" where
  "open_connection now s peer_addr =
     (case register_session now (sv_metrics s) of
        (m, session_id) \<Rightarrow>
          (s\<lparr>sv_metrics := m\<rparr>,
           \<lparr>cn_session_id = session_id, cn_tag_received = False, cn_client_tag = [], cn_peer_addr = peer_addr\<rparr>))"

text \<open>The loop: the \<open>k\<close>-th frame is handled with the clock, duration and socket of \<open>clk k\<close>.\<close>

function handle_loop ::
    "store_env \<Rightarrow> (io_kind \<Rightarrow> string) \<Rightarrow> (nat \<Rightarrow> u64 \<times> nat \<times> bool) \<Rightarrow> nat \<Rightarrow> io_kind \<Rightarrow> ServerState \<Rightarrow> Conn \<Rightarrow> bytes \<Rightarrow> bytes
     \<Rightarrow> ServerState \<times> Conn \<times> bytes \<times> unit res" where
  "handle_loop env io_msg clk k ending s c bs sent =
     (case read_frame ending bs of
        Inl e \<Rightarrow>
          (s, c, sent, if e = Io UnexpectedEof \<or> e = Io WouldBlock \<or> e = Io TimedOut then Inr () else Inl e)
      | Inr (header, payload, rest) \<Rightarrow>
          (case clk k of (now, elapsed, wok) \<Rightarrow>
            (case handle_frame env io_msg now elapsed wok s c header payload of
               (s, c, Inl e) \<Rightarrow> (s, c, sent, Inl e)
             | (s, c, Inr frame) \<Rightarrow> handle_loop env io_msg clk (k + 1) ending s c rest (sent @ frame))))"
  by pat_completeness auto
termination
  by (relation "measure (\<lambda>(env, io_msg, clk, k, ending, s, c, bs, sent). length bs)")
    (auto dest!: read_frame_InrD)

declare handle_loop.simps [simp del]

definition handle_client ::
    "store_env \<Rightarrow> (io_kind \<Rightarrow> string) \<Rightarrow> (nat \<Rightarrow> u64 \<times> nat \<times> bool) \<Rightarrow> u64 \<Rightarrow> io_kind \<Rightarrow> ServerState \<Rightarrow> string \<Rightarrow> bytes
     \<Rightarrow> ServerState \<times> bytes \<times> unit res" where
  "handle_client env io_msg clk now ending s peer_addr bs =
     (case open_connection now s peer_addr of (s, c) \<Rightarrow>
       (case handle_loop env io_msg clk 0 ending s c bs [] of
          (s, c, sent, Inr _) \<Rightarrow> (close_connection s c, sent, Inr ())
        | (s, c, sent, Inl e) \<Rightarrow> (abort_connection s c, sent, Inl e)))"

text \<open>The accept loop's connection limit; 0 means unlimited.\<close>

definition admit :: "nat \<Rightarrow> nat \<Rightarrow> nat option" where
  "admit max_connections active = (if 0 < max_connections \<and> max_connections \<le> active then None else Some (active + 1))"

section \<open>Interleaved connections\<close>

definition server_start :: "Store \<Rightarrow> ServerState" where
  "server_start st = \<lparr>sv_store = st, sv_metrics = metrics_new, sv_tracker = tracker_new, sv_bus = bus_new\<rparr>"

text \<open>
  The server and its open connections, by session id.  Any open connection may be the next to have a frame
  handled; a frame that aborts closes its connection.
\<close>

inductive sv_step ::
    "store_env \<Rightarrow> (io_kind \<Rightarrow> string) \<Rightarrow> ServerState \<times> (u64 \<rightharpoonup> Conn) \<Rightarrow> ServerState \<times> (u64 \<rightharpoonup> Conn) \<Rightarrow> bool"
  for env io_msg where
  connect: "open_connection now s peer = (s', c) \<Longrightarrow> sv_step env io_msg (s, cs) (s', cs(cn_session_id c \<mapsto> c))"
| frame: "cs i = Some c \<Longrightarrow> length payload \<le> unat MAX_FRAME_SIZE \<Longrightarrow>
    handle_frame env io_msg now elapsed wok s c header payload = (s', c', Inr out) \<Longrightarrow>
    sv_step env io_msg (s, cs) (s', cs(i \<mapsto> c'))"
| abort: "cs i = Some c \<Longrightarrow> length payload \<le> unat MAX_FRAME_SIZE \<Longrightarrow>
    handle_frame env io_msg now elapsed wok s c header payload = (s', c', Inl e) \<Longrightarrow>
    sv_step env io_msg (s, cs) (abort_connection s' c', cs(i := None))"
| bad_frame: "cs i = Some c \<Longrightarrow> sv_step env io_msg (s, cs) (abort_connection s c, cs(i := None))"
| close: "cs i = Some c \<Longrightarrow> sv_step env io_msg (s, cs) (close_connection s c, cs(i := None))"

inductive_cases sv_stepE: "sv_step env io_msg (s, cs) (s', cs')"

end
