(* ===== verification/Protocol_Props.thy ===== *)
theory Protocol_Props
  imports Client
begin

text \<open>
  Properties of the protocol: the frame format is exact, truncated and oversized frames are refused,
  and what the Rust client writes is what the server parses.
\<close>

section \<open>Shared lemmas\<close>

lemma unat_len32: "n < 2 ^ 32 \<Longrightarrow> unat (of_nat n :: u32) = n"
  by (simp add: unat_of_nat)

lemma unat_len16: "n < 2 ^ 16 \<Longrightarrow> unat (of_nat n :: u16) = n"
  by (simp add: unat_of_nat)

lemma of_nat_len_gt0: "n < 2 ^ 32 \<Longrightarrow> (0 < (of_nat n :: u32)) = (0 < n)"
  by (simp add: word_less_nat_alt unat_of_nat)

lemma of_nat_len_gt0_16: "n < 2 ^ 16 \<Longrightarrow> (0 < (of_nat n :: u16)) = (0 < n)"
  by (simp add: word_less_nat_alt unat_of_nat)

lemma fs_flag_values [simp]: "fs_flag 1" "\<not> fs_flag 0"
  by (simp_all add: fs_flag_def)

lemma read_exact_all [simp]: "length xs = n \<Longrightarrow> read_exact n xs = Some (xs, [])"
  by (auto simp: read_exact_def)

lemma read_word_all [simp]:
  "read_u32 (write_u32 v) = Some (v, [])" "read_u64 (write_u64 w) = Some (w, [])"
  using read_word_write_sized(2) [of v "[]"] read_word_write_sized(3) [of w "[]"] by simp_all

section \<open>Properties\<close>

text \<open>C32. Reading a frame succeeds exactly on the bytes \<^verbatim>\<open>write_frame\<close> writes for a payload of at most
  64 MiB, returns the header and payload that were written, and consumes nothing beyond them: frames
  sent back to back are read one by one.\<close>

theorem frame_format_exact:
  "read_frame ending bs = Inr (h, payload, rest) \<longleftrightarrow>
    bs = write_frame (fh_msg_type h) (fh_flags h) (fh_req_id h) payload @ rest \<and>
    fh_len h = of_nat (length payload) \<and> length payload \<le> 64 * 1024 * 1024"
proof
  assume "read_frame ending bs = Inr (h, payload, rest)"
  then have d: "bs = write_frame (fh_msg_type h) (fh_flags h) (fh_req_id h) payload @ rest"
    "length payload = unat (fh_len h)" "fh_len h \<le> MAX_FRAME_SIZE"
    by (auto dest: read_frame_InrD)
  then show "bs = write_frame (fh_msg_type h) (fh_flags h) (fh_req_id h) payload @ rest \<and>
      fh_len h = of_nat (length payload) \<and> length payload \<le> 64 * 1024 * 1024"
    by (simp add: word_le_nat_alt MAX_FRAME_SIZE_def)
next
  assume "bs = write_frame (fh_msg_type h) (fh_flags h) (fh_req_id h) payload @ rest \<and>
      fh_len h = of_nat (length payload) \<and> length payload \<le> 64 * 1024 * 1024"
  then show "read_frame ending bs = Inr (h, payload, rest)"
    by (cases h) (simp add: read_frame_write_frame MAX_FRAME_SIZE_def)
qed

text \<open>A frame cut short at any byte is reported as the reason the stream ended, and a length field
  above 64 MiB is refused before anything else is read.\<close>

theorem frame_errors:
  assumes "length payload \<le> 64 * 1024 * 1024" and "n < 16 + length payload" and "64 * 1024 * 1024 < unat len"
  shows "read_frame ending (take n (write_frame ty flags req_id payload)) = Inl (Io ending) \<and>
    (\<exists>msg. read_frame ending (write_u32 len @ bs) = Inl (InvalidInput msg))"
proof -
  have l: "unat (of_nat (length payload) :: u32) = length payload" using assms(1) by (simp add: unat_of_nat)
  then have "\<not> MAX_FRAME_SIZE < of_nat (length payload)"
    using assms(1) by (simp add: word_less_nat_alt MAX_FRAME_SIZE_def)
  with l assms(1,2) have "read_frame ending (take n (write_frame ty flags req_id payload)) = Inl (Io ending)"
    by (auto simp: read_frame_def write_frame_def read_word_take_sized read_exact_def simp del: take_append split: option.split)
  moreover have "MAX_FRAME_SIZE < len" using assms(3) by (simp add: word_less_nat_alt MAX_FRAME_SIZE_def)
  ultimately show ?thesis by (simp add: read_frame_def)
qed

theorem frame_errors_witness:
  "read_frame TimedOut (take 20 (write_frame 5 0 7 [1, 2, 3, 4, 5, 6])) = Inl (Io TimedOut)"
  using frame_errors [where payload = "[1, 2, 3, 4, 5, 6]" and n = 20 and len = "0xFFFFFFFF" and ending = TimedOut
      and ty = 5 and flags = 0 and req_id = 7] by simp

text \<open>C31. The server parses every append request of the Rust client to the request that was made: the
  client's BLAKE3 hash of the payload, the payload length, the idempotency key, and the snapshot root
  exactly when one was given (signalled by bit 0 of the frame flags).\<close>

theorem append_request_roundtrip:
  assumes "rust_string (rq_type_id req)" and "length (rq_type_id req) < 2 ^ 32"
    and "length (rq_payload req) < 2 ^ 32" and "length (rq_idempotency_key req) < 2 ^ 32"
    and "length (blake3 (rq_payload req)) = 32" and "fs = None \<or> length (the fs) = 32"
    and "client_append_with_fs blake3 req fs = (flags, payload)"
  shows "parse_append_turn payload flags = Inr
    \<lparr>ar_context_id = rq_context_id req, ar_parent_turn_id = rq_parent_turn_id req,
     ar_declared_type_id = rq_type_id req, ar_declared_type_version = rq_type_version req,
     ar_encoding = (if rq_encoding req = 0 then 1 else rq_encoding req), ar_compression = rq_compression req,
     ar_uncompressed_len = of_nat (length (rq_payload req)), ar_content_hash = blake3 (rq_payload req),
     ar_payload_bytes = rq_payload req, ar_idempotency_key = rq_idempotency_key req, ar_fs_root_hash = fs\<rparr>"
proof -
  note lens [simp] = unat_len32 [OF assms(2)] unat_len32 [OF assms(3)] unat_len32 [OF assms(4)]
    of_nat_len_gt0 [OF assms(4)]
  note utf [simp] = from_utf8_as_bytes [OF assms(1)]
  show ?thesis
  proof (cases fs)
    case None
    with assms(5,7) show ?thesis
      by (cases "rq_idempotency_key req = []")
         (auto simp: client_append_with_fs_def client_append_payload_def parse_append_turn_def
           client_encoding_def ENCODING_MSGPACK_def)
  next
    case (Some h)
    with assms(5,6,7) show ?thesis
      by (cases "rq_idempotency_key req = []")
         (auto simp: client_append_with_fs_def client_append_payload_def parse_append_turn_def
           client_encoding_def ENCODING_MSGPACK_def)
  qed
qed

definition demo_append_req :: AppendRequest where
  "demo_append_req = \<lparr>rq_context_id = 1, rq_parent_turn_id = 0, rq_type_id = ''T'', rq_type_version = 3,
     rq_payload = [0x91, 1], rq_idempotency_key = [5, 6], rq_encoding = 0, rq_compression = 0\<rparr>"

theorem append_request_roundtrip_witness:
  "map_sum id ar_idempotency_key (parse_append_turn
     (snd (client_append_with_fs (\<lambda>_. replicate 32 9) demo_append_req (Some (replicate 32 8)))) 1) = Inr [5, 6]"
proof -
  have "rust_string ''T''" by code_simp
  with append_request_roundtrip [of demo_append_req "\<lambda>_. replicate 32 9" "Some (replicate 32 8)" 1
      "snd (client_append_with_fs (\<lambda>_. replicate 32 9) demo_append_req (Some (replicate 32 8)))"]
  show ?thesis by (simp add: demo_append_req_def client_append_with_fs_def)
qed

text \<open>The server parses the client's other requests to what was asked: the handshake with its tag,
  the context requests, \<^verbatim>\<open>get_last\<close> (a limit of 0 becomes 10), \<^verbatim>\<open>attach_fs\<close> and
  \<^verbatim>\<open>put_blob\<close>.\<close>

theorem client_requests_understood:
  assumes "rust_string tag" and "length tag < 2 ^ 16" and "length data < 2 ^ 32"
    and "length (blake3 data) = 32" and "length (af_fs_root_hash req) = 32"
  shows "parse_hello (client_hello_payload tag) =
      Inr \<lparr>hr_protocol_version = 1, hr_client_tag = tag, hr_client_meta_json = None\<rparr> \<and>
    parse_ctx_create (client_u64_payload n) = Inr n \<and> parse_ctx_fork (client_u64_payload n) = Inr n \<and>
    parse_get_head (client_u64_payload n) = Inr n \<and>
    parse_get_last (client_get_last_payload n limit incl) =
      Inr \<lparr>gl_context_id = n, gl_limit = (if limit = 0 then 10 else limit), gl_include_payload = (if incl then 1 else 0)\<rparr> \<and>
    parse_attach_fs (client_attach_fs_payload req) = Inr req \<and>
    parse_put_blob (client_put_blob_payload blake3 data) = Inr \<lparr>pb_hash = blake3 data, pb_data = data\<rparr>"
proof -
  note [simp] = unat_len32 [OF assms(3)] unat_len16 [OF assms(2)] of_nat_len_gt0_16 [OF assms(2)]
    from_utf8_as_bytes [OF assms(1)]
  have "from_utf8 [] = Some []" by (simp add: from_utf8_def chars_of_def)
  moreover have "write_u16 v \<noteq> []" for v
  proof -
    have "length (write_u16 v) = 2" by simp
    then show ?thesis by fastforce
  qed
  ultimately have "parse_hello (client_hello_payload tag) =
      Inr \<lparr>hr_protocol_version = 1, hr_client_tag = tag, hr_client_meta_json = None\<rparr>"
    by (cases "tag = []") (simp_all add: parse_hello_def client_hello_payload_def as_bytes_def [of "[]"])
  with assms(4,5) show ?thesis
    by (simp add: parse_ctx_create_def parse_ctx_fork_def parse_get_head_def client_u64_payload_def
        parse_get_last_def client_get_last_payload_def parse_attach_fs_def client_attach_fs_payload_def
        parse_put_blob_def client_put_blob_payload_def)
qed

theorem client_requests_understood_witness:
  "parse_hello (client_hello_payload ''cli'') =
    Inr \<lparr>hr_protocol_version = 1, hr_client_tag = ''cli'', hr_client_meta_json = None\<rparr>"
proof -
  have "rust_string ''cli''" by code_simp
  with client_requests_understood [of "''cli''" "[]" "\<lambda>_. replicate 32 0"
      "\<lparr>af_turn_id = 0, af_fs_root_hash = replicate 32 0\<rparr>"]
  show ?thesis by simp
qed

end
