(* ===== verification/Server_Props.thy ===== *)
theory Server_Props
  imports Server Store_Props Protocol_Props
begin

text \<open>
  Properties of the server as a whole: whatever clients send, in any interleaving, the store stays one the store's
  own properties speak of, and sessions, live contexts and counters stay consistent; what a connection leaves behind;
  and what the Rust client makes of the server's responses.
\<close>

section \<open>The store under messages\<close>

text \<open>Room in the turn numbers and in the pack file, and a decompressor that cannot blow a frame up beyond 32 bits.\<close>

definition room :: "store_env \<Rightarrow> Store \<Rightarrow> bool" where
  "room env s \<longleftrightarrow> unat (next_turn_id (turn_store s)) < 2 ^ 32 \<and> length (pack_file (blob_store s)) < 2 ^ 62"

definition zdec_bounded :: "store_env \<Rightarrow> bool" where
  "zdec_bounded env \<longleftrightarrow>
     (\<forall>z raw. length z \<le> unat MAX_FRAME_SIZE \<and> se_zdec env z = Inr raw \<longrightarrow> length raw < 2 ^ 32)"

lemma max_frame_32: "unat MAX_FRAME_SIZE < 2 ^ 32"
  by (simp add: MAX_FRAME_SIZE_def)

lemma parse_append_turn_InrD:
  assumes "parse_append_turn payload flags = Inr req"
  shows "rust_string (ar_declared_type_id req) \<and> length (ar_declared_type_id req) \<le> length payload \<and>
    length (ar_content_hash req) = 32 \<and> length (ar_payload_bytes req) \<le> length payload"
  using assms
  by (auto simp: parse_append_turn_def bind_eq_Some_conv dest!: read_invs from_utf8_SomeD)

lemma parse_put_blob_InrD:
  "parse_put_blob payload = Inr req \<Longrightarrow> length (pb_hash req) = 32 \<and> length (pb_data req) \<le> length payload"
  by (auto simp: parse_put_blob_def bind_eq_Some_conv dest!: read_invs split: if_splits)

lemma decompress_bounded:
  assumes "zdec_bounded env" and "length payload \<le> unat MAX_FRAME_SIZE" and "decompress env cmp payload = Inr raw"
  shows "length raw < 2 ^ 32"
proof -
  from max_frame_32 assms show ?thesis
    by (auto simp: decompress_def zdec_bounded_def split: if_splits sum.splits)
qed

lemma append_ok_request:
  assumes "zdec_bounded env" and "room env s" and "length payload \<le> unat MAX_FRAME_SIZE"
    and "parse_append_turn payload flags = Inr req"
  shows "append_ok env s (ar_declared_type_id req) (ar_compression req) (ar_uncompressed_len req)
    (ar_content_hash req) (ar_payload_bytes req)"
proof -
  from parse_append_turn_InrD [OF assms(4)] assms(3)
  have r: "rust_string (ar_declared_type_id req)" "length (ar_declared_type_id req) < 2 ^ 32"
      "length (ar_content_hash req) = 32" "length (ar_payload_bytes req) \<le> unat MAX_FRAME_SIZE"
    using max_frame_32 by auto
  have "length raw < 2 ^ 32"
    if "check_payload env (ar_compression req) (ar_uncompressed_len req) (ar_content_hash req) (ar_payload_bytes req) = Inr raw"
    for raw
    using that decompress_bounded [OF assms(1) r(4)] by (auto simp: check_payload_def split: if_splits)
  with assms(2) r show ?thesis by (auto simp: append_ok_def room_def blob_fits_def split: sum.split)
qed

text \<open>The projections of \<^verbatim>\<open>handle_message\<close> used below: one case per message.\<close>

lemmas handler_defs = handle_hello_def handle_ctx_create_def handle_ctx_fork_def handle_get_head_def
  handle_attach_fs_def handle_put_blob_def handle_get_last_def handle_get_blob_def ensure_registered_def
  context_made_def Let_def

lemmas handler_splits = sum.splits prod.splits if_splits

lemma append_turn_reach:
  assumes "st_reach env (sv_store s)" and "zdec_bounded env" and "room env (sv_store s)"
    and "length payload \<le> unat MAX_FRAME_SIZE"
    and "handle_append_turn env now elapsed s c flags payload = (s', c', out)"
  shows "st_reach env (sv_store s')"
proof (cases "parse_append_turn payload flags")
  case (Inl e)
  with assms(1,5) show ?thesis by (auto simp: handle_append_turn_def)
next
  case (Inr req)
  obtain st res where st: "st_append_turn env now (sv_store s) (ar_context_id req) (ar_parent_turn_id req)
      (ar_declared_type_id req) (ar_declared_type_version req) (ar_encoding req) (ar_compression req)
      (ar_uncompressed_len req) (ar_content_hash req) (ar_payload_bytes req) = (st, res)" by fastforce
  from st_reach.append [OF assms(1) append_ok_request [OF assms(2-4) Inr] st] have r: "st_reach env st" .
  have "st_reach env st'" if "st_attach_fs env st i h = (st', x)" for st' i h x
    using r that by (rule st_reach.attach)
  with assms(5) Inr st r show ?thesis
    by (auto simp: handle_append_turn_def Let_def split: sum.splits option.splits prod.splits)
qed

lemma put_blob_reach:
  assumes "st_reach env (sv_store s)" and "room env (sv_store s)" and "length payload \<le> unat MAX_FRAME_SIZE"
    and "handle_put_blob env s c payload = (s', c', out)"
  shows "st_reach env (sv_store s')"
proof (cases "parse_put_blob payload")
  case (Inl e)
  with assms(1,4) show ?thesis by (auto simp: handle_put_blob_def)
next
  case (Inr req)
  from max_frame_32 parse_put_blob_InrD [OF Inr] assms(2,3) have fits: "blob_fits (blob_store (sv_store s)) (pb_hash req) (pb_data req)"
    by (simp add: blob_fits_def room_def)
  have "st_reach env ((sv_store s)\<lparr>blob_store := b\<rparr>)"
    if "se_blake3 env (pb_data req) = pb_hash req"
      "put_if_absent (se_crc env) (se_zenc env) (blob_store (sv_store s)) (pb_hash req) (pb_data req) = (b, res)" for b res
    using st_reach.put_blob [OF assms(1) that(1) fits that(2)] .
  with assms(1,4) Inr show ?thesis by (auto simp: handle_put_blob_def Let_def split: sum.splits prod.splits if_splits)
qed

lemma handle_message_cases:
  assumes "handle_message env now elapsed s c header payload = r"
  obtains "handle_hello now s c payload = r" | "handle_ctx_create env now s c payload = r"
  | "handle_ctx_fork env now s c payload = r" | "handle_get_head s c payload = r"
  | "handle_append_turn env now elapsed s c (fh_flags header) payload = r" | "handle_attach_fs env s c payload = r"
  | "handle_put_blob env s c payload = r" | "handle_get_last env elapsed s c payload = r"
  | "handle_get_blob env elapsed s c payload = r" | "r = (s, c, Fail (InvalidInput ''unknown msg_type''))"
  using assms that unfolding handle_message_def Let_def by (simp only: split: if_split_asm)

lemma handle_message_reach:
  assumes "st_reach env (sv_store s)" and "zdec_bounded env" and "room env (sv_store s)"
    and "length payload \<le> unat MAX_FRAME_SIZE" and "handle_message env now elapsed s c header payload = (s', c', out)"
  shows "st_reach env (sv_store s')"
proof -
  have c: "st_reach env (sv_store s')" if "handle_ctx_create env now s c payload = (s', c', out)"
    using that assms(1) by (auto simp: handler_defs split: handler_splits intro: st_reach.create)
  have f: "st_reach env (sv_store s')" if "handle_ctx_fork env now s c payload = (s', c', out)"
    using that assms(1) by (auto simp: handler_defs split: handler_splits intro: st_reach.fork)
  have a: "st_reach env (sv_store s')" if "handle_attach_fs env s c payload = (s', c', out)"
    using that assms(1) by (auto simp: handler_defs split: handler_splits intro: st_reach.attach)
  have "sv_store s' = sv_store s" if "handle_hello now s c payload = (s', c', out)"
    using that by (auto simp: handler_defs split: handler_splits)
  moreover have "sv_store s' = sv_store s" if "handle_get_head s c payload = (s', c', out)"
    using that by (auto simp: handler_defs split: handler_splits)
  moreover have "sv_store s' = sv_store s" if "handle_get_last env elapsed s c payload = (s', c', out)"
    using that by (auto simp: handler_defs split: handler_splits)
  moreover have "sv_store s' = sv_store s" if "handle_get_blob env elapsed s c payload = (s', c', out)"
    using that by (auto simp: handler_defs split: handler_splits)
  ultimately show ?thesis
    using assms(5) assms(1) c f a append_turn_reach [OF assms(1-4)] put_blob_reach [OF assms(1,3,4)]
    by (elim handle_message_cases) auto
qed

section \<open>Sessions, live contexts and counters\<close>

definition live_below :: "ServerState \<Rightarrow> bool" where
  "live_below s \<longleftrightarrow>
     (\<forall>x\<in>get_live_context_ids (sv_tracker s). unat x < unat (next_context_id (turn_store (sv_store s))))"

text \<open>What holds of the server while a connection \<open>c\<close> is being served.\<close>

definition conn_ok :: "ServerState \<Rightarrow> Conn \<Rightarrow> bool" where
  "conn_ok s c \<longleftrightarrow>
     tracker_inv (sv_tracker s) \<and> bus_inv (sv_bus s) \<and> metrics_bounded (sv_metrics s) \<and> live_below s \<and>
     (cn_tag_received c \<longleftrightarrow> sessions (sv_tracker s) (cn_session_id c) \<noteq> None)"

text \<open>What serving \<open>c\<close> leaves alone: the other sessions and the session counters.\<close>

definition others_kept :: "ServerState \<Rightarrow> Conn \<Rightarrow> ServerState \<Rightarrow> Conn \<Rightarrow> bool" where
  "others_kept s c s' c' \<longleftrightarrow>
     cn_session_id c' = cn_session_id c \<and>
     (\<forall>j. j \<noteq> cn_session_id c \<longrightarrow> sessions (sv_tracker s') j = sessions (sv_tracker s) j) \<and>
     next_session_id (sv_metrics s') = next_session_id (sv_metrics s) \<and>
     sessions_active (sv_metrics s') = sessions_active (sv_metrics s)"

lemma others_kept_refl [simp]: "others_kept s c s c"
  by (simp add: others_kept_def)

lemma others_kept_trans: "others_kept s c s1 c1 \<Longrightarrow> others_kept s1 c1 s2 c2 \<Longrightarrow> others_kept s c s2 c2"
  by (simp add: others_kept_def)

lemma live_register [simp]: "get_live_context_ids (register now t i tag addr) = get_live_context_ids t"
  by (simp add: get_live_context_ids_def register_def Let_def)

lemma sessions_register: "sessions (register now t i tag addr) j = (if j = i then Some \<lparr>cs_session_id = i,
    cs_client_tag = tag, cs_peer_addr = addr, cs_connected_at = now, cs_last_activity_at = now,
    cs_contexts_created = []\<rparr> else sessions t j)"
  by (simp add: register_def Let_def)

lemma ensure_registered_ok:
  assumes "conn_ok s c" and "ensure_registered now s c = (s', c')"
  shows "conn_ok s' c' \<and> others_kept s c s' c' \<and> cn_tag_received c' \<and> sv_store s' = sv_store s"
  using assms
  by (auto simp: ensure_registered_def conn_ok_def others_kept_def live_below_def sessions_register
      intro: tracker_inv_register split: if_splits)

lemma hello_ok:
  assumes "conn_ok s c" and "handle_hello now s c payload = (s', c', out)"
  shows "conn_ok s' c' \<and> others_kept s c s' c'"
  using assms
  by (auto simp: handle_hello_def conn_ok_def live_below_def others_kept_def sessions_register Let_def bus_inv_publish
      split: sum.splits if_splits intro: tracker_inv_register)

text \<open>A created context has the next number, and takes it.\<close>

lemma create_context_next:
  "create_context crc now t base = (t', Inr h) \<Longrightarrow>
    ch_context_id h = next_context_id t \<and> next_context_id t' = next_context_id t + 1"
  by (auto simp: create_context_eq Let_def split: sum.splits)

lemma sessions_add: "sessions (add_context t i x) j = (if j = i then map_option (\<lambda>s.
    if x \<in> set (cs_contexts_created s) then s else s\<lparr>cs_contexts_created := cs_contexts_created s @ [x]\<rparr>) (sessions t i)
    else sessions t j)"
  by (auto simp: add_context_def Let_def split: option.splits)

lemma live_add: "get_live_context_ids (add_context t i x) = insert x (get_live_context_ids t)"
  by (auto simp: add_context_def get_live_context_ids_def Let_def split: option.splits)

lemma context_made_ok:
  assumes "conn_ok s c" and "cn_tag_received c" and "ch_context_id h = next_context_id (turn_store (sv_store s))"
    and "turn_store st = t" and "next_context_id t = next_context_id (turn_store (sv_store s)) + 1"
    and "unat (next_context_id (turn_store (sv_store s))) + 1 < 2 ^ 64"
    and "context_made now (s\<lparr>sv_store := st\<rparr>) c ty h = (s', c', out)"
  shows "conn_ok s' c' \<and> others_kept s c s' c'"
proof -
  let ?n = "next_context_id (turn_store (sv_store s))"
  have n1: "unat (?n + 1) = unat ?n + 1" using assms(6) by (simp add: unat_Suc_word)
  have fresh: "?n \<notin> get_live_context_ids (sv_tracker s)" using assms(1) by (auto simp: conn_ok_def live_below_def)
  then have "context_to_session (sv_tracker s) ?n = None" by (auto simp: get_live_context_ids_def)
  with assms(1,2) have "tracker_inv (add_context (sv_tracker s) (cn_session_id c) ?n)"
    by (auto simp: conn_ok_def intro: tracker_inv_add)
  moreover have "\<forall>x\<in>get_live_context_ids (add_context (sv_tracker s) (cn_session_id c) ?n). unat x < unat (?n + 1)"
    using assms(1) by (auto simp: live_add n1 conn_ok_def live_below_def less_Suc_eq)
  ultimately show ?thesis
    using assms(1-5,7)
    by (auto simp: context_made_def Let_def conn_ok_def live_below_def others_kept_def sessions_add bus_inv_publish)
qed

lemma ctx_create_ok:
  assumes "conn_ok s c" and "unat (next_context_id (turn_store (sv_store s))) + 1 < 2 ^ 64"
    and "handle_ctx_create env now s c payload = (s', c', out)"
  shows "conn_ok s' c' \<and> others_kept s c s' c'"
proof -
  obtain s1 c1 where e: "ensure_registered now s c = (s1, c1)" by fastforce
  note ok = ensure_registered_ok [OF assms(1) e]
  show ?thesis
  proof (cases "parse_ctx_create payload")
    case (Inl err)
    with assms(3) e ok show ?thesis by (auto simp: handle_ctx_create_def)
  next
    case (Inr base)
    obtain t r where t: "create_context (se_crc env) now (turn_store (sv_store s1)) base = (t, r)" by fastforce
    show ?thesis
    proof (cases r)
      case (Inl err)
      with assms(3) e ok Inr t create_context_Inl [OF t [unfolded Inl]] show ?thesis
        by (auto simp: handle_ctx_create_def st_create_context_def conn_ok_def live_below_def others_kept_def)
    next
      case (Inr h)
      with assms(3) e \<open>parse_ctx_create payload = Inr base\<close> t
      have "context_made now (s1\<lparr>sv_store := (sv_store s1)\<lparr>turn_store := t\<rparr>\<rparr>) c1 CtxCreate h = (s', c', out)"
        by (simp add: handle_ctx_create_def st_create_context_def)
      from context_made_ok [OF _ _ _ _ _ _ this, of t] ok create_context_next [OF t [unfolded Inr]] assms(2)
      have "conn_ok s' c' \<and> others_kept s1 c1 s' c'" by simp
      with ok others_kept_trans show ?thesis by blast
    qed
  qed
qed

lemma ctx_fork_eq:
  "handle_ctx_fork env now s c payload =
    (case handle_ctx_create env now s c payload of (s', c', out) \<Rightarrow>
      (s', c', case out of Reply _ resp \<Rightarrow> Reply CtxFork resp | _ \<Rightarrow> out))"
  by (simp add: handle_ctx_fork_def handle_ctx_create_def parse_ctx_fork_def st_fork_context_def st_create_context_def
      fork_context_def context_made_def Let_def split: prod.split sum.split)

lemma ctx_fork_ok:
  assumes "conn_ok s c" and "unat (next_context_id (turn_store (sv_store s))) + 1 < 2 ^ 64"
    and "handle_ctx_fork env now s c payload = (s', c', out)"
  shows "conn_ok s' c' \<and> others_kept s c s' c'"
proof -
  obtain out' where "handle_ctx_create env now s c payload = (s', c', out')"
    using assms(3) by (auto simp: ctx_fork_eq split: prod.splits)
  from ctx_create_ok [OF assms(1,2) this] show ?thesis .
qed

lemma store_keeps_next_context:
  "st_append_turn env now st c p ty ver enc cmp len hash payload = (st', res) \<Longrightarrow>
    next_context_id (turn_store st') = next_context_id (turn_store st)"
  "st_attach_fs env st i h = (st', r) \<Longrightarrow> next_context_id (turn_store st') = next_context_id (turn_store st)"
proof -
  assume a: "st_append_turn env now st c p ty ver enc cmp len hash payload = (st', res)"
  show "next_context_id (turn_store st') = next_context_id (turn_store st)"
  proof (cases "check_payload env cmp len hash payload")
    case (Inl e)
    with a show ?thesis by (simp add: st_append_turn_Inl_check)
  next
    case (Inr raw)
    obtain t tres where t: "append_turn (se_crc env) now (turn_store st) c p hash enc ty ver cmp len = (t, tres)" by fastforce
    from st_append_turn_parts(2) [OF Inr a t] t show ?thesis
      by (cases tres) (auto dest: append_turn_Inl elim!: append_turn_InrE)
  qed
qed (auto simp: st_attach_fs_def split: sum.splits if_splits)

lemma bus_inv_foldl: "bus_inv b \<Longrightarrow> bus_inv (foldl publish b es)"
  by (induction es arbitrary: b) (simp_all add: bus_inv_publish)

text \<open>Handlers that leave the tracker alone.\<close>

definition tracker_kept :: "ServerState \<Rightarrow> Conn \<Rightarrow> ServerState \<Rightarrow> Conn \<Rightarrow> bool" where
  "tracker_kept s c s' c' \<longleftrightarrow>
     c' = c \<and> sv_tracker s' = sv_tracker s \<and> (bus_inv (sv_bus s) \<longrightarrow> bus_inv (sv_bus s')) \<and>
     (metrics_bounded (sv_metrics s) \<longrightarrow> metrics_bounded (sv_metrics s')) \<and>
     next_session_id (sv_metrics s') = next_session_id (sv_metrics s) \<and>
     sessions_active (sv_metrics s') = sessions_active (sv_metrics s) \<and>
     next_context_id (turn_store (sv_store s')) = next_context_id (turn_store (sv_store s))"

lemma tracker_kept_ok: "tracker_kept s c s' c' \<Longrightarrow> conn_ok s c \<Longrightarrow> conn_ok s' c' \<and> others_kept s c s' c'"
  by (simp add: tracker_kept_def conn_ok_def live_below_def others_kept_def)

lemma append_turn_kept:
  assumes "handle_append_turn env now elapsed s c flags payload = (s', c', out)"
  shows "tracker_kept s c s' c'"
  using assms
  by (auto simp: handle_append_turn_def tracker_kept_def Let_def metrics_bounded_ops bus_inv_foldl
      split: sum.splits prod.splits option.splits dest!: store_keeps_next_context)

lemma others_kept_handlers:
  "handle_get_head s c payload = (s', c', out) \<Longrightarrow> tracker_kept s c s' c'"
  "handle_get_last env elapsed s c payload = (s', c', out) \<Longrightarrow> tracker_kept s c s' c'"
  "handle_get_blob env elapsed s c payload = (s', c', out) \<Longrightarrow> tracker_kept s c s' c'"
  "handle_attach_fs env s c payload = (s', c', out) \<Longrightarrow> tracker_kept s c s' c'"
  "handle_put_blob env s c payload = (s', c', out) \<Longrightarrow> tracker_kept s c s' c'"
  by (auto simp: handler_defs tracker_kept_def metrics_bounded_ops
      split: sum.splits prod.splits if_splits dest!: store_keeps_next_context)

lemma handle_message_ok:
  assumes "conn_ok s c" and "unat (next_context_id (turn_store (sv_store s))) + 1 < 2 ^ 64"
    and "handle_message env now elapsed s c header payload = (s', c', out)"
  shows "conn_ok s' c' \<and> others_kept s c s' c'"
proof -
  have kept: "conn_ok s' c' \<and> others_kept s c s' c'" if "tracker_kept s c s' c'"
    using that assms(1) by (rule tracker_kept_ok)
  from assms(3) show ?thesis
  proof (cases rule: handle_message_cases)
    case 1
    with assms(1) show ?thesis by (rule hello_ok)
  next
    case 2
    with assms(1,2) show ?thesis by (rule ctx_create_ok)
  next
    case 3
    with assms(1,2) show ?thesis by (rule ctx_fork_ok)
  qed (use assms(1) kept append_turn_kept others_kept_handlers in \<open>auto\<close>)
qed

lemma respond_kept:
  assumes "respond io_msg now wok s req_id out = (s', r)"
  shows "tracker_kept s c s' c \<and> sv_store s' = sv_store s"
  using assms
  by (auto simp: respond_def tracker_kept_def bus_inv_publish metrics_bounded_ops split: outcome.splits prod.splits)

lemma activity_ok:
  assumes "conn_ok s c"
    and "s1 = s\<lparr>sv_metrics := record_session_activity now (sv_metrics s) (cn_session_id c),
      sv_tracker := record_activity now (sv_tracker s) (cn_session_id c)\<rparr>"
  shows "conn_ok s1 c \<and> others_kept s c s1 c \<and> sv_store s1 = sv_store s"
  using assms(1) tracker_inv_activity [of "sv_tracker s" now "cn_session_id c"]
  by (auto simp: assms(2) conn_ok_def live_below_def others_kept_def metrics_bounded_ops record_activity_def
      get_live_context_ids_def split: option.splits)

text \<open>One frame, seen from the whole server.\<close>

lemma handle_frame_ok:
  assumes ok: "conn_ok s c" and n: "unat (next_context_id (turn_store (sv_store s))) + 1 < 2 ^ 64"
    and "handle_frame env io_msg now elapsed wok s c header payload = (s', c', r)"
  shows "conn_ok s' c' \<and> others_kept s c s' c'"
    and "st_reach env (sv_store s) \<Longrightarrow> zdec_bounded env \<Longrightarrow> room env (sv_store s) \<Longrightarrow>
      length payload \<le> unat MAX_FRAME_SIZE \<Longrightarrow> st_reach env (sv_store s')"
proof -
  define s1 where "s1 = s\<lparr>sv_metrics := record_session_activity now (sv_metrics s) (cn_session_id c),
    sv_tracker := record_activity now (sv_tracker s) (cn_session_id c)\<rparr>"
  note s1 = activity_ok [OF ok s1_def]
  from assms(3) obtain s2 out where h: "handle_message env now elapsed s1 c header payload = (s2, c', out)"
    and r: "respond io_msg now wok s2 (fh_req_id header) out = (s', r)"
    by (auto simp: handle_frame_def Let_def s1_def split: prod.splits)
  note kept = respond_kept [OF r, of c']
  have "conn_ok s2 c' \<and> others_kept s1 c s2 c'" using handle_message_ok [OF _ _ h] s1 n by simp
  with s1 kept tracker_kept_ok [of s2 c' s' c'] others_kept_trans show "conn_ok s' c' \<and> others_kept s c s' c'" by blast
  show "st_reach env (sv_store s')"
    if "st_reach env (sv_store s)" "zdec_bounded env" "room env (sv_store s)" "length payload \<le> unat MAX_FRAME_SIZE"
    using handle_message_reach [OF _ _ _ _ h] that s1 kept by simp
qed

section \<open>All connections\<close>

definition sv_ok :: "store_env \<Rightarrow> ServerState \<Rightarrow> (u64 \<rightharpoonup> Conn) \<Rightarrow> bool" where
  "sv_ok env s cs \<longleftrightarrow>
     st_reach env (sv_store s) \<and> tracker_inv (sv_tracker s) \<and> bus_inv (sv_bus s) \<and>
     metrics_bounded (sv_metrics s) \<and> live_below s \<and>
     (\<forall>i c. cs i = Some c \<longrightarrow> cn_session_id c = i \<and> unat i < unat (next_session_id (sv_metrics s)) \<and>
        (cn_tag_received c \<longleftrightarrow> sessions (sv_tracker s) i \<noteq> None)) \<and>
     (\<forall>i. sessions (sv_tracker s) i \<noteq> None \<longrightarrow> unat i < unat (next_session_id (sv_metrics s))) \<and>
     sessions_active (sv_metrics s) = of_nat (card (dom cs))"

definition sv_room :: "store_env \<Rightarrow> ServerState \<Rightarrow> bool" where
  "sv_room env s \<longleftrightarrow> zdec_bounded env \<and> room env (sv_store s) \<and>
     unat (next_context_id (turn_store (sv_store s))) + 1 < 2 ^ 64 \<and> unat (next_session_id (sv_metrics s)) + 1 < 2 ^ 64"

inductive sv_reach :: "store_env \<Rightarrow> (io_kind \<Rightarrow> string) \<Rightarrow> ServerState \<times> (u64 \<rightharpoonup> Conn) \<Rightarrow> bool" for env io_msg where
  start: "st_reach env st \<Longrightarrow> sv_reach env io_msg (server_start st, Map.empty)"
| step: "sv_reach env io_msg (s, cs) \<Longrightarrow> sv_room env s \<Longrightarrow> sv_step env io_msg (s, cs) (s', cs') \<Longrightarrow>
    sv_reach env io_msg (s', cs')"

lemma sv_ok_conn: "sv_ok env s cs \<Longrightarrow> cs i = Some c \<Longrightarrow> conn_ok s c"
  by (simp add: sv_ok_def conn_ok_def)

lemma card_dom_word [simp]: "finite (dom (cs :: u64 \<rightharpoonup> Conn))"
  by simp

lemma sv_ok_start: "st_reach env st \<Longrightarrow> sv_ok env (server_start st) Map.empty"
  by (simp add: sv_ok_def server_start_def metrics_bounded_new tracker_inv_new live_below_def get_live_context_ids_def
      bus_inv_def bus_new_def) (simp add: tracker_new_def metrics_new_def)

lemma sv_ok_connect:
  assumes ok: "sv_ok env s cs" and room: "sv_room env s" and op: "open_connection now s peer = (s', c)"
  shows "sv_ok env s' (cs(cn_session_id c \<mapsto> c))"
proof -
  let ?n = "next_session_id (sv_metrics s)"
  have n1: "unat (?n + 1) = unat ?n + 1" using room by (simp add: sv_room_def unat_Suc_word)
  have new: "cs ?n = None" "sessions (sv_tracker s) ?n = None"
    using ok unfolding sv_ok_def by (metis less_irrefl not_None_eq)+
  then have card: "card (insert ?n (dom cs)) = card (dom cs) + 1" by (simp add: domIff)
  have lt: "unat i < unat (?n + 1)" if "cs i = Some d \<or> sessions (sv_tracker s) i \<noteq> None" for i d
    using ok that n1 unfolding sv_ok_def by (metis less_Suc_eq Suc_eq_plus1 option.distinct(1))
  from op have s': "s' = s\<lparr>sv_metrics := fst (register_session now (sv_metrics s))\<rparr>"
      "c = \<lparr>cn_session_id = ?n, cn_tag_received = False, cn_client_tag = [], cn_peer_addr = peer\<rparr>"
    by (auto simp: open_connection_def register_session_def Let_def)
  have m: "next_session_id (sv_metrics s') = ?n + 1" "sessions_active (sv_metrics s') = sessions_active (sv_metrics s) + 1"
    "metrics_bounded (sv_metrics s')"
    using ok by (simp_all add: s' register_session_def Let_def sv_ok_def metrics_bounded_def)
  show ?thesis
    using ok new m card lt n1 unfolding sv_ok_def by (auto simp: s' live_below_def)
qed

lemma sv_ok_frame:
  assumes ok: "sv_ok env s cs" and room: "sv_room env s" and c: "cs i = Some c"
    and len: "length payload \<le> unat MAX_FRAME_SIZE"
    and fr: "handle_frame env io_msg now elapsed wok s c header payload = (s', c', r)"
  shows "sv_ok env s' (cs(i \<mapsto> c'))"
proof -
  have n: "unat (next_context_id (turn_store (sv_store s))) + 1 < 2 ^ 64" using room by (simp add: sv_room_def)
  note frame = handle_frame_ok [OF sv_ok_conn [OF ok c] n fr]
  have reach: "st_reach env (sv_store s')" using frame(2) ok room len by (simp add: sv_ok_def sv_room_def)
  have i: "cn_session_id c = i" "unat i < unat (next_session_id (sv_metrics s))" using ok c by (auto simp: sv_ok_def)
  have same: "sessions (sv_tracker s') j = sessions (sv_tracker s) j" if "j \<noteq> i" for j
    using that frame(1) i by (simp add: others_kept_def)
  have m: "next_session_id (sv_metrics s') = next_session_id (sv_metrics s)"
      "sessions_active (sv_metrics s') = sessions_active (sv_metrics s)" "cn_session_id c' = i"
    using frame(1) i by (simp_all add: others_kept_def)
  have below: "unat j < unat (next_session_id (sv_metrics s))" if "sessions (sv_tracker s') j \<noteq> None" for j
    using that same [of j] ok i unfolding sv_ok_def by (cases "j = i") auto
  have "dom (cs(i \<mapsto> c')) = dom cs" using c by auto
  with reach frame(1) ok i m same below show ?thesis
    unfolding sv_ok_def conn_ok_def by simp
qed

lemma card_dom_remove: "cs i = Some c \<Longrightarrow> card (dom (cs(i := None))) + 1 = card (dom (cs :: u64 \<rightharpoonup> Conn))"
  by (simp add: card_Suc_Diff1 domI del: card_Diff_insert)

lemma sv_ok_leave:
  assumes ok: "sv_ok env s cs" and c: "cs i = Some c"
  shows "sv_ok env (abort_connection s c) (cs(i := None))"
proof -
  have "of_nat (card (dom cs)) - 1 = (of_nat (card (dom (cs(i := None)))) :: u64)"
    using card_dom_remove [of cs i c] c by (metis add_diff_cancel_right' of_nat_1 of_nat_add)
  with ok show ?thesis
    by (auto simp: sv_ok_def abort_connection_def unregister_session_def live_below_def metrics_bounded_def)
qed

lemma sv_ok_abort:
  assumes "sv_ok env s cs" and "sv_room env s" and "cs i = Some c" and "length payload \<le> unat MAX_FRAME_SIZE"
    and "handle_frame env io_msg now elapsed wok s c header payload = (s', c', r)"
  shows "sv_ok env (abort_connection s' c') (cs(i := None))"
  using sv_ok_leave [OF sv_ok_frame [OF assms], of i c'] by simp

lemma sv_ok_close:
  assumes ok: "sv_ok env s cs" and c: "cs i = Some c"
  shows "sv_ok env (close_connection s c) (cs(i := None))"
proof -
  obtain t orph where u: "unregister (sv_tracker s) (cn_session_id c) = (t, orph)" by fastforce
  from ok have "tracker_inv (sv_tracker s)" by (simp add: sv_ok_def)
  note t = tracker_inv_unregister [OF this u]
  have id: "cn_session_id c = i" using ok c by (simp add: sv_ok_def)
  let ?s = "s\<lparr>sv_tracker := t, sv_bus := publish (sv_bus s)
    (ClientDisconnected (id_str i) (cn_client_tag c) (map id_str orph))\<rparr>"
  have "sv_ok env ?s (cs(i \<mapsto> c\<lparr>cn_tag_received := False\<rparr>))"
    using ok t c id unfolding sv_ok_def live_below_def
    by (auto simp: bus_inv_publish dom_upd_insert insert_absorb domI)
  from sv_ok_leave [OF this, of i] have "sv_ok env (abort_connection ?s (c\<lparr>cn_tag_received := False\<rparr>)) (cs(i := None))"
    by simp
  then show ?thesis using u id by (simp add: close_connection_def abort_connection_def)
qed

lemma sv_reach_ok: "sv_reach env io_msg \<sigma> \<Longrightarrow> sv_ok env (fst \<sigma>) (snd \<sigma>)"
proof (induction rule: sv_reach.induct)
  case (start st)
  then show ?case by (simp add: sv_ok_start)
next
  case (step s cs s' cs')
  have ok: "sv_ok env s cs" using step.IH by simp
  show ?case
    using step.hyps(3) sv_ok_connect [OF ok step.hyps(2)] sv_ok_frame [OF ok step.hyps(2)]
      sv_ok_abort [OF ok step.hyps(2)] sv_ok_leave [OF ok] sv_ok_close [OF ok]
    unfolding fst_conv snd_conv by (elim sv_stepE; hypsubst) blast+
qed

section \<open>Stored values fit their encodings\<close>

definition stored_ok :: "store_env \<Rightarrow> Store \<Rightarrow> bool" where
  "stored_ok env s \<longleftrightarrow>
     (\<forall>i m. turn_meta (turn_store s) i = Some m \<longrightarrow> valid_meta (i, m)) \<and>
     (\<forall>i r. turns (turn_store s) i = Some r \<longrightarrow> valid_turn r) \<and>
     (\<forall>k v. sblob_get env s k = Inr v \<longrightarrow> length v < 2 ^ 32)"

lemma stored_ok_stores:
  "stored_ok env s \<Longrightarrow> turns (turn_store s') = turns (turn_store s) \<Longrightarrow> turn_meta (turn_store s') = turn_meta (turn_store s) \<Longrightarrow>
    blob_store s' = blob_store s \<Longrightarrow> stored_ok env s'"
  by (simp add: stored_ok_def)

lemma stored_ok_put:
  assumes "st_inv env s" and "stored_ok env s" and "blob_fits (blob_store s) h raw"
    and "b = fst (put_if_absent (se_crc env) (se_zenc env) (blob_store s) h raw)"
  shows "stored_ok env (s\<lparr>blob_store := b\<rparr>)"
proof -
  have "zstd_ok (se_zenc env) (se_zdec env)" "blob_inv (se_crc env) (se_zdec env) (blob_store s)"
    using assms(1) by (simp_all add: st_inv_def blob_store_inv_def)
  from blob_get_put [OF this assms(3)] assms(2,3) show ?thesis
    by (auto simp: stored_ok_def assms(4) blob_fits_def split: if_splits)
qed

lemma stored_ok_append:
  assumes inv: "st_inv env s" and st: "stored_ok env s" and ok: "append_ok env s ty cmp len hash payload"
    and app: "st_append_turn env now s c p ty ver enc cmp len hash payload = (s', res)"
  shows "stored_ok env s'"
proof (cases "check_payload env cmp len hash payload")
  case (Inl e)
  with app st show ?thesis by (simp add: st_append_turn_Inl_check)
next
  case (Inr raw)
  obtain t tres where t: "append_turn (se_crc env) now (turn_store s) c p hash enc ty ver cmp len = (t, tres)" by fastforce
  note parts = st_append_turn_parts [OF Inr app t]
  have fits: "blob_fits (blob_store s) hash raw" using ok Inr by (simp add: append_ok_def)
  from stored_ok_put [OF inv st fits refl]
  have b: "stored_ok env (s\<lparr>blob_store := fst (put_if_absent (se_crc env) (se_zenc env) (blob_store s) hash raw)\<rparr>)" .
  have "length hash = 32" "rust_string ty" "length ty < 2 ^ 32" using fits ok by (simp_all add: blob_fits_def append_ok_def)
  with t b show ?thesis
    by (cases tres) (auto simp: stored_ok_def parts(1,2) valid_turn_def valid_meta_def new_meta_def
        dest: append_turn_Inl elim!: append_turn_InrE split: if_splits)
qed

lemma st_reach_stored:
  assumes z: "zstd_ok (se_zenc env) (se_zdec env)"
  shows "st_reach env s \<Longrightarrow> stored_ok env s"
proof (induction rule: st_reach.induct)
  case (start s)
  from blob_open_emptyD [OF store_open_parts(1) [OF start]] ts_open_fresh [OF store_open_parts(2) [OF start]]
  show ?case by (simp add: stored_ok_def blob_get_None)
next
  case (create s now base s' res)
  then show ?case
    by (auto simp: st_create_context_def create_context_eq Let_def split: prod.splits sum.splits intro: stored_ok_stores)
next
  case (fork s now base s' res)
  then show ?case
    by (auto simp: st_fork_context_def fork_context_def create_context_eq Let_def split: prod.splits sum.splits
        intro: stored_ok_stores)
next
  case (append s ty cmp len hash payload now c p ver enc s' res)
  from stored_ok_append [OF st_reach_inv [OF z append.hyps(1)] append.IH append.hyps(2,3)] show ?case .
next
  case (put_blob s raw h b res)
  then show ?case using stored_ok_put [OF st_reach_inv [OF z put_blob.hyps(1)] put_blob.IH put_blob.hyps(3), of b] by simp
next
  case (attach s t h s' res)
  then show ?case by (auto simp: st_attach_fs_def split: sum.splits if_splits intro: stored_ok_stores)
next
  case (metadata s c s' md)
  with get_context_metadata_stores [OF metadata(2)] show ?case by (auto intro: stored_ok_stores)
next
  case (reopen s s')
  note parts = store_open_parts [OF reopen(2)]
  from st_reach_inv [OF z reopen.hyps(1)] have inv: "ts_inv (se_crc env) (turn_store s)"
      "blob_inv (se_crc env) (se_zdec env) (blob_store s)"
    by (simp_all add: st_inv_def blob_store_inv_def)
  from parts(1) blob_open_inv [OF inv(2)] have "blob_store s' = blob_store s" by simp
  with ts_reopen_maps [OF inv(1) parts(2)] reopen.IH show ?case by (auto intro: stored_ok_stores)
qed

section \<open>What the client makes of a response\<close>

text \<open>The turn the client should see for an item of a \<^verbatim>\<open>GET_LAST\<close> response that carries its payload.\<close>

definition client_turn :: "TurnWithMeta \<Rightarrow> bytes \<Rightarrow> ClientTurnRecord" where
  "client_turn item p =
     \<lparr>ct_turn_id = tr_turn_id (tw_record item), ct_parent_id = tr_parent_turn_id (tw_record item),
      ct_depth = tr_depth (tw_record item), ct_type_id = tm_declared_type_id (tw_meta item),
      ct_type_version = tm_declared_type_version (tw_meta item), ct_encoding = tm_encoding (tw_meta item),
      ct_compression = 0, ct_payload_hash = tr_payload_hash (tw_record item), ct_payload = p\<rparr>"

definition item_ok :: "TurnWithMeta \<Rightarrow> bool" where
  "item_ok item \<longleftrightarrow> rust_string (tm_declared_type_id (tw_meta item)) \<and>
     length (tm_declared_type_id (tw_meta item)) < 2 ^ 32 \<and> length (tr_payload_hash (tw_record item)) = 32 \<and>
     (\<forall>p. tw_payload item = Some p \<longrightarrow> length p < 2 ^ 32)"

lemma parse_turn_record_item:
  assumes "item_ok item" and "tw_payload item = Some p"
  shows "parse_turn_record (encode_turn_item item @ rest) = Inr (client_turn item p, rest)"
  using assms
  by (simp add: parse_turn_record_def encode_turn_item_def item_ok_def client_turn_def unat_len32 from_utf8_as_bytes)

lemma parse_turn_loop_items:
  assumes "\<forall>item\<in>set items. item_ok item \<and> tw_payload item \<noteq> None"
  shows "parse_turn_record_loop (length items) (concat (map encode_turn_item items) @ rest) =
    Inr (map (\<lambda>item. client_turn item (the (tw_payload item))) items)"
  using assms by (induction items) (auto simp: parse_turn_record_item)

lemma parse_turn_items:
  assumes "\<forall>item\<in>set items. item_ok item \<and> tw_payload item \<noteq> None" and "length items < 2 ^ 32"
  shows "parse_turn_records (encode_turn_items items) = Inr (map (\<lambda>item. client_turn item (the (tw_payload item))) items)"
  using parse_turn_loop_items [OF assms(1), of "[]"] assms(2)
  by (simp add: parse_turn_records_def encode_turn_items_def unat_len32)

lemma with_meta_length: "with_meta env s incl rs = Inr out \<Longrightarrow> length out = length rs"
  by (induction rs arbitrary: out) (auto split: if_splits)

lemma with_meta_members:
  "with_meta env s incl rs = Inr out \<Longrightarrow> item \<in> set out \<Longrightarrow>
    tw_record item \<in> set rs \<and> turn_meta (turn_store s) (tr_turn_id (tw_record item)) = Some (tw_meta item) \<and>
    (if incl then \<exists>p. tw_payload item = Some p \<and> sblob_get env s (tr_payload_hash (tw_record item)) = Inr p
     else tw_payload item = None)"
  by (induction rs arbitrary: out) (auto simp: get_turn_meta_def map_sum_def split: if_splits option.splits sum.splits)

lemma get_last_items:
  assumes "zstd_ok (se_zenc env) (se_zdec env)" and "st_reach env s" and "st_get_last env s c limit incl = Inr out"
  shows "length out \<le> unat limit" and "\<And>item. item \<in> set out \<Longrightarrow> item_ok item \<and> (tw_payload item \<noteq> None \<longleftrightarrow> incl)"
proof -
  from st_reach_inv [OF assms(1,2)] have wf: "dag_wf (turn_store s)" by (simp add: st_inv_def ts_inv_def)
  from st_reach_stored [OF assms(1,2)] have ok: "stored_ok env s" .
  from assms(3) obtain rs where rs: "get_last (turn_store s) c limit = Inr rs" "with_meta env s incl rs = Inr out"
    by (auto simp: st_get_last_def)
  from rs(1) obtain h where h: "heads (turn_store s) c = Some h" by (auto simp: get_last_def split: option.splits)
  from head_ancestry [OF wf h] obtain as where as: "ancestry (turns (turn_store s)) (ch_head_turn_id h) as" ..
  with get_last_ancestry [OF h as, of limit] rs(1) have rs': "rs = rev (take (unat limit) as)" by simp
  with with_meta_length [OF rs(2)] show "length out \<le> unat limit" by simp
  fix item
  assume i: "item \<in> set out"
  note m = with_meta_members [OF rs(2) i]
  have "turns (turn_store s) (tr_turn_id (tw_record item)) = Some (tw_record item)"
    using ancestry_members [OF wf as] m rs' by (auto dest: in_set_takeD)
  with m ok have "valid_turn (tw_record item)" "valid_meta (tr_turn_id (tw_record item), tw_meta item)"
    unfolding stored_ok_def by blast+
  moreover have "length p < 2 ^ 32" if "tw_payload item = Some p" for p
    using that m ok unfolding stored_ok_def by (auto split: if_splits)
  ultimately show "item_ok item \<and> (tw_payload item \<noteq> None \<longleftrightarrow> incl)"
    using m by (auto simp: item_ok_def valid_turn_def valid_meta_def split: if_splits)
qed

lemma handle_get_last_client:
  assumes "st_get_last env (sv_store s) ctx (if limit = 0 then 10 else limit) incl = Inr out"
  shows "handle_message env now elapsed s c \<lparr>fh_len = len, fh_msg_type = msg_code GetLast, fh_flags = 0, fh_req_id = i\<rparr>
      (client_get_last_payload ctx limit incl) =
    (s\<lparr>sv_metrics := record_get_last (sv_metrics s) elapsed\<rparr>, c, Reply GetLast (encode_turn_items out))"
  using assms
  by (cases incl) (simp_all add: handle_message_def handle_get_last_def client_get_last_payload_def parse_get_last_def)

section \<open>Witness server\<close>

text \<open>A server on the empty store of \<open>Store_Props\<close> with one connection, which has created a context.\<close>

definition vdemo0 :: ServerState where
  "vdemo0 = fst (open_connection 50 (server_start sdemo) ''peer'')"

definition vconn0 :: Conn where
  "vconn0 = \<lparr>cn_session_id = 1, cn_tag_received = False, cn_client_tag = [], cn_peer_addr = ''peer''\<rparr>"

definition vframe :: FrameHeader where
  "vframe = \<lparr>fh_len = 8, fh_msg_type = msg_code CtxCreate, fh_flags = 0, fh_req_id = 7\<rparr>"

definition vresult :: "ServerState \<times> Conn \<times> bytes res" where
  "vresult = handle_frame demo_senv (\<lambda>_. []) 60 0 True vdemo0 vconn0 vframe (write_u64 0)"

lemma demo_zdec_bounded: "zdec_bounded demo_senv"
  using max_frame_32 by (auto simp: zdec_bounded_def demo_zdec_def split: if_splits)

lemma vdemo0_open: "open_connection 50 (server_start sdemo) ''peer'' = (vdemo0, vconn0)"
  by (simp add: vdemo0_def open_connection_def vconn0_def server_start_def register_session_def metrics_new_def Let_def)

lemma vdemo0_reach: "sv_reach demo_senv io_msg (vdemo0, [1 \<mapsto> vconn0])"
proof -
  have "sv_room demo_senv (server_start sdemo)"
    by (simp add: sv_room_def demo_zdec_bounded room_def server_start_def sdemo_def blob0_def ts_new_def metrics_new_def)
  moreover have "sv_step demo_senv io_msg (server_start sdemo, Map.empty) (vdemo0, [1 \<mapsto> vconn0])"
    using sv_step.connect [OF vdemo0_open, of demo_senv io_msg Map.empty] by (simp add: vconn0_def)
  ultimately show ?thesis by (intro sv_reach.step [OF sv_reach.start [OF sdemo_reach]])
qed

lemma vdemo0_sel [simp]: "sv_store vdemo0 = sdemo" "sv_tracker vdemo0 = tracker_new"
    "next_session_id (sv_metrics vdemo0) = 2" "sv_bus vdemo0 = bus_new"
  by (simp_all add: vdemo0_def open_connection_def server_start_def register_session_def metrics_new_def Let_def)

lemma vresult_eq:
  "\<exists>s c out. vresult = (s, c, Inr out) \<and> context_to_session (sv_tracker s) 1 = Some 1 \<and> cn_session_id c = 1"
proof -
  have "parse_ctx_create (write_u64 0) = Inr 0" by (simp add: parse_ctx_create_def)
  moreover have "record_activity 60 tracker_new 1 = tracker_new" by (simp add: record_activity_def tracker_new_def)
  ultimately show ?thesis
    by (simp add: vresult_def handle_frame_def handle_message_def vframe_def handle_ctx_create_def ensure_registered_def
        vconn0_def st_create_context_def sdemo_def create_context_eq resolve_base_def ts_new_def context_made_def
        respond_def Let_def add_context_def register_def tracker_new_def)
qed

lemma vresult_reach:
  "\<exists>s c. sv_reach demo_senv (\<lambda>_. []) (s, [1 \<mapsto> c]) \<and> context_to_session (sv_tracker s) 1 = Some 1"
proof -
  from vresult_eq obtain s c out where v: "handle_frame demo_senv (\<lambda>_. []) 60 0 True vdemo0 vconn0 vframe (write_u64 0) = (s, c, Inr out)"
    and x: "context_to_session (sv_tracker s) 1 = Some 1" by (auto simp: vresult_def)
  have "sv_room demo_senv vdemo0"
    by (simp add: sv_room_def demo_zdec_bounded room_def sdemo_def blob0_def ts_new_def)
  moreover have "length (write_u64 0) \<le> unat MAX_FRAME_SIZE" by (simp add: MAX_FRAME_SIZE_def)
  moreover from sv_step.frame [OF _ this v, of "[1 \<mapsto> vconn0]" 1]
  have "sv_step demo_senv (\<lambda>_. []) (vdemo0, [1 \<mapsto> vconn0]) (s, [1 \<mapsto> c])" by simp
  ultimately have "sv_reach demo_senv (\<lambda>_. []) (s, [1 \<mapsto> c])" by (intro sv_reach.step [OF vdemo0_reach])
  with x show ?thesis by blast
qed

lemma sdemo1_last:
  "\<exists>r m. get_last (turn_store sdemo1) 1 1 = Inr [r] \<and> turn_meta (turn_store sdemo1) (tr_turn_id r) = Some m \<and>
    tr_turn_id r = 1 \<and> (\<exists>v. sblob_get demo_senv sdemo1 (tr_payload_hash r) = Inr v)"
proof -
  from sdemo_append obtain r where
    a: "st_append_turn demo_senv 200 sdemo0 1 0 ''T'' 1 1 0 1 (replicate 32 1) [9] = (sdemo1, Inr (r, None))" ..
  from a obtain raw be where t: "append_turn (se_crc demo_senv) 200 (turn_store sdemo0) 1 0 (replicate 32 1) 1 ''T'' 1 0 1
      = (turn_store sdemo1, Inr r)" by (rule st_append_InrE)
  have z: "zstd_ok (se_zenc demo_senv) (se_zdec demo_senv)" by (simp add: demo_zstd_ok)
  have "ts_inv (se_crc demo_senv) (turn_store sdemo0)" using st_reach_inv [OF z sdemo0_reach] by (simp add: st_inv_def)
  note last = append_last [OF this t]
  have r: "turns (turn_store sdemo1) 1 = Some r" "tr_turn_id r = 1" using t by (auto elim!: append_turn_InrE)
  with st_reach_inv [OF z sdemo1_reach] have "\<exists>v. sblob_get demo_senv sdemo1 (tr_payload_hash r) = Inr v"
    unfolding st_inv_def payloads_ok_def by blast
  with last r show ?thesis by blast
qed

section \<open>Properties\<close>

text \<open>C15. Whatever frames the clients send, in whatever order their connections are served, and however connections
  end: the store stays one that the store operations reach, so everything proved of those holds; every live context
  belongs to a registered session that lists it; a connection is registered exactly once it has said who it is; the
  active-session counter is the number of open connections; and the buffers stay within their bounds.\<close>

theorem server_invariant:
  assumes "sv_reach env io_msg (s, cs)"
  shows "st_reach env (sv_store s) \<and>
    (\<forall>x. is_context_live (sv_tracker s) x \<longrightarrow>
      (\<exists>sess. get_session_for_context (sv_tracker s) x = Some sess \<and> x \<in> set (cs_contexts_created sess))) \<and>
    (\<forall>i c. cs i = Some c \<longrightarrow> (cn_tag_received c \<longleftrightarrow> get_client_tag (sv_tracker s) i \<noteq> None)) \<and>
    sessions_active (sv_metrics s) = of_nat (card (dom cs)) \<and>
    metrics_bounded (sv_metrics s) \<and> bus_inv (sv_bus s)"
proof -
  from sv_reach_ok [OF assms] have ok: "sv_ok env s cs" by simp
  then have inv: "tracker_inv (sv_tracker s)" by (simp add: sv_ok_def)
  have "\<exists>sess. get_session_for_context (sv_tracker s) x = Some sess \<and> x \<in> set (cs_contexts_created sess)"
    if "is_context_live (sv_tracker s) x" for x
    using that inv unfolding is_context_live_def get_session_for_context_def tracker_inv_def by fastforce
  with ok show ?thesis by (auto simp: sv_ok_def get_client_tag_def)
qed

theorem server_invariant_witness:
  "\<exists>s c sess. sv_reach demo_senv (\<lambda>_. []) (s, [1 \<mapsto> c]) \<and> get_session_for_context (sv_tracker s) 1 = Some sess \<and>
    sessions_active (sv_metrics s) = 1"
proof -
  from vresult_reach obtain s c where r: "sv_reach demo_senv (\<lambda>_. []) (s, [1 \<mapsto> c])"
    and x: "context_to_session (sv_tracker s) 1 = Some 1" by blast
  from server_invariant [OF r] x have "\<exists>sess. get_session_for_context (sv_tracker s) 1 = Some sess"
    "sessions_active (sv_metrics s) = 1" by (auto simp: is_context_live_def)
  with r show ?thesis by blast
qed

text \<open>A connection that ends cleanly leaves no trace in the session tracker: its session is gone and none of its
  contexts is live.  A connection that ends by an error, a malformed request, an unknown context in an append or a
  failed write, is never unregistered: the tracker is as it was, so its contexts stay live and its session stays
  active although the counter of active sessions is decremented.\<close>

theorem disconnect_clean_and_aborted:
  assumes "sv_reach env io_msg (s, cs)" and "cs i = Some c"
  shows "sessions (sv_tracker (close_connection s c)) i = None \<and>
    (\<forall>x. context_to_session (sv_tracker (close_connection s c)) x \<noteq> Some i) \<and>
    (\<forall>j. j \<noteq> i \<longrightarrow> sessions (sv_tracker (close_connection s c)) j = sessions (sv_tracker s) j) \<and>
    sv_tracker (abort_connection s c) = sv_tracker s \<and>
    sessions_active (sv_metrics (abort_connection s c)) = sessions_active (sv_metrics s) - 1"
proof -
  from sv_reach_ok [OF assms(1)] have ok: "sv_ok env s cs" by simp
  with assms(2) have id: "cn_session_id c = i" and inv: "tracker_inv (sv_tracker s)" by (auto simp: sv_ok_def)
  obtain t orph where u: "unregister (sv_tracker s) i = (t, orph)" by fastforce
  from tracker_inv_unregister [OF inv u] u id show ?thesis
    by (simp add: close_connection_def abort_connection_def unregister_session_def)
qed

theorem disconnect_clean_and_aborted_witness:
  "\<exists>s c. sv_reach demo_senv (\<lambda>_. []) (s, [1 \<mapsto> c]) \<and>
    context_to_session (sv_tracker (abort_connection s c)) 1 = Some 1 \<and>
    context_to_session (sv_tracker (close_connection s c)) 1 \<noteq> Some 1"
proof -
  from vresult_reach obtain s c where r: "sv_reach demo_senv (\<lambda>_. []) (s, [1 \<mapsto> c])"
    and x: "context_to_session (sv_tracker s) 1 = Some 1" by blast
  from disconnect_clean_and_aborted [OF r, of 1 c] x r show ?thesis by (intro exI [of _ s] exI [of _ c]) simp
qed

text \<open>C24. Asked for turns with their payloads, the server answers with bytes that the client decodes to exactly the
  turns of the store: ids, parents, depths, types, encodings, hashes and payloads, with compression reported as
  none because the payloads are sent uncompressed.\<close>

theorem get_last_roundtrip:
  assumes "zstd_ok (se_zenc env) (se_zdec env)" and "st_reach env (sv_store s)"
    and "st_get_last env (sv_store s) ctx (if limit = 0 then 10 else limit) True = Inr out"
    and "handle_message env now elapsed s c \<lparr>fh_len = len, fh_msg_type = msg_code GetLast, fh_flags = 0, fh_req_id = i\<rparr>
      (client_get_last_payload ctx limit True) = (s', c', res)"
  shows "\<exists>resp. res = Reply GetLast resp \<and> sv_store s' = sv_store s \<and>
    parse_turn_records resp = Inr (map (\<lambda>item. client_turn item (the (tw_payload item))) out)"
proof -
  note items = get_last_items [OF assms(1-3)]
  have "length out < 2 ^ 32"
    using items(1) unsigned_less [of "if limit = 0 then 10 else limit", where 'a = nat] by simp
  with parse_turn_items [of out] items(2) handle_get_last_client [OF assms(3)] assms(4) show ?thesis by auto
qed

theorem get_last_roundtrip_witness:
  "\<exists>s c resp out. handle_message demo_senv 0 0 (server_start sdemo1) vconn0
      \<lparr>fh_len = 16, fh_msg_type = msg_code GetLast, fh_flags = 0, fh_req_id = 1\<rparr> (client_get_last_payload 1 1 True) =
      (s, c, Reply GetLast resp) \<and> parse_turn_records resp = Inr [out] \<and> ct_turn_id out = 1"
proof -
  from sdemo1_last obtain r m where g: "get_last (turn_store sdemo1) 1 1 = Inr [r]"
      "turn_meta (turn_store sdemo1) (tr_turn_id r) = Some m" "tr_turn_id r = 1"
      "\<exists>v. sblob_get demo_senv sdemo1 (tr_payload_hash r) = Inr v" by blast
  then obtain item where i: "st_get_last demo_senv (sv_store (server_start sdemo1)) 1 (if (1 :: u32) = 0 then 10 else 1) True = Inr [item]"
      "tw_record item = r" by (auto simp: st_get_last_def server_start_def get_turn_meta_def)
  obtain s c res where h: "handle_message demo_senv 0 0 (server_start sdemo1) vconn0
      \<lparr>fh_len = 16, fh_msg_type = msg_code GetLast, fh_flags = 0, fh_req_id = 1\<rparr> (client_get_last_payload 1 1 True) =
      (s, c, res)" by (metis prod.collapse)
  from get_last_roundtrip [OF _ _ i(1) h] sdemo1_reach h i(2) g(3) show ?thesis
    by (auto simp: demo_zstd_ok server_start_def client_turn_def)
qed

text \<open>Asked without payloads, which is the client's default, the server leaves out the payload and its length, but
  the client reads the length all the same: a response with a single turn is never decoded.\<close>

theorem get_last_without_payload_fails:
  assumes "zstd_ok (se_zenc env) (se_zdec env)" and "st_reach env (sv_store s)"
    and "st_get_last env (sv_store s) ctx (if limit = 0 then 10 else limit) False = Inr [item]"
    and "handle_message env now elapsed s c \<lparr>fh_len = len, fh_msg_type = msg_code GetLast, fh_flags = 0, fh_req_id = i\<rparr>
      (client_get_last_payload ctx limit False) = (s', c', res)"
  shows "\<exists>resp. res = Reply GetLast resp \<and> parse_turn_records resp = Inl (CIo UnexpectedEof)"
proof -
  have ok: "item_ok item" "tw_payload item = None" using get_last_items(2) [OF assms(1-3), of item] by auto
  have "parse_turn_record (encode_turn_item item) = Inl (CIo UnexpectedEof)"
    using ok by (simp add: parse_turn_record_def encode_turn_item_def item_ok_def unat_len32 from_utf8_as_bytes)
  then have "parse_turn_records (encode_turn_items [item]) = Inl (CIo UnexpectedEof)"
    by (simp add: parse_turn_records_def encode_turn_items_def)
  with handle_get_last_client [OF assms(3)] assms(4) show ?thesis by auto
qed

theorem get_last_without_payload_fails_witness:
  "\<exists>s c resp. handle_message demo_senv 0 0 (server_start sdemo1) vconn0
      \<lparr>fh_len = 16, fh_msg_type = msg_code GetLast, fh_flags = 0, fh_req_id = 1\<rparr> (client_get_last_payload 1 1 False) =
      (s, c, Reply GetLast resp) \<and> parse_turn_records resp = Inl (CIo UnexpectedEof)"
proof -
  from sdemo1_last obtain r m where g: "get_last (turn_store sdemo1) 1 1 = Inr [r]"
      "turn_meta (turn_store sdemo1) (tr_turn_id r) = Some m" by blast
  then obtain item where i: "st_get_last demo_senv (sv_store (server_start sdemo1)) 1 (if (1 :: u32) = 0 then 10 else 1) False = Inr [item]"
    by (auto simp: st_get_last_def server_start_def get_turn_meta_def)
  obtain s c res where h: "handle_message demo_senv 0 0 (server_start sdemo1) vconn0
      \<lparr>fh_len = 16, fh_msg_type = msg_code GetLast, fh_flags = 0, fh_req_id = 1\<rparr> (client_get_last_payload 1 1 False) =
      (s, c, res)" by (metis prod.collapse)
  from get_last_without_payload_fails [OF _ _ i h] sdemo1_reach h show ?thesis
    by (auto simp: demo_zstd_ok server_start_def)
qed

text \<open>C25. An error the server reports reaches the caller: the frame that answers a failed request is decoded by the
  client's request function to the server's status code and message.\<close>

theorem error_reply_understood:
  assumes "respond io_msg now True s (cl_req_id cl + 1) (Fail e) = (s', Inr frame)"
    and "map_error io_msg e = (code, detail)" and "rust_string detail" and "length detail < 2 ^ 25"
    and "\<not> cl_closed cl" and "\<not> rc_cancelled ctx" and "compute_deadline t cl ctx = Inr d"
  shows "\<exists>sent. send_request_with_flags t (\<lambda>_. frame) ending cl ctx ty flags payload =
    (cl\<lparr>cl_req_id := cl_req_id cl + 1\<rparr>, sent, Inl (Server code detail))"
proof -
  have frame: "frame = write_frame (msg_code Error) 0 (cl_req_id cl + 1) (encode_error code detail) @ []"
    using assms(1,2) by (simp add: respond_def)
  have len: "length (encode_error code detail) = 8 + length detail" by (simp add: encode_error_def)
  have rd: "client_read_frame ending frame = Inr (\<lparr>fh_len = of_nat (length (encode_error code detail)),
      fh_msg_type = msg_code Error, fh_flags = 0, fh_req_id = cl_req_id cl + 1\<rparr>, encode_error code detail, [])"
    unfolding frame by (rule client_read_frame_write_frame) (use assms(4) len in \<open>simp add: CLIENT_MAX_FRAME_SIZE_def\<close>)
  have val: "of_nat (le_val (write_u32 w)) = w" for w
    using read_word_write_sized(2) [of w "[]"] by (simp add: read_word_def read_exact_def)
  have "parse_server_error (encode_error code detail) = Server code detail"
    using assms(3,4)
    by (simp add: parse_server_error_def encode_error_def val from_utf8_lossy_string unat_len32 Let_def)
  with rd assms(5-7) show ?thesis by (simp add: send_request_with_flags_def Let_def)
qed

definition demo_client :: ClientState where
  "demo_client = \<lparr>cl_req_id = 4, cl_closed = False, cl_timeout = 30, cl_session_id = 1, cl_client_tag = []\<rparr>"

theorem error_reply_understood_witness:
  "\<exists>cl sent frame. snd (respond (\<lambda>_. []) 0 True (server_start sdemo) 5 (Fail (NotFound ''context''))) = Inr frame \<and>
    send_request_with_flags 0 (\<lambda>_. frame) UnexpectedEof demo_client \<lparr>rc_deadline = None, rc_cancelled = False\<rparr> 4 0 [] =
      (cl, sent, Inl (Server 404 ''context''))"
proof -
  obtain s frame where f: "respond (\<lambda>_. []) 0 True (server_start sdemo) (cl_req_id demo_client + 1) (Fail (NotFound ''context'')) = (s, Inr frame)"
    by (simp add: respond_def map_error_def)
  have "map_error (\<lambda>_. []) (NotFound ''context'') = (404, ''context'')" by (simp add: map_error_def)
  moreover have "rust_string ''context''" by code_simp
  ultimately obtain sent where "send_request_with_flags 0 (\<lambda>_. frame) UnexpectedEof demo_client
      \<lparr>rc_deadline = None, rc_cancelled = False\<rparr> 4 0 [] =
      (demo_client\<lparr>cl_req_id := cl_req_id demo_client + 1\<rparr>, sent, Inl (Server 404 ''context''))"
    using error_reply_understood [OF f, of 404 "''context''" "\<lparr>rc_deadline = None, rc_cancelled = False\<rparr>" 0 30 UnexpectedEof 4 0 "[]"]
    by (auto simp: demo_client_def compute_deadline_def)
  with f show ?thesis by (auto simp: demo_client_def)
qed

end
