(* ===== verification/Floats.thy ===== *)
theory Floats
  imports Bytes "HOL-Library.Log_Nat"
begin

text \<open>
  IEEE 754 doubles as their 64 bits: the double nearest to a quotient of natural numbers, and what the
  sources ask of floating-point values beyond that.
\<close>

text \<open>The integer nearest to \<open>num / den\<close>, the even one of two.\<close>

definition round_half_even :: "nat \<Rightarrow> nat \<Rightarrow> nat" where
  "round_half_even num den =
     (let q = num div den; r = num mod den
      in if 2 * r < den \<or> 2 * r = den \<and> even q then q else q + 1)"

text \<open>The double nearest to \<open>num / den\<close>, as its bits: \<open>t\<close> is the binary exponent, \<open>e\<close> the
  exponent of the last place, and a carry out of the fraction moves into the exponent.\<close>

definition f64_of_ratio :: "nat \<Rightarrow> nat \<Rightarrow> nat" where
  "f64_of_ratio num den =
     (if num = 0 then 0
      else let a = int (floorlog 2 num) - int (floorlog 2 den);
               t = (if den * 2 ^ nat a \<le> num * 2 ^ nat (- a) then a else a - 1);
               e = max (t - 52) (- 1074);
               q = round_half_even (num * 2 ^ nat (- e)) (den * 2 ^ nat e)
           in min (nat (e + 1074) * 2 ^ 52 + q) (2047 * 2 ^ 52))"

text \<open>\<^verbatim>\<open>f as f64\<close> for a finite single: its value is a quotient by a power of two, and exact.\<close>

definition f32_as_f64 :: "u32 \<Rightarrow> u64" where
  "f32_as_f64 w =
     (let n = unat w; sign = n div 2 ^ 31; e = n div 2 ^ 23 mod 2 ^ 8; m = n mod 2 ^ 23
      in of_nat (sign * 2 ^ 63 +
           (if e = 255 then 2047 * 2 ^ 52 + m * 2 ^ 29
            else if e = 0 then f64_of_ratio m (2 ^ 149)
            else f64_of_ratio ((2 ^ 23 + m) * 2 ^ e) (2 ^ 150))))"

definition f64_is_finite :: "u64 \<Rightarrow> bool" where
  "f64_is_finite w \<longleftrightarrow> unat w div 2 ^ 52 mod 2 ^ 11 \<noteq> 2047"

end
