(* ===== verification/Cql_Lexer.thy ===== *)
theory Cql_Lexer
  imports Cql_Executor Floats
begin

text \<open>
  The lexer of the query language (first half of \<^verbatim>\<open>server/src/cql/parser.rs\<close>).

  A Rust \<^verbatim>\<open>char\<close> is the string of its UTF-8 bytes; the iterator over the characters of the input
  is the part of the input that is left.  Of the Unicode tables of the standard library the white space
  characters are written out; the letters, the digits and the upper case beyond ASCII are the record
  \<open>lex_env\<close>.  A number is read to the nearest double, ties to even, as \<^verbatim>\<open>str::parse\<close> documents.
\<close>

section \<open>Characters\<close>

record lex_env =
  lx_alphabetic :: "rchar \<Rightarrow> bool"
  lx_numeric :: "rchar \<Rightarrow> bool"
  lx_uppercase :: "string \<Rightarrow> string"

definition is_alphabetic :: "lex_env \<Rightarrow> rchar \<Rightarrow> bool" where
  "is_alphabetic env ch \<longleftrightarrow> (if is_ascii ch then is_ascii_alphabetic ch else lx_alphabetic env ch)"

definition is_alphanumeric :: "lex_env \<Rightarrow> rchar \<Rightarrow> bool" where
  "is_alphanumeric env ch \<longleftrightarrow>
     is_alphabetic env ch \<or> (if is_ascii ch then is_ascii_digit ch else lx_numeric env ch)"

definition ascii_upper :: "char \<Rightarrow> char" where
  "ascii_upper c = (let n = of_char c :: nat in if 97 \<le> n \<and> n \<le> 122 then char_of (n - 32) else c)"

definition to_uppercase :: "lex_env \<Rightarrow> string \<Rightarrow> string" where
  "to_uppercase env s = (if is_ascii s then map ascii_upper s else lx_uppercase env s)"

section \<open>Decimal numbers\<close>

definition digits_val :: "string \<Rightarrow> nat" where
  "digits_val s = foldl (\<lambda>acc c. acc * 10 + (of_char c - 48)) 0 s"

text \<open>\<^verbatim>\<open>parse::<f64>\<close> of an optional minus sign, digits, and an optional point with digits.\<close>

definition parse_f64 :: "string \<Rightarrow> u64" where
  "parse_f64 s =
     (let neg = (case s of c # _ \<Rightarrow> c = CHR ''-'' | [] \<Rightarrow> False);
          body = (if neg then tl s else s);
          whole = takeWhile (\<lambda>c. c \<noteq> CHR ''.'') body;
          frac = tl (dropWhile (\<lambda>c. c \<noteq> CHR ''.'') body)
      in of_nat ((if neg then 2 ^ 63 else 0) + f64_of_ratio (digits_val (whole @ frac)) (10 ^ length frac)))"

section \<open>Tokens\<close>

datatype TokenType = TAnd | TOr | TNot | TIn | TLParen | TRParen | TComma | TEq | TNeq | TStarts | TEqCi
  | TStartsCi | TGt | TGte | TLt | TLte | TString string | TNumber u64 | TIdent string | TEof

record Token =
  token_type :: TokenType
  position :: Position

record Lexer =
  lx_input :: string
  lx_chars :: string
  lx_pos :: nat
  lx_line :: nat
  lx_column :: nat

definition lexer_new :: "string \<Rightarrow> Lexer" where
  "lexer_new input = \<lparr>lx_input = input, lx_chars = input, lx_pos = 0, lx_line = 1, lx_column = 1\<rparr>"

definition current_position :: "Lexer \<Rightarrow> Position" where
  "current_position lx = \<lparr>ps_line = lx_line lx, ps_column = lx_column lx, ps_offset = lx_pos lx\<rparr>"

text \<open>The index that the iterator yields with a character is \<^verbatim>\<open>self.pos\<close>: both start at 0 and
  grow by the length of every character taken.\<close>

definition lex_advance :: "Lexer \<Rightarrow> Lexer \<times> rchar option" where
  "lex_advance lx =
     (case next_char (lx_chars lx) of
        Some (ch, rest) \<Rightarrow>
          (let lx1 = lx\<lparr>lx_chars := rest, lx_pos := lx_pos lx + length ch\<rparr>
           in (if ch = [CHR 0x0A] then lx1\<lparr>lx_line := lx_line lx + 1, lx_column := 1\<rparr>
               else lx1\<lparr>lx_column := lx_column lx + 1\<rparr>, Some ch))
      | None \<Rightarrow> (lx, None))"

abbreviation adv :: "Lexer \<Rightarrow> Lexer" where
  "adv lx \<equiv> fst (lex_advance lx)"

definition peek :: "Lexer \<Rightarrow> rchar option" where
  "peek lx = map_option fst (next_char (lx_chars lx))"

text \<open>The loop \<^verbatim>\<open>while let Some(ch) = self.peek()\<close> that advances over characters of a kind.\<close>

lemma adv_shorter: "peek lx = Some ch \<Longrightarrow> length (lx_chars (adv lx)) < length (lx_chars lx)"
  by (auto simp: peek_def lex_advance_def Let_def dest: next_char_SomeD split: prod.splits)

function advance_while :: "(rchar \<Rightarrow> bool) \<Rightarrow> Lexer \<Rightarrow> Lexer" where
  "advance_while P lx = (case peek lx of Some ch \<Rightarrow> if P ch then advance_while P (adv lx) else lx | None \<Rightarrow> lx)"
  by pat_completeness auto
termination
  by (relation "measure (\<lambda>(P, lx). length (lx_chars lx))") (auto dest: adv_shorter)

declare advance_while.simps [simp del]

definition skip_whitespace :: "Lexer \<Rightarrow> Lexer" where
  "skip_whitespace = advance_while is_whitespace"

definition syntax_error :: "string \<Rightarrow> Position \<Rightarrow> CqlError" where
  "syntax_error msg p = \<lparr>ce_error_type = SyntaxError, ce_message = msg, ce_position = Some p, ce_field = None\<rparr>"

definition at_line_column :: "Position \<Rightarrow> string" where
  "at_line_column p = '' at line '' @ dec_str (ps_line p) @ '', column '' @ dec_str (ps_column p)"

definition unescape :: "rchar \<Rightarrow> string" where
  "unescape ch = (if ch = ''n'' then [CHR 0x0A] else if ch = ''t'' then [CHR 0x09] else if ch = ''r'' then [CHR 0x0D] else ch)"

text \<open>The loop of \<^verbatim>\<open>read_string\<close>.\<close>

lemma lex_advance_None: "lex_advance lx = (lx', None) \<Longrightarrow> lx' = lx"
  by (auto simp: lex_advance_def Let_def split: option.splits prod.splits)

lemma adv_le: "length (lx_chars (adv lx)) \<le> length (lx_chars lx)"
  by (auto simp: lex_advance_def Let_def dest: next_char_SomeD split: option.splits prod.splits)

function string_loop :: "Position \<Rightarrow> rchar \<Rightarrow> string \<Rightarrow> Lexer \<Rightarrow> (string \<times> Lexer) cql_res" where
  "string_loop start_pos quote value lx =
     (case peek lx of
        None \<Rightarrow> Inl (syntax_error (''Unterminated string starting'' @ at_line_column start_pos) start_pos)
      | Some ch \<Rightarrow>
          if ch = quote then Inr (value, adv lx)
          else if ch = [CHR 0x5C] then
            (case lex_advance (adv lx) of
               (lx2, Some ch) \<Rightarrow> string_loop start_pos quote (value @ unescape ch) lx2
             | (lx2, None) \<Rightarrow> Inl (syntax_error ''Unterminated escape sequence'' (current_position lx2)))
          else string_loop start_pos quote (value @ ch) (adv lx))"
  by pat_completeness auto
termination
proof (relation "measure (\<lambda>(p, q, v, lx). length (lx_chars lx))", goal_cases)
  case (2 start_pos quote "value" lx ch lx2 ch2)
  from 2(4) [symmetric] have "lx2 = adv (adv lx)" by simp
  with 2 show ?case using adv_shorter [of lx ch] adv_le [of "adv lx"] by simp
qed (auto dest: adv_shorter)

declare string_loop.simps [simp del]

definition read_string :: "rchar \<Rightarrow> Lexer \<Rightarrow> (Token \<times> Lexer) cql_res" where
  "read_string quote lx =
     (let start_pos = current_position lx
      in rbind (string_loop start_pos quote [] (adv lx)) (\<lambda>(value, lx').
           Inr (\<lparr>token_type = TString value, position = start_pos\<rparr>, lx')))"

text \<open>\<^verbatim>\<open>self.input[start..self.pos]\<close>\<close>

definition lex_slice :: "Lexer \<Rightarrow> nat \<Rightarrow> string" where
  "lex_slice lx start = take (lx_pos lx - start) (drop start (lx_input lx))"

definition read_number :: "Lexer \<Rightarrow> Token \<times> Lexer" where
  "read_number lx =
     (let start_pos = current_position lx; start = lx_pos lx;
          lx1 = (if peek lx = Some ''-'' then adv lx else lx);
          lx2 = advance_while is_ascii_digit lx1;
          lx3 = (if peek lx2 = Some ''.'' then advance_while is_ascii_digit (adv lx2) else lx2)
      in (\<lparr>token_type = TNumber (parse_f64 (lex_slice lx3 start)), position = start_pos\<rparr>, lx3))"

definition keyword_or_ident :: "lex_env \<Rightarrow> string \<Rightarrow> TokenType" where
  "keyword_or_ident env value =
     (let u = to_uppercase env value
      in if u = ''AND'' then TAnd
         else if u = ''OR'' then TOr
         else if u = ''NOT'' then TNot
         else if u = ''IN'' then TIn
         else TIdent value)"

definition read_identifier :: "lex_env \<Rightarrow> Lexer \<Rightarrow> Token \<times> Lexer" where
  "read_identifier env lx =
     (let start_pos = current_position lx; start = lx_pos lx;
          lx1 = advance_while (\<lambda>ch. is_alphanumeric env ch \<or> ch = ''_'') lx
      in (\<lparr>token_type = keyword_or_ident env (lex_slice lx1 start), position = start_pos\<rparr>, lx1))"

text \<open>The condition under which a minus sign starts a number: the input has a digit right after it.\<close>

definition minus_digit :: "Lexer \<Rightarrow> bool" where
  "minus_digit lx \<longleftrightarrow>
     1 < length (drop (lx_pos lx) (lx_input lx))
     \<and> (case next_char (drop (lx_pos lx + 1) (lx_input lx)) of Some (c, _) \<Rightarrow> is_ascii_digit c | None \<Rightarrow> False)"

definition next_token :: "lex_env \<Rightarrow> Lexer \<Rightarrow> (Token \<times> Lexer) cql_res" where
  "next_token env lx0 =
     (let lx = skip_whitespace lx0; start_pos = current_position lx;
          tok = (\<lambda>ty lx'. Inr (\<lparr>token_type = ty, position = start_pos\<rparr>, lx'));
          expected = (\<lambda>what. Inl (syntax_error (''Expected '' @ what @ at_line_column start_pos) start_pos));
          lx1 = adv lx; lx2 = adv lx1; lx3 = adv lx2
      in case peek lx of
           None \<Rightarrow> tok TEof lx
         | Some ch \<Rightarrow>
             if ch = [CHR 0x22] \<or> ch = [CHR 0x27] then read_string ch lx
             else if is_ascii_digit ch \<or> ch = ''-'' \<and> minus_digit lx then Inr (read_number lx)
             else if is_alphabetic env ch \<or> ch = ''_'' then Inr (read_identifier env lx)
             else if ch = ''('' then tok TLParen lx1
             else if ch = '')'' then tok TRParen lx1
             else if ch = '','' then tok TComma lx1
             else if ch = ''='' then tok TEq lx1
             else if ch = ''!'' then
               (if peek lx1 = Some ''='' then tok TNeq lx2
                else expected (CHR 0x27 # ''='' @ CHR 0x27 # '' after '' @ CHR 0x27 # ''!'' @ [CHR 0x27]))
             else if ch = ''^'' then
               (if peek lx1 = Some ''~'' then
                  (if peek lx2 = Some ''='' then tok TStartsCi lx3
                   else expected (CHR 0x27 # ''='' @ CHR 0x27 # '' after '' @ CHR 0x27 # ''^~'' @ [CHR 0x27]))
                else if peek lx1 = Some ''='' then tok TStarts lx2
                else expected (CHR 0x27 # ''='' @ CHR 0x27 # '' or '' @ CHR 0x27 # ''~='' @ CHR 0x27 # '' after '' @ CHR 0x27 # ''^'' @ [CHR 0x27]))
             else if ch = ''~'' then
               (if peek lx1 = Some ''='' then tok TEqCi lx2
                else expected (CHR 0x27 # ''='' @ CHR 0x27 # '' after '' @ CHR 0x27 # ''~'' @ [CHR 0x27]))
             else if ch = ''>'' then (if peek lx1 = Some ''='' then tok TGte lx2 else tok TGt lx1)
             else if ch = ''<'' then (if peek lx1 = Some ''='' then tok TLte lx2 else tok TLt lx1)
             else Inl (syntax_error (''Unexpected character '' @ CHR 0x27 # ch @ CHR 0x27 # at_line_column start_pos) start_pos))"

section \<open>Progress\<close>

text \<open>What the lexer does to its state: it takes characters off the front and moves the position by their length.\<close>

definition lex_step :: "Lexer \<Rightarrow> Lexer \<Rightarrow> bool" where
  "lex_step lx lx' \<longleftrightarrow> lx_input lx' = lx_input lx \<and> lx_pos lx \<le> lx_pos lx' \<and>
     lx_chars lx' = drop (lx_pos lx' - lx_pos lx) (lx_chars lx) \<and> lx_pos lx' - lx_pos lx \<le> length (lx_chars lx)"

lemma lex_step_refl [simp]: "lex_step lx lx"
  by (simp add: lex_step_def)

lemma lex_step_trans: "lex_step lx lx1 \<Longrightarrow> lex_step lx1 lx2 \<Longrightarrow> lex_step lx lx2"
  by (auto simp: lex_step_def)

lemma lex_step_adv [simp]: "lex_step lx (adv lx)"
  by (auto simp: lex_step_def lex_advance_def Let_def dest: next_char_SomeD split: option.split prod.splits)

lemma lex_step_advance_while: "lex_step lx (advance_while P lx)"
proof (induction P lx rule: advance_while.induct)
  case (1 P lx)
  then show ?case
    by (subst advance_while.simps) (auto split: option.split intro: lex_step_trans [OF lex_step_adv])
qed

lemma lex_step_adv_while [simp]: "lex_step lx (advance_while P (adv lx))"
  by (blast intro: lex_step_trans [OF lex_step_adv] lex_step_advance_while)

lemma lex_step_string_loop: "string_loop p q v lx = Inr (w, lx') \<Longrightarrow> lex_step lx lx'"
proof (induction p q v lx rule: string_loop.induct)
  case (1 p q v lx)
  show ?case
  proof (cases "peek lx")
    case None
    with "1.prems" show ?thesis by (subst (asm) string_loop.simps) simp
  next
    case (Some ch)
    consider (quote) "ch = q" | (esc) "ch \<noteq> q" "ch = [CHR 0x5C]" | (plain) "ch \<noteq> q" "ch \<noteq> [CHR 0x5C]" by blast
    then show ?thesis
    proof cases
      case quote
      with "1.prems" Some show ?thesis by (subst (asm) string_loop.simps) auto
    next
      case esc
      with "1.prems" Some obtain ch2 where e: "lex_advance (adv lx) = (adv (adv lx), Some ch2)"
          "string_loop p q (v @ unescape ch2) (adv (adv lx)) = Inr (w, lx')"
        by (subst (asm) string_loop.simps) (auto split: prod.splits option.splits)
      from "1.IH"(1) [OF Some esc e(1) [symmetric] refl e(2)] show ?thesis
        by (blast intro: lex_step_trans [OF lex_step_adv] lex_step_trans)
    next
      case plain
      with "1.prems" Some have "string_loop p q (v @ ch) (adv lx) = Inr (w, lx')"
        by (subst (asm) string_loop.simps) simp
      from "1.IH"(2) [OF Some plain this] show ?thesis by (blast intro: lex_step_trans [OF lex_step_adv])
    qed
  qed
qed

lemma lex_step_length: "lex_step lx lx' \<Longrightarrow> length (lx_chars lx') = length (lx_chars lx) - (lx_pos lx' - lx_pos lx)"
  by (simp add: lex_step_def)

lemma lex_step_shorter: "lex_step lx lx' \<Longrightarrow> length (lx_chars lx') \<le> length (lx_chars lx)"
  by (simp add: lex_step_length)

lemma read_string_step:
  "peek lx = Some ch \<Longrightarrow> read_string q lx = Inr (t, lx') \<Longrightarrow>
    lex_step lx lx' \<and> length (lx_chars lx') < length (lx_chars lx)"
  using adv_shorter [of lx ch] lex_step_string_loop [THEN lex_step_shorter]
  by (fastforce simp: read_string_def Let_def intro: lex_step_trans [OF lex_step_adv] dest: lex_step_string_loop)

lemma advance_while_first:
  "peek lx = Some ch \<Longrightarrow> P ch \<Longrightarrow> length (lx_chars (advance_while P lx)) < length (lx_chars lx)"
  using adv_shorter [of lx ch] lex_step_shorter [OF lex_step_advance_while [of "adv lx" P]]
  by (subst advance_while.simps) simp

lemma read_number_step:
  assumes "peek lx = Some ch" and "is_ascii_digit ch \<or> ch = ''-''" and "read_number lx = (t, lx')"
  shows "lex_step lx lx' \<and> length (lx_chars lx') < length (lx_chars lx)"
proof -
  let ?lx1 = "if peek lx = Some ''-'' then adv lx else lx"
  let ?lx2 = "advance_while is_ascii_digit ?lx1"
  have s1: "lex_step lx ?lx1" and s2: "lex_step ?lx1 ?lx2" by (simp_all add: lex_step_advance_while)
  have s3: "lex_step ?lx2 lx'" using assms(3)
    by (auto simp: read_number_def Let_def)
  have "length (lx_chars ?lx2) < length (lx_chars lx)"
  proof (cases "ch = ''-''")
    case True
    with assms(1) adv_shorter [OF assms(1)] lex_step_shorter [OF s2] show ?thesis by simp
  next
    case False
    with assms(1,2) advance_while_first [of lx ch is_ascii_digit] show ?thesis by simp
  qed
  with s1 s2 s3 lex_step_shorter [OF s3] show ?thesis by (blast intro: lex_step_trans less_le_trans le_less_trans)
qed

lemma read_identifier_step:
  "peek lx = Some ch \<Longrightarrow> is_alphabetic env ch \<or> ch = ''_'' \<Longrightarrow> read_identifier env lx = (t, lx') \<Longrightarrow>
    lex_step lx lx' \<and> length (lx_chars lx') < length (lx_chars lx)"
  by (auto simp: read_identifier_def Let_def lex_step_advance_while is_alphanumeric_def intro!: advance_while_first)

lemma skip_whitespace_step: "lex_step lx (skip_whitespace lx)"
  by (simp add: skip_whitespace_def lex_step_advance_while)

lemma adv_steps:
  "lex_step lx (adv (adv lx))" "lex_step lx (adv (adv (adv lx)))"
  "peek lx = Some ch \<Longrightarrow> length (lx_chars (adv (adv lx))) < length (lx_chars lx)"
  "peek lx = Some ch \<Longrightarrow> length (lx_chars (adv (adv (adv lx)))) < length (lx_chars lx)"
  using adv_shorter [of lx ch] adv_le [of "adv lx"] adv_le [of "adv (adv lx)"]
  by (auto intro: lex_step_trans [OF lex_step_adv] lex_step_trans [OF lex_step_trans [OF lex_step_adv lex_step_adv]])

lemma next_token_cases:
  assumes "next_token env lx0 = Inr (t, lx')" and "peek (skip_whitespace lx0) = Some ch"
  shows "read_string ch (skip_whitespace lx0) = Inr (t, lx') \<or>
    (is_ascii_digit ch \<or> ch = ''-'') \<and> read_number (skip_whitespace lx0) = (t, lx') \<or>
    (is_alphabetic env ch \<or> ch = ''_'') \<and> read_identifier env (skip_whitespace lx0) = (t, lx') \<or>
    position t = current_position (skip_whitespace lx0) \<and> token_type t \<noteq> TEof \<and>
      (lx' = adv (skip_whitespace lx0) \<or> lx' = adv (adv (skip_whitespace lx0)) \<or> lx' = adv (adv (adv (skip_whitespace lx0))))"
  using assms(1) unfolding next_token_def Let_def assms(2) option.case
  by (simp only: sum.inject prod.inject sum.distinct split: if_split_asm) auto

text \<open>A token that is found is not the end, and shortens the input; it starts where the white space ends.\<close>

lemma next_token_found:
  assumes "next_token env lx = Inr (t, lx')"
  shows "position t = current_position (skip_whitespace lx) \<and> lex_step (skip_whitespace lx) lx' \<and>
    (peek (skip_whitespace lx) = None \<and> lx' = skip_whitespace lx \<and> token_type t = TEof \<or>
     peek (skip_whitespace lx) \<noteq> None \<and> length (lx_chars lx') < length (lx_chars (skip_whitespace lx)) \<and> token_type t \<noteq> TEof)"
proof (cases "peek (skip_whitespace lx)")
  case None
  with assms show ?thesis by (auto simp: next_token_def Let_def)
next
  case (Some ch)
  from next_token_cases [OF assms Some] have "position t = current_position (skip_whitespace lx) \<and> token_type t \<noteq> TEof"
    by (auto simp: Let_def read_string_def read_number_def read_identifier_def keyword_or_ident_def split: if_split_asm)
  moreover from next_token_cases [OF assms Some]
  have "lex_step (skip_whitespace lx) lx' \<and> length (lx_chars lx') < length (lx_chars (skip_whitespace lx))"
    using read_string_step [OF Some] read_number_step [OF Some] read_identifier_step [OF Some] adv_steps [of "skip_whitespace lx"]
      adv_shorter [OF Some] lex_step_adv [of "skip_whitespace lx"] Some by metis
  ultimately show ?thesis using Some by simp
qed

lemma next_token_shorter:
  "next_token env lx = Inr (t, lx') \<Longrightarrow> token_type t \<noteq> TEof \<Longrightarrow> length (lx_chars lx') < length (lx_chars lx)"
  using next_token_found [of env lx t lx'] lex_step_shorter [OF skip_whitespace_step [of lx]] by auto

function tokenize :: "lex_env \<Rightarrow> Lexer \<Rightarrow> Token list cql_res" where
  "tokenize env lx =
     (case next_token env lx of
        Inl e \<Rightarrow> Inl e
      | Inr (token, lx') \<Rightarrow>
          if token_type token = TEof then Inr [token]
          else rbind (tokenize env lx') (\<lambda>tokens. Inr (token # tokens)))"
  by pat_completeness auto
termination
  by (relation "measure (\<lambda>(env, lx). length (lx_chars lx))") (auto dest!: next_token_shorter)

declare tokenize.simps [simp del]

end
