(* ===== verification/Cql_Parser.thy ===== *)
theory Cql_Parser
  imports Cql_Lexer Store
begin

text \<open>
  The parser of the query language (second half of \<^verbatim>\<open>server/src/cql/parser.rs\<close>) and the search over
  query strings.

  The recursive-descent functions are mutually recursive and loop; they take a bound on the number of
  nested calls and return \<open>None\<close> when it is used up.  \<open>parse_fuel\<close> is a bound that always
  suffices (theorem \<open>parse_total\<close> of \<open>Cql_Parser_Props\<close>).
\<close>

section \<open>Parser state\<close>

record Parser =
  pr_tokens :: "Token list"
  pr_pos :: nat

definition eof_default :: Token where
  "eof_default = \<lparr>token_type = TEof, position = \<lparr>ps_line = 1, ps_column = 1, ps_offset = 0\<rparr>\<rparr>"

definition current :: "Parser \<Rightarrow> Token" where
  "current p = (if pr_pos p < length (pr_tokens p) then pr_tokens p ! pr_pos p else eof_default)"

definition parser_advance :: "Parser \<Rightarrow> Parser" where
  "parser_advance p = (if token_type (current p) \<noteq> TEof then p\<lparr>pr_pos := pr_pos p + 1\<rparr> else p)"

text \<open>\<^verbatim>\<open>std::mem::discriminant\<close>: the constructor of a token type.\<close>

definition discriminant :: "TokenType \<Rightarrow> TokenType" where
  "discriminant ty = (case ty of TString _ \<Rightarrow> TString [] | TNumber _ \<Rightarrow> TNumber 0 | TIdent _ \<Rightarrow> TIdent [] | _ \<Rightarrow> ty)"

definition check :: "Parser \<Rightarrow> TokenType \<Rightarrow> bool" where
  "check p expected \<longleftrightarrow> discriminant (token_type (current p)) = discriminant expected"

definition match_token :: "Parser \<Rightarrow> TokenType \<Rightarrow> Parser \<times> bool" where
  "match_token p expected = (if check p expected then (parser_advance p, True) else (p, False))"

definition error_here :: "string \<Rightarrow> Parser \<Rightarrow> CqlError" where
  "error_here msg p = syntax_error msg (position (current p))"

section \<open>Values\<close>

definition parse_value :: "cql_env \<Rightarrow> Parser \<Rightarrow> (cql_value \<times> Parser) cql_res" where
  "parse_value env p =
     (case token_type (current p) of
        TString s \<Rightarrow>
          Inr (if env_rel_captures env s \<noteq> None then VDate s True else VString s, parser_advance p)
      | TNumber n \<Rightarrow> Inr (VNumber n, parser_advance p)
      | TIdent s \<Rightarrow>
          if env_lower env s = ''true'' \<or> env_lower env s = ''false''
          then Inr (VString (env_lower env s), parser_advance p)
          else Inl (error_here ''Expected value'' p)
      | _ \<Rightarrow> Inl (error_here ''Expected value'' p))"

text \<open>The loop of \<^verbatim>\<open>parse_list\<close>: every round takes a comma and a value.\<close>

lemma parser_advance_fields [simp]:
  "pr_tokens (parser_advance p) = pr_tokens p"
  "token_type (current p) \<noteq> TEof \<Longrightarrow> pr_pos (parser_advance p) = pr_pos p + 1"
  by (simp_all add: parser_advance_def)

lemma current_not_eof: "token_type (current p) \<noteq> TEof \<Longrightarrow> pr_pos p < length (pr_tokens p)"
  by (auto simp: current_def eof_default_def split: if_splits)

lemma parse_value_InrD:
  "parse_value env p = Inr (v, p') \<Longrightarrow> p' = parser_advance p \<and> token_type (current p) \<noteq> TEof"
  by (auto simp: parse_value_def split: TokenType.splits if_splits)

lemma match_token_TrueD:
  "match_token p ty = (p', True) \<Longrightarrow> p' = parser_advance p \<and> discriminant (token_type (current p)) = discriminant ty"
  by (simp add: match_token_def check_def split: if_splits)

lemma discriminant_eof [simp]: "discriminant TEof = TEof" "discriminant ty = TEof \<longleftrightarrow> ty = TEof"
  by (auto simp: discriminant_def split: TokenType.splits)

function list_loop :: "cql_env \<Rightarrow> cql_value list \<Rightarrow> Parser \<Rightarrow> (cql_value list \<times> Parser) cql_res" where
  "list_loop env values p =
     (case match_token p TComma of
        (p1, True) \<Rightarrow>
          (case parse_value env p1 of
             Inl e \<Rightarrow> Inl e
           | Inr (v, p2) \<Rightarrow> list_loop env (values @ [v]) p2)
      | (p1, False) \<Rightarrow> Inr (values, p1))"
  by pat_completeness auto
termination
proof (relation "measure (\<lambda>(env, vs, p). length (pr_tokens p) - pr_pos p)", goal_cases)
  case (2 env vs p p1 b y v p2)
  then have "p1 = parser_advance p" "token_type (current p) \<noteq> TEof" "p2 = parser_advance p1" "token_type (current p1) \<noteq> TEof"
    by (auto dest!: match_token_TrueD [OF sym] parse_value_InrD simp: discriminant_def split: TokenType.splits)
  then show ?case using current_not_eof [of p] by (simp add: diff_less_mono2)
qed simp

declare list_loop.simps [simp del]

definition parse_list :: "cql_env \<Rightarrow> Parser \<Rightarrow> (cql_value \<times> Parser) cql_res" where
  "parse_list env p =
     (case match_token p TLParen of
        (p1, False) \<Rightarrow> Inl (error_here (''Expected '' @ CHR 0x27 # ''('' @ CHR 0x27 # '' after IN'') p1)
      | (p1, True) \<Rightarrow>
          rbind (parse_value env p1) (\<lambda>(v, p2).
          rbind (list_loop env [v] p2) (\<lambda>(values, p3).
            (case match_token p3 TRParen of
               (p4, False) \<Rightarrow> Inl (error_here (''Expected '' @ CHR 0x27 # '')'' @ CHR 0x27 # '' after list values'') p4)
             | (p4, True) \<Rightarrow> Inr (VList values, p4)))))"

section \<open>Comparisons\<close>

fun operator_of :: "TokenType \<Rightarrow> Operator option" where
  "operator_of TEq = Some Eq"
| "operator_of TNeq = Some Neq"
| "operator_of TStarts = Some Starts"
| "operator_of TEqCi = Some EqCi"
| "operator_of TStartsCi = Some StartsCi"
| "operator_of TGt = Some Gt"
| "operator_of TGte = Some Gte"
| "operator_of TLt = Some Lt"
| "operator_of TLte = Some Lte"
| "operator_of TIn = Some In"
| "operator_of _ = None"

fun join :: "string \<Rightarrow> string list \<Rightarrow> string" where
  "join sep [] = []"
| "join sep [x] = x"
| "join sep (x # y # xs) = x @ sep @ join sep (y # xs)"

definition unknown_field :: "string \<Rightarrow> Position \<Rightarrow> CqlError" where
  "unknown_field name pos =
     \<lparr>ce_error_type = UnknownField,
      ce_message = ''Unknown field '' @ CHR 0x27 # name @ CHR 0x27 # ''. Valid fields: '' @ join '', '' (map field_as_str field_all),
      ce_position = Some pos, ce_field = Some name\<rparr>"

definition parse_comparison :: "cql_env \<Rightarrow> Parser \<Rightarrow> (Expression \<times> Parser) cql_res" where
  "parse_comparison env p =
     (case token_type (current p) of
        TIdent field_name \<Rightarrow>
          (let p1 = parser_advance p
           in if field_from_str field_name = None then Inl (unknown_field field_name (position (current p)))
              else
                (case operator_of (token_type (current p1)) of
                   None \<Rightarrow> Inl (error_here ''Expected operator'' p1)
                 | Some operator \<Rightarrow>
                     (let p2 = parser_advance p1
                      in rbind (if operator = In then parse_list env p2 else parse_value env p2) (\<lambda>(value, p3).
                           Inr (Comparison field_name operator value, p3)))))
      | _ \<Rightarrow> Inl (error_here ''Expected field name'' p))"

section \<open>Expressions\<close>

type_synonym parse_result = "(Expression \<times> Parser) cql_res option"

fun parse_or_expr :: "cql_env \<Rightarrow> nat \<Rightarrow> Parser \<Rightarrow> parse_result"
  and or_loop :: "cql_env \<Rightarrow> nat \<Rightarrow> Expression \<Rightarrow> Parser \<Rightarrow> parse_result"
  and parse_and_expr :: "cql_env \<Rightarrow> nat \<Rightarrow> Parser \<Rightarrow> parse_result"
  and and_loop :: "cql_env \<Rightarrow> nat \<Rightarrow> Expression \<Rightarrow> Parser \<Rightarrow> parse_result"
  and parse_unary_expr :: "cql_env \<Rightarrow> nat \<Rightarrow> Parser \<Rightarrow> parse_result"
  and parse_primary :: "cql_env \<Rightarrow> nat \<Rightarrow> Parser \<Rightarrow> parse_result" where
  "parse_or_expr env 0 p = None"
| "parse_or_expr env (Suc n) p =
     (case parse_and_expr env n p of
        None \<Rightarrow> None
      | Some (Inl e) \<Rightarrow> Some (Inl e)
      | Some (Inr (left, p1)) \<Rightarrow> or_loop env n left p1)"
| "or_loop env 0 left p = None"
| "or_loop env (Suc n) left p =
     (case match_token p TOr of
        (p1, False) \<Rightarrow> Some (Inr (left, p1))
      | (p1, True) \<Rightarrow>
          (case parse_and_expr env n p1 of
             None \<Rightarrow> None
           | Some (Inl e) \<Rightarrow> Some (Inl e)
           | Some (Inr (right, p2)) \<Rightarrow> or_loop env n (ExprOr left right) p2))"
| "parse_and_expr env 0 p = None"
| "parse_and_expr env (Suc n) p =
     (case parse_unary_expr env n p of
        None \<Rightarrow> None
      | Some (Inl e) \<Rightarrow> Some (Inl e)
      | Some (Inr (left, p1)) \<Rightarrow> and_loop env n left p1)"
| "and_loop env 0 left p = None"
| "and_loop env (Suc n) left p =
     (case match_token p TAnd of
        (p1, False) \<Rightarrow> Some (Inr (left, p1))
      | (p1, True) \<Rightarrow>
          (case parse_unary_expr env n p1 of
             None \<Rightarrow> None
           | Some (Inl e) \<Rightarrow> Some (Inl e)
           | Some (Inr (right, p2)) \<Rightarrow> and_loop env n (ExprAnd left right) p2))"
| "parse_unary_expr env 0 p = None"
| "parse_unary_expr env (Suc n) p =
     (case match_token p TNot of
        (p1, True) \<Rightarrow> map_option (\<lambda>r. rbind r (\<lambda>(inner, p2). Inr (ExprNot inner, p2))) (parse_primary env n p1)
      | (p1, False) \<Rightarrow> parse_primary env n p1)"
| "parse_primary env 0 p = None"
| "parse_primary env (Suc n) p =
     (case match_token p TLParen of
        (p1, True) \<Rightarrow>
          (case parse_or_expr env n p1 of
             None \<Rightarrow> None
           | Some (Inl e) \<Rightarrow> Some (Inl e)
           | Some (Inr (expr, p2)) \<Rightarrow>
               (case match_token p2 TRParen of
                  (p3, True) \<Rightarrow> Some (Inr (expr, p3))
                | (p3, False) \<Rightarrow> Some (Inl (error_here (''Expected '' @ CHR 0x27 # '')'' @ CHR 0x27 # '' after expression'') p3))))
      | (p1, False) \<Rightarrow> Some (parse_comparison env p1))"

text \<open>Six nested calls at most between two tokens.\<close>

definition parse_fuel :: "Token list \<Rightarrow> nat" where
  "parse_fuel tokens = 6 * length tokens + 4"

definition parse_tokens :: "cql_env \<Rightarrow> string \<Rightarrow> Token list \<Rightarrow> CqlQuery cql_res option" where
  "parse_tokens env input tokens =
     (let p = \<lparr>pr_tokens = tokens, pr_pos = 0\<rparr>
      in if token_type (current p) = TEof then Some (Inl (error_here ''Empty query'' p))
         else map_option (\<lambda>r. rbind r (\<lambda>(ast, p1).
                if token_type (current p1) \<noteq> TEof then Inl (error_here ''Unexpected token after expression'' p1)
                else Inr \<lparr>cq_raw = input, cq_ast = ast\<rparr>)) (parse_or_expr env (parse_fuel tokens) p))"

definition cql_parse :: "lex_env \<Rightarrow> cql_env \<Rightarrow> string \<Rightarrow> CqlQuery cql_res option" where
  "cql_parse lenv env input =
     (case tokenize lenv (lexer_new input) of
        Inl e \<Rightarrow> Some (Inl e)
      | Inr tokens \<Rightarrow> parse_tokens env input tokens)"

section \<open>Search\<close>

definition search_contexts ::
    "lex_env \<Rightarrow> cql_env \<Rightarrow> Store \<Rightarrow> string \<Rightarrow> u64 set \<Rightarrow> u32 option \<Rightarrow> SearchResult cql_res option" where
  "search_contexts lenv env s query live_contexts limit =
     map_option (\<lambda>r. rbind r (\<lambda>parsed.
       rbind (execute env (cq_ast parsed) (secondary_indexes s) live_contexts) (\<lambda>matching_ids.
         let sorted_ids = desc_ids matching_ids
         in Inr \<lparr>sr_context_ids = (case limit of None \<Rightarrow> sorted_ids | Some l \<Rightarrow> take (unat l) sorted_ids),
                 sr_total_count = length sorted_ids, sr_query = parsed\<rparr>))) (cql_parse lenv env query)"

end
