(* ===== verification/Cql_Grammar.thy ===== *)
theory Cql_Grammar
  imports Cql_Parser
begin

text \<open>
  The grammar that heads \<^verbatim>\<open>server/src/cql/parser.rs\<close>, as an inductive relation between lists of token
  types and syntax trees, and the proof that the recursive-descent parser accepts exactly its sentences
  and returns exactly their trees.  The loops of the parser build left-associated trees, so the
  grammar is written left-recursively.
\<close>

section \<open>Grammar\<close>

definition value_of :: "cql_env \<Rightarrow> TokenType \<Rightarrow> cql_value option" where
  "value_of env ty =
     (case ty of
        TString s \<Rightarrow> Some (if env_rel_captures env s \<noteq> None then VDate s True else VString s)
      | TNumber n \<Rightarrow> Some (VNumber n)
      | TIdent s \<Rightarrow> if env_lower env s \<in> {''true'', ''false''} then Some (VString (env_lower env s)) else None
      | _ \<Rightarrow> None)"

inductive g_values :: "cql_env \<Rightarrow> TokenType list \<Rightarrow> cql_value list \<Rightarrow> bool" for env where
  g_one: "value_of env t = Some v \<Longrightarrow> g_values env [t] [v]"
| g_more: "g_values env ts vs \<Longrightarrow> value_of env t = Some v \<Longrightarrow> g_values env (ts @ [TComma, t]) (vs @ [v])"

inductive g_comparison :: "cql_env \<Rightarrow> TokenType list \<Rightarrow> Expression \<Rightarrow> bool" for env where
  g_compare: "field_from_str f \<noteq> None \<Longrightarrow> operator_of t = Some op \<Longrightarrow> op \<noteq> In \<Longrightarrow> value_of env u = Some v \<Longrightarrow>
     g_comparison env [TIdent f, t, u] (Comparison f op v)"
| g_in: "field_from_str f \<noteq> None \<Longrightarrow> g_values env ts vs \<Longrightarrow>
     g_comparison env (TIdent f # TIn # TLParen # ts @ [TRParen]) (Comparison f In (VList vs))"

inductive g_or :: "cql_env \<Rightarrow> TokenType list \<Rightarrow> Expression \<Rightarrow> bool"
  and g_and :: "cql_env \<Rightarrow> TokenType list \<Rightarrow> Expression \<Rightarrow> bool"
  and g_unary :: "cql_env \<Rightarrow> TokenType list \<Rightarrow> Expression \<Rightarrow> bool"
  and g_primary :: "cql_env \<Rightarrow> TokenType list \<Rightarrow> Expression \<Rightarrow> bool" for env where
  g_or1: "g_and env ts e \<Longrightarrow> g_or env ts e"
| g_or2: "g_or env ts l \<Longrightarrow> g_and env us r \<Longrightarrow> g_or env (ts @ TOr # us) (ExprOr l r)"
| g_and1: "g_unary env ts e \<Longrightarrow> g_and env ts e"
| g_and2: "g_and env ts l \<Longrightarrow> g_unary env us r \<Longrightarrow> g_and env (ts @ TAnd # us) (ExprAnd l r)"
| g_not: "g_primary env ts e \<Longrightarrow> g_unary env (TNot # ts) (ExprNot e)"
| g_plain: "g_primary env ts e \<Longrightarrow> g_unary env ts e"
| g_paren: "g_or env ts e \<Longrightarrow> g_primary env (TLParen # ts @ [TRParen]) e"
| g_compared: "g_comparison env ts e \<Longrightarrow> g_primary env ts e"

section \<open>Reading the parser state\<close>

definition types :: "Parser \<Rightarrow> TokenType list" where
  "types p = map token_type (drop (pr_pos p) (pr_tokens p))"

definition skip :: "nat \<Rightarrow> Parser \<Rightarrow> Parser" where
  "skip k p = p\<lparr>pr_pos := pr_pos p + k\<rparr>"

lemma skip_simps [simp]: "skip 0 p = p" "skip j (skip k p) = skip (k + j) p"
  "pr_tokens (skip k p) = pr_tokens p" "pr_pos (skip k p) = pr_pos p + k"
  by (simp_all add: skip_def)

lemma types_skip [simp]: "types (skip k p) = drop k (types p)"
  by (simp add: types_def skip_def drop_map add.commute)

lemma current_types: "token_type (current p) = (case types p of [] \<Rightarrow> TEof | t # _ \<Rightarrow> t)"
proof (cases "pr_pos p < length (pr_tokens p)")
  case True
  then show ?thesis by (simp add: current_def types_def flip: Cons_nth_drop_Suc)
qed (simp add: current_def types_def eof_default_def)

lemma advance_skip: "token_type (current p) \<noteq> TEof \<Longrightarrow> parser_advance p = skip 1 p"
  by (simp add: parser_advance_def skip_def)

definition plain :: "TokenType \<Rightarrow> bool" where
  "plain ty \<longleftrightarrow> ty \<in> {TAnd, TOr, TNot, TIn, TLParen, TRParen, TComma}"

lemma discriminant_plain: "plain ty \<Longrightarrow> discriminant t = discriminant ty \<longleftrightarrow> t = ty"
  by (auto simp: plain_def discriminant_def split: TokenType.splits)

lemma match_token_types:
  "plain ty \<Longrightarrow> match_token p ty = (case types p of t # _ \<Rightarrow> if t = ty then (skip 1 p, True) else (p, False) | [] \<Rightarrow> (p, False))"
proof (cases "types p")
  case Nil
  assume "plain ty"
  then have "ty \<noteq> TEof" by (auto simp: plain_def)
  with Nil discriminant_plain [OF \<open>plain ty\<close>, of TEof] show ?thesis by (simp add: match_token_def check_def current_types)
next
  case (Cons t ts)
  assume "plain ty"
  then have "ty \<noteq> TEof" by (auto simp: plain_def)
  with Cons \<open>plain ty\<close> advance_skip [of p] show ?thesis
    by (auto simp: match_token_def check_def discriminant_plain current_types)
qed

lemma plain_simps [simp]: "plain TAnd" "plain TOr" "plain TNot" "plain TIn" "plain TLParen" "plain TRParen" "plain TComma"
  by (simp_all add: plain_def)

text \<open>The parser went over the tokens \<open>ts\<close>.\<close>

definition consumes :: "Parser \<Rightarrow> TokenType list \<Rightarrow> Parser \<Rightarrow> bool" where
  "consumes p ts p' \<longleftrightarrow> p' = skip (length ts) p \<and> take (length ts) (types p) = ts"

lemma consumes_Nil [simp]: "consumes p [] p' \<longleftrightarrow> p' = p"
  by (auto simp: consumes_def)

lemma consumes_append: "consumes p ts p1 \<Longrightarrow> consumes p1 us p2 \<Longrightarrow> consumes p (ts @ us) p2"
  by (auto simp: consumes_def take_add)

lemma consumes_Cons: "consumes p (t # ts) p2 \<longleftrightarrow> types p \<noteq> [] \<and> hd (types p) = t \<and> consumes (skip 1 p) ts p2"
  by (cases "types p") (auto simp: consumes_def)

lemma consumes_one: "consumes p [t] p' \<longleftrightarrow> types p \<noteq> [] \<and> hd (types p) = t \<and> p' = skip 1 p"
  by (auto simp: consumes_Cons)

lemma match_token_cases:
  "plain ty \<Longrightarrow> match_token p ty = (p', b) \<Longrightarrow>
    (if b then consumes p [ty] p' else p' = p \<and> (types p = [] \<or> hd (types p) \<noteq> ty))"
  by (auto simp: match_token_types consumes_one split: list.splits if_splits)

lemma parse_value_types:
  "parse_value env p = (case types p of
     t # _ \<Rightarrow> (case value_of env t of Some v \<Rightarrow> Inr (v, skip 1 p) | None \<Rightarrow> Inl (error_here ''Expected value'' p))
   | [] \<Rightarrow> Inl (error_here ''Expected value'' p))"
  by (auto simp: parse_value_def value_of_def current_types advance_skip split: list.splits TokenType.splits)

lemma parse_value_consumes:
  "parse_value env p = Inr (v, p') \<longleftrightarrow> (\<exists>t. consumes p [t] p' \<and> value_of env t = Some v)"
  by (auto simp: parse_value_types consumes_one split: list.splits option.splits)

section \<open>Lists and comparisons\<close>

lemma list_loop_sound:
  "list_loop env vs p = Inr (ws, p') \<Longrightarrow> g_values env us vs \<Longrightarrow> \<exists>ts. consumes p ts p' \<and> g_values env (us @ ts) ws"
proof (induction env vs p arbitrary: us rule: list_loop.induct)
  case (1 env vs p)
  obtain p1 b where m: "match_token p TComma = (p1, b)" by fastforce
  show ?case
  proof (cases b)
    case False
    with m "1.prems" show ?thesis
      by (subst (asm) list_loop.simps) (auto dest!: match_token_cases [rotated] intro: exI [of _ "[]"])
  next
    case True
    with m "1.prems"(1) obtain v p2 where v: "parse_value env p1 = Inr (v, p2)" "list_loop env (vs @ [v]) p2 = Inr (ws, p')"
      by (subst (asm) list_loop.simps) (auto split: sum.splits prod.splits)
    then obtain t where t: "consumes p1 [t] p2" "value_of env t = Some v" by (auto simp: parse_value_consumes)
    have c: "consumes p [TComma] p1" using match_token_cases [OF _ m] True by simp
    from "1.IH" [OF m [symmetric] _ v(1) refl v(2) g_more [OF "1.prems"(2) t(2)]] True
    obtain ts where ts: "consumes p2 ts p'" "g_values env (us @ [TComma, t] @ ts) ws" by auto
    from consumes_append [OF consumes_append [OF c t(1)] ts(1)] ts(2) show ?thesis
      by (intro exI [of _ "[TComma, t] @ ts"]) simp
  qed
qed

lemma parse_list_sound:
  assumes "parse_list env p = Inr (v, p')"
  shows "\<exists>ts vs. consumes p (TLParen # ts @ [TRParen]) p' \<and> g_values env ts vs \<and> v = VList vs"
proof -
  obtain p1 b where m: "match_token p TLParen = (p1, b)" by fastforce
  with assms obtain v1 p2 vs p3 where l: "parse_value env p1 = Inr (v1, p2)" "list_loop env [v1] p2 = Inr (vs, p3)"
    by (cases b) (auto simp: parse_list_def)
  obtain p4 c where m2: "match_token p3 TRParen = (p4, c)" by fastforce
  from assms m l m2 have 1: "match_token p TLParen = (p1, True)" "parse_value env p1 = Inr (v1, p2)"
      "list_loop env [v1] p2 = Inr (vs, p3)" "match_token p3 TRParen = (p', True)" "v = VList vs"
    by (cases b; cases c; simp add: parse_list_def)+
  from 1(2) obtain t where t: "consumes p1 [t] p2" "value_of env t = Some v1" by (auto simp: parse_value_consumes)
  from list_loop_sound [OF 1(3) g_one [OF t(2)]] obtain ts where ts: "consumes p2 ts p3" "g_values env ([t] @ ts) vs" by blast
  from match_token_cases [OF _ 1(1)] match_token_cases [OF _ 1(4)] have "consumes p [TLParen] p1" "consumes p3 [TRParen] p'" by simp_all
  from consumes_append [OF this(1) consumes_append [OF consumes_append [OF t(1) ts(1)] this(2)]] ts(2) 1(5) show ?thesis
    by (intro exI [of _ "[t] @ ts"]) auto
qed

text \<open>In the other direction the loop is followed to its end, one value after the other.\<close>

lemma list_loop_complete:
  "g_values env ts vs \<Longrightarrow> types p = ts @ rest \<Longrightarrow>
    \<exists>v p1. parse_value env p = Inr (v, p1) \<and> list_loop env [v] p1 = list_loop env vs (skip (length ts) p)"
proof (induction arbitrary: rest rule: g_values.induct)
  case (g_one t v)
  then show ?case by (simp add: parse_value_types)
next
  case (g_more ts vs t v)
  from g_more.IH [of "[TComma, t] @ rest"] g_more.prems obtain w p1 where
    w: "parse_value env p = Inr (w, p1)" "list_loop env [w] p1 = list_loop env vs (skip (length ts) p)" by auto
  have "list_loop env vs (skip (length ts) p) = list_loop env (vs @ [v]) (skip (length ts + 2) p)"
    using g_more.prems g_more.hyps by (subst list_loop.simps) (simp add: match_token_types parse_value_types)
  with w show ?case by auto
qed

lemma parse_list_complete:
  assumes "g_values env ts vs" and "types p = TLParen # ts @ TRParen # rest"
  shows "parse_list env p = Inr (VList vs, skip (length ts + 2) p)"
proof -
  from list_loop_complete [OF assms(1), of "skip 1 p" "TRParen # rest"] assms(2) obtain v p1 where
    "parse_value env (skip 1 p) = Inr (v, p1)" "list_loop env [v] p1 = list_loop env vs (skip (1 + length ts) p)" by auto
  moreover have "list_loop env vs (skip (1 + length ts) p) = Inr (vs, skip (1 + length ts) p)"
    using assms(2) by (subst list_loop.simps) (simp add: match_token_types)
  ultimately show ?thesis using assms(2) by (simp add: parse_list_def match_token_types)
qed

lemma operator_of_In: "operator_of t = Some In \<longleftrightarrow> t = TIn"
  by (cases t) auto

lemma operator_of_eof: "operator_of t = Some op \<Longrightarrow> t \<noteq> TEof"
  by auto

lemma parse_comparison_sound:
  assumes "parse_comparison env p = Inr (e, p')"
  shows "\<exists>ts. consumes p ts p' \<and> g_comparison env ts e"
proof -
  from assms obtain f where f: "token_type (current p) = TIdent f" by (auto simp: parse_comparison_def split: TokenType.splits)
  then have adv: "parser_advance p = skip 1 p" "types p = TIdent f # types (skip 1 p)"
    by (auto simp: advance_skip current_types split: list.splits)
  from assms f obtain op v where o: "field_from_str f \<noteq> None" "operator_of (token_type (current (skip 1 p))) = Some op"
      "(if op = In then parse_list env (parser_advance (skip 1 p)) else parse_value env (parser_advance (skip 1 p))) = Inr (v, p')"
      "e = Comparison f op v"
    by (auto simp: parse_comparison_def adv Let_def split: if_splits option.splits)
  obtain t where t: "types (skip 1 p) = t # types (skip 2 p)" "operator_of t = Some op" "parser_advance (skip 1 p) = skip 2 p"
    using o(2) advance_skip [of "skip 1 p"] operator_of_eof [OF o(2)]
    by (cases "types (skip 1 p)") (auto simp: current_types drop_Suc numeral_2_eq_2)
  obtain rest where "types p = TIdent f # t # rest" using adv(2) t(1) by metis
  then have c: "consumes p [TIdent f, t] (skip 2 p)" by (simp add: consumes_def numeral_2_eq_2)
  show ?thesis
  proof (cases "op = In")
    case True
    with o(3) t(3) obtain ts vs where l: "consumes (skip 2 p) (TLParen # ts @ [TRParen]) p'" "g_values env ts vs" "v = VList vs"
      by (auto dest: parse_list_sound)
    from consumes_append [OF c l(1)] l True o t(2) show ?thesis
      by (intro exI [of _ "[TIdent f, t] @ TLParen # ts @ [TRParen]"]) (auto simp: operator_of_In intro: g_in)
  next
    case False
    with o(3) t(3) obtain u where u: "consumes (skip 2 p) [u] p'" "value_of env u = Some v" by (auto simp: parse_value_consumes)
    from consumes_append [OF c u(1)] u False o t(2) show ?thesis
      by (intro exI [of _ "[TIdent f, t] @ [u]"]) (auto intro: g_compare)
  qed
qed

lemma parse_comparison_complete:
  "g_comparison env ts e \<Longrightarrow> types p = ts @ rest \<Longrightarrow> parse_comparison env p = Inr (e, skip (length ts) p)"
proof (induction rule: g_comparison.induct)
  case (g_compare f t op u v)
  then show ?case
    by (simp add: parse_comparison_def current_types advance_skip operator_of_eof Let_def parse_value_types)
next
  case (g_in f ts vs)
  then show ?case
    using parse_list_complete [of env ts vs "skip 2 p" rest]
    by (simp add: parse_comparison_def current_types advance_skip Let_def numeral_2_eq_2)
qed

section \<open>Soundness\<close>

lemmas parse_simps = parse_or_expr.simps or_loop.simps parse_and_expr.simps and_loop.simps parse_unary_expr.simps parse_primary.simps

lemma match_bool_case: "(case (p, b) of (p1, True) \<Rightarrow> f p1 | (p1, False) \<Rightarrow> g p1) = (if b then f p else g p)"
  by simp

lemma parse_sound:
  "parse_or_expr env n p = Some (Inr (e, p')) \<Longrightarrow> \<exists>ts. consumes p ts p' \<and> g_or env ts e"
  "or_loop env n l p = Some (Inr (e, p')) \<Longrightarrow> (\<forall>us. g_or env us l \<longrightarrow> (\<exists>ts. consumes p ts p' \<and> g_or env (us @ ts) e))"
  "parse_and_expr env n p = Some (Inr (e, p')) \<Longrightarrow> \<exists>ts. consumes p ts p' \<and> g_and env ts e"
  "and_loop env n l p = Some (Inr (e, p')) \<Longrightarrow> (\<forall>us. g_and env us l \<longrightarrow> (\<exists>ts. consumes p ts p' \<and> g_and env (us @ ts) e))"
  "parse_unary_expr env n p = Some (Inr (e, p')) \<Longrightarrow> \<exists>ts. consumes p ts p' \<and> g_unary env ts e"
  "parse_primary env n p = Some (Inr (e, p')) \<Longrightarrow> \<exists>ts. consumes p ts p' \<and> g_primary env ts e"
proof (induction n arbitrary: p l e p')
  case (Suc n)
  {
    case (1 p e p')
    then obtain l p1 where l: "parse_and_expr env n p = Some (Inr (l, p1))" "or_loop env n l p1 = Some (Inr (e, p'))"
      by (auto split: option.splits sum.splits)
    from Suc.IH(3) [OF l(1)] obtain us where us: "consumes p us p1" "g_and env us l" by blast
    with Suc.IH(2) [OF l(2)] show ?case by (blast intro: consumes_append g_or1)
  next
    case (2 p l e p')
    obtain p1 b where m: "match_token p TOr = (p1, b)" by fastforce
    show ?case
    proof (cases b)
      case False
      with match_token_cases [OF _ m] m 2 show ?thesis by (auto intro!: exI [of _ "[]"])
    next
      case True
      with m 2 obtain r p2 where r: "parse_and_expr env n p1 = Some (Inr (r, p2))" "or_loop env n (ExprOr l r) p2 = Some (Inr (e, p'))"
        by (auto split: option.splits sum.splits)
      from match_token_cases [OF _ m] True have c: "consumes p [TOr] p1" by simp
      from Suc.IH(3) [OF r(1)] obtain vs where vs: "consumes p1 vs p2" "g_and env vs r" by blast
      show ?thesis
      proof (intro allI impI)
        fix us assume "g_or env us l"
        from Suc.IH(2) [OF r(2)] g_or2 [OF this vs(2)] obtain ts where "consumes p2 ts p'" "g_or env ((us @ TOr # vs) @ ts) e" by blast
        with consumes_append [OF consumes_append [OF c vs(1)], of ts p'] show "\<exists>ts. consumes p ts p' \<and> g_or env (us @ ts) e" by auto
      qed
    qed
  next
    case (3 p e p')
    then obtain l p1 where l: "parse_unary_expr env n p = Some (Inr (l, p1))" "and_loop env n l p1 = Some (Inr (e, p'))"
      by (auto split: option.splits sum.splits)
    from Suc.IH(5) [OF l(1)] obtain us where us: "consumes p us p1" "g_unary env us l" by blast
    with Suc.IH(4) [OF l(2)] show ?case by (blast intro: consumes_append g_and1)
  next
    case (4 p l e p')
    obtain p1 b where m: "match_token p TAnd = (p1, b)" by fastforce
    show ?case
    proof (cases b)
      case False
      with match_token_cases [OF _ m] m 4 show ?thesis by (auto intro!: exI [of _ "[]"])
    next
      case True
      with m 4 obtain r p2 where r: "parse_unary_expr env n p1 = Some (Inr (r, p2))" "and_loop env n (ExprAnd l r) p2 = Some (Inr (e, p'))"
        by (auto split: option.splits sum.splits)
      from match_token_cases [OF _ m] True have c: "consumes p [TAnd] p1" by simp
      from Suc.IH(5) [OF r(1)] obtain vs where vs: "consumes p1 vs p2" "g_unary env vs r" by blast
      show ?thesis
      proof (intro allI impI)
        fix us assume "g_and env us l"
        from Suc.IH(4) [OF r(2)] g_and2 [OF this vs(2)] obtain ts where "consumes p2 ts p'" "g_and env ((us @ TAnd # vs) @ ts) e" by blast
        with consumes_append [OF consumes_append [OF c vs(1)], of ts p'] show "\<exists>ts. consumes p ts p' \<and> g_and env (us @ ts) e" by auto
      qed
    qed
  next
    case (5 p e p')
    obtain p1 b where m: "match_token p TNot = (p1, b)" by fastforce
    show ?case
    proof (cases b)
      case False
      with match_token_cases [OF _ m] m 5 show ?thesis by (auto dest!: Suc.IH(6) intro: g_plain)
    next
      case True
      with m 5 obtain i where i: "parse_primary env n p1 = Some (Inr (i, p'))" "e = ExprNot i" by auto
      from match_token_cases [OF _ m] True have c: "consumes p [TNot] p1" by simp
      from Suc.IH(6) [OF i(1)] obtain ts where "consumes p1 ts p'" "g_primary env ts i" by blast
      with consumes_append [OF c] i(2) show ?thesis by (intro exI [of _ "[TNot] @ ts"]) (auto intro: g_not)
    qed
  next
    case (6 p e p')
    obtain p1 b where m: "match_token p TLParen = (p1, b)" by fastforce
    show ?case
    proof (cases b)
      case False
      with match_token_cases [OF _ m] m 6 show ?thesis by (auto dest!: parse_comparison_sound intro: g_compared)
    next
      case True
      with m 6 obtain p2 where i: "parse_or_expr env n p1 = Some (Inr (e, p2))" "match_token p2 TRParen = (p', True)"
        by (auto split: option.splits sum.splits prod.splits bool.splits)
      from match_token_cases [OF _ m] True have c: "consumes p [TLParen] p1" by simp
      from match_token_cases [OF _ i(2)] have d: "consumes p2 [TRParen] p'" by simp
      from Suc.IH(1) [OF i(1)] obtain ts where ts: "consumes p1 ts p2" "g_or env ts e" by blast
      from consumes_append [OF c consumes_append [OF ts(1) d]] g_paren [OF ts(2)] show ?thesis by auto
    qed
  }
qed simp_all

section \<open>Enough fuel\<close>

lemma parse_mono_Suc:
  "parse_or_expr env n p = Some r \<Longrightarrow> parse_or_expr env (Suc n) p = Some r"
  "or_loop env n l p = Some r \<Longrightarrow> or_loop env (Suc n) l p = Some r"
  "parse_and_expr env n p = Some r \<Longrightarrow> parse_and_expr env (Suc n) p = Some r"
  "and_loop env n l p = Some r \<Longrightarrow> and_loop env (Suc n) l p = Some r"
  "parse_unary_expr env n p = Some r \<Longrightarrow> parse_unary_expr env (Suc n) p = Some r"
  "parse_primary env n p = Some r \<Longrightarrow> parse_primary env (Suc n) p = Some r"
proof (induction n arbitrary: p l r)
  case (Suc n)
  note IH = Suc.IH
  {
    case (1 p r)
    from this [unfolded parse_or_expr.simps(2)] show ?case
      by (subst parse_or_expr.simps(2)) (auto simp del: parse_simps split: option.split_asm sum.split_asm dest!: IH(2,3))
  next
    case (2 p l r)
    obtain p1 b where "match_token p TOr = (p1, b)" by fastforce
    with 2 [unfolded or_loop.simps(2)] show ?case
      by (subst or_loop.simps(2)) (cases b; auto simp del: parse_simps split: option.split_asm sum.split_asm dest!: IH(2,3))
  next
    case (3 p r)
    from this [unfolded parse_and_expr.simps(2)] show ?case
      by (subst parse_and_expr.simps(2)) (auto simp del: parse_simps split: option.split_asm sum.split_asm dest!: IH(4,5))
  next
    case (4 p l r)
    obtain p1 b where "match_token p TAnd = (p1, b)" by fastforce
    with 4 [unfolded and_loop.simps(2)] show ?case
      by (subst and_loop.simps(2)) (cases b; auto simp del: parse_simps split: option.split_asm sum.split_asm dest!: IH(4,5))
  next
    case (5 p r)
    obtain p1 b where "match_token p TNot = (p1, b)" by fastforce
    with 5 [unfolded parse_unary_expr.simps(2)] show ?case
      by (subst parse_unary_expr.simps(2)) (cases b; auto simp del: parse_simps dest!: IH(6))
  next
    case (6 p r)
    obtain p1 b where "match_token p TLParen = (p1, b)" by fastforce
    with 6 [unfolded parse_primary.simps(2)] show ?case
      by (subst parse_primary.simps(2)) (cases b; auto simp del: parse_simps split: option.split_asm sum.split_asm dest!: IH(1))
  }
qed simp_all

lemma parse_mono:
  assumes "m \<le> n"
  shows "parse_or_expr env m p = Some r \<Longrightarrow> parse_or_expr env n p = Some r"
    and "or_loop env m l p = Some r \<Longrightarrow> or_loop env n l p = Some r"
    and "parse_and_expr env m p = Some r \<Longrightarrow> parse_and_expr env n p = Some r"
    and "and_loop env m l p = Some r \<Longrightarrow> and_loop env n l p = Some r"
    and "parse_unary_expr env m p = Some r \<Longrightarrow> parse_unary_expr env n p = Some r"
    and "parse_primary env m p = Some r \<Longrightarrow> parse_primary env n p = Some r"
  by (induction rule: dec_induct [OF assms]; blast intro: parse_mono_Suc)+

lemma g_nonempty:
  "g_or env ts e \<Longrightarrow> ts \<noteq> []" "g_and env ts e \<Longrightarrow> ts \<noteq> []" "g_unary env ts e \<Longrightarrow> ts \<noteq> []" "g_primary env ts e \<Longrightarrow> ts \<noteq> []"
  by (induction rule: g_or_g_and_g_unary_g_primary.inducts) (auto elim: g_comparison.cases)

lemma consumes_length: "consumes p ts p' \<Longrightarrow> length (types p') + length ts = length (types p)"
  unfolding consumes_def by (auto dest: arg_cong [where f = length])

lemma parse_progress:
  "parse_and_expr env n p = Some (Inr (e, p')) \<Longrightarrow> length (types p') < length (types p)"
  "parse_unary_expr env n p = Some (Inr (e, p')) \<Longrightarrow> length (types p') < length (types p)"
  by (auto 4 3 dest!: parse_sound dest: consumes_length g_nonempty simp flip: length_greater_0_conv)

lemma match_progress: "plain ty \<Longrightarrow> match_token p ty = (p', b) \<Longrightarrow> b \<Longrightarrow> length (types p') < length (types p)"
  using match_token_cases [of ty p p' b] consumes_length [of p "[ty]" p'] by simp

lemma match_same: "plain ty \<Longrightarrow> match_token p ty = (p', False) \<Longrightarrow> p' = p"
  by (auto dest!: match_token_cases [rotated])

lemma parse_enough:
  "6 * length (types p) + 4 \<le> n \<Longrightarrow> parse_or_expr env n p \<noteq> None"
  "6 * length (types p) + 1 \<le> n \<Longrightarrow> or_loop env n l p \<noteq> None"
  "6 * length (types p) + 3 \<le> n \<Longrightarrow> parse_and_expr env n p \<noteq> None"
  "6 * length (types p) + 1 \<le> n \<Longrightarrow> and_loop env n l p \<noteq> None"
  "6 * length (types p) + 2 \<le> n \<Longrightarrow> parse_unary_expr env n p \<noteq> None"
  "6 * length (types p) + 1 \<le> n \<Longrightarrow> parse_primary env n p \<noteq> None"
proof (induction n arbitrary: p l)
  case (Suc n)
  {
    case (1 p)
    then have "parse_and_expr env n p \<noteq> None" by (intro Suc.IH(3)) simp
    moreover have "or_loop env n l p1 \<noteq> None" if "parse_and_expr env n p = Some (Inr (l, p1))" for l p1
      using parse_progress(1) [OF that] 1 by (intro Suc.IH(2)) simp
    ultimately show ?case by (auto split: option.splits sum.splits)
  next
    case (2 p l)
    obtain p1 b where m: "match_token p TOr = (p1, b)" by fastforce
    show ?case
    proof (cases b)
      case True
      with match_progress [OF _ m] have less: "length (types p1) < length (types p)" by simp
      with 2 have "parse_and_expr env n p1 \<noteq> None" by (intro Suc.IH(3)) simp
      moreover have "or_loop env n k p2 \<noteq> None" if "parse_and_expr env n p1 = Some (Inr (r, p2))" for k r p2
        using parse_progress(1) [OF that] less 2 by (intro Suc.IH(2)) simp
      ultimately show ?thesis using m True by (auto split: option.splits sum.splits)
    qed (use m in simp)
  next
    case (3 p)
    then have "parse_unary_expr env n p \<noteq> None" by (intro Suc.IH(5)) simp
    moreover have "and_loop env n l p1 \<noteq> None" if "parse_unary_expr env n p = Some (Inr (l, p1))" for l p1
      using parse_progress(2) [OF that] 3 by (intro Suc.IH(4)) simp
    ultimately show ?case by (auto split: option.splits sum.splits)
  next
    case (4 p l)
    obtain p1 b where m: "match_token p TAnd = (p1, b)" by fastforce
    show ?case
    proof (cases b)
      case True
      with match_progress [OF _ m] have less: "length (types p1) < length (types p)" by simp
      with 4 have "parse_unary_expr env n p1 \<noteq> None" by (intro Suc.IH(5)) simp
      moreover have "and_loop env n k p2 \<noteq> None" if "parse_unary_expr env n p1 = Some (Inr (r, p2))" for k r p2
        using parse_progress(2) [OF that] less 4 by (intro Suc.IH(4)) simp
      ultimately show ?thesis using m True by (auto split: option.splits sum.splits)
    qed (use m in simp)
  next
    case (5 p)
    obtain p1 b where m: "match_token p TNot = (p1, b)" by fastforce
    then have "length (types p1) \<le> length (types p)" by (cases b) (auto dest: match_progress [OF plain_simps(3)] match_same [OF plain_simps(3)])
    with 5 have "parse_primary env n p1 \<noteq> None" by (intro Suc.IH(6)) simp
    with m show ?case by (cases b) auto
  next
    case (6 p)
    obtain p1 b where m: "match_token p TLParen = (p1, b)" by fastforce
    show ?case
    proof (cases b)
      case True
      with match_progress [OF _ m] have less: "length (types p1) < length (types p)" by simp
      with 6 have "parse_or_expr env n p1 \<noteq> None" by (intro Suc.IH(1)) simp
      then show ?thesis using m True by (auto split: option.splits sum.splits prod.splits bool.splits)
    qed (use m in simp)
  }
qed simp_all

section \<open>Completeness\<close>

text \<open>Rules that put runs together, with the fuel hidden.\<close>

lemma or_expr_run:
  assumes "parse_and_expr env m p = Some (Inr (l, p1))" and "or_loop env n l p1 = Some r"
  shows "\<exists>k. parse_or_expr env k p = Some r"
  using parse_mono(3) [OF max.cobounded1 assms(1), of n] parse_mono(2) [OF max.cobounded2 assms(2), of m]
  by (intro exI [of _ "Suc (max m n)"]) simp

lemma and_expr_run:
  assumes "parse_unary_expr env m p = Some (Inr (l, p1))" and "and_loop env n l p1 = Some r"
  shows "\<exists>k. parse_and_expr env k p = Some r"
  using parse_mono(5) [OF max.cobounded1 assms(1), of n] parse_mono(4) [OF max.cobounded2 assms(2), of m]
  by (intro exI [of _ "Suc (max m n)"]) simp

lemma or_loop_run:
  assumes "match_token p TOr = (p1, True)" and "parse_and_expr env m p1 = Some (Inr (r, p2))" and "or_loop env n (ExprOr l r) p2 = Some x"
  shows "\<exists>k. or_loop env k l p = Some x"
  using parse_mono(3) [OF max.cobounded1 assms(2), of n] parse_mono(2) [OF max.cobounded2 assms(3), of m] assms(1)
  by (intro exI [of _ "Suc (max m n)"]) simp

lemma and_loop_run:
  assumes "match_token p TAnd = (p1, True)" and "parse_unary_expr env m p1 = Some (Inr (r, p2))" and "and_loop env n (ExprAnd l r) p2 = Some x"
  shows "\<exists>k. and_loop env k l p = Some x"
  using parse_mono(5) [OF max.cobounded1 assms(2), of n] parse_mono(4) [OF max.cobounded2 assms(3), of m] assms(1)
  by (intro exI [of _ "Suc (max m n)"]) simp

lemma loops_end:
  "types p = [] \<or> hd (types p) \<noteq> TOr \<Longrightarrow> or_loop env 1 e p = Some (Inr (e, p))"
  "types p = [] \<or> hd (types p) \<noteq> TAnd \<Longrightarrow> and_loop env 1 e p = Some (Inr (e, p))"
  by (auto simp: match_token_types split: list.splits)

lemma g_unary_first: "g_unary env ts e \<Longrightarrow> hd ts \<noteq> TNot \<Longrightarrow> g_primary env ts e"
  by (erule g_unary.cases) auto

text \<open>A primary does not start with \<^verbatim>\<open>NOT\<close>, and a comparison not with a parenthesis.\<close>

lemma g_comparison_first: "g_comparison env ts e \<Longrightarrow> \<exists>f us. ts = TIdent f # us"
  by (auto elim: g_comparison.cases)

lemma g_primary_first: "g_primary env ts e \<Longrightarrow> ts \<noteq> [] \<and> hd ts \<noteq> TNot"
  by (erule g_primary.cases) (auto dest: g_comparison_first)

definition or_complete :: "cql_env \<Rightarrow> TokenType list \<Rightarrow> Expression \<Rightarrow> bool" where
  "or_complete env ts e \<longleftrightarrow> (\<forall>p rest n r. types p = ts @ rest \<longrightarrow> (rest = [] \<or> hd rest \<noteq> TAnd) \<longrightarrow>
     or_loop env n e (skip (length ts) p) = Some r \<longrightarrow> (\<exists>k. parse_or_expr env k p = Some r))"

definition and_complete :: "cql_env \<Rightarrow> TokenType list \<Rightarrow> Expression \<Rightarrow> bool" where
  "and_complete env ts e \<longleftrightarrow> (\<forall>p rest n r. types p = ts @ rest \<longrightarrow>
     and_loop env n e (skip (length ts) p) = Some r \<longrightarrow> (\<exists>k. parse_and_expr env k p = Some r))"

definition unary_complete :: "cql_env \<Rightarrow> TokenType list \<Rightarrow> Expression \<Rightarrow> bool" where
  "unary_complete env ts e \<longleftrightarrow> (\<forall>p rest. types p = ts @ rest \<longrightarrow>
     (\<exists>k. parse_unary_expr env k p = Some (Inr (e, skip (length ts) p))))"

definition primary_complete :: "cql_env \<Rightarrow> TokenType list \<Rightarrow> Expression \<Rightarrow> bool" where
  "primary_complete env ts e \<longleftrightarrow> (\<forall>p rest. types p = ts @ rest \<longrightarrow>
     (\<exists>k. parse_primary env k p = Some (Inr (e, skip (length ts) p))))"

lemmas complete_defs = or_complete_def and_complete_def unary_complete_def primary_complete_def

lemma and_completeD:
  assumes "and_complete env ts e" and "types p = ts @ rest" and "rest = [] \<or> hd rest \<noteq> TAnd"
  shows "\<exists>k. parse_and_expr env k p = Some (Inr (e, skip (length ts) p))"
proof -
  from assms(2,3) have "and_loop env 1 e (skip (length ts) p) = Some (Inr (e, skip (length ts) p))"
    by (intro loops_end) simp
  with assms(1,2) show ?thesis unfolding and_complete_def by blast
qed

lemma or_completeD:
  assumes "or_complete env ts e" and "types p = ts @ rest" and "rest = [] \<or> hd rest \<noteq> TAnd \<and> hd rest \<noteq> TOr"
  shows "\<exists>k. parse_or_expr env k p = Some (Inr (e, skip (length ts) p))"
proof -
  from assms(2,3) have "or_loop env 1 e (skip (length ts) p) = Some (Inr (e, skip (length ts) p))"
    by (intro loops_end) auto
  with assms show ?thesis unfolding or_complete_def by blast
qed

lemma g_complete:
  "g_or env ts e \<Longrightarrow> or_complete env ts e" "g_and env ts e \<Longrightarrow> and_complete env ts e"
  "g_unary env ts e \<Longrightarrow> unary_complete env ts e" "g_primary env ts e \<Longrightarrow> primary_complete env ts e"
proof (induction rule: g_or_g_and_g_unary_g_primary.inducts)
  case (g_or1 ts e)
  from g_or1(2) show ?case unfolding or_complete_def by (blast dest: and_completeD intro: or_expr_run)
next
  case (g_or2 ts l us r)
  show ?case unfolding or_complete_def
  proof (intro allI impI)
    fix p rest n x
    assume p: "types p = (ts @ TOr # us) @ rest" and rest: "rest = [] \<or> hd rest \<noteq> TAnd"
      and x: "or_loop env n (ExprOr l r) (skip (length (ts @ TOr # us)) p) = Some x"
    let ?p = "skip (length ts) p"
    from p have m: "match_token ?p TOr = (skip 1 ?p, True)" by (simp add: match_token_types)
    from and_completeD [OF g_or2(4), of "skip 1 ?p" rest] p rest obtain k where
      "parse_and_expr env k (skip 1 ?p) = Some (Inr (r, skip (length us) (skip 1 ?p)))" by auto
    from or_loop_run [OF m this, of n l x] x obtain k2 where "or_loop env k2 l ?p = Some x" by (auto simp: add.assoc)
    with g_or2(2) p show "\<exists>k. parse_or_expr env k p = Some x" unfolding or_complete_def by fastforce
  qed
next
  case (g_and1 ts e)
  then show ?case unfolding and_complete_def unary_complete_def by (blast intro: and_expr_run)
next
  case (g_and2 ts l us r)
  show ?case unfolding and_complete_def
  proof (intro allI impI)
    fix p rest n x
    assume p: "types p = (ts @ TAnd # us) @ rest"
      and x: "and_loop env n (ExprAnd l r) (skip (length (ts @ TAnd # us)) p) = Some x"
    let ?p = "skip (length ts) p"
    from p have m: "match_token ?p TAnd = (skip 1 ?p, True)" by (simp add: match_token_types)
    from g_and2(4) [unfolded unary_complete_def, rule_format, of "skip 1 ?p" rest] p obtain k where
      "parse_unary_expr env k (skip 1 ?p) = Some (Inr (r, skip (length us) (skip 1 ?p)))" by auto
    from and_loop_run [OF m this, of n l x] x obtain k2 where "and_loop env k2 l ?p = Some x" by (auto simp: add.assoc)
    with g_and2(2) p show "\<exists>k. parse_and_expr env k p = Some x" unfolding and_complete_def by fastforce
  qed
next
  case (g_not ts e)
  show ?case unfolding unary_complete_def
  proof (intro allI impI)
    fix p rest
    assume p: "types p = (TNot # ts) @ rest"
    with g_not(2) [unfolded primary_complete_def, rule_format, of "skip 1 p" rest] obtain k where
      "parse_primary env k (skip 1 p) = Some (Inr (e, skip (length ts) (skip 1 p)))" by auto
    with p show "\<exists>k. parse_unary_expr env k p = Some (Inr (ExprNot e, skip (length (TNot # ts)) p))"
      by (intro exI [of _ "Suc k"]) (simp add: match_token_types)
  qed
next
  case (g_plain ts e)
  show ?case unfolding unary_complete_def
  proof (intro allI impI)
    fix p rest
    assume p: "types p = ts @ rest"
    with g_plain(2) obtain k where k: "parse_primary env k p = Some (Inr (e, skip (length ts) p))"
      unfolding primary_complete_def by blast
    from g_primary_first [OF g_plain(1)] p have "match_token p TNot = (p, False)"
      by (cases ts) (auto simp: match_token_types)
    with k show "\<exists>k. parse_unary_expr env k p = Some (Inr (e, skip (length ts) p))"
      by (intro exI [of _ "Suc k"]) simp
  qed
next
  case (g_paren ts e)
  show ?case unfolding primary_complete_def
  proof (intro allI impI)
    fix p rest
    assume p: "types p = (TLParen # ts @ [TRParen]) @ rest"
    with or_completeD [OF g_paren(2), of "skip 1 p" "TRParen # rest"] obtain k where
      "parse_or_expr env k (skip 1 p) = Some (Inr (e, skip (length ts) (skip 1 p)))" by auto
    with p show "\<exists>k. parse_primary env k p = Some (Inr (e, skip (length (TLParen # ts @ [TRParen])) p))"
      by (intro exI [of _ "Suc k"]) (simp add: match_token_types)
  qed
next
  case (g_compared ts e)
  show ?case unfolding primary_complete_def
  proof (intro allI impI)
    fix p rest
    assume p: "types p = ts @ rest"
    from g_comparison_first [OF g_compared] p have "match_token p TLParen = (p, False)" by (auto simp: match_token_types)
    with parse_comparison_complete [OF g_compared p] show "\<exists>k. parse_primary env k p = Some (Inr (e, skip (length ts) p))"
      by (intro exI [of _ 1]) simp
  qed
qed

text \<open>The whole token list, which ends with the end token and has it nowhere else.\<close>

lemma g_no_eof:
  "g_or env ts e \<Longrightarrow> TEof \<notin> set ts" "g_and env ts e \<Longrightarrow> TEof \<notin> set ts"
  "g_unary env ts e \<Longrightarrow> TEof \<notin> set ts" "g_primary env ts e \<Longrightarrow> TEof \<notin> set ts"
proof (induction rule: g_or_g_and_g_unary_g_primary.inducts)
  case (g_compared ts e)
  have "g_values env us vs \<Longrightarrow> TEof \<notin> set us" for us vs
    by (induction rule: g_values.induct) (auto simp: value_of_def)
  with g_compared show ?case by (auto simp: value_of_def elim!: g_comparison.cases dest: operator_of_eof)
qed auto

lemma parse_tokens_total: "parse_tokens env input tokens \<noteq> None"
  using parse_enough(1) [of "\<lparr>pr_tokens = tokens, pr_pos = 0\<rparr>" "parse_fuel tokens" env]
  by (simp add: parse_tokens_def parse_fuel_def types_def Let_def)

lemma parse_tokens_exact:
  assumes "map token_type tokens = ts @ [TEof]" and "TEof \<notin> set ts"
  shows "parse_tokens env input tokens = Some (Inr q) \<longleftrightarrow> cq_raw q = input \<and> g_or env ts (cq_ast q)"
proof -
  let ?p = "\<lparr>pr_tokens = tokens, pr_pos = 0\<rparr>"
  have p: "types ?p = ts @ [TEof]" using assms(1) by (simp add: types_def)
  have eof: "k = length ts" if "token_type (current (skip k ?p)) = TEof" "k \<le> length ts" for k
  proof (rule ccontr)
    assume "k \<noteq> length ts"
    with that(2) have k: "k < length ts" by simp
    then have "types (skip k ?p) = ts ! k # drop (Suc k) ts @ [TEof]" by (simp add: p Cons_nth_drop_Suc)
    with that(1) have "ts ! k = TEof" by (simp add: current_types)
    with k assms(2) nth_mem show False by metis
  qed
  show ?thesis
  proof
    assume q: "parse_tokens env input tokens = Some (Inr q)"
    then obtain e p' where e: "parse_or_expr env (parse_fuel tokens) ?p = Some (Inr (e, p'))"
        "token_type (current p') = TEof" "q = \<lparr>cq_raw = input, cq_ast = e\<rparr>"
      by (auto simp: parse_tokens_def Let_def split: if_splits)
    from parse_sound(1) [OF e(1)] obtain us where us: "consumes ?p us p'" "g_or env us e" by blast
    then have p': "p' = skip (length us) ?p" and tk: "take (length us) (ts @ [TEof]) = us" using p by (auto simp: consumes_def)
    from g_no_eof(1) [OF us(2)] have "length us \<le> length ts"
      using tk by (cases "length us \<le> length ts") (auto simp: take_Cons' split: if_splits)
    with eof [of "length us"] e(2) p' have "length us = length ts" by simp
    with tk have "us = ts" by simp
    with us(2) e(3) show "cq_raw q = input \<and> g_or env ts (cq_ast q)" by simp
  next
    assume q: "cq_raw q = input \<and> g_or env ts (cq_ast q)"
    from or_completeD [OF g_complete(1) p] q obtain k where
      k: "parse_or_expr env k ?p = Some (Inr (cq_ast q, skip (length ts) ?p))" by auto
    obtain r where r: "parse_or_expr env (parse_fuel tokens) ?p = Some r"
      using parse_enough(1) [of ?p "parse_fuel tokens" env] by (auto simp: parse_fuel_def types_def)
    have "r = Inr (cq_ast q, skip (length ts) ?p)"
      using parse_mono(1) [OF max.cobounded1 k, of "parse_fuel tokens"] parse_mono(1) [OF max.cobounded2 r, of k] by simp
    moreover from q g_nonempty(1) [of env ts] assms(2) have "token_type (current ?p) \<noteq> TEof"
      by (cases ts) (auto simp: current_types p)
    ultimately show "parse_tokens env input tokens = Some (Inr q)"
      using q r by (simp add: parse_tokens_def Let_def current_types p)
  qed
qed

end
