(* ===== verification/Cql_Text.thy ===== *)
theory Cql_Text
  imports Cql_Grammar
begin

text \<open>
  The lexer against the text: where positions point, and that the printed form of a list of tokens is
  read back to it.
\<close>

section \<open>Characters of a string\<close>

definition cont_char :: "char \<Rightarrow> bool" where
  "cont_char c \<longleftrightarrow> 128 \<le> (of_char c :: nat) \<and> (of_char c :: nat) < 192"

lemma unat_as_byte [simp]: "unat (as_byte c) = of_char c"
  by (simp add: as_byte_def unat_of_nat)

lemma as_byte_less: "as_byte c < w \<longleftrightarrow> of_char c < unat w" and as_byte_le: "w \<le> as_byte c \<longleftrightarrow> unat w \<le> of_char c"
    and as_byte_le2: "as_byte c \<le> w \<longleftrightarrow> of_char c \<le> unat w"
  by (simp_all add: word_less_nat_alt word_le_nat_alt)

lemma utf8_cont_char: "utf8_cont (as_byte c) \<longleftrightarrow> cont_char c"
  by (auto simp: utf8_cont_def cont_char_def as_byte_le as_byte_le2)

text \<open>The first character of a well-formed string: one ASCII byte, or a lead byte and continuation bytes.\<close>

lemma rust_string_Cons:
  assumes "rust_string (c # s)"
  obtains (ascii) "(of_char c :: nat) < 128" "utf8_len c = 1" "rust_string s"
  | (multi) k where "192 \<le> (of_char c :: nat)" "utf8_len c = Suc k" "k \<le> length s" "\<forall>b\<in>set (take k s). cont_char b" "rust_string (drop k s)"
proof -
  have v: "utf8_valid (as_byte c # as_bytes s)" using assms by (simp add: rust_string_def as_bytes_def)
  consider (one) "of_char c < (128 :: nat)" | (two) "194 \<le> (of_char c :: nat)" "of_char c \<le> (223 :: nat)"
    | (three) "224 \<le> (of_char c :: nat)" "of_char c \<le> (239 :: nat)" | (four) "240 \<le> (of_char c :: nat)" "of_char c \<le> (244 :: nat)"
    using v by (auto simp: as_byte_less as_byte_le as_byte_le2 split: if_splits)
  then show thesis
  proof cases
    case one
    with v show ?thesis by (intro ascii) (auto simp: rust_string_def utf8_len_def as_byte_less)
  next
    case two
    with v obtain b r where "s = b # r" "cont_char b" "rust_string r"
      by (cases s) (auto simp: as_byte_less as_byte_le as_byte_le2 as_bytes_def utf8_cont_char rust_string_def)
    with two show ?thesis by (intro multi [of 1]) (auto simp: utf8_len_def)
  next
    case three
    with v obtain b d r where "s = b # d # r" "cont_char b" "cont_char d" "rust_string r"
      by (cases s; cases "tl s") (auto simp: as_byte_less as_byte_le as_byte_le2 as_bytes_def utf8_cont_char rust_string_def)
    with three show ?thesis by (intro multi [of 2]) (auto simp: utf8_len_def)
  next
    case four
    with v obtain b d f r where "s = b # d # f # r" "cont_char b" "cont_char d" "cont_char f" "rust_string r"
      by (cases s; cases "tl s"; cases "tl (tl s)") (auto simp: as_byte_less as_byte_le as_byte_le2 as_bytes_def utf8_cont_char rust_string_def)
    with four show ?thesis by (intro multi [of 3]) (auto simp: utf8_len_def)
  qed
qed

definition one_char :: "rchar \<Rightarrow> bool" where
  "one_char ch \<longleftrightarrow> (\<exists>c s. ch = c # s \<and> utf8_len c = length ch \<and> \<not> cont_char c \<and> (\<forall>b\<in>set s. cont_char b))"

lemma one_char_ascii [simp]: "(of_char c :: nat) < 128 \<Longrightarrow> one_char [c]"
  by (simp add: one_char_def utf8_len_def cont_char_def)

lemma next_char_rust:
  assumes "rust_string s" and "next_char s = Some (ch, rest)"
  shows "one_char ch \<and> rust_string rest \<and> s = ch @ rest"
proof -
  from assms(2) obtain c r where s: "s = c # r" "ch = take (utf8_len c) s" "rest = drop (utf8_len c) s"
    by (auto simp: next_char_def split: list.splits)
  from assms(1) [unfolded s(1)] show ?thesis
  proof (cases rule: rust_string_Cons)
    case ascii
    with s show ?thesis by (simp add: one_char_def cont_char_def)
  next
    case (multi k)
    with s show ?thesis by (auto simp: one_char_def cont_char_def)
  qed
qed

lemma next_char_append: "one_char ch \<Longrightarrow> next_char (ch @ rest) = Some (ch, rest)"
  by (auto simp: one_char_def next_char_def)

lemma next_char_ascii [simp]: "(of_char c :: nat) < 128 \<Longrightarrow> next_char (c # rest) = Some ([c], rest)"
  using next_char_append [of "[c]" rest] by simp

lemma next_char_Nil [simp]: "next_char [] = None"
  by (simp add: next_char_def)

section \<open>Positions\<close>

text \<open>The line and the column, in characters, at which the text \<open>s\<close> ends.\<close>

definition line_at :: "string \<Rightarrow> nat" where
  "line_at s = 1 + count_list s (CHR 0x0A)"

definition column_at :: "string \<Rightarrow> nat" where
  "column_at s = 1 + length (filter (\<lambda>c. \<not> cont_char c) (takeWhile (\<lambda>c. c \<noteq> CHR 0x0A) (rev s)))"

definition pos_ok :: "string \<Rightarrow> Position \<Rightarrow> bool" where
  "pos_ok input p \<longleftrightarrow> ps_offset p \<le> length input \<and>
     ps_line p = line_at (take (ps_offset p) input) \<and> ps_column p = column_at (take (ps_offset p) input)"

definition lex_ok :: "Lexer \<Rightarrow> bool" where
  "lex_ok lx \<longleftrightarrow> lx_pos lx \<le> length (lx_input lx) \<and> lx_chars lx = drop (lx_pos lx) (lx_input lx) \<and>
     rust_string (lx_chars lx) \<and> pos_ok (lx_input lx) (current_position lx)"

lemma lex_ok_new: "rust_string input \<Longrightarrow> lex_ok (lexer_new input)"
  by (simp add: lex_ok_def lexer_new_def pos_ok_def current_position_def line_at_def column_at_def)

lemma newline_not_cont [simp]: "\<not> cont_char (CHR 0x0A)"
  by (simp add: cont_char_def)

lemma one_char_mem: "one_char ch \<Longrightarrow> (of_char d :: nat) < 128 \<Longrightarrow> d \<in> set ch \<longleftrightarrow> ch = [d]"
proof -
  assume d: "(of_char d :: nat) < 128" and "one_char ch"
  then obtain c s where c: "ch = c # s" "utf8_len c = Suc (length s)" "\<forall>b\<in>set s. cont_char b" by (auto simp: one_char_def)
  from c(3) d have "d \<notin> set s" by (auto simp: cont_char_def)
  moreover have "c = d \<Longrightarrow> s = []" using c(2) d by (simp add: utf8_len_def)
  ultimately show ?thesis using c(1) by auto
qed

lemma one_char_newline: "one_char ch \<Longrightarrow> CHR 0x0A \<in> set ch \<longleftrightarrow> ch = [CHR 0x0A]"
  by (rule one_char_mem) simp_all

lemma line_at_append: "one_char ch \<Longrightarrow> line_at (s @ ch) = line_at s + (if ch = [CHR 0x0A] then 1 else 0)"
  using one_char_newline [of ch] by (auto simp: line_at_def count_list_0_iff)

lemma column_at_append:
  assumes "one_char ch"
  shows "column_at (s @ ch) = (if ch = [CHR 0x0A] then 1 else column_at s + 1)"
proof (cases "ch = [CHR 0x0A]")
  case False
  with assms one_char_newline have no: "\<forall>c\<in>set (rev ch). c \<noteq> CHR 0x0A" by auto
  from assms have "length (filter (\<lambda>c. \<not> cont_char c) (rev ch)) = 1"
    by (auto simp: one_char_def rev_filter [symmetric])
  moreover have "takeWhile (\<lambda>c. c \<noteq> CHR 0x0A) (rev ch @ rev s) = rev ch @ takeWhile (\<lambda>c. c \<noteq> CHR 0x0A) (rev s)"
    using no by (intro takeWhile_append2) blast
  ultimately show ?thesis using False by (simp add: column_at_def)
qed (simp add: column_at_def)

lemma lex_ok_adv:
  assumes "lex_ok lx"
  shows "lex_ok (adv lx)"
proof (cases "next_char (lx_chars lx)")
  case None
  with assms show ?thesis by (simp add: lex_advance_def)
next
  case (Some x)
  obtain ch rest where x: "next_char (lx_chars lx) = Some (ch, rest)" using Some by (cases x) auto
  with assms next_char_rust have c: "one_char ch" "rust_string rest" "lx_chars lx = ch @ rest" by (auto simp: lex_ok_def)
  let ?n = "lx_pos lx + length ch"
  have d: "drop (lx_pos lx) (lx_input lx) = ch @ rest" using assms c(3) by (simp add: lex_ok_def)
  then have "length (lx_input lx) - lx_pos lx = length (ch @ rest)" by (metis length_drop)
  then have len: "?n \<le> length (lx_input lx)" using assms unfolding lex_ok_def length_append by linarith
  have t: "take ?n (lx_input lx) = take (lx_pos lx) (lx_input lx) @ ch" "drop ?n (lx_input lx) = rest"
    using d drop_drop [of "length ch" "lx_pos lx" "lx_input lx"] by (simp_all add: take_add add.commute)
  have "adv lx = (if ch = [CHR 0x0A] then lx\<lparr>lx_chars := rest, lx_pos := ?n, lx_line := lx_line lx + 1, lx_column := 1\<rparr>
      else lx\<lparr>lx_chars := rest, lx_pos := ?n, lx_column := lx_column lx + 1\<rparr>)"
    by (simp add: lex_advance_def x Let_def)
  then show ?thesis
    using assms len t c(2) line_at_append [OF c(1)] column_at_append [OF c(1)]
    by (cases "ch = [CHR 0x0A]") (simp_all add: lex_ok_def pos_ok_def current_position_def)
qed

lemma lex_ok_advance_while: "lex_ok lx \<Longrightarrow> lex_ok (advance_while P lx)"
proof (induction P lx rule: advance_while.induct)
  case (1 P lx)
  then show ?case by (subst advance_while.simps) (auto split: option.split intro: lex_ok_adv)
qed

lemma pos_ok_current: "lex_ok lx \<Longrightarrow> pos_ok (lx_input lx) (current_position lx)"
  by (simp add: lex_ok_def)

lemma input_kept: "lex_step lx lx' \<Longrightarrow> lx_input lx' = lx_input lx"
  by (simp add: lex_step_def)

text \<open>A located error: what kind it is and where it points.\<close>

definition located :: "string \<Rightarrow> CqlError \<Rightarrow> bool" where
  "located input e \<longleftrightarrow>
     (ce_error_type e = SyntaxError \<and> ce_field e = None \<or>
      ce_error_type e = UnknownField \<and> (\<exists>f. ce_field e = Some f \<and> field_from_str f = None)) \<and>
     (\<exists>p. ce_position e = Some p \<and> pos_ok input p)"

lemma located_syntax: "pos_ok input p \<Longrightarrow> located input (syntax_error msg p)"
  by (simp add: located_def syntax_error_def)

definition lexed_ok :: "string \<Rightarrow> ('a \<times> Lexer) cql_res \<Rightarrow> bool" where
  "lexed_ok input r \<longleftrightarrow> (case r of Inl e \<Rightarrow> located input e | Inr (_, lx') \<Rightarrow> lex_ok lx' \<and> lx_input lx' = input)"

lemma string_loop_ok:
  "lex_ok lx \<Longrightarrow> pos_ok (lx_input lx) start_pos \<Longrightarrow> lexed_ok (lx_input lx) (string_loop start_pos q v lx)"
proof (induction start_pos q v lx rule: string_loop.induct)
  case (1 start_pos q v lx)
  note adv1 = lex_ok_adv [OF "1.prems"(1)] and in1 = input_kept [OF lex_step_adv [of lx]]
  note adv2 = lex_ok_adv [OF adv1] and in2 = input_kept [OF lex_step_adv [of "adv lx"]]
  show ?case
  proof (cases "peek lx")
    case None
    with "1.prems" show ?thesis by (subst string_loop.simps) (simp add: lexed_ok_def located_syntax)
  next
    case (Some ch)
    consider (quote) "ch = q" | (esc) "ch \<noteq> q" "ch = [CHR 0x5C]" | (plain) "ch \<noteq> q" "ch \<noteq> [CHR 0x5C]" by blast
    then show ?thesis
    proof cases
      case quote
      with Some adv1 in1 show ?thesis by (subst string_loop.simps) (simp add: lexed_ok_def)
    next
      case esc
      obtain lx2 r where e: "lex_advance (adv lx) = (lx2, r)" by fastforce
      with adv2 in2 in1 have ok2: "lex_ok lx2" "lx_input lx2 = lx_input lx" by simp_all
      show ?thesis
      proof (cases r)
        case None
        with esc Some e ok2 pos_ok_current [OF ok2(1)] show ?thesis
          by (subst string_loop.simps) (simp add: lexed_ok_def located_syntax)
      next
        case (Some ch2)
        with "1.IH"(1) [OF \<open>peek lx = Some ch\<close> esc e [symmetric] _ ok2(1)] ok2 "1.prems" esc e \<open>peek lx = Some ch\<close>
        show ?thesis by (subst string_loop.simps) simp
      qed
    next
      case plain
      with "1.IH"(2) [OF Some plain adv1] in1 "1.prems" Some show ?thesis by (subst string_loop.simps) simp
    qed
  qed
qed

lemma read_string_ok: "lex_ok lx \<Longrightarrow> lexed_ok (lx_input lx) (read_string q lx)"
  using string_loop_ok [OF lex_ok_adv, of lx "current_position lx" q "[]"] pos_ok_current [of lx] input_kept [OF lex_step_adv [of lx]]
  by (auto simp: read_string_def lexed_ok_def Let_def rbind_def split: sum.splits)

lemma read_number_ok: "lex_ok lx \<Longrightarrow> lex_ok (snd (read_number lx))"
  by (auto simp: read_number_def Let_def intro: lex_ok_adv lex_ok_advance_while)

lemma read_number_input: "lx_input (snd (read_number lx)) = lx_input lx"
  by (auto simp: read_number_def Let_def input_kept [OF lex_step_advance_while] input_kept [OF lex_step_adv])

lemma read_identifier_ok: "lex_ok lx \<Longrightarrow> lex_ok (snd (read_identifier env lx)) \<and> lx_input (snd (read_identifier env lx)) = lx_input lx"
  by (auto simp: read_identifier_def Let_def input_kept [OF lex_step_advance_while] intro: lex_ok_advance_while)

lemma next_token_ok:
  assumes "lex_ok lx0"
  shows "lexed_ok (lx_input lx0) (next_token env lx0)"
proof -
  let ?lx = "skip_whitespace lx0"
  have lx: "lex_ok ?lx" "lx_input ?lx = lx_input lx0"
    using assms by (auto simp: skip_whitespace_def intro: lex_ok_advance_while input_kept [OF lex_step_advance_while])
  note ok1 = lex_ok_adv [OF lx(1)]
  note ok2 = lex_ok_adv [OF ok1]
  note ok3 = lex_ok_adv [OF ok2]
  have inp: "lx_input (adv lx) = lx_input lx" for lx by (rule input_kept) simp
  have err: "located (lx_input lx0) (syntax_error msg (current_position ?lx))" for msg
    using pos_ok_current [OF lx(1)] lx(2) by (simp add: located_syntax)
  have tok: "lexed_ok (lx_input lx0) (Inr (t, adv ?lx))" "lexed_ok (lx_input lx0) (Inr (t, adv (adv ?lx)))"
      "lexed_ok (lx_input lx0) (Inr (t, adv (adv (adv ?lx))))" "lexed_ok (lx_input lx0) (Inr (t, ?lx))" for t
    using ok1 ok2 ok3 lx inp by (simp_all add: lexed_ok_def)
  have err': "lexed_ok (lx_input lx0) (Inl (syntax_error msg (current_position ?lx)))" for msg
    using err by (simp add: lexed_ok_def)
  have reads: "lexed_ok (lx_input lx0) (read_string q ?lx)" "lexed_ok (lx_input lx0) (Inr (read_number ?lx))"
      "lexed_ok (lx_input lx0) (Inr (read_identifier env ?lx))" for q
    using read_string_ok [OF lx(1), of q] read_number_ok [OF lx(1)] read_number_input [of ?lx] read_identifier_ok [OF lx(1), of env] lx(2)
    by (auto simp: lexed_ok_def split: prod.splits)
  show ?thesis
    unfolding next_token_def Let_def by (cases "peek ?lx") (simp_all add: tok err' reads del: append.simps)
qed

lemma tokenize_ok:
  "lex_ok lx \<Longrightarrow> (case tokenize env lx of Inl e \<Rightarrow> located (lx_input lx) e | Inr ts \<Rightarrow> \<forall>t\<in>set ts. pos_ok (lx_input lx) (position t))"
proof (induction env lx rule: tokenize.induct)
  case (1 env lx)
  note ok = next_token_ok [OF "1.prems", of env]
  show ?case
  proof (cases "next_token env lx")
    case (Inl e)
    with ok show ?thesis by (subst tokenize.simps) (simp add: lexed_ok_def)
  next
    case (Inr x)
    obtain t lx' where x: "next_token env lx = Inr (t, lx')" using Inr by (cases x) auto
    have s: "lex_ok (skip_whitespace lx)" "lx_input (skip_whitespace lx) = lx_input lx"
      using "1.prems" by (auto simp: skip_whitespace_def intro: lex_ok_advance_while input_kept [OF lex_step_advance_while])
    from next_token_found [OF x] s pos_ok_current [OF s(1)] have p: "pos_ok (lx_input lx) (position t)" by simp
    from ok x have "lex_ok lx'" "lx_input lx' = lx_input lx" by (simp_all add: lexed_ok_def)
    with "1.IH" [OF x refl] x p show ?thesis
      by (subst tokenize.simps) (auto simp: rbind_def split: sum.split sum.split_asm)
  qed
qed

lemma tokenize_types:
  "tokenize env lx = Inr ts \<Longrightarrow> \<exists>us. map token_type ts = us @ [TEof] \<and> TEof \<notin> set us"
proof (induction env lx arbitrary: ts rule: tokenize.induct)
  case (1 env lx)
  from "1.prems" obtain t lx' where x: "next_token env lx = Inr (t, lx')"
    by (subst (asm) tokenize.simps) (auto split: sum.splits)
  show ?case
  proof (cases "token_type t = TEof")
    case True
    with "1.prems" x show ?thesis by (subst (asm) tokenize.simps) (auto intro!: exI [of _ "[]"])
  next
    case False
    with "1.prems" x obtain us where "tokenize env lx' = Inr us" "ts = t # us" by (subst (asm) tokenize.simps) auto
    moreover from this "1.IH" [OF x refl False] obtain vs where "map token_type us = vs @ [TEof]" "TEof \<notin> set vs" by blast
    ultimately show ?thesis using False by (intro exI [of _ "token_type t # vs"]) simp
  qed
qed

section \<open>Errors of the parser\<close>

lemma located_here:
  "\<forall>t\<in>set tokens. pos_ok input (position t) \<Longrightarrow> pr_tokens p = tokens \<Longrightarrow> pos_ok input (position (current p))"
  by (auto simp: current_def eof_default_def pos_ok_def line_at_def column_at_def)

lemma consumes_tokens: "consumes p ts p' \<Longrightarrow> pr_tokens p' = pr_tokens p"
  by (simp add: consumes_def)

lemma match_tokens [simp]: "match_token p ty = (p', b) \<Longrightarrow> pr_tokens p' = pr_tokens p"
  by (auto simp: match_token_def split: if_splits)

lemma located_error_here:
  "\<forall>t\<in>set (pr_tokens p). pos_ok input (position t) \<Longrightarrow> located input (error_here msg p)"
  by (simp add: error_here_def located_syntax located_here)

definition tokens_ok :: "string \<Rightarrow> Parser \<Rightarrow> bool" where
  "tokens_ok input p \<longleftrightarrow> (\<forall>t\<in>set (pr_tokens p). pos_ok input (position t))"

lemma tokens_ok_moves:
  "tokens_ok input p \<Longrightarrow> tokens_ok input (parser_advance p)"
  "tokens_ok input p \<Longrightarrow> match_token p ty = (p', b) \<Longrightarrow> tokens_ok input p'"
  "tokens_ok input p \<Longrightarrow> parse_value env p = Inr (v, p') \<Longrightarrow> tokens_ok input p'"
  by (auto simp: tokens_ok_def dest: parse_value_InrD)

lemma located_here_ok: "tokens_ok input p \<Longrightarrow> located input (error_here msg p)"
  by (simp add: tokens_ok_def located_error_here)

lemma parse_value_error: "tokens_ok input p \<Longrightarrow> parse_value env p = Inl e \<Longrightarrow> located input e"
  by (auto simp: parse_value_def located_here_ok split: TokenType.splits if_splits)

lemma list_loop_error:
  "tokens_ok input p \<Longrightarrow> list_loop env vs p = Inl e \<Longrightarrow> located input e"
proof (induction env vs p rule: list_loop.induct)
  case (1 env vs p)
  obtain p1 b where m: "match_token p TComma = (p1, b)" by fastforce
  with "1.prems" have b: b by (subst (asm) list_loop.simps) (auto split: bool.splits)
  note ok = tokens_ok_moves(2) [OF "1.prems"(1) m]
  show ?case
  proof (cases "parse_value env p1")
    case (Inl e')
    with "1.prems"(2) m b ok show ?thesis by (subst (asm) list_loop.simps) (auto intro: parse_value_error)
  next
    case (Inr x)
    obtain v p2 where x: "parse_value env p1 = Inr (v, p2)" using Inr by (cases x) auto
    with "1.prems"(2) m b have "list_loop env (vs @ [v]) p2 = Inl e" by (subst (asm) list_loop.simps) auto
    with "1.IH" [OF m [symmetric] _ x refl tokens_ok_moves(3) [OF ok x]] b show ?thesis by simp
  qed
qed

lemma list_loop_tokens: "tokens_ok input p \<Longrightarrow> list_loop env [v] p = Inr (vs, p') \<Longrightarrow> value_of env t = Some v \<Longrightarrow> tokens_ok input p'"
  by (auto simp: tokens_ok_def consumes_tokens dest!: list_loop_sound [OF _ g_one])

lemma parse_list_error:
  assumes "tokens_ok input p" and "parse_list env p = Inl e"
  shows "located input e"
proof -
  obtain p1 b where m: "match_token p TLParen = (p1, b)" by fastforce
  note ok = tokens_ok_moves(2) [OF assms(1) m]
  show ?thesis
  proof (cases b)
    case False
    with assms(2) m ok show ?thesis by (auto simp: parse_list_def located_here_ok)
  next
    case True
    show ?thesis
    proof (cases "parse_value env p1")
      case (Inl e')
      with assms(2) m True ok show ?thesis by (auto simp: parse_list_def intro: parse_value_error)
    next
      case (Inr x)
      obtain v p2 where x: "parse_value env p1 = Inr (v, p2)" using Inr by (cases x) auto
      then obtain t where t: "value_of env t = Some v" by (auto simp: parse_value_consumes)
      note ok2 = tokens_ok_moves(3) [OF ok x]
      show ?thesis
      proof (cases "list_loop env [v] p2")
        case (Inl e')
        with assms(2) m True x ok2 show ?thesis by (auto simp: parse_list_def intro: list_loop_error)
      next
        case (Inr y)
        obtain vs p3 where y: "list_loop env [v] p2 = Inr (vs, p3)" using Inr by (cases y) auto
        obtain p4 c where m2: "match_token p3 TRParen = (p4, c)" by fastforce
        from tokens_ok_moves(2) [OF list_loop_tokens [OF ok2 y t] m2] assms(2) m True x y m2 show ?thesis
          by (cases c) (auto simp: parse_list_def located_here_ok)
      qed
    qed
  qed
qed

lemma parse_comparison_error:
  assumes "tokens_ok input p" and "parse_comparison env p = Inl e"
  shows "located input e"
proof (cases "\<exists>f. token_type (current p) = TIdent f \<and> field_from_str f \<noteq> None")
  case False
  have "located input (unknown_field f (position (current p)))" if "field_from_str f = None" for f
    using that located_here [of "pr_tokens p" input p] assms(1) by (simp add: located_def unknown_field_def tokens_ok_def)
  with False assms(2) located_here_ok [OF assms(1)] show ?thesis
    by (cases "token_type (current p)") (auto simp: parse_comparison_def Let_def)
next
  case True
  let ?p1 = "parser_advance p"
  note ok1 = tokens_ok_moves(1) [OF assms(1)]
  note ok2 = tokens_ok_moves(1) [OF ok1]
  from True assms(2) ok1 ok2 show ?thesis
    by (auto simp: parse_comparison_def Let_def rbind_eq_Inl located_here_ok split: option.splits if_splits
        intro: parse_list_error parse_value_error)
qed

lemma parse_tokens_kept:
  "parse_or_expr env n p = Some (Inr (e, p')) \<Longrightarrow> tokens_ok input p \<Longrightarrow> tokens_ok input p'"
  "parse_and_expr env n p = Some (Inr (e, p')) \<Longrightarrow> tokens_ok input p \<Longrightarrow> tokens_ok input p'"
  "parse_unary_expr env n p = Some (Inr (e, p')) \<Longrightarrow> tokens_ok input p \<Longrightarrow> tokens_ok input p'"
  by (auto simp: tokens_ok_def consumes_tokens dest!: parse_sound)

lemma parse_error:
  "parse_or_expr env n p = Some (Inl e) \<Longrightarrow> tokens_ok input p \<Longrightarrow> located input e"
  "or_loop env n l p = Some (Inl e) \<Longrightarrow> tokens_ok input p \<Longrightarrow> located input e"
  "parse_and_expr env n p = Some (Inl e) \<Longrightarrow> tokens_ok input p \<Longrightarrow> located input e"
  "and_loop env n l p = Some (Inl e) \<Longrightarrow> tokens_ok input p \<Longrightarrow> located input e"
  "parse_unary_expr env n p = Some (Inl e) \<Longrightarrow> tokens_ok input p \<Longrightarrow> located input e"
  "parse_primary env n p = Some (Inl e) \<Longrightarrow> tokens_ok input p \<Longrightarrow> located input e"
proof (induction n arbitrary: p l e)
  case (Suc n)
  {
    case (1 p e)
    with Suc.IH(2,3) show ?case by (auto split: option.splits sum.splits dest: parse_tokens_kept)
  next
    case (2 p l e)
    obtain p1 b where m: "match_token p TOr = (p1, b)" by fastforce
    with 2 tokens_ok_moves(2) [OF 2(2) m] Suc.IH(2,3) show ?case
      by (cases b) (auto split: option.splits sum.splits dest: parse_tokens_kept)
  next
    case (3 p e)
    with Suc.IH(4,5) show ?case by (auto split: option.splits sum.splits dest: parse_tokens_kept)
  next
    case (4 p l e)
    obtain p1 b where m: "match_token p TAnd = (p1, b)" by fastforce
    with 4 tokens_ok_moves(2) [OF 4(2) m] Suc.IH(4,5) show ?case
      by (cases b) (auto split: option.splits sum.splits dest: parse_tokens_kept)
  next
    case (5 p e)
    obtain p1 b where m: "match_token p TNot = (p1, b)" by fastforce
    with 5 tokens_ok_moves(2) [OF 5(2) m] Suc.IH(6) show ?case
      by (cases b) (auto simp: rbind_eq_Inl)
  next
    case (6 p e)
    obtain p1 b where m: "match_token p TLParen = (p1, b)" by fastforce
    note ok = tokens_ok_moves(2) [OF 6(2) m]
    show ?case
    proof (cases b)
      case False
      with m 6 ok show ?thesis by (auto intro: parse_comparison_error)
    next
      case True
      show ?thesis
      proof (cases "\<exists>x p2. parse_or_expr env n p1 = Some (Inr (x, p2))")
        case False
        with 6 m True ok Suc.IH(1) show ?thesis by (auto split: option.splits sum.splits)
      next
        case (True)
        then obtain x p2 where x: "parse_or_expr env n p1 = Some (Inr (x, p2))" by blast
        obtain p3 c where m2: "match_token p2 TRParen = (p3, c)" by fastforce
        from tokens_ok_moves(2) [OF parse_tokens_kept(1) [OF x ok] m2] 6 m \<open>b\<close> x m2 show ?thesis
          by (cases c) (auto simp: located_here_ok)
      qed
    qed
  }
qed simp_all

lemma cql_parse_located:
  assumes "rust_string input" and "cql_parse lenv env input = Some (Inl e)"
  shows "located input e"
proof -
  have inp: "lx_input (lexer_new input) = input" by (simp add: lexer_new_def)
  note ok = tokenize_ok [OF lex_ok_new [OF assms(1)], of lenv, unfolded inp]
  show ?thesis
  proof (cases "tokenize lenv (lexer_new input)")
    case (Inl e')
    with ok assms(2) show ?thesis by (simp add: cql_parse_def)
  next
    case (Inr ts)
    let ?p = "\<lparr>pr_tokens = ts, pr_pos = 0\<rparr>"
    from ok Inr have t: "tokens_ok input ?p" by (simp add: tokens_ok_def)
    from Inr assms(2) t show ?thesis
      by (auto simp: cql_parse_def parse_tokens_def Let_def rbind_eq_Inl located_here_ok split: if_splits
          intro: parse_error(1) dest: parse_tokens_kept(1) [OF _ t])
  qed
qed

end
