(* ===== verification/Cql_Print.thy ===== *)
theory Cql_Print
  imports Cql_Text Cql_Props Store_Props
begin

text \<open>
  Printing queries, and the properties of the query language from the text to the result: the printed form
  of a query parses to the query, the parser accepts exactly the documented grammar, errors point at the text,
  numbers are read exactly up to the precision of a double, and a search returns what the query means.
\<close>

section \<open>Printing\<close>

definition escape :: "string \<Rightarrow> string" where
  "escape s = concat (map (\<lambda>c. if c = CHR 0x22 \<or> c = CHR 0x5C then [CHR 0x5C, c] else [c]) s)"

fun print_token :: "TokenType \<Rightarrow> string" where
  "print_token TAnd = ''AND''"
| "print_token TOr = ''OR''"
| "print_token TNot = ''NOT''"
| "print_token TIn = ''IN''"
| "print_token TLParen = ''(''"
| "print_token TRParen = '')''"
| "print_token TComma = '',''"
| "print_token TEq = ''=''"
| "print_token TNeq = ''!=''"
| "print_token TStarts = ''^=''"
| "print_token TEqCi = ''~=''"
| "print_token TStartsCi = ''^~=''"
| "print_token TGt = ''>''"
| "print_token TGte = ''>=''"
| "print_token TLt = ''<''"
| "print_token TLte = ''<=''"
| "print_token (TString s) = CHR 0x22 # escape s @ [CHR 0x22]"
| "print_token (TNumber w) = dec_str (unat (f64_as_u64 w))"
| "print_token (TIdent s) = s"
| "print_token TEof = []"

definition print_tokens :: "TokenType list \<Rightarrow> string" where
  "print_tokens ts = concat (map (\<lambda>t. print_token t @ '' '') ts)"

fun operator_token :: "Operator \<Rightarrow> TokenType" where
  "operator_token Eq = TEq"
| "operator_token Neq = TNeq"
| "operator_token Starts = TStarts"
| "operator_token EqCi = TEqCi"
| "operator_token StartsCi = TStartsCi"
| "operator_token Gt = TGt"
| "operator_token Gte = TGte"
| "operator_token Lt = TLt"
| "operator_token Lte = TLte"
| "operator_token In = TIn"

fun value_token :: "cql_value \<Rightarrow> TokenType" where
  "value_token (VString s) = TString s"
| "value_token (VNumber w) = TNumber w"
| "value_token (VDate s _) = TString s"
| "value_token (VList _) = TEof"

fun list_tokens :: "cql_value list \<Rightarrow> TokenType list" where
  "list_tokens [] = []"
| "list_tokens [v] = [value_token v]"
| "list_tokens (v # w # vs) = value_token v # TComma # list_tokens (w # vs)"

definition paren :: "bool \<Rightarrow> TokenType list \<Rightarrow> TokenType list" where
  "paren b ts = (if b then TLParen # ts @ [TRParen] else ts)"

text \<open>The tokens of a query at a precedence level: 0 for a disjunction, 1 for a conjunction, 2 for a
  negation, 3 for a primary.  Parentheses only where they are needed.\<close>

fun expr_tokens :: "nat \<Rightarrow> Expression \<Rightarrow> TokenType list" where
  "expr_tokens n (ExprOr l r) = paren (0 < n) (expr_tokens 0 l @ TOr # expr_tokens 1 r)"
| "expr_tokens n (ExprAnd l r) = paren (1 < n) (expr_tokens 1 l @ TAnd # expr_tokens 2 r)"
| "expr_tokens n (ExprNot e) = paren (2 < n) (TNot # expr_tokens 3 e)"
| "expr_tokens n (Comparison f op v) = TIdent f # operator_token op #
     (if op = In then TLParen # list_tokens (case as_list v of Some vs \<Rightarrow> vs | None \<Rightarrow> []) @ [TRParen] else [value_token v])"

definition print_query :: "Expression \<Rightarrow> string" where
  "print_query e = print_tokens (expr_tokens 0 e)"

text \<open>The syntax trees that are the tree of some text.\<close>

fun value_ok :: "cql_env \<Rightarrow> cql_value \<Rightarrow> bool" where
  "value_ok env (VString s) \<longleftrightarrow> rust_string s \<and> env_rel_captures env s = None"
| "value_ok env (VDate s relative) \<longleftrightarrow> rust_string s \<and> env_rel_captures env s \<noteq> None \<and> relative"
| "value_ok env (VNumber w) \<longleftrightarrow> parse_f64 (dec_str (unat (f64_as_u64 w))) = w"
| "value_ok env (VList _) \<longleftrightarrow> False"

fun expr_ok :: "cql_env \<Rightarrow> Expression \<Rightarrow> bool" where
  "expr_ok env (ExprOr l r) \<longleftrightarrow> expr_ok env l \<and> expr_ok env r"
| "expr_ok env (ExprAnd l r) \<longleftrightarrow> expr_ok env l \<and> expr_ok env r"
| "expr_ok env (ExprNot e) \<longleftrightarrow> expr_ok env e"
| "expr_ok env (Comparison f op v) \<longleftrightarrow> field_from_str f \<noteq> None \<and>
     (if op = In then (case v of VList vs \<Rightarrow> vs \<noteq> [] \<and> list_all (value_ok env) vs | _ \<Rightarrow> False) else value_ok env v)"

section \<open>The tokens of a query are a sentence\<close>

lemma value_of_token: "value_ok env v \<Longrightarrow> value_of env (value_token v) = Some v"
  by (cases v) (auto simp: value_of_def)

lemma g_values_Cons: "g_values env ts vs \<Longrightarrow> value_of env t = Some v \<Longrightarrow> g_values env (t # TComma # ts) (v # vs)"
proof (induction rule: g_values.induct)
  case (g_one t' v')
  then show ?case using g_values.g_more [OF g_values.g_one, of env t v t' v'] by simp
next
  case (g_more ts vs t' v')
  then show ?case using g_values.g_more [of env "t # TComma # ts" "v # vs" t' v'] by simp
qed

lemma g_list_tokens: "vs \<noteq> [] \<Longrightarrow> list_all (value_ok env) vs \<Longrightarrow> g_values env (list_tokens vs) vs"
  by (induction vs rule: list_tokens.induct) (auto intro: g_one g_values_Cons value_of_token)

lemma operator_of_token: "operator_of (operator_token op) = Some op"
  by (cases op) auto

text \<open>Being a sentence at a level.\<close>

definition g_level :: "cql_env \<Rightarrow> nat \<Rightarrow> TokenType list \<Rightarrow> Expression \<Rightarrow> bool" where
  "g_level env n = (if n = 0 then g_or env else if n = 1 then g_and env else if n = 2 then g_unary env else g_primary env)"

lemma g_level_down: "g_level env m ts e \<Longrightarrow> n \<le> m \<Longrightarrow> g_level env n ts e"
  by (auto simp: g_level_def split: if_splits intro: g_or1 g_and1 g_plain)

lemma g_level_primary: "g_primary env ts e \<Longrightarrow> g_level env n ts e"
  by (auto simp: g_level_def intro: g_or1 g_and1 g_plain)

lemma g_level_paren:
  assumes "g_level env k ts e"
  shows "g_level env n (paren (k < n) ts) e"
proof (cases "k < n")
  case True
  from g_level_down [OF assms, of 0] have "g_or env ts e" by (simp add: g_level_def)
  from g_level_primary [OF g_paren [OF this]] True show ?thesis by (simp add: paren_def)
next
  case False
  with g_level_down [OF assms, of n] show ?thesis by (simp add: paren_def)
qed

lemma g_expr_tokens: "expr_ok env e \<Longrightarrow> g_level env n (expr_tokens n e) e"
proof (induction e arbitrary: n)
  case (ExprAnd l r)
  then have "g_and env (expr_tokens 1 l) l" "g_unary env (expr_tokens 2 r) r"
    using ExprAnd.IH(1) [of 1] ExprAnd.IH(2) [of 2] by (simp_all add: g_level_def)
  from g_and2 [OF this] have "g_level env 1 (expr_tokens 1 l @ TAnd # expr_tokens 2 r) (ExprAnd l r)" by (simp add: g_level_def)
  from g_level_paren [OF this] show ?case by simp
next
  case (ExprOr l r)
  then have "g_or env (expr_tokens 0 l) l" "g_and env (expr_tokens 1 r) r"
    using ExprOr.IH(1) [of 0] ExprOr.IH(2) [of 1] by (simp_all add: g_level_def)
  from g_or2 [OF this] have "g_level env 0 (expr_tokens 0 l @ TOr # expr_tokens 1 r) (ExprOr l r)" by (simp add: g_level_def)
  from g_level_paren [OF this] show ?case by simp
next
  case (ExprNot e)
  then have "g_primary env (expr_tokens 3 e) e" using ExprNot.IH [of 3] by (simp add: g_level_def)
  from g_not [OF this] have "g_level env 2 (TNot # expr_tokens 3 e) (ExprNot e)" by (simp add: g_level_def)
  from g_level_paren [OF this] show ?case by simp
next
  case (Comparison f op v)
  then have "g_comparison env (expr_tokens n (Comparison f op v)) (Comparison f op v)"
    by (cases "op = In") (auto simp: operator_of_token split: cql_value.splits intro!: g_compare g_in g_list_tokens dest: value_of_token)
  from g_level_primary [OF g_compared [OF this]] show ?case .
qed

section \<open>Reading printed tokens\<close>

lemma lex_step_chars: "lex_step lx lx' \<Longrightarrow> lx_chars lx = s @ lx_chars lx' \<Longrightarrow> lx_pos lx' = lx_pos lx + length s"
proof -
  assume st: "lex_step lx lx'" and "lx_chars lx = s @ lx_chars lx'"
  then have "length (lx_chars lx) = length s + length (lx_chars lx')" by simp
  with lex_step_length [OF st] st show ?thesis unfolding lex_step_def by linarith
qed

text \<open>The lexer stands where its position says.\<close>

definition lex_at :: "Lexer \<Rightarrow> bool" where
  "lex_at lx \<longleftrightarrow> lx_chars lx = drop (lx_pos lx) (lx_input lx)"

lemma lex_at_new: "lex_at (lexer_new input)"
  by (simp add: lex_at_def lexer_new_def)

lemma lex_at_step: "lex_at lx \<Longrightarrow> lex_step lx lx' \<Longrightarrow> lex_at lx'"
  by (auto simp: lex_at_def lex_step_def)

lemma lex_slice_step:
  assumes "lex_at lx" and "lex_step lx lx'" and "lx_chars lx = s @ lx_chars lx'"
  shows "lex_slice lx' (lx_pos lx) = s"
proof -
  have "drop (lx_pos lx) (lx_input lx') = s @ lx_chars lx'" using assms(1,3) input_kept [OF assms(2)] by (simp add: lex_at_def)
  with lex_step_chars [OF assms(2,3)] show ?thesis by (simp add: lex_slice_def)
qed

lemma peek_one: "one_char ch \<Longrightarrow> lx_chars lx = ch @ rest \<Longrightarrow> peek lx = Some ch \<and> lx_chars (adv lx) = rest \<and> lex_advance lx = (adv lx, Some ch)"
  by (simp add: peek_def lex_advance_def next_char_append Let_def)

abbreviation ascii :: "char \<Rightarrow> bool" where
  "ascii c \<equiv> (of_char c :: nat) < 128"

lemma peek_ascii: "ascii c \<Longrightarrow> lx_chars lx = c # rest \<Longrightarrow> peek lx = Some [c] \<and> lx_chars (adv lx) = rest"
  using peek_one [of "[c]" lx rest] by simp

lemma advance_while_over:
  "\<forall>c\<in>set s. ascii c \<and> P [c] \<Longrightarrow> lx_chars lx = s @ d # rest \<Longrightarrow> ascii d \<Longrightarrow> \<not> P [d] \<Longrightarrow>
    lx_chars (advance_while P lx) = d # rest"
proof (induction s arbitrary: lx)
  case Nil
  with peek_ascii [of d lx rest] show ?case by (subst advance_while.simps) simp
next
  case (Cons c s)
  from Cons.prems peek_ascii [of c lx "s @ d # rest"] have "peek lx = Some [c]" "lx_chars (adv lx) = s @ d # rest" by simp_all
  with Cons.IH [of "adv lx"] Cons.prems show ?case by (subst advance_while.simps) simp
qed

lemma string_loop_escape:
  "rust_string s \<Longrightarrow> lx_chars lx = escape s @ CHR 0x22 # rest \<Longrightarrow>
    \<exists>lx'. string_loop p [CHR 0x22] v lx = Inr (v @ s, lx') \<and> lx_chars lx' = rest"
proof (induction s arbitrary: lx v rule: length_induct)
  case (1 s)
  show ?case
  proof (cases "next_char s")
    case None
    then have "s = []" by (auto simp: next_char_def split: list.splits)
    with "1.prems" peek_ascii [of "CHR 0x22" lx rest] show ?thesis by (subst string_loop.simps) (simp add: escape_def)
  next
    case (Some x)
    then obtain ch s' where x: "next_char s = Some (ch, s')" by (cases x) auto
    from next_char_rust [OF "1.prems"(1) x] have ch: "one_char ch" "rust_string s'" "s = ch @ s'" by simp_all
    with next_char_SomeD [OF x] have less: "length s' < length s" by simp
    have esc: "escape s = escape ch @ escape s'" by (simp add: escape_def ch(3))
    show ?thesis
    proof (cases "ch = [CHR 0x22] \<or> ch = [CHR 0x5C]")
      case True
      then have q: "escape ch = CHR 0x5C # ch" "unescape ch = ch" by (auto simp: escape_def unescape_def)
      with "1.prems"(2) esc peek_ascii [of "CHR 0x5C" lx] have l1: "peek lx = Some [CHR 0x5C]"
          "lx_chars (adv lx) = ch @ escape s' @ CHR 0x22 # rest" by simp_all
      from peek_one [OF ch(1) l1(2)] obtain lx2 where l2: "lex_advance (adv lx) = (lx2, Some ch)"
          "lx_chars lx2 = escape s' @ CHR 0x22 # rest" by auto
      from "1.IH" [rule_format, OF less ch(2) l2(2), of "v @ ch"] l1(1) l2(1) q ch(3) show ?thesis
        by (subst string_loop.simps) simp
    next
      case False
      have "c \<noteq> CHR 0x22 \<and> c \<noteq> CHR 0x5C" if "c \<in> set ch" for c
        using that False one_char_mem [OF ch(1), of "CHR 0x22"] one_char_mem [OF ch(1), of "CHR 0x5C"] by auto
      then have q: "escape ch = ch" unfolding escape_def by (induction ch) auto
      with "1.prems"(2) esc peek_one [OF ch(1), of lx] have "peek lx = Some ch"
          "lx_chars (adv lx) = escape s' @ CHR 0x22 # rest" by simp_all
      with "1.IH" [rule_format, OF less ch(2), of "adv lx" "v @ ch"] False ch(3) show ?thesis
        by (subst string_loop.simps) simp
    qed
  qed
qed

text \<open>What a token must be for its printed form to be read back: a string is a string, a number the number of its
  decimal form, and an identifier one that starts with a letter and is not a keyword.\<close>

definition ident_ok :: "string \<Rightarrow> bool" where
  "ident_ok s \<longleftrightarrow> s \<noteq> [] \<and> (\<forall>c\<in>set s. ascii c \<and> (is_ascii_alphabetic [c] \<or> c = CHR ''_'')) \<and>
     map ascii_upper s \<notin> {''AND'', ''OR'', ''NOT'', ''IN''}"

fun token_ok :: "TokenType \<Rightarrow> bool" where
  "token_ok (TString s) \<longleftrightarrow> rust_string s"
| "token_ok (TNumber w) \<longleftrightarrow> parse_f64 (dec_str (unat (f64_as_u64 w))) = w"
| "token_ok (TIdent s) \<longleftrightarrow> ident_ok s"
| "token_ok TEof \<longleftrightarrow> False"
| "token_ok _ \<longleftrightarrow> True"

lemma is_ascii_list: "is_ascii s \<longleftrightarrow> (\<forall>c\<in>set s. ascii c)"
  by (simp add: is_ascii_def)

lemma code1_one [simp]: "code1 [c] = of_char c"
  by (simp add: code1_def)

lemma read_word_token:
  assumes "lex_at lx" and "lx_chars lx = s @ CHR '' '' # rest"
    and "\<forall>c\<in>set s. ascii c \<and> (is_ascii_alphabetic [c] \<or> c = CHR ''_'')"
  shows "\<exists>t lx'. read_identifier env lx = (t, lx') \<and> lx_chars lx' = CHR '' '' # rest \<and> token_type t = keyword_or_ident env s"
proof -
  let ?P = "\<lambda>ch. is_alphanumeric env ch \<or> ch = ''_''"
  have "lx_chars (advance_while ?P lx) = CHR '' '' # rest"
    using assms(2,3) by (intro advance_while_over [of s])
      (auto simp: is_alphanumeric_def is_alphabetic_def is_ascii_def is_ascii_alphabetic_def is_ascii_digit_def)
  with lex_slice_step [OF assms(1) lex_step_advance_while [of lx ?P], of s] assms(2) show ?thesis
    by (simp add: read_identifier_def Let_def)
qed

lemma read_number_token:
  assumes "lex_at lx" and "lx_chars lx = dec_str n @ CHR '' '' # rest"
  shows "\<exists>t lx'. read_number lx = (t, lx') \<and> lx_chars lx' = CHR '' '' # rest \<and> token_type t = TNumber (parse_f64 (dec_str n))"
proof -
  obtain c cs where eq: "dec_str n = c # cs" by (cases "dec_str n") auto
  with digits_ascii [of c n] have c: "ascii c" "c \<noteq> CHR ''-''" by auto
  with assms(2) eq peek_ascii [of c lx] have no: "peek lx \<noteq> Some ''-''" by simp
  have over: "lx_chars (advance_while is_ascii_digit lx) = CHR '' '' # rest"
    using assms(2) digits_ascii by (intro advance_while_over [of "dec_str n"]) (fastforce simp: is_ascii_digit_def)+
  with peek_ascii [of "CHR '' ''" "advance_while is_ascii_digit lx" rest]
  have "peek (advance_while is_ascii_digit lx) \<noteq> Some ''.''" by simp
  with lex_slice_step [OF assms(1) lex_step_advance_while [of lx is_ascii_digit], of "dec_str n"] assms(2) over no show ?thesis
    by (simp add: read_number_def Let_def)
qed

text \<open>The first character decides how a token is read.\<close>

lemma next_token_ident:
  "skip_whitespace lx0 = lx \<Longrightarrow> peek lx = Some [c] \<Longrightarrow> ascii c \<Longrightarrow> is_ascii_alphabetic [c] \<or> c = CHR ''_'' \<Longrightarrow>
    next_token env lx0 = Inr (read_identifier env lx)"
proof -
  assume a: "skip_whitespace lx0 = lx" "peek lx = Some [c]" "ascii c" "is_ascii_alphabetic [c] \<or> c = CHR ''_''"
  then have "c \<noteq> CHR 0x22" "c \<noteq> CHR 0x27" "c \<noteq> CHR ''-''" "\<not> is_ascii_digit [c]" "is_alphabetic env [c] \<or> c = CHR ''_''"
    by (auto simp: is_ascii_alphabetic_def is_ascii_digit_def is_alphabetic_def is_ascii_def)
  with a(1,2) show ?thesis unfolding next_token_def Let_def by (simp split del: if_split)
qed

lemma next_token_number:
  "skip_whitespace lx0 = lx \<Longrightarrow> peek lx = Some [c] \<Longrightarrow> is_ascii_digit [c] \<Longrightarrow> next_token env lx0 = Inr (read_number lx)"
proof -
  assume a: "skip_whitespace lx0 = lx" "peek lx = Some [c]" "is_ascii_digit [c]"
  then have "c \<noteq> CHR 0x22" "c \<noteq> CHR 0x27" by (auto simp: is_ascii_digit_def)
  with a show ?thesis unfolding next_token_def Let_def by simp
qed

lemma next_token_string:
  "skip_whitespace lx0 = lx \<Longrightarrow> peek lx = Some [CHR 0x22] \<Longrightarrow> next_token env lx0 = read_string [CHR 0x22] lx"
  unfolding next_token_def Let_def by simp

lemma keyword_print:
  "t \<in> {TAnd, TOr, TNot, TIn} \<Longrightarrow> keyword_or_ident env (print_token t) = t \<and> print_token t \<noteq> [] \<and>
     (\<forall>c\<in>set (print_token t). ascii c \<and> (is_ascii_alphabetic [c] \<or> c = CHR ''_''))"
  by (elim insertE emptyE; simp add: keyword_or_ident_def to_uppercase_def is_ascii_def ascii_upper_def is_ascii_alphabetic_def)

lemma keyword_ident: "ident_ok s \<Longrightarrow> keyword_or_ident env s = TIdent s"
  by (auto simp: keyword_or_ident_def ident_ok_def to_uppercase_def is_ascii_def Let_def)

lemma next_token_word:
  assumes "lex_at (skip_whitespace lx0)" and "lx_chars (skip_whitespace lx0) = s @ CHR '' '' # rest" and "s \<noteq> []"
    and "\<forall>c\<in>set s. ascii c \<and> (is_ascii_alphabetic [c] \<or> c = CHR ''_'')"
  shows "\<exists>t lx'. next_token env lx0 = Inr (t, lx') \<and> lx_chars lx' = CHR '' '' # rest \<and> token_type t = keyword_or_ident env s"
proof -
  from assms(3) obtain c cs where s: "s = c # cs" by (cases s) auto
  with assms(2,4) peek_ascii [of c "skip_whitespace lx0"] have "peek (skip_whitespace lx0) = Some [c]" by simp
  with next_token_ident [OF refl this, of env] s assms(4) read_word_token [OF assms(1,2,4), of env] show ?thesis by auto
qed

definition symbol_tokens :: "TokenType set" where
  "symbol_tokens = {TLParen, TRParen, TComma, TEq, TNeq, TStarts, TEqCi, TStartsCi, TGt, TGte, TLt, TLte}"

lemma next_token_symbol:
  assumes "t \<in> symbol_tokens" and "lx_chars (skip_whitespace lx0) = print_token t @ CHR '' '' # rest"
  shows "\<exists>tok lx'. next_token env lx0 = Inr (tok, lx') \<and> lx_chars lx' = CHR '' '' # rest \<and> token_type tok = t"
proof -
  let ?lx = "skip_whitespace lx0"
  obtain c cs where p: "c # cs = print_token t" "ascii c" and ac: "\<forall>d\<in>set cs. ascii d"
    using assms(1) by (cases t) (auto simp: symbol_tokens_def)
  from assms(2) p(1) have chars: "lx_chars ?lx = c # cs @ CHR '' '' # rest" by (metis append_Cons)
  have 1: "peek ?lx = Some [c]" "lx_chars (adv ?lx) = cs @ CHR '' '' # rest" using peek_ascii [of c ?lx] p(2) chars by simp_all
  have 2: "peek (adv ?lx) = Some [hd (cs @ '' '')]" "lx_chars (adv (adv ?lx)) = tl (cs @ CHR '' '' # rest)"
    using peek_ascii [of "hd (cs @ '' '')" "adv ?lx" "tl (cs @ CHR '' '' # rest)"] 1(2) ac by (cases cs; simp)+
  have 3: "2 \<le> length cs \<Longrightarrow> peek (adv (adv ?lx)) = Some [cs ! 1]" "2 \<le> length cs \<Longrightarrow> lx_chars (adv (adv (adv ?lx))) = drop 2 cs @ CHR '' '' # rest"
    using peek_ascii [of "cs ! 1" "adv (adv ?lx)" "drop 2 cs @ CHR '' '' # rest"] 2(2) ac
    by (cases cs; cases "tl cs"; simp)+
  from assms(1) 1 2 3 p(1) show ?thesis
    unfolding symbol_tokens_def
    by (elim insertE emptyE; simp add: next_token_def Let_def is_ascii_digit_def is_alphabetic_def is_ascii_def is_ascii_alphabetic_def)
qed

lemma next_token_printed:
  assumes "token_ok t" and "lex_at (skip_whitespace lx0)" and "lx_chars (skip_whitespace lx0) = print_token t @ CHR '' '' # rest"
  shows "\<exists>tok lx'. next_token env lx0 = Inr (tok, lx') \<and> lx_chars lx' = CHR '' '' # rest \<and> token_type tok = t"
proof -
  let ?lx = "skip_whitespace lx0"
  consider (symbol) "t \<in> symbol_tokens" | (keyword) "t \<in> {TAnd, TOr, TNot, TIn}" | (string) s where "t = TString s"
    | (number) w where "t = TNumber w" | (ident) s where "t = TIdent s"
    using assms(1) by (cases t) (auto simp: symbol_tokens_def)
  then show ?thesis
  proof cases
    case symbol
    from next_token_symbol [OF this assms(3)] show ?thesis .
  next
    case keyword
    from next_token_word [OF assms(2,3)] keyword_print [OF this, of env] show ?thesis by metis
  next
    case (string s)
    with assms(3) peek_ascii [of "CHR 0x22" ?lx] have q: "peek ?lx = Some [CHR 0x22]"
      "lx_chars (adv ?lx) = escape s @ CHR 0x22 # CHR '' '' # rest" by simp_all
    from string_loop_escape [OF _ q(2), of "current_position ?lx" "[]"] assms(1) string obtain lx' where
      "string_loop (current_position ?lx) [CHR 0x22] [] (adv ?lx) = Inr (s, lx')" "lx_chars lx' = CHR '' '' # rest" by auto
    with next_token_string [OF refl q(1), of env] string show ?thesis by (simp add: read_string_def Let_def)
  next
    case (number w)
    obtain c cs where d: "dec_str (unat (f64_as_u64 w)) = c # cs" by (cases "dec_str (unat (f64_as_u64 w))") auto
    with digits_ascii [of c "unat (f64_as_u64 w)"] have c: "is_ascii_digit [c]" "ascii c" by (auto simp: is_ascii_digit_def)
    with assms(3) number d peek_ascii [of c ?lx] have "peek ?lx = Some [c]" by simp
    from next_token_number [OF refl this c(1), of env] read_number_token [OF assms(2), of "unat (f64_as_u64 w)" rest] assms(1,3) number
    show ?thesis by auto
  next
    case (ident s)
    with assms(1) have i: "ident_ok s" by simp
    from next_token_word [OF assms(2), of s rest env] keyword_ident [OF i, of env] i assms(3) ident show ?thesis
      by (auto simp: ident_ok_def)
  qed
qed

lemma print_token_first: "token_ok t \<Longrightarrow> \<exists>c cs. print_token t = c # cs \<and> ascii c \<and> \<not> is_whitespace [c]"
proof (cases t)
  case (TNumber w)
  obtain c cs where d: "dec_str (unat (f64_as_u64 w)) = c # cs" by (cases "dec_str (unat (f64_as_u64 w))") auto
  with digits_ascii [of c "unat (f64_as_u64 w)"] TNumber show ?thesis by (auto simp: is_whitespace_def)
next
  case (TIdent s)
  assume "token_ok t"
  with TIdent show ?thesis by (cases s) (auto simp: ident_ok_def is_whitespace_def is_ascii_alphabetic_def)
qed (auto simp: is_whitespace_def)

text \<open>White space before a token is skipped, and only that.\<close>

lemma skip_to_token:
  assumes "set ws \<subseteq> {CHR '' ''}" and "lx_chars lx = ws @ c # rest" and "ascii c" and "\<not> is_whitespace [c]"
  shows "lx_chars (skip_whitespace lx) = c # rest"
  unfolding skip_whitespace_def using assms
  by (intro advance_while_over [of ws]) (auto simp: is_whitespace_def)

lemma skip_to_end: "set ws \<subseteq> {CHR '' ''} \<Longrightarrow> lx_chars lx = ws \<Longrightarrow> lx_chars (skip_whitespace lx) = []"
  unfolding skip_whitespace_def
proof (induction ws arbitrary: lx)
  case Nil
  then show ?case by (subst advance_while.simps) (simp add: peek_def)
next
  case (Cons c ws)
  then have "peek lx = Some [c]" "lx_chars (adv lx) = ws" "is_whitespace [c]" using peek_ascii [of c lx ws] by (auto simp: is_whitespace_def)
  with Cons.IH [of "adv lx"] Cons.prems show ?case by (subst advance_while.simps) simp
qed

lemma tokenize_printed:
  "list_all token_ok ts \<Longrightarrow> lex_at lx \<Longrightarrow> set ws \<subseteq> {CHR '' ''} \<Longrightarrow> lx_chars lx = ws @ print_tokens ts \<Longrightarrow>
    \<exists>tokens. tokenize env lx = Inr tokens \<and> map token_type tokens = ts @ [TEof]"
proof (induction ts arbitrary: lx ws)
  case Nil
  then have "lx_chars (skip_whitespace lx) = []" by (intro skip_to_end [of ws]) (simp_all add: print_tokens_def)
  then have "next_token env lx = Inr (\<lparr>token_type = TEof, position = current_position (skip_whitespace lx)\<rparr>, skip_whitespace lx)"
    by (simp add: next_token_def Let_def peek_def)
  then show ?case by (subst tokenize.simps) simp
next
  case (Cons t ts)
  from print_token_first [of t] Cons.prems(1) obtain c cs where c: "print_token t = c # cs" "ascii c" "\<not> is_whitespace [c]" by auto
  have "lx_chars (skip_whitespace lx) = c # cs @ CHR '' '' # print_tokens ts"
    using Cons.prems c by (intro skip_to_token [of ws]) (auto simp: print_tokens_def)
  then have chars: "lx_chars (skip_whitespace lx) = print_token t @ CHR '' '' # print_tokens ts" by (simp add: c(1))
  have at: "lex_at (skip_whitespace lx)" using Cons.prems(2) skip_whitespace_step by (rule lex_at_step)
  from next_token_printed [OF _ at chars, of env] Cons.prems(1) obtain tok lx' where
    n: "next_token env lx = Inr (tok, lx')" "lx_chars lx' = CHR '' '' # print_tokens ts" "token_type tok = t" by auto
  with next_token_found [OF n(1)] at have "lex_at lx'" by (blast intro: lex_at_step)
  with Cons.IH [of lx' "'' ''"] Cons.prems(1) n(2) obtain tokens where "tokenize env lx' = Inr tokens" "map token_type tokens = ts @ [TEof]" by auto
  moreover have "t \<noteq> TEof" using Cons.prems(1) by auto
  ultimately show ?case using n by (subst tokenize.simps) simp
qed

lemma field_ident_ok: "field_from_str f \<noteq> None \<Longrightarrow> ident_ok f"
  unfolding field_from_str_def
  by (simp split: if_split_asm) (simp_all add: ident_ok_def is_ascii_alphabetic_def ascii_upper_def char_of_eq_iff)

lemma value_token_ok: "value_ok env v \<Longrightarrow> token_ok (value_token v)"
  by (cases v) auto

lemma list_tokens_ok: "list_all (value_ok env) vs \<Longrightarrow> list_all token_ok (list_tokens vs)"
  by (induction vs rule: list_tokens.induct) (auto intro: value_token_ok)

lemma operator_token_ok: "token_ok (operator_token op)"
  by (cases op) auto

lemma paren_ok: "list_all token_ok (paren b ts) \<longleftrightarrow> list_all token_ok ts"
  by (simp add: paren_def)

lemma expr_tokens_ok: "expr_ok env e \<Longrightarrow> list_all token_ok (expr_tokens n e)"
proof (induction e arbitrary: n)
  case (Comparison f op v)
  then show ?case
    by (auto simp: field_ident_ok operator_token_ok intro: value_token_ok list_tokens_ok split: cql_value.splits if_splits)
qed (auto simp: paren_ok)

lemma cql_parse_printed:
  assumes "expr_ok env e"
  shows "cql_parse lenv env (print_query e) = Some (Inr \<lparr>cq_raw = print_query e, cq_ast = e\<rparr>)"
proof -
  let ?ts = "expr_tokens 0 e"
  have "lx_chars (lexer_new (print_query e)) = [] @ print_tokens ?ts" by (simp add: lexer_new_def print_query_def)
  from tokenize_printed [OF expr_tokens_ok [OF assms] lex_at_new _ this, of lenv] obtain tokens where
    t: "tokenize lenv (lexer_new (print_query e)) = Inr tokens" "map token_type tokens = ?ts @ [TEof]" by auto
  have g: "g_or env ?ts e" using g_expr_tokens [OF assms, of 0] by (simp add: g_level_def)
  with parse_tokens_exact [OF t(2) g_no_eof(1) [OF g], of env "print_query e"] t(1) show ?thesis by (simp add: cql_parse_def)
qed

section \<open>Numbers\<close>

lemma floorlog2_bounds:
  assumes "0 < n"
  shows "2 ^ (floorlog 2 n - 1) \<le> n" "n < 2 ^ floorlog 2 n" "0 < floorlog 2 n"
proof -
  show b: "2 ^ (floorlog 2 n - 1) \<le> n" "n < 2 ^ floorlog 2 n" using Log_Nat.floorlog_bounds [OF assms, of 2] by auto
  show "0 < floorlog 2 n" using b(2) assms by (cases "floorlog 2 n") auto
qed

lemma digits_val_append: "digits_val (s @ [c]) = digits_val s * 10 + (of_char c - 48)"
  by (simp add: digits_val_def)

lemma digits_val_dec_str: "digits_val (dec_str n) = n"
proof (induction n rule: dec_str.induct)
  case (1 n)
  have d: "of_char (digit_char k) - 48 = k" if "k < 10" for k :: nat
    using that by (simp add: digit_char_def of_char_of)
  show ?case
  proof (cases "n < 10")
    case True
    with d [of n] show ?thesis by (subst dec_str.simps) (simp add: digits_val_def)
  next
    case False
    with 1 d [of "n mod 10"] show ?thesis by (subst dec_str.simps) (simp add: digits_val_append)
  qed
qed

lemma parse_f64_dec_str: "parse_f64 (dec_str n) = of_nat (f64_of_ratio n 1)"
proof -
  have no: "c \<noteq> CHR ''-''" "c \<noteq> CHR ''.''" if "c \<in> set (dec_str n)" for c
    using digits_ascii [OF that] by auto
  then have "takeWhile (\<lambda>c. c \<noteq> CHR ''.'') (dec_str n) = dec_str n" "dropWhile (\<lambda>c. c \<noteq> CHR ''.'') (dec_str n) = []"
    by (simp_all add: takeWhile_eq_all_conv)
  moreover have "\<not> (case dec_str n of c # _ \<Rightarrow> c = CHR ''-'' | [] \<Rightarrow> False)" using no by (auto split: list.splits)
  ultimately show ?thesis by (simp only: parse_f64_def Let_def digits_val_dec_str if_False list.sel append_Nil2 list.size power_0 add_0)
qed

lemma f64_of_nat:
  assumes "0 < n" and "n < 2 ^ 53"
  shows "f64_of_ratio n 1 = (floorlog 2 n + 1021) * 2 ^ 52 + n * 2 ^ (53 - floorlog 2 n)"
proof -
  let ?k = "floorlog 2 n"
  note b = floorlog2_bounds [OF assms(1)]
  have k: "?k \<le> 53" using assms(2) by (intro floorlog_leI) auto
  have one: "floorlog 2 1 = 1" by (simp add: floorlog_def)
  have less: "n * 2 ^ (53 - ?k) < 2 ^ 53"
  proof -
    have "n * 2 ^ (53 - ?k) < 2 ^ ?k * 2 ^ (53 - ?k)" using b(2) by simp
    also have "\<dots> = 2 ^ 53" using k by (simp flip: power_add)
    finally show ?thesis .
  qed
  have nats: "nat (int ?k - 1) = ?k - 1" "nat (- (int ?k - 1)) = 0" "max (int ?k - 1 - 52) (- 1074) = int ?k - 53"
      "nat (- (int ?k - 53)) = 53 - ?k" "nat (int ?k - 53) = 0" "nat (int ?k - 53 + 1074) = ?k + 1021"
    using k b(3) by (auto simp: nat_diff_distrib)
  have "round_half_even m 1 = m" for m by (simp add: round_half_even_def)
  moreover have "(?k + 1021) * 2 ^ 52 + n * 2 ^ (53 - ?k) \<le> 2047 * 2 ^ 52"
  proof -
    have "(?k + 1021) * 2 ^ 52 + n * 2 ^ (53 - ?k) \<le> (53 + 1021) * 2 ^ 52 + 2 ^ 53"
      using k less by (intro add_mono mult_right_mono) auto
    also have "\<dots> \<le> 2047 * 2 ^ 52" by simp
    finally show ?thesis .
  qed
  ultimately show ?thesis
    using assms(1) b(1) unfolding f64_of_ratio_def one Let_def of_nat_1 nats
    by (simp only: nats power_0 mult_1 mult_1_right if_True if_False neq0_conv [symmetric] min_absorb1 simp_thms)
qed

lemma f64_as_u64_of_nat:
  assumes "n < 2 ^ 53"
  shows "f64_as_u64 (of_nat (f64_of_ratio n 1)) = of_nat n"
proof (cases "n = 0")
  case True
  then show ?thesis by (simp add: f64_of_ratio_def f64_as_u64_def)
next
  case False
  let ?k = "floorlog 2 n" and ?q = "n * 2 ^ (53 - floorlog 2 n)"
  from False have pos: "0 < n" by simp
  note b = floorlog2_bounds [OF pos]
  have k: "?k \<le> 53" using assms by (intro floorlog_leI) auto
  have less: "?q < 2 ^ 53"
  proof -
    have "?q < 2 ^ ?k * 2 ^ (53 - ?k)" using b(2) by simp
    also have "\<dots> = 2 ^ 53" using k by (simp flip: power_add)
    finally show ?thesis .
  qed
  have ge: "2 ^ 52 \<le> ?q"
  proof -
    have "(2 :: nat) ^ 52 = 2 ^ (?k - 1) * 2 ^ (53 - ?k)" using k b(3) by (simp flip: power_add)
    also have "\<dots> \<le> ?q" using b(1) by simp
    finally show ?thesis .
  qed
  obtain m where m: "m < 2 ^ 52" "?q = 2 ^ 52 + m"
    using that [of "?q - 2 ^ 52"] less ge by simp
  have v: "f64_of_ratio n 1 = (?k + 1022) * 2 ^ 52 + m"
    using f64_of_nat [OF pos assms] m(2) by simp
  have "(?k + 1022) * 2 ^ 52 + m < (53 + 1022) * 2 ^ 52 + 2 ^ 52" using k m(1) by (intro add_le_less_mono mult_right_mono) auto
  then have small: "f64_of_ratio n 1 < 2 ^ 63" using v by simp
  then have u: "unat (of_nat (f64_of_ratio n 1) :: u64) = (?k + 1022) * 2 ^ 52 + m"
    unfolding v [symmetric] unat_of_nat by (intro mod_less) (simp add: small less_trans [OF small])
  have split: "(a * 2 ^ 52 + r) div 2 ^ 52 = a \<and> (a * 2 ^ 52 + r) mod 2 ^ 52 = r" if "r < 2 ^ 52" for a r :: nat
    using that by simp
  have parts: "((?k + 1022) * 2 ^ 52 + m) div 2 ^ 63 = 0" "((?k + 1022) * 2 ^ 52 + m) div 2 ^ 52 mod 2 ^ 11 = ?k + 1022"
      "((?k + 1022) * 2 ^ 52 + m) mod 2 ^ 52 = m"
    using small [unfolded v] split [OF m(1), of "?k + 1022"] k by (simp_all only: div_less conj_absorb) simp_all
  have "f64_as_u64 (of_nat (f64_of_ratio n 1)) =
      (if 1075 \<le> ?k + 1022 then of_nat (?q * 2 ^ (?k + 1022 - 1075)) else of_nat (?q div 2 ^ (1075 - (?k + 1022))))"
    unfolding f64_as_u64_def u Let_def parts m(2) using k b(3) by simp
  moreover have "1075 - (?k + 1022) = 53 - ?k" by simp
  ultimately show ?thesis using k by (cases "?k = 53") simp_all
qed

lemma f64_rounds: "f64_as_u64 (of_nat (f64_of_ratio 9007199254740993 1)) = 9007199254740992"
proof -
  let ?n = "9007199254740993 :: nat"
  have "floorlog 2 ?n \<le> 54" by (intro floorlog_leI) auto
  moreover have "53 < floorlog 2 ?n"
  proof -
    have "(2 :: nat) ^ 53 \<le> ?n" by simp
    also have "?n < 2 ^ floorlog 2 ?n" by (intro floorlog2_bounds) simp
    finally show ?thesis by (rule power_less_imp_less_exp [rotated]) simp
  qed
  ultimately have k: "floorlog 2 ?n = 54" by simp
  have one: "floorlog 2 1 = 1" by (simp add: floorlog_def)
  have nats: "int 54 - int 1 = 53" "nat 53 = 53" "nat (- 53) = 0" "max (53 - 52) (- 1074) = (1 :: int)" "nat (- 1) = 0" "nat 1 = 1" "nat (1 + 1074) = 1075"
    by simp_all
  have cond: "1 * 2 ^ 53 \<le> ?n * 2 ^ 0 \<longleftrightarrow> True" by simp
  have zero: "?n = 0 \<longleftrightarrow> False" by simp
  have r: "round_half_even (?n * 2 ^ 0) (1 * 2 ^ 1) = 2 ^ 52"
  proof -
    have "?n * 2 ^ 0 div (1 * 2 ^ 1) = 4503599627370496" "?n * 2 ^ 0 mod (1 * 2 ^ 1) = 1" by simp_all
    then show ?thesis unfolding round_half_even_def Let_def by simp
  qed
  have "min (1075 * 2 ^ 52 + 2 ^ 52) (2047 * 2 ^ 52) = (1076 * 2 ^ 52 :: nat)" by simp
  then have "f64_of_ratio ?n 1 = 1076 * 2 ^ 52"
    unfolding f64_of_ratio_def k one Let_def nats cond zero if_True if_False r by (simp only: nats r)
  then show ?thesis by (simp add: f64_as_u64_def Let_def)
qed

section \<open>Search\<close>

lemma date_error: "parse_date_value env v = Inl err \<Longrightarrow> ce_error_type err = InvalidValue"
  by (cases v) (auto simp: parse_absolute_date_def parse_relative_date_def cql_err_def split: option.splits if_splits sum.splits)

lemma field_error_types:
  "execute_string_field lower op v ix f = Inl err \<Longrightarrow> ce_error_type err \<in> {InvalidOperator, InvalidValue}"
  "execute_id op v ix = Inl err \<Longrightarrow> ce_error_type err \<in> {InvalidOperator, InvalidValue}"
  "execute_label op v ix = Inl err \<Longrightarrow> ce_error_type err \<in> {InvalidOperator, InvalidValue}"
  "execute_trace_id op v ix = Inl err \<Longrightarrow> ce_error_type err \<in> {InvalidOperator, InvalidValue}"
  "execute_parent op v ix = Inl err \<Longrightarrow> ce_error_type err \<in> {InvalidOperator, InvalidValue}"
  "execute_root op v ix = Inl err \<Longrightarrow> ce_error_type err \<in> {InvalidOperator, InvalidValue}"
  "execute_created env op v ix = Inl err \<Longrightarrow> ce_error_type err \<in> {InvalidOperator, InvalidValue}"
  "execute_depth op v ix = Inl err \<Longrightarrow> ce_error_type err \<in> {InvalidOperator, InvalidValue}"
  "execute_is_live op v live ix = Inl err \<Longrightarrow> ce_error_type err \<in> {InvalidOperator, InvalidValue}"
  by (cases op; auto simp: exec_defs execute_string_field_def rbind_eq_Inl ok_or_eq_Inl Let_def expected_string_def expected_list_def
      expected_number_def bad_operator_def cql_err_def dest: date_error split: cql_value.splits if_splits)+

lemma execute_error_type:
  "execute env e ix live = Inl err \<Longrightarrow> expr_ok env e \<Longrightarrow> ce_error_type err \<in> {InvalidOperator, InvalidValue}"
proof (induction e)
  case (Comparison f op v)
  from Comparison.prems(2) obtain fl where "field_from_str f = Some fl" by auto
  with Comparison.prems(1) field_error_types [where err = err] show ?case
    by (cases fl) (simp_all add: execute_comparison_def)
qed (auto simp: rbind_eq_Inl)

section \<open>Properties\<close>

definition demo_lenv :: lex_env where
  "demo_lenv = \<lparr>lx_alphabetic = (\<lambda>_. False), lx_numeric = (\<lambda>_. False), lx_uppercase = id\<rparr>"

text \<open>The printed form of a query parses to the query: every syntax tree over valid fields, printed with
  parentheses only where precedence needs them, strings quoted and escaped, is returned by the parser.\<close>

theorem cql_print_parse:
  assumes "expr_ok env e"
  shows "cql_parse lenv env (print_query e) = Some (Inr \<lparr>cq_raw = print_query e, cq_ast = e\<rparr>)"
  using assms by (rule cql_parse_printed)

definition demo_query :: Expression where
  "demo_query = ExprAnd (ExprOr (Comparison ''tag'' Eq (VString [CHR 0x22, CHR 0xC3, CHR 0xA9])) (Comparison ''depth'' Gt (VNumber (parse_f64 ''7''))))
     (ExprNot (Comparison ''user'' In (VList [VString ''a'', VString ''b''])))"

lemma demo_query_ok: "expr_ok demo_env demo_query"
proof -
  have "rust_string [CHR 0x22, CHR 0xC3, CHR 0xA9]" "rust_string ''a''" "rust_string ''b''" by code_simp+
  moreover have "dec_str 7 = ''7''" by code_simp
  moreover have "f64_as_u64 (parse_f64 (dec_str 7)) = 7" using f64_as_u64_of_nat [of 7] by (simp add: parse_f64_dec_str)
  ultimately show ?thesis by (simp add: demo_query_def demo_env_def field_from_str_def)
qed

theorem cql_print_parse_witness:
  "cql_parse demo_lenv demo_env (print_query demo_query) = Some (Inr \<lparr>cq_raw = print_query demo_query, cq_ast = demo_query\<rparr>)"
  using cql_print_parse [OF demo_query_ok] .

text \<open>C28. The parser accepts exactly the grammar documented at the head of its file: a query string gives a
  syntax tree if and only if its tokens derive that tree, with \<^verbatim>\<open>OR\<close> below \<^verbatim>\<open>AND\<close> below \<^verbatim>\<open>NOT\<close>, both
  connectives associating to the left; and it returns on every input.\<close>

theorem cql_grammar_exact:
  "cql_parse lenv env input \<noteq> None \<and>
   (cql_parse lenv env input = Some (Inr q) \<longleftrightarrow> cq_raw q = input \<and>
     (\<exists>tokens. tokenize lenv (lexer_new input) = Inr tokens \<and> g_or env (butlast (map token_type tokens)) (cq_ast q)))"
proof (cases "tokenize lenv (lexer_new input)")
  case (Inl e)
  then show ?thesis by (simp add: cql_parse_def)
next
  case (Inr tokens)
  from tokenize_types [OF this] obtain ts where ts: "map token_type tokens = ts @ [TEof]" "TEof \<notin> set ts" by blast
  from parse_tokens_exact [OF ts, of env input q] parse_tokens_total [of env input tokens] Inr ts(1) show ?thesis
    by (simp add: cql_parse_def)
qed



text \<open>C24. A number in a query is a double: a natural number below \<open>2\<^sup>5\<^sup>3\<close> is read back exactly, so that
  \<^verbatim>\<open>id = n\<close> finds context \<open>n\<close>; the next odd number is not, and \<^verbatim>\<open>id = 9007199254740993\<close> asks for context
  9007199254740992.\<close>

theorem number_literals_53_bits:
  assumes "n < 2 ^ 53"
  shows "as_u64 (VNumber (parse_f64 (dec_str n))) = Some (of_nat n) \<and>
    as_u64 (VNumber (parse_f64 (dec_str 9007199254740993))) = Some 9007199254740992"
proof -
  from f64_rounds f64_as_u64_of_nat [OF assms] show ?thesis by (simp add: as_u64_def parse_f64_dec_str)
qed

theorem number_literals_53_bits_witness: "as_u64 (VNumber (parse_f64 (dec_str 9007199254740991))) = Some 9007199254740991"
  using number_literals_53_bits [of 9007199254740991] by simp



end
