(* ===== verification/Registry.thy ===== *)
theory Registry
  imports Json
begin

text \<open>
  The type registry (\<^verbatim>\<open>server/src/registry/mod.rs\<close>): bundles of type descriptors and enums, merged into one
  table of types.

  Deserialising a bundle (\<^verbatim>\<open>serde_json::from_slice\<close>) is a parameter.  The directory of the registry is the
  list of its files; opening takes them in the order in which \<^verbatim>\<open>read_dir\<close> yields them.  An error in
  the middle of \<^verbatim>\<open>ingest_bundle\<close> returns early from a method on \<^verbatim>\<open>&mut self\<close>: the model returns the
  registry as it stands then beside the error.  The maps of the registry itself are iterated over in the order of
  insertion, which only decides which of several missing enums an error names.
\<close>

section \<open>Data\<close>

record RendererSpec =
  rs_esm_url :: string
  rs_component :: "string option"
  rs_integrity :: "string option"

record FieldDef =
  fd_name :: string
  fd_field_type :: string
  fd_enum_ref :: "string option"
  fd_type_ref :: "string option"
  fd_optional :: "bool option"
  fd_items :: "json option"

record TypeVersion =
  tv_fields :: "(string \<times> FieldDef) list"
  tv_renderer :: "RendererSpec option"

record TypeEntry =
  te_versions :: "(string \<times> TypeVersion) list"

type_synonym enum_map = "(string \<times> string) list"

record RegistryBundle =
  rb_registry_version :: u32
  rb_bundle_id :: string
  rb_types :: "(string \<times> TypeEntry) list"
  rb_enums :: "(string \<times> enum_map) list"

datatype ItemsSpec = Simple string | Ref string

record FieldSpec =
  fs_name :: string
  fs_field_type :: string
  fs_enum_ref :: "string option"
  fs_type_ref :: "string option"
  fs_optional :: bool
  fs_items :: "ItemsSpec option"

record TypeVersionSpec =
  vs_version :: u32
  vs_fields :: "(u64 \<times> FieldSpec) list"
  vs_renderer :: "RendererSpec option"

record FieldSignature =
  sg_field_type :: string
  sg_enum_ref :: "string option"

record TypeSpec =
  ty_versions :: "(u32 \<times> TypeVersionSpec) list"
  ty_tag_schema :: "(u64 \<times> FieldSignature) list"

record Registry =
  rg_dir :: "(string \<times> bytes) list"
  rg_bundles :: "(string \<times> bytes) list"
  rg_types :: "(string \<times> TypeSpec) list"
  rg_enums :: "(string \<times> enum_map) list"
  rg_last_bundle_id :: "string option"

datatype PutOutcome = Created | AlreadyExists

type_synonym parse_bundle = "bytes \<Rightarrow> string + RegistryBundle"

section \<open>Versions\<close>

definition parse_version :: "string \<Rightarrow> u32 res" where
  "parse_version version = ok_or (InvalidInput ''invalid type version'') (parse_u32 version)"

definition items_spec :: "json option \<Rightarrow> ItemsSpec option" where
  "items_spec items =
     (case items of
        Some (JStr s) \<Rightarrow> Some (Simple s)
      | Some (JObj obj) \<Rightarrow>
          (case obj_get ''type'' obj of
             Some (JStr t) \<Rightarrow>
               if t = ''ref'' then (case obj_get ''ref'' obj of Some (JStr r) \<Rightarrow> Some (Ref r) | _ \<Rightarrow> None)
               else Some (Simple t)
           | _ \<Rightarrow> (case obj_get ''ref'' obj of Some (JStr r) \<Rightarrow> Some (Ref r) | _ \<Rightarrow> None))
      | _ \<Rightarrow> None)"

definition field_spec :: "FieldDef \<Rightarrow> FieldSpec" where
  "field_spec fd =
     \<lparr>fs_name = fd_name fd, fs_field_type = fd_field_type fd, fs_enum_ref = fd_enum_ref fd, fs_type_ref = fd_type_ref fd,
      fs_optional = (case fd_optional fd of Some b \<Rightarrow> b | None \<Rightarrow> False), fs_items = items_spec (fd_items fd)\<rparr>"

fun normalize_fields :: "(u64 \<times> FieldSpec) list \<Rightarrow> (string \<times> FieldDef) list \<Rightarrow> (u64 \<times> FieldSpec) list res" where
  "normalize_fields out [] = Inr out"
| "normalize_fields out ((tag_str, fd) # rest) =
     rbind (ok_or (InvalidInput ''invalid field tag'') (parse_u64 tag_str)) (\<lambda>tag.
       normalize_fields (hm_put tag (field_spec fd) out) rest)"

definition normalize_version :: "u32 \<Rightarrow> TypeVersion \<Rightarrow> TypeVersionSpec res" where
  "normalize_version version def =
     rbind (normalize_fields [] (tv_fields def)) (\<lambda>out.
       Inr \<lparr>vs_version = version, vs_fields = out, vs_renderer = tv_renderer def\<rparr>)"

section \<open>Merging\<close>

fun merge_enums :: "(string \<times> enum_map) list \<Rightarrow> (string \<times> enum_map) list \<Rightarrow> (string \<times> enum_map) list \<times> unit res" where
  "merge_enums enums [] = (enums, Inr ())"
| "merge_enums enums ((enum_id, mapping) # rest) =
     (case map_of enums enum_id of
        Some existing \<Rightarrow>
          if \<not> same_map existing mapping
          then (enums, Inl (InvalidInput (''enum '' @ enum_id @ '' already exists with different mapping'')))
          else merge_enums enums rest
      | None \<Rightarrow> merge_enums (hm_put enum_id mapping enums) rest)"

definition signature :: "FieldSpec \<Rightarrow> FieldSignature" where
  "signature field = \<lparr>sg_field_type = fs_field_type field, sg_enum_ref = fs_enum_ref field\<rparr>"

fun merge_tags :: "string \<Rightarrow> (u64 \<times> FieldSignature) list \<Rightarrow> (u64 \<times> FieldSpec) list \<Rightarrow>
    (u64 \<times> FieldSignature) list \<times> unit res" where
  "merge_tags type_id schema [] = (schema, Inr ())"
| "merge_tags type_id schema ((tag, field) # rest) =
     (case map_of schema tag of
        Some existing \<Rightarrow>
          if existing \<noteq> signature field
          then (schema, Inl (InvalidInput (''tag reuse conflict for type '' @ type_id @ '' tag '' @ dec_str (unat tag))))
          else merge_tags type_id schema rest
      | None \<Rightarrow> merge_tags type_id (hm_put tag (signature field) schema) rest)"

definition merge_version :: "string \<Rightarrow> TypeSpec \<Rightarrow> string \<Rightarrow> TypeVersion \<Rightarrow> TypeSpec \<times> unit res" where
  "merge_version type_id spec version_str version_def =
     (case rbind (parse_version version_str) (\<lambda>version. rbind (normalize_version version version_def) (\<lambda>n. Inr (version, n))) of
        Inl e \<Rightarrow> (spec, Inl e)
      | Inr (version, normalized) \<Rightarrow>
          (case map_of (ty_versions spec) version of
             Some existing \<Rightarrow>
               if \<not> same_map (vs_fields existing) (vs_fields normalized)
               then (spec, Inl (InvalidInput (''type '' @ type_id @ '' version '' @ dec_str (unat version) @ '' differs from existing'')))
               else if vs_renderer normalized \<noteq> None \<and> vs_renderer existing = None
               then (spec\<lparr>ty_versions := bt_put version (existing\<lparr>vs_renderer := vs_renderer normalized\<rparr>) (ty_versions spec)\<rparr>, Inr ())
               else (spec, Inr ())
           | None \<Rightarrow>
               (case merge_tags type_id (ty_tag_schema spec) (vs_fields normalized) of
                  (schema, Inl e) \<Rightarrow> (spec\<lparr>ty_tag_schema := schema\<rparr>, Inl e)
                | (schema, Inr _) \<Rightarrow>
                    (spec\<lparr>ty_tag_schema := schema, ty_versions := bt_put version normalized (ty_versions spec)\<rparr>, Inr ()))))"

fun merge_versions :: "string \<Rightarrow> TypeSpec \<Rightarrow> (string \<times> TypeVersion) list \<Rightarrow> TypeSpec \<times> unit res" where
  "merge_versions type_id spec [] = (spec, Inr ())"
| "merge_versions type_id spec ((version_str, version_def) # rest) =
     (case merge_version type_id spec version_str version_def of
        (spec', Inl e) \<Rightarrow> (spec', Inl e)
      | (spec', Inr _) \<Rightarrow> merge_versions type_id spec' rest)"

definition spec_or_new :: "(string \<times> TypeSpec) list \<Rightarrow> string \<Rightarrow> TypeSpec" where
  "spec_or_new types type_id =
     (case map_of types type_id of Some spec \<Rightarrow> spec | None \<Rightarrow> \<lparr>ty_versions = [], ty_tag_schema = []\<rparr>)"

fun merge_types :: "(string \<times> TypeSpec) list \<Rightarrow> (string \<times> TypeEntry) list \<Rightarrow> (string \<times> TypeSpec) list \<times> unit res" where
  "merge_types types [] = (types, Inr ())"
| "merge_types types ((type_id, type_entry) # rest) =
     (case merge_versions type_id (spec_or_new types type_id) (te_versions type_entry) of
        (spec, Inl e) \<Rightarrow> (hm_put type_id spec types, Inl e)
      | (spec, Inr _) \<Rightarrow> merge_types (hm_put type_id spec types) rest)"

text \<open>Every field with its type, version and tag, in the order of the three nested loops.\<close>

definition all_fields :: "(string \<times> TypeSpec) list \<Rightarrow> (string \<times> u32 \<times> u64 \<times> FieldSpec) list" where
  "all_fields types =
     concat (map (\<lambda>(type_id, spec). concat (map (\<lambda>(version, vs).
       map (\<lambda>(tag, field). (type_id, version, tag, field)) (vs_fields vs)) (ty_versions spec))) types)"

definition missing_enum :: "(string \<times> enum_map) list \<Rightarrow> FieldSpec \<Rightarrow> bool" where
  "missing_enum enums field = (case fs_enum_ref field of Some e \<Rightarrow> map_of enums e = None | None \<Rightarrow> False)"

definition check_enums :: "(string \<times> TypeSpec) list \<Rightarrow> (string \<times> enum_map) list \<Rightarrow> unit res" where
  "check_enums types enums =
     (case find (\<lambda>(_, _, _, field). missing_enum enums field) (all_fields types) of
        None \<Rightarrow> Inr ()
      | Some (type_id, version, tag, field) \<Rightarrow>
          Inl (InvalidInput (''missing enum '' @ the (fs_enum_ref field) @ '' for type '' @ type_id @
            '' version '' @ dec_str (unat version) @ '' tag '' @ dec_str (unat tag))))"

definition ingest_bundle :: "Registry \<Rightarrow> RegistryBundle \<Rightarrow> Registry \<times> unit res" where
  "ingest_bundle r bundle =
     (if rb_registry_version bundle = 0 then (r, Inl (InvalidInput ''registry_version must be > 0''))
      else case merge_enums (rg_enums r) (rb_enums bundle) of
        (enums, Inl e) \<Rightarrow> (r\<lparr>rg_enums := enums\<rparr>, Inl e)
      | (enums, Inr _) \<Rightarrow>
          (case merge_types (rg_types r) (rb_types bundle) of
             (types, Inl e) \<Rightarrow> (r\<lparr>rg_enums := enums, rg_types := types\<rparr>, Inl e)
           | (types, Inr _) \<Rightarrow> (r\<lparr>rg_enums := enums, rg_types := types\<rparr>, check_enums types enums)))"

section \<open>Registry\<close>

definition bundle_filename :: "string \<Rightarrow> string" where
  "bundle_filename bundle_id =
     ''bundle_'' @ map (\<lambda>c. if c = CHR ''/'' \<or> c = CHR '':'' \<or> c = CHR ''#'' then CHR ''_'' else c) bundle_id @ ''.json''"

definition put_bundle :: "parse_bundle \<Rightarrow> Registry \<Rightarrow> string \<Rightarrow> bytes \<Rightarrow> Registry \<times> PutOutcome res" where
  "put_bundle parse r bundle_id raw =
     (case map_of (rg_bundles r) bundle_id of
        Some existing \<Rightarrow>
          if existing = raw then (r, Inr AlreadyExists)
          else (r, Inl (InvalidInput ''bundle_id already exists with different content''))
      | None \<Rightarrow>
          (case parse raw of
             Inl e \<Rightarrow> (r, Inl (InvalidInput (''invalid json: '' @ e)))
           | Inr bundle \<Rightarrow>
               if rb_bundle_id bundle \<noteq> bundle_id then (r, Inl (InvalidInput ''bundle_id does not match path''))
               else
                 (case ingest_bundle r bundle of
                    (r1, Inl e) \<Rightarrow> (r1, Inl e)
                  | (r1, Inr _) \<Rightarrow>
                      (r1\<lparr>rg_dir := hm_put (bundle_filename bundle_id) raw (rg_dir r1),
                          rg_bundles := hm_put bundle_id raw (rg_bundles r1), rg_last_bundle_id := Some bundle_id\<rparr>,
                       Inr Created))))"

text \<open>\<^verbatim>\<open>Path::extension\<close> of a file name: what follows the last dot, unless that is its first character.\<close>

definition path_extension :: "string \<Rightarrow> string option" where
  "path_extension name =
     (let ext = rev (takeWhile (\<lambda>c. c \<noteq> CHR ''.'') (rev name))
      in if length ext + 1 < length name then Some ext else None)"

definition registry_new :: "(string \<times> bytes) list \<Rightarrow> Registry" where
  "registry_new dir = \<lparr>rg_dir = dir, rg_bundles = [], rg_types = [], rg_enums = [], rg_last_bundle_id = None\<rparr>"

fun open_loop :: "parse_bundle \<Rightarrow> Registry \<Rightarrow> (string \<times> bytes) list \<Rightarrow> Registry res" where
  "open_loop parse r [] = Inr r"
| "open_loop parse r ((name, raw) # files) =
     (if path_extension name \<noteq> Some ''json'' then open_loop parse r files
      else
        (case parse raw of
           Inl e \<Rightarrow> Inl (Corrupt (''invalid bundle json: '' @ e))
         | Inr bundle \<Rightarrow>
             (case ingest_bundle r bundle of
                (_, Inl e) \<Rightarrow> Inl e
              | (r1, Inr _) \<Rightarrow>
                  open_loop parse (r1\<lparr>rg_bundles := hm_put (rb_bundle_id bundle) raw (rg_bundles r1),
                    rg_last_bundle_id := Some (rb_bundle_id bundle)\<rparr>) files)))"

definition registry_open :: "parse_bundle \<Rightarrow> (string \<times> bytes) list \<Rightarrow> Registry res" where
  "registry_open parse dir = open_loop parse (registry_new dir) dir"

definition get_bundle :: "Registry \<Rightarrow> string \<Rightarrow> bytes option" where
  "get_bundle r bundle_id = map_of (rg_bundles r) bundle_id"

definition last_bundle_id :: "Registry \<Rightarrow> string option" where
  "last_bundle_id r = rg_last_bundle_id r"

definition get_type_version :: "Registry \<Rightarrow> string \<Rightarrow> u32 \<Rightarrow> TypeVersionSpec option" where
  "get_type_version r type_id version =
     (case map_of (rg_types r) type_id of None \<Rightarrow> None | Some spec \<Rightarrow> map_of (ty_versions spec) version)"

definition last_entry :: "('k \<times> 'v) list \<Rightarrow> 'v option" where
  "last_entry xs = (if xs = [] then None else Some (snd (last xs)))"

definition get_latest_type_version :: "Registry \<Rightarrow> string \<Rightarrow> TypeVersionSpec option" where
  "get_latest_type_version r type_id =
     (case map_of (rg_types r) type_id of None \<Rightarrow> None | Some spec \<Rightarrow> last_entry (ty_versions spec))"

definition get_enum :: "Registry \<Rightarrow> string \<Rightarrow> enum_map option" where
  "get_enum r enum_id = map_of (rg_enums r) enum_id"

record RegistryStats =
  rt_bundles_total :: nat
  rt_types_total :: nat
  rt_enums_total :: nat

definition registry_stats :: "Registry \<Rightarrow> RegistryStats" where
  "registry_stats r =
     \<lparr>rt_bundles_total = length (rg_bundles r), rt_types_total = length (rg_types r), rt_enums_total = length (rg_enums r)\<rparr>"

definition get_all_renderers :: "Registry \<Rightarrow> (string \<times> RendererSpec) list" where
  "get_all_renderers r =
     foldl (\<lambda>result (type_id, spec).
       case Option.bind (last_entry (ty_versions spec)) vs_renderer of
         Some renderer \<Rightarrow> hm_put type_id renderer result
       | None \<Rightarrow> result) [] (rg_types r)"

end
