(* ===== verification/Projection.thy ===== *)
theory Projection
  imports Registry Msgpack Floats
begin

text \<open>
  Typed JSON views of MessagePack payloads (\<^verbatim>\<open>server/src/projection/mod.rs\<close>).

  The encoders of the crates \<^verbatim>\<open>base64\<close> and \<^verbatim>\<open>hex\<close>, the calendar of \<^verbatim>\<open>chrono\<close> and the MessagePack decoder
  are the record \<open>render_env\<close>.  Type references may be recursive; the functions return because every
  reference is followed into a part of the value.
\<close>

section \<open>Options\<close>

datatype BytesRender = BR_Base64 | BR_Hex | BR_LenOnly
datatype U64Format = UF_String | UF_Number
datatype EnumRender = ER_Label | ER_Number | ER_Both
datatype TimeRender = TR_Iso | TR_UnixMs

record RenderOptions =
  bytes_render :: BytesRender
  u64_format :: U64Format
  enum_render :: EnumRender
  time_render :: TimeRender
  include_unknown :: bool

record ProjectionResult =
  pj_data :: json
  pj_unknown :: "json option"

record render_env =
  re_read_value :: read_value
  re_base64 :: "bytes \<Rightarrow> string"
  re_hex :: "bytes \<Rightarrow> string"
  re_rfc3339 :: "int \<Rightarrow> string option"

section \<open>Values\<close>

definition int_to_u64 :: "int \<Rightarrow> u64 option" where
  "int_to_u64 i =
     (case int_as_u64 i of
        Some u \<Rightarrow> Some u
      | None \<Rightarrow> Option.bind (int_as_i64 i) (\<lambda>v. if 0 \<le> v then Some (of_int v) else None))"

fun value_to_u64 :: "mp \<Rightarrow> u64 option" where
  "value_to_u64 (MInt i) = int_to_u64 i"
| "value_to_u64 _ = None"

fun value_to_i64 :: "mp \<Rightarrow> int option" where
  "value_to_i64 (MInt i) =
     (case int_as_i64 i of
        Some v \<Rightarrow> Some v
      | None \<Rightarrow> Option.bind (int_as_u64 i) (\<lambda>u. if uint u \<le> 2 ^ 63 - 1 then Some (uint u) else None))"
| "value_to_i64 _ = None"

fun tag_of_key :: "mp \<Rightarrow> u64 option" where
  "tag_of_key (MInt i) = int_to_u64 i"
| "tag_of_key (MStr s) = Option.bind (from_utf8 s) parse_u64"
| "tag_of_key _ = None"

definition tag_map :: "(mp \<times> mp) list \<Rightarrow> (u64 \<times> mp) list" where
  "tag_map kvs = foldl (\<lambda>out (k, v). case tag_of_key k of Some tag \<Rightarrow> hm_put tag v out | None \<Rightarrow> out) [] kvs"

definition normalize_tags :: "mp \<Rightarrow> (u64 \<times> mp) list res" where
  "normalize_tags value = (case value of MMap kvs \<Rightarrow> Inr (tag_map kvs) | _ \<Rightarrow> Inl (InvalidInput ''payload is not a map''))"

section \<open>Rendering without a type\<close>

definition u64_str :: "u64 \<Rightarrow> string" where
  "u64_str u = dec_str (unat u)"

definition render_u64_raw :: "RenderOptions \<Rightarrow> u64 \<Rightarrow> json" where
  "render_u64_raw opts u = (case u64_format opts of UF_String \<Rightarrow> JStr (u64_str u) | UF_Number \<Rightarrow> JInt (uint u))"

definition render_bytes :: "render_env \<Rightarrow> RenderOptions \<Rightarrow> mp \<Rightarrow> json" where
  "render_bytes env opts value =
     (case value of
        MBin b \<Rightarrow>
          (case bytes_render opts of
             BR_Base64 \<Rightarrow> JStr (re_base64 env b)
           | BR_Hex \<Rightarrow> JStr (re_hex env b)
           | BR_LenOnly \<Rightarrow> JInt (int (length b)))
      | _ \<Rightarrow> JNull)"

definition json_f64 :: "u64 \<Rightarrow> json" where
  "json_f64 w = (if f64_is_finite w then JFloat w else JInt 0)"

definition str_or_empty :: "bytes \<Rightarrow> string" where
  "str_or_empty s = unwrap_or [] (from_utf8 s)"

definition map_key :: "mp \<Rightarrow> string" where
  "map_key k =
     (case k of
        MStr s \<Rightarrow> str_or_empty s
      | MInt i \<Rightarrow> unwrap_or [] (map_option u64_str (int_as_u64 i))
      | _ \<Rightarrow> [])"

lemma size_snd_less: "(k, v) \<in> set kvs \<Longrightarrow> size v < size (MMap kvs)"
  by (induction kvs) auto

lemma size_elem_less: "v \<in> set vs \<Longrightarrow> size v < size (MArr vs)"
  by (induction vs) auto

function render_value :: "render_env \<Rightarrow> RenderOptions \<Rightarrow> mp \<Rightarrow> json" where
  "render_value env opts value =
     (case value of
        MNil \<Rightarrow> JNull
      | MBool b \<Rightarrow> JBool b
      | MInt i \<Rightarrow>
          (case int_as_u64 i of
             Some u \<Rightarrow> render_u64_raw opts u
           | None \<Rightarrow> (case int_as_i64 i of Some v \<Rightarrow> JInt v | None \<Rightarrow> JNull))
      | MF32 f \<Rightarrow> json_f64 (f32_as_f64 f)
      | MF64 f \<Rightarrow> json_f64 f
      | MStr s \<Rightarrow> JStr (str_or_empty s)
      | MBin _ \<Rightarrow> render_bytes env opts value
      | MArr arr \<Rightarrow> JList (map (render_value env opts) arr)
      | MMap kvs \<Rightarrow> JObj (foldl (\<lambda>obj (k, v). bt_put (map_key k) (render_value env opts v) obj) [] kvs)
      | MExt _ _ \<Rightarrow> JNull)"
  by pat_completeness auto
termination
  by (relation "measure (\<lambda>(env, opts, v). size v)") (auto dest: size_snd_less size_elem_less)

declare render_value.simps [simp del]

fun render_string :: "mp \<Rightarrow> json" where
  "render_string (MStr s) = JStr (str_or_empty s)"
| "render_string _ = JNull"

fun render_bool :: "mp \<Rightarrow> json" where
  "render_bool (MBool b) = JBool b"
| "render_bool _ = JNull"

definition render_int :: "mp \<Rightarrow> json" where
  "render_int value = (case value_to_i64 value of Some i \<Rightarrow> JInt i | None \<Rightarrow> JNull)"

definition render_u64 :: "RenderOptions \<Rightarrow> mp \<Rightarrow> json" where
  "render_u64 opts value = (case value_to_u64 value of Some u \<Rightarrow> render_u64_raw opts u | None \<Rightarrow> JNull)"

definition render_time :: "render_env \<Rightarrow> RenderOptions \<Rightarrow> mp \<Rightarrow> json" where
  "render_time env opts value =
     (case value_to_i64 value of
        None \<Rightarrow> JNull
      | Some ms \<Rightarrow>
          (case time_render opts of
             TR_UnixMs \<Rightarrow> JInt ms
           | TR_Iso \<Rightarrow> (case re_rfc3339 env ms of Some s \<Rightarrow> JStr s | None \<Rightarrow> JNull)))"

section \<open>Rendering with a type\<close>

definition render_enum :: "Registry \<Rightarrow> RenderOptions \<Rightarrow> FieldSpec \<Rightarrow> mp \<Rightarrow> json option" where
  "render_enum reg opts field value =
     Option.bind (fs_enum_ref field) (\<lambda>enum_ref.
     Option.bind (value_to_u64 value) (\<lambda>num.
     Option.bind (get_enum reg enum_ref) (\<lambda>m.
     Option.bind (map_of m (u64_str num)) (\<lambda>label.
       Some (case enum_render opts of
               ER_Label \<Rightarrow> JStr label
             | ER_Number \<Rightarrow> JInt (uint num)
             | ER_Both \<Rightarrow> JObj [(''label'', JStr label), (''value'', JInt (uint num))])))))"

definition unknown_tags :: "render_env \<Rightarrow> RenderOptions \<Rightarrow> TypeVersionSpec \<Rightarrow> (u64 \<times> mp) list \<Rightarrow> (string \<times> json) list" where
  "unknown_tags env opts descriptor m =
     foldl (\<lambda>unknown (tag, val).
       if map_of (vs_fields descriptor) tag \<noteq> None then unknown else bt_put (u64_str tag) (render_value env opts val) unknown) [] m"

definition item_field :: "string \<Rightarrow> FieldSpec" where
  "item_field item_type =
     \<lparr>fs_name = [], fs_field_type = item_type, fs_enum_ref = None, fs_type_ref = None, fs_optional = False, fs_items = None\<rparr>"

lemma tag_map_values: "(tag, v) \<in> set (tag_map kvs) \<Longrightarrow> \<exists>k. (k, v) \<in> set kvs"
proof -
  have "(tag, v) \<in> set (foldl (\<lambda>out (k, v). case tag_of_key k of Some tag \<Rightarrow> hm_put tag v out | None \<Rightarrow> out) acc kvs) \<Longrightarrow>
      (tag, v) \<in> set acc \<or> (\<exists>k. (k, v) \<in> set kvs)" for acc
  proof (induction kvs arbitrary: acc)
    case (Cons kv kvs)
    obtain k w where kv: "kv = (k, w)" by fastforce
    have "set (hm_put t w acc) \<subseteq> insert (t, w) (set acc)" for t by (induction acc) (auto simp: hm_put_def)
    with Cons.IH Cons.prems kv show ?case by (fastforce split: option.splits)
  qed simp
  then show "(tag, v) \<in> set (tag_map kvs) \<Longrightarrow> \<exists>k. (k, v) \<in> set kvs" unfolding tag_map_def by fastforce
qed

lemma normalize_tags_size: "normalize_tags value = Inr m \<Longrightarrow> map_of m tag = Some v \<Longrightarrow> size v < size value"
  by (auto simp: normalize_tags_def split: mp.splits dest!: map_of_SomeD tag_map_values dest: size_snd_less)

function render_field_value :: "render_env \<Rightarrow> Registry \<Rightarrow> RenderOptions \<Rightarrow> FieldSpec \<Rightarrow> mp \<Rightarrow> json"
  and render_type_ref :: "render_env \<Rightarrow> Registry \<Rightarrow> RenderOptions \<Rightarrow> string \<Rightarrow> mp \<Rightarrow> json"
  and render_array :: "render_env \<Rightarrow> Registry \<Rightarrow> RenderOptions \<Rightarrow> ItemsSpec option \<Rightarrow> mp \<Rightarrow> json" where
  "render_field_value env reg opts field value =
     (case render_enum reg opts field value of
        Some j \<Rightarrow> j
      | None \<Rightarrow>
     (let ty = fs_field_type field
      in if fs_type_ref field \<noteq> None \<and> (ty = ''ref'' \<or> ty = ''map'')
         then render_type_ref env reg opts (the (fs_type_ref field)) value
         else if ty \<in> {''u64'', ''uint64'', ''i64'', ''int64''} then render_u64 opts value
         else if ty \<in> {''u32'', ''uint32'', ''u8'', ''uint8'', ''int32''} then render_int value
         else if ty = ''string'' then render_string value
         else if ty = ''bool'' then render_bool value
         else if ty \<in> {''bytes'', ''typed_blob''} then render_bytes env opts value
         else if ty = ''array'' then render_array env reg opts (fs_items field) value
         else if ty \<in> {''unix_ms'', ''time_ms'', ''timestamp_ms''} then render_time env opts value
         else render_value env opts value))"
| "render_type_ref env reg opts type_ref value =
     (case get_latest_type_version reg type_ref of
        None \<Rightarrow> render_value env opts value
      | Some type_spec \<Rightarrow>
     (case normalize_tags value of
        Inl _ \<Rightarrow> render_value env opts value
      | Inr m \<Rightarrow>
          let data = foldl (\<lambda>data (tag, field).
                case map_of m tag of
                  Some val \<Rightarrow> bt_put (fs_name field) (render_field_value env reg opts field val) data
                | None \<Rightarrow> data) [] (vs_fields type_spec);
              unknown = unknown_tags env opts type_spec m
          in JObj (if include_unknown opts \<and> unknown \<noteq> [] then bt_put ''_unknown'' (JObj unknown) data else data)))"
| "render_array env reg opts items value =
     (case value of
        MArr arr \<Rightarrow>
          JList (map (\<lambda>item.
            case items of
              Some (Simple item_type) \<Rightarrow> render_field_value env reg opts (item_field item_type) item
            | Some (Ref type_ref) \<Rightarrow> render_type_ref env reg opts type_ref item
            | None \<Rightarrow> render_value env opts item) arr)
      | _ \<Rightarrow> JNull)"
  by pat_completeness auto
termination
proof (relation "inv_image (less_than <*lex*> less_than) (case_sum (\<lambda>(env, reg, opts, field, v). (size v, 1))
    (case_sum (\<lambda>(env, reg, opts, t, v). (size v, 0)) (\<lambda>(env, reg, opts, items, v). (size v, 0))))", goal_cases)
  case 1
  show ?case by auto
qed (auto dest: normalize_tags_size size_elem_less)

declare render_field_value.simps [simp del] render_type_ref.simps [simp del] render_array.simps [simp del]

definition project_msgpack ::
    "render_env \<Rightarrow> bytes \<Rightarrow> TypeVersionSpec \<Rightarrow> Registry \<Rightarrow> RenderOptions \<Rightarrow> ProjectionResult res" where
  "project_msgpack env payload descriptor reg opts =
     (case re_read_value env payload of
        Inl e \<Rightarrow> Inl (InvalidInput (''msgpack decode error: '' @ e))
      | Inr value \<Rightarrow>
          rbind (normalize_tags value) (\<lambda>m.
            let data = foldl (\<lambda>data (tag, field).
                  case map_of m tag of
                    Some val \<Rightarrow> bt_put (fs_name field) (render_field_value env reg opts field val) data
                  | None \<Rightarrow> data) [] (vs_fields descriptor)
            in Inr \<lparr>pj_data = JObj data,
                    pj_unknown = (if include_unknown opts then Some (JObj (unknown_tags env opts descriptor m)) else None)\<rparr>))"

end
