(* ===== verification/Registry_Props.thy ===== *)
theory Registry_Props
  imports Registry
begin

text \<open>
  Properties of the type registry: what is published never changes, the type of a tag is the same in all versions of
  a type, what each outcome of a publication means, and two ways in which an accepted or a refused
  bundle harms the registry.
\<close>

section \<open>Merging\<close>

definition spec_ok :: "TypeSpec \<Rightarrow> bool" where
  "spec_ok spec \<longleftrightarrow> sorted_wrt (<) (map fst (ty_versions spec)) \<and>
     (\<forall>v vs. map_of (ty_versions spec) v = Some vs \<longrightarrow> vs_version vs = v \<and>
        (\<forall>tag f. map_of (vs_fields vs) tag = Some f \<longrightarrow> map_of (ty_tag_schema spec) tag = Some (signature f)))"

text \<open>A version of a type with the fields \<open>F\<close>.\<close>

definition spec_has :: "TypeSpec \<Rightarrow> u32 \<Rightarrow> (u64 \<rightharpoonup> FieldSpec) \<Rightarrow> bool" where
  "spec_has spec v F \<longleftrightarrow> (\<exists>vs. map_of (ty_versions spec) v = Some vs \<and> map_of (vs_fields vs) = F)"

lemma map_le_fresh: "m k = None \<Longrightarrow> m(k \<mapsto> v) \<subseteq>\<^sub>m m' \<Longrightarrow> m \<subseteq>\<^sub>m m' \<and> m' k = Some v"
  by (auto simp: map_le_def dom_def split: if_splits)

lemma merge_tags_extends:
  "merge_tags t schema fs = (schema', r) \<Longrightarrow> map_of schema \<subseteq>\<^sub>m map_of schema' \<and>
    (r = Inr () \<longrightarrow> (\<forall>(tag, f)\<in>set fs. map_of schema' tag = Some (signature f)))"
proof (induction t schema fs arbitrary: schema' r rule: merge_tags.induct)
  case (2 t schema tag f rest)
  show ?case
  proof (cases "map_of schema tag")
    case None
    with "2.prems" have "merge_tags t (hm_put tag (signature f) schema) rest = (schema', r)" by simp
    note IH = "2.IH"(1) [OF None this, unfolded map_of_hm_put]
    from map_le_fresh [OF _ conjunct1 [OF IH]] None have "map_of schema \<subseteq>\<^sub>m map_of schema'" "map_of schema' tag = Some (signature f)" by blast+
    with IH show ?thesis by auto
  next
    case (Some ex)
    show ?thesis
    proof (cases "ex = signature f")
      case True
      with "2.prems" Some "2.IH"(2) [OF Some, of schema' r] show ?thesis by (auto simp: map_le_def dom_def)
    next
      case False
      with "2.prems" Some show ?thesis by auto
    qed
  qed
qed auto

lemma spec_ok_upd:
  assumes "spec_ok spec" and "map_of (ty_tag_schema spec) \<subseteq>\<^sub>m map_of schema" and "vs_version vs = v"
    and "\<And>tag f. map_of (vs_fields vs) tag = Some f \<Longrightarrow> map_of schema tag = Some (signature f)"
  shows "spec_ok (spec\<lparr>ty_tag_schema := schema, ty_versions := bt_put v vs (ty_versions spec)\<rparr>)"
  using assms unfolding spec_ok_def by (auto simp: sorted_bt_put map_le_def dom_def)

lemma merge_version_ok:
  assumes "spec_ok spec" and "merge_version t spec vstr def = (spec', r)"
  shows "spec_ok spec' \<and> (\<forall>v F. spec_has spec v F \<longrightarrow> spec_has spec' v F) \<and>
    (r = Inr () \<longrightarrow> (\<exists>v n. parse_version vstr = Inr v \<and> normalize_version v def = Inr n \<and> spec_has spec' v (map_of (vs_fields n))))"
proof (cases "rbind (parse_version vstr) (\<lambda>version. rbind (normalize_version version def) (\<lambda>n. Inr (version, n)))")
  case (Inl e)
  with assms show ?thesis by (auto simp: merge_version_def)
next
  case (Inr x)
  obtain v n where x: "parse_version vstr = Inr v" "normalize_version v def = Inr n"
      "rbind (parse_version vstr) (\<lambda>version. rbind (normalize_version version def) (\<lambda>n. Inr (version, n))) = Inr (v, n)"
    using Inr by auto
  then have nv: "vs_version n = v" by (auto simp: normalize_version_def)
  show ?thesis
  proof (cases "map_of (ty_versions spec) v")
    case (Some ex)
    show ?thesis
    proof (cases "same_map (vs_fields ex) (vs_fields n)")
      case False
      with assms Some x show ?thesis by (auto simp: merge_version_def)
    next
      case True
      let ?ex = "ex\<lparr>vs_renderer := vs_renderer n\<rparr>"
      from assms(1) Some have ex: "vs_version ?ex = v" "\<And>tag f. map_of (vs_fields ?ex) tag = Some f \<Longrightarrow> map_of (ty_tag_schema spec) tag = Some (signature f)"
        by (auto simp: spec_ok_def)
      have upd: "spec_ok (spec\<lparr>ty_versions := bt_put v ?ex (ty_versions spec)\<rparr>)"
        using spec_ok_upd [OF assms(1) _ ex] by simp
      from True assms Some x upd show ?thesis
        by (auto simp: merge_version_def spec_has_def same_map_iff split: if_splits)
    qed
  next
    case None
    obtain schema q where m: "merge_tags t (ty_tag_schema spec) (vs_fields n) = (schema, q)" by fastforce
    note ext = merge_tags_extends [OF m]
    show ?thesis
    proof (cases q)
      case (Inl e)
      with m None x assms ext show ?thesis by (auto simp: merge_version_def spec_has_def spec_ok_def map_le_def dom_def)
    next
      case (Inr u)
      with ext have sig: "map_of schema tag = Some (signature f)" if "map_of (vs_fields n) tag = Some f" for tag f
        using that by (auto dest: map_of_SomeD)
      from spec_ok_upd [OF assms(1) _ nv sig] ext Inr m None x assms show ?thesis
        by (auto simp: merge_version_def spec_has_def)
    qed
  qed
qed

lemma merge_versions_ok:
  "spec_ok spec \<Longrightarrow> merge_versions t spec vs = (spec', r) \<Longrightarrow>
    spec_ok spec' \<and> (\<forall>v F. spec_has spec v F \<longrightarrow> spec_has spec' v F) \<and>
    (r = Inr () \<longrightarrow> (\<forall>(vstr, def)\<in>set vs. \<exists>v n. parse_version vstr = Inr v \<and> normalize_version v def = Inr n \<and>
      spec_has spec' v (map_of (vs_fields n))))"
proof (induction t spec vs rule: merge_versions.induct)
  case (2 t spec vstr def rest)
  obtain spec1 q where m: "merge_version t spec vstr def = (spec1, q)" by fastforce
  note one = merge_version_ok [OF "2.prems"(1) m]
  show ?case
  proof (cases q)
    case (Inl e)
    with m "2.prems"(2) one show ?thesis by auto
  next
    case (Inr u)
    with m "2.prems"(2) have rest: "merge_versions t spec1 rest = (spec', r)" by simp
    note IH = "2.IH" [OF m [symmetric] Inr conjunct1 [OF one] rest]
    from one IH Inr show ?thesis by fastforce
  qed
qed simp

definition types_ok :: "(string \<times> TypeSpec) list \<Rightarrow> bool" where
  "types_ok types \<longleftrightarrow> distinct (map fst types) \<and> (\<forall>t spec. map_of types t = Some spec \<longrightarrow> spec_ok spec)"

definition has_version :: "(string \<times> TypeSpec) list \<Rightarrow> string \<Rightarrow> u32 \<Rightarrow> (u64 \<rightharpoonup> FieldSpec) \<Rightarrow> bool" where
  "has_version types t v F \<longleftrightarrow> (\<exists>spec. map_of types t = Some spec \<and> spec_has spec v F)"

lemma spec_or_new_ok:
  "types_ok types \<Longrightarrow> spec_ok (spec_or_new types t)" "has_version types t v F \<Longrightarrow> spec_has (spec_or_new types t) v F"
  by (auto simp: spec_or_new_def types_ok_def spec_ok_def has_version_def split: option.splits)

lemma merge_types_ok:
  "types_ok types \<Longrightarrow> merge_types types es = (types', r) \<Longrightarrow>
    types_ok types' \<and> (\<forall>t v F. has_version types t v F \<longrightarrow> has_version types' t v F) \<and>
    (r = Inr () \<longrightarrow> (\<forall>(t, e)\<in>set es. \<forall>(vstr, def)\<in>set (te_versions e). \<exists>v n. parse_version vstr = Inr v \<and>
      normalize_version v def = Inr n \<and> has_version types' t v (map_of (vs_fields n))))"
proof (induction types es rule: merge_types.induct)
  case (2 types t e rest)
  obtain spec q where m: "merge_versions t (spec_or_new types t) (te_versions e) = (spec, q)" by fastforce
  note one = merge_versions_ok [OF spec_or_new_ok(1) [OF "2.prems"(1)] m]
  let ?types = "hm_put t spec types"
  have ok1: "types_ok ?types" using one "2.prems"(1) by (auto simp: types_ok_def distinct_hm_put)
  have kept: "has_version ?types t' v F" if "has_version types t' v F" for t' v F
    using that one spec_or_new_ok(2) [of types t v F] by (auto simp: has_version_def)
  show ?case
  proof (cases q)
    case (Inl err)
    with m "2.prems"(2) ok1 kept show ?thesis by auto
  next
    case (Inr u)
    with m "2.prems"(2) have rest: "merge_types ?types rest = (types', r)" by simp
    note IH = "2.IH" [OF m [symmetric] Inr ok1 rest]
    have "\<exists>v n. parse_version vstr = Inr v \<and> normalize_version v def = Inr n \<and> has_version ?types t v (map_of (vs_fields n))"
      if "(vstr, def) \<in> set (te_versions e)" for vstr def
      using that one Inr by (fastforce simp: has_version_def)
    with IH kept show ?thesis by fastforce
  qed
qed simp

lemma merge_enums_ok:
  "merge_enums enums es = (enums', r) \<Longrightarrow> map_of enums \<subseteq>\<^sub>m map_of enums' \<and>
    (\<forall>e. map_of enums e = None \<longrightarrow> e \<notin> fst ` set es \<longrightarrow> map_of enums' e = None)"
proof (induction enums es rule: merge_enums.induct)
  case (2 enums e mapping rest)
  show ?case
  proof (cases "map_of enums e")
    case None
    with "2.prems" have "merge_enums (hm_put e mapping enums) rest = (enums', r)" by simp
    note IH = "2.IH"(1) [OF None this, unfolded map_of_hm_put]
    from map_le_fresh [OF _ conjunct1 [OF IH]] None have "map_of enums \<subseteq>\<^sub>m map_of enums'" by blast
    with IH show ?thesis by auto
  next
    case (Some ex)
    with "2.prems" "2.IH"(2) [OF Some] show ?thesis by (auto split: if_splits)
  qed
qed simp

text \<open>The check after a merge looks at every field of every version.\<close>

lemma check_enums_missing:
  assumes "has_version types t v F" and "F tag = Some f" and "missing_enum enums f"
  shows "\<exists>msg. check_enums types enums = Inl (InvalidInput msg)"
proof -
  from assms(1,2) obtain spec vs where "map_of types t = Some spec" "map_of (ty_versions spec) v = Some vs" "map_of (vs_fields vs) tag = Some f"
    by (auto simp: has_version_def spec_has_def)
  then have m: "(t, spec) \<in> set types" "(v, vs) \<in> set (ty_versions spec)" "(tag, f) \<in> set (vs_fields vs)" by (auto dest: map_of_SomeD)
  let ?g = "\<lambda>t v. \<lambda>(tag, field). (t, v, tag, field)"
  have "(t, v, tag, f) \<in> set (map (?g t v) (vs_fields vs))" using m(3) by force
  with m(2) have "(t, v, tag, f) \<in> set (concat (map (\<lambda>(v, vs). map (?g t v) (vs_fields vs)) (ty_versions spec)))" by auto
  with m(1) have "(t, v, tag, f) \<in> set (all_fields types)" unfolding all_fields_def by (simp only: set_concat set_map UN_iff image_image) (rule bexI [of _ "(t, spec)"], simp_all)
  with assms(3) have "find (\<lambda>(_, _, _, field). missing_enum enums field) (all_fields types) \<noteq> None"
    by (auto simp: find_None_iff)
  then show ?thesis by (auto simp: check_enums_def)
qed

lemma check_enums_ok:
  "check_enums types enums = Inr () \<Longrightarrow> has_version types t v F \<Longrightarrow> F tag = Some f \<Longrightarrow> \<not> missing_enum enums f"
  using check_enums_missing by fastforce

section \<open>The registry\<close>

definition reg_inv :: "Registry \<Rightarrow> bool" where
  "reg_inv r \<longleftrightarrow> types_ok (rg_types r) \<and> distinct (map fst (rg_bundles r))"

text \<open>What no publication takes back.\<close>

definition reg_kept :: "Registry \<Rightarrow> Registry \<Rightarrow> bool" where
  "reg_kept r r' \<longleftrightarrow> (\<forall>t v F. has_version (rg_types r) t v F \<longrightarrow> has_version (rg_types r') t v F) \<and>
     map_of (rg_enums r) \<subseteq>\<^sub>m map_of (rg_enums r')"

lemma ingest_ok:
  assumes "reg_inv r" and "ingest_bundle r b = (r', q)"
  shows "reg_inv r' \<and> reg_kept r r' \<and> rg_bundles r' = rg_bundles r \<and> rg_dir r' = rg_dir r \<and> rg_last_bundle_id r' = rg_last_bundle_id r \<and>
    (\<forall>e. map_of (rg_enums r) e = None \<longrightarrow> e \<notin> fst ` set (rb_enums b) \<longrightarrow> map_of (rg_enums r') e = None) \<and>
    (q = Inr () \<longrightarrow> (\<forall>t v F tag f. has_version (rg_types r') t v F \<longrightarrow> F tag = Some f \<longrightarrow> \<not> missing_enum (rg_enums r') f) \<and>
      (\<forall>(t, e)\<in>set (rb_types b). \<forall>(vstr, def)\<in>set (te_versions e). \<exists>v n. parse_version vstr = Inr v \<and>
        normalize_version v def = Inr n \<and> has_version (rg_types r') t v (map_of (vs_fields n))))"
proof (cases "rb_registry_version b = 0")
  case True
  with assms show ?thesis by (auto simp: ingest_bundle_def reg_kept_def)
next
  case False
  obtain enums p where e: "merge_enums (rg_enums r) (rb_enums b) = (enums, p)" by fastforce
  note eo = merge_enums_ok [OF e]
  obtain types s where t: "merge_types (rg_types r) (rb_types b) = (types, s)" by fastforce
  have "types_ok (rg_types r)" using assms(1) by (simp add: reg_inv_def)
  note to = merge_types_ok [OF this t]
  show ?thesis
  proof (cases p)
    case (Inl err)
    with False e eo assms show ?thesis by (auto simp: ingest_bundle_def reg_kept_def reg_inv_def)
  next
    case (Inr u)
    show ?thesis
    proof (cases s)
      case (Inl err)
      with False e eo t to Inr assms show ?thesis by (auto simp: ingest_bundle_def reg_kept_def reg_inv_def)
    next
      case (Inr w)
      with False e t \<open>p = Inr u\<close> assms(2) have r': "r' = r\<lparr>rg_enums := enums, rg_types := types\<rparr>" "q = check_enums types enums"
        by (auto simp: ingest_bundle_def)
      from r' eo to Inr assms(1) check_enums_ok show ?thesis
        by (fastforce simp: reg_kept_def reg_inv_def)
    qed
  qed
qed

text \<open>The registries that can arise: opened from any directory, then any publications, accepted or not.\<close>

inductive reg_reach :: "parse_bundle \<Rightarrow> Registry \<Rightarrow> bool" for parse where
  opened: "registry_open parse dir = Inr r \<Longrightarrow> reg_reach parse r"
| published: "reg_reach parse r \<Longrightarrow> put_bundle parse r bundle_id raw = (r', res) \<Longrightarrow> reg_reach parse r'"

lemma reg_inv_bundles: "reg_inv r \<Longrightarrow> reg_inv (r\<lparr>rg_dir := d, rg_bundles := hm_put k v (rg_bundles r), rg_last_bundle_id := l\<rparr>)"
  by (simp add: reg_inv_def distinct_hm_put)

lemma reg_inv_open_loop: "reg_inv r \<Longrightarrow> open_loop parse r files = Inr r' \<Longrightarrow> reg_inv r'"
proof (induction parse r files rule: open_loop.induct)
  case (2 parse r name raw files)
  show ?case
  proof (cases "path_extension name = Some ''json''")
    case False
    with "2.IH"(1) "2.prems" show ?thesis by simp
  next
    case True
    with "2.prems" obtain b where b: "parse raw = Inr b" by (auto split: sum.splits)
    obtain r1 q where i: "ingest_bundle r b = (r1, q)" by fastforce
    with True b "2.prems" obtain u where q: "q = Inr u" by (cases q) auto
    let ?r = "r1\<lparr>rg_bundles := hm_put (rb_bundle_id b) raw (rg_bundles r1), rg_last_bundle_id := Some (rb_bundle_id b)\<rparr>"
    from ingest_ok [OF "2.prems"(1) i] have "reg_inv r1" by blast
    then have "reg_inv ?r" by (simp add: reg_inv_def distinct_hm_put)
    moreover from True b i q "2.prems" have "open_loop parse ?r files = Inr r'" by simp
    ultimately show ?thesis using "2.IH"(2) [OF _ b i [symmetric] q] True by simp
  qed
qed simp

lemma put_bundle_cases:
  assumes "put_bundle parse r i raw = (r', res)"
  obtains (same) "map_of (rg_bundles r) i = Some raw" "r' = r" "res = Inr AlreadyExists"
  | (other) x where "map_of (rg_bundles r) i = Some x" "x \<noteq> raw" "r' = r" "\<exists>e. res = Inl e"
  | (bad) "map_of (rg_bundles r) i = None" "r' = r" "\<exists>e. res = Inl e" "\<forall>b. parse raw = Inr b \<longrightarrow> rb_bundle_id b \<noteq> i"
  | (refused) b e where "map_of (rg_bundles r) i = None" "parse raw = Inr b" "rb_bundle_id b = i" "ingest_bundle r b = (r', Inl e)" "res = Inl e"
  | (created) b r1 where "map_of (rg_bundles r) i = None" "parse raw = Inr b" "rb_bundle_id b = i" "ingest_bundle r b = (r1, Inr ())"
      "r' = r1\<lparr>rg_dir := hm_put (bundle_filename i) raw (rg_dir r1), rg_bundles := hm_put i raw (rg_bundles r1), rg_last_bundle_id := Some i\<rparr>"
      "res = Inr Created"
proof (cases "map_of (rg_bundles r) i")
  case (Some x)
  with assms show ?thesis by (cases "x = raw") (auto simp: put_bundle_def intro: same other)
next
  case None
  show ?thesis
  proof (cases "\<exists>b. parse raw = Inr b \<and> rb_bundle_id b = i")
    case False
    with None assms show ?thesis by (intro bad) (auto simp: put_bundle_def split: sum.splits if_splits)
  next
    case True
    then obtain b where b: "parse raw = Inr b" "rb_bundle_id b = i" by blast
    obtain r1 q where i: "ingest_bundle r b = (r1, q)" by fastforce
    with None b assms show ?thesis by (cases q) (auto simp: put_bundle_def intro: refused created)
  qed
qed

lemma put_bundle_inv:
  assumes "reg_inv r" and "put_bundle parse r i raw = (r', res)"
  shows "reg_inv r' \<and> reg_kept r r' \<and> map_of (rg_bundles r) \<subseteq>\<^sub>m map_of (rg_bundles r')"
  using assms(2)
proof (cases rule: put_bundle_cases)
  case (refused b e)
  with ingest_ok [OF assms(1) refused(4)] show ?thesis by simp
next
  case (created b r1)
  with ingest_ok [OF assms(1) created(4)] show ?thesis
    by (auto simp: reg_inv_def distinct_hm_put reg_kept_def map_le_def)
qed (use assms(1) in \<open>simp_all add: reg_kept_def\<close>)

lemma reg_reach_inv: "reg_reach parse r \<Longrightarrow> reg_inv r"
proof (induction rule: reg_reach.induct)
  case (opened dir r)
  have "reg_inv (registry_new dir)" by (simp add: registry_new_def reg_inv_def types_ok_def)
  then show ?case using opened unfolding registry_open_def by (rule reg_inv_open_loop)
next
  case (published r i raw r' res)
  with put_bundle_inv show ?case by blast
qed

lemma ingest_dangling:
  assumes "reg_inv r" and "has_version (rg_types r) t v F" and "F tag = Some f" and "fs_enum_ref f = Some e"
    and "map_of (rg_enums r) e = None" and "e \<notin> fst ` set (rb_enums b)" and "ingest_bundle r b = (r', q)"
  shows "\<exists>err. q = Inl err"
proof (cases q)
  case (Inr u)
  note ok = ingest_ok [OF assms(1,7)]
  then have "has_version (rg_types r') t v F" "map_of (rg_enums r') e = None" using assms(2,5,6) by (auto simp: reg_kept_def)
  with ok Inr assms(3,4) show ?thesis by (fastforce simp: missing_enum_def)
qed simp

section \<open>Demonstration\<close>

definition demo_field :: FieldDef where
  "demo_field = \<lparr>fd_name = ''role'', fd_field_type = ''u8'', fd_enum_ref = Some ''E'', fd_type_ref = None, fd_optional = None, fd_items = None\<rparr>"

text \<open>Bundle 1 uses the enum \<open>E\<close>, bundle 2 declares it, the others are empty; the bytes name the bundle.\<close>

definition demo_parse :: parse_bundle where
  "demo_parse raw =
     (if raw = [1] then Inr \<lparr>rb_registry_version = 1, rb_bundle_id = ''a/b'',
        rb_types = [(''T'', \<lparr>te_versions = [(''1'', \<lparr>tv_fields = [(''1'', demo_field)], tv_renderer = None\<rparr>)]\<rparr>)], rb_enums = []\<rparr>
      else if raw = [2] then Inr \<lparr>rb_registry_version = 1, rb_bundle_id = ''e'', rb_types = [], rb_enums = [(''E'', [(''1'', ''user'')])]\<rparr>
      else if raw = [3] then Inr \<lparr>rb_registry_version = 1, rb_bundle_id = ''a:b'', rb_types = [], rb_enums = []\<rparr>
      else Inl ''expected value'')"

definition rdemo0 :: Registry where
  "rdemo0 = registry_new []"

lemma rdemo0_reach: "reg_reach demo_parse rdemo0"
  by (rule reg_reach.opened [of _ "[]"]) (simp add: registry_open_def rdemo0_def)

definition rdemo_enum :: Registry where
  "rdemo_enum = fst (put_bundle demo_parse rdemo0 ''e'' [2])"

definition rdemo_both :: Registry where
  "rdemo_both = fst (put_bundle demo_parse rdemo_enum ''a/b'' [1])"

definition rdemo_bad :: Registry where
  "rdemo_bad = fst (put_bundle demo_parse rdemo0 ''a/b'' [1])"

lemma reg_reach_put: "reg_reach parse r \<Longrightarrow> reg_reach parse (fst (put_bundle parse r i raw))"
  by (metis prod.collapse reg_reach.published)

lemma rdemo_reach: "reg_reach demo_parse rdemo_enum" "reg_reach demo_parse rdemo_both" "reg_reach demo_parse rdemo_bad"
  unfolding rdemo_both_def rdemo_enum_def rdemo_bad_def using rdemo0_reach by (blast intro: reg_reach_put)+

lemma parse_one: "parse_u64 ''1'' = Some 1" "parse_u32 ''1'' = Some 1"
  by (simp_all add: parse_u64_def parse_u32_def parse_uint_def digit_val_def)

lemmas rdemo_defs = rdemo_both_def rdemo_enum_def rdemo_bad_def rdemo0_def registry_new_def put_bundle_def demo_parse_def
  ingest_bundle_def hm_put_def merge_version_def parse_version_def parse_one normalize_version_def spec_or_new_def
  check_enums_def all_fields_def missing_enum_def demo_field_def field_spec_def signature_def

lemma rdemo_eval:
  "snd (put_bundle demo_parse rdemo0 ''e'' [2]) = Inr Created"
  "snd (put_bundle demo_parse rdemo_enum ''a/b'' [1]) = Inr Created"
  "get_type_version rdemo_both ''T'' 1 \<noteq> None"
  "rg_dir rdemo_both = [(bundle_filename ''e'', [2]), (bundle_filename ''a/b'', [1])]"
  by (simp_all add: rdemo_defs get_type_version_def bundle_filename_def)

lemma refused_keeps_type:
  "\<exists>err F f. put_bundle demo_parse rdemo0 ''a/b'' [1] = (rdemo_bad, Inl err) \<and>
    has_version (rg_types rdemo_bad) ''T'' 1 F \<and> F 1 = Some f \<and> fs_enum_ref f = Some ''E'' \<and> map_of (rg_enums rdemo_bad) ''E'' = None"
  by (simp add: rdemo_defs has_version_def spec_has_def)

section \<open>Properties\<close>

text \<open>C33. A tag never changes its type: in every registry, however its bundles were loaded and whatever publications
  failed in between, any two versions of a type that both have a field with some tag give it the same type and
  the same enum.\<close>

theorem registry_tags_stable:
  assumes "reg_reach parse r"
    and "get_type_version r type_id v = Some a" and "get_type_version r type_id w = Some b"
    and "map_of (vs_fields a) tag = Some f" and "map_of (vs_fields b) tag = Some g"
  shows "fs_field_type f = fs_field_type g \<and> fs_enum_ref f = fs_enum_ref g"
proof -
  from reg_reach_inv [OF assms(1)] have "types_ok (rg_types r)" by (simp add: reg_inv_def)
  moreover from assms(2,3) obtain spec where s: "map_of (rg_types r) type_id = Some spec"
      "map_of (ty_versions spec) v = Some a" "map_of (ty_versions spec) w = Some b"
    by (auto simp: get_type_version_def split: option.splits)
  ultimately have "spec_ok spec" by (simp add: types_ok_def)
  with s(2,3) assms(4,5) have "map_of (ty_tag_schema spec) tag = Some (signature f)" "map_of (ty_tag_schema spec) tag = Some (signature g)"
    unfolding spec_ok_def by blast+
  then have "signature f = signature g" by simp
  then show ?thesis by (simp add: signature_def)
qed

theorem registry_tags_stable_witness:
  "\<exists>a f. get_type_version rdemo_both ''T'' 1 = Some a \<and> map_of (vs_fields a) 1 = Some f \<and> fs_field_type f = fs_field_type f \<and> fs_enum_ref f = Some ''E''"
proof -
  obtain a f where a: "get_type_version rdemo_both ''T'' 1 = Some a" "map_of (vs_fields a) 1 = Some f" "fs_enum_ref f = Some ''E''"
    by (simp add: rdemo_defs get_type_version_def)
  from registry_tags_stable [OF rdemo_reach(2) a(1,1) a(2,2)] a show ?thesis by blast
qed

text \<open>What a publication does.  Published again, a bundle is recognised and nothing changes; other content under
  the same id is refused and nothing changes; an accepted bundle is stored under its id and in its file, becomes the
  last one, and every enum that some field refers to is declared.  Whatever the outcome, no stored bundle,
  no enum and no field of a published type version changes.\<close>

theorem put_bundle_outcomes:
  assumes "reg_reach parse r" and "put_bundle parse r i raw = (r', res)"
  shows "(get_bundle r i = Some raw \<longrightarrow> r' = r \<and> res = Inr AlreadyExists) \<and>
    (\<forall>x. get_bundle r i = Some x \<longrightarrow> x \<noteq> raw \<longrightarrow> r' = r \<and> (\<exists>e. res = Inl e)) \<and>
    (res = Inr Created \<longrightarrow> get_bundle r i = None \<and> get_bundle r' i = Some raw \<and> last_bundle_id r' = Some i \<and>
      map_of (rg_dir r') (bundle_filename i) = Some raw \<and>
      (\<forall>t v vs tag f e. get_type_version r' t v = Some vs \<longrightarrow> map_of (vs_fields vs) tag = Some f \<longrightarrow> fs_enum_ref f = Some e \<longrightarrow>
        get_enum r' e \<noteq> None)) \<and>
    (\<forall>j x. get_bundle r j = Some x \<longrightarrow> get_bundle r' j = Some x) \<and>
    (\<forall>e m. get_enum r e = Some m \<longrightarrow> get_enum r' e = Some m) \<and>
    (\<forall>t v vs. get_type_version r t v = Some vs \<longrightarrow>
      (\<exists>vs'. get_type_version r' t v = Some vs' \<and> map_of (vs_fields vs') = map_of (vs_fields vs)))"
proof -
  note inv = reg_reach_inv [OF assms(1)]
  note kept = put_bundle_inv [OF inv assms(2)]
  have gtv: "has_version (rg_types s) t v F \<longleftrightarrow> (\<exists>vs. get_type_version s t v = Some vs \<and> map_of (vs_fields vs) = F)" for s t v F
    by (auto simp: has_version_def spec_has_def get_type_version_def split: option.splits)
  have versions: "\<exists>vs'. get_type_version r' t v = Some vs' \<and> map_of (vs_fields vs') = map_of (vs_fields vs)"
    if "get_type_version r t v = Some vs" for t v vs
    using that kept unfolding reg_kept_def gtv by blast
  have maps: "get_bundle r j = Some x \<Longrightarrow> get_bundle r' j = Some x" "get_enum r e = Some m \<Longrightarrow> get_enum r' e = Some m" for j x e m
    using kept by (auto simp: get_bundle_def get_enum_def reg_kept_def map_le_def dom_def)
  have created: "get_bundle r i = None \<and> get_bundle r' i = Some raw \<and> last_bundle_id r' = Some i \<and>
      map_of (rg_dir r') (bundle_filename i) = Some raw \<and>
      (\<forall>t v vs tag f e. get_type_version r' t v = Some vs \<longrightarrow> map_of (vs_fields vs) tag = Some f \<longrightarrow> fs_enum_ref f = Some e \<longrightarrow>
        get_enum r' e \<noteq> None)" if "res = Inr Created"
    using assms(2)
  proof (cases rule: put_bundle_cases)
    case (created b r1)
    from ingest_ok [OF inv created(4)] have enums: "\<not> missing_enum (rg_enums r1) f"
      if "get_type_version r1 t v = Some vs" "map_of (vs_fields vs) tag = Some f" for t v vs tag f
      using that gtv by blast
    have "get_type_version r' = get_type_version r1" "get_enum r' = get_enum r1"
      using created(5) by (auto simp: get_type_version_def get_enum_def fun_eq_iff)
    moreover have "get_enum r1 e \<noteq> None" if "get_type_version r1 t v = Some vs" "map_of (vs_fields vs) tag = Some f" "fs_enum_ref f = Some e" for t v vs tag f e
      using enums [OF that(1,2)] that(3) by (simp add: missing_enum_def get_enum_def)
    ultimately show ?thesis using created(1,5) by (simp add: get_bundle_def last_bundle_id_def)
  qed (use that in auto)
  have "get_bundle r i = Some raw \<longrightarrow> r' = r \<and> res = Inr AlreadyExists" "\<forall>x. get_bundle r i = Some x \<longrightarrow> x \<noteq> raw \<longrightarrow> r' = r \<and> (\<exists>e. res = Inl e)"
    using assms(2) by (auto simp: get_bundle_def put_bundle_def)
  with created maps versions show ?thesis by blast
qed

theorem put_bundle_outcomes_witness:
  "get_bundle rdemo_both ''a/b'' = Some [1] \<and> get_bundle rdemo_both ''e'' = Some [2] \<and> last_bundle_id rdemo_both = Some ''a/b''"
proof -
  have p: "put_bundle demo_parse rdemo_enum ''a/b'' [1] = (rdemo_both, Inr Created)"
    using rdemo_eval(2) by (simp add: rdemo_both_def prod_eq_iff)
  have "get_bundle rdemo_enum ''e'' = Some [2]" by (simp add: rdemo_defs get_bundle_def)
  with put_bundle_outcomes [OF rdemo_reach(1) p] show ?thesis by blast
qed

text \<open>A bundle refused because a field refers to an enum that no bundle declares is nevertheless merged, and from then
  on the registry refuses every other bundle that does not declare that enum, until the server is restarted.\<close>

theorem dangling_enum_blocks_registry:
  assumes "reg_reach parse r" and "get_type_version r t v = Some vs" and "map_of (vs_fields vs) tag = Some f"
    and "fs_enum_ref f = Some e" and "get_enum r e = None"
    and "get_bundle r i = None" and "parse raw = Inr b" and "e \<notin> fst ` set (rb_enums b)"
  shows "\<exists>err. snd (put_bundle parse r i raw) = Inl err"
proof -
  obtain r' res where p: "put_bundle parse r i raw = (r', res)" by fastforce
  have h: "has_version (rg_types r) t v (map_of (vs_fields vs))"
    using assms(2) by (auto simp: has_version_def spec_has_def get_type_version_def split: option.splits)
  from p show ?thesis
  proof (cases rule: put_bundle_cases)
    case (created b' r1)
    with ingest_dangling [OF reg_reach_inv [OF assms(1)] h assms(3,4)] assms(5-8) show ?thesis by (auto simp: get_enum_def)
  qed (use assms(6) p in \<open>auto simp: get_bundle_def\<close>)
qed

theorem dangling_enum_blocks_registry_witness:
  "\<exists>err err'. put_bundle demo_parse rdemo0 ''a/b'' [1] = (rdemo_bad, Inl err) \<and> snd (put_bundle demo_parse rdemo_bad ''a:b'' [3]) = Inl err' \<and>
    snd (put_bundle demo_parse rdemo0 ''a:b'' [3]) = Inr Created"
proof -
  from refused_keeps_type obtain err F f where r: "put_bundle demo_parse rdemo0 ''a/b'' [1] = (rdemo_bad, Inl err)"
      "has_version (rg_types rdemo_bad) ''T'' 1 F" "F 1 = Some f" "fs_enum_ref f = Some ''E''" "map_of (rg_enums rdemo_bad) ''E'' = None" by blast
  then obtain vs where "get_type_version rdemo_bad ''T'' 1 = Some vs" "map_of (vs_fields vs) 1 = Some f"
    by (auto simp: has_version_def spec_has_def get_type_version_def)
  moreover have "get_bundle rdemo_bad ''a:b'' = None" by (simp add: rdemo_defs get_bundle_def)
  moreover have "demo_parse [3] = Inr \<lparr>rb_registry_version = 1, rb_bundle_id = ''a:b'', rb_types = [], rb_enums = []\<rparr>" by (simp add: demo_parse_def)
  ultimately have "\<exists>err'. snd (put_bundle demo_parse rdemo_bad ''a:b'' [3]) = Inl err'"
    using dangling_enum_blocks_registry [OF rdemo_reach(3)] r(4,5) by (simp add: get_enum_def)
  moreover have "snd (put_bundle demo_parse rdemo0 ''a:b'' [3]) = Inr Created" by (simp add: rdemo_defs)
  ultimately show ?thesis using r(1) by blast
qed

text \<open>The registry is not a function of its directory.  A bundle that uses an enum of another bundle cannot be loaded
  before it, and the order is that of the directory listing: with the user first, opening fails, though both were
  accepted when they were published.\<close>

theorem registry_open_order:
  assumes "path_extension name = Some ''json''" and "parse raw = Inr b"
    and "(t, entry) \<in> set (rb_types b)" and "(vstr, def) \<in> set (te_versions entry)"
    and "parse_version vstr = Inr v" and "normalize_version v def = Inr n" and "map_of (vs_fields n) tag = Some f"
    and "fs_enum_ref f = Some e" and "e \<notin> fst ` set (rb_enums b)"
  shows "\<exists>err. registry_open parse ((name, raw) # files) = Inl err"
proof -
  let ?r = "registry_new ((name, raw) # files)"
  have inv: "reg_inv ?r" and none: "map_of (rg_enums ?r) e = None" by (simp_all add: registry_new_def reg_inv_def types_ok_def)
  obtain r1 q where i: "ingest_bundle ?r b = (r1, q)" by fastforce
  note ok = ingest_ok [OF inv i]
  have "\<exists>err. q = Inl err"
  proof (cases q)
    case (Inr u)
    with ok assms(3-6) have "has_version (rg_types r1) t v (map_of (vs_fields n))" by fastforce
    moreover have "missing_enum (rg_enums r1) f" using ok none assms(8,9) by (simp add: missing_enum_def)
    moreover have "q = Inr ()" using Inr by (cases u) simp
    ultimately show ?thesis using ok assms(7) by blast
  qed simp
  with i assms(1,2) show ?thesis by (auto simp: registry_open_def)
qed

theorem registry_open_order_witness:
  "(\<exists>err. registry_open demo_parse (rev (rg_dir rdemo_both)) = Inl err) \<and> (\<exists>r. registry_open demo_parse (rg_dir rdemo_both) = Inr r)"
proof -
  have ext: "path_extension (bundle_filename ''a/b'') = Some ''json''" "path_extension (bundle_filename ''e'') = Some ''json''"
    by (simp_all add: path_extension_def bundle_filename_def)
  obtain n f where n: "normalize_version 1 \<lparr>tv_fields = [(''1'', demo_field)], tv_renderer = None\<rparr> = Inr n" "map_of (vs_fields n) 1 = Some f"
      "fs_enum_ref f = Some ''E''"
    by (simp add: normalize_version_def parse_one hm_put_def demo_field_def field_spec_def)
  have "\<exists>err. registry_open demo_parse ((bundle_filename ''a/b'', [1]) # [(bundle_filename ''e'', [2])]) = Inl err"
    by (rule registry_open_order [where t = "''T''" and vstr = "''1''" and entry = "\<lparr>te_versions = [(''1'', \<lparr>tv_fields = [(''1'', demo_field)], tv_renderer = None\<rparr>)]\<rparr>",
          OF ext(1) _ _ _ _ n]) (simp add: demo_parse_def, simp_all add: parse_version_def parse_one)
  moreover have "\<exists>r. registry_open demo_parse [(bundle_filename ''e'', [2]), (bundle_filename ''a/b'', [1])] = Inr r"
    by (simp add: registry_open_def ext rdemo_defs)
  ultimately show ?thesis by (simp add: rdemo_eval(4))
qed

end
