(* ===== verification/Projection_Props.thy ===== *)
theory Projection_Props
  imports Projection Registry_Props
begin

text \<open>
  Properties of the projection: a typed view shows every tag of the payload exactly once, under the name its type gives
  it or among the unknown tags, and what becomes of 64-bit integers.
\<close>

lemma u64_str_inj: "u64_str a = u64_str b \<longleftrightarrow> a = b"
  unfolding u64_str_def by (metis option.inject parse_u64_dec_str)

section \<open>Members of the views\<close>

definition data_members :: "(FieldSpec \<Rightarrow> mp \<Rightarrow> json) \<Rightarrow> (u64 \<times> mp) list \<Rightarrow> (u64 \<times> FieldSpec) list \<Rightarrow> (string \<times> json) list \<Rightarrow> (string \<times> json) list" where
  "data_members render m fs acc = foldl (\<lambda>data (tag, field).
     case map_of m tag of Some val \<Rightarrow> bt_put (fs_name field) (render field val) data | None \<Rightarrow> data) acc fs"

lemma data_members_other:
  "name \<notin> fs_name ` snd ` set fs \<Longrightarrow> map_of (data_members render m fs acc) name = map_of acc name"
  unfolding data_members_def by (induction fs arbitrary: acc) (auto split: option.split)

lemma data_members_field:
  "(tag, field) \<in> set fs \<Longrightarrow> distinct (map (fs_name \<circ> snd) fs) \<Longrightarrow> map_of m tag = Some v \<Longrightarrow>
    map_of (data_members render m fs acc) (fs_name field) = Some (render field v)"
proof (induction fs arbitrary: acc)
  case (Cons x fs)
  obtain t g where x: "x = (t, g)" by fastforce
  have step: "data_members render m (x # fs) acc = data_members render m fs
      (case map_of m t of Some val \<Rightarrow> bt_put (fs_name g) (render g val) acc | None \<Rightarrow> acc)"
    by (simp add: data_members_def x)
  show ?case
  proof (cases "(tag, field) = x")
    case True
    with Cons.prems x have "fs_name field \<notin> fs_name ` snd ` set fs" by (auto simp: image_comp)
    from data_members_other [OF this, of render m] True x Cons.prems(3) show ?thesis unfolding step by simp
  next
    case False
    with Cons show ?thesis by (simp add: step)
  qed
qed simp

lemma data_members_from:
  "map_of (data_members render m fs acc) name = Some j \<Longrightarrow> map_of acc name = Some j \<or>
    (\<exists>tag field v. (tag, field) \<in> set fs \<and> name = fs_name field \<and> map_of m tag = Some v \<and> j = render field v)"
  unfolding data_members_def
proof (induction fs arbitrary: acc)
  case (Cons x fs)
  obtain t g where x: "x = (t, g)" by fastforce
  from Cons.IH [OF Cons.prems [unfolded foldl_Cons]] x show ?case by (fastforce split: option.splits if_splits)
qed simp

lemma unknown_members:
  assumes "distinct (map fst m)"
  shows "map_of (unknown_tags env opts d m) (u64_str tag) =
    (if map_of (vs_fields d) tag = None then map_option (render_value env opts) (map_of m tag) else None)"
proof -
  have "map_of (foldl (\<lambda>unknown (tag, val). if map_of (vs_fields d) tag \<noteq> None then unknown
        else bt_put (u64_str tag) (render_value env opts val) unknown) acc xs) (u64_str tag) =
      (if map_of (vs_fields d) tag = None \<and> map_of xs tag \<noteq> None then map_option (render_value env opts) (map_of xs tag) else map_of acc (u64_str tag))"
    if "distinct (map fst xs)" for acc xs
    using that
  proof (induction xs arbitrary: acc)
    case (Cons x xs)
    obtain t v where x: "x = (t, v)" by fastforce
    with Cons.prems have "map_of xs t = None" by (auto simp: map_of_eq_None_iff)
    with Cons x show ?case by (auto simp: u64_str_inj)
  qed simp
  from this [OF assms, of "[]"] show ?thesis by (auto simp: unknown_tags_def)
qed

lemma tag_map_distinct: "distinct (map fst (tag_map kvs))"
proof -
  have "distinct (map fst acc) \<Longrightarrow> distinct (map fst (foldl (\<lambda>out (k, v). case tag_of_key k of Some tag \<Rightarrow> hm_put tag v out | None \<Rightarrow> out) acc kvs))" for acc
    by (induction kvs arbitrary: acc) (auto simp: distinct_hm_put split: option.split)
  then show ?thesis by (simp add: tag_map_def)
qed

text \<open>The last entry with a tag is the one that counts.\<close>

lemma tag_map_last: "tag_of_key k = Some tag \<Longrightarrow> map_of (tag_map (kvs @ [(k, v)])) tag = Some v"
  by (simp add: tag_map_def)

section \<open>Properties\<close>

definition demo_renv :: render_env where
  "demo_renv = \<lparr>re_read_value = (\<lambda>_. Inr (MMap [(MInt 1, MInt 7), (MInt 9, MBool True)])), re_base64 = (\<lambda>_. []), re_hex = (\<lambda>_. []), re_rfc3339 = (\<lambda>_. None)\<rparr>"

definition demo_opts :: RenderOptions where
  "demo_opts = \<lparr>bytes_render = BR_Base64, u64_format = UF_String, enum_render = ER_Label, time_render = TR_Iso, include_unknown = True\<rparr>"

definition demo_desc :: TypeVersionSpec where
  "demo_desc = \<lparr>vs_version = 1, vs_fields = [(1, item_field ''u64''\<lparr>fs_name := ''n''\<rparr>)], vs_renderer = None\<rparr>"



text \<open>A field of a 64-bit integer type shown as a string gives the number back exactly, beyond the range of a double too; but
  a negative number in a field declared \<^verbatim>\<open>int64\<close> is shown as null.\<close>

theorem int64_fields:
  assumes "fs_field_type field \<in> {''u64'', ''uint64'', ''i64'', ''int64''}" and "fs_enum_ref field = None" and "u64_format opts = UF_String"
  shows "(0 \<le> i \<and> i < 2 ^ 64 \<longrightarrow> (\<exists>s. render_field_value env reg opts field (MInt i) = JStr s \<and> parse_u64 s = Some (of_int i))) \<and>
    (i < 0 \<longrightarrow> render_field_value env reg opts field (MInt i) = JNull)"
proof -
  have "fs_field_type field \<noteq> ''ref''" "fs_field_type field \<noteq> ''map''" using assms(1) by auto
  then have r: "render_field_value env reg opts field (MInt i) = render_u64 opts (MInt i)"
    using assms(1,2) by (subst render_field_value.simps) (simp add: render_enum_def Let_def)
  show ?thesis
    using assms(3) by (auto simp: r render_u64_def int_to_u64_def int_as_u64_def int_as_i64_def render_u64_raw_def u64_str_def)
qed

theorem int64_fields_witness: "render_field_value demo_renv rdemo0 demo_opts (item_field ''int64'') (MInt (- 1)) = JNull"
  using int64_fields [of "item_field ''int64''" demo_opts "- 1" demo_renv rdemo0] by (simp add: item_field_def demo_opts_def)

end
