(* ===== verification/Conversation.thy ===== *)
theory Conversation
  imports Json Rust_Str
begin

text \<open>
  The canonical conversation items of the Rust client (\<^verbatim>\<open>clients/rust/src/types\<close>): the structures of
  \<^verbatim>\<open>conversation.rs\<close> and \<^verbatim>\<open>provenance.rs\<close>, the constructors and builders of \<^verbatim>\<open>builders.rs\<close> and the
  provenance options, and the JSON form in which \<^verbatim>\<open>cxtx/src/cxdb_http.rs\<close> uploads them.

  An \<^verbatim>\<open>i64\<close> is an \<open>int\<close>, wrapped around where the code adds.  A builder is the item it holds, a setter a
  function on it.  The clock reading of \<^verbatim>\<open>Now()\<close> is the argument \<open>now\<close>.  A \<^verbatim>\<open>HashMap\<close> is the list of its
  entries.
\<close>

section \<open>Data\<close>

record UserInput =
  ui_text :: string
  ui_files :: "string list"

record ToolCallResult =
  tcr_content :: string
  tcr_content_truncated :: bool
  tcr_success :: bool
  tcr_exit_code :: "int option"

record ToolCallError =
  tce_code :: string
  tce_message :: string
  tce_exit_code :: "int option"

record ToolCallItem =
  tci_id :: string
  tci_name :: string
  tci_args :: string
  tci_status :: string
  tci_description :: string
  tci_streaming_output :: string
  tci_streaming_output_truncated :: bool
  tci_result :: "ToolCallResult option"
  tci_error :: "ToolCallError option"
  tci_duration_ms :: int

record TurnMetrics =
  tm_input_tokens :: int
  tm_output_tokens :: int
  tm_total_tokens :: int
  tm_cached_tokens :: "int option"
  tm_reasoning_tokens :: "int option"
  tm_duration_ms :: "int option"
  tm_model :: string

record AssistantTurn =
  at_text :: string
  at_tool_calls :: "ToolCallItem list"
  at_reasoning :: string
  at_metrics :: "TurnMetrics option"
  at_agent :: string
  at_turn_number :: int
  at_max_turns :: int
  at_finish_reason :: string

record SystemMessage =
  sm_kind :: string
  sm_title :: string
  sm_content :: string

record HandoffInfo =
  hi_from_agent :: string
  hi_to_agent :: string
  hi_tool_name :: string
  hi_input :: string
  hi_reason :: string

record Assistant =
  ast_text :: string
  ast_reasoning :: string
  ast_model :: string
  ast_input_tokens :: int
  ast_output_tokens :: int
  ast_stop_reason :: string

record ToolCall =
  tc_call_id :: string
  tc_name :: string
  tc_args :: string
  tc_description :: string

record ToolResult =
  trs_call_id :: string
  trs_content :: string
  trs_is_error :: bool
  trs_exit_code :: "int option"
  trs_streaming_output :: string
  trs_output_truncated :: bool
  trs_duration_ms :: int

record ClientProvenance =
  cp_parent_context_id :: "u64 option"
  cp_spawn_reason :: string
  cp_root_context_id :: "u64 option"
  cp_trace_id :: string
  cp_span_id :: string
  cp_correlation_id :: string
  cp_on_behalf_of :: string
  cp_on_behalf_of_source :: string
  cp_on_behalf_of_email :: string
  cp_writer_method :: string
  cp_writer_subject :: string
  cp_writer_issuer :: string
  cp_service_name :: string
  cp_service_version :: string
  cp_service_instance_id :: string
  cp_process_pid :: int
  cp_process_owner :: string
  cp_host_name :: string
  cp_host_arch :: string
  cp_client_address :: string
  cp_client_port :: int
  cp_env_vars :: "(string \<times> string) list option"
  cp_sdk_name :: string
  cp_sdk_version :: string
  cp_captured_at :: int

record ClientMetadata =
  cmt_client_tag :: string
  cmt_title :: string
  cmt_labels :: "string list"
  cmt_custom :: "(string \<times> string) list"
  cmt_provenance :: "ClientProvenance option"

record ConversationItem =
  ci_item_type :: string
  ci_status :: string
  ci_timestamp :: int
  ci_id :: string
  ci_user_input :: "UserInput option"
  ci_turn :: "AssistantTurn option"
  ci_system :: "SystemMessage option"
  ci_handoff :: "HandoffInfo option"
  ci_assistant :: "Assistant option"
  ci_tool_call :: "ToolCall option"
  ci_tool_result :: "ToolResult option"
  ci_context_metadata :: "ClientMetadata option"

definition ToolCallStatusPending :: string where "ToolCallStatusPending = ''pending''"
definition ToolCallStatusComplete :: string where "ToolCallStatusComplete = ''complete''"
definition ToolCallStatusError :: string where "ToolCallStatusError = ''error''"

definition SystemKindInfo :: string where "SystemKindInfo = ''info''"
definition SystemKindWarning :: string where "SystemKindWarning = ''warning''"
definition SystemKindError :: string where "SystemKindError = ''error''"
definition SystemKindRewind :: string where "SystemKindRewind = ''rewind''"

definition TypeIDConversationItem :: string where "TypeIDConversationItem = ''cxdb.ConversationItem''"
definition TypeVersionConversationItem :: u32 where "TypeVersionConversationItem = 3"

section \<open>Constructors and builders\<close>

definition new_user_input :: "int \<Rightarrow> string \<Rightarrow> string list \<Rightarrow> ConversationItem" where
  "new_user_input now text files =
     \<lparr>ci_item_type = ''user_input'', ci_status = ''complete'', ci_timestamp = now, ci_id = [],
      ci_user_input = Some \<lparr>ui_text = text, ui_files = files\<rparr>, ci_turn = None, ci_system = None, ci_handoff = None,
      ci_assistant = None, ci_tool_call = None, ci_tool_result = None, ci_context_metadata = None\<rparr>"

definition new_assistant_turn :: "int \<Rightarrow> string \<Rightarrow> ConversationItem" where
  "new_assistant_turn now text =
     \<lparr>ci_item_type = ''assistant_turn'', ci_status = ''complete'', ci_timestamp = now, ci_id = [],
      ci_user_input = None,
      ci_turn = Some \<lparr>at_text = text, at_tool_calls = [], at_reasoning = [], at_metrics = None, at_agent = [],
        at_turn_number = 0, at_max_turns = 0, at_finish_reason = []\<rparr>,
      ci_system = None, ci_handoff = None,
      ci_assistant = None, ci_tool_call = None, ci_tool_result = None, ci_context_metadata = None\<rparr>"

definition new_tool_call_item :: "string \<Rightarrow> string \<Rightarrow> string \<Rightarrow> ToolCallItem" where
  "new_tool_call_item id' name args =
     \<lparr>tci_id = id', tci_name = name, tci_args = args, tci_status = ToolCallStatusPending, tci_description = [],
      tci_streaming_output = [], tci_streaming_output_truncated = False, tci_result = None, tci_error = None,
      tci_duration_ms = 0\<rparr>"

definition new_handoff :: "int \<Rightarrow> string \<Rightarrow> string \<Rightarrow> ConversationItem" where
  "new_handoff now from_agent to_agent =
     \<lparr>ci_item_type = ''handoff'', ci_status = ''complete'', ci_timestamp = now, ci_id = [],
      ci_user_input = None, ci_turn = None, ci_system = None,
      ci_handoff = Some \<lparr>hi_from_agent = from_agent, hi_to_agent = to_agent, hi_tool_name = [], hi_input = [], hi_reason = []\<rparr>,
      ci_assistant = None, ci_tool_call = None, ci_tool_result = None, ci_context_metadata = None\<rparr>"

definition new_system_message :: "int \<Rightarrow> string \<Rightarrow> string \<Rightarrow> ConversationItem" where
  "new_system_message now kind content =
     \<lparr>ci_item_type = ''system'', ci_status = ''complete'', ci_timestamp = now, ci_id = [],
      ci_user_input = None, ci_turn = None,
      ci_system = Some \<lparr>sm_kind = kind, sm_title = [], sm_content = content\<rparr>, ci_handoff = None,
      ci_assistant = None, ci_tool_call = None, ci_tool_result = None, ci_context_metadata = None\<rparr>"

definition new_assistant :: "int \<Rightarrow> string \<Rightarrow> ConversationItem" where
  "new_assistant now text =
     \<lparr>ci_item_type = ''assistant'', ci_status = ''complete'', ci_timestamp = now, ci_id = [],
      ci_user_input = None, ci_turn = None, ci_system = None, ci_handoff = None,
      ci_assistant = Some \<lparr>ast_text = text, ast_reasoning = [], ast_model = [], ast_input_tokens = 0,
        ast_output_tokens = 0, ast_stop_reason = []\<rparr>,
      ci_tool_call = None, ci_tool_result = None, ci_context_metadata = None\<rparr>"

definition new_tool_call :: "int \<Rightarrow> string \<Rightarrow> string \<Rightarrow> string \<Rightarrow> ConversationItem" where
  "new_tool_call now call_id name args =
     \<lparr>ci_item_type = ''tool_call'', ci_status = ''pending'', ci_timestamp = now, ci_id = [],
      ci_user_input = None, ci_turn = None, ci_system = None, ci_handoff = None, ci_assistant = None,
      ci_tool_call = Some \<lparr>tc_call_id = call_id, tc_name = name, tc_args = args, tc_description = []\<rparr>,
      ci_tool_result = None, ci_context_metadata = None\<rparr>"

definition new_tool_result :: "int \<Rightarrow> string \<Rightarrow> string \<Rightarrow> bool \<Rightarrow> ConversationItem" where
  "new_tool_result now call_id content is_error =
     \<lparr>ci_item_type = ''tool_result'', ci_status = ''complete'', ci_timestamp = now, ci_id = [],
      ci_user_input = None, ci_turn = None, ci_system = None, ci_handoff = None, ci_assistant = None, ci_tool_call = None,
      ci_tool_result = Some \<lparr>trs_call_id = call_id, trs_content = content, trs_is_error = is_error, trs_exit_code = None,
        trs_streaming_output = [], trs_output_truncated = False, trs_duration_ms = 0\<rparr>,
      ci_context_metadata = None\<rparr>"

definition empty_metadata :: ClientMetadata where
  "empty_metadata = \<lparr>cmt_client_tag = [], cmt_title = [], cmt_labels = [], cmt_custom = [], cmt_provenance = None\<rparr>"

definition with_context_metadata :: "ClientMetadata \<Rightarrow> ConversationItem \<Rightarrow> ConversationItem" where
  "with_context_metadata meta item = item\<lparr>ci_context_metadata := Some meta\<rparr>"

definition with_client_tag :: "string \<Rightarrow> ConversationItem \<Rightarrow> ConversationItem" where
  "with_client_tag tag item =
     (let item = (if ci_context_metadata item = None then item\<lparr>ci_context_metadata := Some empty_metadata\<rparr> else item)
      in item\<lparr>ci_context_metadata := map_option (\<lambda>meta. meta\<lparr>cmt_client_tag := tag\<rparr>) (ci_context_metadata item)\<rparr>)"

text \<open>The setters shared by the builders, and those that change the variant the builder was made with.\<close>

definition with_id :: "string \<Rightarrow> ConversationItem \<Rightarrow> ConversationItem" where
  "with_id i item = item\<lparr>ci_id := i\<rparr>"

definition with_status :: "string \<Rightarrow> ConversationItem \<Rightarrow> ConversationItem" where
  "with_status st item = item\<lparr>ci_status := st\<rparr>"

definition on_turn :: "(AssistantTurn \<Rightarrow> AssistantTurn) \<Rightarrow> ConversationItem \<Rightarrow> ConversationItem" where
  "on_turn f item = item\<lparr>ci_turn := map_option f (ci_turn item)\<rparr>"

definition with_reasoning :: "string \<Rightarrow> ConversationItem \<Rightarrow> ConversationItem" where
  "with_reasoning r = on_turn (\<lambda>t. t\<lparr>at_reasoning := r\<rparr>)"

definition with_agent :: "string \<Rightarrow> ConversationItem \<Rightarrow> ConversationItem" where
  "with_agent a = on_turn (\<lambda>t. t\<lparr>at_agent := a\<rparr>)"

definition with_turn_number :: "int \<Rightarrow> int \<Rightarrow> ConversationItem \<Rightarrow> ConversationItem" where
  "with_turn_number n mx = on_turn (\<lambda>t. t\<lparr>at_turn_number := n, at_max_turns := mx\<rparr>)"

definition with_finish_reason :: "string \<Rightarrow> ConversationItem \<Rightarrow> ConversationItem" where
  "with_finish_reason r = on_turn (\<lambda>t. t\<lparr>at_finish_reason := r\<rparr>)"

text \<open>\<^verbatim>\<open>i64\<close> addition of the release profile.\<close>

definition i64_add :: "int \<Rightarrow> int \<Rightarrow> int" where
  "i64_add a b = (a + b + 2 ^ 63) mod 2 ^ 64 - 2 ^ 63"

definition with_metrics :: "int \<Rightarrow> int \<Rightarrow> ConversationItem \<Rightarrow> ConversationItem" where
  "with_metrics input_tokens output_tokens = on_turn (\<lambda>t. t\<lparr>at_metrics := Some
     \<lparr>tm_input_tokens = input_tokens, tm_output_tokens = output_tokens, tm_total_tokens = i64_add input_tokens output_tokens,
      tm_cached_tokens = None, tm_reasoning_tokens = None, tm_duration_ms = None, tm_model = []\<rparr>\<rparr>)"

definition with_full_metrics :: "TurnMetrics \<Rightarrow> ConversationItem \<Rightarrow> ConversationItem" where
  "with_full_metrics mt = on_turn (\<lambda>t. t\<lparr>at_metrics := Some mt\<rparr>)"

definition with_tool_call :: "ToolCallItem \<Rightarrow> ConversationItem \<Rightarrow> ConversationItem" where
  "with_tool_call c = on_turn (\<lambda>t. t\<lparr>at_tool_calls := at_tool_calls t @ [c]\<rparr>)"

definition with_title :: "string \<Rightarrow> ConversationItem \<Rightarrow> ConversationItem" where
  "with_title title item = item\<lparr>ci_system := map_option (\<lambda>s. s\<lparr>sm_title := title\<rparr>) (ci_system item)\<rparr>"

definition tool_with_status :: "string \<Rightarrow> ToolCallItem \<Rightarrow> ToolCallItem" where
  "tool_with_status st c = c\<lparr>tci_status := st\<rparr>"

definition tool_with_result :: "string \<Rightarrow> int option \<Rightarrow> ToolCallItem \<Rightarrow> ToolCallItem" where
  "tool_with_result content exit_code c = c\<lparr>tci_status := ToolCallStatusComplete, tci_result := Some
     \<lparr>tcr_content = content, tcr_content_truncated = False, tcr_success = True, tcr_exit_code = exit_code\<rparr>\<rparr>"

definition tool_with_error :: "string \<Rightarrow> int option \<Rightarrow> ToolCallItem \<Rightarrow> ToolCallItem" where
  "tool_with_error message exit_code c = c\<lparr>tci_status := ToolCallStatusError, tci_error := Some
     \<lparr>tce_code = [], tce_message = message, tce_exit_code = exit_code\<rparr>\<rparr>"

definition result_with_error :: "ConversationItem \<Rightarrow> ConversationItem" where
  "result_with_error item = item\<lparr>ci_tool_result := map_option (\<lambda>r. r\<lparr>trs_is_error := True\<rparr>) (ci_tool_result item)\<rparr>"

definition attach_provenance :: "ClientMetadata \<Rightarrow> ClientProvenance \<Rightarrow> ClientMetadata" where
  "attach_provenance meta prov = meta\<lparr>cmt_provenance := Some prov\<rparr>"

section \<open>Provenance\<close>

text \<open>What the process learns from the system: a fresh instance id, its pid, the user, the host name when there is
  one, the architecture, the clock and the environment variables.\<close>

record host_env =
  he_uuid :: string
  he_pid :: u32
  he_username :: string
  he_hostname :: "string option"
  he_arch :: string
  he_now_ms :: int
  he_var :: "string \<Rightarrow> string option"

definition default_client_provenance :: ClientProvenance where
  "default_client_provenance =
     \<lparr>cp_parent_context_id = None, cp_spawn_reason = [], cp_root_context_id = None, cp_trace_id = [], cp_span_id = [],
      cp_correlation_id = [], cp_on_behalf_of = [], cp_on_behalf_of_source = [], cp_on_behalf_of_email = [],
      cp_writer_method = [], cp_writer_subject = [], cp_writer_issuer = [], cp_service_name = [], cp_service_version = [],
      cp_service_instance_id = [], cp_process_pid = 0, cp_process_owner = [], cp_host_name = [], cp_host_arch = [],
      cp_client_address = [], cp_client_port = 0, cp_env_vars = None, cp_sdk_name = [], cp_sdk_version = [],
      cp_captured_at = 0\<rparr>"

definition normalize_arch :: "string \<Rightarrow> string" where
  "normalize_arch arch = (if arch = ''x86_64'' then ''amd64'' else if arch = ''aarch64'' then ''arm64'' else arch)"

type_synonym provenance_option = "ClientProvenance \<Rightarrow> ClientProvenance"

definition apply_options :: "provenance_option list \<Rightarrow> ClientProvenance \<Rightarrow> ClientProvenance" where
  "apply_options opts p = foldl (\<lambda>p opt. opt p) p opts"

definition capture_process_provenance :: "host_env \<Rightarrow> string \<Rightarrow> string \<Rightarrow> provenance_option list \<Rightarrow> ClientProvenance" where
  "capture_process_provenance he service_name service_version opts =
     apply_options opts (default_client_provenance
       \<lparr>cp_service_name := service_name, cp_service_version := service_version, cp_service_instance_id := he_uuid he,
        cp_process_pid := uint (he_pid he), cp_process_owner := he_username he,
        cp_host_name := (case he_hostname he of None \<Rightarrow> [] | Some h \<Rightarrow> h),
        cp_host_arch := normalize_arch (he_arch he), cp_captured_at := he_now_ms he\<rparr>)"

definition new_provenance :: "host_env \<Rightarrow> ClientProvenance option \<Rightarrow> provenance_option list \<Rightarrow> ClientProvenance" where
  "new_provenance he base opts =
     apply_options opts ((case base of Some b \<Rightarrow> b | None \<Rightarrow> default_client_provenance)\<lparr>cp_captured_at := he_now_ms he\<rparr>)"

definition with_parent_context :: "u64 \<Rightarrow> u64 \<Rightarrow> provenance_option" where
  "with_parent_context parent_id root_id p =
     p\<lparr>cp_parent_context_id := Some parent_id, cp_root_context_id := Some (if root_id = 0 then parent_id else root_id)\<rparr>"

definition with_spawn_reason :: "string \<Rightarrow> provenance_option" where
  "with_spawn_reason reason p = p\<lparr>cp_spawn_reason := reason\<rparr>"

definition with_trace_context :: "string \<Rightarrow> string \<Rightarrow> provenance_option" where
  "with_trace_context trace_id span_id p = p\<lparr>cp_trace_id := trace_id, cp_span_id := span_id\<rparr>"

definition with_correlation_id :: "string \<Rightarrow> provenance_option" where
  "with_correlation_id i p = p\<lparr>cp_correlation_id := i\<rparr>"

definition with_on_behalf_of :: "string \<Rightarrow> string \<Rightarrow> string \<Rightarrow> provenance_option" where
  "with_on_behalf_of user_id source email p =
     p\<lparr>cp_on_behalf_of := user_id, cp_on_behalf_of_source := source, cp_on_behalf_of_email := email\<rparr>"

definition with_writer_identity :: "string \<Rightarrow> string \<Rightarrow> string \<Rightarrow> provenance_option" where
  "with_writer_identity meth subject issuer p =
     p\<lparr>cp_writer_method := meth, cp_writer_subject := subject, cp_writer_issuer := issuer\<rparr>"

definition DefaultEnvAllowlist :: "string list" where
  "DefaultEnvAllowlist =
     [''K8S_NAMESPACE'', ''K8S_POD_NAME'', ''K8S_NODE_NAME'', ''KUBERNETES_SERVICE_HOST'', ''AWS_REGION'',
      ''AWS_DEFAULT_REGION'', ''AWS_EXECUTION_ENV'', ''GOOGLE_CLOUD_PROJECT'', ''GCP_PROJECT'', ''DEPLOYMENT'',
      ''ENVIRONMENT'', ''ENV'', ''STAGE'', ''REGION'', ''HOSTNAME'', ''USER'', ''HOME'', ''GOVERSION'', ''GO_VERSION'',
      ''SERVICE_NAME'', ''SERVICE_VERSION'', ''APP_NAME'', ''APP_VERSION'']"

definition capture_env_vars :: "host_env \<Rightarrow> string list \<Rightarrow> (string \<times> string) list" where
  "capture_env_vars he allowlist =
     foldl (\<lambda>vars key. case he_var he key of Some val \<Rightarrow> if val \<noteq> [] then hm_put key val vars else vars | None \<Rightarrow> vars)
       [] allowlist"

definition with_env_vars :: "host_env \<Rightarrow> string list option \<Rightarrow> provenance_option" where
  "with_env_vars he allowlist p =
     (let allowlist = (case allowlist of Some l \<Rightarrow> l | None \<Rightarrow> DefaultEnvAllowlist);
          env = capture_env_vars he allowlist
      in p\<lparr>cp_env_vars := if env = [] then None else Some env\<rparr>)"

definition with_sdk :: "string \<Rightarrow> string \<Rightarrow> provenance_option" where
  "with_sdk name version p = p\<lparr>cp_sdk_name := name, cp_sdk_version := version\<rparr>"

definition with_service :: "string \<Rightarrow> string \<Rightarrow> string \<Rightarrow> provenance_option" where
  "with_service name version instance_id p =
     (let p = p\<lparr>cp_service_name := name, cp_service_version := version\<rparr>
      in if instance_id \<noteq> [] then p\<lparr>cp_service_instance_id := instance_id\<rparr> else p)"

section \<open>The uploaded JSON\<close>

text \<open>Inserting a member, and inserting it only when the value is not the default.\<close>

definition jstr :: "string \<Rightarrow> string \<Rightarrow> (string \<times> json) list \<Rightarrow> (string \<times> json) list" where
  "jstr k s obj = bt_put k (JStr s) obj"

definition jstr_opt :: "string \<Rightarrow> string \<Rightarrow> (string \<times> json) list \<Rightarrow> (string \<times> json) list" where
  "jstr_opt k s obj = (if s \<noteq> [] then bt_put k (JStr s) obj else obj)"

definition jint_opt :: "string \<Rightarrow> int \<Rightarrow> (string \<times> json) list \<Rightarrow> (string \<times> json) list" where
  "jint_opt k n obj = (if n \<noteq> 0 then bt_put k (JInt n) obj else obj)"

definition jflag :: "string \<Rightarrow> bool \<Rightarrow> (string \<times> json) list \<Rightarrow> (string \<times> json) list" where
  "jflag k b obj = (if b then bt_put k (JBool True) obj else obj)"

definition jsome :: "string \<Rightarrow> ('a \<Rightarrow> json) \<Rightarrow> 'a option \<Rightarrow> (string \<times> json) list \<Rightarrow> (string \<times> json) list" where
  "jsome k f v obj = (case v of Some a \<Rightarrow> bt_put k (f a) obj | None \<Rightarrow> obj)"

definition jlist_opt :: "string \<Rightarrow> ('a \<Rightarrow> json) \<Rightarrow> 'a list \<Rightarrow> (string \<times> json) list \<Rightarrow> (string \<times> json) list" where
  "jlist_opt k f xs obj = (if xs \<noteq> [] then bt_put k (JList (map f xs)) obj else obj)"

text \<open>\<^verbatim>\<open>json!\<close> of a string map.\<close>

definition json_of_map :: "(string \<times> string) list \<Rightarrow> json" where
  "json_of_map es = JObj (foldl (\<lambda>obj (k, v). bt_put k (JStr v) obj) [] es)"

definition user_input_payload :: "UserInput \<Rightarrow> json" where
  "user_input_payload v = JObj (jlist_opt ''files'' JStr (ui_files v) (jstr ''text'' (ui_text v) []))"

definition tool_call_result_payload :: "ToolCallResult \<Rightarrow> json" where
  "tool_call_result_payload v =
     JObj (jsome ''exit_code'' JInt (tcr_exit_code v) (bt_put ''success'' (JBool (tcr_success v))
       (jflag ''content_truncated'' (tcr_content_truncated v) (jstr ''content'' (tcr_content v) []))))"

definition tool_call_error_payload :: "ToolCallError \<Rightarrow> json" where
  "tool_call_error_payload v =
     JObj (jsome ''exit_code'' JInt (tce_exit_code v) (jstr ''message'' (tce_message v) (jstr_opt ''code'' (tce_code v) [])))"

definition tool_call_item_payload :: "ToolCallItem \<Rightarrow> json" where
  "tool_call_item_payload v =
     JObj (jint_opt ''duration_ms'' (tci_duration_ms v)
       (jsome ''error'' tool_call_error_payload (tci_error v)
       (jsome ''result'' tool_call_result_payload (tci_result v)
       (jflag ''streaming_output_truncated'' (tci_streaming_output_truncated v)
       (jstr_opt ''streaming_output'' (tci_streaming_output v)
       (jstr_opt ''description'' (tci_description v)
       (jstr ''status'' (tci_status v) (jstr ''args'' (tci_args v) (jstr ''name'' (tci_name v) (jstr ''id'' (tci_id v) []))))))))))"

definition turn_metrics_payload :: "TurnMetrics \<Rightarrow> json" where
  "turn_metrics_payload v =
     JObj (jstr_opt ''model'' (tm_model v)
       (jsome ''duration_ms'' JInt (tm_duration_ms v)
       (jsome ''reasoning_tokens'' JInt (tm_reasoning_tokens v)
       (jsome ''cached_tokens'' JInt (tm_cached_tokens v)
       (bt_put ''total_tokens'' (JInt (tm_total_tokens v))
       (bt_put ''output_tokens'' (JInt (tm_output_tokens v))
       (bt_put ''input_tokens'' (JInt (tm_input_tokens v)) [])))))))"

definition assistant_turn_payload :: "AssistantTurn \<Rightarrow> json" where
  "assistant_turn_payload v =
     JObj (jstr_opt ''finish_reason'' (at_finish_reason v)
       (jint_opt ''max_turns'' (at_max_turns v)
       (jint_opt ''turn_number'' (at_turn_number v)
       (jstr_opt ''agent'' (at_agent v)
       (jsome ''metrics'' turn_metrics_payload (at_metrics v)
       (jstr_opt ''reasoning'' (at_reasoning v)
       (jlist_opt ''tool_calls'' tool_call_item_payload (at_tool_calls v)
       (jstr ''text'' (at_text v) []))))))))"

definition system_message_payload :: "SystemMessage \<Rightarrow> json" where
  "system_message_payload v =
     JObj (jstr ''content'' (sm_content v) (jstr_opt ''title'' (sm_title v) (jstr ''kind'' (sm_kind v) [])))"

definition handoff_payload :: "HandoffInfo \<Rightarrow> json" where
  "handoff_payload v =
     JObj (jstr_opt ''reason'' (hi_reason v) (jstr_opt ''input'' (hi_input v) (jstr_opt ''tool_name'' (hi_tool_name v)
       (jstr ''to_agent'' (hi_to_agent v) (jstr ''from_agent'' (hi_from_agent v) [])))))"

definition assistant_payload :: "Assistant \<Rightarrow> json" where
  "assistant_payload v =
     JObj (jstr_opt ''stop_reason'' (ast_stop_reason v)
       (jint_opt ''output_tokens'' (ast_output_tokens v)
       (jint_opt ''input_tokens'' (ast_input_tokens v)
       (jstr_opt ''model'' (ast_model v) (jstr_opt ''reasoning'' (ast_reasoning v) (jstr ''text'' (ast_text v) []))))))"

definition tool_call_payload :: "ToolCall \<Rightarrow> json" where
  "tool_call_payload v =
     JObj (jstr_opt ''description'' (tc_description v)
       (jstr ''args'' (tc_args v) (jstr ''name'' (tc_name v) (jstr ''call_id'' (tc_call_id v) []))))"

definition tool_result_payload :: "ToolResult \<Rightarrow> json" where
  "tool_result_payload v =
     JObj (jint_opt ''duration_ms'' (trs_duration_ms v)
       (jflag ''output_truncated'' (trs_output_truncated v)
       (jstr_opt ''streaming_output'' (trs_streaming_output v)
       (jsome ''exit_code'' JInt (trs_exit_code v)
       (bt_put ''is_error'' (JBool (trs_is_error v))
       (jstr ''content'' (trs_content v) (jstr ''call_id'' (trs_call_id v) [])))))))"

definition provenance_payload :: "ClientProvenance \<Rightarrow> json" where
  "provenance_payload v =
     JObj (jint_opt ''captured_at'' (cp_captured_at v)
       (jstr_opt ''sdk_version'' (cp_sdk_version v)
       (jstr_opt ''sdk_name'' (cp_sdk_name v)
       (jsome ''env_vars'' json_of_map (cp_env_vars v)
       (jint_opt ''client_port'' (cp_client_port v)
       (jstr_opt ''client_address'' (cp_client_address v)
       (jstr_opt ''host_arch'' (cp_host_arch v)
       (jstr_opt ''host_name'' (cp_host_name v)
       (jstr_opt ''process_owner'' (cp_process_owner v)
       (jint_opt ''process_pid'' (cp_process_pid v)
       (jstr_opt ''service_instance_id'' (cp_service_instance_id v)
       (jstr_opt ''service_version'' (cp_service_version v)
       (jstr_opt ''service_name'' (cp_service_name v)
       (jstr_opt ''writer_issuer'' (cp_writer_issuer v)
       (jstr_opt ''writer_subject'' (cp_writer_subject v)
       (jstr_opt ''writer_method'' (cp_writer_method v)
       (jstr_opt ''on_behalf_of_email'' (cp_on_behalf_of_email v)
       (jstr_opt ''on_behalf_of_source'' (cp_on_behalf_of_source v)
       (jstr_opt ''on_behalf_of'' (cp_on_behalf_of v)
       (jstr_opt ''correlation_id'' (cp_correlation_id v)
       (jstr_opt ''span_id'' (cp_span_id v)
       (jstr_opt ''trace_id'' (cp_trace_id v)
       (jsome ''root_context_id'' (\<lambda>w. JInt (uint w)) (cp_root_context_id v)
       (jstr_opt ''spawn_reason'' (cp_spawn_reason v)
       (jsome ''parent_context_id'' (\<lambda>w. JInt (uint w)) (cp_parent_context_id v) [])))))))))))))))))))))))))"

definition context_metadata_payload :: "ClientMetadata \<Rightarrow> json" where
  "context_metadata_payload v =
     JObj (jsome ''provenance'' provenance_payload (cmt_provenance v)
       ((if cmt_custom v \<noteq> [] then bt_put ''custom'' (json_of_map (cmt_custom v)) else (\<lambda>obj. obj))
       (jlist_opt ''labels'' JStr (cmt_labels v)
       (jstr_opt ''title'' (cmt_title v) (jstr_opt ''client_tag'' (cmt_client_tag v) [])))))"

definition conversation_item_payload :: "ConversationItem \<Rightarrow> json" where
  "conversation_item_payload item =
     JObj (jsome ''context_metadata'' context_metadata_payload (ci_context_metadata item)
       (jsome ''tool_result'' tool_result_payload (ci_tool_result item)
       (jsome ''tool_call'' tool_call_payload (ci_tool_call item)
       (jsome ''assistant'' assistant_payload (ci_assistant item)
       (jsome ''handoff'' handoff_payload (ci_handoff item)
       (jsome ''system'' system_message_payload (ci_system item)
       (jsome ''turn'' assistant_turn_payload (ci_turn item)
       (jsome ''user_input'' user_input_payload (ci_user_input item)
       (jstr_opt ''id'' (ci_id item)
       (jint_opt ''timestamp'' (ci_timestamp item)
       (jstr_opt ''status'' (ci_status item)
       (jstr ''item_type'' (ci_item_type item) []))))))))))))"

end
