(* ===== verification/Cxtx_Session.thy ===== *)
theory Cxtx_Session
  imports Conversation
begin

text \<open>
  A captured session of \<^verbatim>\<open>cxtx\<close>: the turns it uploads (\<^verbatim>\<open>turns.rs\<close>), the provider it wraps
  (\<^verbatim>\<open>ProviderKind\<close> of \<^verbatim>\<open>provider/mod.rs\<close>) and the session runtime (\<^verbatim>\<open>session.rs\<close>), which numbers turns and
  exchanges and compares every request with the history it has seen.

  \<open>cxtx_env\<close> holds what comes from outside: the JSON printer and reader of \<^verbatim>\<open>serde_json\<close>, the date formats of
  \<^verbatim>\<open>chrono\<close>, and the clock.  Every turn reads the clock once, when it is built, and has an ordinal of its own, so
  the readings are a function of the ordinal.  The mutex around the mutable state is held for the whole of
  each operation; an operation is a function of the state.
\<close>

section \<open>Environment and providers\<close>

record cxtx_env =
  cx_pretty :: "json \<Rightarrow> string option"
  cx_to_string :: "json \<Rightarrow> string option"
  cx_from_slice :: "bytes \<Rightarrow> string + json"
  cx_rfc3339 :: "int \<Rightarrow> string"
  cx_fmt_secs :: "int \<Rightarrow> string"
  cx_clock :: "u64 \<Rightarrow> int"

datatype ProviderKind = Codex | Claude | Pi

fun command_name :: "ProviderKind \<Rightarrow> string" where
  "command_name Codex = ''codex''"
| "command_name Claude = ''claude''"
| "command_name Pi = ''pi''"

fun provider_name :: "ProviderKind \<Rightarrow> string" where
  "provider_name Codex = ''openai''"
| "provider_name Claude = ''anthropic''"
| "provider_name Pi = ''pi''"

fun client_tag :: "ProviderKind \<Rightarrow> string" where
  "client_tag Codex = ''cxtx/codex''"
| "client_tag Claude = ''cxtx/claude''"
| "client_tag Pi = ''cxtx/pi''"

definition provider_labels :: "ProviderKind \<Rightarrow> string list" where
  "provider_labels p = [''cxtx'', (case p of Codex \<Rightarrow> ''codex'' | Claude \<Rightarrow> ''claude'' | Pi \<Rightarrow> ''pi''), ''interactive'']"

section \<open>Turns\<close>

record ToolCallRecord =
  tcl_call_id :: string
  tcl_name :: string
  tcl_args :: string

datatype HistoryItem =
    HUserInput string "string list"
  | HAssistantTurn string "ToolCallRecord list" "string option" "string option"
  | HToolResult string string bool

record ArtifactRefs =
  ar_request_path :: "string option"
  ar_response_path :: "string option"
  ar_stream_path :: "string option"

definition default_artifact_refs :: ArtifactRefs where
  "default_artifact_refs = \<lparr>ar_request_path = None, ar_response_path = None, ar_stream_path = None\<rparr>"

definition with_request_path :: "ArtifactRefs \<Rightarrow> string option \<Rightarrow> ArtifactRefs" where
  "with_request_path r p = r\<lparr>ar_request_path := p\<rparr>"

definition with_response_path :: "ArtifactRefs \<Rightarrow> string option \<Rightarrow> ArtifactRefs" where
  "with_response_path r p = r\<lparr>ar_response_path := p\<rparr>"

record TurnEnvelope =
  te_ordinal :: u64
  te_item :: ConversationItem

record CapturedSession =
  cs_session_id :: string
  cs_provider_kind :: string
  cs_child_command :: string
  cs_child_args :: "string list"
  cs_started_at :: int

definition WRAPPER_VERSION :: string where
  "WRAPPER_VERSION = ''0.1.0''"

definition artifacts_json :: "ArtifactRefs \<Rightarrow> json" where
  "artifacts_json r = JObj (jsome ''stream_path'' JStr (ar_stream_path r)
     (jsome ''response_path'' JStr (ar_response_path r) (jsome ''request_path'' JStr (ar_request_path r) [])))"

definition context_metadata ::
  "cxtx_env \<Rightarrow> host_env \<Rightarrow> ProviderKind \<Rightarrow> CapturedSession \<Rightarrow> (string \<times> string) list \<Rightarrow> string list \<Rightarrow> ClientMetadata" where
  "context_metadata env he provider session allowlisted_env extra_labels =
     (let custom = hm_put ''wrapper_version'' WRAPPER_VERSION
                    (hm_put ''wrapper_command'' (cs_child_command session)
                    (hm_put ''provider_kind'' (provider_name provider)
                    (hm_put ''stable_session_id'' (cs_session_id session) [])));
          env_keys = map fst allowlisted_env;
          owner = (case he_var he ''USER'' of Some u \<Rightarrow> u
                   | None \<Rightarrow> (case he_var he ''LOGNAME'' of Some u \<Rightarrow> u | None \<Rightarrow> ''unknown''));
          provenance = capture_process_provenance he ''cxtx'' WRAPPER_VERSION
            [with_on_behalf_of owner ''cli'' [], with_env_vars he (Some env_keys), with_sdk ''cxtx'' WRAPPER_VERSION];
          metadata =
            \<lparr>cmt_client_tag = client_tag provider,
             cmt_title = client_tag provider @ '' '' @ cs_child_command session @ '' '' @ cx_fmt_secs env (cs_started_at session),
             cmt_labels = provider_labels provider @ extra_labels,
             cmt_custom = custom, cmt_provenance = None\<rparr>
      in attach_provenance metadata provenance)"

definition turn_id :: "string \<Rightarrow> u64 \<Rightarrow> string \<Rightarrow> string" where
  "turn_id session_id ordinal exchange_id = session_id @ '':'' @ dec_str (unat ordinal) @ '':'' @ exchange_id"

definition pretty_json :: "cxtx_env \<Rightarrow> json \<Rightarrow> string" where
  "pretty_json env value =
     (case cx_pretty env value of
        Some s \<Rightarrow> s
      | None \<Rightarrow> [CHR 0x7B, CHR 0x22] @ ''message'' @ [CHR 0x22, CHR 0x3A, CHR 0x22] @ ''failed to encode system payload''
               @ [CHR 0x22, CHR 0x7D])"

definition system_item :: "cxtx_env \<Rightarrow> CapturedSession \<Rightarrow> u64 \<Rightarrow> string \<Rightarrow> string \<Rightarrow> string \<Rightarrow> json \<Rightarrow> ConversationItem" where
  "system_item env session ordinal exchange_id kind title payload =
     with_id (turn_id (cs_session_id session) ordinal exchange_id)
       (with_title title (new_system_message (cx_clock env ordinal) kind (pretty_json env payload)))"

definition session_start_item :: "cxtx_env \<Rightarrow> CapturedSession \<Rightarrow> ProviderKind \<Rightarrow> u64 \<Rightarrow> u32 option \<Rightarrow> ClientMetadata \<Rightarrow> ConversationItem" where
  "session_start_item env session provider ordinal child_pid metadata =
     (let payload = jobj
        [(''stable_session_id'', JStr (cs_session_id session)),
         (''provider_kind'', JStr (provider_name provider)),
         (''child_command'', JStr (cs_child_command session)),
         (''child_args'', JList (map JStr (cs_child_args session))),
         (''child_pid'', jopt (\<lambda>w. JInt (uint w)) child_pid),
         (''started_at'', JStr (cx_rfc3339 env (cs_started_at session)))]
      in with_context_metadata metadata
           (system_item env session ordinal ''wrapper-session-start'' SystemKindInfo ''session_start'' payload))"

definition session_end_item :: "cxtx_env \<Rightarrow> CapturedSession \<Rightarrow> u64 \<Rightarrow> int \<Rightarrow> bool \<Rightarrow> ConversationItem" where
  "session_end_item env session ordinal exit_code success =
     system_item env session ordinal ''wrapper-session-end'' (if success then SystemKindInfo else SystemKindError) ''session_end''
       (jobj [(''stable_session_id'', JStr (cs_session_id session)), (''child_exit_code'', JInt exit_code),
              (''success'', JBool success)])"

definition ingest_state_item :: "cxtx_env \<Rightarrow> CapturedSession \<Rightarrow> u64 \<Rightarrow> string \<Rightarrow> string \<Rightarrow> nat \<Rightarrow> string option \<Rightarrow> ConversationItem" where
  "ingest_state_item env session ordinal title kind queue_depth error =
     (let exchange_id = (if title = ''ingest_degraded'' then ''wrapper-ingest-degraded'' else ''wrapper-ingest-recovered'')
      in system_item env session ordinal exchange_id kind title
           (jobj [(''stable_session_id'', JStr (cs_session_id session)), (''queue_depth'', JInt (int queue_depth)),
                  (''error'', jopt JStr error)]))"

definition rewrite_item :: "cxtx_env \<Rightarrow> CapturedSession \<Rightarrow> u64 \<Rightarrow> string \<Rightarrow> nat \<Rightarrow> nat \<Rightarrow> ArtifactRefs \<Rightarrow> ConversationItem" where
  "rewrite_item env session ordinal exchange_id previous_len new_len artifact_refs =
     system_item env session ordinal exchange_id SystemKindRewind ''history_rewrite_detected''
       (jobj [(''stable_session_id'', JStr (cs_session_id session)), (''previous_history_len'', JInt (int previous_len)),
              (''new_history_len'', JInt (int new_len)), (''artifacts'', artifacts_json artifact_refs)])"

definition provider_error_item ::
  "cxtx_env \<Rightarrow> CapturedSession \<Rightarrow> u64 \<Rightarrow> string \<Rightarrow> string \<Rightarrow> string \<Rightarrow> string option \<Rightarrow> ArtifactRefs \<Rightarrow> ConversationItem" where
  "provider_error_item env session ordinal exchange_id title message provider_request_id artifact_refs =
     system_item env session ordinal exchange_id SystemKindError title
       (jobj [(''stable_session_id'', JStr (cs_session_id session)), (''message'', JStr message),
              (''provider_request_id'', jopt JStr provider_request_id), (''artifacts'', artifacts_json artifact_refs)])"

definition pending_tool_call :: "ToolCallRecord \<Rightarrow> ToolCallItem" where
  "pending_tool_call c = tool_with_status ToolCallStatusPending (new_tool_call_item (tcl_call_id c) (tcl_name c) (tcl_args c))"

definition model_metrics :: "string \<Rightarrow> TurnMetrics" where
  "model_metrics model = \<lparr>tm_input_tokens = 0, tm_output_tokens = 0, tm_total_tokens = 0, tm_cached_tokens = None,
     tm_reasoning_tokens = None, tm_duration_ms = None, tm_model = model\<rparr>"

definition history_item_to_conversation_item ::
  "cxtx_env \<Rightarrow> CapturedSession \<Rightarrow> u64 \<Rightarrow> string \<Rightarrow> HistoryItem \<Rightarrow> ConversationItem" where
  "history_item_to_conversation_item env session ordinal exchange_id item =
     (let i = turn_id (cs_session_id session) ordinal exchange_id; now = cx_clock env ordinal
      in case item of
           HUserInput text files \<Rightarrow> (new_user_input now text files)\<lparr>ci_id := i\<rparr>
         | HAssistantTurn text tool_calls model finish_reason \<Rightarrow>
             let b = new_assistant_turn now text;
                 b = foldl (\<lambda>b c. with_tool_call (pending_tool_call c) b) b tool_calls;
                 b = (case finish_reason of Some reason \<Rightarrow> if reason \<noteq> [] then with_finish_reason reason b else b | None \<Rightarrow> b);
                 b = (case model of Some m \<Rightarrow> if m \<noteq> [] then with_full_metrics (model_metrics m) b else b | None \<Rightarrow> b)
             in with_id i b
         | HToolResult call_id content is_error \<Rightarrow>
             let b = new_tool_result now call_id content False;
                 b = (if is_error then result_with_error b else b)
             in b\<lparr>ci_id := i\<rparr>)"

definition preview_text :: "string \<Rightarrow> nat \<Rightarrow> string" where
  "preview_text text limit =
     (let trimmed = trim text
      in if length (rust_chars trimmed) \<le> limit then trimmed
         else concat (take limit (rust_chars trimmed)) @ ''...'')"

section \<open>Session runtime\<close>

record SessionRuntime =
  sr_session :: CapturedSession
  sr_provider :: ProviderKind
  sr_metadata :: ClientMetadata
  sr_child_pid :: u32
  sr_next_turn_ordinal :: u64
  sr_next_exchange_ordinal :: u64
  sr_observed_history :: "HistoryItem list"

definition session_new ::
  "cxtx_env \<Rightarrow> host_env \<Rightarrow> int \<Rightarrow> string \<Rightarrow> ProviderKind \<Rightarrow> string list \<Rightarrow> (string \<times> string) list \<Rightarrow> string list \<Rightarrow> SessionRuntime" where
  "session_new env he started_at uuid provider child_args allowlisted_env extra_labels =
     (let session = \<lparr>cs_session_id = uuid, cs_provider_kind = provider_name provider,
                     cs_child_command = command_name provider, cs_child_args = child_args, cs_started_at = started_at\<rparr>
      in \<lparr>sr_session = session, sr_provider = provider,
          sr_metadata = context_metadata env he provider session allowlisted_env extra_labels,
          sr_child_pid = 0, sr_next_turn_ordinal = 0, sr_next_exchange_ordinal = 0, sr_observed_history = []\<rparr>)"

definition set_child_pid :: "u32 option \<Rightarrow> SessionRuntime \<Rightarrow> SessionRuntime" where
  "set_child_pid pid s = s\<lparr>sr_child_pid := (case pid of Some p \<Rightarrow> p | None \<Rightarrow> 0)\<rparr>"

definition child_pid :: "SessionRuntime \<Rightarrow> u32 option" where
  "child_pid s = (if sr_child_pid s = 0 then None else Some (sr_child_pid s))"

definition pad4 :: "string \<Rightarrow> string" where
  "pad4 ds = replicate (4 - length ds) (CHR ''0'') @ ds"

definition next_exchange_id :: "SessionRuntime \<Rightarrow> SessionRuntime \<times> string" where
  "next_exchange_id s =
     (let n = sr_next_exchange_ordinal s + 1
      in (s\<lparr>sr_next_exchange_ordinal := n\<rparr>, ''exchange-'' @ pad4 (dec_str (unat n))))"

definition next_turn_ordinal :: "SessionRuntime \<Rightarrow> SessionRuntime \<times> u64" where
  "next_turn_ordinal s =
     (let n = sr_next_turn_ordinal s + 1 in (s\<lparr>sr_next_turn_ordinal := n\<rparr>, n))"

definition session_start_turn :: "cxtx_env \<Rightarrow> SessionRuntime \<Rightarrow> SessionRuntime \<times> TurnEnvelope" where
  "session_start_turn env s =
     (let (s, ordinal) = next_turn_ordinal s
      in (s, \<lparr>te_ordinal = ordinal,
              te_item = session_start_item env (sr_session s) (sr_provider s) ordinal (child_pid s) (sr_metadata s)\<rparr>))"

definition session_end_turn :: "cxtx_env \<Rightarrow> int \<Rightarrow> bool \<Rightarrow> SessionRuntime \<Rightarrow> SessionRuntime \<times> TurnEnvelope" where
  "session_end_turn env exit_code success s =
     (let (s, ordinal) = next_turn_ordinal s
      in (s, \<lparr>te_ordinal = ordinal, te_item = session_end_item env (sr_session s) ordinal exit_code success\<rparr>))"

definition ingest_degraded_turn :: "cxtx_env \<Rightarrow> nat \<Rightarrow> string \<Rightarrow> SessionRuntime \<Rightarrow> SessionRuntime \<times> TurnEnvelope" where
  "ingest_degraded_turn env queue_depth error s =
     (let (s, ordinal) = next_turn_ordinal s
      in (s, \<lparr>te_ordinal = ordinal,
              te_item = ingest_state_item env (sr_session s) ordinal ''ingest_degraded'' SystemKindWarning queue_depth (Some error)\<rparr>))"

definition ingest_recovered_turn :: "cxtx_env \<Rightarrow> nat \<Rightarrow> SessionRuntime \<Rightarrow> SessionRuntime \<times> TurnEnvelope" where
  "ingest_recovered_turn env queue_depth s =
     (let (s, ordinal) = next_turn_ordinal s
      in (s, \<lparr>te_ordinal = ordinal,
              te_item = ingest_state_item env (sr_session s) ordinal ''ingest_recovered'' SystemKindInfo queue_depth None\<rparr>))"

definition provider_error_turn ::
  "cxtx_env \<Rightarrow> string \<Rightarrow> string \<Rightarrow> string \<Rightarrow> string option \<Rightarrow> ArtifactRefs \<Rightarrow> SessionRuntime \<Rightarrow> SessionRuntime \<times> TurnEnvelope" where
  "provider_error_turn env exchange_id title message provider_request_id artifact_refs s =
     (let (s, ordinal) = next_turn_ordinal s
      in (s, \<lparr>te_ordinal = ordinal,
              te_item = provider_error_item env (sr_session s) ordinal exchange_id title message provider_request_id artifact_refs\<rparr>))"

fun common_prefix_len :: "HistoryItem list \<Rightarrow> HistoryItem list \<Rightarrow> nat" where
  "common_prefix_len (l # ls) (r # rs) = (if l = r then Suc (common_prefix_len ls rs) else 0)"
| "common_prefix_len _ _ = 0"

fun normalize_history_item :: "HistoryItem \<Rightarrow> HistoryItem" where
  "normalize_history_item (HAssistantTurn text tool_calls _ _) = HAssistantTurn text tool_calls None None"
| "normalize_history_item item = item"

fun history_turns :: "cxtx_env \<Rightarrow> string \<Rightarrow> HistoryItem list \<Rightarrow> SessionRuntime \<Rightarrow> SessionRuntime \<times> TurnEnvelope list" where
  "history_turns env exchange_id [] s = (s, [])"
| "history_turns env exchange_id (item # items) s =
     (let (s, ordinal) = next_turn_ordinal s;
          turn = \<lparr>te_ordinal = ordinal, te_item = history_item_to_conversation_item env (sr_session s) ordinal exchange_id item\<rparr>;
          (s, turns) = history_turns env exchange_id items s
      in (s, turn # turns))"

definition observe_request_history ::
  "cxtx_env \<Rightarrow> string \<Rightarrow> HistoryItem list \<Rightarrow> ArtifactRefs \<Rightarrow> SessionRuntime \<Rightarrow> SessionRuntime \<times> TurnEnvelope list" where
  "observe_request_history env exchange_id history artifact_refs s =
     (let previous = sr_observed_history s;
          normalized_history = map normalize_history_item history;
          prefix_len = common_prefix_len previous normalized_history;
          (s, rewrite) =
            (if prefix_len < length previous then
               let (s, ordinal) = next_turn_ordinal s
               in (s, [\<lparr>te_ordinal = ordinal,
                        te_item = rewrite_item env (sr_session s) ordinal exchange_id (length previous) (length history) artifact_refs\<rparr>])
             else (s, []));
          (s, turns) = history_turns env exchange_id (drop prefix_len history) s
      in (s\<lparr>sr_observed_history := normalized_history\<rparr>, rewrite @ turns))"

definition append_history_item :: "cxtx_env \<Rightarrow> string \<Rightarrow> HistoryItem \<Rightarrow> SessionRuntime \<Rightarrow> SessionRuntime \<times> TurnEnvelope" where
  "append_history_item env exchange_id item s =
     (let (s, ordinal) = next_turn_ordinal s;
          turn = \<lparr>te_ordinal = ordinal, te_item = history_item_to_conversation_item env (sr_session s) ordinal exchange_id item\<rparr>
      in (s\<lparr>sr_observed_history := sr_observed_history s @ [normalize_history_item item]\<rparr>, turn))"

end
