(* ===== verification/Cxtx_Provider.thy ===== *)
theory Cxtx_Provider
  imports Cxtx_Session
begin

text \<open>
  What \<^verbatim>\<open>cxtx\<close> reads off the traffic of the providers: the server-sent event frames, the history in a
  request and the assistant turn in a response of the OpenAI (\<^verbatim>\<open>provider/openai.rs\<close>) and of the Anthropic
  protocol (\<^verbatim>\<open>provider/anthropic.rs\<close>), for whole JSON bodies and for streams.  JSON text is read and printed by
  the parameters of \<open>cxtx_env\<close>.
\<close>

section \<open>JSON text\<close>

definition from_json_str :: "cxtx_env \<Rightarrow> string \<Rightarrow> string + json" where
  "from_json_str env s = cx_from_slice env (as_bytes s)"

definition jsonish_to_string :: "cxtx_env \<Rightarrow> json \<Rightarrow> string" where
  "jsonish_to_string env v = (case v of JStr s \<Rightarrow> s | _ \<Rightarrow> or_default (cx_to_string env v))"

function content_to_text :: "cxtx_env \<Rightarrow> json \<Rightarrow> string" where
  "content_to_text env JNull = []"
| "content_to_text env (JStr s) = s"
| "content_to_text env (JList vs) = join [LF] (filter (\<lambda>t. t \<noteq> []) (map (content_to_text env) vs))"
| "content_to_text env (JObj ms) =
     (case Option.bind (map_of ms ''text'') j_str of
        Some t \<Rightarrow> t
      | None \<Rightarrow>
          (case map_of ms ''content'' of
             Some c \<Rightarrow> content_to_text env c
           | None \<Rightarrow> jsonish_to_string env (JObj ms)))"
| "content_to_text env (JBool b) = jsonish_to_string env (JBool b)"
| "content_to_text env (JInt i) = jsonish_to_string env (JInt i)"
| "content_to_text env (JFloat w) = jsonish_to_string env (JFloat w)"
  by pat_completeness auto
termination
  by (relation "measure (\<lambda>(env, v). size v)") (auto dest: size_obj_get simp: less_Suc_eq_le size_list_estimation')

section \<open>Server-sent events\<close>

record SseFrame =
  sf_event :: "string option"
  sf_data :: string
  sf_raw :: string

text \<open>\<^verbatim>\<open>replace\<close> of carriage return and line feed, \<^verbatim>\<open>split_inclusive\<close> at blank lines.\<close>

fun crlf_to_lf :: "string \<Rightarrow> string" where
  "crlf_to_lf (a # b # s) = (if a = CR \<and> b = LF then LF # crlf_to_lf s else a # crlf_to_lf (b # s))"
| "crlf_to_lf s = s"

fun cut_block :: "string \<Rightarrow> (string \<times> string) option" where
  "cut_block (a # b # s) =
     (if a = LF \<and> b = LF then Some ([LF, LF], s) else map_option (apfst (Cons a)) (cut_block (b # s)))"
| "cut_block _ = None"

lemma cut_block_SomeD: "cut_block s = Some (b, r) \<Longrightarrow> s = b @ r \<and> b \<noteq> []"
  by (induction s arbitrary: b rule: cut_block.induct) (auto split: if_splits)

function split_inclusive :: "string \<Rightarrow> string list" where
  "split_inclusive s =
     (case cut_block s of None \<Rightarrow> (if s = [] then [] else [s]) | Some (b, r) \<Rightarrow> b # split_inclusive r)"
  by pat_completeness auto
termination
  by (relation "measure length") (auto dest!: cut_block_SomeD)

declare split_inclusive.simps [simp del]

definition ends_blank :: "string \<Rightarrow> bool" where
  "ends_blank b \<longleftrightarrow> take 2 (rev b) = [LF, LF]"

definition parse_line :: "string option \<times> string list \<Rightarrow> string \<Rightarrow> string option \<times> string list" where
  "parse_line st line =
     (case strip_prefix line ''event:'' of
        Some v \<Rightarrow> (Some (trim v), snd st)
      | None \<Rightarrow>
          (case strip_prefix line ''data:'' of
             Some v \<Rightarrow> (fst st, snd st @ [trim_start v])
           | None \<Rightarrow> st))"

definition parse_block :: "string \<Rightarrow> SseFrame option" where
  "parse_block block =
     (let (event, data_lines) = foldl parse_line (None, []) (lines block)
      in if data_lines = [] then None
         else Some \<lparr>sf_event = event, sf_data = join [LF] data_lines, sf_raw = block\<rparr>)"

fun sse_loop :: "string list \<Rightarrow> nat \<Rightarrow> SseFrame list \<Rightarrow> nat \<times> SseFrame list" where
  "sse_loop [] consumed frames = (consumed, frames)"
| "sse_loop (block # blocks) consumed frames =
     (if \<not> ends_blank block then (consumed, frames)
      else sse_loop blocks (consumed + length block)
             (case parse_block (trim_end_matches LF block) of Some f \<Rightarrow> frames @ [f] | None \<Rightarrow> frames))"

definition parse_sse_buffer :: "string \<Rightarrow> string \<times> SseFrame list" where
  "parse_sse_buffer buffer =
     (let normalized = crlf_to_lf buffer;
          (consumed, frames) = sse_loop (split_inclusive normalized) 0 []
      in (drop consumed normalized, frames))"

section \<open>OpenAI\<close>

record PartialToolCall =
  ptc_call_id :: string
  ptc_name :: string
  ptc_args :: string

record OpenAiExchange =
  oa_exchange_id :: string
  oa_model :: "string option"
  oa_content :: string
  oa_tool_calls :: "PartialToolCall list"
  oa_finish_reason :: "string option"
  oa_parse_errors :: "string list"

definition openai_new :: "string \<Rightarrow> string option \<Rightarrow> OpenAiExchange" where
  "openai_new exchange_id model = \<lparr>oa_exchange_id = exchange_id, oa_model = model, oa_content = [], oa_tool_calls = [],
     oa_finish_reason = None, oa_parse_errors = []\<rparr>"

definition tool_call_record :: "string \<Rightarrow> string \<Rightarrow> string \<Rightarrow> ToolCallRecord" where
  "tool_call_record call_id name args = \<lparr>tcl_call_id = call_id, tcl_name = name, tcl_args = args\<rparr>"

definition text_of :: "cxtx_env \<Rightarrow> json \<Rightarrow> string" where
  "text_of env v = content_to_text env (case jget v ''content'' of Some c \<Rightarrow> c | None \<Rightarrow> JNull)"

definition parse_tool_call :: "cxtx_env \<Rightarrow> json \<Rightarrow> ToolCallRecord" where
  "parse_tool_call env c =
     tool_call_record (or_default (get_str c ''id''))
       (or_default (Option.bind (jget c ''function'') (\<lambda>f. get_str f ''name'')))
       (or_default (map_option (jsonish_to_string env) (Option.bind (jget c ''function'') (\<lambda>f. jget f ''arguments''))))"

definition parse_tool_calls :: "cxtx_env \<Rightarrow> json option \<Rightarrow> ToolCallRecord list" where
  "parse_tool_calls env value = or_default (map_option (map (parse_tool_call env)) (Option.bind value j_array))"

definition call_id_of :: "json \<Rightarrow> string" where
  "call_id_of item = or_default (Option.bind (or_else (jget item ''call_id'') (jget item ''id'')) j_str)"

definition arguments_of :: "cxtx_env \<Rightarrow> json \<Rightarrow> string" where
  "arguments_of env item = or_default (map_option (jsonish_to_string env) (or_else (jget item ''arguments'') (jget item ''input'')))"

definition parse_responses_tool_calls :: "cxtx_env \<Rightarrow> json list \<Rightarrow> ToolCallRecord list" where
  "parse_responses_tool_calls env items =
     map (\<lambda>item. tool_call_record (call_id_of item) (or_default (get_str item ''name'')) (arguments_of env item))
       (filter (\<lambda>item. get_str item ''type'' = Some ''function_call'') items)"

definition openai_message :: "cxtx_env \<Rightarrow> string option \<Rightarrow> json \<Rightarrow> string + HistoryItem list" where
  "openai_message env model message =
     rbind (ok_or ''OpenAI request message missing role'' (get_str message ''role''))
       (\<lambda>role. Inr
         (if role = ''user'' then [HUserInput (text_of env message) []]
          else if role = ''assistant'' then
            [HAssistantTurn (text_of env message) (parse_tool_calls env (jget message ''tool_calls'')) model None]
          else if role = ''tool'' then
            [HToolResult (or_default (get_str message ''tool_call_id'')) (text_of env message) False]
          else []))"

text \<open>The loops over the messages stop at the first error.\<close>

fun collect_history :: "(json \<Rightarrow> string + HistoryItem list) \<Rightarrow> json list \<Rightarrow> string + HistoryItem list" where
  "collect_history f [] = Inr []"
| "collect_history f (m # ms) = rbind (f m) (\<lambda>h. rbind (collect_history f ms) (\<lambda>hs. Inr (h @ hs)))"

definition parse_message_history :: "cxtx_env \<Rightarrow> json list \<Rightarrow> string option \<Rightarrow> string + HistoryItem list" where
  "parse_message_history env messages model = collect_history (openai_message env model) messages"

definition is_bootstrap_input_item :: "cxtx_env \<Rightarrow> json \<Rightarrow> bool" where
  "is_bootstrap_input_item env item \<longleftrightarrow>
     (if get_str item ''type'' \<noteq> Some ''message'' then False
      else if get_str item ''role'' \<noteq> Some ''user'' then False
      else
        let trimmed = trim_start (text_of env item)
        in starts_with trimmed ''# AGENTS.md instructions for ''
           \<or> starts_with trimmed ''<permissions instructions>''
           \<or> starts_with trimmed ''<collaboration_mode>''
           \<or> starts_with trimmed ''<skills_instructions>''
           \<or> starts_with trimmed ''<environment_context>'')"

text \<open>\<^verbatim>\<open>rposition\<close>, and \<^verbatim>\<open>find_map\<close> from an index on.\<close>

definition rposition :: "('a \<Rightarrow> bool) \<Rightarrow> 'a list \<Rightarrow> nat option" where
  "rposition P xs = (case rev (filter (\<lambda>i. P (xs ! i)) [0..<length xs]) of [] \<Rightarrow> None | i # _ \<Rightarrow> Some i)"

definition find_index_from :: "('a \<Rightarrow> bool) \<Rightarrow> nat \<Rightarrow> 'a list \<Rightarrow> nat option" where
  "find_index_from P k xs = first_of (filter (\<lambda>i. P (xs ! i)) [k..<length xs])"

definition openai_input_item :: "cxtx_env \<Rightarrow> string option \<Rightarrow> json \<Rightarrow> string + HistoryItem list" where
  "openai_input_item env model item =
     (if (case get_str item ''type'' of Some t \<Rightarrow> t \<noteq> ''message'' | None \<Rightarrow> False) then Inr []
      else
        rbind (ok_or ''OpenAI input item missing role'' (get_str item ''role''))
          (\<lambda>role. Inr
            (if role = ''user'' then [HUserInput (text_of env item) []]
             else if role = ''assistant'' then [HAssistantTurn (text_of env item) [] model None]
             else if role = ''tool'' then
               [HToolResult (or_default (Option.bind (or_else (jget item ''call_id'') (jget item ''tool_call_id'')) j_str))
                  (text_of env item) False]
             else [])))"

definition conversation_start :: "cxtx_env \<Rightarrow> json list \<Rightarrow> nat" where
  "conversation_start env input =
     (let start_index = (case rposition (\<lambda>item. get_str item ''role'' = Some ''developer'') input of
                           Some i \<Rightarrow> i + 1 | None \<Rightarrow> 0)
      in case find_index_from (\<lambda>item. \<not> is_bootstrap_input_item env item) start_index input of
           Some i \<Rightarrow> i | None \<Rightarrow> length input)"

definition parse_input_history :: "cxtx_env \<Rightarrow> json list \<Rightarrow> string option \<Rightarrow> string + HistoryItem list" where
  "parse_input_history env input model =
     collect_history (openai_input_item env model) (drop (conversation_start env input) input)"

definition openai_request_history :: "cxtx_env \<Rightarrow> json \<Rightarrow> string + HistoryItem list" where
  "openai_request_history env payload =
     (let model = get_str payload ''model''
      in case get_array payload ''messages'' of
           Some messages \<Rightarrow> parse_message_history env messages model
         | None \<Rightarrow>
             (case get_array payload ''input'' of
                Some input \<Rightarrow> parse_input_history env input model
              | None \<Rightarrow> Inl ''OpenAI request is missing messages or input array''))"

definition parse_assistant_payload :: "cxtx_env \<Rightarrow> json \<Rightarrow> string option \<Rightarrow> string + HistoryItem option" where
  "parse_assistant_payload env payload fallback_model =
     (let choice = Option.bind (get_array payload ''choices'') first_of
      in case Option.bind choice (\<lambda>c. jget c ''message'') of
           Some message \<Rightarrow>
             Inr (Some (HAssistantTurn (text_of env message) (parse_tool_calls env (jget message ''tool_calls''))
               (or_else (get_str payload ''model'') fallback_model)
               (Option.bind choice (\<lambda>c. get_str c ''finish_reason''))))
         | None \<Rightarrow>
             let response = (case jget payload ''response'' of Some r \<Rightarrow> r | None \<Rightarrow> payload)
             in case or_else (get_array response ''output'') (get_array payload ''output'') of
                  None \<Rightarrow> Inr None
                | Some output \<Rightarrow>
                    let text = join [LF] (filter (\<lambda>t. t \<noteq> []) (map (text_of env)
                          (filter (\<lambda>item. get_str item ''type'' = Some ''message''
                             \<and> get_str item ''role'' = Some ''assistant'') output)));
                        tool_calls = parse_responses_tool_calls env output
                    in if text = [] \<and> tool_calls = [] then Inr None
                       else Inr (Some (HAssistantTurn text tool_calls (or_else (get_str response ''model'') fallback_model)
                              (get_str response ''status''))))"

subsection \<open>Streams\<close>

definition default_tool_call :: PartialToolCall where
  "default_tool_call = \<lparr>ptc_call_id = [], ptc_name = [], ptc_args = []\<rparr>"

definition absorb_tool_call_delta :: "cxtx_env \<Rightarrow> PartialToolCall list \<Rightarrow> json \<Rightarrow> PartialToolCall list" where
  "absorb_tool_call_delta env slots delta =
     (let index = unat (case Option.bind (jget delta ''index'') j_u64 of Some i \<Rightarrow> i | None \<Rightarrow> of_nat (length slots));
          slots = slots @ replicate (Suc index - length slots) default_tool_call;
          slot = slots ! index;
          slot = (case get_str delta ''id'' of Some i \<Rightarrow> slot\<lparr>ptc_call_id := i\<rparr> | None \<Rightarrow> slot);
          slot = (case jget delta ''function'' of
                    None \<Rightarrow> slot
                  | Some function \<Rightarrow>
                      let slot = (case get_str function ''name'' of Some n \<Rightarrow> slot\<lparr>ptc_name := n\<rparr> | None \<Rightarrow> slot)
                      in case jget function ''arguments'' of
                           Some a \<Rightarrow> slot\<lparr>ptc_args := ptc_args slot @ jsonish_to_string env a\<rparr>
                         | None \<Rightarrow> slot)
      in slots[index := slot])"

definition complete_slot :: "cxtx_env \<Rightarrow> json \<Rightarrow> PartialToolCall \<Rightarrow> PartialToolCall" where
  "complete_slot env item slot =
     (let slot = (if ptc_name slot = [] then slot\<lparr>ptc_name := or_default (get_str item ''name'')\<rparr> else slot)
      in if ptc_args slot = [] then slot\<lparr>ptc_args := arguments_of env item\<rparr> else slot)"

fun update_first :: "('a \<Rightarrow> bool) \<Rightarrow> ('a \<Rightarrow> 'a) \<Rightarrow> 'a list \<Rightarrow> 'a list option" where
  "update_first P f [] = None"
| "update_first P f (x # xs) = (if P x then Some (f x # xs) else map_option (Cons x) (update_first P f xs))"

definition absorb_responses_output_item ::
  "cxtx_env \<Rightarrow> json \<Rightarrow> string \<times> PartialToolCall list \<Rightarrow> string \<times> PartialToolCall list" where
  "absorb_responses_output_item env item st =
     (let (content, tool_calls) = st
      in if get_str item ''type'' = Some ''message'' then
           (if content = [] then text_of env item else content, tool_calls)
         else if get_str item ''type'' = Some ''function_call'' then
           (let call_id = call_id_of item
            in if call_id = [] then st
               else case update_first (\<lambda>slot. ptc_call_id slot = call_id) (complete_slot env item) tool_calls of
                      Some tool_calls' \<Rightarrow> (content, tool_calls')
                    | None \<Rightarrow>
                        (content, tool_calls @ [\<lparr>ptc_call_id = call_id, ptc_name = or_default (get_str item ''name''),
                                               ptc_args = arguments_of env item\<rparr>]))
         else st)"

definition absorb_responses_output ::
  "cxtx_env \<Rightarrow> json \<Rightarrow> string \<times> PartialToolCall list \<Rightarrow> string \<times> PartialToolCall list" where
  "absorb_responses_output env response st =
     (case get_array response ''output'' of
        None \<Rightarrow> st
      | Some items \<Rightarrow> foldl (\<lambda>st item. absorb_responses_output_item env item st) st items)"

definition set_output :: "string \<times> PartialToolCall list \<Rightarrow> OpenAiExchange \<Rightarrow> OpenAiExchange" where
  "set_output st x = x\<lparr>oa_content := fst st, oa_tool_calls := snd st\<rparr>"

definition absorb_responses_event :: "cxtx_env \<Rightarrow> string \<Rightarrow> json \<Rightarrow> OpenAiExchange \<Rightarrow> OpenAiExchange" where
  "absorb_responses_event env event_type payload x =
     (if event_type \<in> {''response.created'', ''response.in_progress'', ''response.completed''} then
        (case jget payload ''response'' of
           None \<Rightarrow> x
         | Some response \<Rightarrow>
             let x = (if oa_model x = None then x\<lparr>oa_model := get_str response ''model''\<rparr> else x);
                 x = (case get_str response ''status'' of Some st \<Rightarrow> x\<lparr>oa_finish_reason := Some st\<rparr> | None \<Rightarrow> x)
             in set_output (absorb_responses_output env response (oa_content x, oa_tool_calls x)) x)
      else if event_type = ''response.output_text.delta'' then
        (case get_str payload ''delta'' of Some delta \<Rightarrow> x\<lparr>oa_content := oa_content x @ delta\<rparr> | None \<Rightarrow> x)
      else if event_type = ''response.output_item.added'' \<or> event_type = ''response.output_item.done'' then
        (case jget payload ''item'' of
           Some item \<Rightarrow> set_output (absorb_responses_output_item env item (oa_content x, oa_tool_calls x)) x
         | None \<Rightarrow> x)
      else x)"

definition absorb_choice :: "cxtx_env \<Rightarrow> json \<Rightarrow> OpenAiExchange \<Rightarrow> OpenAiExchange" where
  "absorb_choice env choice x =
     (let x = (case jget choice ''delta'' of
                 None \<Rightarrow> x
               | Some delta \<Rightarrow>
                   let x = (case jget delta ''content'' of
                              Some c \<Rightarrow> x\<lparr>oa_content := oa_content x @ content_to_text env c\<rparr> | None \<Rightarrow> x)
                   in case get_array delta ''tool_calls'' of
                        Some cs \<Rightarrow> x\<lparr>oa_tool_calls := foldl (absorb_tool_call_delta env) (oa_tool_calls x) cs\<rparr>
                      | None \<Rightarrow> x)
      in if oa_finish_reason x = None then x\<lparr>oa_finish_reason := get_str choice ''finish_reason''\<rparr> else x)"

definition openai_absorb :: "cxtx_env \<Rightarrow> SseFrame \<Rightarrow> OpenAiExchange \<Rightarrow> OpenAiExchange" where
  "openai_absorb env frame x =
     (if trim (sf_data frame) = ''[DONE]'' then x
      else case from_json_str env (sf_data frame) of
             Inl err \<Rightarrow> x\<lparr>oa_parse_errors := oa_parse_errors x @ [''failed to parse OpenAI stream frame: '' @ err]\<rparr>
           | Inr payload \<Rightarrow>
               (case get_str payload ''type'' of
                  Some event_type \<Rightarrow> absorb_responses_event env event_type payload x
                | None \<Rightarrow>
                    let x = (if oa_model x = None then x\<lparr>oa_model := get_str payload ''model''\<rparr> else x)
                    in case Option.bind (get_array payload ''choices'') first_of of
                         Some choice \<Rightarrow> absorb_choice env choice x
                       | None \<Rightarrow> x))"

section \<open>Anthropic\<close>

record PartialToolUse =
  ptu_id :: string
  ptu_name :: string
  ptu_input_json :: string

datatype PartialBlock = PText string | PToolUse PartialToolUse

record AnthropicExchange =
  an_exchange_id :: string
  an_model :: "string option"
  an_blocks :: "(nat \<times> PartialBlock) list"
  an_finish_reason :: "string option"
  an_parse_errors :: "string list"

definition anthropic_new :: "string \<Rightarrow> string option \<Rightarrow> AnthropicExchange" where
  "anthropic_new exchange_id model = \<lparr>an_exchange_id = exchange_id, an_model = model, an_blocks = [],
     an_finish_reason = None, an_parse_errors = []\<rparr>"

definition is_bootstrap_user_block :: "json \<Rightarrow> bool" where
  "is_bootstrap_user_block block \<longleftrightarrow>
     (if get_str block ''type'' \<noteq> Some ''text'' then False
      else
        let text = trim_start (or_default (get_str block ''text''))
        in starts_with text ''<system-reminder>''
           \<and> (str_contains text ''SessionStart hook additional context''
              \<or> str_contains text ''The following skills are available for use with the Skill tool:''
              \<or> str_contains text (''As you answer the user'' @ [CHR 0x27] @ ''s questions, you can use the following context:'')))"

definition tool_result_block :: "cxtx_env \<Rightarrow> json \<Rightarrow> HistoryItem" where
  "tool_result_block env block =
     HToolResult (or_default (Option.bind (or_else (jget block ''tool_use_id'') (jget block ''id'')) j_str))
       (or_default (map_option (content_to_text env) (jget block ''content'')))
       (case Option.bind (jget block ''is_error'') j_bool of Some b \<Rightarrow> b | None \<Rightarrow> False)"

text \<open>The loop over the blocks of a user message, with the buffer of the text so far.\<close>

fun user_blocks_loop :: "cxtx_env \<Rightarrow> json list \<Rightarrow> HistoryItem list \<Rightarrow> string \<Rightarrow> HistoryItem list \<times> string" where
  "user_blocks_loop env [] history text_buffer = (history, text_buffer)"
| "user_blocks_loop env (block # blocks) history text_buffer =
     (if get_str block ''type'' = Some ''text'' then
        user_blocks_loop env blocks history
          ((if text_buffer \<noteq> [] then text_buffer @ [LF] else text_buffer) @ or_default (get_str block ''text''))
      else if get_str block ''type'' = Some ''tool_result'' then
        user_blocks_loop env blocks
          ((if text_buffer \<noteq> [] then history @ [HUserInput text_buffer []] else history) @ [tool_result_block env block]) []
      else user_blocks_loop env blocks history text_buffer)"

definition parse_user_blocks :: "cxtx_env \<Rightarrow> json \<Rightarrow> string + HistoryItem list" where
  "parse_user_blocks env content =
     (case content of
        JStr value \<Rightarrow> Inr [HUserInput value []]
      | JList blocks \<Rightarrow>
          let content_start = (case find_index_from (\<lambda>b. \<not> is_bootstrap_user_block b) 0 blocks of
                                 Some i \<Rightarrow> i | None \<Rightarrow> length blocks);
              (history, text_buffer) = user_blocks_loop env (drop content_start blocks) [] []
          in Inr (if text_buffer \<noteq> [] then history @ [HUserInput text_buffer []] else history)
      | _ \<Rightarrow> Inr [])"

definition assistant_block ::
  "cxtx_env \<Rightarrow> string \<times> ToolCallRecord list \<Rightarrow> json \<Rightarrow> string \<times> ToolCallRecord list" where
  "assistant_block env st block =
     (if get_str block ''type'' = Some ''text'' then (fst st @ or_default (get_str block ''text''), snd st)
      else if get_str block ''type'' = Some ''tool_use'' then
        (fst st, snd st @ [tool_call_record (or_default (get_str block ''id'')) (or_default (get_str block ''name''))
           (or_default (map_option (jsonish_to_string env) (jget block ''input'')))])
      else st)"

definition parse_assistant_content ::
  "cxtx_env \<Rightarrow> json \<Rightarrow> string option \<Rightarrow> string option \<Rightarrow> string + HistoryItem option" where
  "parse_assistant_content env content model finish_reason =
     (case content of
        JNull \<Rightarrow> Inr None
      | JStr value \<Rightarrow> Inr (Some (HAssistantTurn value [] model finish_reason))
      | JList blocks \<Rightarrow>
          let (text, tool_calls) = foldl (assistant_block env) ([], []) blocks
          in Inr (Some (HAssistantTurn text tool_calls model finish_reason))
      | _ \<Rightarrow> Inl ''unsupported Anthropic content shape'')"

definition anthropic_message :: "cxtx_env \<Rightarrow> string option \<Rightarrow> json \<Rightarrow> string + HistoryItem list" where
  "anthropic_message env model message =
     rbind (ok_or ''Anthropic request message missing role'' (get_str message ''role''))
       (\<lambda>role.
         let content = (case jget message ''content'' of Some c \<Rightarrow> c | None \<Rightarrow> JNull)
         in if role = ''user'' then parse_user_blocks env content
            else if role = ''assistant'' then
              rbind (parse_assistant_content env content model None)
                (\<lambda>item. Inr (case item of Some i \<Rightarrow> [i] | None \<Rightarrow> []))
            else Inr [])"

definition anthropic_request_history :: "cxtx_env \<Rightarrow> json \<Rightarrow> string + HistoryItem list" where
  "anthropic_request_history env payload =
     rbind (ok_or ''Anthropic request is missing messages array'' (get_array payload ''messages''))
       (\<lambda>messages. collect_history (anthropic_message env (get_str payload ''model'')) messages)"

subsection \<open>Streams\<close>

definition block_index :: "json \<Rightarrow> nat" where
  "block_index payload = unat (case Option.bind (jget payload ''index'') j_u64 of Some i \<Rightarrow> i | None \<Rightarrow> 0)"

definition content_block_start :: "cxtx_env \<Rightarrow> json \<Rightarrow> AnthropicExchange \<Rightarrow> AnthropicExchange" where
  "content_block_start env payload x =
     (let index = block_index payload;
          block = (case jget payload ''content_block'' of Some b \<Rightarrow> b | None \<Rightarrow> JNull)
      in if get_str block ''type'' = Some ''text'' then
           x\<lparr>an_blocks := bt_put index (PText (or_default (get_str block ''text''))) (an_blocks x)\<rparr>
         else if get_str block ''type'' = Some ''tool_use'' then
           x\<lparr>an_blocks := bt_put index (PToolUse
             \<lparr>ptu_id = or_default (get_str block ''id''), ptu_name = or_default (get_str block ''name''),
              ptu_input_json = or_default (map_option (jsonish_to_string env) (jget block ''input''))\<rparr>) (an_blocks x)\<rparr>
         else x)"

text \<open>\<^verbatim>\<open>entry(index).or_insert_with(..)\<close> followed by a change of the entry.\<close>

definition on_block :: "nat \<Rightarrow> PartialBlock \<Rightarrow> (PartialBlock \<Rightarrow> PartialBlock) \<Rightarrow> AnthropicExchange \<Rightarrow> AnthropicExchange" where
  "on_block index fresh f x =
     x\<lparr>an_blocks := bt_put index (f (case map_of (an_blocks x) index of Some b \<Rightarrow> b | None \<Rightarrow> fresh)) (an_blocks x)\<rparr>"

definition content_block_delta :: "json \<Rightarrow> AnthropicExchange \<Rightarrow> AnthropicExchange" where
  "content_block_delta payload x =
     (case jget payload ''delta'' of
        None \<Rightarrow> x
      | Some delta \<Rightarrow>
          if get_str delta ''type'' = Some ''text_delta'' then
            on_block (block_index payload) (PText [])
              (\<lambda>b. case b of PText v \<Rightarrow> PText (v @ or_default (get_str delta ''text'')) | _ \<Rightarrow> b) x
          else if get_str delta ''type'' = Some ''input_json_delta'' then
            on_block (block_index payload) (PToolUse \<lparr>ptu_id = [], ptu_name = [], ptu_input_json = []\<rparr>)
              (\<lambda>b. case b of
                     PToolUse v \<Rightarrow> PToolUse (v\<lparr>ptu_input_json := ptu_input_json v @ or_default (get_str delta ''partial_json'')\<rparr>)
                   | _ \<Rightarrow> b) x
          else x)"

definition anthropic_absorb :: "cxtx_env \<Rightarrow> SseFrame \<Rightarrow> AnthropicExchange \<Rightarrow> AnthropicExchange" where
  "anthropic_absorb env frame x =
     (case from_json_str env (sf_data frame) of
        Inl err \<Rightarrow> x\<lparr>an_parse_errors := an_parse_errors x @ [''failed to parse Anthropic stream frame: '' @ err]\<rparr>
      | Inr payload \<Rightarrow>
          if sf_event frame = Some ''message_start'' then
            (if an_model x = None
             then x\<lparr>an_model := Option.bind (jget payload ''message'') (\<lambda>m. get_str m ''model'')\<rparr> else x)
          else if sf_event frame = Some ''content_block_start'' then content_block_start env payload x
          else if sf_event frame = Some ''content_block_delta'' then content_block_delta payload x
          else if sf_event frame = Some ''message_delta'' then
            (if an_finish_reason x = None
             then x\<lparr>an_finish_reason := Option.bind (jget payload ''delta'') (\<lambda>d. get_str d ''stop_reason'')\<rparr> else x)
          else x)"

section \<open>Exchanges\<close>

datatype ExchangeState = XOpenAi OpenAiExchange | XAnthropic AnthropicExchange

datatype ProtocolKind = OpenAi | Anthropic

record PreparedExchange =
  pe_exchange_id :: string
  pe_model :: "string option"
  pe_request_turns :: "TurnEnvelope list"
  pe_state :: ExchangeState

definition one_turn :: "SessionRuntime \<times> TurnEnvelope \<Rightarrow> SessionRuntime \<times> TurnEnvelope list" where
  "one_turn r = (fst r, [snd r])"

text \<open>The two protocols prepare an exchange in the same way, with their own reader of the history, state and
  messages.\<close>

definition prepare_with ::
  "cxtx_env \<Rightarrow> string \<Rightarrow> (json \<Rightarrow> string + HistoryItem list) \<Rightarrow> (string \<Rightarrow> string option \<Rightarrow> ExchangeState) \<Rightarrow>
   string \<Rightarrow> bytes \<Rightarrow> ArtifactRefs \<Rightarrow> SessionRuntime \<Rightarrow> SessionRuntime \<times> PreparedExchange" where
  "prepare_with env name history new exchange_id body artifact_refs s =
     (case cx_from_slice env body of
        Inl err \<Rightarrow>
          let (s, turns) = one_turn (provider_error_turn env exchange_id ''request_parse_error''
                (''failed to parse '' @ name @ '' request body: '' @ err) None artifact_refs s)
          in (s, \<lparr>pe_exchange_id = exchange_id, pe_model = None, pe_request_turns = turns, pe_state = new exchange_id None\<rparr>)
      | Inr payload \<Rightarrow>
          let model = get_str payload ''model'';
              (s, turns) =
                (case history payload of
                   Inr h \<Rightarrow> observe_request_history env exchange_id h artifact_refs s
                 | Inl err \<Rightarrow> one_turn (provider_error_turn env exchange_id ''request_history_parse_error'' err None artifact_refs s))
          in (s, \<lparr>pe_exchange_id = exchange_id, pe_model = model, pe_request_turns = turns, pe_state = new exchange_id model\<rparr>))"

definition openai_prepare_exchange ::
  "cxtx_env \<Rightarrow> string \<Rightarrow> bytes \<Rightarrow> ArtifactRefs \<Rightarrow> SessionRuntime \<Rightarrow> SessionRuntime \<times> PreparedExchange" where
  "openai_prepare_exchange env = prepare_with env ''OpenAI'' (openai_request_history env) (\<lambda>i m. XOpenAi (openai_new i m))"

definition anthropic_prepare_exchange ::
  "cxtx_env \<Rightarrow> string \<Rightarrow> bytes \<Rightarrow> ArtifactRefs \<Rightarrow> SessionRuntime \<Rightarrow> SessionRuntime \<times> PreparedExchange" where
  "anthropic_prepare_exchange env = prepare_with env ''Anthropic'' (anthropic_request_history env) (\<lambda>i m. XAnthropic (anthropic_new i m))"

fun prepare_exchange ::
  "ProtocolKind \<Rightarrow> cxtx_env \<Rightarrow> string \<Rightarrow> bytes \<Rightarrow> ArtifactRefs \<Rightarrow> SessionRuntime \<Rightarrow> SessionRuntime \<times> PreparedExchange" where
  "prepare_exchange OpenAi = openai_prepare_exchange"
| "prepare_exchange Anthropic = anthropic_prepare_exchange"

text \<open>Likewise the end of an exchange with a JSON body: \<open>extract\<close> reads the assistant turn.\<close>

definition finalize_json_with ::
  "cxtx_env \<Rightarrow> string \<Rightarrow> (json \<Rightarrow> string + HistoryItem option) \<Rightarrow> string \<Rightarrow> u16 \<Rightarrow> string option \<Rightarrow> bytes \<Rightarrow> ArtifactRefs \<Rightarrow>
   SessionRuntime \<Rightarrow> SessionRuntime \<times> TurnEnvelope list" where
  "finalize_json_with env name extract exchange_id status request_id body artifact_refs s =
     (if 400 \<le> status then
        one_turn (provider_error_turn env exchange_id ''provider_error_response''
          (name @ '' upstream returned HTTP '' @ dec_str (unat status) @ '': '' @ trim (from_utf8_lossy body)) request_id artifact_refs s)
      else
        case cx_from_slice env body of
          Inl err \<Rightarrow>
            one_turn (provider_error_turn env exchange_id ''response_parse_error''
              (''failed to parse '' @ name @ '' response body: '' @ err) request_id artifact_refs s)
        | Inr payload \<Rightarrow>
            (case extract payload of
               Inr (Some item) \<Rightarrow> one_turn (append_history_item env exchange_id item s)
             | Inr None \<Rightarrow> (s, [])
             | Inl err \<Rightarrow> one_turn (provider_error_turn env exchange_id ''response_extract_error'' err request_id artifact_refs s)))"

definition anthropic_extract :: "cxtx_env \<Rightarrow> AnthropicExchange \<Rightarrow> json \<Rightarrow> string + HistoryItem option" where
  "anthropic_extract env x payload =
     parse_assistant_content env (case jget payload ''content'' of Some c \<Rightarrow> c | None \<Rightarrow> JNull)
       (or_else (get_str payload ''model'') (an_model x)) (get_str payload ''stop_reason'')"

definition openai_finalize_json ::
  "cxtx_env \<Rightarrow> OpenAiExchange \<Rightarrow> u16 \<Rightarrow> string option \<Rightarrow> bytes \<Rightarrow> ArtifactRefs \<Rightarrow> SessionRuntime \<Rightarrow> SessionRuntime \<times> TurnEnvelope list" where
  [simp]: "openai_finalize_json env x =
     finalize_json_with env ''OpenAI'' (\<lambda>p. parse_assistant_payload env p (oa_model x)) (oa_exchange_id x)"

definition anthropic_finalize_json ::
  "cxtx_env \<Rightarrow> AnthropicExchange \<Rightarrow> u16 \<Rightarrow> string option \<Rightarrow> bytes \<Rightarrow> ArtifactRefs \<Rightarrow> SessionRuntime \<Rightarrow> SessionRuntime \<times> TurnEnvelope list" where
  [simp]: "anthropic_finalize_json env x = finalize_json_with env ''Anthropic'' (anthropic_extract env x) (an_exchange_id x)"

fun finalize_json ::
  "cxtx_env \<Rightarrow> ExchangeState \<Rightarrow> u16 \<Rightarrow> string option \<Rightarrow> bytes \<Rightarrow> ArtifactRefs \<Rightarrow> SessionRuntime \<Rightarrow> SessionRuntime \<times> TurnEnvelope list" where
  "finalize_json env (XOpenAi x) = openai_finalize_json env x"
| "finalize_json env (XAnthropic x) = anthropic_finalize_json env x"

fun absorb_sse_frame :: "cxtx_env \<Rightarrow> SseFrame \<Rightarrow> ExchangeState \<Rightarrow> ExchangeState" where
  "absorb_sse_frame env frame (XOpenAi x) = XOpenAi (openai_absorb env frame x)"
| "absorb_sse_frame env frame (XAnthropic x) = XAnthropic (anthropic_absorb env frame x)"

text \<open>The end of a stream: \<open>result\<close> is the assistant turn collected, if any.\<close>

definition finalize_stream_with ::
  "cxtx_env \<Rightarrow> string \<Rightarrow> string list \<Rightarrow> HistoryItem option \<Rightarrow> string \<Rightarrow> u16 \<Rightarrow> string option \<Rightarrow> ArtifactRefs \<Rightarrow> string option \<Rightarrow>
   SessionRuntime \<Rightarrow> SessionRuntime \<times> TurnEnvelope list" where
  "finalize_stream_with env name parse_errors result exchange_id status request_id artifact_refs malformed_remainder s =
     (case (case malformed_remainder of Some r \<Rightarrow> if trim r \<noteq> [] then Some r else None | None \<Rightarrow> None) of
        Some remainder \<Rightarrow>
          one_turn (provider_error_turn env exchange_id ''malformed_sse_remainder''
            (name @ '' stream ended with leftover buffer: '' @ remainder) request_id artifact_refs s)
      | None \<Rightarrow>
          if parse_errors \<noteq> [] then
            one_turn (provider_error_turn env exchange_id ''stream_parse_error'' (join ''; '' parse_errors) request_id artifact_refs s)
          else if 400 \<le> status then
            one_turn (provider_error_turn env exchange_id ''provider_error_stream''
              (name @ '' upstream returned HTTP '' @ dec_str (unat status) @ '' during stream'') request_id artifact_refs s)
          else
            (case result of
               None \<Rightarrow> (s, [])
             | Some item \<Rightarrow> one_turn (append_history_item env exchange_id item s)))"

definition openai_result :: "OpenAiExchange \<Rightarrow> HistoryItem option" where
  "openai_result x =
     (if oa_content x = [] \<and> oa_tool_calls x = [] then None
      else Some (HAssistantTurn (oa_content x)
        (map (\<lambda>t. tool_call_record (ptc_call_id t) (ptc_name t) (ptc_args t)) (oa_tool_calls x)) (oa_model x) (oa_finish_reason x)))"

definition collect_block :: "string \<times> ToolCallRecord list \<Rightarrow> nat \<times> PartialBlock \<Rightarrow> string \<times> ToolCallRecord list" where
  "collect_block st b =
     (case snd b of
        PText value \<Rightarrow> (fst st @ value, snd st)
      | PToolUse tool \<Rightarrow> (fst st, snd st @ [tool_call_record (ptu_id tool) (ptu_name tool) (ptu_input_json tool)]))"

definition anthropic_result :: "AnthropicExchange \<Rightarrow> HistoryItem option" where
  "anthropic_result x =
     (let blocks = sort_key fst (an_blocks x)
      in if blocks = [] then None
         else let (text, tool_calls) = foldl collect_block ([], []) blocks
              in Some (HAssistantTurn text tool_calls (an_model x) (an_finish_reason x)))"

definition openai_finalize_stream ::
  "cxtx_env \<Rightarrow> OpenAiExchange \<Rightarrow> u16 \<Rightarrow> string option \<Rightarrow> ArtifactRefs \<Rightarrow> string option \<Rightarrow> SessionRuntime \<Rightarrow> SessionRuntime \<times> TurnEnvelope list" where
  [simp]: "openai_finalize_stream env x =
     finalize_stream_with env ''OpenAI'' (oa_parse_errors x) (openai_result x) (oa_exchange_id x)"

definition anthropic_finalize_stream ::
  "cxtx_env \<Rightarrow> AnthropicExchange \<Rightarrow> u16 \<Rightarrow> string option \<Rightarrow> ArtifactRefs \<Rightarrow> string option \<Rightarrow> SessionRuntime \<Rightarrow> SessionRuntime \<times> TurnEnvelope list" where
  [simp]: "anthropic_finalize_stream env x =
     finalize_stream_with env ''Anthropic'' (an_parse_errors x) (anthropic_result x) (an_exchange_id x)"

fun finalize_stream ::
  "cxtx_env \<Rightarrow> ExchangeState \<Rightarrow> u16 \<Rightarrow> string option \<Rightarrow> ArtifactRefs \<Rightarrow> string option \<Rightarrow> SessionRuntime \<Rightarrow> SessionRuntime \<times> TurnEnvelope list" where
  "finalize_stream env (XOpenAi x) = openai_finalize_stream env x"
| "finalize_stream env (XAnthropic x) = anthropic_finalize_stream env x"

end
