(* ===== verification/Cxtx_Http.thy ===== *)
theory Cxtx_Http
  imports Cxtx_Provider
begin

text \<open>
  The HTTP client with which \<^verbatim>\<open>cxtx\<close> uploads turns (\<^verbatim>\<open>cxtx/src/cxdb_http.rs\<close>).

  The network, the server behind it and the crates \<^verbatim>\<open>reqwest\<close> and \<^verbatim>\<open>url\<close> are the record \<open>http_env\<close>:
  \<open>hx_send n rq\<close> is what comes of the request \<open>rq\<close> when it is the \<open>n\<close>-th request of the client, so that any behaviour
  over time is some function.  The client record keeps the list of the requests it has sent.
\<close>

record HttpRequest =
  rq_method :: string
  rq_url :: string
  rq_client_tag :: string
  rq_body :: "json option"

record HttpResponse =
  rp_status :: u16
  rp_text :: "string option"
  rp_json :: "string + json"

text \<open>A transport error: whether \<^verbatim>\<open>is_connect\<close>, \<^verbatim>\<open>is_timeout\<close> or \<^verbatim>\<open>is_request\<close> holds, and its text.\<close>

datatype HttpOutcome = Failed bool string | Responded HttpResponse

record http_env =
  hx_send :: "nat \<Rightarrow> HttpRequest \<Rightarrow> HttpOutcome"
  hx_join :: "string \<Rightarrow> string \<Rightarrow> string + string"
  hx_status_text :: "u16 \<Rightarrow> string"
  hx_decode_err :: "json \<Rightarrow> string"
  hx_id_err :: "string \<Rightarrow> string"
  hx_bundle :: "string + json"

record CxdbHttpClient =
  hc_base_url :: string
  hc_client_tag :: string
  hc_registry_ready :: bool
  hc_sent :: "HttpRequest list"

datatype CxdbError = Retriable string | Permanent string

datatype FlexibleId = FString string | FNumber u64

definition into_u64 :: "http_env \<Rightarrow> FlexibleId \<Rightarrow> string + u64" where
  "into_u64 hx i = (case i of FString v \<Rightarrow> ok_or (hx_id_err hx v) (parse_u64 v) | FNumber v \<Rightarrow> Inr v)"

text \<open>Decoding \<^verbatim>\<open>CreateContextResponse\<close> and \<^verbatim>\<open>AppendResponse\<close>, objects with one identifier.\<close>

definition decode_id :: "http_env \<Rightarrow> string \<Rightarrow> json \<Rightarrow> string + FlexibleId" where
  "decode_id hx key v =
     (case jget v key of
        Some (JStr s) \<Rightarrow> Inr (FString s)
      | Some (JInt i) \<Rightarrow> if 0 \<le> i \<and> i < 2 ^ 64 then Inr (FNumber (of_int i)) else Inl (hx_decode_err hx v)
      | _ \<Rightarrow> Inl (hx_decode_err hx v))"

definition is_success :: "u16 \<Rightarrow> bool" where
  "is_success st \<longleftrightarrow> 200 \<le> st \<and> st < 300"

definition is_server_error :: "u16 \<Rightarrow> bool" where
  "is_server_error st \<longleftrightarrow> 500 \<le> st \<and> st < 600"

definition http_client_new :: "string \<Rightarrow> string \<Rightarrow> CxdbHttpClient" where
  "http_client_new base_url tag =
     \<lparr>hc_base_url = base_url, hc_client_tag = tag, hc_registry_ready = False, hc_sent = []\<rparr>"

definition classify_reqwest_error :: "bool \<Rightarrow> string \<Rightarrow> CxdbError" where
  "classify_reqwest_error retriable err = (if retriable then Retriable err else Permanent err)"

definition classify_status :: "http_env \<Rightarrow> u16 \<Rightarrow> string \<Rightarrow> CxdbError" where
  "classify_status hx status body =
     (if is_server_error status then Retriable (hx_status_text hx status @ '': '' @ body)
      else Permanent (hx_status_text hx status @ '': '' @ body))"

text \<open>Sending a request, and the common reading of the answer: a transport error or an error status is classified.\<close>

definition http_send :: "http_env \<Rightarrow> string \<Rightarrow> string \<Rightarrow> json option \<Rightarrow> CxdbHttpClient \<Rightarrow> CxdbHttpClient \<times> (CxdbError + HttpResponse)" where
  "http_send hx meth url body c =
     (let rq = \<lparr>rq_method = meth, rq_url = url, rq_client_tag = hc_client_tag c, rq_body = body\<rparr>;
          out = hx_send hx (length (hc_sent c)) rq
      in (c\<lparr>hc_sent := hc_sent c @ [rq]\<rparr>,
          case out of Failed retriable err \<Rightarrow> Inl (classify_reqwest_error retriable err) | Responded rp \<Rightarrow> Inr rp))"

definition checked :: "http_env \<Rightarrow> HttpResponse \<Rightarrow> CxdbError + HttpResponse" where
  "checked hx rp =
     (if \<not> is_success (rp_status rp) then Inl (classify_status hx (rp_status rp) (or_default (rp_text rp))) else Inr rp)"

definition join_url_at :: "http_env \<Rightarrow> string \<Rightarrow> CxdbHttpClient \<Rightarrow> CxdbError + string" where
  "join_url_at hx path c = (case hx_join hx (hc_base_url c) path of Inl e \<Rightarrow> Inl (Permanent e) | Inr u \<Rightarrow> Inr u)"

definition permanent :: "string + 'a \<Rightarrow> CxdbError + 'a" where
  "permanent r = (case r of Inl e \<Rightarrow> Inl (Permanent e) | Inr a \<Rightarrow> Inr a)"

definition create_context_http :: "http_env \<Rightarrow> CxdbHttpClient \<Rightarrow> CxdbHttpClient \<times> (CxdbError + u64)" where
  "create_context_http hx c =
     (case join_url_at hx ''/v1/contexts/create'' c of
        Inl e \<Rightarrow> (c, Inl e)
      | Inr url \<Rightarrow>
          let (c, r) = http_send hx ''POST'' url (Some (jobj [(''base_turn_id'', JStr ''0'')])) c
          in (c, rbind r (\<lambda>rp. rbind (checked hx rp) (\<lambda>rp.
                   rbind (permanent (rp_json rp)) (\<lambda>v.
                   rbind (permanent (decode_id hx ''context_id'' v)) (\<lambda>i. permanent (into_u64 hx i)))))))"

definition descriptor_path :: string where
  "descriptor_path =
     ''/v1/registry/types/'' @ TypeIDConversationItem @ ''/versions/'' @ dec_str (unat TypeVersionConversationItem)"

definition ensure_conversation_type_registered :: "http_env \<Rightarrow> CxdbHttpClient \<Rightarrow> CxdbHttpClient \<times> (CxdbError + unit)" where
  "ensure_conversation_type_registered hx c =
     (if hc_registry_ready c then (c, Inr ())
      else
        case join_url_at hx descriptor_path c of
          Inl e \<Rightarrow> (c, Inl e)
        | Inr url \<Rightarrow>
            let (c, r) = http_send hx ''GET'' url None c
            in (case r of
                  Inl e \<Rightarrow> (c, Inl e)
                | Inr rp \<Rightarrow>
                    if is_success (rp_status rp) then (c\<lparr>hc_registry_ready := True\<rparr>, Inr ())
                    else if rp_status rp \<noteq> 404 then (c, Inl (classify_status hx (rp_status rp) (or_default (rp_text rp))))
                    else
                      case hx_bundle hx of
                        Inl err \<Rightarrow> (c, Inl (Permanent (''invalid bundled registry json: '' @ err)))
                      | Inr bundle \<Rightarrow>
                          (case get_str bundle ''bundle_id'' of
                             None \<Rightarrow> (c, Inl (Permanent ''bundled registry missing bundle_id''))
                           | Some bundle_id \<Rightarrow>
                               (case join_url_at hx (''/v1/registry/bundles/'' @ bundle_id) c of
                                  Inl e \<Rightarrow> (c, Inl e)
                                | Inr url \<Rightarrow>
                                    let (c, r) = http_send hx ''PUT'' url (Some bundle) c
                                    in (case rbind r (checked hx) of
                                          Inl e \<Rightarrow> (c, Inl e)
                                        | Inr rp \<Rightarrow> (c\<lparr>hc_registry_ready := True\<rparr>, Inr ()))))))"

definition append_body :: "ConversationItem \<Rightarrow> json" where
  "append_body item =
     jobj [(''type_id'', JStr TypeIDConversationItem), (''type_version'', JInt (uint TypeVersionConversationItem)),
           (''data'', conversation_item_payload item)]"

definition append_path :: "u64 \<Rightarrow> string" where
  "append_path context_id = ''/v1/contexts/'' @ dec_str (unat context_id) @ ''/append''"

definition append_turn_http :: "http_env \<Rightarrow> u64 \<Rightarrow> ConversationItem \<Rightarrow> CxdbHttpClient \<Rightarrow> CxdbHttpClient \<times> (CxdbError + FlexibleId)" where
  "append_turn_http hx context_id item c =
     (let (c, r) = ensure_conversation_type_registered hx c
      in case r of
           Inl e \<Rightarrow> (c, Inl e)
         | Inr _ \<Rightarrow>
             (case join_url_at hx (append_path context_id) c of
                Inl e \<Rightarrow> (c, Inl e)
              | Inr url \<Rightarrow>
                  let (c, r) = http_send hx ''POST'' url (Some (append_body item)) c
                  in (c, rbind r (\<lambda>rp. rbind (checked hx rp) (\<lambda>rp.
                           rbind (permanent (rp_json rp)) (\<lambda>v. permanent (decode_id hx ''turn_id'' v)))))))"

definition list_contexts_http :: "http_env \<Rightarrow> CxdbHttpClient \<Rightarrow> CxdbHttpClient \<times> (string + json)" where
  "list_contexts_http hx c =
     (case hx_join hx (hc_base_url c) ''/v1/contexts?include_provenance=1'' of
        Inl e \<Rightarrow> (c, Inl ''failed to build contexts URL'')
      | Inr url \<Rightarrow>
          let (c, r) = http_send hx ''GET'' url None c
          in (c, case r of
                   Inl e \<Rightarrow> Inl ''request to list contexts failed''
                 | Inr rp \<Rightarrow>
                     if \<not> is_success (rp_status rp) then Inl (''list contexts failed: '' @ hx_status_text hx (rp_status rp))
                     else (case rp_json rp of Inl e \<Rightarrow> Inl ''failed to decode list contexts response'' | Inr v \<Rightarrow> Inr v)))"

definition get_provenance_http :: "http_env \<Rightarrow> u64 \<Rightarrow> CxdbHttpClient \<Rightarrow> CxdbHttpClient \<times> (string + json)" where
  "get_provenance_http hx context_id c =
     (case hx_join hx (hc_base_url c) (''/v1/contexts/'' @ dec_str (unat context_id) @ ''/provenance'') of
        Inl e \<Rightarrow> (c, Inl ''failed to build provenance URL'')
      | Inr url \<Rightarrow>
          let (c, r) = http_send hx ''GET'' url None c
          in (c, case r of
                   Inl e \<Rightarrow> Inl ''request to get provenance failed''
                 | Inr rp \<Rightarrow>
                     if \<not> is_success (rp_status rp) then Inl (''provenance lookup failed: '' @ hx_status_text hx (rp_status rp))
                     else (case rp_json rp of Inl e \<Rightarrow> Inl ''failed to decode provenance response'' | Inr v \<Rightarrow> Inr v)))"

end
