(* ===== verification/Cxtx_Ledger.thy ===== *)
theory Cxtx_Ledger
  imports Cxtx_Provider
begin

text \<open>
  The ledger of a session (\<^verbatim>\<open>cxtx/src/ledger.rs\<close>): what has been delivered, the exchanges and where their
  bodies were written.  Every change is followed by a rewrite of \<^verbatim>\<open>ledger.json\<close>; the file holds the ledger of
  the last rewrite that succeeded.  The outcomes of the file operations of one call are the argument \<open>io\<close>: \<open>io k\<close> is
  the error of the \<open>k\<close>-th of them, or none.  A write that fails writes nothing.  A path is the
  string that \<^verbatim>\<open>display\<close> shows.
\<close>

record ExchangeArtifactRecord =
  ex_exchange_id :: string
  ex_endpoint :: "string option"
  ex_model :: "string option"
  ex_provider_request_id :: "string option"
  ex_status_code :: "u16 option"
  ex_request_path :: "string option"
  ex_response_path :: "string option"
  ex_stream_path :: "string option"

record SessionLedger =
  sl_session_id :: string
  sl_provider_kind :: string
  sl_child_command :: string
  sl_child_args :: "string list"
  sl_started_at :: int
  sl_ended_at :: "int option"
  sl_child_pid :: "u32 option"
  sl_child_exit_code :: "int option"
  sl_cxdb_context_id :: "u64 option"
  sl_delivery_state :: string
  sl_queue_depth :: nat
  sl_appended_sequences :: "u64 list"
  sl_provider_request_ids :: "string list"
  sl_last_delivery_error :: "string option"
  sl_artifacts_root :: string
  sl_exchanges :: "ExchangeArtifactRecord list"

type_synonym io = "nat \<Rightarrow> string option"

record SessionLedgerWriter =
  lw_root :: string
  lw_state :: SessionLedger
  lw_json :: "SessionLedger option"
  lw_files :: "string \<rightharpoonup> bytes"

definition ledger_path :: "SessionLedgerWriter \<Rightarrow> string" where
  "ledger_path w = lw_root w @ ''/ledger.json''"

definition exchanges_dir :: "SessionLedgerWriter \<Rightarrow> string" where
  "exchanges_dir w = lw_root w @ ''/exchanges''"

text \<open>Creating the directory and writing the file: operations \<open>k\<close> and \<open>k + 1\<close>.\<close>

definition ledger_persist :: "io \<Rightarrow> nat \<Rightarrow> SessionLedgerWriter \<Rightarrow> SessionLedgerWriter \<times> (string + unit)" where
  "ledger_persist io k w =
     (case io k of
        Some e \<Rightarrow> (w, Inl e)
      | None \<Rightarrow> (case io (k + 1) of Some e \<Rightarrow> (w, Inl e) | None \<Rightarrow> (w\<lparr>lw_json := Some (lw_state w)\<rparr>, Inr ())))"

definition ledger_update :: "io \<Rightarrow> nat \<Rightarrow> (SessionLedger \<Rightarrow> SessionLedger) \<Rightarrow> SessionLedgerWriter \<Rightarrow> SessionLedgerWriter \<times> (string + unit)" where
  "ledger_update io k f w = ledger_persist io k (w\<lparr>lw_state := f (lw_state w)\<rparr>)"

definition ledger_create :: "io \<Rightarrow> SessionRuntime \<Rightarrow> string + SessionLedgerWriter" where
  "ledger_create io s =
     (let root = ''.scratch/cxtx/sessions/'' @ cs_session_id (sr_session s);
          ledger = \<lparr>sl_session_id = cs_session_id (sr_session s), sl_provider_kind = provider_name (sr_provider s),
            sl_child_command = cs_child_command (sr_session s), sl_child_args = cs_child_args (sr_session s),
            sl_started_at = cs_started_at (sr_session s), sl_ended_at = None, sl_child_pid = None, sl_child_exit_code = None,
            sl_cxdb_context_id = None, sl_delivery_state = ''starting'', sl_queue_depth = 0, sl_appended_sequences = [],
            sl_provider_request_ids = [], sl_last_delivery_error = None, sl_artifacts_root = root @ ''/exchanges'',
            sl_exchanges = []\<rparr>;
          w = \<lparr>lw_root = root, lw_state = ledger, lw_json = None, lw_files = Map.empty\<rparr>
      in case io 0 of
           Some e \<Rightarrow> Inl e
         | None \<Rightarrow> (case ledger_persist io 1 w of (w, Inl e) \<Rightarrow> Inl e | (w, Inr _) \<Rightarrow> Inr w))"

definition note_child_pid :: "io \<Rightarrow> u32 option \<Rightarrow> SessionLedgerWriter \<Rightarrow> SessionLedgerWriter \<times> (string + unit)" where
  "note_child_pid io pid = ledger_update io 0 (\<lambda>l. l\<lparr>sl_child_pid := pid\<rparr>)"

definition note_context_created :: "io \<Rightarrow> u64 \<Rightarrow> SessionLedgerWriter \<Rightarrow> SessionLedgerWriter \<times> (string + unit)" where
  "note_context_created io context_id = ledger_update io 0 (\<lambda>l. l\<lparr>sl_cxdb_context_id := Some context_id\<rparr>)"

definition push_new :: "'a \<Rightarrow> 'a list \<Rightarrow> 'a list" where
  "push_new x xs = (if x \<in> set xs then xs else xs @ [x])"

definition note_append_sequence :: "io \<Rightarrow> u64 \<Rightarrow> SessionLedgerWriter \<Rightarrow> SessionLedgerWriter \<times> (string + unit)" where
  "note_append_sequence io sequence =
     ledger_update io 0 (\<lambda>l. l\<lparr>sl_appended_sequences := push_new sequence (sl_appended_sequences l)\<rparr>)"

definition note_delivery_state :: "io \<Rightarrow> string \<Rightarrow> nat \<Rightarrow> string option \<Rightarrow> SessionLedgerWriter \<Rightarrow> SessionLedgerWriter \<times> (string + unit)" where
  "note_delivery_state io st depth error =
     ledger_update io 0 (\<lambda>l. l\<lparr>sl_delivery_state := st, sl_queue_depth := depth, sl_last_delivery_error := error\<rparr>)"

definition note_request_id :: "io \<Rightarrow> nat \<Rightarrow> string \<Rightarrow> SessionLedgerWriter \<Rightarrow> SessionLedgerWriter \<times> (string + unit)" where
  "note_request_id io k request_id =
     ledger_update io k (\<lambda>l. l\<lparr>sl_provider_request_ids := push_new request_id (sl_provider_request_ids l)\<rparr>)"

definition note_child_exit :: "io \<Rightarrow> int \<Rightarrow> int \<Rightarrow> SessionLedgerWriter \<Rightarrow> SessionLedgerWriter \<times> (string + unit)" where
  "note_child_exit io now exit_code = ledger_update io 0 (\<lambda>l. l\<lparr>sl_child_exit_code := Some exit_code, sl_ended_at := Some now\<rparr>)"

definition ledger_finalize :: "io \<Rightarrow> int \<Rightarrow> SessionLedgerWriter \<Rightarrow> SessionLedgerWriter \<times> (string + unit)" where
  "ledger_finalize io now =
     ledger_update io 0 (\<lambda>l. l\<lparr>sl_ended_at := (case sl_ended_at l of Some t \<Rightarrow> Some t | None \<Rightarrow> Some now)\<rparr>)"

definition default_exchange :: "string \<Rightarrow> ExchangeArtifactRecord" where
  "default_exchange i = \<lparr>ex_exchange_id = i, ex_endpoint = None, ex_model = None, ex_provider_request_id = None,
     ex_status_code = None, ex_request_path = None, ex_response_path = None, ex_stream_path = None\<rparr>"

definition update_exchange ::
  "io \<Rightarrow> nat \<Rightarrow> string \<Rightarrow> (ExchangeArtifactRecord \<Rightarrow> ExchangeArtifactRecord) \<Rightarrow> SessionLedgerWriter \<Rightarrow>
   SessionLedgerWriter \<times> (string + unit)" where
  "update_exchange io k exchange_id update =
     ledger_update io k (\<lambda>l. l\<lparr>sl_exchanges :=
       (case update_first (\<lambda>r. ex_exchange_id r = exchange_id) update (sl_exchanges l) of
          Some rs \<Rightarrow> rs
        | None \<Rightarrow> sl_exchanges l @ [update (default_exchange exchange_id)])\<rparr>)"

text \<open>The file a body is written to, and its contents: printed JSON when the body was parsed, else the body.\<close>

definition body_artifact :: "cxtx_env \<Rightarrow> string \<Rightarrow> string \<Rightarrow> string option \<Rightarrow> bytes \<Rightarrow> json option \<Rightarrow> (string \<times> bytes) option" where
  "body_artifact env dir stem content_type body parsed_json =
     (case parsed_json of
        Some j \<Rightarrow> map_option (\<lambda>s. (dir @ ''/'' @ stem @ ''.json'', as_bytes s)) (cx_pretty env j)
      | None \<Rightarrow>
          if (case content_type of Some v \<Rightarrow> starts_with v ''text/'' \<or> str_contains v ''event-stream'' | None \<Rightarrow> False)
          then Some (dir @ ''/'' @ stem @ ''.txt'', body)
          else Some (dir @ ''/'' @ stem @ ''.bin'', body))"

definition write_body_artifact ::
  "cxtx_env \<Rightarrow> io \<Rightarrow> nat \<Rightarrow> string \<Rightarrow> string \<Rightarrow> string option \<Rightarrow> bytes \<Rightarrow> json option \<Rightarrow> SessionLedgerWriter \<Rightarrow>
   SessionLedgerWriter \<times> (string + string)" where
  "write_body_artifact env io k dir stem content_type body parsed_json w =
     (case body_artifact env dir stem content_type body parsed_json of
        None \<Rightarrow> (w, Inl ''failed to encode json artifact'')
      | Some (path, payload) \<Rightarrow>
          (case io k of Some e \<Rightarrow> (w, Inl e) | None \<Rightarrow> (w\<lparr>lw_files := (lw_files w)(path \<mapsto> payload)\<rparr>, Inr path)))"

definition exchange_dir :: "string \<Rightarrow> SessionLedgerWriter \<Rightarrow> string" where
  "exchange_dir exchange_id w = exchanges_dir w @ ''/'' @ exchange_id"

definition record_request ::
  "cxtx_env \<Rightarrow> io \<Rightarrow> string \<Rightarrow> string \<Rightarrow> string option \<Rightarrow> string option \<Rightarrow> bytes \<Rightarrow> json option \<Rightarrow> SessionLedgerWriter \<Rightarrow>
   SessionLedgerWriter \<times> (string + string)" where
  "record_request env io exchange_id endpoint model content_type body parsed_json w =
     (case io 0 of
        Some e \<Rightarrow> (w, Inl e)
      | None \<Rightarrow>
          (case write_body_artifact env io 1 (exchange_dir exchange_id w) ''request'' content_type body parsed_json w of
             (w, Inl e) \<Rightarrow> (w, Inl e)
           | (w, Inr path) \<Rightarrow>
               (case update_exchange io 2 exchange_id
                   (\<lambda>r. r\<lparr>ex_endpoint := Some endpoint, ex_model := model, ex_request_path := Some path\<rparr>) w of
                  (w, Inl e) \<Rightarrow> (w, Inl e)
                | (w, Inr _) \<Rightarrow> (w, Inr path))))"

definition record_response ::
  "cxtx_env \<Rightarrow> io \<Rightarrow> string \<Rightarrow> u16 \<Rightarrow> string option \<Rightarrow> string option \<Rightarrow> bytes \<Rightarrow> json option \<Rightarrow> SessionLedgerWriter \<Rightarrow>
   SessionLedgerWriter \<times> (string + string)" where
  "record_response env io exchange_id status_code provider_request_id content_type body parsed_json w =
     (case io 0 of
        Some e \<Rightarrow> (w, Inl e)
      | None \<Rightarrow>
          (case write_body_artifact env io 1 (exchange_dir exchange_id w) ''response'' content_type body parsed_json w of
             (w, Inl e) \<Rightarrow> (w, Inl e)
           | (w, Inr path) \<Rightarrow>
               (case update_exchange io 2 exchange_id
                   (\<lambda>r. r\<lparr>ex_status_code := Some status_code, ex_provider_request_id := provider_request_id,
                          ex_response_path := Some path\<rparr>) w of
                  (w, Inl e) \<Rightarrow> (w, Inl e)
                | (w, Inr _) \<Rightarrow>
                    (case provider_request_id of
                       None \<Rightarrow> (w, Inr path)
                     | Some request_id \<Rightarrow>
                         (case note_request_id io 4 request_id w of
                            (w, Inl e) \<Rightarrow> (w, Inl e)
                          | (w, Inr _) \<Rightarrow> (w, Inr path))))))"

definition append_stream_frame ::
  "cxtx_env \<Rightarrow> io \<Rightarrow> string \<Rightarrow> string \<Rightarrow> SessionLedgerWriter \<Rightarrow> SessionLedgerWriter \<times> (string + string)" where
  "append_stream_frame env io exchange_id raw_frame w =
     (let path = exchange_dir exchange_id w @ ''/stream.ndjson''
      in case io 0 of
           Some e \<Rightarrow> (w, Inl e)
         | None \<Rightarrow>
             (case io 1 of
                Some e \<Rightarrow> (w, Inl e)
              | None \<Rightarrow>
                  let w = w\<lparr>lw_files := (lw_files w)(path \<mapsto> or_default (lw_files w path))\<rparr>
                  in (case cx_to_string env (jobj [(''frame'', JStr raw_frame)]) of
                     None \<Rightarrow> (w, Inl ''failed to encode stream frame'')
                   | Some payload \<Rightarrow>
                       (case io 2 of
                          Some e \<Rightarrow> (w, Inl e)
                        | None \<Rightarrow>
                            let w = w\<lparr>lw_files := (lw_files w)(path \<mapsto> or_default (lw_files w path) @ as_bytes payload)\<rparr>
                            in (case io 3 of
                                  Some e \<Rightarrow> (w, Inl e)
                                | None \<Rightarrow>
                                    let w = w\<lparr>lw_files := (lw_files w)(path \<mapsto> or_default (lw_files w path) @ [10])\<rparr>
                                    in (case update_exchange io 4 exchange_id (\<lambda>r. r\<lparr>ex_stream_path := Some path\<rparr>) w of
                                          (w, Inl e) \<Rightarrow> (w, Inl e)
                                        | (w, Inr _) \<Rightarrow> (w, Inr path)))))))"

end
