(* ===== verification/Cxtx_History.thy ===== *)
theory Cxtx_History
  imports Cxtx_Provider
begin

text \<open>
  What a captured session promises: turns are numbered without gaps, whatever operation emits them, and the
  turns uploaded for a request say exactly how the conversation continued.
\<close>

section \<open>Numbering\<close>

text \<open>\<open>emits s s' ts\<close>: going from \<open>s\<close> to \<open>s'\<close> a session has emitted the turns \<open>ts\<close>, numbered from the next ordinal of
  \<open>s\<close> on, and is still the same session.\<close>

definition emits :: "SessionRuntime \<Rightarrow> SessionRuntime \<Rightarrow> TurnEnvelope list \<Rightarrow> bool" where
  "emits s s' ts \<longleftrightarrow>
     map te_ordinal ts = map (\<lambda>i. sr_next_turn_ordinal s + of_nat (Suc i)) [0..<length ts]
     \<and> sr_next_turn_ordinal s' = sr_next_turn_ordinal s + of_nat (length ts)
     \<and> sr_session s' = sr_session s"

lemma emits_Nil: "sr_next_turn_ordinal s' = sr_next_turn_ordinal s \<Longrightarrow> sr_session s' = sr_session s \<Longrightarrow> emits s s' []"
  by (simp add: emits_def)

lemma emits_append:
  assumes "emits s s' ts" and "emits s' s'' us"
  shows "emits s s'' (ts @ us)"
proof -
  have "map (\<lambda>i. sr_next_turn_ordinal s + of_nat (Suc i)) [0..<length ts + length us] =
      map (\<lambda>i. sr_next_turn_ordinal s + of_nat (Suc i)) [0..<length ts]
      @ map (\<lambda>i. sr_next_turn_ordinal s + of_nat (length ts) + of_nat (Suc i)) [0..<length us]"
  proof -
    have "[length ts..<length ts + length us] = map (\<lambda>i. length ts + i) [0..<length us]"
      by (simp add: map_add_upt add.commute)
    then show ?thesis by (simp add: upt_add_eq_append [of 0, simplified] ac_simps)
  qed
  with assms show ?thesis by (simp add: emits_def ac_simps)
qed

lemma emits_observed [simp]:
  "emits (s\<lparr>sr_observed_history := h\<rparr>) s' ts = emits s s' ts"
  "emits s (s'\<lparr>sr_observed_history := h\<rparr>) ts = emits s s' ts"
  by (simp_all add: emits_def)

lemma emits_one: "emits s (fst (next_turn_ordinal s)) [\<lparr>te_ordinal = snd (next_turn_ordinal s), te_item = i\<rparr>]"
  by (simp add: emits_def next_turn_ordinal_def Let_def)

named_theorems session_emits \<open>the turns emitted by the operations of a session\<close>

lemma emits_session_start [session_emits]: "session_start_turn env s = (s', t) \<Longrightarrow> emits s s' [t]"
  using emits_one [of s] by (auto simp: session_start_turn_def split: prod.splits)

lemma emits_session_end [session_emits]: "session_end_turn env c ok s = (s', t) \<Longrightarrow> emits s s' [t]"
  using emits_one [of s] by (auto simp: session_end_turn_def split: prod.splits)

lemma emits_degraded [session_emits]: "ingest_degraded_turn env n e s = (s', t) \<Longrightarrow> emits s s' [t]"
  using emits_one [of s] by (auto simp: ingest_degraded_turn_def split: prod.splits)

lemma emits_recovered [session_emits]: "ingest_recovered_turn env n s = (s', t) \<Longrightarrow> emits s s' [t]"
  using emits_one [of s] by (auto simp: ingest_recovered_turn_def split: prod.splits)

lemma emits_provider_error [session_emits]: "provider_error_turn env x ti m r a s = (s', t) \<Longrightarrow> emits s s' [t]"
  using emits_one [of s] by (auto simp: provider_error_turn_def split: prod.splits)

lemma emits_append_item [session_emits]: "append_history_item env x i s = (s', t) \<Longrightarrow> emits s s' [t]"
  using emits_one [of s] by (auto simp: append_history_item_def split: prod.splits)

lemma emits_history_turns: "history_turns env x items s = (s', ts) \<Longrightarrow> emits s s' ts"
proof (induction items arbitrary: s s' ts)
  case (Cons i items)
  obtain s1 n where n: "next_turn_ordinal s = (s1, n)" by fastforce
  obtain s2 us where u: "history_turns env x items s1 = (s2, us)" by fastforce
  let ?t = "\<lparr>te_ordinal = n, te_item = history_item_to_conversation_item env (sr_session s1) n x i\<rparr>"
  from Cons.prems n u have eq: "s' = s2" "ts = [?t] @ us" by simp_all
  from emits_one [of s] n have "emits s s1 [?t]" by simp
  with Cons.IH [OF u] show ?case unfolding eq by (rule emits_append [rotated])
qed (simp add: emits_Nil)

lemma emits_observe [session_emits]:
  assumes "observe_request_history env x h a s = (s', ts)"
  shows "emits s s' ts"
proof (cases "common_prefix_len (sr_observed_history s) (map normalize_history_item h) < length (sr_observed_history s)")
  case True
  obtain s1 n where n: "next_turn_ordinal s = (s1, n)" by fastforce
  let ?p = "common_prefix_len (sr_observed_history s) (map normalize_history_item h)"
  obtain s2 us where u: "history_turns env x (drop ?p h) s1 = (s2, us)" by fastforce
  let ?t = "\<lparr>te_ordinal = n, te_item = rewrite_item env (sr_session s1) n x (length (sr_observed_history s)) (length h) a\<rparr>"
  from assms True n u have eq: "s' = s2\<lparr>sr_observed_history := map normalize_history_item h\<rparr>" "ts = [?t] @ us"
    by (auto simp: observe_request_history_def Let_def)
  from emits_one [of s] n have "emits s s1 [?t]" by simp
  from emits_append [OF this emits_history_turns [OF u]] show ?thesis unfolding eq by simp
next
  case False
  with assms show ?thesis
    by (auto simp: observe_request_history_def Let_def split: prod.splits dest: emits_history_turns)
qed

lemmas session_emits_pair =
  emits_provider_error [OF prod.collapse [symmetric]] emits_append_item [OF prod.collapse [symmetric]]

lemma emits_prepare:
  assumes "prepare_exchange k env x body a s = (s', pe)"
  shows "emits s s' (pe_request_turns pe) \<and> pe_exchange_id pe = x"
proof -
  have gen: "emits s s' (pe_request_turns pe) \<and> pe_exchange_id pe = x"
    if "prepare_with env nm hist new x body a s = (s', pe)" for nm hist new
    using that
    by (auto simp: prepare_with_def one_turn_def Let_def split: sum.splits prod.splits intro: session_emits session_emits_pair)
  from assms show ?thesis
    by (cases k) (auto simp: openai_prepare_exchange_def anthropic_prepare_exchange_def dest: gen)
qed

lemma emits_finalize_json:
  assumes "finalize_json env st status rid body a s = (s', ts)"
  shows "emits s s' ts"
proof -
  have gen: "emits s s' ts" if "finalize_json_with env nm ex i status rid body a s = (s', ts)" for nm ex i
    using that
    by (auto simp: finalize_json_with_def one_turn_def emits_Nil split: sum.splits option.splits prod.splits if_splits
        intro: session_emits session_emits_pair)
  from assms show ?thesis by (cases st) (auto dest: gen)
qed

lemma emits_finalize_stream:
  assumes "finalize_stream env st status rid a rem s = (s', ts)"
  shows "emits s s' ts"
proof -
  have gen: "emits s s' ts" if "finalize_stream_with env nm errs res i status rid a rem s = (s', ts)" for nm errs res i
    using that
    by (auto simp: finalize_stream_with_def one_turn_def emits_Nil split: option.splits prod.splits if_splits
        intro: session_emits session_emits_pair)
  from assms show ?thesis by (cases st) (auto dest: gen)
qed

section \<open>The conversation in the uploaded turns\<close>

text \<open>What an uploaded item says of the conversation, and the marker of a rewritten history.\<close>

definition item_history :: "ConversationItem \<Rightarrow> HistoryItem option" where
  "item_history item =
     (case ci_user_input item of
        Some u \<Rightarrow> Some (HUserInput (ui_text u) (ui_files u))
      | None \<Rightarrow>
          (case ci_turn item of
             Some t \<Rightarrow> Some (HAssistantTurn (at_text t)
               (map (\<lambda>c. tool_call_record (tci_id c) (tci_name c) (tci_args c)) (at_tool_calls t)) None None)
           | None \<Rightarrow>
               map_option (\<lambda>r. HToolResult (trs_call_id r) (trs_content r) (trs_is_error r)) (ci_tool_result item)))"

definition is_rewrite :: "TurnEnvelope \<Rightarrow> bool" where
  "is_rewrite t \<longleftrightarrow> map_option sm_title (ci_system (te_item t)) = Some ''history_rewrite_detected''"

lemma with_tool_calls:
  "ci_turn (foldl (\<lambda>b c. with_tool_call (pending_tool_call c) b) b cs) =
     map_option (\<lambda>t. t\<lparr>at_tool_calls := at_tool_calls t @ map pending_tool_call cs\<rparr>) (ci_turn b)
   \<and> ci_user_input (foldl (\<lambda>b c. with_tool_call (pending_tool_call c) b) b cs) = ci_user_input b"
proof (induction cs arbitrary: b)
  case Nil
  then show ?case by (cases "ci_turn b") simp_all
next
  case (Cons c cs)
  then show ?case by (cases "ci_turn b") (simp_all add: with_tool_call_def on_turn_def)
qed

lemma item_history_item:
  "item_history (history_item_to_conversation_item env ss n x h) = Some (normalize_history_item h)"
proof (cases h)
  case (HAssistantTurn body calls model reason)
  have calls: "map (\<lambda>c. tool_call_record (tci_id (pending_tool_call c)) (tci_name (pending_tool_call c))
      (tci_args (pending_tool_call c))) calls = calls"
    by (induction calls)
      (simp_all add: pending_tool_call_def tool_with_status_def new_tool_call_item_def tool_call_record_def)
  from HAssistantTurn show ?thesis
    by (auto simp: history_item_to_conversation_item_def item_history_def Let_def with_id_def with_full_metrics_def
        with_finish_reason_def on_turn_def with_tool_calls new_assistant_turn_def calls comp_def split: option.split)
qed (auto simp: history_item_to_conversation_item_def item_history_def Let_def new_user_input_def new_tool_result_def
      result_with_error_def)

lemma history_turns_items:
  "history_turns env x items s = (s', ts) \<Longrightarrow>
    map (item_history \<circ> te_item) ts = map (Some \<circ> normalize_history_item) items"
proof (induction items arbitrary: s s' ts)
  case (Cons i items)
  then show ?case by (auto simp: item_history_item Let_def split: prod.splits)
qed simp

lemma common_prefix_len_props:
  "common_prefix_len xs ys \<le> length xs \<and> common_prefix_len xs ys \<le> length ys
   \<and> take (common_prefix_len xs ys) xs = take (common_prefix_len xs ys) ys
   \<and> (common_prefix_len xs ys < length xs \<and> common_prefix_len xs ys < length ys \<longrightarrow>
        xs ! common_prefix_len xs ys \<noteq> ys ! common_prefix_len xs ys)"
  by (induction xs ys rule: common_prefix_len.induct) auto

lemma common_prefix_len_append: "common_prefix_len xs (xs @ ys) = length xs"
  by (induction xs) auto

lemma is_rewrite_item: "is_rewrite \<lparr>te_ordinal = n, te_item = rewrite_item env ss n x p q a\<rparr>"
  by (simp add: is_rewrite_def rewrite_item_def system_item_def with_id_def with_title_def new_system_message_def)

lemma observe_cases:
  assumes "observe_request_history env x h a s = (s', ts)"
  defines "k \<equiv> common_prefix_len (sr_observed_history s) (map normalize_history_item h)"
  obtains marker items s1 s2 where "ts = marker @ items" "history_turns env x (drop k h) s1 = (s2, items)"
    "s' = s2\<lparr>sr_observed_history := map normalize_history_item h\<rparr>"
    "if k < length (sr_observed_history s) then length marker = 1 \<and> is_rewrite (hd marker) else marker = []"
proof (cases "k < length (sr_observed_history s)")
  case True
  obtain s1 n where n: "next_turn_ordinal s = (s1, n)" by fastforce
  obtain s2 us where u: "history_turns env x (drop k h) s1 = (s2, us)" by fastforce
  let ?t = "\<lparr>te_ordinal = n, te_item = rewrite_item env (sr_session s1) n x (length (sr_observed_history s)) (length h) a\<rparr>"
  from assms(1) True n u have "ts = [?t] @ us" "s' = s2\<lparr>sr_observed_history := map normalize_history_item h\<rparr>"
    by (simp_all add: observe_request_history_def Let_def flip: k_def)
  with True u show thesis by (intro that [of "[?t]" us s1 s2]) (simp_all add: is_rewrite_item)
next
  case False
  obtain s2 us where u: "history_turns env x (drop k h) s = (s2, us)" by fastforce
  from assms(1) False u have "ts = us" "s' = s2\<lparr>sr_observed_history := map normalize_history_item h\<rparr>"
    by (simp_all add: observe_request_history_def Let_def flip: k_def)
  with False u show thesis by (intro that [of "[]" us s s2]) simp_all
qed

text \<open>C9. What the turns uploaded for a request say: there is a longest common part of the history seen so far and
  the history in the request; one turn is uploaded for every item after it, in order, and says exactly that item (up
  to the model and the finish reason, which a request does not repeat faithfully); a rewrite marker comes first
  exactly when the history seen so far is not continued, and there is no other; the turns are numbered without gaps.
  So the conversation is what was common followed by what the new turns say.\<close>

theorem captured_history:
  assumes "observe_request_history env x h a s = (s', ts)"
  shows "\<exists>k marker items. ts = marker @ items \<and> emits s s' ts
    \<and> sr_observed_history s' = map normalize_history_item h
    \<and> map normalize_history_item h = take k (sr_observed_history s) @ map (the \<circ> item_history \<circ> te_item) items
    \<and> (k < length (sr_observed_history s) \<and> items \<noteq> [] \<longrightarrow>
         sr_observed_history s ! k \<noteq> the (item_history (te_item (hd items))))
    \<and> (if k < length (sr_observed_history s) then length marker = 1 \<and> is_rewrite (hd marker) else marker = [])"
proof -
  let ?old = "sr_observed_history s"
  let ?new = "map normalize_history_item h"
  let ?k = "common_prefix_len ?old ?new"
  from assms obtain marker items s1 s2 where ts: "ts = marker @ items" and
    hist: "history_turns env x (drop ?k h) s1 = (s2, items)" and
    s': "s' = s2\<lparr>sr_observed_history := ?new\<rparr>" and
    marker: "if ?k < length ?old then length marker = 1 \<and> is_rewrite (hd marker) else marker = []"
    by (rule observe_cases)
  from history_turns_items [OF hist] have items: "map (the \<circ> item_history \<circ> te_item) items = drop ?k ?new"
    by (auto dest!: arg_cong [where f = "map the"] simp: comp_def drop_map)
  note p = common_prefix_len_props [of ?old ?new]
  have "?old ! ?k \<noteq> the (item_history (te_item (hd items)))" if "?k < length ?old" "items \<noteq> []"
  proof -
    from items that(2) have lt: "?k < length ?new"
      by (cases "?k < length ?new") (auto simp del: length_map dest: drop_all [OF leI])
    from items have "hd (map (the \<circ> item_history \<circ> te_item) items) = ?new ! ?k" by (simp only: hd_drop_conv_nth [OF lt])
    with that(2) have "the (item_history (te_item (hd items))) = ?new ! ?k" by (simp add: hd_map)
    with p lt that(1) show ?thesis by simp
  qed
  moreover have "?new = take ?k ?old @ map (the \<circ> item_history \<circ> te_item) items"
    using p items by (metis append_take_drop_id)
  ultimately show ?thesis
    using ts s' marker emits_observe [OF assms] by (intro exI [of _ ?k] exI [of _ marker] exI [of _ items]) simp
qed

definition sample_cx :: cxtx_env where
  "sample_cx = \<lparr>cx_pretty = \<lambda>_. Some [], cx_to_string = \<lambda>_. Some ''{}'', cx_from_slice = \<lambda>_. Inl ''eof'',
     cx_rfc3339 = \<lambda>_. [], cx_fmt_secs = \<lambda>_. [], cx_clock = \<lambda>_. 0\<rparr>"

definition sample_session :: SessionRuntime where
  "sample_session = \<lparr>sr_session = \<lparr>cs_session_id = ''s'', cs_provider_kind = ''openai'', cs_child_command = ''codex'',
     cs_child_args = [], cs_started_at = 0\<rparr>, sr_provider = Codex, sr_metadata = empty_metadata, sr_child_pid = 0,
     sr_next_turn_ordinal = 5, sr_next_exchange_ordinal = 0,
     sr_observed_history = [HUserInput ''hi'' [], HUserInput ''old'' []]\<rparr>"

definition sample_observed :: "SessionRuntime \<times> TurnEnvelope list" where
  "sample_observed = observe_request_history sample_cx ''x'' [HUserInput ''hi'' [], HUserInput ''new'' []] default_artifact_refs sample_session"

theorem captured_history_witness:
  "\<exists>k marker items. snd sample_observed = marker @ items \<and> emits sample_session (fst sample_observed) (snd sample_observed)
    \<and> [HUserInput ''hi'' [], HUserInput ''new'' []]
        = take k [HUserInput ''hi'' [], HUserInput ''old'' []] @ map (the \<circ> item_history \<circ> te_item) items
    \<and> (if k < 2 then length marker = 1 \<and> is_rewrite (hd marker) else marker = [])"
proof -
  have obs: "observe_request_history sample_cx ''x'' [HUserInput ''hi'' [], HUserInput ''new'' []] default_artifact_refs sample_session
      = (fst sample_observed, snd sample_observed)"
    by (simp add: sample_observed_def)
  have old: "sr_observed_history sample_session = [HUserInput ''hi'' [], HUserInput ''old'' []]"
    by (simp add: sample_session_def)
  have new: "map normalize_history_item [HUserInput ''hi'' [], HUserInput ''new'' []] = [HUserInput ''hi'' [], HUserInput ''new'' []]"
    by simp
  from captured_history [OF obs] obtain k marker items where
    o: "snd sample_observed = marker @ items" "emits sample_session (fst sample_observed) (snd sample_observed)"
      "[HUserInput ''hi'' [], HUserInput ''new'' []]
        = take k [HUserInput ''hi'' [], HUserInput ''old'' []] @ map (the \<circ> item_history \<circ> te_item) items"
      "if k < length [HUserInput ''hi'' [], HUserInput ''old'' []] then length marker = 1 \<and> is_rewrite (hd marker) else marker = []"
    unfolding old new by blast
  have two: "length [HUserInput ''hi'' [], HUserInput ''old'' []] = 2" by simp
  show ?thesis by (intro exI [of _ k] exI [of _ marker] exI [of _ items] conjI o(1-3) o(4) [unfolded two])
qed

end
