(* ===== verification/Cxtx_Delivery.thy ===== *)
theory Cxtx_Delivery
  imports Cxtx_Http Cxtx_Ledger Cxtx_History
begin

text \<open>
  The delivery worker of \<^verbatim>\<open>cxtx\<close> (\<^verbatim>\<open>cxtx/src/delivery.rs\<close>): a task that takes turns from a channel into a
  queue and uploads them in order, retrying the first one until it succeeds.

  The worker record holds its fields and the receiving end of its channel: the messages waiting in it and whether a
  sender is left.  One run of the loop body is the function \<open>worker_iteration\<close>; the await points inside it do not
  change the state of the worker.  What it meets in the \<open>i\<close>-th run of the body is the record \<open>tick\<close>: the readings of
  the clock, in milliseconds, in the order in which the code takes them, and the outcomes of the file operations of
  the ledger, whose errors it drops.  The answers of the server come from \<open>http_env\<close>.
\<close>

section \<open>The worker\<close>

definition INITIAL_RETRY_DELAY :: nat where "INITIAL_RETRY_DELAY = 250"
definition MAX_RETRY_DELAY :: nat where "MAX_RETRY_DELAY = 5000"
definition SHUTDOWN_DRAIN_TIMEOUT :: nat where "SHUTDOWN_DRAIN_TIMEOUT = 5000"

datatype QueueItem = CreateContext | Append TurnEnvelope

datatype WorkerMessage = Enqueue QueueItem | Shutdown

record DeliveryWorker =
  dw_client :: CxdbHttpClient
  dw_session :: SessionRuntime
  dw_ledger :: SessionLedgerWriter
  dw_queue :: "QueueItem list"
  dw_context_id :: "u64 option"
  dw_degraded :: bool
  dw_retry_delay :: nat
  dw_rx :: "WorkerMessage list"
  dw_rx_open :: bool
  dw_shutdown :: bool
  dw_shutdown_deadline :: "nat option"
  dw_recovery_turn_enqueued :: bool

record tick =
  tk_check :: nat
  tk_finish :: nat
  tk_drain :: "nat \<Rightarrow> nat"
  tk_after :: nat
  tk_io :: io

text \<open>How the run of the loop body ended: the worker returned, it waits for a message, it took one, it uploaded
  an item, or it failed to and slept.\<close>

datatype iteration = Returned | Waiting | Took | Uploaded QueueItem | Slept nat

definition worker_new :: "CxdbHttpClient \<Rightarrow> SessionRuntime \<Rightarrow> SessionLedgerWriter \<Rightarrow> DeliveryWorker" where
  "worker_new client session ledger =
     \<lparr>dw_client = client, dw_session = session, dw_ledger = ledger, dw_queue = [], dw_context_id = None,
      dw_degraded = False, dw_retry_delay = INITIAL_RETRY_DELAY, dw_rx = [], dw_rx_open = True,
      dw_shutdown = False, dw_shutdown_deadline = None, dw_recovery_turn_enqueued = False\<rparr>"

text \<open>\<^verbatim>\<open>DeliveryHandle::enqueue_create_context\<close>, \<^verbatim>\<open>enqueue_turn\<close> and \<^verbatim>\<open>shutdown\<close> put a message into the channel.\<close>

definition send_message :: "WorkerMessage \<Rightarrow> DeliveryWorker \<Rightarrow> DeliveryWorker" where
  "send_message message w = w\<lparr>dw_rx := dw_rx w @ [message]\<rparr>"

definition state_name :: "DeliveryWorker \<Rightarrow> string" where
  "state_name w = (if dw_degraded w then ''degraded'' else ''healthy'')"

definition note_state :: "io \<Rightarrow> string \<Rightarrow> nat \<Rightarrow> string option \<Rightarrow> DeliveryWorker \<Rightarrow> DeliveryWorker" where
  "note_state io st depth err w = w\<lparr>dw_ledger := fst (note_delivery_state io st depth err (dw_ledger w))\<rparr>"

definition handle_worker_message :: "io \<Rightarrow> nat \<Rightarrow> WorkerMessage \<Rightarrow> DeliveryWorker \<Rightarrow> DeliveryWorker" where
  "handle_worker_message io now message w =
     (case message of
        Enqueue item \<Rightarrow>
          let w = w\<lparr>dw_queue := dw_queue w @ [item]\<rparr>
          in note_state io (state_name w) (length (dw_queue w)) None w
      | Shutdown \<Rightarrow> w\<lparr>dw_shutdown := True, dw_shutdown_deadline := Some (now + SHUTDOWN_DRAIN_TIMEOUT)\<rparr>)"

definition error_string :: "CxdbError \<Rightarrow> string" where
  "error_string err = (case err of Retriable e \<Rightarrow> e | Permanent e \<Rightarrow> e)"

definition process_item :: "http_env \<Rightarrow> io \<Rightarrow> QueueItem \<Rightarrow> DeliveryWorker \<Rightarrow> DeliveryWorker \<times> (string + unit)" where
  "process_item hx io item w =
     (case item of
        CreateContext \<Rightarrow>
          let (c, r) = create_context_http hx (dw_client w); w = w\<lparr>dw_client := c\<rparr>
          in (case r of
                Inr context_id \<Rightarrow>
                  (w\<lparr>dw_context_id := Some context_id,
                     dw_ledger := fst (note_context_created io context_id (dw_ledger w))\<rparr>, Inr ())
              | Inl err \<Rightarrow> (w, Inl (error_string err)))
      | Append turn \<Rightarrow>
          (case dw_context_id w of
             None \<Rightarrow> (w, Inl ''context creation has not completed'')
           | Some context_id \<Rightarrow>
               let (c, r) = append_turn_http hx context_id (te_item turn) (dw_client w); w = w\<lparr>dw_client := c\<rparr>
               in (case r of
                     Inr _ \<Rightarrow> (w\<lparr>dw_ledger := fst (note_append_sequence io (te_ordinal turn) (dw_ledger w))\<rparr>, Inr ())
                   | Inl err \<Rightarrow> (w, Inl (error_string err)))))"

definition enter_degraded :: "cxtx_env \<Rightarrow> io \<Rightarrow> string \<Rightarrow> DeliveryWorker \<Rightarrow> DeliveryWorker" where
  "enter_degraded env io err w =
     (let w = note_state io ''degraded'' (length (dw_queue w)) (Some err) w
      in if dw_degraded w then w
         else let (s, turn) = ingest_degraded_turn env (length (dw_queue w)) err (dw_session w)
              in w\<lparr>dw_degraded := True, dw_recovery_turn_enqueued := False, dw_session := s,
                   dw_queue := dw_queue w @ [Append turn]\<rparr>)"

definition reached :: "nat option \<Rightarrow> nat \<Rightarrow> bool" where
  "reached deadline now = (case deadline of Some d \<Rightarrow> d \<le> now | None \<Rightarrow> False)"

definition maybe_finish_shutdown :: "io \<Rightarrow> nat \<Rightarrow> nat \<Rightarrow> DeliveryWorker \<Rightarrow> DeliveryWorker \<times> bool" where
  "maybe_finish_shutdown io now now' w =
     (if \<not> dw_shutdown w then (w, False)
      else
        let w = (if reached (dw_shutdown_deadline w) now
                 then note_state io (state_name w) (length (dw_queue w)) (Some ''shutdown drain deadline reached'') w else w)
        in if dw_queue w = [] \<or> reached (dw_shutdown_deadline w) now' then (w\<lparr>dw_shutdown := False\<rparr>, True) else (w, False))"

text \<open>After a successful upload: the item leaves the queue, and the degraded state ends in two steps, a turn that
  records the recovery and, once that is uploaded, the change of state.\<close>

definition upload_done :: "cxtx_env \<Rightarrow> io \<Rightarrow> QueueItem \<Rightarrow> DeliveryWorker \<Rightarrow> DeliveryWorker" where
  "upload_done env io item w =
     (let w = w\<lparr>dw_queue := tl (dw_queue w), dw_retry_delay := INITIAL_RETRY_DELAY\<rparr>
      in if dw_degraded w \<and> dw_queue w = [] \<and> \<not> dw_recovery_turn_enqueued w then
           let (s, turn) = ingest_recovered_turn env 0 (dw_session w)
           in w\<lparr>dw_recovery_turn_enqueued := True, dw_session := s, dw_queue := dw_queue w @ [Append turn]\<rparr>
         else if dw_degraded w \<and> dw_recovery_turn_enqueued w \<and> (case item of Append _ \<Rightarrow> True | CreateContext \<Rightarrow> False)
                 \<and> dw_queue w = [] then
           note_state io ''healthy'' 0 None (w\<lparr>dw_degraded := False, dw_recovery_turn_enqueued := False\<rparr>)
         else w)"

definition upload_failed :: "cxtx_env \<Rightarrow> io \<Rightarrow> nat \<Rightarrow> string \<Rightarrow> DeliveryWorker \<Rightarrow> DeliveryWorker \<times> nat" where
  "upload_failed env io now err w =
     (let w = enter_degraded env io err w;
          sleep_for = (case dw_shutdown_deadline w of
                         Some deadline \<Rightarrow> min (deadline - now) (dw_retry_delay w) | None \<Rightarrow> dw_retry_delay w)
      in (w\<lparr>dw_retry_delay := min (dw_retry_delay w * 2) MAX_RETRY_DELAY\<rparr>, sleep_for))"

definition drain_channel :: "tick \<Rightarrow> DeliveryWorker \<Rightarrow> DeliveryWorker" where
  "drain_channel tk w =
     foldl (\<lambda>w (i, message). handle_worker_message (tk_io tk) (tk_drain tk i) message w) (w\<lparr>dw_rx := []\<rparr>)
       (enumerate 0 (dw_rx w))"

definition worker_iteration :: "cxtx_env \<Rightarrow> http_env \<Rightarrow> tick \<Rightarrow> DeliveryWorker \<Rightarrow> DeliveryWorker \<times> iteration" where
  "worker_iteration env hx tk w =
     (let (w, finished) = maybe_finish_shutdown (tk_io tk) (tk_check tk) (tk_finish tk) w
      in if finished then (w, Returned)
         else if dw_queue w = [] then
           (case dw_rx w of
              message # rest \<Rightarrow> (handle_worker_message (tk_io tk) (tk_drain tk 0) message (w\<lparr>dw_rx := rest\<rparr>), Took)
            | [] \<Rightarrow> if dw_rx_open w then (w, Waiting) else (w, Returned))
         else
           let w = drain_channel tk w; item = hd (dw_queue w)
           in (case process_item hx (tk_io tk) item w of
                 (w, Inr _) \<Rightarrow> (upload_done env (tk_io tk) item w, Uploaded item)
               | (w, Inl err) \<Rightarrow>
                   let (w, sleep_for) = upload_failed env (tk_io tk) (tk_after tk) err w in (w, Slept sleep_for)))"

end
