(* ===== verification/Cxtx_Sse.thy ===== *)
theory Cxtx_Sse
  imports Cxtx_Provider
begin

text \<open>
  Server-sent events arrive in chunks that end anywhere.  The frames read from a buffer that is fed chunk by chunk are
  those of the whole stream, provided no two carriage returns follow each other.
\<close>

section \<open>Reading a buffer\<close>

definition frame_of :: "string \<Rightarrow> SseFrame list" where
  "frame_of block = (case parse_block (trim_end_matches LF block) of Some f \<Rightarrow> [f] | None \<Rightarrow> [])"

text \<open>The blocks of a normalised buffer, each read on its own.\<close>

function sse_split :: "string \<Rightarrow> string \<times> SseFrame list" where
  "sse_split s = (case cut_block s of None \<Rightarrow> (s, []) | Some (b, r) \<Rightarrow> apsnd (append (frame_of b)) (sse_split r))"
  by pat_completeness auto
termination
  by (relation "measure length") (auto dest!: cut_block_SomeD)

declare sse_split.simps [simp del]

lemma sse_split_None [simp]: "cut_block s = None \<Longrightarrow> sse_split s = (s, [])"
  by (simp add: sse_split.simps)

lemma sse_split_Some: "cut_block s = Some (b, r) \<Longrightarrow> sse_split s = apsnd (append (frame_of b)) (sse_split r)"
  by (simp add: sse_split.simps)

lemma ends_blank_iff: "ends_blank b \<longleftrightarrow> (\<exists>p. b = p @ [LF, LF])"
proof
  assume "ends_blank b"
  then have "rev b = [LF, LF] @ drop 2 (rev b)" by (metis append_take_drop_id ends_blank_def)
  then show "\<exists>p. b = p @ [LF, LF]" by (metis append_Cons append_Nil rev_append rev_rev_ident rev.simps)
qed (auto simp: ends_blank_def)

lemma cut_block_ends: "cut_block s = Some (b, r) \<Longrightarrow> ends_blank b"
proof (induction s arbitrary: b rule: cut_block.induct)
  case (1 x y s)
  then show ?case by (auto simp: ends_blank_iff split: if_splits)
qed auto

lemma cut_block_None_ends: "cut_block s = None \<Longrightarrow> \<not> ends_blank s"
proof (induction s rule: cut_block.induct)
  case (1 x y s)
  then have *: "\<not> (x = LF \<and> y = LF)" "\<not> ends_blank (y # s)" by (auto split: if_splits)
  show ?case
  proof
    assume "ends_blank (x # y # s)"
    then obtain p where p: "x # y # s = p @ [LF, LF]" by (auto simp: ends_blank_iff)
    with * show False by (cases p) (auto simp: ends_blank_iff)
  qed
qed (auto simp: ends_blank_def)

lemma sse_loop_split:
  "sse_loop (split_inclusive s) n fs = (n + (length s - length (fst (sse_split s))), fs @ snd (sse_split s))
   \<and> length (fst (sse_split s)) \<le> length s
   \<and> drop (length s - length (fst (sse_split s))) s = fst (sse_split s)"
proof (induction s arbitrary: n fs rule: sse_split.induct)
  case (1 s)
  show ?case
  proof (cases "cut_block s")
    case None
    with cut_block_None_ends [OF None] show ?thesis
      by (cases "s = []") (simp_all add: split_inclusive.simps [of s] split_inclusive.simps [of "[]"])
  next
    case (Some br)
    then obtain b r where br: "cut_block s = Some (b, r)" by (cases br) auto
    note s = cut_block_SomeD [OF br]
    have split: "split_inclusive s = b # split_inclusive r" by (simp add: split_inclusive.simps [of s] br)
    have step: "sse_loop (split_inclusive s) n fs = sse_loop (split_inclusive r) (n + length b) (fs @ frame_of b)"
      using cut_block_ends [OF br] by (simp add: split frame_of_def split: option.split)
    note IH = "1.IH" [OF br refl, of "n + length b" "fs @ frame_of b"]
    then have le: "length (fst (sse_split r)) \<le> length r" by blast
    with s have len: "length s - length (fst (sse_split r)) = length b + (length r - length (fst (sse_split r)))" by simp
    have fst: "fst (sse_split s) = fst (sse_split r)" "snd (sse_split s) = frame_of b @ snd (sse_split r)"
      by (simp_all add: sse_split_Some [OF br])
    have "drop (length s - length (fst (sse_split r))) s = fst (sse_split r)"
    proof -
      have "drop (length b + k) s = drop k r" for k using s by simp
      with IH show ?thesis unfolding len by metis
    qed
    with IH le len s show ?thesis unfolding step fst by (metis add.assoc append.assoc length_append trans_le_add2)
  qed
qed

lemma parse_sse_buffer_split: "parse_sse_buffer b = sse_split (crlf_to_lf b)"
  using sse_loop_split [of "crlf_to_lf b" 0 "[]"] by (simp add: parse_sse_buffer_def Let_def)

section \<open>Carriage returns\<close>

fun no_pair :: "char \<Rightarrow> char \<Rightarrow> string \<Rightarrow> bool" where
  "no_pair x y (a # b # s) \<longleftrightarrow> \<not> (a = x \<and> b = y) \<and> no_pair x y (b # s)"
| "no_pair x y _ \<longleftrightarrow> True"

lemma no_pair_appendD: "no_pair x y (s @ t) \<Longrightarrow> no_pair x y s \<and> no_pair x y t"
proof (induction s)
  case (Cons a s)
  then show ?case by (cases s; cases t) auto
qed simp

lemma crlf_Cons: "a \<noteq> CR \<Longrightarrow> crlf_to_lf (a # s) = a # crlf_to_lf s"
  by (cases s) auto

lemma crlf_CR: "d \<noteq> LF \<Longrightarrow> crlf_to_lf (CR # d # s) = CR # crlf_to_lf (d # s)"
  by simp

lemma crlf_hd: "b \<noteq> CR \<or> s = [] \<or> hd s \<noteq> LF \<Longrightarrow> \<exists>t. crlf_to_lf (b # s) = b # t"
  by (cases s) auto

lemma crlf_append: "no_pair CR CR b \<Longrightarrow> crlf_to_lf (b @ c) = crlf_to_lf (crlf_to_lf b @ c)"
proof (induction b rule: crlf_to_lf.induct)
  case (1 a b s)
  show ?case
  proof (cases "a = CR \<and> b = LF")
    case True
    with 1 have "no_pair CR CR s" by (cases s) auto
    with True 1 show ?thesis by (simp add: crlf_Cons)
  next
    case False
    with 1 have IH: "crlf_to_lf ((b # s) @ c) = crlf_to_lf (crlf_to_lf (b # s) @ c)" by auto
    show ?thesis
    proof (cases "a = CR")
      case True
      with False 1(3) have "b \<noteq> LF" "b \<noteq> CR" by auto
      then have "\<exists>t. crlf_to_lf (b # s) = b # t" by (intro crlf_hd) simp
      with True False IH \<open>b \<noteq> LF\<close> show ?thesis by auto
    next
      case False
      with IH show ?thesis by (simp add: crlf_Cons)
    qed
  qed
qed simp_all

lemma crlf_clean: "no_pair CR CR s \<Longrightarrow> no_pair CR LF (crlf_to_lf s)"
proof (induction s rule: crlf_to_lf.induct)
  case (1 a b s)
  show ?case
  proof (cases "a = CR \<and> b = LF")
    case True
    with 1 have "no_pair CR CR s" by (cases s) auto
    with 1 True have "no_pair CR LF (crlf_to_lf s)" by simp
    with True show ?thesis by (cases "crlf_to_lf s") auto
  next
    case False
    with 1 have IH: "no_pair CR LF (crlf_to_lf (b # s))" by auto
    show ?thesis
    proof (cases "a = CR")
      case True
      with False 1(3) have "b \<noteq> LF" "b \<noteq> CR" by auto
      then have "\<exists>t. crlf_to_lf (b # s) = b # t" by (intro crlf_hd) simp
      with True False IH \<open>b \<noteq> LF\<close> show ?thesis by auto
    next
      case a: False
      with False IH show ?thesis by (cases "crlf_to_lf (b # s)") auto
    qed
  qed
qed simp_all

lemma crlf_no_crcr: "no_pair CR CR (b @ c) \<Longrightarrow> no_pair CR CR (crlf_to_lf b @ c)"
proof (induction b rule: crlf_to_lf.induct)
  case (1 a b s)
  show ?case
  proof (cases "a = CR \<and> b = LF")
    case True
    with 1 have "no_pair CR CR (s @ c)" by (cases "s @ c") auto
    with 1 True have "no_pair CR CR (crlf_to_lf s @ c)" by simp
    with True show ?thesis by (cases "crlf_to_lf s @ c") auto
  next
    case False
    with 1 have IH: "no_pair CR CR (crlf_to_lf (b # s) @ c)" by auto
    show ?thesis
    proof (cases "a = CR")
      case True
      with False 1(3) have "b \<noteq> LF" "b \<noteq> CR" by auto
      then have "\<exists>t. crlf_to_lf (b # s) = b # t" by (intro crlf_hd) simp
      with True False IH \<open>b \<noteq> CR\<close> show ?thesis by auto
    next
      case a: False
      with False IH show ?thesis by (cases "crlf_to_lf (b # s) @ c") auto
    qed
  qed
qed simp_all

lemma crlf_block: "no_pair CR LF p \<Longrightarrow> last (LF # p) = LF \<Longrightarrow> crlf_to_lf (p @ t) = p @ crlf_to_lf t"
proof (induction p)
  case (Cons a p)
  show ?case
  proof (cases "a = CR")
    case True
    with Cons.prems obtain d q where "p = d # q" "d \<noteq> LF" by (cases p) auto
    with Cons True show ?thesis by simp
  next
    case False
    with Cons show ?thesis by (cases p) (auto simp: crlf_Cons)
  qed
qed simp

lemma cut_block_append: "cut_block s = Some (b, r) \<Longrightarrow> cut_block (b @ t) = Some (b, t)"
proof (induction s arbitrary: b rule: cut_block.induct)
  case (1 x y s)
  show ?case
  proof (cases "x = LF \<and> y = LF")
    case False
    with 1 obtain b' where b': "cut_block (y # s) = Some (b', r)" "b = x # b'" by auto
    from 1(1) [OF False b'(1)] have "cut_block (b' @ t) = Some (b', t)" .
    moreover from cut_block_SomeD [OF b'(1)] obtain b'' where "b' = y # b''" by (cases b') auto
    ultimately show ?thesis using b'(2) False by auto
  qed (use 1 in auto)
qed auto

lemma sse_split_feed:
  "no_pair CR LF s \<Longrightarrow>
    sse_split (crlf_to_lf (s @ c)) = apsnd (append (snd (sse_split s))) (sse_split (crlf_to_lf (fst (sse_split s) @ c)))"
proof (induction s rule: sse_split.induct)
  case (1 s)
  show ?case
  proof (cases "cut_block s")
    case None
    then show ?thesis by (cases "sse_split (crlf_to_lf (s @ c))") simp
  next
    case (Some br)
    then obtain b r where br: "cut_block s = Some (b, r)" by (cases br) auto
    from cut_block_SomeD [OF br] have s: "s = b @ r" and "b \<noteq> []" by auto
    with "1.prems" no_pair_appendD have clean: "no_pair CR LF b" "no_pair CR LF r" by blast+
    from cut_block_ends [OF br] have "last (LF # b) = LF"
      by (auto simp: ends_blank_iff)
    with clean(1) have "crlf_to_lf (s @ c) = b @ crlf_to_lf (r @ c)" by (simp add: s crlf_block)
    moreover have "cut_block (b @ crlf_to_lf (r @ c)) = Some (b, crlf_to_lf (r @ c))" by (rule cut_block_append [OF br])
    ultimately show ?thesis
      using "1.IH" [OF br refl clean(2)] by (cases "sse_split (crlf_to_lf (fst (sse_split r) @ c))") (simp add: sse_split_Some [OF br] sse_split_Some)
  qed
qed

lemma sse_split_rest: "\<exists>p. s = p @ fst (sse_split s)"
proof (induction s rule: sse_split.induct)
  case (1 s)
  show ?case
  proof (cases "cut_block s")
    case (Some br)
    then obtain b r where br: "cut_block s = Some (b, r)" by (cases br) auto
    with "1.IH" [OF br refl] cut_block_SomeD [OF br] show ?thesis
      by (auto simp: sse_split_Some) (metis append_assoc)
  qed simp
qed

section \<open>Chunks\<close>

text \<open>The loop of \<^verbatim>\<open>stream_response\<close> as far as frames are concerned: a chunk is appended to the buffer, then the
  buffer is read.\<close>

fun feed_chunks :: "string list \<Rightarrow> string \<Rightarrow> string \<times> SseFrame list" where
  "feed_chunks [] buffer = (buffer, [])"
| "feed_chunks (c # cs) buffer =
     (let (buffer, frames) = parse_sse_buffer (buffer @ c); (buffer, frames') = feed_chunks cs buffer
      in (buffer, frames @ frames'))"

lemma feed_chunks_split:
  "cs \<noteq> [] \<Longrightarrow> no_pair CR CR (b @ concat cs) \<Longrightarrow> feed_chunks cs b = sse_split (crlf_to_lf (b @ concat cs))"
proof (induction cs arbitrary: b)
  case (Cons c cs)
  let ?s = "crlf_to_lf (b @ c)"
  let ?r = "fst (sse_split ?s)"
  from Cons.prems(2) have nocr: "no_pair CR CR ((b @ c) @ concat cs)" by simp
  show ?case
  proof (cases "cs = []")
    case True
    then show ?thesis by (cases "sse_split ?s") (simp add: parse_sse_buffer_split)
  next
    case False
    obtain p where p: "?s = p @ ?r" using sse_split_rest by blast
    from crlf_no_crcr [OF nocr] p have "no_pair CR CR (p @ ?r @ concat cs)" by (metis append_assoc)
    then have "no_pair CR CR (?r @ concat cs)" using no_pair_appendD by blast
    from Cons.IH [OF False this] have feed: "feed_chunks cs ?r = sse_split (crlf_to_lf (?r @ concat cs))" .
    from no_pair_appendD [OF nocr] have bc: "no_pair CR CR (b @ c)" by blast
    have "sse_split (crlf_to_lf (b @ concat (c # cs))) = sse_split (crlf_to_lf (?s @ concat cs))"
      using crlf_append [OF bc, of "concat cs"] by simp
    also have "\<dots> = apsnd (append (snd (sse_split ?s))) (sse_split (crlf_to_lf (?r @ concat cs)))"
      by (rule sse_split_feed [OF crlf_clean [OF bc]])
    finally show ?thesis
      using feed by (cases "sse_split ?s"; cases "sse_split (crlf_to_lf (?r @ concat cs))") (simp add: parse_sse_buffer_split)
  qed
qed simp

lemma feed_chunks_whole:
  assumes "no_pair CR CR (concat cs)"
  shows "feed_chunks cs [] = parse_sse_buffer (concat cs)"
proof (cases "cs = []")
  case True
  then show ?thesis by (simp add: parse_sse_buffer_split sse_split.simps)
next
  case False
  with feed_chunks_split [of cs "[]"] assms show ?thesis by (simp add: parse_sse_buffer_split)
qed

end
