(* ===== verification/Cxtx_Proxy.thy ===== *)
theory Cxtx_Proxy
  imports Cxtx_Delivery Cxtx_Sse
begin

text \<open>
  The reverse proxy of \<^verbatim>\<open>cxtx\<close> (\<^verbatim>\<open>cxtx/src/proxy.rs\<close> and the routing of \<^verbatim>\<open>provider/mod.rs\<close>): where a
  request goes, which headers travel, and what of an exchange is captured, for JSON bodies, for streams and for
  websockets.

  URLs are those of the crate \<^verbatim>\<open>url\<close>: a type variable \<open>'u\<close> with the operations of the record \<open>url_env\<close>.  Headers are
  the list of names and values of a \<^verbatim>\<open>HeaderMap\<close>, names in lower case.  The proxy works on the session and the
  ledger and appends turns to the channel of the delivery worker; sockets and the HTTP server are not modelled.
\<close>

section \<open>Routing\<close>

record 'u url_env =
  ux_path :: "'u \<Rightarrow> string"
  ux_set_path :: "string \<Rightarrow> 'u \<Rightarrow> 'u"
  ux_set_query :: "string option \<Rightarrow> 'u \<Rightarrow> 'u"
  ux_scheme :: "'u \<Rightarrow> string"
  ux_set_scheme :: "string \<Rightarrow> 'u \<Rightarrow> 'u option"
  ux_str :: "'u \<Rightarrow> string"
  ux_origin :: "'u \<Rightarrow> string"

record request_uri =
  uri_path :: string
  uri_query :: "string option"

definition SLASH :: char where "SLASH = CHR 0x2F"

definition normalize_path :: "string \<Rightarrow> string" where
  "normalize_path path =
     (let trimmed = trim_end_matches SLASH path
      in if trimmed = [] then [SLASH] else if starts_with trimmed [SLASH] then trimmed else SLASH # trimmed)"

definition strip_mount_path :: "string \<Rightarrow> string \<Rightarrow> string option" where
  "strip_mount_path path mount_path =
     (if mount_path = [SLASH] then Some path
      else case strip_prefix path mount_path of
             None \<Rightarrow> None
           | Some suffix \<Rightarrow>
               if suffix = [] then Some [SLASH] else if starts_with suffix [SLASH] then Some suffix else Some (SLASH # suffix))"

definition join_path :: "string \<Rightarrow> string \<Rightarrow> string" where
  "join_path base path =
     (let base_path = trim_end_matches SLASH base; extra_path = trim_start_matches SLASH path
      in if base_path = [] then SLASH # extra_path
         else if extra_path = [] then base_path
         else base_path @ [SLASH] @ extra_path)"

definition join_url :: "'u url_env \<Rightarrow> 'u \<Rightarrow> string \<Rightarrow> string option \<Rightarrow> 'u" where
  "join_url ux base path query = ux_set_query ux query (ux_set_path ux (join_path (ux_path ux base) path) base)"

definition proxy_mount_path :: "'u url_env \<Rightarrow> ProviderKind \<Rightarrow> 'u \<Rightarrow> string" where
  "proxy_mount_path ux p upstream_base = (case p of Codex \<Rightarrow> normalize_path (ux_path ux upstream_base) | _ \<Rightarrow> [SLASH])"

definition build_upstream_url :: "'u url_env \<Rightarrow> ProviderKind \<Rightarrow> 'u \<Rightarrow> request_uri \<Rightarrow> string + 'u" where
  "build_upstream_url ux p upstream_base uri =
     (let path = uri_path uri; mount_path = proxy_mount_path ux p upstream_base
      in rbind
           (case p of
              Codex \<Rightarrow> ok_or (''request path '' @ path @ '' does not match proxy mount '' @ mount_path) (strip_mount_path path mount_path)
            | Claude \<Rightarrow> Inr path
            | Pi \<Rightarrow> Inl ''Pi uses dual-protocol routing; build_upstream_url should not be called directly'')
           (\<lambda>relative_path. Inr (join_url ux upstream_base relative_path (uri_query uri))))"

datatype 'u UpstreamConfig = Single 'u | DualProtocol 'u 'u

definition rebase_url :: "'u url_env \<Rightarrow> 'u \<Rightarrow> string \<Rightarrow> string option \<Rightarrow> 'u" where
  "rebase_url ux upstream path query = ux_set_query ux query (ux_set_path ux path upstream)"

definition dual_route :: "'u url_env \<Rightarrow> 'u \<Rightarrow> 'u \<Rightarrow> request_uri \<Rightarrow> string + (ProtocolKind \<times> 'u)" where
  "dual_route ux openai_upstream anthropic_upstream uri =
     (let path = uri_path uri; fill = (\<lambda>suffix. if suffix = [] then [SLASH] else suffix)
      in case strip_prefix path ''/openai'' of
           Some suffix \<Rightarrow> Inr (OpenAi, rebase_url ux openai_upstream (fill suffix) (uri_query uri))
         | None \<Rightarrow>
             (case strip_prefix path ''/anthropic'' of
                Some suffix \<Rightarrow> Inr (Anthropic, rebase_url ux anthropic_upstream (fill suffix) (uri_query uri))
              | None \<Rightarrow> Inl (''request path '' @ path @ '' does not match /openai/ or /anthropic/ prefix'')))"

text \<open>A single upstream is configured for Codex and Claude only; for Pi the code is \<^verbatim>\<open>unreachable!\<close>, here an error.\<close>

definition resolve_route :: "'u url_env \<Rightarrow> ProviderKind \<Rightarrow> 'u UpstreamConfig \<Rightarrow> request_uri \<Rightarrow> string + (ProtocolKind \<times> 'u)" where
  "resolve_route ux p upstream uri =
     (case upstream of
        Single upstream_base \<Rightarrow>
          rbind (build_upstream_url ux p upstream_base uri)
            (\<lambda>url. case p of Codex \<Rightarrow> Inr (OpenAi, url) | Claude \<Rightarrow> Inr (Anthropic, url) | Pi \<Rightarrow> Inl ''Pi always uses DualProtocol'')
      | DualProtocol o_up a_up \<Rightarrow> dual_route ux o_up a_up uri)"

definition compute_proxy_base_url :: "'u url_env \<Rightarrow> ProviderKind \<Rightarrow> 'u UpstreamConfig \<Rightarrow> 'u \<Rightarrow> 'u" where
  "compute_proxy_base_url ux p upstream url =
     (case upstream of
        Single upstream_base \<Rightarrow> ux_set_path ux (proxy_mount_path ux p upstream_base) url
      | DualProtocol _ _ \<Rightarrow> url)"

definition websocket_upstream_url :: "'u url_env \<Rightarrow> 'u \<Rightarrow> string + 'u" where
  "websocket_upstream_url ux url =
     (let scheme = ux_scheme ux url
      in if scheme = ''http'' then ok_or ''failed to switch upstream scheme from http to ws'' (ux_set_scheme ux ''ws'' url)
         else if scheme = ''https'' then ok_or ''failed to switch upstream scheme from https to wss'' (ux_set_scheme ux ''wss'' url)
         else if scheme = ''ws'' \<or> scheme = ''wss'' then Inr url
         else Inl (''unsupported websocket upstream scheme: '' @ scheme))"

section \<open>The child process\<close>

definition has_codex_config_override :: "string list \<Rightarrow> string \<Rightarrow> bool" where
  "has_codex_config_override args key \<longleftrightarrow>
     (\<exists>index\<in>set [0..<length args].
        let arg = args ! index; sets = (\<lambda>v. starts_with (trim_start v) (key @ ''=''))
        in case strip_prefix arg ''--config='' of
             Some v \<Rightarrow> sets v
           | None \<Rightarrow>
               (case strip_prefix arg ''-c'' of
                  Some v \<Rightarrow>
                    if v \<noteq> [] then sets v else index + 1 < length args \<and> sets (args ! (index + 1))
                | None \<Rightarrow> arg = ''--config'' \<and> index + 1 < length args \<and> sets (args ! (index + 1))))"

definition has_codex_feature_override :: "string list \<Rightarrow> string \<Rightarrow> bool" where
  "has_codex_feature_override args feature \<longleftrightarrow>
     (\<exists>index\<in>set [0..<length args].
        let arg = args ! index
        in case strip_prefix arg ''--enable='' of
             Some v \<Rightarrow> v = feature
           | None \<Rightarrow>
               (case strip_prefix arg ''--disable='' of
                  Some v \<Rightarrow> v = feature
                | None \<Rightarrow> (arg = ''--enable'' \<or> arg = ''--disable'') \<and> index + 1 < length args \<and> args ! (index + 1) = feature))
     \<or> has_codex_config_override args (''features.'' @ feature)"

definition child_args_for_proxy :: "ProviderKind \<Rightarrow> string list \<Rightarrow> string list" where
  "child_args_for_proxy p args =
     (case p of
        Codex \<Rightarrow>
          (if \<not> has_codex_config_override args ''prefer_websockets'' then [''-c'', ''prefer_websockets=false''] else [])
          @ (if \<not> has_codex_feature_override args ''responses_websockets'' then [''--disable'', ''responses_websockets''] else [])
          @ (if \<not> has_codex_feature_override args ''responses_websockets_v2'' then [''--disable'', ''responses_websockets_v2''] else [])
          @ args
      | _ \<Rightarrow> args)"

definition env_allowlist_names :: "string list" where
  "env_allowlist_names =
     [''HOME'', ''LOGNAME'', ''PWD'', ''SHELL'', ''TERM'', ''USER'', ''OPENAI_BASE_URL'', ''OPENAI_API_BASE'',
      ''ANTHROPIC_BASE_URL'', ''ANTHROPIC_API_URL'', ''ANTHROPIC_API_BASE'', ''CLAUDE_BASE_URL'', ''CLAUDE_API_BASE'',
      ''CLAUDE_CODE_BASE_URL'']"

definition capture_env_allowlist :: "host_env \<Rightarrow> (string \<times> string) list" where
  "capture_env_allowlist he =
     foldl (\<lambda>out name. case he_var he name of Some v \<Rightarrow> if trim v \<noteq> [] then bt_put name v out else out | None \<Rightarrow> out)
       [] env_allowlist_names"

definition injected_env :: "'u url_env \<Rightarrow> ProviderKind \<Rightarrow> 'u \<Rightarrow> (string \<times> string) list" where
  "injected_env ux p proxy_base_url =
     (let v = trim_end_matches SLASH (ux_str ux proxy_base_url); root = ux_origin ux proxy_base_url
      in case p of
           Codex \<Rightarrow> [(''OPENAI_BASE_URL'', v), (''OPENAI_API_BASE'', v), (''CXTX_OPENAI_BASE_URL'', v), (''CXTX_OPENAI_API_BASE'', v)]
         | Claude \<Rightarrow> [(''ANTHROPIC_BASE_URL'', root), (''ANTHROPIC_API_URL'', root), (''ANTHROPIC_API_BASE'', root),
                      (''CLAUDE_BASE_URL'', root), (''CLAUDE_API_BASE'', root), (''CLAUDE_CODE_BASE_URL'', root)]
         | Pi \<Rightarrow> [(''OPENAI_BASE_URL'', root @ ''/openai/v1''), (''OPENAI_API_BASE'', root @ ''/openai/v1''),
                  (''ANTHROPIC_BASE_URL'', root @ ''/anthropic''), (''ANTHROPIC_API_URL'', root @ ''/anthropic''),
                  (''ANTHROPIC_API_BASE'', root @ ''/anthropic'')])"

fun upstream_base_env_names :: "ProviderKind \<Rightarrow> string list" where
  "upstream_base_env_names Codex = [''OPENAI_BASE_URL'', ''OPENAI_API_BASE'']"
| "upstream_base_env_names Claude =
     [''ANTHROPIC_BASE_URL'', ''ANTHROPIC_API_URL'', ''ANTHROPIC_API_BASE'', ''CLAUDE_BASE_URL'', ''CLAUDE_API_BASE'',
      ''CLAUDE_CODE_BASE_URL'']"
| "upstream_base_env_names Pi =
     [''OPENAI_BASE_URL'', ''OPENAI_API_BASE'', ''ANTHROPIC_BASE_URL'', ''ANTHROPIC_API_URL'', ''ANTHROPIC_API_BASE'']"

text \<open>The environment the child is started with: the inherited one without the upstream variables, then the injected
  ones.\<close>

definition child_env :: "'u url_env \<Rightarrow> ProviderKind \<Rightarrow> 'u \<Rightarrow> (string \<rightharpoonup> string) \<Rightarrow> (string \<rightharpoonup> string)" where
  "child_env ux p proxy_base_url inherited =
     foldl (\<lambda>m (k, v). m(k \<mapsto> v)) (\<lambda>k. if k \<in> set (upstream_base_env_names p) then None else inherited k)
       (injected_env ux p proxy_base_url)"

section \<open>Headers\<close>

type_synonym headers = "(string \<times> string) list"

text \<open>\<^verbatim>\<open>HeaderValue::to_str\<close>: visible ASCII and tabs only.\<close>

definition header_str :: "string \<Rightarrow> string option" where
  "header_str v = (if (\<forall>c\<in>set v. let n = of_char c :: nat in 32 \<le> n \<and> n \<le> 126 \<or> n = 9) then Some v else None)"

definition header_value :: "headers \<Rightarrow> string \<Rightarrow> string option" where
  "header_value hs name = Option.bind (map_of hs name) header_str"

fun find_map :: "('a \<Rightarrow> 'b option) \<Rightarrow> 'a list \<Rightarrow> 'b option" where
  "find_map f [] = None"
| "find_map f (x # xs) = (case f x of Some y \<Rightarrow> Some y | None \<Rightarrow> find_map f xs)"

definition request_id_from_headers :: "ProviderKind \<Rightarrow> headers \<Rightarrow> string option" where
  "request_id_from_headers p hs =
     find_map (header_value hs)
       (case p of
          Codex \<Rightarrow> [''x-request-id'', ''request-id'']
        | Claude \<Rightarrow> [''request-id'', ''anthropic-request-id'', ''x-request-id'']
        | Pi \<Rightarrow> [''x-request-id'', ''request-id'', ''anthropic-request-id''])"

definition is_hop_by_hop :: "string \<Rightarrow> bool" where
  "is_hop_by_hop name \<longleftrightarrow> to_ascii_lowercase name \<in>
     {''connection'', ''keep-alive'', ''proxy-authenticate'', ''proxy-authorization'', ''te'', ''trailers'',
      ''transfer-encoding'', ''upgrade''}"

definition forwardable_headers :: "headers \<Rightarrow> headers" where
  "forwardable_headers hs =
     filter (\<lambda>(name, value). \<not> (is_hop_by_hop name \<or> eq_ignore_ascii_case name ''host''
       \<or> eq_ignore_ascii_case name ''accept-encoding'')) hs"

definition websocket_forwardable_headers :: "headers \<Rightarrow> headers" where
  "websocket_forwardable_headers hs =
     filter (\<lambda>(name, value). let lower = to_ascii_lowercase name in
       \<not> (is_hop_by_hop lower \<or> lower = ''host''
          \<or> lower \<in> {''sec-websocket-key'', ''sec-websocket-version'', ''sec-websocket-extensions''})) hs"

definition copyable_response_headers :: "headers \<Rightarrow> headers" where
  "copyable_response_headers hs = filter (\<lambda>(name, value). \<not> is_hop_by_hop name) hs"

fun split_at :: "char \<Rightarrow> string \<Rightarrow> string list" where
  "split_at c [] = [[]]"
| "split_at c (x # s) = (if x = c then [] # split_at c s else case split_at c s of [] \<Rightarrow> [[x]] | l # ls \<Rightarrow> (x # l) # ls)"

definition header_contains_token :: "headers \<Rightarrow> string \<Rightarrow> string \<Rightarrow> bool" where
  "header_contains_token hs name token \<longleftrightarrow>
     (case header_value hs name of
        Some value \<Rightarrow> list_ex (\<lambda>part. eq_ignore_ascii_case (trim part) token) (split_at (CHR '','') value)
      | None \<Rightarrow> False)"

definition is_websocket_upgrade_request :: "string \<Rightarrow> headers \<Rightarrow> bool" where
  "is_websocket_upgrade_request meth hs \<longleftrightarrow>
     meth = ''GET'' \<and> header_contains_token hs ''connection'' ''upgrade''
     \<and> (case header_value hs ''upgrade'' of Some v \<Rightarrow> eq_ignore_ascii_case v ''websocket'' | None \<Rightarrow> False)"

definition websocket_selected_protocol :: "headers \<Rightarrow> string option" where
  "websocket_selected_protocol hs =
     Option.bind (header_value hs ''sec-websocket-protocol'')
       (\<lambda>v. let p = trim (hd (split_at (CHR '','') v)) in if p \<noteq> [] then Some p else None)"

text \<open>The members of an object are searched in order.\<close>

fun find_model_field :: "json \<Rightarrow> string option"
  and find_model_members :: "(string \<times> json) list \<Rightarrow> string option"
  and find_model_list :: "json list \<Rightarrow> string option" where
  "find_model_field (JObj ms) =
     (case Option.bind (map_of ms ''model'') j_str of Some m \<Rightarrow> Some m | None \<Rightarrow> find_model_members ms)"
| "find_model_field (JList vs) = find_model_list vs"
| "find_model_field _ = None"
| "find_model_members [] = None"
| "find_model_members ((k, v) # ms) = (case find_model_field v of Some m \<Rightarrow> Some m | None \<Rightarrow> find_model_members ms)"
| "find_model_list [] = None"
| "find_model_list (v # vs) = (case find_model_field v of Some m \<Rightarrow> Some m | None \<Rightarrow> find_model_list vs)"

section \<open>Exchanges\<close>

text \<open>What the handlers of the proxy share: the session, the ledger and the turns handed to the delivery worker, in
  order (\<^verbatim>\<open>enqueue_turn(..).await.ok()\<close>).\<close>

record proxy =
  px_session :: SessionRuntime
  px_ledger :: SessionLedgerWriter
  px_enqueued :: "TurnEnvelope list"

definition enqueue_turns :: "TurnEnvelope list \<Rightarrow> proxy \<Rightarrow> proxy" where
  "enqueue_turns ts p = p\<lparr>px_enqueued := px_enqueued p @ ts\<rparr>"

definition proxy_error_turn ::
  "cxtx_env \<Rightarrow> string \<Rightarrow> string \<Rightarrow> string \<Rightarrow> string option \<Rightarrow> ArtifactRefs \<Rightarrow> proxy \<Rightarrow> proxy" where
  "proxy_error_turn env exchange_id title message request_id refs p =
     (let (s, turn) = provider_error_turn env exchange_id title message request_id refs (px_session p)
      in enqueue_turns [turn] (p\<lparr>px_session := s\<rparr>))"

record upstream_response =
  up_status :: u16
  up_headers :: headers
  up_body :: "string + bytes"
  up_chunks :: "(string + bytes) list"

record proxy_response =
  pr_status :: u16
  pr_headers :: headers
  pr_body :: bytes

definition is_json_type :: "string option \<Rightarrow> bool" where
  "is_json_type ct = (case ct of Some v \<Rightarrow> str_contains v ''json'' | None \<Rightarrow> False)"

definition parsed_body :: "cxtx_env \<Rightarrow> string option \<Rightarrow> bytes \<Rightarrow> json option" where
  "parsed_body env content_type body =
     (if is_json_type content_type then (case cx_from_slice env body of Inr v \<Rightarrow> Some v | Inl _ \<Rightarrow> None) else None)"

definition body_response ::
  "cxtx_env \<Rightarrow> io \<Rightarrow> upstream_response \<Rightarrow> string option \<Rightarrow> PreparedExchange \<Rightarrow> ArtifactRefs \<Rightarrow> proxy \<Rightarrow> proxy \<times> (string + proxy_response)" where
  "body_response env io rp request_id prepared artifact_refs p =
     (case up_body rp of
        Inl e \<Rightarrow> (p, Inl e)
      | Inr body \<Rightarrow>
          let content_type = header_value (up_headers rp) ''content-type'';
              response_json = parsed_body env content_type body;
              (l, r) = record_response env io (pe_exchange_id prepared) (up_status rp) request_id content_type body response_json (px_ledger p);
              p = p\<lparr>px_ledger := l\<rparr>
          in case r of
               Inl e \<Rightarrow> (p, Inl e)
             | Inr path \<Rightarrow>
                 let refs = with_response_path artifact_refs (Some path);
                     (s, turns) = finalize_json env (pe_state prepared) (up_status rp) request_id body refs (px_session p)
                 in (enqueue_turns turns (p\<lparr>px_session := s\<rparr>),
                     Inr \<lparr>pr_status = up_status rp, pr_headers = copyable_response_headers (up_headers rp), pr_body = body\<rparr>))"

text \<open>The task that reads a stream: for every chunk the frames that it completes, for every frame one entry in the
  ledger; an error of the transport ends the loop.  The \<open>k\<close>-th call of the ledger has the outcomes \<open>ios k\<close>.\<close>

record stream_state =
  stm_proxy :: proxy
  stm_buffer :: string
  stm_raw :: string
  stm_exchange :: ExchangeState
  stm_refs :: ArtifactRefs
  stm_calls :: nat

definition stream_frame :: "cxtx_env \<Rightarrow> (nat \<Rightarrow> io) \<Rightarrow> string \<Rightarrow> string option \<Rightarrow> stream_state \<Rightarrow> SseFrame \<Rightarrow> stream_state" where
  "stream_frame env ios exchange_id request_id st frame =
     (let (l, r) = append_stream_frame env (ios (stm_calls st)) exchange_id (sf_raw frame) (px_ledger (stm_proxy st));
          st = st\<lparr>stm_proxy := (stm_proxy st)\<lparr>px_ledger := l\<rparr>, stm_calls := stm_calls st + 1\<rparr>;
          st = (case r of
                  Inr path \<Rightarrow> st\<lparr>stm_refs := (stm_refs st)\<lparr>ar_stream_path := Some path\<rparr>\<rparr>
                | Inl err \<Rightarrow> st\<lparr>stm_proxy := proxy_error_turn env exchange_id ''artifact_write_error''
                    (''failed to persist stream frame: '' @ err) request_id (stm_refs st) (stm_proxy st)\<rparr>)
      in st\<lparr>stm_exchange := absorb_sse_frame env frame (stm_exchange st)\<rparr>)"

definition stream_chunk :: "cxtx_env \<Rightarrow> (nat \<Rightarrow> io) \<Rightarrow> string \<Rightarrow> string option \<Rightarrow> bytes \<Rightarrow> stream_state \<Rightarrow> stream_state" where
  "stream_chunk env ios exchange_id request_id chunk st =
     (let str = from_utf8_lossy chunk;
          (buffer, frames) = parse_sse_buffer (stm_buffer st @ str)
      in foldl (stream_frame env ios exchange_id request_id) (st\<lparr>stm_raw := stm_raw st @ str, stm_buffer := buffer\<rparr>) frames)"

fun stream_loop :: "cxtx_env \<Rightarrow> (nat \<Rightarrow> io) \<Rightarrow> string \<Rightarrow> string option \<Rightarrow> (string + bytes) list \<Rightarrow> stream_state \<Rightarrow> stream_state" where
  "stream_loop env ios exchange_id request_id [] st = st"
| "stream_loop env ios exchange_id request_id (Inr chunk # cs) st =
     stream_loop env ios exchange_id request_id cs (stream_chunk env ios exchange_id request_id chunk st)"
| "stream_loop env ios exchange_id request_id (Inl err # cs) st =
     st\<lparr>stm_proxy := proxy_error_turn env exchange_id ''stream_transport_error''
          (''failed to read upstream stream: '' @ err) request_id (stm_refs st) (stm_proxy st)\<rparr>"

definition stream_finish :: "cxtx_env \<Rightarrow> (nat \<Rightarrow> io) \<Rightarrow> string \<Rightarrow> u16 \<Rightarrow> string option \<Rightarrow> string option \<Rightarrow> stream_state \<Rightarrow> proxy" where
  "stream_finish env ios exchange_id status request_id content_type st =
     (let (l, r) = record_response env (ios (stm_calls st)) exchange_id status request_id content_type (as_bytes (stm_raw st)) None
            (px_ledger (stm_proxy st));
          p = (stm_proxy st)\<lparr>px_ledger := l\<rparr>;
          (p, refs) = (case r of
              Inr path \<Rightarrow> (p, (stm_refs st)\<lparr>ar_response_path := Some path\<rparr>)
            | Inl err \<Rightarrow> (proxy_error_turn env exchange_id ''artifact_write_error''
                (''failed to persist streamed response transcript: '' @ err) request_id (stm_refs st) p, stm_refs st));
          (s, turns) = finalize_stream env (stm_exchange st) status request_id refs
            (if trim (stm_buffer st) = [] then None else Some (stm_buffer st)) (px_session p)
      in enqueue_turns turns (p\<lparr>px_session := s\<rparr>))"

definition stream_response ::
  "cxtx_env \<Rightarrow> (nat \<Rightarrow> io) \<Rightarrow> upstream_response \<Rightarrow> string option \<Rightarrow> PreparedExchange \<Rightarrow> ArtifactRefs \<Rightarrow> proxy \<Rightarrow> proxy" where
  "stream_response env ios rp request_id prepared artifact_refs p =
     (let st = \<lparr>stm_proxy = p, stm_buffer = [], stm_raw = [], stm_exchange = pe_state prepared, stm_refs = artifact_refs,
                stm_calls = 0\<rparr>
      in stream_finish env ios (pe_exchange_id prepared) (up_status rp) request_id
           (header_value (up_headers rp) ''content-type'')
           (stream_loop env ios (pe_exchange_id prepared) request_id (up_chunks rp) st))"

record proxied_request =
  pq_method :: string
  pq_uri :: request_uri
  pq_headers :: headers
  pq_body :: bytes

definition is_event_stream :: "headers \<Rightarrow> bool" where
  "is_event_stream hs = (case header_value hs ''content-type'' of Some v \<Rightarrow> str_contains v ''text/event-stream'' | None \<Rightarrow> False)"

text \<open>A plain request: \<open>send\<close> is what comes of the request to the upstream.  An error is the text of its cause, without the
  context that \<^verbatim>\<open>anyhow\<close> puts in front.  The result is the error that the handler
  turns into a bad gateway, or the answer to the child; the body of a stream is its chunks up to
  the first error.\<close>

definition handle_proxy_request ::
  "'u url_env \<Rightarrow> cxtx_env \<Rightarrow> (nat \<Rightarrow> io) \<Rightarrow> ProviderKind \<Rightarrow> 'u UpstreamConfig \<Rightarrow>
   (string \<Rightarrow> 'u \<Rightarrow> headers \<Rightarrow> bytes \<Rightarrow> string + upstream_response) \<Rightarrow> bool \<Rightarrow> proxied_request \<Rightarrow> proxy \<Rightarrow> proxy \<times> (string + proxy_response)" where
  "handle_proxy_request ux env ios provider upstream send attached request p =
     (if \<not> attached then (p, Inl ''delivery worker not attached'')
      else
        case resolve_route ux provider upstream (pq_uri request) of
          Inl e \<Rightarrow> (p, Inl e)
        | Inr (protocol, upstream_url) \<Rightarrow>
            let content_type = header_value (pq_headers request) ''content-type'';
                request_json = parsed_body env content_type (pq_body request);
                (s, exchange_id) = next_exchange_id (px_session p);
                (l, r) = record_request env (ios 0) exchange_id (uri_path (pq_uri request))
                  (Option.bind request_json find_model_field) content_type (pq_body request) request_json (px_ledger p);
                p = p\<lparr>px_session := s, px_ledger := l\<rparr>
            in case r of
                 Inl e \<Rightarrow> (p, Inl e)
               | Inr path \<Rightarrow>
                   let refs = with_request_path default_artifact_refs (Some path);
                       (s, prepared) = prepare_exchange protocol env exchange_id (pq_body request) refs (px_session p);
                       p = enqueue_turns (pe_request_turns prepared) (p\<lparr>px_session := s\<rparr>)
                   in case send (pq_method request) upstream_url (forwardable_headers (pq_headers request)) (pq_body request) of
                        Inl err \<Rightarrow>
                          (proxy_error_turn env exchange_id ''upstream_transport_error'' (''upstream request failed: '' @ err) None refs p,
                           Inr \<lparr>pr_status = 502, pr_headers = [], pr_body = as_bytes (''upstream request failed: '' @ err)\<rparr>)
                      | Inr rp \<Rightarrow>
                          let request_id = request_id_from_headers provider (up_headers rp)
                          in if is_event_stream (up_headers rp) then
                               (stream_response env (\<lambda>k. ios (Suc k)) rp request_id prepared refs p,
                                Inr \<lparr>pr_status = up_status rp, pr_headers = copyable_response_headers (up_headers rp),
                                     pr_body = concat (map projr (takeWhile (\<lambda>c. \<not> isl c) (up_chunks rp)))\<rparr>)
                             else body_response env (ios 1) rp request_id prepared refs p)"

section \<open>Websockets\<close>

datatype ws_message = WText string | WBinary bytes | WPing bytes | WPong bytes | WClose | WFrame

definition summarize_websocket_frame :: "string \<Rightarrow> ws_message \<Rightarrow> string option" where
  "summarize_websocket_frame direction message =
     (case message of
        WText t \<Rightarrow> Some (direction @ '':text:'' @ t)
      | WBinary b \<Rightarrow> Some (direction @ '':binary:'' @ dec_str (length b) @ '' bytes'')
      | WPing b \<Rightarrow> Some (direction @ '':ping:'' @ dec_str (length b) @ '' bytes'')
      | WPong b \<Rightarrow> Some (direction @ '':pong:'' @ dec_str (length b) @ '' bytes'')
      | WClose \<Rightarrow> Some (direction @ '':close'')
      | WFrame \<Rightarrow> None)"

definition map_message :: "ws_message \<Rightarrow> ws_message option" where
  "map_message message = (case message of WFrame \<Rightarrow> None | m \<Rightarrow> Some m)"

record WebsocketCapture =
  wc_provider :: ProviderKind
  wc_exchange_id :: string
  wc_request_id :: "string option"
  wc_artifact_refs :: ArtifactRefs
  wc_current_state :: "ExchangeState option"

definition capture_new :: "ProviderKind \<Rightarrow> string \<Rightarrow> string option \<Rightarrow> ArtifactRefs \<Rightarrow> WebsocketCapture" where
  "capture_new provider exchange_id request_id refs = \<lparr>wc_provider = provider, wc_exchange_id = exchange_id,
     wc_request_id = request_id, wc_artifact_refs = refs, wc_current_state = None\<rparr>"

definition finalize_pending :: "cxtx_env \<Rightarrow> WebsocketCapture \<Rightarrow> SessionRuntime \<Rightarrow> WebsocketCapture \<times> SessionRuntime \<times> TurnEnvelope list" where
  "finalize_pending env wc s =
     (case wc_current_state wc of
        None \<Rightarrow> (wc, s, [])
      | Some st \<Rightarrow>
          let (s, turns) = finalize_stream env st 200 (wc_request_id wc) (wc_artifact_refs wc) None s
          in (wc\<lparr>wc_current_state := None\<rparr>, s, turns))"

text \<open>Only Codex is captured; its exchanges are prepared with the OpenAI protocol.\<close>

definition observe_downstream_text ::
  "cxtx_env \<Rightarrow> string \<Rightarrow> WebsocketCapture \<Rightarrow> SessionRuntime \<Rightarrow> WebsocketCapture \<times> SessionRuntime \<times> TurnEnvelope list" where
  "observe_downstream_text env str wc s =
     (if wc_provider wc \<noteq> Codex then (wc, s, [])
      else
        case from_json_str env str of
          Inl _ \<Rightarrow> (wc, s, [])
        | Inr payload \<Rightarrow>
            if get_str payload ''type'' \<noteq> Some ''response.create'' then (wc, s, [])
            else
              let (wc, s, turns) = finalize_pending env wc s;
                  (s, prepared) = openai_prepare_exchange env (wc_exchange_id wc) (as_bytes str) (wc_artifact_refs wc) s
              in (wc\<lparr>wc_current_state := Some (pe_state prepared)\<rparr>, s, turns @ pe_request_turns prepared))"

definition observe_upstream_text ::
  "cxtx_env \<Rightarrow> string \<Rightarrow> WebsocketCapture \<Rightarrow> SessionRuntime \<Rightarrow> WebsocketCapture \<times> SessionRuntime \<times> TurnEnvelope list" where
  "observe_upstream_text env str wc s =
     (case wc_current_state wc of
        None \<Rightarrow> (wc, s, [])
      | Some st \<Rightarrow>
          (case from_json_str env str of
             Inl _ \<Rightarrow> (wc, s, [])
           | Inr payload \<Rightarrow>
               let event_type = get_str payload ''type'';
                   wc = wc\<lparr>wc_current_state := Some (absorb_sse_frame env \<lparr>sf_event = event_type, sf_data = str, sf_raw = str\<rparr> st)\<rparr>
               in if event_type = Some ''response.completed'' then finalize_pending env wc s else (wc, s, [])))"

definition observe_downstream_message ::
  "cxtx_env \<Rightarrow> ws_message \<Rightarrow> WebsocketCapture \<Rightarrow> SessionRuntime \<Rightarrow> WebsocketCapture \<times> SessionRuntime \<times> TurnEnvelope list" where
  "observe_downstream_message env message wc s = (case message of WText t \<Rightarrow> observe_downstream_text env t wc s | _ \<Rightarrow> (wc, s, []))"

definition observe_upstream_message ::
  "cxtx_env \<Rightarrow> ws_message \<Rightarrow> WebsocketCapture \<Rightarrow> SessionRuntime \<Rightarrow> WebsocketCapture \<times> SessionRuntime \<times> TurnEnvelope list" where
  "observe_upstream_message env message wc s = (case message of WText t \<Rightarrow> observe_upstream_text env t wc s | _ \<Rightarrow> (wc, s, []))"

text \<open>
  The relay between the two sockets, whose sends succeed.  An event is what \<^verbatim>\<open>select!\<close> yields next: a message from one side, the end of
  one side, or a read error with the flag whether the code takes it as a normal end.  \<open>rl_done\<close> is the outcome once
  the loop is left.
\<close>

datatype relay_event = FromDown ws_message | DownEnd | DownError bool string | FromUp ws_message | UpEnd | UpError bool string

record relay =
  rl_proxy :: proxy
  rl_capture :: WebsocketCapture
  rl_calls :: nat
  rl_to_up :: "ws_message list"
  rl_to_down :: "ws_message list"
  rl_done :: "(string + unit) option"

definition record_ws_frame :: "cxtx_env \<Rightarrow> (nat \<Rightarrow> io) \<Rightarrow> string \<Rightarrow> string \<Rightarrow> ws_message \<Rightarrow> relay \<Rightarrow> relay" where
  "record_ws_frame env ios exchange_id direction message rl =
     (case summarize_websocket_frame direction message of
        None \<Rightarrow> rl
      | Some frame \<Rightarrow>
          let (l, _) = append_stream_frame env (ios (rl_calls rl)) exchange_id frame (px_ledger (rl_proxy rl))
          in rl\<lparr>rl_proxy := (rl_proxy rl)\<lparr>px_ledger := l\<rparr>, rl_calls := rl_calls rl + 1\<rparr>)"

definition observe ::
  "bool \<Rightarrow> (WebsocketCapture \<Rightarrow> SessionRuntime \<Rightarrow> WebsocketCapture \<times> SessionRuntime \<times> TurnEnvelope list) \<Rightarrow> relay \<Rightarrow> relay" where
  "observe attached f rl =
     (if \<not> attached then rl
      else let (wc, s, turns) = f (rl_capture rl) (px_session (rl_proxy rl))
           in rl\<lparr>rl_capture := wc, rl_proxy := enqueue_turns turns ((rl_proxy rl)\<lparr>px_session := s\<rparr>)\<rparr>)"

definition relay_finish :: "cxtx_env \<Rightarrow> bool \<Rightarrow> relay \<Rightarrow> relay" where
  "relay_finish env attached rl = (observe attached (finalize_pending env) rl)\<lparr>rl_done := Some (Inr ())\<rparr>"

definition websocket_relay_error :: "cxtx_env \<Rightarrow> bool \<Rightarrow> string \<Rightarrow> string option \<Rightarrow> ArtifactRefs \<Rightarrow> string \<Rightarrow> string \<Rightarrow> relay \<Rightarrow> relay" where
  "websocket_relay_error env attached exchange_id request_id refs title message rl =
     (let p = (if attached then proxy_error_turn env exchange_id title message request_id refs (rl_proxy rl) else rl_proxy rl)
      in rl\<lparr>rl_proxy := p, rl_done := Some (Inl message)\<rparr>)"

definition relay_step ::
  "cxtx_env \<Rightarrow> (nat \<Rightarrow> io) \<Rightarrow> bool \<Rightarrow> string \<Rightarrow> string option \<Rightarrow> ArtifactRefs \<Rightarrow> relay_event \<Rightarrow> relay \<Rightarrow> relay" where
  "relay_step env ios attached exchange_id request_id refs ev rl =
     (case ev of
        DownEnd \<Rightarrow> relay_finish env attached rl
      | UpEnd \<Rightarrow> relay_finish env attached rl
      | DownError benign err \<Rightarrow>
          if benign then relay_finish env attached rl
          else websocket_relay_error env attached exchange_id request_id refs ''downstream_websocket_error''
                 (''failed to read downstream websocket message: '' @ err) rl
      | UpError benign err \<Rightarrow>
          if benign then relay_finish env attached rl
          else websocket_relay_error env attached exchange_id request_id refs ''upstream_websocket_error''
                 (''failed to read upstream websocket message: '' @ err) rl
      | FromDown message \<Rightarrow>
          let rl = observe attached (observe_downstream_message env message) (record_ws_frame env ios exchange_id ''downstream'' message rl);
              rl = rl\<lparr>rl_to_up := rl_to_up rl @ (case map_message message of Some m \<Rightarrow> [m] | None \<Rightarrow> [])\<rparr>
          in if message = WClose then relay_finish env attached rl else rl
      | FromUp message \<Rightarrow>
          let rl = observe attached (observe_upstream_message env message) (record_ws_frame env ios exchange_id ''upstream'' message rl);
              rl = rl\<lparr>rl_to_down := rl_to_down rl @ (case map_message message of Some m \<Rightarrow> [m] | None \<Rightarrow> [])\<rparr>
          in if message = WClose then relay_finish env attached rl else rl)"

fun relay_websocket ::
  "cxtx_env \<Rightarrow> (nat \<Rightarrow> io) \<Rightarrow> bool \<Rightarrow> string \<Rightarrow> string option \<Rightarrow> ArtifactRefs \<Rightarrow> relay_event list \<Rightarrow> relay \<Rightarrow> relay" where
  "relay_websocket env ios attached exchange_id request_id refs [] rl = rl"
| "relay_websocket env ios attached exchange_id request_id refs (ev # evs) rl =
     (if rl_done rl \<noteq> None then rl
      else relay_websocket env ios attached exchange_id request_id refs evs
             (relay_step env ios attached exchange_id request_id refs ev rl))"

end
