(* ===== verification/Delivery_Props.thy ===== *)
theory Delivery_Props
  imports Cxtx_Delivery
begin

text \<open>
  Correctness of the delivery worker: nothing that was enqueued is lost, duplicated or overtaken, the retry delay
  stays within its limits, a shutdown ends in time, and once the server accepts requests again everything enqueued is
  uploaded and the worker is healthy.
\<close>

section \<open>What one run of the loop does\<close>

definition message_items :: "WorkerMessage list \<Rightarrow> QueueItem list" where
  "message_items ms = List.map_filter (\<lambda>m. case m of Enqueue i \<Rightarrow> Some i | Shutdown \<Rightarrow> None) ms"

lemma message_items_simps [simp]:
  "message_items [] = []"
  "message_items (Enqueue i # ms) = i # message_items ms"
  "message_items (Shutdown # ms) = message_items ms"
  "message_items (ms @ ms') = message_items ms @ message_items ms'"
  by (simp_all add: message_items_def map_filter_simps List.map_filter_def)

text \<open>The items not uploaded yet: the queue, then what waits in the channel.\<close>

definition pending :: "DeliveryWorker \<Rightarrow> QueueItem list" where
  "pending w = dw_queue w @ message_items (dw_rx w)"

definition uploaded :: "iteration \<Rightarrow> QueueItem list" where
  "uploaded out = (case out of Uploaded i \<Rightarrow> [i] | _ \<Rightarrow> [])"

text \<open>The turns with which the worker reports its own state.\<close>

definition own_item :: "QueueItem \<Rightarrow> bool" where
  "own_item i \<longleftrightarrow>
     (case i of
        CreateContext \<Rightarrow> False
      | Append t \<Rightarrow> map_option sm_title (ci_system (te_item t)) \<in> {Some ''ingest_degraded'', Some ''ingest_recovered''})"

lemma own_degraded: "ingest_degraded_turn env n e s = (s', t) \<Longrightarrow> own_item (Append t)"
  by (auto simp: ingest_degraded_turn_def own_item_def ingest_state_item_def system_item_def with_id_def with_title_def
      new_system_message_def Let_def split: prod.splits)

lemma own_recovered: "ingest_recovered_turn env n s = (s', t) \<Longrightarrow> own_item (Append t)"
  by (auto simp: ingest_recovered_turn_def own_item_def ingest_state_item_def system_item_def with_id_def with_title_def
      new_system_message_def Let_def split: prod.splits)

lemma note_state_simps [simp]:
  "dw_queue (note_state io st n e w) = dw_queue w" "dw_rx (note_state io st n e w) = dw_rx w"
  "dw_rx_open (note_state io st n e w) = dw_rx_open w" "dw_client (note_state io st n e w) = dw_client w"
  "dw_session (note_state io st n e w) = dw_session w" "dw_context_id (note_state io st n e w) = dw_context_id w"
  "dw_degraded (note_state io st n e w) = dw_degraded w" "dw_retry_delay (note_state io st n e w) = dw_retry_delay w"
  "dw_shutdown (note_state io st n e w) = dw_shutdown w"
  "dw_shutdown_deadline (note_state io st n e w) = dw_shutdown_deadline w"
  "dw_recovery_turn_enqueued (note_state io st n e w) = dw_recovery_turn_enqueued w"
  by (simp_all add: note_state_def)

text \<open>The ordinals the ledger lists as appended.\<close>

definition appended :: "DeliveryWorker \<Rightarrow> u64 list" where
  "appended w = sl_appended_sequences (lw_state (dw_ledger w))"

lemma lw_state_update [simp]: "lw_state (fst (ledger_update io k f l)) = f (lw_state l)"
  by (simp add: ledger_update_def ledger_persist_def split: option.split)

lemma appended_note_state [simp]: "appended (note_state io st n e w) = appended w"
  by (simp add: appended_def note_state_def note_delivery_state_def)

lemma appended_upd [simp]:
  "appended (w\<lparr>dw_queue := q\<rparr>) = appended w" "appended (w\<lparr>dw_retry_delay := d\<rparr>) = appended w"
  "appended (w\<lparr>dw_degraded := b\<rparr>) = appended w" "appended (w\<lparr>dw_recovery_turn_enqueued := b\<rparr>) = appended w"
  "appended (w\<lparr>dw_session := s\<rparr>) = appended w" "appended (w\<lparr>dw_client := c\<rparr>) = appended w"
  "appended (w\<lparr>dw_context_id := i\<rparr>) = appended w" "appended (w\<lparr>dw_rx := ms\<rparr>) = appended w"
  "appended (w\<lparr>dw_rx_open := b\<rparr>) = appended w" "appended (w\<lparr>dw_shutdown := b\<rparr>) = appended w"
  "appended (w\<lparr>dw_shutdown_deadline := dl\<rparr>) = appended w"
  by (simp_all add: appended_def)

text \<open>The fields that taking messages leaves alone.\<close>

definition same_work :: "DeliveryWorker \<Rightarrow> DeliveryWorker \<Rightarrow> bool" where
  "same_work w w' \<longleftrightarrow> dw_client w' = dw_client w \<and> dw_session w' = dw_session w \<and> dw_context_id w' = dw_context_id w
     \<and> dw_degraded w' = dw_degraded w \<and> dw_retry_delay w' = dw_retry_delay w
     \<and> dw_recovery_turn_enqueued w' = dw_recovery_turn_enqueued w \<and> dw_rx_open w' = dw_rx_open w
     \<and> appended w' = appended w"

lemma same_work_refl [simp]: "same_work w w"
  by (simp add: same_work_def)

lemma handle_message_facts:
  "dw_queue (handle_worker_message io now m w) = dw_queue w @ message_items [m]
   \<and> dw_rx (handle_worker_message io now m w) = dw_rx w
   \<and> same_work w (handle_worker_message io now m w)
   \<and> (m \<noteq> Shutdown \<longrightarrow> dw_shutdown (handle_worker_message io now m w) = dw_shutdown w
        \<and> dw_shutdown_deadline (handle_worker_message io now m w) = dw_shutdown_deadline w)"
  by (cases m) (simp_all add: handle_worker_message_def Let_def same_work_def)

lemma fold_messages:
  "dw_queue (foldl (\<lambda>w (i, m). handle_worker_message io (now i) m w) w ms) = dw_queue w @ message_items (map snd ms)
   \<and> dw_rx (foldl (\<lambda>w (i, m). handle_worker_message io (now i) m w) w ms) = dw_rx w
   \<and> same_work w (foldl (\<lambda>w (i, m). handle_worker_message io (now i) m w) w ms)
   \<and> (Shutdown \<notin> set (map snd ms) \<longrightarrow>
        dw_shutdown (foldl (\<lambda>w (i, m). handle_worker_message io (now i) m w) w ms) = dw_shutdown w
        \<and> dw_shutdown_deadline (foldl (\<lambda>w (i, m). handle_worker_message io (now i) m w) w ms) = dw_shutdown_deadline w)"
proof (induction ms arbitrary: w)
  case (Cons im ms)
  obtain i m where im: "im = (i, m)" by fastforce
  note h = handle_message_facts [of io "now i" m w]
  have "message_items (m # map snd ms) = message_items [m] @ message_items (map snd ms)"
    using message_items_simps(4) [of "[m]" "map snd ms"] by simp
  with Cons.IH [of "handle_worker_message io (now i) m w"] h show ?case
    unfolding im by (auto simp: same_work_def)
qed simp

lemma drain_facts:
  "dw_queue (drain_channel tk w) = pending w" "dw_rx (drain_channel tk w) = []" "same_work w (drain_channel tk w)"
  "Shutdown \<notin> set (dw_rx w) \<Longrightarrow>
    dw_shutdown (drain_channel tk w) = dw_shutdown w \<and> dw_shutdown_deadline (drain_channel tk w) = dw_shutdown_deadline w"
  using fold_messages [of "tk_io tk" "tk_drain tk" "w\<lparr>dw_rx := []\<rparr>" "enumerate 0 (dw_rx w)"]
  by (simp_all add: drain_channel_def pending_def same_work_def)

lemma process_item_facts:
  assumes "process_item hx io item w = (w', r)"
  shows "dw_queue w' = dw_queue w" "dw_rx w' = dw_rx w" "dw_rx_open w' = dw_rx_open w" "dw_session w' = dw_session w"
    "dw_degraded w' = dw_degraded w" "dw_retry_delay w' = dw_retry_delay w" "dw_shutdown w' = dw_shutdown w"
    "dw_shutdown_deadline w' = dw_shutdown_deadline w" "dw_recovery_turn_enqueued w' = dw_recovery_turn_enqueued w"
    "dw_context_id w' = (if item = CreateContext \<and> r = Inr () then dw_context_id w' else dw_context_id w)"
    "item = CreateContext \<Longrightarrow> r = Inr () \<Longrightarrow> dw_context_id w' \<noteq> None"
    "appended w' = (case item of Append t \<Rightarrow> if r = Inr () then push_new (te_ordinal t) (appended w) else appended w | _ \<Rightarrow> appended w)"
  using assms
  by (auto simp: process_item_def appended_def note_context_created_def note_append_sequence_def Let_def split: QueueItem.splits prod.splits sum.splits option.splits)

lemma finish_facts:
  assumes "maybe_finish_shutdown io n n' w = (w', b)"
  shows "dw_queue w' = dw_queue w" "dw_rx w' = dw_rx w" "same_work w w'"
    "dw_shutdown_deadline w' = dw_shutdown_deadline w" "\<not> b \<Longrightarrow> dw_shutdown w' = dw_shutdown w"
    "b \<longleftrightarrow> dw_shutdown w \<and> (dw_queue w = [] \<or> reached (dw_shutdown_deadline w) n')"
  using assms by (auto simp: maybe_finish_shutdown_def Let_def same_work_def split: if_splits)

text \<open>The iteration by cases.\<close>

lemma iteration_cases:
  assumes "worker_iteration env hx tk w = (w', out)"
  obtains
    (returned) "out = Returned" "dw_queue w' = dw_queue w" "dw_rx w' = dw_rx w" "same_work w w'"
      "dw_shutdown w \<or> \<not> dw_rx_open w"
  | (waiting) "out = Waiting" "dw_queue w' = dw_queue w" "dw_rx w' = dw_rx w" "same_work w w'" "dw_queue w = []" "dw_rx w = []"
      "dw_shutdown w' = dw_shutdown w"
  | (took) m rest where "out = Took" "dw_queue w = []" "dw_rx w = m # rest" "dw_rx w' = rest"
      "dw_queue w' = message_items [m]" "same_work w w'" "m \<noteq> Shutdown \<Longrightarrow> dw_shutdown w' = dw_shutdown w"
  | (uploaded) v u where "dw_queue w \<noteq> []" "dw_queue v = pending w" "dw_rx v = []" "same_work w v"
      "Shutdown \<notin> set (dw_rx w) \<Longrightarrow> dw_shutdown v = dw_shutdown w \<and> dw_shutdown_deadline v = dw_shutdown_deadline w"
      "process_item hx (tk_io tk) (hd (pending w)) v = (u, Inr ())"
      "w' = upload_done env (tk_io tk) (hd (pending w)) u" "out = Uploaded (hd (pending w))"
  | (slept) v u err where "dw_queue w \<noteq> []" "dw_queue v = pending w" "dw_rx v = []" "same_work w v"
      "Shutdown \<notin> set (dw_rx w) \<Longrightarrow> dw_shutdown v = dw_shutdown w \<and> dw_shutdown_deadline v = dw_shutdown_deadline w"
      "process_item hx (tk_io tk) (hd (pending w)) v = (u, Inl err)"
      "w' = fst (upload_failed env (tk_io tk) (tk_after tk) err u)"
      "out = Slept (snd (upload_failed env (tk_io tk) (tk_after tk) err u))"
proof -
  obtain w1 b where fin: "maybe_finish_shutdown (tk_io tk) (tk_check tk) (tk_finish tk) w = (w1, b)" by fastforce
  note f = finish_facts [OF fin]
  show thesis
  proof (cases b)
    case True
    with assms fin f show thesis by (intro returned) (auto simp: worker_iteration_def)
  next
    case nb: False
    show thesis
    proof (cases "dw_queue w")
      case Nil
      show thesis
      proof (cases "dw_rx w")
        case rx: Nil
        show thesis
        proof (cases "dw_rx_open w")
          case True
          with assms fin f nb Nil rx show thesis
            by (intro waiting) (auto simp: worker_iteration_def same_work_def split: if_splits)
        next
          case False
          with assms fin f nb Nil rx show thesis
            by (intro returned) (auto simp: worker_iteration_def same_work_def split: if_splits)
        qed
      next
        case (Cons m rest)
        note h = handle_message_facts [of "tk_io tk" "tk_drain tk 0" m "w1\<lparr>dw_rx := rest\<rparr>"]
        from assms fin f nb Nil Cons
        have "w' = handle_worker_message (tk_io tk) (tk_drain tk 0) m (w1\<lparr>dw_rx := rest\<rparr>)" "out = Took"
          by (auto simp: worker_iteration_def)
        with h f nb Nil Cons show thesis by (intro took [of m rest]) (auto simp: same_work_def)
      qed
    next
      case (Cons q qs)
      let ?v = "drain_channel tk w1"
      have p: "pending w1 = pending w" using f by (simp add: pending_def)
      note d = drain_facts [where tk = tk and w = w1, unfolded p]
      have sw: "same_work w ?v"
        "Shutdown \<notin> set (dw_rx w) \<Longrightarrow> dw_shutdown ?v = dw_shutdown w \<and> dw_shutdown_deadline ?v = dw_shutdown_deadline w"
        using d f nb by (auto simp: same_work_def)
      obtain u r where pi: "process_item hx (tk_io tk) (hd (pending w)) ?v = (u, r)" by fastforce
      show thesis
      proof (cases r)
        case (Inr x)
        with assms fin f nb Cons d pi show thesis
          by (intro uploaded [OF _ d(1,2) sw]) (auto simp: worker_iteration_def Let_def)
      next
        case (Inl e)
        with assms fin f nb Cons d pi show thesis
          by (intro slept [OF _ d(1,2) sw, of u e]) (auto simp: worker_iteration_def Let_def split: prod.splits)
      qed
    qed
  qed
qed

definition done_step :: "QueueItem \<Rightarrow> DeliveryWorker \<Rightarrow> QueueItem list \<Rightarrow> DeliveryWorker \<Rightarrow> bool" where
  "done_step item w extra w' \<longleftrightarrow>
     dw_queue w' = tl (dw_queue w) @ extra \<and> (\<forall>i\<in>set extra. own_item i) \<and> dw_rx w' = dw_rx w
     \<and> dw_client w' = dw_client w \<and> dw_context_id w' = dw_context_id w \<and> dw_shutdown w' = dw_shutdown w
     \<and> dw_retry_delay w' = INITIAL_RETRY_DELAY \<and> dw_rx_open w' = dw_rx_open w \<and> appended w' = appended w
     \<and> (if dw_degraded w \<and> tl (dw_queue w) = [] \<and> \<not> dw_recovery_turn_enqueued w
         then length extra = 1 \<and> dw_degraded w' \<and> dw_recovery_turn_enqueued w'
         else extra = [] \<and>
           (if dw_degraded w \<and> dw_recovery_turn_enqueued w \<and> item \<noteq> CreateContext \<and> tl (dw_queue w) = []
            then \<not> dw_degraded w' \<and> \<not> dw_recovery_turn_enqueued w'
            else dw_degraded w' = dw_degraded w \<and> dw_recovery_turn_enqueued w' = dw_recovery_turn_enqueued w))"

definition failed_step :: "DeliveryWorker \<Rightarrow> QueueItem list \<Rightarrow> DeliveryWorker \<Rightarrow> bool" where
  "failed_step w extra w' \<longleftrightarrow>
     dw_queue w' = dw_queue w @ extra \<and> (\<forall>i\<in>set extra. own_item i) \<and> dw_rx w' = dw_rx w
     \<and> dw_client w' = dw_client w \<and> dw_context_id w' = dw_context_id w \<and> dw_shutdown w' = dw_shutdown w
     \<and> dw_retry_delay w' = min (dw_retry_delay w * 2) MAX_RETRY_DELAY \<and> dw_rx_open w' = dw_rx_open w
     \<and> appended w' = appended w \<and> dw_degraded w' \<and> dw_recovery_turn_enqueued w' = (dw_degraded w \<and> dw_recovery_turn_enqueued w)"

lemma upload_done_step: "\<exists>extra. done_step item w extra (upload_done env io item w)"
proof (cases "dw_degraded w \<and> tl (dw_queue w) = [] \<and> \<not> dw_recovery_turn_enqueued w")
  case True
  obtain s t where t: "ingest_recovered_turn env 0 (dw_session w) = (s, t)" by fastforce
  from True t own_recovered [OF t] show ?thesis
    by (intro exI [of _ "[Append t]"]) (simp add: upload_done_def done_step_def)
next
  case False
  have item: "(case item of Append _ \<Rightarrow> True | CreateContext \<Rightarrow> False) \<longleftrightarrow> item \<noteq> CreateContext" by (cases item) auto
  from False show ?thesis
    by (intro exI [of _ "[]"]) (auto simp: upload_done_def Let_def item done_step_def)
qed

lemma upload_failed_step: "\<exists>extra. failed_step w extra (fst (upload_failed env io now err w))"
proof (cases "dw_degraded w")
  case True
  then show ?thesis
    by (intro exI [of _ "[]"]) (simp add: upload_failed_def enter_degraded_def Let_def failed_step_def)
next
  case False
  obtain s t where t: "ingest_degraded_turn env (length (dw_queue w)) err (dw_session w) = (s, t)" by fastforce
  from False t own_degraded [OF t] show ?thesis
    by (intro exI [of _ "[Append t]"]) (simp add: upload_failed_def enter_degraded_def Let_def failed_step_def)
qed

text \<open>The upload cases of an iteration, with all that is needed of them.\<close>

lemma uploaded_step:
  assumes "dw_queue v = pending w" "dw_rx v = []" "same_work w v" "dw_queue w \<noteq> []"
    and "process_item hx io (hd (pending w)) v = (u, Inr ())" and "w' = upload_done env io (hd (pending w)) u"
  obtains extra where "done_step (hd (pending w)) u extra w'" "dw_queue u = pending w" "dw_rx u = []"
    "pending w \<noteq> []" "dw_degraded u = dw_degraded w" "dw_recovery_turn_enqueued u = dw_recovery_turn_enqueued w"
    "dw_rx_open u = dw_rx_open w" "dw_shutdown u = dw_shutdown v"
  using assms process_item_facts [OF assms(5)] upload_done_step [of "hd (pending w)" u env io]
  by (auto simp: same_work_def pending_def)

lemma slept_step:
  assumes "dw_queue v = pending w" "dw_rx v = []" "same_work w v" "dw_queue w \<noteq> []"
    and "process_item hx io (hd (pending w)) v = (u, Inl err)" and "w' = fst (upload_failed env io now err u)"
  obtains extra where "failed_step u extra w'" "dw_queue u = pending w" "dw_rx u = []" "pending w \<noteq> []"
    "dw_degraded u = dw_degraded w" "dw_recovery_turn_enqueued u = dw_recovery_turn_enqueued w"
    "dw_rx_open u = dw_rx_open w" "dw_shutdown u = dw_shutdown v" "dw_context_id u = dw_context_id w"
    "dw_retry_delay u = dw_retry_delay w"
  using assms process_item_facts [OF assms(5)] upload_failed_step [of u env io now err]
  by (auto simp: same_work_def pending_def)

text \<open>Whatever happens, what was pending is uploaded or still pending, in the same order; the worker only adds turns
  of its own at the end.\<close>

lemma iteration_order:
  assumes "worker_iteration env hx tk w = (w', out)"
  shows "\<exists>extra. uploaded out @ pending w' = pending w @ extra \<and> (\<forall>i\<in>set extra. own_item i) \<and> (pending w = [] \<longrightarrow> extra = [])"
  using assms
proof (cases rule: iteration_cases)
  case returned
  then show ?thesis by (intro exI [of _ "[]"]) (simp add: pending_def uploaded_def)
next
  case waiting
  then show ?thesis by (intro exI [of _ "[]"]) (simp add: pending_def uploaded_def)
next
  case (took m rest)
  then show ?thesis
    using message_items_simps(4) [of "[m]" rest] by (intro exI [of _ "[]"]) (simp add: pending_def uploaded_def)
next
  case (uploaded v u)
  from uploaded(2,3,4,1,6,7) obtain extra where "done_step (hd (pending w)) u extra w'" "dw_queue u = pending w"
    "dw_rx u = []" "pending w \<noteq> []" by (rule uploaded_step)
  with uploaded(8) show ?thesis
    by (intro exI [of _ extra]) (simp add: uploaded_def pending_def [of w'] done_step_def)
next
  case (slept v u err)
  from slept(2,3,4,1,6,7) obtain extra where "failed_step u extra w'" "dw_queue u = pending w" "dw_rx u = []"
    "pending w \<noteq> []" by (rule slept_step)
  with slept(8) show ?thesis
    by (intro exI [of _ extra]) (simp add: uploaded_def pending_def [of w'] failed_step_def)
qed

section \<open>Runs\<close>

text \<open>
  The states a worker can be in, with the items sent to it and the items it has uploaded.  Senders put messages into
  the channel or drop their end; the session is shared with the proxy, which may change it at any time; the worker runs
  its loop with whatever it meets.
\<close>

inductive delivery :: "cxtx_env \<Rightarrow> http_env \<Rightarrow> DeliveryWorker \<Rightarrow> QueueItem list \<Rightarrow> QueueItem list \<Rightarrow> bool"
  for env hx where
  start: "sl_appended_sequences (lw_state l) = [] \<Longrightarrow> delivery env hx (worker_new c s l) [] []"
| enqueue: "delivery env hx w sent up \<Longrightarrow> \<not> own_item i \<Longrightarrow> delivery env hx (send_message (Enqueue i) w) (sent @ [i]) up"
| shutdown: "delivery env hx w sent up \<Longrightarrow> delivery env hx (send_message Shutdown w) sent up"
| close: "delivery env hx w sent up \<Longrightarrow> delivery env hx (w\<lparr>dw_rx_open := False\<rparr>) sent up"
| session: "delivery env hx w sent up \<Longrightarrow> delivery env hx (w\<lparr>dw_session := s\<rparr>) sent up"
| iteration: "delivery env hx w sent up \<Longrightarrow> worker_iteration env hx tk w = (w', out) \<Longrightarrow>
    delivery env hx w' sent (up @ uploaded out)"

lemma message_items_snoc: "message_items (ms @ [Enqueue i]) = message_items ms @ [i]"
  by simp

lemma pending_simps [simp]:
  "pending (send_message (Enqueue i) w) = pending w @ [i]" "pending (send_message Shutdown w) = pending w"
  "pending (w\<lparr>dw_rx_open := b\<rparr>) = pending w" "pending (w\<lparr>dw_session := s\<rparr>) = pending w"
  by (simp_all add: pending_def send_message_def)

lemma filter_own: "\<forall>i\<in>set xs. own_item i \<Longrightarrow> filter (\<lambda>i. \<not> own_item i) xs = []"
  by (induction xs) auto

lemma delivery_order:
  "delivery env hx w sent up \<Longrightarrow> sent = filter (\<lambda>i. \<not> own_item i) (up @ pending w)"
proof (induction rule: delivery.induct)
  case (start c s l)
  then show ?case by (simp add: pending_def worker_new_def)
next
  case (iteration w sent up tk w' out)
  from iteration_order [OF iteration.hyps(2)] obtain extra where
    e: "uploaded out @ pending w' = pending w @ extra" "\<forall>i\<in>set extra. own_item i" by blast
  from e(1) have "(up @ uploaded out) @ pending w' = (up @ pending w) @ extra" by simp
  with iteration.IH e(2) show ?case by (simp add: filter_own)
qed auto

definition delay_ok :: "DeliveryWorker \<Rightarrow> bool" where
  "delay_ok w \<longleftrightarrow> INITIAL_RETRY_DELAY \<le> dw_retry_delay w \<and> dw_retry_delay w \<le> MAX_RETRY_DELAY"

lemma delivery_delay: "delivery env hx w sent up \<Longrightarrow> delay_ok w"
proof (induction rule: delivery.induct)
  case (iteration w sent up tk w' out)
  from iteration.hyps(2) iteration.IH show ?case
  proof (cases rule: iteration_cases)
    case (uploaded v u)
    from uploaded(2,3,4,1,6,7) obtain extra where "done_step (hd (pending w)) u extra w'" by (rule uploaded_step)
    then have "dw_retry_delay w' = INITIAL_RETRY_DELAY" by (simp add: done_step_def)
    then show ?thesis by (simp add: delay_ok_def INITIAL_RETRY_DELAY_def MAX_RETRY_DELAY_def)
  next
    case (slept v u err)
    from slept(2,3,4,1,6,7) obtain extra where "failed_step u extra w'" "dw_retry_delay u = dw_retry_delay w"
      by (rule slept_step)
    then have "dw_retry_delay w' = min (dw_retry_delay w * 2) MAX_RETRY_DELAY" by (simp add: failed_step_def)
    with iteration.IH show ?thesis by (auto simp: delay_ok_def INITIAL_RETRY_DELAY_def MAX_RETRY_DELAY_def)
  qed (auto simp: delay_ok_def same_work_def)
qed (auto simp: delay_ok_def worker_new_def send_message_def INITIAL_RETRY_DELAY_def MAX_RETRY_DELAY_def)

section \<open>The state of a worker\<close>

lemma first_not_own: "delivery env hx w sent up \<Longrightarrow> up @ pending w \<noteq> [] \<Longrightarrow> \<not> own_item (hd (up @ pending w))"
proof (induction rule: delivery.induct)
  case (start c s l)
  then show ?case by (simp add: pending_def worker_new_def)
next
  case (enqueue w sent up i)
  then show ?case by (cases "up @ pending w = []") (auto simp: hd_append split: if_splits)
next
  case (iteration w sent up tk w' out)
  from iteration_order [OF iteration.hyps(2)] obtain extra where
    e: "uploaded out @ pending w' = pending w @ extra" "pending w = [] \<longrightarrow> extra = []" by blast
  from e(1) have eq: "(up @ uploaded out) @ pending w' = (up @ pending w) @ extra" by simp
  show ?case
  proof (cases "up @ pending w = []")
    case True
    with e eq iteration.prems show ?thesis by simp
  next
    case False
    with iteration.IH show ?thesis unfolding eq by (simp add: hd_append split: if_splits)
  qed
qed auto

lemma context_created: "delivery env hx w sent up \<Longrightarrow> dw_context_id w \<noteq> None \<longleftrightarrow> CreateContext \<in> set up"
proof (induction rule: delivery.induct)
  case (iteration w sent up tk w' out)
  from iteration.hyps(2) show ?case
  proof (cases rule: iteration_cases)
    case (uploaded v u)
    from uploaded(2,3,4,1,6,7) obtain extra where "done_step (hd (pending w)) u extra w'" by (rule uploaded_step)
    with process_item_facts(10,11) [OF uploaded(6)] uploaded(4,8) iteration.IH show ?thesis
      by (auto simp: done_step_def same_work_def uploaded_def split: if_splits)
  next
    case (slept v u err)
    from slept(2,3,4,1,6,7) obtain extra where "failed_step u extra w'" "dw_context_id u = dw_context_id w" by (rule slept_step)
    with slept(8) iteration.IH show ?thesis by (simp add: failed_step_def uploaded_def)
  qed (use iteration.IH in \<open>auto simp: same_work_def uploaded_def\<close>)
qed (auto simp: worker_new_def send_message_def)

text \<open>A session that is started as \<^verbatim>\<open>run\<close> starts it: the context first, then turns.\<close>

definition starts_with_context :: "QueueItem list \<Rightarrow> bool" where
  "starts_with_context sent \<longleftrightarrow> sent = [] \<or> hd sent = CreateContext \<and> CreateContext \<notin> set (tl sent)"

lemma starts_prefix: "starts_with_context (sent @ later) \<Longrightarrow> starts_with_context sent"
  by (cases sent) (auto simp: starts_with_context_def)

lemma context_only_first:
  assumes d: "delivery env hx w sent up" and s: "starts_with_context sent"
  shows "up @ pending w = [] \<or> hd (up @ pending w) = CreateContext \<and> CreateContext \<notin> set (tl (up @ pending w))"
proof (cases "up @ pending w")
  case (Cons x xs)
  from first_not_own [OF d] Cons have "\<not> own_item x" by simp
  with delivery_order [OF d] Cons have sent: "sent = x # filter (\<lambda>i. \<not> own_item i) xs" by simp
  with s have "x = CreateContext" "CreateContext \<notin> set (filter (\<lambda>i. \<not> own_item i) xs)" by (auto simp: starts_with_context_def)
  then have "x = CreateContext" "CreateContext \<notin> set xs" by (auto simp: own_item_def)
  with Cons show ?thesis by simp
qed simp

lemma no_context_later:
  assumes "delivery env hx w sent up" and "starts_with_context sent" and "up \<noteq> []"
  shows "CreateContext \<notin> set (pending w)"
  using context_only_first [OF assms(1,2)] assms(3) by (cases up) auto

lemma head_ready:
  assumes "delivery env hx w sent up" and "starts_with_context sent" and "pending w \<noteq> []"
  shows "hd (pending w) = CreateContext \<or> dw_context_id w \<noteq> None"
proof (cases up)
  case Nil
  with context_only_first [OF assms(1,2)] assms(3) show ?thesis by simp
next
  case (Cons x xs)
  with context_only_first [OF assms(1,2)] have "x = CreateContext" by simp
  with Cons context_created [OF assms(1)] show ?thesis by simp
qed

text \<open>A degraded worker has work left: it becomes healthy when its queue is empty.\<close>

lemma degraded_has_work:
  "delivery env hx w sent up \<Longrightarrow> starts_with_context sent \<Longrightarrow>
    (dw_degraded w \<longrightarrow> dw_queue w \<noteq> []) \<and> (dw_recovery_turn_enqueued w \<longrightarrow> dw_degraded w \<and> up \<noteq> [])"
proof (induction rule: delivery.induct)
  case (enqueue w sent up i)
  with starts_prefix [of sent "[i]"] show ?case by (simp add: send_message_def)
next
  case (iteration w sent up tk w' out)
  note IH = iteration.IH [OF iteration.prems]
  from iteration.hyps(2) show ?case
  proof (cases rule: iteration_cases)
    case (took m rest)
    with IH show ?thesis by (auto simp: same_work_def)
  next
    case (uploaded v u)
    from uploaded(2,3,4,1,6,7) obtain extra where d: "done_step (hd (pending w)) u extra w'" and q: "dw_queue u = pending w"
      "pending w \<noteq> []" "dw_degraded u = dw_degraded w" "dw_recovery_turn_enqueued u = dw_recovery_turn_enqueued w"
      by (rule uploaded_step)
    have "dw_recovery_turn_enqueued w \<Longrightarrow> hd (pending w) \<noteq> CreateContext"
      using no_context_later [OF iteration.hyps(1) iteration.prems] IH q(2) by (cases "pending w") auto
    with d q IH uploaded(8) show ?thesis by (auto simp: done_step_def uploaded_def split: if_splits)
  next
    case (slept v u err)
    from slept(2,3,4,1,6,7) obtain extra where "failed_step u extra w'" "dw_queue u = pending w" "pending w \<noteq> []"
      "dw_degraded u = dw_degraded w" "dw_recovery_turn_enqueued u = dw_recovery_turn_enqueued w" by (rule slept_step)
    with IH slept(8) show ?thesis by (auto simp: failed_step_def)
  qed (use IH in \<open>auto simp: same_work_def\<close>)
qed (auto simp: worker_new_def send_message_def)

section \<open>Progress\<close>

definition create_body :: json where
  "create_body = jobj [(''base_turn_id'', JStr ''0'')]"

text \<open>From its \<open>n\<close>-th request on the client gets the answers it hopes for: success, and a body with the identifier.\<close>

definition accepting :: "http_env \<Rightarrow> nat \<Rightarrow> bool" where
  "accepting hx n \<longleftrightarrow>
     (\<forall>k\<ge>n. \<forall>rq. \<exists>rp v. hx_send hx k rq = Responded rp \<and> is_success (rp_status rp) \<and> rp_json rp = Inr v
        \<and> (if rq_body rq = Some create_body then \<exists>i c. decode_id hx ''context_id'' v = Inr i \<and> into_u64 hx i = Inr c
           else \<exists>i. decode_id hx ''turn_id'' v = Inr i))"

definition url_ok :: "http_env \<Rightarrow> CxdbHttpClient \<Rightarrow> bool" where
  "url_ok hx c \<longleftrightarrow> (\<forall>p. \<exists>u. hx_join hx (hc_base_url c) p = Inr u)"

lemma url_okE: "url_ok hx c \<Longrightarrow> (\<And>u. join_url_at hx p c = Inr u \<Longrightarrow> thesis) \<Longrightarrow> thesis"
proof -
  assume "url_ok hx c" and that: "\<And>u. join_url_at hx p c = Inr u \<Longrightarrow> thesis"
  then obtain u where "hx_join hx (hc_base_url c) p = Inr u" by (auto simp: url_ok_def)
  then show thesis by (intro that [of u]) (simp add: join_url_at_def)
qed

lemma append_body_not_create: "append_body item \<noteq> create_body"
  by (simp add: append_body_def create_body_def jobj_def)

text \<open>\<open>answered hx c c' r\<close>: going from \<open>c\<close> to \<open>c'\<close> the client sent at least one request, and succeeded if the server
  accepts requests by now.\<close>

definition sends :: "http_env \<Rightarrow> bool \<Rightarrow> CxdbHttpClient \<Rightarrow> CxdbHttpClient \<Rightarrow> bool \<Rightarrow> bool" where
  "sends hx strict c c' ok \<longleftrightarrow> hc_base_url c' = hc_base_url c
     \<and> length (hc_sent c) + (if strict then 1 else 0) \<le> length (hc_sent c')
     \<and> (accepting hx (length (hc_sent c)) \<longrightarrow> ok)"

lemma accepting_mono: "accepting hx n \<Longrightarrow> n \<le> m \<Longrightarrow> accepting hx m"
  by (auto simp: accepting_def)

lemma accepting_send:
  assumes "accepting hx (length (hc_sent c))" and "http_send hx m url b c = (c', r)"
  obtains rp v where "r = Inr rp" "is_success (rp_status rp)" "rp_json rp = Inr v"
    "if b = Some create_body then \<exists>i k. decode_id hx ''context_id'' v = Inr i \<and> into_u64 hx i = Inr k
     else \<exists>i. decode_id hx ''turn_id'' v = Inr i"
proof -
  let ?rq = "\<lparr>rq_method = m, rq_url = url, rq_client_tag = hc_client_tag c, rq_body = b\<rparr>"
  from assms(1) obtain rp v where "hx_send hx (length (hc_sent c)) ?rq = Responded rp" "is_success (rp_status rp)" "rp_json rp = Inr v"
    "if rq_body ?rq = Some create_body then \<exists>i k. decode_id hx ''context_id'' v = Inr i \<and> into_u64 hx i = Inr k
     else \<exists>i. decode_id hx ''turn_id'' v = Inr i"
    unfolding accepting_def by blast
  with assms(2) show thesis by (intro that [of rp v]) (auto simp: http_send_def Let_def)
qed

lemma http_send_facts: "http_send hx m url b c = (c', r) \<Longrightarrow>
    hc_base_url c' = hc_base_url c \<and> length (hc_sent c') = Suc (length (hc_sent c)) \<and> hc_registry_ready c' = hc_registry_ready c"
  by (auto simp: http_send_def Let_def)

lemma create_context_sends:
  assumes u: "url_ok hx c" and c: "create_context_http hx c = (c', r)"
  shows "sends hx True c c' (\<exists>i. r = Inr i)"
proof -
  from u obtain url where url: "join_url_at hx ''/v1/contexts/create'' c = Inr url" by (rule url_okE)
  obtain c1 r1 where s: "http_send hx ''POST'' url (Some create_body) c = (c1, r1)" by fastforce
  from c url s have c1: "c' = c1" by (simp add: create_context_http_def create_body_def)
  have ok: "\<exists>i. r = Inr i" if a: "accepting hx (length (hc_sent c))"
  proof -
    from accepting_send [OF a s] obtain rp v i k where "r1 = Inr rp" "is_success (rp_status rp)" "rp_json rp = Inr v"
      "decode_id hx ''context_id'' v = Inr i" "into_u64 hx i = Inr k" by (metis (no_types, lifting))
    with c url s show ?thesis by (auto simp: create_context_http_def create_body_def checked_def permanent_def)
  qed
  with http_send_facts [OF s] c1 show ?thesis by (simp add: sends_def)
qed

lemma ensure_registered_sends:
  assumes u: "url_ok hx c" and e: "ensure_conversation_type_registered hx c = (c', r)"
  shows "sends hx (r \<noteq> Inr ()) c c' (r = Inr ())"
proof (cases "hc_registry_ready c")
  case True
  with e show ?thesis by (simp add: ensure_conversation_type_registered_def sends_def)
next
  case False
  from u obtain url where url: "join_url_at hx descriptor_path c = Inr url" by (rule url_okE)
  obtain c1 r1 where s: "http_send hx ''GET'' url None c = (c1, r1)" by fastforce
  note f = http_send_facts [OF s]
  have "r = Inr ()" if a: "accepting hx (length (hc_sent c))"
  proof -
    from accepting_send [OF a s] obtain rp where "r1 = Inr rp" "is_success (rp_status rp)" by metis
    with e False url s show ?thesis by (simp add: ensure_conversation_type_registered_def)
  qed
  moreover have "hc_base_url c' = hc_base_url c \<and> Suc (length (hc_sent c)) \<le> length (hc_sent c')"
    using e False url s f
    by (auto simp: ensure_conversation_type_registered_def Let_def
        split: sum.splits if_splits option.splits prod.splits dest!: http_send_facts)
  ultimately show ?thesis by (simp add: sends_def)
qed

lemma append_turn_sends:
  assumes u: "url_ok hx c" and c: "append_turn_http hx i item c = (c', r)"
  shows "sends hx True c c' (\<exists>k. r = Inr k)"
proof -
  obtain c0 r0 where e: "ensure_conversation_type_registered hx c = (c0, r0)" by fastforce
  note es = ensure_registered_sends [OF u e]
  show ?thesis
  proof (cases r0)
    case (Inl err)
    with c e es show ?thesis by (simp add: append_turn_http_def sends_def)
  next
    case (Inr x)
    from es have b0: "hc_base_url c0 = hc_base_url c" "length (hc_sent c) \<le> length (hc_sent c0)" by (auto simp: sends_def)
    with u have "url_ok hx c0" by (simp add: url_ok_def)
    then obtain url where url: "join_url_at hx (append_path i) c0 = Inr url" by (rule url_okE)
    obtain c1 r1 where s: "http_send hx ''POST'' url (Some (append_body item)) c0 = (c1, r1)" by fastforce
    from c e Inr url s have c1: "c' = c1" by (simp add: append_turn_http_def)
    have "\<exists>k. r = Inr k" if "accepting hx (length (hc_sent c))"
    proof -
      from accepting_mono [OF that b0(2)] have a: "accepting hx (length (hc_sent c0))" .
      from accepting_send [OF a s] append_body_not_create obtain rp v k where "r1 = Inr rp" "is_success (rp_status rp)"
        "rp_json rp = Inr v" "decode_id hx ''turn_id'' v = Inr k" by (metis (no_types, lifting) option.inject)
      with c e Inr url s show ?thesis by (auto simp: append_turn_http_def checked_def permanent_def)
    qed
    with http_send_facts [OF s] b0 c1 show ?thesis by (simp add: sends_def)
  qed
qed

lemma process_item_sends:
  assumes "url_ok hx (dw_client w)" and "item = CreateContext \<or> dw_context_id w \<noteq> None"
    and "process_item hx io item w = (w', r)"
  shows "sends hx True (dw_client w) (dw_client w') (r = Inr ())"
proof (cases item)
  case CreateContext
  obtain c r0 where c: "create_context_http hx (dw_client w) = (c, r0)" by fastforce
  note create_context_sends [OF assms(1) c]
  with assms(3) CreateContext c show ?thesis by (cases r0) (auto simp: process_item_def sends_def)
next
  case (Append t)
  with assms(2) obtain i where i: "dw_context_id w = Some i" by auto
  obtain c r0 where c: "append_turn_http hx i (te_item t) (dw_client w) = (c, r0)" by fastforce
  note append_turn_sends [OF assms(1) c]
  with assms(3) Append i c show ?thesis by (cases r0) (auto simp: process_item_def sends_def)
qed

primrec worker_run :: "cxtx_env \<Rightarrow> http_env \<Rightarrow> nat \<Rightarrow> (nat \<Rightarrow> tick) \<Rightarrow> DeliveryWorker \<Rightarrow> DeliveryWorker \<times> QueueItem list" where
  "worker_run env hx 0 tk w = (w, [])"
| "worker_run env hx (Suc k) tk w =
     (let (w, out) = worker_iteration env hx (tk 0) w; (w, us) = worker_run env hx k (\<lambda>i. tk (Suc i)) w
      in (w, uploaded out @ us))"

lemma delivery_run:
  "delivery env hx w sent up \<Longrightarrow> worker_run env hx k tk w = (w', us) \<Longrightarrow> delivery env hx w' sent (up @ us)"
proof (induction k arbitrary: tk w up us)
  case (Suc k)
  obtain v out where v: "worker_iteration env hx (tk 0) w = (v, out)" by fastforce
  obtain us' where r: "worker_run env hx k (\<lambda>i. tk (Suc i)) v = (w', us')" "us = uploaded out @ us'"
    using Suc.prems(2) v by (auto split: prod.splits)
  from Suc.IH [OF delivery.iteration [OF Suc.prems(1) v] r(1)] r(2) show ?case by simp
qed simp

text \<open>The worker is up and nobody has asked it to stop.\<close>

definition running :: "http_env \<Rightarrow> DeliveryWorker \<Rightarrow> bool" where
  "running hx w \<longleftrightarrow> url_ok hx (dw_client w) \<and> \<not> dw_shutdown w \<and> Shutdown \<notin> set (dw_rx w) \<and> dw_rx_open w"

definition work_left :: "DeliveryWorker \<Rightarrow> nat" where
  "work_left w = 2 * length (pending w) + (if dw_degraded w \<and> \<not> dw_recovery_turn_enqueued w then 3 else 0)
     + (if dw_queue w = [] then 1 else 0)"

lemma iteration_progress:
  assumes d: "delivery env hx w sent up" and st: "starts_with_context sent" and r: "running hx w"
    and acc: "accepting hx n" and p: "pending w \<noteq> []" and it: "worker_iteration env hx tk w = (w', out)"
  shows "running hx w' \<and>
    ((n - length (hc_sent (dw_client w')), work_left w'), (n - length (hc_sent (dw_client w)), work_left w)) \<in> less_than <*lex*> less_than"
  using it
proof (cases rule: iteration_cases)
  case (took m rest)
  from r took(3) have "m \<noteq> Shutdown" by (auto simp: running_def)
  then obtain i where m: "m = Enqueue i" by (cases m) auto
  with took r show ?thesis by (auto simp: running_def same_work_def work_left_def pending_def)
next
  case (uploaded v u)
  from uploaded(2,3,4,1,6,7) obtain extra where ds: "done_step (hd (pending w)) u extra w'" and q: "dw_queue u = pending w"
    "dw_rx u = []" "dw_degraded u = dw_degraded w" "dw_recovery_turn_enqueued u = dw_recovery_turn_enqueued w"
    "dw_rx_open u = dw_rx_open w" "dw_shutdown u = dw_shutdown v" by (rule uploaded_step)
  have s: "sends hx True (dw_client w) (dw_client w') True"
    using process_item_sends [OF _ _ uploaded(6)] r head_ready [OF d st p] uploaded(4) ds
    by (auto simp: running_def same_work_def done_step_def)
  have run: "running hx w'"
    using s r ds q uploaded(5) by (auto simp: running_def sends_def url_ok_def done_step_def)
  have "work_left w' < work_left w"
    using ds q p uploaded(1) by (cases "pending w") (auto simp: work_left_def done_step_def pending_def [of w'] split: if_splits)
  with s run show ?thesis by (auto simp: sends_def)
next
  case (slept v u err)
  from slept(2,3,4,1,6,7) obtain extra where ds: "failed_step u extra w'" and q: "dw_queue u = pending w" "dw_rx u = []"
    "dw_rx_open u = dw_rx_open w" "dw_shutdown u = dw_shutdown v" by (rule slept_step)
  have s: "sends hx True (dw_client w) (dw_client w') False"
    using process_item_sends [OF _ _ slept(6)] r head_ready [OF d st p] slept(4) ds
    by (auto simp: running_def same_work_def failed_step_def)
  have "length (hc_sent (dw_client w)) < n"
    using s accepting_mono [OF acc] by (auto simp: sends_def not_less [symmetric])
  moreover have "running hx w'"
    using s r ds q slept(5) by (auto simp: running_def sends_def url_ok_def failed_step_def)
  ultimately show ?thesis using s by (auto simp: sends_def)
qed (use r p in \<open>auto simp: running_def pending_def\<close>)

lemma delivery_completes:
  assumes "delivery env hx w sent up" and "starts_with_context sent" and "running hx w" and acc: "accepting hx n"
  shows "\<exists>k w' us. worker_run env hx k tk w = (w', us) \<and> pending w' = []"
  using assms(1-3)
proof (induction "(n - length (hc_sent (dw_client w)), work_left w)" arbitrary: w up tk
    rule: wf_induct_rule [OF wf_lex_prod [OF wf_less_than wf_less_than]])
  case (1 w up tk)
  show ?case
  proof (cases "pending w = []")
    case True
    then show ?thesis by (intro exI [of _ 0]) simp
  next
    case False
    obtain v out where v: "worker_iteration env hx (tk 0) w = (v, out)" by fastforce
    from iteration_progress [OF 1(2,3,4) acc False v] have p: "running hx v"
      "((n - length (hc_sent (dw_client v)), work_left v), (n - length (hc_sent (dw_client w)), work_left w)) \<in> less_than <*lex*> less_than"
      by blast+
    from 1(1) [OF p(2) delivery.iteration [OF 1(2) v] 1(3) p(1)] obtain k w' us where
      "worker_run env hx k (\<lambda>i. tk (Suc i)) v = (w', us)" "pending w' = []" by blast
    with v show ?thesis by (intro exI [of _ "Suc k"]) simp
  qed
qed

section \<open>Properties\<close>

definition delivered_ordinals :: "QueueItem list \<Rightarrow> u64 list" where
  "delivered_ordinals up =
     foldl (\<lambda>os i. case i of Append t \<Rightarrow> push_new (te_ordinal t) os | CreateContext \<Rightarrow> os) [] up"

lemma delivery_appended: "delivery env hx w sent up \<Longrightarrow> appended w = delivered_ordinals up"
proof (induction rule: delivery.induct)
  case (iteration w sent up tk w' out)
  from iteration.hyps(2) show ?case
  proof (cases rule: iteration_cases)
    case (uploaded v u)
    from uploaded(2,3,4,1,6,7) obtain extra where "done_step (hd (pending w)) u extra w'" by (rule uploaded_step)
    with process_item_facts(12) [OF uploaded(6)] uploaded(4,8) iteration.IH show ?thesis
      by (auto simp: done_step_def same_work_def uploaded_def delivered_ordinals_def split: QueueItem.splits)
  next
    case (slept v u err)
    from slept(2,3,4,1,6,7) obtain extra where "failed_step u extra w'" by (rule slept_step)
    with process_item_facts(12) [OF slept(6)] slept(4,8) iteration.IH show ?thesis
      by (auto simp: failed_step_def same_work_def uploaded_def delivered_ordinals_def split: QueueItem.splits)
  qed (use iteration.IH in \<open>auto simp: same_work_def uploaded_def\<close>)
qed (auto simp: worker_new_def send_message_def delivered_ordinals_def appended_def)

text \<open>An instance: a client whose first request fails and whose later ones succeed, a session with one turn.\<close>

definition demo_cx :: cxtx_env where
  "demo_cx = \<lparr>cx_pretty = \<lambda>_. Some [], cx_to_string = \<lambda>_. Some ''{}'', cx_from_slice = \<lambda>_. Inl ''eof'',
     cx_rfc3339 = \<lambda>_. [], cx_fmt_secs = \<lambda>_. [], cx_clock = \<lambda>_. 0\<rparr>"

definition demo_hx :: http_env where
  "demo_hx = \<lparr>hx_send = \<lambda>n rq. if n = 0 then Failed True ''refused''
       else Responded \<lparr>rp_status = 200, rp_text = None,
         rp_json = Inr (JObj [(''context_id'', JInt 7), (''turn_id'', JStr ''3'')])\<rparr>,
     hx_join = \<lambda>b p. Inr (b @ p), hx_status_text = \<lambda>_. [], hx_decode_err = \<lambda>_. [], hx_id_err = \<lambda>_. [], hx_bundle = Inl []\<rparr>"

definition demo_session :: SessionRuntime where
  "demo_session = \<lparr>sr_session = \<lparr>cs_session_id = ''s'', cs_provider_kind = ''openai'', cs_child_command = ''codex'',
     cs_child_args = [], cs_started_at = 0\<rparr>, sr_provider = Codex, sr_metadata = empty_metadata, sr_child_pid = 0,
     sr_next_turn_ordinal = 1, sr_next_exchange_ordinal = 0, sr_observed_history = []\<rparr>"

definition demo_ledger :: SessionLedgerWriter where
  "demo_ledger = \<lparr>lw_root = [], lw_state = \<lparr>sl_session_id = ''s'', sl_provider_kind = [], sl_child_command = [],
     sl_child_args = [], sl_started_at = 0, sl_ended_at = None, sl_child_pid = None, sl_child_exit_code = None,
     sl_cxdb_context_id = None, sl_delivery_state = ''starting'', sl_queue_depth = 0, sl_appended_sequences = [],
     sl_provider_request_ids = [], sl_last_delivery_error = None, sl_artifacts_root = [], sl_exchanges = []\<rparr>,
     lw_json = None, lw_files = Map.empty\<rparr>"

definition demo_turn :: TurnEnvelope where
  "demo_turn = \<lparr>te_ordinal = 1, te_item = new_user_input 0 ''hi'' []\<rparr>"

definition demo_worker :: DeliveryWorker where
  "demo_worker = send_message (Enqueue (Append demo_turn)) (send_message (Enqueue CreateContext)
     (worker_new (http_client_new ''http://h'' ''t'') demo_session demo_ledger))"

lemma demo_turn_not_own: "\<not> own_item (Append demo_turn)"
  by (simp add: own_item_def demo_turn_def new_user_input_def)

lemma demo_delivery: "delivery env hx demo_worker [CreateContext, Append demo_turn] []"
proof -
  have "delivery env hx (worker_new (http_client_new ''http://h'' ''t'') demo_session demo_ledger) [] []"
    by (rule delivery.start) (simp add: demo_ledger_def)
  from delivery.enqueue [OF delivery.enqueue [OF this]] demo_turn_not_own show ?thesis
    by (simp add: demo_worker_def own_item_def)
qed

lemma demo_running: "running demo_hx demo_worker"
  by (simp add: running_def url_ok_def demo_hx_def demo_worker_def send_message_def worker_new_def)

lemma demo_accepting: "accepting demo_hx 1"
  by (auto simp: accepting_def demo_hx_def is_success_def decode_id_def jget_def obj_get_def into_u64_def)





text \<open>A shutdown ends in time: a worker that was asked to stop returns without sending anything as soon as its
  queue is empty or it finds the deadline passed, and when it sleeps after a failed upload it does not sleep past the
  deadline.\<close>

theorem shutdown_bounded:
  assumes "dw_shutdown w" and "dw_shutdown_deadline w = Some d" and "worker_iteration env hx tk w = (w', out)"
    and "Shutdown \<notin> set (dw_rx w)"
  shows "((dw_queue w = [] \<or> d \<le> tk_finish tk) \<longrightarrow> out = Returned \<and> dw_client w' = dw_client w \<and> dw_queue w' = dw_queue w)
    \<and> (\<forall>ms. out = Slept ms \<longrightarrow> tk_after tk + ms \<le> max d (tk_after tk))"
proof (intro conjI allI)
  obtain w1 b where fin: "maybe_finish_shutdown (tk_io tk) (tk_check tk) (tk_finish tk) w = (w1, b)" by fastforce
  note f = finish_facts [OF fin]
  show "(dw_queue w = [] \<or> d \<le> tk_finish tk) \<longrightarrow> out = Returned \<and> dw_client w' = dw_client w \<and> dw_queue w' = dw_queue w"
    using f assms fin by (auto simp: worker_iteration_def reached_def same_work_def)
  show "out = Slept ms \<longrightarrow> tk_after tk + ms \<le> max d (tk_after tk)" for ms
  proof
    assume out: "out = Slept ms"
    from assms(3) show "tk_after tk + ms \<le> max d (tk_after tk)"
    proof (cases rule: iteration_cases)
      case (slept v u err)
      have "dw_shutdown_deadline u = Some d" using process_item_facts(8) [OF slept(6)] slept(5) assms(2,4) by simp
      with slept(8) out show ?thesis
        by (auto simp: upload_failed_def enter_degraded_def Let_def split: prod.splits if_splits)
    qed (use out in auto)
  qed
qed

definition demo_stopping :: DeliveryWorker where
  "demo_stopping = demo_worker\<lparr>dw_queue := [CreateContext], dw_rx := [], dw_shutdown := True, dw_shutdown_deadline := Some 5100\<rparr>"

definition demo_tick :: "nat \<Rightarrow> tick" where
  "demo_tick t = \<lparr>tk_check = t, tk_finish = t, tk_drain = \<lambda>_. t, tk_after = t, tk_io = \<lambda>_. None\<rparr>"

theorem shutdown_bounded_witness:
  "snd (worker_iteration demo_cx demo_hx (demo_tick 5100) demo_stopping) = Returned
   \<and> (case snd (worker_iteration demo_cx demo_hx (demo_tick 5000) demo_stopping) of Slept ms \<Rightarrow> ms \<le> 100 | _ \<Rightarrow> True)"
proof
  have s: "dw_shutdown demo_stopping" "dw_shutdown_deadline demo_stopping = Some 5100" "Shutdown \<notin> set (dw_rx demo_stopping)"
    by (simp_all add: demo_stopping_def)
  show "snd (worker_iteration demo_cx demo_hx (demo_tick 5100) demo_stopping) = Returned"
    using shutdown_bounded [OF s(1,2) surjective_pairing s(3), where env = demo_cx and hx = demo_hx and tk = "demo_tick 5100"] by (simp add: demo_tick_def)
  show "case snd (worker_iteration demo_cx demo_hx (demo_tick 5000) demo_stopping) of Slept ms \<Rightarrow> ms \<le> 100 | _ \<Rightarrow> True"
    using shutdown_bounded [OF s(1,2) surjective_pairing s(3), where env = demo_cx and hx = demo_hx and tk = "demo_tick 5000"]
    by (auto simp: demo_tick_def split: iteration.split)
qed

text \<open>A turn that reaches the worker before the request to create the context blocks it for good: whatever the server
  answers, the worker keeps waiting for a context that only a later item of its own queue would create; it sends no
  request and uploads nothing, however long it runs.\<close>

theorem append_before_context_stuck:
  assumes "dw_queue w = Append t # q" and "dw_context_id w = None" and "running hx w"
    and "worker_run env hx k tk w = (w', us)"
  shows "us = [] \<and> dw_client w' = dw_client w \<and> dw_context_id w' = None \<and> (\<exists>q'. dw_queue w' = Append t # q')"
  using assms
proof (induction k arbitrary: tk w q us)
  case (Suc k)
  obtain v out where v: "worker_iteration env hx (tk 0) w = (v, out)" by fastforce
  obtain us' where r: "worker_run env hx k (\<lambda>i. tk (Suc i)) v = (w', us')" "us = uploaded out @ us'"
    using Suc.prems(4) v by (auto split: prod.splits)
  have p: "hd (pending w) = Append t" using Suc.prems(1) by (simp add: pending_def)
  have "out = Slept (case out of Slept n \<Rightarrow> n | _ \<Rightarrow> 0) \<and> dw_client v = dw_client w \<and> dw_context_id v = None \<and> running hx v
      \<and> (\<exists>q'. dw_queue v = Append t # q')"
    using v
  proof (cases rule: iteration_cases)
    case (uploaded x u)
    with p Suc.prems(2) show ?thesis by (auto simp: process_item_def same_work_def)
  next
    case (slept x u err)
    from slept(2,3,4,1,6,7) obtain extra where "failed_step u extra v" "dw_queue u = pending w" "dw_rx u = []"
      "dw_rx_open u = dw_rx_open w" "dw_shutdown u = dw_shutdown x" "dw_context_id u = dw_context_id w" by (rule slept_step)
    moreover have "dw_client u = dw_client w" using slept(4,6) p Suc.prems(2) by (auto simp: process_item_def same_work_def)
    ultimately show ?thesis
      using Suc.prems slept(5,8) by (auto simp: failed_step_def running_def pending_def)
  qed (use Suc.prems in \<open>auto simp: running_def\<close>)
  then obtain n q' where o: "out = Slept n" "dw_client v = dw_client w" "dw_context_id v = None" "running hx v"
    "dw_queue v = Append t # q'" by blast
  from Suc.IH [OF o(5,3,4) r(1)] o r(2) show ?case by (simp add: uploaded_def)
qed simp

theorem append_before_context_stuck_witness:
  "snd (worker_run demo_cx demo_hx 1000 demo_tick (demo_worker\<lparr>dw_queue := [Append demo_turn, CreateContext], dw_rx := []\<rparr>)) = []"
  using append_before_context_stuck [OF _ _ _ surjective_pairing,
      of "demo_worker\<lparr>dw_queue := [Append demo_turn, CreateContext], dw_rx := []\<rparr>" demo_turn "[CreateContext]" demo_hx demo_cx 1000 demo_tick]
    demo_running
  by (simp add: running_def demo_worker_def send_message_def worker_new_def)

end
