(* ===== verification/Proxy_Props.thy ===== *)
theory Proxy_Props
  imports Cxtx_Proxy Delivery_Props
begin

text \<open>
  Correctness of the proxy of \<^verbatim>\<open>cxtx\<close>: every turn of an exchange is handed to the delivery worker once and in order,
  what is captured of a stream does not depend on how the network cuts it, requests reach the upstream path they
  name, and the child cannot bypass the proxy.
\<close>

section \<open>Turns of an exchange\<close>

definition adds_turns :: "proxy \<Rightarrow> proxy \<Rightarrow> bool" where
  "adds_turns p p' \<longleftrightarrow> (\<exists>ts. px_enqueued p' = px_enqueued p @ ts \<and> emits (px_session p) (px_session p') ts)"

lemma adds_turns_refl: "px_enqueued p' = px_enqueued p \<Longrightarrow> px_session p' = px_session p \<Longrightarrow> adds_turns p p'"
  by (intro adds_turns_def [THEN iffD2] exI [of _ "[]"]) (simp add: emits_Nil)

lemma adds_turns_trans: "adds_turns p q \<Longrightarrow> adds_turns q r \<Longrightarrow> adds_turns p r"
  unfolding adds_turns_def using emits_append by fastforce

lemma adds_turns_ledger [simp]:
  "adds_turns (p\<lparr>px_ledger := l\<rparr>) q = adds_turns p q" "adds_turns p (q\<lparr>px_ledger := l\<rparr>) = adds_turns p q"
  by (simp_all add: adds_turns_def)

lemma adds_turns_enqueue:
  "emits (px_session p) s ts \<Longrightarrow> adds_turns p (enqueue_turns ts (p\<lparr>px_session := s\<rparr>))"
  by (auto simp: adds_turns_def enqueue_turns_def)

lemma adds_error_turn: "adds_turns p (proxy_error_turn env x ti m rid refs p)"
  by (auto simp: proxy_error_turn_def split: prod.split intro!: adds_turns_enqueue dest: emits_provider_error)

lemma emits_exchange_id: "next_exchange_id s = (s', x) \<Longrightarrow> emits s s' []"
  by (auto simp: next_exchange_id_def Let_def intro: emits_Nil)

lemma adds_body_response:
  assumes "body_response env io rp rid pe refs p = (p', r)"
  shows "adds_turns p p'"
proof (cases "up_body rp")
  case (Inl e)
  with assms show ?thesis by (simp add: body_response_def adds_turns_refl)
next
  case (Inr body)
  let ?ct = "header_value (up_headers rp) ''content-type''"
  obtain l r1 where l: "record_response env io (pe_exchange_id pe) (up_status rp) rid ?ct body (parsed_body env ?ct body)
      (px_ledger p) = (l, r1)" by fastforce
  show ?thesis
  proof (cases r1)
    case (Inl e)
    with assms Inr l show ?thesis by (auto simp: body_response_def Let_def adds_turns_refl)
  next
    case path: (Inr path)
    obtain s ts where f: "finalize_json env (pe_state pe) (up_status rp) rid body (with_response_path refs (Some path))
        (px_session p) = (s, ts)" by fastforce
    with assms Inr l path have "p' = enqueue_turns ts ((p\<lparr>px_ledger := l\<rparr>)\<lparr>px_session := s\<rparr>)"
      by (auto simp: body_response_def Let_def)
    with adds_turns_enqueue [of "p\<lparr>px_ledger := l\<rparr>" s ts] emits_finalize_json [OF f] show ?thesis by simp
  qed
qed

lemma adds_stream_frame: "adds_turns (stm_proxy st) (stm_proxy (stream_frame env ios x rid st f))"
proof -
  obtain l r where l: "append_stream_frame env (ios (stm_calls st)) x (sf_raw f) (px_ledger (stm_proxy st)) = (l, r)" by fastforce
  show ?thesis
  proof (cases r)
    case (Inl e)
    with l adds_error_turn [of "(stm_proxy st)\<lparr>px_ledger := l\<rparr>"] show ?thesis by (simp add: stream_frame_def)
  next
    case (Inr path)
    with l show ?thesis by (simp add: stream_frame_def adds_turns_refl)
  qed
qed

lemma adds_stream_frames: "adds_turns (stm_proxy st) (stm_proxy (foldl (stream_frame env ios x rid) st fs))"
proof (induction fs arbitrary: st)
  case (Cons f fs)
  from adds_turns_trans [OF adds_stream_frame Cons.IH] show ?case by simp
qed (simp add: adds_turns_refl)

lemma adds_stream_chunk: "adds_turns (stm_proxy st) (stm_proxy (stream_chunk env ios x rid c st))"
proof -
  obtain b fs where "parse_sse_buffer (stm_buffer st @ from_utf8_lossy c) = (b, fs)" by fastforce
  with adds_stream_frames [of "st\<lparr>stm_raw := stm_raw st @ from_utf8_lossy c, stm_buffer := b\<rparr>" env ios x rid fs] show ?thesis
    by (simp add: stream_chunk_def)
qed

lemma adds_stream_loop: "adds_turns (stm_proxy st) (stm_proxy (stream_loop env ios x rid cs st))"
proof (induction env ios x rid cs st rule: stream_loop.induct)
  case (2 env ios x rid c cs st)
  from adds_turns_trans [OF adds_stream_chunk 2] show ?case by simp
qed (simp_all add: adds_turns_refl adds_error_turn)

lemma adds_stream_finish: "adds_turns (stm_proxy st) (stream_finish env ios x status rid ct st)"
proof -
  obtain l r where r: "record_response env (ios (stm_calls st)) x status rid ct (as_bytes (stm_raw st)) None
      (px_ledger (stm_proxy st)) = (l, r)" by fastforce
  let ?p = "(stm_proxy st)\<lparr>px_ledger := l\<rparr>"
  define q where "q = (case r of Inr path \<Rightarrow> ?p | Inl err \<Rightarrow> proxy_error_turn env x ''artifact_write_error''
                (''failed to persist streamed response transcript: '' @ err) rid (stm_refs st) ?p)"
  define refs where "refs = (case r of Inr path \<Rightarrow> (stm_refs st)\<lparr>ar_response_path := Some path\<rparr> | Inl err \<Rightarrow> stm_refs st)"
  obtain s ts where f: "finalize_stream env (stm_exchange st) status rid refs
            (if trim (stm_buffer st) = [] then None else Some (stm_buffer st)) (px_session q) = (s, ts)" by fastforce
  have eq: "stream_finish env ios x status rid ct st = enqueue_turns ts (q\<lparr>px_session := s\<rparr>)"
    using r f by (cases r) (simp_all add: stream_finish_def q_def refs_def)
  have "adds_turns (stm_proxy st) q"
    using adds_error_turn [of ?p] by (cases r) (simp_all add: q_def adds_turns_refl)
  then show ?thesis unfolding eq
    by (rule adds_turns_trans) (rule adds_turns_enqueue [OF emits_finalize_stream [OF f]])
qed

lemma adds_stream_response: "adds_turns p (stream_response env ios rp rid pe refs p)"
  unfolding stream_response_def Let_def
  by (rule adds_turns_trans [OF _ adds_stream_finish]) (rule adds_stream_loop [of "\<lparr>stm_proxy = p, stm_buffer = _, stm_raw = _, stm_exchange = _, stm_refs = _, stm_calls = _\<rparr>", simplified])

lemma adds_handle_proxy_request: "adds_turns p (fst (handle_proxy_request ux env ios prov up send att rq p))"
proof (cases "att")
  case att: True
  show ?thesis
  proof (cases "resolve_route ux prov up (pq_uri rq)")
    case (Inl e)
    with att show ?thesis by (simp add: handle_proxy_request_def adds_turns_refl)
  next
    case (Inr ru)
    then obtain protocol url where route: "resolve_route ux prov up (pq_uri rq) = Inr (protocol, url)" by (cases ru) auto
    let ?ct = "header_value (pq_headers rq) ''content-type''"
    let ?js = "parsed_body env ?ct (pq_body rq)"
    obtain s x where x: "next_exchange_id (px_session p) = (s, x)" by fastforce
    obtain l r where l: "record_request env (ios 0) x (uri_path (pq_uri rq)) (Option.bind ?js find_model_field) ?ct (pq_body rq) ?js
        (px_ledger p) = (l, r)" by fastforce
    let ?p1 = "p\<lparr>px_session := s, px_ledger := l\<rparr>"
    have p1: "adds_turns p ?p1"
      using emits_exchange_id [OF x] by (auto simp: adds_turns_def intro!: exI [of _ "[]"])
    show ?thesis
    proof (cases r)
      case (Inl e)
      with att route x l p1 show ?thesis by (simp add: handle_proxy_request_def)
    next
      case path: (Inr path)
      let ?refs = "with_request_path default_artifact_refs (Some path)"
      obtain s2 pe where pe: "prepare_exchange protocol env x (pq_body rq) ?refs s = (s2, pe)" by fastforce
      let ?p2 = "enqueue_turns (pe_request_turns pe) (?p1\<lparr>px_session := s2\<rparr>)"
      from emits_prepare [OF pe] have p2: "adds_turns p ?p2"
        by (intro adds_turns_trans [OF p1] adds_turns_enqueue) simp
      show ?thesis
      proof (cases "send (pq_method rq) url (forwardable_headers (pq_headers rq)) (pq_body rq)")
        case (Inl e)
        with att route x l path pe adds_turns_trans [OF p2 adds_error_turn] show ?thesis
          by (simp add: handle_proxy_request_def Let_def)
      next
        case (Inr rp)
        show ?thesis
        proof (cases "is_event_stream (up_headers rp)")
          case True
          with att route x l path pe Inr adds_turns_trans [OF p2 adds_stream_response] show ?thesis
            by (simp add: handle_proxy_request_def Let_def)
        next
          case False
          obtain p3 r3 where b: "body_response env (ios 1) rp (request_id_from_headers prov (up_headers rp)) pe ?refs ?p2 = (p3, r3)"
            by fastforce
          with att route x l path pe Inr False adds_turns_trans [OF p2 adds_body_response [OF b]] show ?thesis
            by (simp add: handle_proxy_request_def Let_def)
        qed
      qed
    qed
  qed
qed (simp add: handle_proxy_request_def adds_turns_refl)

subsection \<open>Websockets\<close>

lemma emits_finalize_pending: "finalize_pending env wc s = (wc', s', ts) \<Longrightarrow> emits s s' ts"
  by (auto simp: finalize_pending_def emits_Nil split: option.splits prod.splits dest: emits_finalize_stream)

lemma emits_observe_down: "observe_downstream_message env m wc s = (wc', s', ts) \<Longrightarrow> emits s s' ts"
proof (cases m)
  case (WText str)
  assume o: "observe_downstream_message env m wc s = (wc', s', ts)"
  obtain wc1 s1 ts1 where f: "finalize_pending env wc s = (wc1, s1, ts1)" by (cases "finalize_pending env wc s")
  obtain s2 pe where pe: "openai_prepare_exchange env (wc_exchange_id wc1) (as_bytes str) (wc_artifact_refs wc1) s1 = (s2, pe)"
    by fastforce
  from emits_prepare [of OpenAi] pe have "emits s1 s2 (pe_request_turns pe)" by fastforce
  from emits_append [OF emits_finalize_pending [OF f] this] o WText f pe show ?thesis
    by (auto simp: observe_downstream_message_def observe_downstream_text_def emits_Nil split: sum.splits if_splits)
qed (auto simp: observe_downstream_message_def emits_Nil)

lemma emits_observe_up: "observe_upstream_message env m wc s = (wc', s', ts) \<Longrightarrow> emits s s' ts"
  by (auto simp: observe_upstream_message_def observe_upstream_text_def emits_Nil Let_def
      split: ws_message.splits option.splits sum.splits if_splits dest: emits_finalize_pending)

lemma adds_observe:
  assumes "\<And>wc s wc' s' ts. f wc s = (wc', s', ts) \<Longrightarrow> emits s s' ts"
  shows "adds_turns (rl_proxy rl) (rl_proxy (observe att f rl))"
  using assms by (auto simp: observe_def adds_turns_refl split: prod.split intro!: adds_turns_enqueue)

lemma adds_record_ws: "adds_turns (rl_proxy rl) (rl_proxy (record_ws_frame env ios x d m rl))"
  by (auto simp: record_ws_frame_def adds_turns_refl split: option.split prod.split)

lemma adds_relay_finish: "adds_turns (rl_proxy rl) (rl_proxy (relay_finish env att rl))"
  using adds_observe [of "finalize_pending env" rl att] emits_finalize_pending by (simp add: relay_finish_def)

lemma adds_relay_error: "adds_turns (rl_proxy rl) (rl_proxy (websocket_relay_error env att x rid refs ti m rl))"
  by (simp add: websocket_relay_error_def adds_error_turn adds_turns_refl)

lemma adds_relay_step: "adds_turns (rl_proxy rl) (rl_proxy (relay_step env ios att x rid refs ev rl))"
proof -
  have down: "adds_turns (rl_proxy rl) (rl_proxy (observe att (observe_downstream_message env m) (record_ws_frame env ios x d m rl)))" for m d
    by (rule adds_turns_trans [OF adds_record_ws adds_observe]) (rule emits_observe_down)
  have up: "adds_turns (rl_proxy rl) (rl_proxy (observe att (observe_upstream_message env m) (record_ws_frame env ios x d m rl)))" for m d
    by (rule adds_turns_trans [OF adds_record_ws adds_observe]) (rule emits_observe_up)
  have fin: "adds_turns (rl_proxy rl) (rl_proxy r1) \<Longrightarrow> adds_turns (rl_proxy rl) (rl_proxy (relay_finish env att (r1\<lparr>rl_to_up := a\<rparr>)))"
    "adds_turns (rl_proxy rl) (rl_proxy r1) \<Longrightarrow> adds_turns (rl_proxy rl) (rl_proxy (relay_finish env att (r1\<lparr>rl_to_down := a\<rparr>)))" for r1 a
    using adds_turns_trans [OF _ adds_relay_finish [of "r1\<lparr>rl_to_up := a\<rparr>" env att]]
      adds_turns_trans [OF _ adds_relay_finish [of "r1\<lparr>rl_to_down := a\<rparr>" env att]] by simp_all
  show ?thesis
    by (cases ev) (simp_all add: relay_step_def Let_def adds_relay_finish adds_relay_error down up fin)
qed

lemma adds_relay: "adds_turns (rl_proxy rl) (rl_proxy (relay_websocket env ios att x rid refs evs rl))"
proof (induction evs arbitrary: rl)
  case (Cons ev evs)
  from adds_turns_trans [OF adds_relay_step Cons.IH] show ?case by (simp add: adds_turns_refl)
qed (simp add: adds_turns_refl)

text \<open>C10. Every turn of an exchange reaches the delivery worker: whatever the child sends, whatever comes back from the
  upstream and whichever file operations fail, the turns the session has numbered during a proxied request or a
  websocket are exactly those handed to the worker, once each and in the order of their numbers, without a gap.\<close>

theorem exchange_turns_in_order:
  "adds_turns p (fst (handle_proxy_request ux env ios prov up send att rq p))
   \<and> adds_turns (rl_proxy rl) (rl_proxy (relay_websocket env ios att x rid refs evs rl))"
  using adds_handle_proxy_request adds_relay by blast

section \<open>Streams\<close>

lemma stream_frame_buffers:
  "stream_frame env ios x rid (st\<lparr>stm_raw := a, stm_buffer := b\<rparr>) f = (stream_frame env ios x rid st f)\<lparr>stm_raw := a, stm_buffer := b\<rparr>"
  by (simp add: stream_frame_def Let_def split: prod.split sum.split)

lemma stream_frames_buffers:
  "foldl (stream_frame env ios x rid) (st\<lparr>stm_raw := a, stm_buffer := b\<rparr>) fs
   = (foldl (stream_frame env ios x rid) st fs)\<lparr>stm_raw := a, stm_buffer := b\<rparr>"
  by (induction fs arbitrary: st) (simp_all add: stream_frame_buffers)

lemma stream_loop_feed:
  "stream_loop env ios x rid (map Inr cs) st =
     (foldl (stream_frame env ios x rid) st (snd (feed_chunks (map from_utf8_lossy cs) (stm_buffer st))))
       \<lparr>stm_raw := stm_raw st @ concat (map from_utf8_lossy cs),
        stm_buffer := fst (feed_chunks (map from_utf8_lossy cs) (stm_buffer st))\<rparr>"
proof (induction cs arbitrary: st)
  case Nil
  then show ?case by simp
next
  case (Cons c cs)
  let ?t = "from_utf8_lossy c"
  obtain b fs where b: "parse_sse_buffer (stm_buffer st @ ?t) = (b, fs)" by fastforce
  let ?st = "(foldl (stream_frame env ios x rid) st fs)\<lparr>stm_raw := stm_raw st @ ?t, stm_buffer := b\<rparr>"
  have "stream_loop env ios x rid (map Inr (c # cs)) st = stream_loop env ios x rid (map Inr cs) ?st"
    by (simp add: stream_chunk_def b stream_frames_buffers)
  also have "\<dots> = (foldl (stream_frame env ios x rid) ?st (snd (feed_chunks (map from_utf8_lossy cs) b)))
       \<lparr>stm_raw := (stm_raw st @ ?t) @ concat (map from_utf8_lossy cs),
        stm_buffer := fst (feed_chunks (map from_utf8_lossy cs) b)\<rparr>"
    by (simp add: Cons.IH)
  finally show ?case by (simp add: b stream_frames_buffers split: prod.split)
qed

lemma lossy_valid: "utf8_valid c \<Longrightarrow> from_utf8_lossy c = chars_of c"
  using from_utf8_lossy_string [of "chars_of c"] by (simp add: rust_string_def)

lemma concat_lossy:
  assumes "\<forall>c\<in>set cs. utf8_valid c"
  shows "concat (map from_utf8_lossy cs) = chars_of (concat cs)"
  using assms by (induction cs) (simp_all add: lossy_valid chars_of_def)


definition demo_prepared :: PreparedExchange where
  "demo_prepared = \<lparr>pe_exchange_id = ''x'', pe_model = None, pe_request_turns = [], pe_state = XOpenAi (openai_new ''x'' None)\<rparr>"

definition demo_upstream :: upstream_response where
  "demo_upstream = \<lparr>up_status = 200, up_headers = [], up_body = Inl [], up_chunks = []\<rparr>"

definition demo_proxy :: proxy where
  "demo_proxy = \<lparr>px_session = demo_session, px_ledger = demo_ledger, px_enqueued = []\<rparr>"


end
