(* ===== verification/Provider_Props.thy ===== *)
theory Provider_Props
  imports Proxy_Props
begin

text \<open>
  The capture of conversations is faithful: an answer that the child sends back with its next request is recognised,
  a streamed answer is captured as the same answer in one body would be, requests keep their path, and the child talks to
  the proxy only.  One case fails: the arguments of a streamed Anthropic tool call.
\<close>

section \<open>Replayed answers\<close>

lemma collect_history_append:
  "collect_history f (ms @ ms') = rbind (collect_history f ms) (\<lambda>h. rbind (collect_history f ms') (\<lambda>h'. Inr (h @ h')))"
proof (induction ms)
  case Nil
  then show ?case by (cases "collect_history f ms'") simp_all
next
  case (Cons m ms)
  then show ?case by (cases "f m"; cases "collect_history f ms"; cases "collect_history f ms'") simp_all
qed

lemma parse_assistant_model:
  "map_sum id (map_option normalize_history_item) (parse_assistant_content env c m r)
   = map_sum id (map_option normalize_history_item) (parse_assistant_content env c m' r')"
  by (cases c) (simp_all add: parse_assistant_content_def split: prod.split)

lemma anthropic_message_model:
  "map_sum id (map normalize_history_item) (anthropic_message env m msg)
   = map_sum id (map normalize_history_item) (anthropic_message env m' msg)"
proof -
  let ?c = "case jget msg ''content'' of Some c \<Rightarrow> c | None \<Rightarrow> JNull"
  have "map_sum id (map normalize_history_item) (rbind (parse_assistant_content env ?c m None) (\<lambda>i. Inr (case i of Some j \<Rightarrow> [j] | None \<Rightarrow> [])))
    = map_sum id (map normalize_history_item) (rbind (parse_assistant_content env ?c m' None) (\<lambda>i. Inr (case i of Some j \<Rightarrow> [j] | None \<Rightarrow> [])))"
    using parse_assistant_model [of env ?c m None m' None]
    by (cases "parse_assistant_content env ?c m None"; cases "parse_assistant_content env ?c m' None") (auto simp: map_option_case split: option.splits)
  then show ?thesis by (cases "get_str msg ''role''") (simp_all add: anthropic_message_def Let_def)
qed

lemma collect_history_model:
  "map_sum id (map normalize_history_item) (collect_history (anthropic_message env m) ms)
   = map_sum id (map normalize_history_item) (collect_history (anthropic_message env m') ms)"
proof (induction ms)
  case (Cons msg ms)
  from anthropic_message_model [of env m msg m'] Cons show ?case
    by (cases "anthropic_message env m msg"; cases "anthropic_message env m' msg";
        cases "collect_history (anthropic_message env m) ms"; cases "collect_history (anthropic_message env m') ms") auto
qed simp

lemma observe_extension:
  assumes "observe_request_history env x h a s = (s', ts)"
    and "map normalize_history_item h = sr_observed_history s @ map normalize_history_item new"
  shows "map (item_history \<circ> te_item) ts = map (Some \<circ> normalize_history_item) new"
proof -
  let ?k = "common_prefix_len (sr_observed_history s) (map normalize_history_item h)"
  have k: "?k = length (sr_observed_history s)" unfolding assms(2) by (rule common_prefix_len_append)
  from assms(1) obtain marker items s1 s2 where o: "ts = marker @ items" "history_turns env x (drop ?k h) s1 = (s2, items)"
    "if ?k < length (sr_observed_history s) then length marker = 1 \<and> is_rewrite (hd marker) else marker = []"
    by (rule observe_cases)
  from arg_cong [OF assms(2), of "drop ?k"] k have "map normalize_history_item (drop ?k h) = map normalize_history_item new"
    by (simp add: drop_map)
  then have "map (Some \<circ> normalize_history_item) (drop ?k h) = map (Some \<circ> normalize_history_item) new"
    by (metis list.map_comp)
  with history_turns_items [OF o(2)] o(1,3) k show ?thesis by simp
qed

text \<open>C13. A captured answer is not captured twice: let the history of an Anthropic request have been observed, the answer
  to it been read from a JSON body, and let the next request repeat the conversation, with the answer, and add messages.
  Then exactly the items of the added messages are uploaded, and no rewrite is reported, whatever model the two requests
  name.\<close>

theorem anthropic_replay_recognised:
  assumes h: "anthropic_request_history env p1 = Inr h" "get_array p1 ''messages'' = Some ms"
    and s: "sr_observed_history s = map normalize_history_item h"
    and resp: "cx_from_slice env body = Inr resp" "jget resp ''content'' = Some (JList bs)" "status < 400"
    and fin: "finalize_json env (XAnthropic ex) status rid body refs s = (s', us)"
    and p2: "get_array p2 ''messages'' = Some (ms @ [msg] @ added)" "anthropic_request_history env p2 = Inr h2"
    and msg: "get_str msg ''role'' = Some ''assistant''" "jget msg ''content'' = Some (JList bs)"
    and hm: "collect_history (anthropic_message env (get_str p2 ''model'')) added = Inr new"
    and obs: "observe_request_history env x2 h2 refs2 s' = (s'', ts)"
  shows "length us = 1 \<and> map (item_history \<circ> te_item) ts = map (Some \<circ> normalize_history_item) new"
proof -
  obtain tx calls where blocks: "foldl (assistant_block env) ([], []) bs = (tx, calls)" by fastforce
  define norm where "norm = HAssistantTurn tx calls None None"
  let ?m1 = "get_str p1 ''model''" and ?m2 = "get_str p2 ''model''"
  have "\<not> 400 \<le> status" using resp(3) by simp
  with resp blocks fin obtain t where us: "us = [t]" "sr_observed_history s' = sr_observed_history s @ [norm]"
    by (auto simp: finalize_json_with_def anthropic_extract_def parse_assistant_content_def one_turn_def append_history_item_def
        next_turn_ordinal_def Let_def norm_def)
  from h have h1: "collect_history (anthropic_message env ?m1) ms = Inr h" by (simp add: anthropic_request_history_def)
  from p2 have "collect_history (anthropic_message env ?m2) (ms @ [msg] @ added) = Inr h2" by (simp add: anthropic_request_history_def)
  then obtain h0 hmsg where h0: "collect_history (anthropic_message env ?m2) ms = Inr h0"
    "anthropic_message env ?m2 msg = Inr hmsg" "h2 = h0 @ hmsg @ new"
    using hm by (auto simp: collect_history_append)
  have "map normalize_history_item hmsg = [norm]"
    using h0(2) msg blocks by (auto simp: anthropic_message_def parse_assistant_content_def norm_def Let_def)
  moreover have "map normalize_history_item h0 = map normalize_history_item h"
    using collect_history_model [of env ?m1 ms ?m2] h1 h0(1) by simp
  ultimately have "map normalize_history_item h2 = sr_observed_history s' @ map normalize_history_item new"
    using h0(3) us(2) s by simp
  from observe_extension [OF obs this] us(1) show ?thesis by simp
qed

definition demo_user :: "string \<Rightarrow> json" where
  "demo_user t = JObj [(''content'', JStr t), (''role'', JStr ''user'')]"

definition demo_blocks :: "json list" where
  "demo_blocks = [JObj [(''text'', JStr ''yes''), (''type'', JStr ''text'')]]"

definition demo_answer :: json where
  "demo_answer = JObj [(''content'', JList demo_blocks), (''role'', JStr ''assistant'')]"

definition demo_request :: "json list \<Rightarrow> json" where
  "demo_request ms = JObj [(''messages'', JList ms), (''model'', JStr ''m'')]"

definition demo_replay_env :: cxtx_env where
  "demo_replay_env = demo_cx\<lparr>cx_from_slice := \<lambda>_. Inr demo_answer\<rparr>"

definition demo_observed :: SessionRuntime where
  "demo_observed = demo_session\<lparr>sr_observed_history := [HUserInput ''hi'' []]\<rparr>"

definition demo_after :: SessionRuntime where
  "demo_after = fst (finalize_json demo_replay_env (XAnthropic (anthropic_new ''x'' None)) 200 None [] default_artifact_refs demo_observed)"

theorem anthropic_replay_recognised_witness:
  "length (snd (finalize_json demo_replay_env (XAnthropic (anthropic_new ''x'' None)) 200 None [] default_artifact_refs demo_observed)) = 1
   \<and> map (item_history \<circ> te_item) (snd (observe_request_history demo_replay_env ''y''
        [HUserInput ''hi'' [], HAssistantTurn ''yes'' [] (Some ''m'') None, HUserInput ''go'' []] default_artifact_refs demo_after))
     = map (Some \<circ> normalize_history_item) [HUserInput ''go'' []]"
  by (rule anthropic_replay_recognised [where env = demo_replay_env and ?p1.0 = "demo_request [demo_user ''hi'']"
        and h = "[HUserInput ''hi'' []]" and ms = "[demo_user ''hi'']" and s = demo_observed and body = "[]" and resp = demo_answer
        and bs = demo_blocks and status = 200 and ex = "anthropic_new ''x'' None" and rid = None and refs = default_artifact_refs
        and s' = demo_after and ?p2.0 = "demo_request ([demo_user ''hi''] @ [demo_answer] @ [demo_user ''go''])" and msg = demo_answer
        and added = "[demo_user ''go'']" and ?x2.0 = "''y''" and ?refs2.0 = default_artifact_refs, OF _ _ _ _ _ _ _ _ _ _ _ _ surjective_pairing])
     (simp_all add: demo_after_def demo_observed_def demo_session_def demo_replay_env_def demo_request_def demo_user_def demo_answer_def
        demo_blocks_def anthropic_request_history_def anthropic_message_def parse_user_blocks_def parse_assistant_content_def
        assistant_block_def get_array_def get_str_def jget_def obj_get_def j_array_def j_str_def or_default_def)

section \<open>Streamed answers\<close>

definition frame_carries :: "cxtx_env \<Rightarrow> string \<Rightarrow> json \<Rightarrow> SseFrame \<Rightarrow> bool" where
  "frame_carries env ev payload f \<longleftrightarrow> sf_event f = Some ev \<and> from_json_str env (sf_data f) = Inr payload"

text \<open>The events of the Anthropic protocol for one block of an answer: its start, empty, and the pieces of its text or of
  the JSON of its input.\<close>

definition text_start :: "nat \<Rightarrow> json" where
  "text_start i = JObj [(''content_block'', JObj [(''text'', JStr []), (''type'', JStr ''text'')]), (''index'', JInt (int i))]"

definition text_delta :: "nat \<Rightarrow> string \<Rightarrow> json" where
  "text_delta i t = JObj [(''delta'', JObj [(''text'', JStr t), (''type'', JStr ''text_delta'')]), (''index'', JInt (int i))]"

definition tool_start :: "nat \<Rightarrow> string \<Rightarrow> string \<Rightarrow> json" where
  "tool_start i tool name = JObj [(''content_block'', JObj [(''id'', JStr tool), (''input'', JObj []), (''name'', JStr name),
     (''type'', JStr ''tool_use'')]), (''index'', JInt (int i))]"

definition json_delta :: "nat \<Rightarrow> string \<Rightarrow> json" where
  "json_delta i t = JObj [(''delta'', JObj [(''partial_json'', JStr t), (''type'', JStr ''input_json_delta'')]), (''index'', JInt (int i))]"

lemmas json_read = jget_def obj_get_def j_str_def j_u64_def get_str_def or_default_def

lemma block_index_int: "i < 2 ^ 64 \<Longrightarrow> jget p ''index'' = Some (JInt (int i)) \<Longrightarrow> block_index p = i"
  by (simp add: block_index_def j_u64_def unat_of_nat)

definition absorb_all :: "cxtx_env \<Rightarrow> AnthropicExchange \<Rightarrow> SseFrame list \<Rightarrow> AnthropicExchange" where
  "absorb_all env x fs = foldl (\<lambda>x f. anthropic_absorb env f x) x fs"

lemma absorb_start:
  "frame_carries env ''content_block_start'' p f \<Longrightarrow> anthropic_absorb env f x = content_block_start env p x"
  by (simp add: frame_carries_def anthropic_absorb_def)

lemma absorb_delta:
  "frame_carries env ''content_block_delta'' p f \<Longrightarrow> anthropic_absorb env f x = content_block_delta p x"
  by (simp add: frame_carries_def anthropic_absorb_def)

lemma bt_put_snoc: "\<forall>k'\<in>set (map fst xs). k' < k \<Longrightarrow> bt_put k v xs = xs @ [(k, v :: 'v)]" for k :: nat
  by (induction xs) auto

lemma bt_put_last: "\<forall>k'\<in>set (map fst xs). k' < k \<Longrightarrow> bt_put k v (xs @ [(k, u)]) = xs @ [(k, v :: 'v)]" for k :: nat
  by (induction xs) auto

lemma map_of_last: "\<forall>k'\<in>set (map fst xs). k' < k \<Longrightarrow> map_of (xs @ [(k, u)]) k = Some (u :: 'v)" for k :: nat
  by (induction xs) auto

lemma absorb_text_start:
  assumes "frame_carries env ''content_block_start'' (text_start i) f" and "i < 2 ^ 64"
    and "\<forall>k'\<in>set (map fst (an_blocks x)). k' < i"
  shows "anthropic_absorb env f x = x\<lparr>an_blocks := an_blocks x @ [(i, PText [])]\<rparr>"
proof -
  have "block_index (text_start i) = i" by (rule block_index_int [OF assms(2)]) (simp add: text_start_def json_read)
  then show ?thesis
    using bt_put_snoc [OF assms(3)]
    by (simp add: absorb_start [OF assms(1)] content_block_start_def) (simp add: text_start_def json_read)
qed

lemma absorb_text_deltas:
  assumes "list_all2 (\<lambda>t f. frame_carries env ''content_block_delta'' (text_delta i t) f) ts fs" and i: "i < 2 ^ 64"
    and "an_blocks x = bs @ [(i, PText u)]" and "\<forall>k'\<in>set (map fst bs). k' < i"
  shows "absorb_all env x fs = x\<lparr>an_blocks := bs @ [(i, PText (u @ concat ts))]\<rparr>"
  using assms(1,3)
proof (induction ts fs arbitrary: x u rule: list_all2_induct)
  case Nil
  then show ?case by (simp add: absorb_all_def)
next
  case (Cons t ts f fs)
  have b: "block_index (text_delta i t) = i" by (rule block_index_int [OF i]) (simp add: text_delta_def json_read)
  have "content_block_delta (text_delta i t) x = on_block i (PText []) (\<lambda>b. case b of PText v \<Rightarrow> PText (v @ t) | _ \<Rightarrow> b) x"
    unfolding content_block_delta_def b by (simp add: text_delta_def json_read cong: PartialBlock.case_cong)
  also have "\<dots> = x\<lparr>an_blocks := bs @ [(i, PText (u @ t))]\<rparr>"
    unfolding on_block_def Cons.prems map_of_last [OF assms(4)] by (simp add: bt_put_last [OF assms(4)])
  finally have step: "anthropic_absorb env f x = x\<lparr>an_blocks := bs @ [(i, PText (u @ t))]\<rparr>"
    by (simp add: absorb_delta [OF Cons(1)])
  from Cons.IH [of "anthropic_absorb env f x" "u @ t"] step show ?case by (simp add: absorb_all_def)
qed

text \<open>A streamed text answer: for each block, a frame that starts it and the frames with its pieces.\<close>

fun text_stream :: "cxtx_env \<Rightarrow> nat \<Rightarrow> string list list \<Rightarrow> SseFrame list list \<Rightarrow> bool" where
  "text_stream env i [] [] \<longleftrightarrow> True"
| "text_stream env i (ts # bs) ((f # fs) # fss) \<longleftrightarrow>
     i < 2 ^ 64 \<and> frame_carries env ''content_block_start'' (text_start i) f
     \<and> list_all2 (\<lambda>t f. frame_carries env ''content_block_delta'' (text_delta i t) f) ts fs \<and> text_stream env (Suc i) bs fss"
| "text_stream env i _ _ \<longleftrightarrow> False"

lemma absorb_text_stream:
  "text_stream env i bs fss \<Longrightarrow> \<forall>k'\<in>set (map fst (an_blocks x)). k' < i \<Longrightarrow>
    absorb_all env x (concat fss) = x\<lparr>an_blocks := an_blocks x @ map (\<lambda>(k, ts). (i + k, PText (concat ts))) (enumerate 0 bs)\<rparr>"
proof (induction env i bs fss arbitrary: x rule: text_stream.induct)
  case (1 env i)
  then show ?case by (simp add: absorb_all_def)
next
  case (2 env i ts bs f fs fss)
  let ?x1 = "x\<lparr>an_blocks := an_blocks x @ [(i, PText [])]\<rparr>"
  let ?x2 = "x\<lparr>an_blocks := an_blocks x @ [(i, PText (concat ts))]\<rparr>"
  from "2.prems" have t: "i < 2 ^ 64" "frame_carries env ''content_block_start'' (text_start i) f"
    "list_all2 (\<lambda>t f. frame_carries env ''content_block_delta'' (text_delta i t) f) ts fs" "text_stream env (Suc i) bs fss" by auto
  have 1: "anthropic_absorb env f x = ?x1" by (rule absorb_text_start [OF t(2,1) "2.prems"(2)])
  have 2: "absorb_all env ?x1 fs = ?x2"
    using absorb_text_deltas [OF t(3,1) _ "2.prems"(2), of ?x1 "[]"] by simp
  have 3: "absorb_all env ?x2 (concat fss)
      = ?x2\<lparr>an_blocks := an_blocks ?x2 @ map (\<lambda>(k, ts). (Suc i + k, PText (concat ts))) (enumerate 0 bs)\<rparr>"
    using "2.prems"(2) by (intro "2.IH" [OF t(4)]) auto
  have 4: "map (\<lambda>(k, ts). (i + k, PText (concat ts))) (enumerate 0 (ts # bs))
      = (i, PText (concat ts)) # map (\<lambda>(k, ts). (Suc i + k, PText (concat ts))) (enumerate 0 bs)"
    by (simp add: enumerate_Suc_eq split_beta)
  have "absorb_all env x (concat ((f # fs) # fss)) = absorb_all env (absorb_all env (anthropic_absorb env f x) fs) (concat fss)"
    by (simp add: absorb_all_def)
  also have "\<dots> = ?x2\<lparr>an_blocks := an_blocks ?x2 @ map (\<lambda>(k, ts). (Suc i + k, PText (concat ts))) (enumerate 0 bs)\<rparr>"
    unfolding 1 2 by (rule 3)
  finally show ?case unfolding 4 by simp
qed auto

definition text_block :: "string list \<Rightarrow> json" where
  "text_block ts = JObj [(''text'', JStr (concat ts)), (''type'', JStr ''text'')]"

lemma assistant_text_blocks:
  "foldl (assistant_block env) st (map text_block bs) = (fst st @ concat (map concat bs), snd st)"
  by (induction bs arbitrary: st) (simp_all add: assistant_block_def text_block_def json_read)

lemma collect_text_blocks:
  "foldl collect_block st (map (\<lambda>(k, ts). (i + k, PText (concat ts))) (enumerate n bs)) = (fst st @ concat (map concat bs), snd st)"
  by (induction bs arbitrary: st n) (simp_all add: collect_block_def)

lemma sorted_blocks: "sorted (map fst (map (\<lambda>(k, ts). (i + k, PText (concat ts))) (enumerate n bs)))" for i :: nat
proof -
  have "map fst (map (\<lambda>(k, ts). (i + k, PText (concat ts))) (enumerate n bs)) = [i + n..<i + n + length bs]"
    by (induction bs arbitrary: n) (simp_all add: upt_conv_Cons del: upt_Suc)
  then show ?thesis by simp
qed


lemma absorb_json_deltas:
  assumes "list_all2 (\<lambda>t f. frame_carries env ''content_block_delta'' (json_delta i t) f) ts fs" and i: "i < 2 ^ 64"
    and "an_blocks x = bs @ [(i, PToolUse u)]" and "\<forall>k'\<in>set (map fst bs). k' < i"
  shows "absorb_all env x fs = x\<lparr>an_blocks := bs @ [(i, PToolUse (u\<lparr>ptu_input_json := ptu_input_json u @ concat ts\<rparr>))]\<rparr>"
  using assms(1,3)
proof (induction ts fs arbitrary: x u rule: list_all2_induct)
  case Nil
  then show ?case by (simp add: absorb_all_def)
next
  case (Cons t ts f fs)
  have b: "block_index (json_delta i t) = i" by (rule block_index_int [OF i]) (simp add: json_delta_def json_read)
  have "content_block_delta (json_delta i t) x = on_block i (PToolUse \<lparr>ptu_id = [], ptu_name = [], ptu_input_json = []\<rparr>)
      (\<lambda>b. case b of PToolUse v \<Rightarrow> PToolUse (v\<lparr>ptu_input_json := ptu_input_json v @ t\<rparr>) | _ \<Rightarrow> b) x"
    unfolding content_block_delta_def b by (simp add: json_delta_def json_read cong: PartialBlock.case_cong)
  also have "\<dots> = x\<lparr>an_blocks := bs @ [(i, PToolUse (u\<lparr>ptu_input_json := ptu_input_json u @ t\<rparr>))]\<rparr>"
    unfolding on_block_def Cons.prems map_of_last [OF assms(4)] by (simp add: bt_put_last [OF assms(4)])
  finally have step: "anthropic_absorb env f x = x\<lparr>an_blocks := bs @ [(i, PToolUse (u\<lparr>ptu_input_json := ptu_input_json u @ t\<rparr>))]\<rparr>"
    by (simp add: absorb_delta [OF Cons(1)])
  from Cons.IH [of "anthropic_absorb env f x" "u\<lparr>ptu_input_json := ptu_input_json u @ t\<rparr>"] step show ?case
    by (simp add: absorb_all_def)
qed

lemma observe_diverging:
  assumes "observe_request_history env x h a s = (s', ts)" and "sr_observed_history s = pre @ [c]"
    and "map normalize_history_item h = pre @ d # later" and "c \<noteq> d"
  shows "ts \<noteq> [] \<and> is_rewrite (hd ts)"
proof -
  let ?k = "common_prefix_len (sr_observed_history s) (map normalize_history_item h)"
  have "common_prefix_len (pre @ [c]) (pre @ d # later) = length pre" using assms(4) by (induction pre) auto
  then have "?k < length (sr_observed_history s)" unfolding assms(2,3) by simp
  moreover from assms(1) obtain marker items s1 s2 where "ts = marker @ items"
    "if ?k < length (sr_observed_history s) then length marker = 1 \<and> is_rewrite (hd marker) else marker = []" by (rule observe_cases)
  ultimately show ?thesis by (cases marker) auto
qed

text \<open>A streamed Anthropic tool call is captured with wrong arguments.  Such a stream starts the block with an empty
  object as its input and then sends the pieces of the real input; the empty object is printed in front of them.  The
  answer captured from a body, and repeated by the next request, has the arguments alone, so that request is reported as
  a rewrite of the history although the child changed nothing.\<close>

theorem tool_stream_reported_as_rewrite:
  assumes env: "cx_to_string env (JObj []) = Some ''{}''" "cx_to_string env (JObj ms) = Some (concat parts)"
    and start: "frame_carries env ''content_block_start'' (tool_start 0 tool name) f"
    and deltas: "list_all2 (\<lambda>t f. frame_carries env ''content_block_delta'' (json_delta 0 t) f) parts fs"
    and fin: "finalize_stream env (XAnthropic (absorb_all env (anthropic_new x model) (f # fs))) 200 rid refs None s = (s', us)"
    and next_request: "map normalize_history_item h = sr_observed_history s
      @ HAssistantTurn [] [tool_call_record tool name (jsonish_to_string env (JObj ms))] None None # later"
    and obs: "observe_request_history env x2 h refs2 s' = (s'', ts)"
  shows "sr_observed_history s' = sr_observed_history s @ [HAssistantTurn [] [tool_call_record tool name (''{}'' @ concat parts)] None None]
    \<and> ts \<noteq> [] \<and> is_rewrite (hd ts)"
proof -
  have b: "block_index (tool_start 0 tool name) = 0" by (rule block_index_int) (simp_all add: tool_start_def json_read)
  have "anthropic_absorb env f (anthropic_new x model)
      = (anthropic_new x model)\<lparr>an_blocks := [(0, PToolUse \<lparr>ptu_id = tool, ptu_name = name, ptu_input_json = ''{}''\<rparr>)]\<rparr>"
    unfolding absorb_start [OF start] content_block_start_def b
    by (simp add: tool_start_def json_read jsonish_to_string_def env(1) anthropic_new_def)
  with absorb_json_deltas [OF deltas, of "anthropic_absorb env f (anthropic_new x model)" "[]"]
  have ex: "absorb_all env (anthropic_new x model) (f # fs)
      = (anthropic_new x model)\<lparr>an_blocks := [(0, PToolUse \<lparr>ptu_id = tool, ptu_name = name, ptu_input_json = ''{}'' @ concat parts\<rparr>)]\<rparr>"
    by (simp add: absorb_all_def)
  have hist: "sr_observed_history s' = sr_observed_history s @ [HAssistantTurn [] [tool_call_record tool name (''{}'' @ concat parts)] None None]"
    using fin unfolding ex
    by (auto simp: finalize_stream_with_def anthropic_result_def collect_block_def anthropic_new_def one_turn_def
        append_history_item_def next_turn_ordinal_def Let_def)
  from observe_diverging [OF obs hist] next_request env(2) hist show ?thesis
    by (simp add: jsonish_to_string_def tool_call_record_def or_default_def)
qed

text \<open>An instance: an environment that reads the JSON of these frames.\<close>

definition demo_frame :: "string \<Rightarrow> string \<Rightarrow> SseFrame" where
  "demo_frame ev d = \<lparr>sf_event = Some ev, sf_data = d, sf_raw = d\<rparr>"

definition demo_stream_env :: cxtx_env where
  "demo_stream_env = demo_cx\<lparr>cx_from_slice := \<lambda>b. case map_of
      [(as_bytes ''s'', text_start 0), (as_bytes ''d'', text_delta 0 ''hi''), (as_bytes ''t'', tool_start 0 ''c1'' ''ls''),
       (as_bytes ''j'', json_delta 0 ''[1]'')] b of Some v \<Rightarrow> Inr v | None \<Rightarrow> Inl ''eof'',
     cx_to_string := \<lambda>v. Some (if v = JObj [] then ''{}'' else ''[1]'')\<rparr>"

lemma demo_stream_frames:
  "frame_carries demo_stream_env ''content_block_start'' (text_start 0) (demo_frame ''content_block_start'' ''s'')"
  "frame_carries demo_stream_env ''content_block_delta'' (text_delta 0 ''hi'') (demo_frame ''content_block_delta'' ''d'')"
  "frame_carries demo_stream_env ''content_block_start'' (tool_start 0 ''c1'' ''ls'') (demo_frame ''content_block_start'' ''t'')"
  "frame_carries demo_stream_env ''content_block_delta'' (json_delta 0 ''[1]'') (demo_frame ''content_block_delta'' ''j'')"
  by (simp_all add: frame_carries_def demo_frame_def from_json_str_def demo_stream_env_def)


definition demo_tool_frames :: "SseFrame list" where
  "demo_tool_frames = [demo_frame ''content_block_start'' ''t'', demo_frame ''content_block_delta'' ''j'']"

definition demo_tool_session :: SessionRuntime where
  "demo_tool_session = fst (finalize_stream demo_stream_env (XAnthropic (absorb_all demo_stream_env (anthropic_new ''x'' None) demo_tool_frames))
     200 None default_artifact_refs None demo_session)"

theorem tool_stream_reported_as_rewrite_witness:
  "is_rewrite (hd (snd (observe_request_history demo_stream_env ''y''
     [HAssistantTurn [] [tool_call_record ''c1'' ''ls'' (jsonish_to_string demo_stream_env (JObj [(''a'', JNull)]))] None None]
     default_artifact_refs demo_tool_session)))"
proof -
  have "frame_carries demo_stream_env ''content_block_start'' (tool_start 0 ''c1'' ''ls'') (hd demo_tool_frames)"
    "list_all2 (\<lambda>t. frame_carries demo_stream_env ''content_block_delta'' (json_delta 0 t)) [''[1]''] (tl demo_tool_frames)"
    by (simp_all add: demo_tool_frames_def demo_stream_frames)
  moreover have "finalize_stream demo_stream_env (XAnthropic (absorb_all demo_stream_env (anthropic_new ''x'' None)
      (hd demo_tool_frames # tl demo_tool_frames))) 200 None default_artifact_refs None demo_session =
      (demo_tool_session, snd (finalize_stream demo_stream_env (XAnthropic (absorb_all demo_stream_env (anthropic_new ''x'' None)
      demo_tool_frames)) 200 None default_artifact_refs None demo_session))"
    by (simp add: demo_tool_session_def demo_tool_frames_def)
  moreover have "cx_to_string demo_stream_env (JObj []) = Some ''{}''"
    "cx_to_string demo_stream_env (JObj [(''a'', JNull)]) = Some (concat [''[1]''])"
    by (simp_all add: demo_stream_env_def)
  moreover have "map normalize_history_item
      [HAssistantTurn [] [tool_call_record ''c1'' ''ls'' (jsonish_to_string demo_stream_env (JObj [(''a'', JNull)]))] None None]
    = sr_observed_history demo_session
      @ HAssistantTurn [] [tool_call_record ''c1'' ''ls'' (jsonish_to_string demo_stream_env (JObj [(''a'', JNull)]))] None None # []"
    by (simp add: demo_session_def)
  ultimately show ?thesis
    using tool_stream_reported_as_rewrite [OF _ _ _ _ _ _ surjective_pairing] by blast
qed

section \<open>Routing\<close>

lemma trim_end_no_slash: "trim_end_matches c s = [] \<or> last (trim_end_matches c s) \<noteq> c"
  using hd_dropWhile [of "\<lambda>x. x = c" "rev s"] by (auto simp: trim_end_matches_def last_rev)

text \<open>The proxy keeps the path of a Codex request: a request for a path below the path of the upstream goes to
  exactly that path of the upstream, with the query it came with.\<close>

theorem codex_route_transparent:
  assumes base: "starts_with (ux_path ux base) [SLASH]"
    and path: "uri_path uri = trim_end_matches SLASH (ux_path ux base) @ SLASH # rest" "rest \<noteq> []" "hd rest \<noteq> SLASH"
  shows "resolve_route ux Codex (Single base) uri = Inr (OpenAi, ux_set_query ux (uri_query uri) (ux_set_path ux (uri_path uri) base))"
proof -
  let ?b = "trim_end_matches SLASH (ux_path ux base)"
  have join: "join_path (ux_path ux base) (SLASH # rest) = uri_path uri"
    using path by (cases rest) (simp_all add: join_path_def trim_start_matches_def Let_def)
  have "strip_mount_path (uri_path uri) (normalize_path (ux_path ux base)) = Some (SLASH # rest)"
  proof (cases "?b = []")
    case True
    with path show ?thesis by (simp add: normalize_path_def strip_mount_path_def Let_def)
  next
    case False
    from base obtain t where t: "ux_path ux base = SLASH # t" by (auto simp: starts_with_iff)
    have "starts_with ?b [SLASH]"
    proof -
      obtain us where "ux_path ux base = ?b @ us"
        by (metis dropWhile_eq_drop rev_append rev_rev_ident takeWhile_dropWhile_id trim_end_matches_def)
      with False t show ?thesis by (cases ?b) auto
    qed
    moreover have "?b \<noteq> [SLASH]" using trim_end_no_slash [of SLASH "ux_path ux base"] False by auto
    ultimately have norm: "normalize_path (ux_path ux base) = ?b" "?b \<noteq> [SLASH]" using False by (simp_all add: normalize_path_def Let_def)
    then show ?thesis using path by (simp add: strip_mount_path_def strip_prefix_def starts_with_iff)
  qed
  with join show ?thesis by (simp add: resolve_route_def build_upstream_url_def proxy_mount_path_def join_url_def)
qed

definition demo_ux :: "(string \<times> string option) url_env" where
  "demo_ux = \<lparr>ux_path = fst, ux_set_path = \<lambda>p u. (p, snd u), ux_set_query = \<lambda>q u. (fst u, q), ux_scheme = \<lambda>_. ''https'',
     ux_set_scheme = \<lambda>_ u. Some u, ux_str = fst, ux_origin = \<lambda>_. ''http://127.0.0.1:1''\<rparr>"

theorem codex_route_transparent_witness:
  "resolve_route demo_ux Codex (Single (''/v1'', None)) \<lparr>uri_path = ''/v1/responses'', uri_query = Some ''a=b''\<rparr>
   = Inr (OpenAi, (''/v1/responses'', Some ''a=b''))"
  using codex_route_transparent [of demo_ux "(''/v1'', None)" "\<lparr>uri_path = ''/v1/responses'', uri_query = Some ''a=b''\<rparr>" "''responses''"]
  by (simp add: demo_ux_def SLASH_def trim_end_matches_def)

text \<open>The child talks to the proxy: every variable from which the child takes its upstream holds an address of the
  proxy, whatever was inherited, and all other variables are inherited unchanged but for the aliases of Codex.\<close>

theorem child_env_proxied:
  "(\<forall>k\<in>set (upstream_base_env_names p). child_env ux p u inherited k \<in> Some ` snd ` set (injected_env ux p u))
   \<and> (\<forall>k. k \<notin> set (upstream_base_env_names p) \<union> {''CXTX_OPENAI_BASE_URL'', ''CXTX_OPENAI_API_BASE''} \<longrightarrow>
        child_env ux p u inherited k = inherited k)"
  by (cases p) (simp_all add: child_env_def injected_env_def Let_def)

theorem child_env_proxied_witness:
  "child_env demo_ux Codex (''/v1/'', None) (\<lambda>_. Some ''https://elsewhere'') ''OPENAI_BASE_URL'' = Some ''/v1''
   \<and> child_env demo_ux Codex (''/v1/'', None) (\<lambda>_. Some ''x'') ''HOME'' = Some ''x''"
proof
  show "child_env demo_ux Codex (''/v1/'', None) (\<lambda>_. Some ''https://elsewhere'') ''OPENAI_BASE_URL'' = Some ''/v1''"
    using child_env_proxied [of Codex demo_ux "(''/v1/'', None)" "\<lambda>_. Some ''https://elsewhere''"]
    by (simp add: injected_env_def demo_ux_def trim_end_matches_def SLASH_def Let_def)
  show "child_env demo_ux Codex (''/v1/'', None) (\<lambda>_. Some ''x'') ''HOME'' = Some ''x''"
    using child_env_proxied [of Codex demo_ux "(''/v1/'', None)" "\<lambda>_. Some ''x''"] by simp
qed

text \<open>The arguments of the child are kept: Codex gets them unchanged behind the switches that turn websockets off, each
  of which is added exactly when the arguments do not decide it themselves; the other programs get them unchanged.\<close>

lemma child_args_kept:
  "\<exists>added. child_args_for_proxy p args = added @ args
    \<and> (p \<noteq> Codex \<longrightarrow> added = [])
    \<and> (p = Codex \<longrightarrow> (''prefer_websockets=false'' \<in> set added \<longleftrightarrow> \<not> has_codex_config_override args ''prefer_websockets'')
        \<and> (''responses_websockets'' \<in> set added \<longleftrightarrow> \<not> has_codex_feature_override args ''responses_websockets'')
        \<and> (''responses_websockets_v2'' \<in> set added \<longleftrightarrow> \<not> has_codex_feature_override args ''responses_websockets_v2''))"
proof (cases p)
  case Codex
  have "child_args_for_proxy p args =
      ((if \<not> has_codex_config_override args ''prefer_websockets'' then [''-c'', ''prefer_websockets=false''] else [])
       @ (if \<not> has_codex_feature_override args ''responses_websockets'' then [''--disable'', ''responses_websockets''] else [])
       @ (if \<not> has_codex_feature_override args ''responses_websockets_v2'' then [''--disable'', ''responses_websockets_v2''] else []))
      @ args"
    by (simp only: child_args_for_proxy_def Codex ProviderKind.case append_assoc)
  with Codex show ?thesis by (intro exI conjI) (assumption, simp_all)
qed (simp_all add: child_args_for_proxy_def)

end
