(* ===== verification/Http_Encode.thy ===== *)
theory Http_Encode
  imports Projection
begin

text \<open>
  How the HTTP gateway turns the JSON of a request into values (\<^verbatim>\<open>server/src/http/mod.rs\<close>): reading numbers and
  bytes, and encoding the payload of an append as MessagePack, by the descriptor of its type when the registry has
  one and field by field otherwise.

  The decoders of the crates \<^verbatim>\<open>base64\<close> and \<^verbatim>\<open>hex\<close> and the MessagePack printer are the record \<open>codec_env\<close>.
\<close>

record codec_env =
  cd_unbase64 :: "string \<Rightarrow> string + bytes"
  cd_unhex :: "string \<Rightarrow> string + bytes"
  cd_write_value :: "mp \<Rightarrow> string + bytes"

section \<open>Loops that stop at the first error\<close>

fun rmap :: "('a \<Rightarrow> 'e + 'b) \<Rightarrow> 'a list \<Rightarrow> 'e + 'b list" where
  "rmap f [] = Inr []"
| "rmap f (x # xs) = rbind (f x) (\<lambda>y. rbind (rmap f xs) (\<lambda>ys. Inr (y # ys)))"

lemma rmap_cong [fundef_cong]: "xs = ys \<Longrightarrow> (\<And>x. x \<in> set ys \<Longrightarrow> f x = g x) \<Longrightarrow> rmap f xs = rmap g ys"
  by (induction ys arbitrary: xs) auto

lemma rbind_cong [fundef_cong]: "m = m' \<Longrightarrow> (\<And>a. m' = Inr a \<Longrightarrow> f a = g a) \<Longrightarrow> rbind m f = rbind m' g"
  by (cases m') auto

lemma rmap_Inr: "(\<And>x. x \<in> set xs \<Longrightarrow> f x = Inr (g x)) \<Longrightarrow> rmap f xs = Inr (map g xs)"
  by (induction xs) auto

lemma rmap_length: "rmap f xs = Inr ys \<Longrightarrow> length ys = length xs"
  by (induction xs arbitrary: ys) auto

section \<open>Numbers\<close>

text \<open>\<^verbatim>\<open>str::parse\<close> at 64-bit signed integers, \<^verbatim>\<open>Number::as_i64\<close>.\<close>

definition parse_i64 :: "string \<Rightarrow> int option" where
  "parse_i64 s =
     (case s of
        [] \<Rightarrow> None
      | c # cs \<Rightarrow>
          if c = CHR ''-'' then (if cs = [] then None else map_option (\<lambda>n. - int n) (parse_digits (2 ^ 63 + 1) 0 cs))
          else map_option int (parse_uint (2 ^ 63) s))"

definition j_i64 :: "json \<Rightarrow> int option" where
  "j_i64 v = (case v of JInt i \<Rightarrow> int_as_i64 i | _ \<Rightarrow> None)"

definition parse_json_u64_opt :: "json \<Rightarrow> u64 option" where
  "parse_json_u64_opt value =
     (case value of
        JStr s \<Rightarrow> parse_u64 s
      | JInt i \<Rightarrow> or_else (j_u64 value) (Option.bind (j_i64 value) (\<lambda>i. if 0 \<le> i then Some (of_int i) else None))
      | _ \<Rightarrow> None)"

definition parse_json_i64_opt :: "json \<Rightarrow> int option" where
  "parse_json_i64_opt value =
     (case value of
        JStr s \<Rightarrow> parse_i64 s
      | JInt i \<Rightarrow> or_else (j_i64 value) (Option.bind (j_u64 value) (\<lambda>u. if uint u < 2 ^ 63 then Some (uint u) else None))
      | _ \<Rightarrow> None)"

definition parse_json_u64 :: "json \<Rightarrow> string \<Rightarrow> u64 res" where
  "parse_json_u64 value field_name = ok_or (InvalidInput (''invalid '' @ field_name)) (parse_json_u64_opt value)"

definition get_required_string :: "json \<Rightarrow> string \<Rightarrow> string res" where
  "get_required_string body key = ok_or (InvalidInput (''missing required field: '' @ key)) (get_str body key)"

definition get_required_u32 :: "json \<Rightarrow> string \<Rightarrow> u32 res" where
  "get_required_u32 body key =
     rbind (ok_or (InvalidInput (''missing required field: '' @ key)) (jget body key)) (\<lambda>value.
     rbind (parse_json_u64 value key) (\<lambda>parsed.
       if 2 ^ 32 \<le> parsed then Inl (InvalidInput (key @ '' out of range'')) else Inr (ucast parsed)))"

definition get_optional_u64 :: "json \<Rightarrow> string \<Rightarrow> u64 option res" where
  "get_optional_u64 body key =
     (case jget body key of Some value \<Rightarrow> map_sum id Some (parse_json_u64 value key) | None \<Rightarrow> Inr None)"

definition format_id :: "U64Format \<Rightarrow> u64 \<Rightarrow> json" where
  "format_id format i = (case format of UF_String \<Rightarrow> JStr (u64_str i) | UF_Number \<Rightarrow> JInt (uint i))"

section \<open>Values without a type\<close>

definition byte_of_json :: "json \<Rightarrow> byte res" where
  "byte_of_json item =
     rbind (ok_or (InvalidInput ''invalid byte array value'') (parse_json_u64_opt item)) (\<lambda>num.
       if 255 < num then Inl (InvalidInput ''byte out of range'') else Inr (ucast num))"

definition parse_bytes_value :: "codec_env \<Rightarrow> json \<Rightarrow> bytes res" where
  "parse_bytes_value cd value =
     (case value of
        JStr s \<Rightarrow>
          (case cd_unbase64 cd s of
             Inr bytes \<Rightarrow> Inr bytes
           | Inl _ \<Rightarrow> (case cd_unhex cd s of Inr bytes \<Rightarrow> Inr bytes | Inl _ \<Rightarrow> Inr (as_bytes s)))
      | JList arr \<Rightarrow> rmap byte_of_json arr
      | JObj obj \<Rightarrow>
          (case Option.bind (obj_get ''base64'' obj) j_str of
             Some b64 \<Rightarrow> map_sum (\<lambda>e. InvalidInput (''invalid base64 bytes: '' @ e)) id (cd_unbase64 cd b64)
           | None \<Rightarrow>
          (case Option.bind (obj_get ''hex'' obj) j_str of
             Some hex_str \<Rightarrow> map_sum (\<lambda>e. InvalidInput (''invalid hex bytes: '' @ e)) id (cd_unhex cd hex_str)
           | None \<Rightarrow> Inl (InvalidInput ''bytes object must contain base64 or hex'')))
      | _ \<Rightarrow> Inl (InvalidInput ''invalid bytes value''))"

text \<open>A key that is a decimal number becomes the number.\<close>

definition key_value :: "string \<Rightarrow> mp" where
  "key_value key = (case parse_u64 key of Some n \<Rightarrow> MInt (uint n) | None \<Rightarrow> MStr (as_bytes key))"

function json_to_msgpack_value :: "json \<Rightarrow> mp res" where
  "json_to_msgpack_value JNull = Inr MNil"
| "json_to_msgpack_value (JBool v) = Inr (MBool v)"
| "json_to_msgpack_value (JInt i) =
     (case int_as_i64 i of
        Some v \<Rightarrow> Inr (MInt v)
      | None \<Rightarrow> (case int_as_u64 i of Some v \<Rightarrow> Inr (MInt (uint v)) | None \<Rightarrow> Inl (InvalidInput ''invalid numeric value'')))"
| "json_to_msgpack_value (JFloat w) = Inr (MF64 w)"
| "json_to_msgpack_value (JStr s) = Inr (MStr (as_bytes s))"
| "json_to_msgpack_value (JList arr) = rbind (rmap json_to_msgpack_value arr) (\<lambda>out. Inr (MArr out))"
| "json_to_msgpack_value (JObj obj) =
     rbind (rmap (\<lambda>key.
         case obj_get key obj of
           None \<Rightarrow> Inl (InvalidInput ''missing object key'')
         | Some value \<Rightarrow> rbind (json_to_msgpack_value value) (\<lambda>v. Inr (key_value key, v))) (sort (map fst obj)))
       (\<lambda>out. Inr (MMap out))"
  by pat_completeness auto
termination
  by (relation "measure size") (auto simp: obj_get_def less_Suc_eq_le size_list_estimation' dest: size_obj_get)

definition encode_value_for_type :: "codec_env \<Rightarrow> json \<Rightarrow> string \<Rightarrow> mp res" where
  "encode_value_for_type cd value field_type =
     (if field_type = ''string'' then ok_or (InvalidInput ''expected string'') (map_option (MStr \<circ> as_bytes) (j_str value))
      else if field_type = ''bool'' then ok_or (InvalidInput ''expected bool'') (map_option MBool (j_bool value))
      else if field_type \<in> {''u64'', ''uint64'', ''u32'', ''uint32'', ''u8'', ''uint8''} then
        ok_or (InvalidInput ''expected integer'') (map_option (MInt \<circ> uint) (parse_json_u64_opt value))
      else if field_type \<in> {''int64'', ''int32'', ''unix_ms'', ''time_ms'', ''timestamp_ms''} then
        ok_or (InvalidInput ''expected integer'') (map_option MInt (parse_json_i64_opt value))
      else if field_type \<in> {''bytes'', ''typed_blob''} then map_sum id MBin (parse_bytes_value cd value)
      else json_to_msgpack_value value)"

section \<open>Values with a type\<close>

text \<open>What an enum field accepts: a number, or a label; other JSON is left to the field's type.\<close>

definition encode_enum :: "Registry \<Rightarrow> json \<Rightarrow> FieldSpec \<Rightarrow> mp res option" where
  "encode_enum reg value field =
     Option.bind (fs_enum_ref field) (\<lambda>enum_ref.
       case parse_json_u64_opt value of
         Some num \<Rightarrow> Some (Inr (MInt (uint num)))
       | None \<Rightarrow>
           (case j_str value of
              None \<Rightarrow> None
            | Some label \<Rightarrow>
                (case Option.bind (get_enum reg enum_ref) (find (\<lambda>(_, v). v = label)) of
                   Some (num_str, _) \<Rightarrow>
                     Some (rbind (ok_or (InvalidInput (''invalid enum value for '' @ fs_name field)) (parse_u64 num_str))
                       (\<lambda>num. Inr (MInt (uint num))))
                 | None \<Rightarrow> Some (Inl (InvalidInput (''unknown enum label for '' @ fs_name field))))))"

definition tagged_fields :: "TypeVersionSpec \<Rightarrow> (u64 \<times> FieldSpec) list" where
  "tagged_fields desc = sort_key fst (vs_fields desc)"

definition declared :: "TypeVersionSpec \<Rightarrow> string \<Rightarrow> bool" where
  "declared desc key = list_ex (\<lambda>(_, field). fs_name field = key) (tagged_fields desc)"

function encode_object_with_descriptor ::
    "codec_env \<Rightarrow> Registry \<Rightarrow> (string \<times> json) list \<Rightarrow> TypeVersionSpec \<Rightarrow> mp res"
  and encode_field_value :: "codec_env \<Rightarrow> Registry \<Rightarrow> json \<Rightarrow> FieldSpec \<Rightarrow> mp res"
  and encode_ref_value :: "codec_env \<Rightarrow> Registry \<Rightarrow> json \<Rightarrow> string \<Rightarrow> mp res" where
  "encode_object_with_descriptor cd reg obj desc =
     rbind (rmap (\<lambda>(tag, field).
         case obj_get (fs_name field) obj of
           Some value \<Rightarrow> rbind (encode_field_value cd reg value field) (\<lambda>v. Inr [(MInt (uint tag), v)])
         | None \<Rightarrow>
             if fs_optional field then Inr []
             else Inl (InvalidInput (''missing required field: '' @ fs_name field))) (tagged_fields desc)) (\<lambda>known.
     rbind (rmap (\<lambda>(key, value).
         if declared desc key then Inr []
         else rbind (json_to_msgpack_value value) (\<lambda>v. Inr [(key_value key, v)])) obj) (\<lambda>unknown.
     Inr (MMap (concat known @ concat unknown))))"
| "encode_field_value cd reg value field =
     (if value = JNull then Inr MNil
      else case encode_enum reg value field of
        Some r \<Rightarrow> r
      | None \<Rightarrow>
          let ty = fs_field_type field; name = fs_name field
          in if ty = ''string'' then ok_or (InvalidInput (''expected string for '' @ name)) (map_option (MStr \<circ> as_bytes) (j_str value))
             else if ty = ''bool'' then ok_or (InvalidInput (''expected bool for '' @ name)) (map_option MBool (j_bool value))
             else if ty \<in> {''u64'', ''uint64'', ''u32'', ''uint32'', ''u8'', ''uint8''} then
               ok_or (InvalidInput (''expected integer for '' @ name)) (map_option (MInt \<circ> uint) (parse_json_u64_opt value))
             else if ty \<in> {''int64'', ''int32''} then
               ok_or (InvalidInput (''expected integer for '' @ name)) (map_option MInt (parse_json_i64_opt value))
             else if ty \<in> {''bytes'', ''typed_blob''} then map_sum id MBin (parse_bytes_value cd value)
             else if ty = ''array'' then
               rbind (ok_or (InvalidInput (''expected array for '' @ name)) (j_array value)) (\<lambda>items.
               rbind (rmap (\<lambda>item.
                   case fs_items field of
                     Some (Simple item_type) \<Rightarrow> encode_value_for_type cd item item_type
                   | Some (Ref type_ref) \<Rightarrow> encode_ref_value cd reg item type_ref
                   | None \<Rightarrow> json_to_msgpack_value item) items) (\<lambda>out. Inr (MArr out)))
             else if ty = ''ref'' then
               (case fs_type_ref field of
                  Some type_ref \<Rightarrow> encode_ref_value cd reg value type_ref
                | None \<Rightarrow> json_to_msgpack_value value)
             else encode_value_for_type cd value ty)"
| "encode_ref_value cd reg value type_ref =
     (case value of
        JObj obj \<Rightarrow>
          (case get_latest_type_version reg type_ref of
             None \<Rightarrow> Inl (NotFound ''type descriptor'')
           | Some desc \<Rightarrow> encode_object_with_descriptor cd reg obj desc)
      | _ \<Rightarrow> Inl (InvalidInput (''expected object for ref '' @ type_ref)))"
  by pat_completeness auto
termination
proof (relation "inv_image (less_than <*lex*> less_than) (case_sum (\<lambda>(cd, reg, obj, desc). (size (JObj obj), 0))
    (case_sum (\<lambda>(cd, reg, v, field). (size v, 2)) (\<lambda>(cd, reg, v, t). (size v, 1))))", goal_cases)
  case 1
  show ?case by auto
qed (auto simp: obj_get_def j_array_def less_Suc_eq_le size_list_estimation' split: json.splits dest: size_obj_get)

declare encode_object_with_descriptor.simps [simp del] encode_field_value.simps [simp del] encode_ref_value.simps [simp del]

definition write_msgpack :: "codec_env \<Rightarrow> mp \<Rightarrow> bytes res" where
  "write_msgpack cd value = map_sum (\<lambda>e. InvalidInput (''msgpack encode error: '' @ e)) id (cd_write_value cd value)"

definition encode_http_payload :: "codec_env \<Rightarrow> Registry \<Rightarrow> json \<Rightarrow> string \<Rightarrow> u32 \<Rightarrow> bytes res" where
  "encode_http_payload cd reg payload_json type_id type_version =
     (case (get_type_version reg type_id type_version, payload_json) of
        (Some desc, JObj obj) \<Rightarrow> rbind (encode_object_with_descriptor cd reg obj desc) (write_msgpack cd)
      | _ \<Rightarrow> rbind (json_to_msgpack_value payload_json) (write_msgpack cd))"

end
