(* ===== verification/Http_Gateway.thy ===== *)
theory Http_Gateway
  imports Http_Encode Server Cql_Parser
begin

text \<open>
  The HTTP gateway (\<^verbatim>\<open>server/src/http/mod.rs\<close>): one definition per route, the dispatch over method and path, and
  the answer to a request with its effect on store, registry, metrics and event bus.

  Third-party code is the record \<open>gateway_env\<close>: \<^verbatim>\<open>Url::parse\<close> (path segments and query), the decoding of query
  strings, JSON text, and the parameters of the components below.  \<open>ge_snapshot\<close> is \<^verbatim>\<open>Metrics::snapshot\<close>, which is made
  of floating-point rates and system calls.  A body is kept as the JSON value it prints; printing a value never fails, so
  the branches for an encoding error are left out.  \<open>gw_clock\<close> holds the readings of the clock during a request.

  Following a parent chain may not return on corrupt data (\<open>None\<close>).
\<close>

section \<open>Requests and answers\<close>

record gateway_env =
  ge_store :: store_env
  ge_lex :: lex_env
  ge_cql :: cql_env
  ge_render :: render_env
  ge_codec :: codec_env
  ge_parse_bundle :: parse_bundle
  ge_from_slice :: "bytes \<Rightarrow> string + json"
  ge_url :: "string \<Rightarrow> (string list \<times> string option) option"
  ge_form :: "string \<Rightarrow> (string \<times> string) list"
  ge_it_sessions :: "(u64, ClientSession) hash_iter"
  ge_it_tags :: "string set \<Rightarrow> string list"
  ge_it_vars :: "(string, string) hash_iter"
  ge_snapshot :: "ServerState \<Rightarrow> Registry \<Rightarrow> json"
  ge_io_msg :: "io_kind \<Rightarrow> string"

record gw_clock =
  gc_now :: u64
  gc_get :: nat
  gc_search :: nat
  gc_http :: nat
  gc_head_ok :: bool
  gc_hello_ok :: bool

record GwRequest =
  gq_method :: string
  gq_url :: string
  gq_headers :: "(string \<times> string) list"
  gq_body :: "io_kind + bytes"

datatype gw_body = JsonBody json | RawBody bytes

record GwReply =
  gr_status :: u16
  gr_headers :: "(string \<times> string) list"
  gr_body :: gw_body

record Gateway =
  gw_server :: ServerState
  gw_registry :: Registry

type_synonym handled_http = "(Gateway \<times> GwReply res) option"

definition json_reply :: "u16 \<Rightarrow> json \<Rightarrow> GwReply" where
  "json_reply status j = \<lparr>gr_status = status, gr_headers = [(''Content-Type'', ''application/json'')], gr_body = JsonBody j\<rparr>"

definition empty_reply :: "u16 \<Rightarrow> GwReply" where
  "empty_reply status = \<lparr>gr_status = status, gr_headers = [], gr_body = RawBody []\<rparr>"

abbreviation gw_store :: "Gateway \<Rightarrow> Store" where
  "gw_store g \<equiv> sv_store (gw_server g)"

definition set_store :: "Store \<Rightarrow> Gateway \<Rightarrow> Gateway" where
  "set_store st g = g\<lparr>gw_server := (gw_server g)\<lparr>sv_store := st\<rparr>\<rparr>"

definition gw_publish :: "StoreEvent list \<Rightarrow> Gateway \<Rightarrow> Gateway" where
  "gw_publish es g = g\<lparr>gw_server := (gw_server g)\<lparr>sv_bus := foldl publish (sv_bus (gw_server g)) es\<rparr>\<rparr>"

definition set_metrics :: "(Metrics \<Rightarrow> Metrics) \<Rightarrow> Gateway \<Rightarrow> Gateway" where
  "set_metrics f g = g\<lparr>gw_server := (gw_server g)\<lparr>sv_metrics := f (sv_metrics (gw_server g))\<rparr>\<rparr>"

section \<open>Parameters and headers\<close>

text \<open>A query string collected into a \<^verbatim>\<open>HashMap\<close>: the last value of a name counts.\<close>

type_synonym params = "string \<Rightarrow> string option"

definition parse_query :: "gateway_env \<Rightarrow> string \<Rightarrow> params" where
  "parse_query ge query = map_of (rev (ge_form ge query))"

definition flag_param :: "params \<Rightarrow> string \<Rightarrow> bool \<Rightarrow> bool" where
  "flag_param ps k d = (case ps k of Some v \<Rightarrow> v = ''1'' | None \<Rightarrow> d)"

definition u32_param :: "params \<Rightarrow> string \<Rightarrow> u32 \<Rightarrow> u32" where
  "u32_param ps k d = (case Option.bind (ps k) parse_u32 of Some v \<Rightarrow> v | None \<Rightarrow> d)"

definition find_header :: "string \<Rightarrow> (string \<times> string) list \<Rightarrow> string option" where
  "find_header name hs = map_option snd (find (\<lambda>(n, _). eq_ignore_ascii_case n name) hs)"

fun first_tag :: "(string \<times> string) list \<Rightarrow> string list \<Rightarrow> string" where
  "first_tag hs [] = ''http''"
| "first_tag hs (name # names) =
     (case find_header name hs of
        Some v \<Rightarrow> if trim v \<noteq> [] then trim v else first_tag hs names
      | None \<Rightarrow> first_tag hs names)"

definition extract_http_client_tag :: "GwRequest \<Rightarrow> string" where
  "extract_http_client_tag rq = first_tag (gq_headers rq) [''X-CXDB-Client-Tag'', ''X-Client-Tag'']"

definition is_ascii_ws :: "byte \<Rightarrow> bool" where
  "is_ascii_ws b \<longleftrightarrow> b \<in> {0x20, 0x09, 0x0A, 0x0C, 0x0D}"

definition read_body :: "GwRequest \<Rightarrow> bytes res" where
  "read_body rq = map_sum Io id (gq_body rq)"

definition parse_json_body :: "gateway_env \<Rightarrow> GwRequest \<Rightarrow> json res" where
  "parse_json_body ge rq =
     rbind (read_body rq) (\<lambda>body.
       if body = [] then Inr (JObj [])
       else if list_all is_ascii_ws body then Inr (JObj [])
       else map_sum (\<lambda>e. InvalidInput (''invalid json: '' @ e)) id (ge_from_slice ge body))"

definition parse_base_turn_id :: "gateway_env \<Rightarrow> GwRequest \<Rightarrow> u64 \<Rightarrow> bool \<Rightarrow> u64 res" where
  "parse_base_turn_id ge rq fallback required =
     rbind (parse_json_body ge rq) (\<lambda>body.
       case jget body ''base_turn_id'' of
         Some value \<Rightarrow> parse_json_u64 value ''base_turn_id''
       | None \<Rightarrow> if required then Inl (InvalidInput ''missing required field: base_turn_id'') else Inr fallback)"

abbreviation id_json :: "u64 \<Rightarrow> json" where
  "id_json \<equiv> format_id UF_Number"

abbreviation jnum :: "'a::len word \<Rightarrow> json" where
  "jnum w \<equiv> JInt (uint w)"

abbreviation jlen :: "'a list \<Rightarrow> json" where
  "jlen xs \<equiv> JInt (int (length xs))"

section \<open>Registry\<close>

definition healthz :: GwReply where
  "healthz = \<lparr>gr_status = 200, gr_headers = [(''Content-Type'', ''text/plain'')], gr_body = RawBody (as_bytes ''ok'')\<rparr>"

text \<open>The bundle id of the path is not looked at.\<close>

definition http_put_bundle :: "gateway_env \<Rightarrow> GwRequest \<Rightarrow> Gateway \<Rightarrow> Gateway \<times> GwReply res" where
  "http_put_bundle ge rq g =
     (case rbind (read_body rq) (\<lambda>body.
           rbind (map_sum (\<lambda>e. InvalidInput (''invalid json: '' @ e)) id (ge_parse_bundle ge body)) (\<lambda>bundle. Inr (body, bundle))) of
        Inl e \<Rightarrow> (g, Inl e)
      | Inr (body, bundle) \<Rightarrow>
          (case put_bundle (ge_parse_bundle ge) (gw_registry g) (rb_bundle_id bundle) body of
             (reg, Inl e) \<Rightarrow> (g\<lparr>gw_registry := reg\<rparr>, Inl e)
           | (reg, Inr AlreadyExists) \<Rightarrow> (g\<lparr>gw_registry := reg\<rparr>, Inr (empty_reply 204))
           | (reg, Inr PutOutcome.Created) \<Rightarrow>
               (set_metrics record_registry_ingest (g\<lparr>gw_registry := reg\<rparr>),
                Inr (json_reply 201 (jobj [(''bundle_id'', JStr (rb_bundle_id bundle))])))))"

definition etag_of :: "gateway_env \<Rightarrow> bytes \<Rightarrow> string" where
  "etag_of ge bundle = CHR 0x22 # re_hex (ge_render ge) (se_blake3 (ge_store ge) bundle) @ [CHR 0x22]"

definition http_get_bundle :: "gateway_env \<Rightarrow> GwRequest \<Rightarrow> Gateway \<Rightarrow> string \<Rightarrow> GwReply res" where
  "http_get_bundle ge rq g bundle_id =
     rbind (ok_or (NotFound ''bundle'') (get_bundle (gw_registry g) bundle_id)) (\<lambda>bundle.
       let etag = etag_of ge bundle
       in if find_header ''If-None-Match'' (gq_headers rq) = Some etag then Inr (empty_reply 304)
          else Inr \<lparr>gr_status = 200, gr_headers = [(''Content-Type'', ''application/json''), (''ETag'', etag)],
                    gr_body = RawBody bundle\<rparr>)"

definition renderer_spec_to_json :: "RendererSpec \<Rightarrow> json" where
  "renderer_spec_to_json spec =
     jobj ([(''esm_url'', JStr (rs_esm_url spec))] @ opt_member ''component'' JStr (rs_component spec)
       @ opt_member ''integrity'' JStr (rs_integrity spec))"

definition items_json :: "ItemsSpec \<Rightarrow> json" where
  "items_json items = (case items of Simple s \<Rightarrow> JStr s | Ref r \<Rightarrow> jobj [(''type'', JStr ''ref''), (''ref'', JStr r)])"

definition field_spec_to_json :: "FieldSpec \<Rightarrow> json" where
  "field_spec_to_json field =
     jobj ([(''name'', JStr (fs_name field)), (''type'', JStr (fs_field_type field))]
       @ opt_member ''enum'' JStr (fs_enum_ref field) @ opt_member ''ref'' JStr (fs_type_ref field)
       @ opt_member ''items'' items_json (fs_items field)
       @ (if fs_optional field then [(''optional'', JBool True)] else []))"

definition type_version_to_json :: "TypeVersionSpec \<Rightarrow> json" where
  "type_version_to_json spec =
     jobj ([(''fields'', jobj (map (\<lambda>(tag, field). (u64_str tag, field_spec_to_json field)) (vs_fields spec)))]
       @ opt_member ''renderer'' renderer_spec_to_json (vs_renderer spec))"

definition http_get_type_version :: "Gateway \<Rightarrow> string \<Rightarrow> string \<Rightarrow> GwReply res" where
  "http_get_type_version g type_id version =
     rbind (ok_or (InvalidInput ''invalid version'') (parse_u32 version)) (\<lambda>v.
     rbind (ok_or (NotFound ''type version'') (get_type_version (gw_registry g) type_id v)) (\<lambda>spec.
     Inr (json_reply 200 (type_version_to_json spec))))"

definition http_renderers :: "Gateway \<Rightarrow> GwReply" where
  "http_renderers g =
     json_reply 200 (jobj [(''renderers'',
       jobj (map (\<lambda>(type_id, spec). (type_id, renderer_spec_to_json spec)) (get_all_renderers (gw_registry g))))])"

section \<open>Contexts\<close>

definition provenance_json :: "gateway_env \<Rightarrow> Provenance \<Rightarrow> json" where
  "provenance_json ge p =
     jobj [(''parent_context_id'', jopt jnum (pv_parent_context_id p)), (''spawn_reason'', jopt JStr (pv_spawn_reason p)),
       (''root_context_id'', jopt jnum (pv_root_context_id p)), (''trace_id'', jopt JStr (pv_trace_id p)),
       (''span_id'', jopt JStr (pv_span_id p)), (''correlation_id'', jopt JStr (pv_correlation_id p)),
       (''on_behalf_of'', jopt JStr (pv_on_behalf_of p)), (''on_behalf_of_source'', jopt JStr (pv_on_behalf_of_source p)),
       (''on_behalf_of_email'', jopt JStr (pv_on_behalf_of_email p)), (''writer_method'', jopt JStr (pv_writer_method p)),
       (''writer_subject'', jopt JStr (pv_writer_subject p)), (''writer_issuer'', jopt JStr (pv_writer_issuer p)),
       (''service_name'', jopt JStr (pv_service_name p)), (''service_version'', jopt JStr (pv_service_version p)),
       (''service_instance_id'', jopt JStr (pv_service_instance_id p)), (''process_pid'', jopt JInt (pv_process_pid p)),
       (''process_owner'', jopt JStr (pv_process_owner p)), (''host_name'', jopt JStr (pv_host_name p)),
       (''host_arch'', jopt JStr (pv_host_arch p)), (''client_address'', jopt JStr (pv_client_address p)),
       (''client_port'', jopt JInt (pv_client_port p)),
       (''env'', jopt (\<lambda>m. jobj (map (\<lambda>(k, v). (k, JStr v)) (ge_it_vars ge m))) (pv_env p)),
       (''sdk_name'', jopt JStr (pv_sdk_name p)), (''sdk_version'', jopt JStr (pv_sdk_version p)),
       (''captured_at'', jopt JInt (pv_captured_at p))]"

text \<open>The address of the live session is filled in where the client gave none.\<close>

definition with_client_address :: "string option \<Rightarrow> Provenance \<Rightarrow> Provenance" where
  "with_client_address addr p = (if pv_client_address p = None then p\<lparr>pv_client_address := addr\<rparr> else p)"

definition lineage_json :: "Store \<Rightarrow> ContextMetadata option \<Rightarrow> u64 \<Rightarrow> json" where
  "lineage_json s stored_metadata context_id =
     (let prov = Option.bind stored_metadata cm_provenance;
          child_ids = child_context_ids s context_id
      in jobj [(''parent_context_id'', jopt id_json (Option.bind prov pv_parent_context_id)),
           (''root_context_id'', jopt id_json (Option.bind prov pv_root_context_id)),
           (''spawn_reason'', jopt JStr (Option.bind prov pv_spawn_reason)),
           (''child_context_count'', jlen child_ids), (''child_context_ids'', JList (map id_json child_ids))])"

definition context_json ::
    "gateway_env \<Rightarrow> SessionTracker \<Rightarrow> Store \<Rightarrow> ContextHead \<Rightarrow> ContextMetadata option \<Rightarrow> u64 \<Rightarrow> bool \<Rightarrow> bool \<Rightarrow> json" where
  "context_json ge t s head stored_metadata context_id include_provenance include_lineage =
     (let session = get_session_for_context t context_id;
          tag = or_else (Option.bind stored_metadata cm_client_tag) (map_option cs_client_tag session);
          tag = (if tag = Some [] then None else tag);
          prov = (if include_provenance then Option.bind stored_metadata cm_provenance else None)
      in jobj ([(''context_id'', id_json (ch_context_id head)), (''head_turn_id'', id_json (ch_head_turn_id head)),
            (''head_depth'', jnum (ch_head_depth head)), (''created_at_unix_ms'', jnum (ch_created_at_unix_ms head)),
            (''is_live'', JBool (session \<noteq> None))]
          @ opt_member ''client_tag'' JStr tag
          @ opt_member ''session_id'' id_json (map_option cs_session_id session)
          @ opt_member ''last_activity_at'' jnum (map_option cs_last_activity_at session)
          @ opt_member ''title'' JStr (Option.bind stored_metadata cm_title)
          @ opt_member ''labels'' (\<lambda>ls. JList (map JStr ls)) (Option.bind stored_metadata cm_labels)
          @ opt_member ''provenance'' (\<lambda>p. provenance_json ge (with_client_address (Option.bind session cs_peer_addr) p)) prov
          @ (if include_lineage then [(''lineage'', lineage_json s stored_metadata context_id)] else [])))"

definition context_to_json ::
    "gateway_env \<Rightarrow> SessionTracker \<Rightarrow> u64 \<Rightarrow> bool \<Rightarrow> bool \<Rightarrow> Store \<Rightarrow> (Store \<times> json res) option" where
  "context_to_json ge t context_id include_provenance include_lineage s =
     (case st_get_head s context_id of
        Inl e \<Rightarrow> Some (s, Inl e)
      | Inr head \<Rightarrow>
          (case get_context_metadata (ge_store ge) s context_id of
             None \<Rightarrow> None
           | Some (s, stored_metadata) \<Rightarrow>
               Some (s, Inr (context_json ge t s head stored_metadata context_id include_provenance include_lineage))))"

text \<open>The contexts that can be shown, in order; reading their metadata fills the cache.\<close>

fun contexts_to_json ::
    "gateway_env \<Rightarrow> SessionTracker \<Rightarrow> bool \<Rightarrow> bool \<Rightarrow> u64 list \<Rightarrow> Store \<Rightarrow> (Store \<times> json list) option" where
  "contexts_to_json ge t ip il [] s = Some (s, [])"
| "contexts_to_json ge t ip il (i # ids) s =
     Option.bind (context_to_json ge t i ip il s) (\<lambda>(s, r).
     Option.bind (contexts_to_json ge t ip il ids s) (\<lambda>(s, js).
       Some (s, (case r of Inr j \<Rightarrow> [j] | Inl _ \<Rightarrow> []) @ js)))"

definition session_json :: "ClientSession \<Rightarrow> json" where
  "session_json cs =
     jobj ([(''session_id'', id_json (cs_session_id cs)), (''client_tag'', JStr (cs_client_tag cs)),
         (''connected_at'', jnum (cs_connected_at cs)), (''last_activity_at'', jnum (cs_last_activity_at cs)),
         (''context_count'', jlen (cs_contexts_created cs))] @ opt_member ''peer_addr'' JStr (cs_peer_addr cs))"

definition label_filter :: "params \<Rightarrow> string option" where
  "label_filter ps = or_else (ps ''label'') (map_option (\<lambda>i. ''task:'' @ i) (ps ''task_id''))"

definition http_list_contexts :: "gateway_env \<Rightarrow> params \<Rightarrow> Gateway \<Rightarrow> handled_http" where
  "http_list_contexts ge ps g =
     (let limit = u32_param ps ''limit'' 20; s = gw_store g; t = sv_tracker (gw_server g);
          contexts = (case label_filter ps of
              Some label \<Rightarrow> list_contexts_by_label (ge_store ge) s label limit
            | None \<Rightarrow> st_list_recent_contexts (ge_store ge) s limit)
      in case contexts_to_json ge t (flag_param ps ''include_provenance'' False) (flag_param ps ''include_lineage'' False)
                (map ch_context_id contexts) s of
           None \<Rightarrow> None
         | Some (s, objs) \<Rightarrow>
             let shown = filter (\<lambda>obj. case ps ''tag'' of
                     Some tag \<Rightarrow> or_default (get_str obj ''client_tag'') = tag | None \<Rightarrow> True) objs
             in Some (set_store s g, Inr (json_reply 200 (jobj
                  [(''contexts'', JList shown), (''count'', jlen shown),
                   (''active_sessions'', JList (map session_json (get_active_sessions (ge_it_sessions ge) t))),
                   (''active_tags'', JList (map JStr (ge_it_tags ge (get_active_tags (ge_it_sessions ge) t))))]))))"

definition http_context_made :: "gw_clock \<Rightarrow> GwRequest \<Rightarrow> Gateway \<Rightarrow> ContextHead \<Rightarrow> Gateway \<times> GwReply res" where
  "http_context_made clk rq g head =
     (gw_publish [ContextCreated (id_str (ch_context_id head)) ''http'' (extract_http_client_tag rq) (gc_now clk)] g,
      Inr (json_reply 201 (jobj [(''context_id'', id_json (ch_context_id head)),
        (''head_turn_id'', id_json (ch_head_turn_id head)), (''head_depth'', jnum (ch_head_depth head))])))"

definition http_create_context :: "gateway_env \<Rightarrow> gw_clock \<Rightarrow> GwRequest \<Rightarrow> Gateway \<Rightarrow> Gateway \<times> GwReply res" where
  "http_create_context ge clk rq g =
     (case parse_base_turn_id ge rq 0 False of
        Inl e \<Rightarrow> (g, Inl e)
      | Inr base_turn_id \<Rightarrow>
          (case st_create_context (ge_store ge) (gc_now clk) (gw_store g) base_turn_id of
             (st, Inl e) \<Rightarrow> (set_store st g, Inl e)
           | (st, Inr head) \<Rightarrow> http_context_made clk rq (set_store st g) head))"

definition http_fork_context :: "gateway_env \<Rightarrow> gw_clock \<Rightarrow> GwRequest \<Rightarrow> Gateway \<Rightarrow> Gateway \<times> GwReply res" where
  "http_fork_context ge clk rq g =
     (case parse_base_turn_id ge rq 0 True of
        Inl e \<Rightarrow> (g, Inl e)
      | Inr base_turn_id \<Rightarrow>
          (case st_fork_context (ge_store ge) (gc_now clk) (gw_store g) base_turn_id of
             (st, Inl e) \<Rightarrow> (set_store st g, Inl e)
           | (st, Inr head) \<Rightarrow> http_context_made clk rq (set_store st g) head))"

section \<open>Search\<close>

definition error_type_name :: "CqlErrorType \<Rightarrow> string" where
  "error_type_name t =
     (case t of SyntaxError \<Rightarrow> ''SyntaxError'' | UnknownField \<Rightarrow> ''UnknownField''
      | InvalidOperator \<Rightarrow> ''InvalidOperator'' | InvalidValue \<Rightarrow> ''InvalidValue'')"

definition position_json :: "Position \<Rightarrow> json" where
  "position_json p = jobj [(''line'', JInt (int (ps_line p))), (''column'', JInt (int (ps_column p))), (''offset'', JInt (int (ps_offset p)))]"

definition cql_error_json :: "CqlError \<Rightarrow> json" where
  "cql_error_json e =
     jobj [(''error'', JStr (ce_message e)), (''error_type'', JStr (error_type_name (ce_error_type e))),
       (''position'', jopt position_json (ce_position e)), (''field'', jopt JStr (ce_field e))]"

text \<open>A match is shown with what the cache holds of its metadata; a match without a head is left out.\<close>

definition match_json :: "SessionTracker \<Rightarrow> Store \<Rightarrow> u64 \<Rightarrow> json option" where
  "match_json t s context_id =
     (case get_head (turn_store s) context_id of
        Inl _ \<Rightarrow> None
      | Inr head \<Rightarrow>
          let cached = Option.bind (context_metadata_cache s context_id) id
          in Some (jobj ([(''context_id'', id_json context_id), (''head_turn_id'', id_json (ch_head_turn_id head)),
               (''head_depth'', jnum (ch_head_depth head)), (''created_at_unix_ms'', jnum (ch_created_at_unix_ms head)),
               (''is_live'', JBool (get_session_for_context t context_id \<noteq> None))]
             @ opt_member ''client_tag'' JStr (Option.bind cached cm_client_tag)
             @ opt_member ''title'' JStr (Option.bind cached cm_title))))"

definition http_search :: "gateway_env \<Rightarrow> gw_clock \<Rightarrow> params \<Rightarrow> Gateway \<Rightarrow> handled_http" where
  "http_search ge clk ps g =
     (let query = or_default (ps ''q''); limit = Option.bind (ps ''limit'') parse_u32; t = sv_tracker (gw_server g)
      in if query = [] then Some (g, Inr (json_reply 400 (jobj [(''error'', JStr ''Missing required 'q' parameter'')])))
         else
           map_option (\<lambda>r. (g, Inr (case r of
               Inr result \<Rightarrow>
                 json_reply 200 (jobj [(''contexts'', JList (List.map_filter (match_json t (gw_store g)) (sr_context_ids result))),
                   (''total_count'', JInt (int (sr_total_count result))), (''elapsed_ms'', JInt (int (gc_search clk))),
                   (''query'', JStr (cq_raw (sr_query result)))])
             | Inl e \<Rightarrow> json_reply 400 (cql_error_json e))))
             (search_contexts (ge_lex ge) (ge_cql ge) (gw_store g) query (get_live_context_ids t) limit))"

section \<open>One context\<close>

definition path_id :: "string \<Rightarrow> string \<Rightarrow> u64 res" where
  "path_id what s = ok_or (InvalidInput (''invalid '' @ what)) (parse_u64 s)"

definition http_get_context :: "gateway_env \<Rightarrow> params \<Rightarrow> string \<Rightarrow> Gateway \<Rightarrow> handled_http" where
  "http_get_context ge ps context_id g =
     (case path_id ''context_id'' context_id of
        Inl e \<Rightarrow> Some (g, Inl e)
      | Inr i \<Rightarrow>
          map_option (\<lambda>(s, r). (set_store s g, map_sum id (json_reply 200) r))
            (context_to_json ge (sv_tracker (gw_server g)) i (flag_param ps ''include_provenance'' True)
               (flag_param ps ''include_lineage'' True) (gw_store g)))"

definition recursive_param :: "params \<Rightarrow> bool" where
  "recursive_param ps = (case ps ''recursive'' of Some v \<Rightarrow> v = ''1'' \<or> eq_ignore_ascii_case v ''true'' | None \<Rightarrow> False)"

definition http_children :: "gateway_env \<Rightarrow> params \<Rightarrow> string \<Rightarrow> Gateway \<Rightarrow> handled_http" where
  "http_children ge ps context_id g =
     (case rbind (path_id ''context_id'' context_id) (\<lambda>i. rbind (st_get_head (gw_store g) i) (\<lambda>_. Inr i)) of
        Inl e \<Rightarrow> Some (g, Inl e)
      | Inr i \<Rightarrow>
          let limit = u32_param ps ''limit'' 256; s = gw_store g;
              child_ids = (if recursive_param ps then descendant_context_ids s i (Some limit)
                           else take (unat limit) (child_context_ids s i))
          in map_option (\<lambda>(s, children). (set_store s g, Inr (json_reply 200 (jobj
               [(''context_id'', id_json i), (''recursive'', JBool (recursive_param ps)), (''count'', jlen children),
                (''children'', JList children)]))))
               (contexts_to_json ge (sv_tracker (gw_server g)) (flag_param ps ''include_provenance'' True)
                  (flag_param ps ''include_lineage'' True) child_ids s))"

definition http_provenance :: "gateway_env \<Rightarrow> string \<Rightarrow> Gateway \<Rightarrow> handled_http" where
  "http_provenance ge context_id g =
     (case rbind (path_id ''context_id'' context_id) (\<lambda>i. rbind (st_get_head (gw_store g) i) (\<lambda>_. Inr i)) of
        Inl e \<Rightarrow> Some (g, Inl e)
      | Inr i \<Rightarrow>
          map_option (\<lambda>(s, metadata).
              let addr = Option.bind (get_session_for_context (sv_tracker (gw_server g)) i) cs_peer_addr
              in (set_store s g, Inr (json_reply 200 (jobj [(''context_id'', id_json i),
                   (''provenance'', jopt (\<lambda>p. provenance_json ge (with_client_address addr p)) (Option.bind metadata cm_provenance))]))))
            (get_context_metadata (ge_store ge) (gw_store g) i))"

section \<open>Append\<close>

record http_append =
  ha_context_id :: u64
  ha_type_id :: string
  ha_type_version :: u32
  ha_parent_turn_id :: u64
  ha_payload :: bytes

definition parse_http_append :: "gateway_env \<Rightarrow> Registry \<Rightarrow> GwRequest \<Rightarrow> string \<Rightarrow> http_append res" where
  "parse_http_append ge reg rq context_id =
     rbind (path_id ''context_id'' context_id) (\<lambda>i.
     rbind (parse_json_body ge rq) (\<lambda>body.
     rbind (get_required_string body ''type_id'') (\<lambda>type_id.
     rbind (get_required_u32 body ''type_version'') (\<lambda>type_version.
     rbind (get_optional_u64 body ''parent_turn_id'') (\<lambda>parent.
     rbind (ok_or (InvalidInput ''missing required field: data or payload'') (or_else (jget body ''data'') (jget body ''payload''))) (\<lambda>payload_json.
     rbind (encode_http_payload (ge_codec ge) reg payload_json type_id type_version) (\<lambda>payload_bytes.
     Inr \<lparr>ha_context_id = i, ha_type_id = type_id, ha_type_version = type_version,
          ha_parent_turn_id = (case parent of Some p \<Rightarrow> p | None \<Rightarrow> 0), ha_payload = payload_bytes\<rparr>)))))))"

text \<open>The events are those of an append over the binary protocol.\<close>

definition http_append_events :: "http_append \<Rightarrow> TurnRecord \<Rightarrow> ContextMetadata option \<Rightarrow> StoreEvent list" where
  "http_append_events a rec metadata =
     append_events \<lparr>ar_context_id = ha_context_id a, ar_parent_turn_id = ha_parent_turn_id a,
       ar_declared_type_id = ha_type_id a, ar_declared_type_version = ha_type_version a, ar_encoding = 1, ar_compression = 0,
       ar_uncompressed_len = of_nat (length (ha_payload a)), ar_content_hash = [], ar_payload_bytes = ha_payload a,
       ar_idempotency_key = [], ar_fs_root_hash = None\<rparr> rec metadata"

definition http_append_turn :: "gateway_env \<Rightarrow> gw_clock \<Rightarrow> GwRequest \<Rightarrow> string \<Rightarrow> Gateway \<Rightarrow> Gateway \<times> GwReply res" where
  "http_append_turn ge clk rq context_id g =
     (case parse_http_append ge (gw_registry g) rq context_id of
        Inl e \<Rightarrow> (g, Inl e)
      | Inr a \<Rightarrow>
          let hash = se_blake3 (ge_store ge) (ha_payload a)
          in (case st_append_turn (ge_store ge) (gc_now clk) (gw_store g) (ha_context_id a) (ha_parent_turn_id a)
                    (ha_type_id a) (ha_type_version a) 1 0 (of_nat (length (ha_payload a))) hash (ha_payload a) of
                (st, Inl e) \<Rightarrow> (set_store st g, Inl e)
              | (st, Inr (rec, metadata)) \<Rightarrow>
                  (gw_publish (http_append_events a rec metadata) (set_store st g),
                   Inr (json_reply 201 (jobj [(''context_id'', id_json (ha_context_id a)), (''turn_id'', id_json (tr_turn_id rec)),
                     (''depth'', jnum (tr_depth rec)), (''content_hash'', JStr (re_hex (ge_render ge) hash))])))))"

section \<open>Turns\<close>

definition render_options :: "params \<Rightarrow> RenderOptions" where
  "render_options ps =
     \<lparr>bytes_render = (if ps ''bytes_render'' = Some ''hex'' then BR_Hex
                      else if ps ''bytes_render'' = Some ''len_only'' then BR_LenOnly else BR_Base64),
      u64_format = (if ps ''u64_format'' = Some ''string'' then UF_String else UF_Number),
      enum_render = (if ps ''enum_render'' = Some ''number'' then ER_Number
                     else if ps ''enum_render'' = Some ''both'' then ER_Both else ER_Label),
      time_render = (if ps ''time_render'' = Some ''unix_ms'' then TR_UnixMs else TR_Iso),
      include_unknown = flag_param ps ''include_unknown'' False\<rparr>"

definition type_json :: "string \<Rightarrow> u32 \<Rightarrow> json" where
  "type_json type_id version = jobj [(''type_id'', JStr type_id), (''type_version'', jnum version)]"

text \<open>The type a turn is shown as.\<close>

definition decoded_type :: "params \<Rightarrow> Registry \<Rightarrow> TurnMeta \<Rightarrow> (string \<times> u32) res" where
  "decoded_type ps reg meta =
     (case ps ''type_hint_mode'' of
        Some mode \<Rightarrow>
          if mode = ''explicit'' then
            rbind (ok_or (InvalidInput ''as_type_id required'') (ps ''as_type_id'')) (\<lambda>i.
            rbind (ok_or (InvalidInput ''as_type_version required'') (Option.bind (ps ''as_type_version'') parse_u32)) (\<lambda>ver.
            Inr (i, ver)))
          else if mode = ''latest'' then
            rbind (ok_or (NotFound ''type descriptor'') (get_latest_type_version reg (tm_declared_type_id meta))) (\<lambda>latest.
            Inr (tm_declared_type_id meta, vs_version latest))
          else Inr (tm_declared_type_id meta, tm_declared_type_version meta)
      | None \<Rightarrow> Inr (tm_declared_type_id meta, tm_declared_type_version meta))"

definition typed_members ::
    "gateway_env \<Rightarrow> RenderOptions \<Rightarrow> Registry \<Rightarrow> string \<Rightarrow> u32 \<Rightarrow> TurnWithMeta \<Rightarrow> (string \<times> json) list res" where
  "typed_members ge opts reg type_id version item =
     rbind (ok_or (NotFound ''type descriptor'') (get_type_version reg type_id version)) (\<lambda>desc.
     rbind (ok_or (InvalidInput ''payload not loaded'') (tw_payload item)) (\<lambda>payload.
     rbind (project_msgpack (ge_render ge) payload desc reg opts) (\<lambda>projected.
     Inr ([(''decoded_as'', type_json type_id version), (''data'', pj_data projected)]
          @ opt_member ''unknown'' id (pj_unknown projected)))))"

definition raw_members :: "gateway_env \<Rightarrow> RenderOptions \<Rightarrow> TurnWithMeta \<Rightarrow> (string \<times> json) list res" where
  "raw_members ge opts item =
     rbind (ok_or (InvalidInput ''payload not loaded'') (tw_payload item)) (\<lambda>payload.
     Inr [(''content_hash_b3'', JStr (re_hex (ge_render ge) (tr_payload_hash (tw_record item)))),
          (''encoding'', jnum (tm_encoding (tw_meta item))), (''compression'', JInt 0),
          (''uncompressed_len'', jnum (of_nat (length payload) :: u32)),
          (case bytes_render opts of
             BR_Base64 \<Rightarrow> (''bytes_b64'', JStr (re_base64 (ge_render ge) payload))
           | BR_Hex \<Rightarrow> (''bytes_hex'', JStr (re_hex (ge_render ge) payload))
           | BR_LenOnly \<Rightarrow> (''bytes_len'', jlen payload))])"

definition turn_json :: "gateway_env \<Rightarrow> params \<Rightarrow> Registry \<Rightarrow> TurnWithMeta \<Rightarrow> json res" where
  "turn_json ge ps reg item =
     (let opts = render_options ps; view = (case ps ''view'' of Some v \<Rightarrow> v | None \<Rightarrow> ''typed'') in
     rbind (decoded_type ps reg (tw_meta item)) (\<lambda>(type_id, version).
     rbind (if view = ''typed'' \<or> view = ''both'' then typed_members ge opts reg type_id version item else Inr []) (\<lambda>typed.
     rbind (if view = ''raw'' \<or> view = ''both'' then raw_members ge opts item else Inr []) (\<lambda>raw.
     Inr (jobj ([(''turn_id'', format_id (u64_format opts) (tr_turn_id (tw_record item))),
         (''parent_turn_id'', format_id (u64_format opts) (tr_parent_turn_id (tw_record item))),
         (''depth'', jnum (tr_depth (tw_record item))),
         (''declared_type'', type_json (tm_declared_type_id (tw_meta item)) (tm_declared_type_version (tw_meta item)))]
       @ typed @ raw))))))"

definition http_get_turns :: "gateway_env \<Rightarrow> gw_clock \<Rightarrow> params \<Rightarrow> string \<Rightarrow> Gateway \<Rightarrow> Gateway \<times> GwReply res" where
  "http_get_turns ge clk ps context_id g =
     (let limit = u32_param ps ''limit'' 64;
          before_turn_id = (case Option.bind (ps ''before_turn_id'') parse_u64 of Some i \<Rightarrow> i | None \<Rightarrow> 0);
          fmt = format_id (u64_format (render_options ps)); s = gw_store g
      in case rbind (path_id ''context_id'' context_id) (\<lambda>i. rbind (st_get_head s i) (\<lambda>head.
             rbind (if before_turn_id = 0 then st_get_last (ge_store ge) s i limit True
                    else st_get_before (ge_store ge) s i before_turn_id limit True) (\<lambda>items. Inr (i, head, items)))) of
           Inl e \<Rightarrow> (g, Inl e)
         | Inr (i, head, items) \<Rightarrow>
             (set_metrics (\<lambda>m. record_get_last m (gc_get clk)) g,
              rbind (rmap (turn_json ge ps (gw_registry g)) items) (\<lambda>out_turns.
                Inr (json_reply 200 (jobj
                  [(''meta'', jobj [(''context_id'', fmt i), (''head_turn_id'', fmt (ch_head_turn_id head)),
                     (''head_depth'', jnum (ch_head_depth head)),
                     (''registry_bundle_id'', jopt JStr (last_bundle_id (gw_registry g)))]),
                   (''turns'', JList out_turns),
                   (''next_before_turn_id'', jopt (\<lambda>t. fmt (tr_turn_id (tw_record t))) (first_of items))])))))"

section \<open>Metrics and errors\<close>

definition error_entry_json :: "ErrorEntry \<Rightarrow> json" where
  "error_entry_json e =
     jobj ([(''timestamp_ms'', jnum (ee_timestamp_ms e)), (''kind'', JStr (ee_kind e)), (''status_code'', jnum (ee_status_code e)),
       (''message'', JStr (ee_message e))] @ opt_member ''path'' JStr (ee_path e))"

definition http_metrics :: "gateway_env \<Rightarrow> Gateway \<Rightarrow> GwReply" where
  "http_metrics ge g = json_reply 200 (ge_snapshot ge (gw_server g) (gw_registry g))"

text \<open>The limit is read as a \<^verbatim>\<open>usize\<close>.\<close>

definition http_errors :: "params \<Rightarrow> Gateway \<Rightarrow> GwReply" where
  "http_errors ps g =
     (let limit = min (case Option.bind (ps ''limit'') parse_u64 of Some n \<Rightarrow> unat n | None \<Rightarrow> 50) 256
      in json_reply 200 (jobj [(''errors'', JList (map error_entry_json (list_recent_errors (sv_metrics (gw_server g)) limit)))]))"

section \<open>Snapshots\<close>

fun oct_str :: "nat \<Rightarrow> string" where
  "oct_str n = (if n < 8 then [digit_char n] else oct_str (n div 8) @ [digit_char (n mod 8)])"

declare oct_str.simps [simp del]

definition kind_str :: "u8 \<Rightarrow> string" where
  "kind_str k = (case entry_kind k of File \<Rightarrow> ''file'' | Directory \<Rightarrow> ''dir'' | Symlink \<Rightarrow> ''symlink'')"

definition entry_members :: "gateway_env \<Rightarrow> TreeEntry \<Rightarrow> (string \<times> json) list" where
  "entry_members ge e =
     [(''name'', JStr (te_name e)), (''kind'', JStr (kind_str (te_kind e))), (''mode'', JStr (oct_str (unat (te_mode e)))),
      (''size'', jnum (te_size e)), (''hash'', JStr (re_hex (ge_render ge) (te_hash e)))]"

definition list_directory :: "gateway_env \<Rightarrow> Store \<Rightarrow> u64 \<Rightarrow> string \<Rightarrow> GwReply res option" where
  "list_directory ge s turn_id path =
     (case st_get_fs_root s turn_id of
        None \<Rightarrow> None
      | Some None \<Rightarrow> Some (Inl (NotFound ''no fs snapshot for turn''))
      | Some (Some fs_root) \<Rightarrow>
          map_option (\<lambda>r. rbind r (\<lambda>entries. Inr (json_reply 200 (jobj [(''turn_id'', id_json turn_id), (''path'', JStr path),
              (''fs_root_hash'', JStr (re_hex (ge_render ge) fs_root)), (''entries'', JList (map (jobj \<circ> entry_members ge) entries))]))))
            (list_fs_entries (ge_store ge) s turn_id path))"

definition http_fs_list :: "gateway_env \<Rightarrow> params \<Rightarrow> string \<Rightarrow> Gateway \<Rightarrow> handled_http" where
  "http_fs_list ge ps turn_id g =
     (case path_id ''turn_id'' turn_id of
        Inl e \<Rightarrow> Some (g, Inl e)
      | Inr i \<Rightarrow> map_option (\<lambda>r. (g, r)) (list_directory ge (gw_store g) i (or_default (ps ''path''))))"

definition content_types :: "(string list \<times> string) list" where
  "content_types =
     [([''html'', ''htm''], ''text/html''), ([''css''], ''text/css''), ([''js''], ''application/javascript''),
      ([''json''], ''application/json''), ([''xml''], ''application/xml''), ([''txt''], ''text/plain''),
      ([''md''], ''text/markdown''), ([''rs''], ''text/x-rust''), ([''go''], ''text/x-go''), ([''py''], ''text/x-python''),
      ([''rb''], ''text/x-ruby''), ([''java''], ''text/x-java''), ([''c'', ''h''], ''text/x-c''),
      ([''cpp'', ''cc'', ''cxx'', ''hpp''], ''text/x-c++''), ([''ts''], ''text/typescript''), ([''tsx''], ''text/typescript-jsx''),
      ([''jsx''], ''text/javascript-jsx''), ([''yaml'', ''yml''], ''text/yaml''), ([''toml''], ''text/toml''),
      ([''sh'', ''bash''], ''text/x-shellscript''), ([''png''], ''image/png''), ([''jpg'', ''jpeg''], ''image/jpeg''),
      ([''gif''], ''image/gif''), ([''svg''], ''image/svg+xml''), ([''webp''], ''image/webp''), ([''pdf''], ''application/pdf''),
      ([''zip''], ''application/zip''), ([''tar''], ''application/x-tar''), ([''gz''], ''application/gzip'')]"

definition guess_content_type :: "(string \<Rightarrow> string) \<Rightarrow> string \<Rightarrow> string" where
  "guess_content_type lower path =
     (let ext = lower (rev (takeWhile (\<lambda>c. c \<noteq> CHR ''.'') (rev path)))
      in case find (\<lambda>(exts, _). ext \<in> set exts) content_types of
           Some (_, t) \<Rightarrow> t | None \<Rightarrow> ''application/octet-stream'')"

definition file_reply :: "gateway_env \<Rightarrow> params \<Rightarrow> u64 \<Rightarrow> string \<Rightarrow> bytes \<Rightarrow> TreeEntry \<Rightarrow> GwReply" where
  "file_reply ge ps turn_id path content entry =
     (if ps ''format'' = Some ''json'' then
        json_reply 200 (jobj ([(''turn_id'', id_json turn_id), (''path'', JStr path)] @ entry_members ge entry
          @ [(''content_base64'', JStr (re_base64 (ge_render ge) content))]))
      else
        \<lparr>gr_status = 200,
         gr_headers = [(''Content-Type'', guess_content_type (se_lower (ge_store ge)) path),
           (''X-Fs-Hash'', re_hex (ge_render ge) (te_hash entry)), (''X-Fs-Mode'', oct_str (unat (te_mode entry)))],
         gr_body = RawBody content\<rparr>)"

definition http_fs_file :: "gateway_env \<Rightarrow> params \<Rightarrow> string \<Rightarrow> string list \<Rightarrow> Gateway \<Rightarrow> handled_http" where
  "http_fs_file ge ps turn_id rest g =
     (let path = join ''/'' rest
      in case rbind (path_id ''turn_id'' turn_id) (\<lambda>i. if path = [] then Inl (InvalidInput ''empty file path'') else Inr i) of
           Inl e \<Rightarrow> Some (g, Inl e)
         | Inr i \<Rightarrow>
             map_option (\<lambda>r. (g, r))
               (case get_fs_file (ge_store ge) (gw_store g) i path of
                  None \<Rightarrow> None
                | Some (Inr (content, entry)) \<Rightarrow> Some (Inr (file_reply ge ps i path content entry))
                | Some (Inl (InvalidInput msg)) \<Rightarrow>
                    if str_contains msg ''directory'' then list_directory ge (gw_store g) i path else Some (Inl (InvalidInput msg))
                | Some (Inl e) \<Rightarrow> Some (Inl e)))"

section \<open>Dispatch\<close>

datatype route =
    Healthz | PutBundle | GetBundle string | GetTypeVersion string string | Renderers | ListContexts | CreateCtx | ForkCtx
  | Search | GetContext string | Children string | GetProvenance string | AppendTurnTo string | GetTurns string
  | GetMetrics | GetErrors | FsList string | FsFile string "string list" | NoRoute

text \<open>The arms of the match over method and path segments, in order.\<close>

definition get_route :: "string list \<Rightarrow> route" where
  "get_route segs =
     (if segs = [''healthz''] then Healthz
      else if take 3 segs = [''v1'', ''registry'', ''bundles''] \<and> length segs = 4 then GetBundle (segs ! 3)
      else if take 3 segs = [''v1'', ''registry'', ''types''] \<and> length segs = 6 \<and> segs ! 4 = ''versions'' then GetTypeVersion (segs ! 3) (segs ! 5)
      else if segs = [''v1'', ''registry'', ''renderers''] then Renderers
      else if segs = [''v1'', ''contexts''] then ListContexts
      else if segs = [''v1'', ''contexts'', ''search''] then Search
      else if take 2 segs = [''v1'', ''contexts''] \<and> length segs = 3 then GetContext (segs ! 2)
      else if take 2 segs = [''v1'', ''contexts''] \<and> length segs = 4 \<and> segs ! 3 = ''children'' then Children (segs ! 2)
      else if take 2 segs = [''v1'', ''contexts''] \<and> length segs = 4 \<and> segs ! 3 = ''provenance'' then GetProvenance (segs ! 2)
      else if take 2 segs = [''v1'', ''contexts''] \<and> length segs = 4 \<and> segs ! 3 = ''turns'' then GetTurns (segs ! 2)
      else if segs = [''v1'', ''metrics''] then GetMetrics
      else if segs = [''v1'', ''errors''] then GetErrors
      else if take 2 segs = [''v1'', ''turns''] \<and> length segs = 4 \<and> segs ! 3 = ''fs'' then FsList (segs ! 2)
      else if take 2 segs = [''v1'', ''turns''] \<and> 4 < length segs \<and> segs ! 3 = ''fs'' then FsFile (segs ! 2) (drop 4 segs)
      else NoRoute)"

definition post_route :: "string list \<Rightarrow> route" where
  "post_route segs =
     (if segs = [''v1'', ''contexts''] \<or> segs = [''v1'', ''contexts'', ''create''] then CreateCtx
      else if segs = [''v1'', ''contexts'', ''fork''] then ForkCtx
      else if take 2 segs = [''v1'', ''contexts''] \<and> length segs = 4 \<and> (segs ! 3 = ''append'' \<or> segs ! 3 = ''turns'') then AppendTurnTo (segs ! 2)
      else NoRoute)"

definition route_of :: "string \<Rightarrow> string list \<Rightarrow> route" where
  "route_of meth segs =
     (if meth = ''GET'' then get_route segs
      else if meth = ''POST'' then post_route segs
      else if meth = ''PUT'' \<and> take 3 segs = [''v1'', ''registry'', ''bundles''] \<and> length segs = 4 then PutBundle
      else NoRoute)"

fun run_route :: "gateway_env \<Rightarrow> gw_clock \<Rightarrow> GwRequest \<Rightarrow> params \<Rightarrow> route \<Rightarrow> Gateway \<Rightarrow> handled_http" where
  "run_route ge clk rq ps Healthz g = Some (g, Inr healthz)"
| "run_route ge clk rq ps PutBundle g = Some (http_put_bundle ge rq g)"
| "run_route ge clk rq ps (GetBundle i) g = Some (g, http_get_bundle ge rq g i)"
| "run_route ge clk rq ps (GetTypeVersion i v) g = Some (g, http_get_type_version g i v)"
| "run_route ge clk rq ps Renderers g = Some (g, Inr (http_renderers g))"
| "run_route ge clk rq ps ListContexts g = http_list_contexts ge ps g"
| "run_route ge clk rq ps CreateCtx g = Some (http_create_context ge clk rq g)"
| "run_route ge clk rq ps ForkCtx g = Some (http_fork_context ge clk rq g)"
| "run_route ge clk rq ps Search g = http_search ge clk ps g"
| "run_route ge clk rq ps (GetContext i) g = http_get_context ge ps i g"
| "run_route ge clk rq ps (Children i) g = http_children ge ps i g"
| "run_route ge clk rq ps (GetProvenance i) g = http_provenance ge i g"
| "run_route ge clk rq ps (AppendTurnTo i) g = Some (http_append_turn ge clk rq i g)"
| "run_route ge clk rq ps (GetTurns i) g = Some (http_get_turns ge clk ps i g)"
| "run_route ge clk rq ps GetMetrics g = Some (g, Inr (http_metrics ge g))"
| "run_route ge clk rq ps GetErrors g = Some (g, Inr (http_errors ps g))"
| "run_route ge clk rq ps (FsList i) g = http_fs_list ge ps i g"
| "run_route ge clk rq ps (FsFile i rest) g = http_fs_file ge ps i rest g"
| "run_route ge clk rq ps NoRoute g = Some (g, Inl (NotFound ''route''))"

definition dispatch :: "gateway_env \<Rightarrow> gw_clock \<Rightarrow> GwRequest \<Rightarrow> Gateway \<Rightarrow> handled_http" where
  "dispatch ge clk rq g =
     (case ge_url ge (''http://localhost'' @ gq_url rq) of
        None \<Rightarrow> Some (g, Inl (InvalidInput ''invalid url''))
      | Some (segs, query) \<Rightarrow> run_route ge clk rq (parse_query ge (or_default query)) (route_of (gq_method rq) segs) g)"

definition http_map_error :: "gateway_env \<Rightarrow> store_error \<Rightarrow> u16 \<times> string" where
  "http_map_error ge err =
     (case err of
        NotFound msg \<Rightarrow>
          if str_contains msg ''type descriptor'' then (424, msg)
          else if str_contains msg ''parent turn'' \<or> str_contains msg ''base turn'' then (409, msg)
          else (404, msg)
      | InvalidInput msg \<Rightarrow> (422, msg)
      | Corrupt msg \<Rightarrow> (500, msg)
      | Io k \<Rightarrow> (500, ge_io_msg ge k))"

text \<open>The answer with its bookkeeping.\<close>

definition finish_request :: "gateway_env \<Rightarrow> gw_clock \<Rightarrow> GwRequest \<Rightarrow> Gateway \<Rightarrow> GwReply res \<Rightarrow> Gateway \<times> GwReply" where
  "finish_request ge clk rq g result =
     (case result of
        Inr reply \<Rightarrow> (set_metrics (\<lambda>m. record_http m (gr_status reply) (gc_http clk)) g, reply)
      | Inl err \<Rightarrow>
          (case http_map_error ge err of (status, message) \<Rightarrow>
             (gw_publish [ErrorOccurred (gc_now clk) ''http'' status message (Some (gq_url rq))]
                (set_metrics (\<lambda>m. record_error (gc_now clk) (record_http m status (gc_http clk)) ''http'' status message
                   (Some (gq_url rq))) g),
              json_reply status (jobj [(''error'', jobj [(''code'', jnum status), (''message'', JStr message)])]))))"

section \<open>The event stream\<close>

text \<open>
  \<^verbatim>\<open>GET /v1/events\<close>: the response head is written by hand, then the connection subscribes to the bus and a thread
  forwards events, with a comment every 20 seconds without one.  A message is one chunk of the chunked encoding.
\<close>

definition hex_digit :: "nat \<Rightarrow> char" where
  "hex_digit d = (if d < 10 then digit_char d else char_of (87 + d))"

fun hex_str :: "nat \<Rightarrow> string" where
  "hex_str n = (if n < 16 then [hex_digit n] else hex_str (n div 16) @ [hex_digit (n mod 16)])"

declare hex_str.simps [simp del]

definition sse_head :: string where
  "sse_head = ''HTTP/1.1 200 OK'' @ [CR, LF] @ ''Content-Type: text/event-stream'' @ [CR, LF] @ ''Cache-Control: no-cache'' @ [CR, LF]
     @ ''Connection: keep-alive'' @ [CR, LF] @ ''Access-Control-Allow-Origin: *'' @ [CR, LF] @ ''Transfer-Encoding: chunked'' @ [CR, LF, CR, LF]"

definition sse_chunk :: "string \<Rightarrow> string" where
  "sse_chunk message = hex_str (length message) @ [CR, LF] @ message @ [CR, LF]"

definition write_sse_event :: "string \<Rightarrow> string \<Rightarrow> string" where
  "write_sse_event ty data = sse_chunk (''event: '' @ ty @ [LF] @ ''data: '' @ data @ [LF, LF])"

definition write_sse_heartbeat :: string where
  "write_sse_heartbeat = sse_chunk ('':heartbeat'' @ [LF, LF])"

record sse_conn =
  sc_channel :: nat
  sc_written :: string
  sc_last_heartbeat :: nat

text \<open>\<open>head_ok\<close> and \<open>hello_ok\<close>: whether the head and the first event can be written.  A thread that cannot write its
  first event ends and drops its subscription.\<close>

definition handle_sse_stream :: "bool \<Rightarrow> bool \<Rightarrow> nat \<Rightarrow> EventBus \<Rightarrow> EventBus \<times> sse_conn option" where
  "handle_sse_stream head_ok hello_ok now bus =
     (if \<not> head_ok then (bus, None)
      else
        (case subscribe bus of (bus, ch) \<Rightarrow>
          if \<not> hello_ok then (drop_subscriber bus ch, None)
          else (bus, Some \<lparr>sc_channel = ch, sc_written = sse_head @ write_sse_event ''connected'' ''{}'', sc_last_heartbeat = now\<rparr>)))"

text \<open>One round of the thread: what \<^verbatim>\<open>recv_timeout\<close> gives, the time (in milliseconds) and whether a write succeeds.
  \<open>None\<close> is the end of the thread.\<close>

definition sse_round :: "(json \<Rightarrow> string) \<Rightarrow> StoreEvent option \<Rightarrow> nat \<Rightarrow> bool \<Rightarrow> sse_conn \<Rightarrow> sse_conn option" where
  "sse_round to_string received now write_ok sc =
     (case received of
        Some event \<Rightarrow>
          let (ty, data) = to_sse to_string event
          in if \<not> write_ok then None
             else Some (sc\<lparr>sc_written := sc_written sc @ write_sse_event ty data, sc_last_heartbeat := now\<rparr>)
      | None \<Rightarrow>
          if 20000 \<le> now - sc_last_heartbeat sc then
            (if \<not> write_ok then None
             else Some (sc\<lparr>sc_written := sc_written sc @ write_sse_heartbeat, sc_last_heartbeat := now\<rparr>))
          else Some sc)"

section \<open>Requests\<close>

text \<open>Requests for the event stream are told apart before the others.  Their answer is what has been written when the
  stream starts; nothing is recorded of them.\<close>

definition wants_events :: "gateway_env \<Rightarrow> GwRequest \<Rightarrow> bool" where
  "wants_events ge rq =
     (case ge_url ge (''http://localhost'' @ gq_url rq) of
        None \<Rightarrow> False
      | Some (segs, _) \<Rightarrow> gq_method rq = ''GET'' \<and> segs = [''v1'', ''events''])"

definition event_reply :: "sse_conn option \<Rightarrow> GwReply" where
  "event_reply conn =
     \<lparr>gr_status = 200, gr_headers = [(''Content-Type'', ''text/event-stream'')],
      gr_body = RawBody (case conn of Some sc \<Rightarrow> as_bytes (sc_written sc) | None \<Rightarrow> [])\<rparr>"

definition handle_request :: "gateway_env \<Rightarrow> gw_clock \<Rightarrow> GwRequest \<Rightarrow> Gateway \<Rightarrow> (Gateway \<times> GwReply) option" where
  "handle_request ge clk rq g =
     (if wants_events ge rq then
        (case handle_sse_stream (gc_head_ok clk) (gc_hello_ok clk) (unat (gc_now clk)) (sv_bus (gw_server g)) of
           (bus, conn) \<Rightarrow> Some (g\<lparr>gw_server := (gw_server g)\<lparr>sv_bus := bus\<rparr>\<rparr>, event_reply conn))
      else map_option (\<lambda>(g, r). finish_request ge clk rq g r) (dispatch ge clk rq g))"

end
