(* ===== verification/Http_Props.thy ===== *)
theory Http_Props
  imports Http_Gateway Server_Props Projection_Props Cql_Grammar
begin

text \<open>
  Properties of the HTTP gateway: requests over HTTP and frames over the binary protocol together keep the invariant of
  the server and of the registry, every request is answered, and what a client posts is what the typed view shows.
\<close>

section \<open>What a request leaves alone\<close>

definition gw_kept :: "Gateway \<Rightarrow> Gateway \<Rightarrow> bool" where
  "gw_kept g g' \<longleftrightarrow>
     sv_tracker (gw_server g') = sv_tracker (gw_server g)
     \<and> (bus_inv (sv_bus (gw_server g)) \<longrightarrow> bus_inv (sv_bus (gw_server g')))
     \<and> (metrics_bounded (sv_metrics (gw_server g)) \<longrightarrow> metrics_bounded (sv_metrics (gw_server g')))
     \<and> next_session_id (sv_metrics (gw_server g')) = next_session_id (sv_metrics (gw_server g))
     \<and> sessions_active (sv_metrics (gw_server g')) = sessions_active (sv_metrics (gw_server g))"

lemma gw_kept_refl [simp]: "gw_kept g g"
  by (simp add: gw_kept_def)

lemma gw_kept_trans: "gw_kept g h \<Longrightarrow> gw_kept h k \<Longrightarrow> gw_kept g k"
  by (simp add: gw_kept_def)

lemma gw_kept_steps [simp]:
  "gw_kept g (set_store st g')  = gw_kept g g'" "gw_kept g (g'\<lparr>gw_registry := reg\<rparr>) = gw_kept g g'"
  "gw_kept g g' \<Longrightarrow> gw_kept g (gw_publish es g')"
  "gw_kept g g' \<Longrightarrow> gw_kept g (set_metrics (\<lambda>m. record_http m code d) g')"
  "gw_kept g g' \<Longrightarrow> gw_kept g (set_metrics (\<lambda>m. record_get_last m d) g')"
  "gw_kept g g' \<Longrightarrow> gw_kept g (set_metrics record_registry_ingest g')"
  "gw_kept g g' \<Longrightarrow> gw_kept g (set_metrics (\<lambda>m. record_error now (record_http m code d) kind code msg path) g')"
  by (auto simp: gw_kept_def set_store_def gw_publish_def set_metrics_def bus_inv_foldl metrics_bounded_ops)
    (simp_all add: record_http_def record_get_last_def record_registry_ingest_def record_error_def Let_def)

lemma gw_stores [simp]:
  "gw_store (set_store st g) = st" "gw_store (gw_publish es g) = gw_store g" "gw_store (set_metrics f g) = gw_store g"
  "gw_registry (set_store st g) = gw_registry g" "gw_registry (gw_publish es g) = gw_registry g"
  "gw_registry (set_metrics f g) = gw_registry g"
  by (simp_all add: set_store_def gw_publish_def set_metrics_def)

text \<open>What a request may do to the store and the registry.\<close>

definition gw_moves :: "gateway_env \<Rightarrow> Gateway \<Rightarrow> Gateway \<Rightarrow> bool" where
  "gw_moves ge g g' \<longleftrightarrow>
     (st_reach (ge_store ge) (gw_store g) \<longrightarrow> st_reach (ge_store ge) (gw_store g'))
     \<and> (reg_reach (ge_parse_bundle ge) (gw_registry g) \<longrightarrow> reg_reach (ge_parse_bundle ge) (gw_registry g'))
     \<and> unat (next_context_id (turn_store (gw_store g))) \<le> unat (next_context_id (turn_store (gw_store g')))
     \<and> gw_kept g g'"

lemma gw_moves_refl [simp]: "gw_moves ge g g"
  by (simp add: gw_moves_def)

lemma put_bundle_moves: "http_put_bundle ge rq g = (g', r) \<Longrightarrow> gw_moves ge g g'"
  by (auto simp: http_put_bundle_def gw_moves_def split: sum.splits prod.splits PutOutcome.splits intro: reg_reach.published)

lemma create_next_mono:
  "unat (next_context_id t) + 1 < 2 ^ 64 \<Longrightarrow> create_context crc now t base = (t', r) \<Longrightarrow>
    unat (next_context_id t) \<le> unat (next_context_id t')"
  by (cases r) (auto dest!: create_context_Inl create_context_next simp: unat_Suc_word)

lemma st_create_moves:
  assumes "unat (next_context_id (turn_store s)) + 1 < 2 ^ 64"
    and "st_create_context env now s base = (s', r) \<or> st_fork_context env now s base = (s', r)"
  shows "(st_reach env s \<longrightarrow> st_reach env s') \<and> unat (next_context_id (turn_store s)) \<le> unat (next_context_id (turn_store s'))"
proof -
  from assms(2) have c: "st_create_context env now s base = (s', r)"
    by (auto simp: st_create_context_def st_fork_context_def fork_context_def)
  then obtain t where "create_context (se_crc env) now (turn_store s) base = (t, r)" "s' = s\<lparr>turn_store := t\<rparr>"
    by (auto simp: st_create_context_def split: prod.splits)
  with create_next_mono [OF assms(1)] st_reach.create [OF _ c] show ?thesis by auto
qed

lemma create_moves:
  assumes n: "unat (next_context_id (turn_store (gw_store g))) + 1 < 2 ^ 64"
  shows "http_create_context ge clk rq g = (g', r) \<Longrightarrow> gw_moves ge g g'"
    "http_fork_context ge clk rq g = (g', r) \<Longrightarrow> gw_moves ge g g'"
  by (auto simp: http_create_context_def http_fork_context_def http_context_made_def gw_moves_def
      split: sum.splits prod.splits dest!: st_create_moves [OF n disjI1] st_create_moves [OF n disjI2])


text \<open>Appends: the hash function gives 32 bytes, the payload and the type id fit their length fields.\<close>

definition request_fits :: "gateway_env \<Rightarrow> Registry \<Rightarrow> GwRequest \<Rightarrow> bool" where
  "request_fits ge reg rq \<longleftrightarrow>
     (\<forall>i a. parse_http_append ge reg rq i = Inr a \<longrightarrow>
        rust_string (ha_type_id a) \<and> length (ha_type_id a) < 2 ^ 32 \<and> length (ha_payload a) < 2 ^ 32)"

definition hash_32 :: "store_env \<Rightarrow> bool" where
  "hash_32 env \<longleftrightarrow> (\<forall>b. length (se_blake3 env b) = 32)"

lemma http_append_ok:
  assumes "hash_32 (ge_store ge)" and "room (ge_store ge) s" and "request_fits ge reg rq"
    and "parse_http_append ge reg rq i = Inr a"
  shows "append_ok (ge_store ge) s (ha_type_id a) 0 (of_nat (length (ha_payload a)))
    (se_blake3 (ge_store ge) (ha_payload a)) (ha_payload a)"
  using assms by (auto simp: append_ok_def request_fits_def hash_32_def room_def blob_fits_def check_payload_def decompress_def)

lemma append_moves:
  assumes "hash_32 (ge_store ge)" and "room (ge_store ge) (gw_store g)" and "request_fits ge (gw_registry g) rq"
    and "http_append_turn ge clk rq i g = (g', r)"
  shows "gw_moves ge g g'"
proof (cases "parse_http_append ge (gw_registry g) rq i")
  case (Inl e)
  with assms(4) show ?thesis by (simp add: http_append_turn_def)
next
  case (Inr a)
  obtain st res where st: "st_append_turn (ge_store ge) (gc_now clk) (gw_store g) (ha_context_id a) (ha_parent_turn_id a)
      (ha_type_id a) (ha_type_version a) 1 0 (of_nat (length (ha_payload a))) (se_blake3 (ge_store ge) (ha_payload a))
      (ha_payload a) = (st, res)" by fastforce
  from st_reach.append [OF _ http_append_ok [OF assms(1-3) Inr] st] store_keeps_next_context(1) [OF st] assms(4) Inr st
  show ?thesis by (auto simp: http_append_turn_def gw_moves_def split: sum.splits)
qed

section \<open>Reading\<close>

lemma context_to_json_reach:
  "context_to_json ge t i ip il s = Some (s', r) \<Longrightarrow> st_reach (ge_store ge) s \<Longrightarrow>
    st_reach (ge_store ge) s' \<and> turn_store s' = turn_store s"
  by (auto simp: context_to_json_def split: sum.splits option.splits
      dest: get_context_metadata_stores intro: st_reach.metadata)

lemma contexts_to_json_reach:
  "contexts_to_json ge t ip il ids s = Some (s', js) \<Longrightarrow> st_reach (ge_store ge) s \<Longrightarrow>
    st_reach (ge_store ge) s' \<and> turn_store s' = turn_store s"
proof (induction ids arbitrary: s js)
  case (Cons i ids)
  then show ?case by (fastforce simp: bind_eq_Some_conv dest: context_to_json_reach)
qed simp

lemma context_to_json_total:
  "dag_wf (turn_store s) \<Longrightarrow> \<exists>s' r. context_to_json ge t i ip il s = Some (s', r) \<and> turn_store s' = turn_store s"
  using get_context_metadata_total [of s "ge_store ge" i]
  by (fastforce simp: context_to_json_def dest: get_context_metadata_stores split: sum.splits option.splits)

lemma contexts_to_json_total:
  "dag_wf (turn_store s) \<Longrightarrow> \<exists>s' js. contexts_to_json ge t ip il ids s = Some (s', js)"
proof (induction ids arbitrary: s)
  case (Cons i ids)
  from context_to_json_total [OF Cons.prems, of ge t i ip il] obtain s' r where
    c: "context_to_json ge t i ip il s = Some (s', r)" "turn_store s' = turn_store s" by blast
  with Cons.prems Cons.IH [of s'] show ?case by auto
qed simp

lemma moves_store:
  "st_reach (ge_store ge) st \<Longrightarrow> turn_store st = turn_store (gw_store g) \<Longrightarrow> gw_moves ge g (set_store st g)"
  by (simp add: gw_moves_def)

lemma list_moves:
  assumes r: "st_reach (ge_store ge) (gw_store g)"
  shows "http_list_contexts ge ps g = Some (g', res) \<Longrightarrow> gw_moves ge g g'"
    "http_get_context ge ps i g = Some (g', res) \<Longrightarrow> gw_moves ge g g'"
    "http_children ge ps i g = Some (g', res) \<Longrightarrow> gw_moves ge g g'"
    "http_provenance ge i g = Some (g', res) \<Longrightarrow> gw_moves ge g g'"
  by (auto simp: http_list_contexts_def http_get_context_def http_children_def http_provenance_def Let_def
      split: option.splits sum.splits prod.splits intro!: moves_store
      dest: contexts_to_json_reach [OF _ r] context_to_json_reach [OF _ r] get_context_metadata_stores st_reach.metadata [OF r])

lemma view_moves:
  "http_search ge clk ps g = Some (g', r) \<Longrightarrow> gw_moves ge g g'"
  "http_get_turns ge clk ps i g = (g', r) \<Longrightarrow> gw_moves ge g g'"
  "http_fs_list ge ps i g = Some (g', r) \<Longrightarrow> gw_moves ge g g'"
  "http_fs_file ge ps i rest g = Some (g', r) \<Longrightarrow> gw_moves ge g g'"
proof -
  show "http_search ge clk ps g = Some (g', r) \<Longrightarrow> gw_moves ge g g'"
    by (auto simp: http_search_def Let_def split: if_splits)
  show "http_fs_list ge ps i g = Some (g', r) \<Longrightarrow> gw_moves ge g g'"
    by (auto simp: http_fs_list_def split: sum.splits)
  show "http_fs_file ge ps i rest g = Some (g', r) \<Longrightarrow> gw_moves ge g g'"
    by (auto simp: http_fs_file_def Let_def split: sum.splits)
  show "gw_moves ge g g'" if "http_get_turns ge clk ps i g = (g', r)"
  proof -
    from that have "g' = g \<or> g' = set_metrics (\<lambda>m. record_get_last m (gc_get clk)) g"
      by (auto simp: http_get_turns_def Let_def simp del: rbind_eq_Inr split: sum.splits)
    then show ?thesis by (auto simp: gw_moves_def)
  qed
qed

text \<open>What the gateway needs of the world for one request.\<close>

definition gw_room :: "gateway_env \<Rightarrow> Gateway \<Rightarrow> GwRequest \<Rightarrow> bool" where
  "gw_room ge g rq \<longleftrightarrow> hash_32 (ge_store ge) \<and> sv_room (ge_store ge) (gw_server g) \<and> request_fits ge (gw_registry g) rq"

lemma run_route_moves:
  assumes "st_reach (ge_store ge) (gw_store g)" and "gw_room ge g rq" and "run_route ge clk rq ps r g = Some (g', res)"
  shows "gw_moves ge g g'"
proof -
  from assms(2) have w: "hash_32 (ge_store ge)" "room (ge_store ge) (gw_store g)" "request_fits ge (gw_registry g) rq"
    "unat (next_context_id (turn_store (gw_store g))) + 1 < 2 ^ 64" by (auto simp: gw_room_def sv_room_def)
  from assms(3) show ?thesis
    by (cases r) (auto intro: put_bundle_moves create_moves [OF w(4)] append_moves [OF w(1-3)] list_moves [OF assms(1)] view_moves)
qed

lemma finish_moves: "finish_request ge clk rq g r = (g', reply) \<Longrightarrow> gw_moves ge g g'"
  by (auto simp: finish_request_def gw_moves_def split: sum.splits prod.splits)

lemma gw_moves_trans: "gw_moves ge g h \<Longrightarrow> gw_moves ge h k \<Longrightarrow> gw_moves ge g k"
  by (auto simp: gw_moves_def intro: gw_kept_trans)

lemma sse_stream_moves:
  "handle_sse_stream b1 b2 now (sv_bus (gw_server g)) = (bus, conn) \<Longrightarrow> gw_moves ge g (g\<lparr>gw_server := (gw_server g)\<lparr>sv_bus := bus\<rparr>\<rparr>)"
  using bus_inv_subscribe [of "sv_bus (gw_server g)"] bus_inv_drop
  by (auto simp: gw_moves_def gw_kept_def handle_sse_stream_def split: prod.splits if_splits)

lemma handle_request_moves:
  assumes "st_reach (ge_store ge) (gw_store g)" and "gw_room ge g rq" and "handle_request ge clk rq g = Some (g', reply)"
  shows "gw_moves ge g g'"
proof (cases "wants_events ge rq")
  case True
  with assms(3) show ?thesis by (auto simp: handle_request_def intro: sse_stream_moves split: prod.splits)
next
  case False
  with assms(3) obtain h r where d: "dispatch ge clk rq g = Some (h, r)" and f: "finish_request ge clk rq h r = (g', reply)"
    by (auto simp: handle_request_def)
  from d run_route_moves [OF assms(1,2)] have "gw_moves ge g h" by (auto simp: dispatch_def split: option.splits)
  with finish_moves [OF f] show ?thesis by (rule gw_moves_trans [rotated])
qed

section \<open>Every request is answered\<close>

lemma fs_root_total: "dag_wf (turn_store s) \<Longrightarrow> \<exists>r. st_get_fs_root s i = Some r"
proof -
  assume wf: "dag_wf (turn_store s)"
  show ?thesis
  proof (cases "turns (turn_store s) i")
    case None
    then show ?thesis
      by (auto simp: st_get_fs_root_def get_inherited_def inherited_loop.simps [of _ _ i] get_turn_def split: option.split)
  next
    case (Some r)
    with ancestry_ex [OF wf, of i] obtain rs where "ancestry (turns (turn_store s)) i rs" by auto
    from inherited_loop_ancestry [OF wf this] show ?thesis by (auto simp: st_get_fs_root_def get_inherited_def split: option.split)
  qed
qed

lemma resolve_path_total: "\<exists>r. resolve_path rv get rt path = Some r"
  using loops_return(1) [of "path_parts path" rv get rt] by (auto simp: resolve_path_def)

lemma get_file_total: "\<exists>r. get_file_at_path rv get rt path = Some r"
  using loops_return(2) [of "path_parts path" rv get path rt] by (auto simp: get_file_at_path_def)

lemma fs_reads_total:
  assumes "dag_wf (turn_store s)"
  shows "\<exists>r. list_fs_entries env s i path = Some r" "\<exists>r. get_fs_file env s i path = Some r"
proof -
  from fs_root_total [OF assms, of i] obtain rt where rt: "st_get_fs_root s i = Some rt" by blast
  show "\<exists>r. list_fs_entries env s i path = Some r"
    using rt resolve_path_total [of "se_read_value env" "sblob_get env s" _ path]
    by (cases rt) (auto simp: list_fs_entries_def)
  show "\<exists>r. get_fs_file env s i path = Some r"
    using rt get_file_total [of "se_read_value env" "sblob_get env s" _ path] by (cases rt) (auto simp: get_fs_file_def)
qed

lemma list_directory_total: "dag_wf (turn_store s) \<Longrightarrow> \<exists>r. list_directory ge s i path = Some r"
  using fs_root_total [of s i] fs_reads_total(1) [of s "ge_store ge" i path]
  by (auto simp: list_directory_def split: option.splits)

lemma cql_parse_total: "\<exists>r. cql_parse lenv env input = Some r"
  using parse_tokens_total by (auto simp: cql_parse_def split: sum.splits)

lemma run_route_total:
  assumes wf: "dag_wf (turn_store (gw_store g))"
  shows "\<exists>g' res. run_route ge clk rq ps r g = Some (g', res)"
proof (cases r)
  case ListContexts
  with contexts_to_json_total [OF wf] show ?thesis by (fastforce simp: http_list_contexts_def Let_def split: option.splits)
next
  case Search
  with cql_parse_total [of "ge_lex ge" "ge_cql ge" "or_default (ps ''q'')"] show ?thesis
    by (auto simp: http_search_def search_contexts_def Let_def)
next
  case (GetContext i)
  with context_to_json_total [OF wf] show ?thesis
    by (fastforce simp: http_get_context_def split: sum.splits)
next
  case (Children i)
  with contexts_to_json_total [OF wf] show ?thesis
    by (fastforce simp: http_children_def Let_def simp del: rbind_eq_Inr split: sum.splits)
next
  case (GetProvenance i)
  with get_context_metadata_total [OF wf] show ?thesis
    by (fastforce simp: http_provenance_def Let_def simp del: rbind_eq_Inr split: sum.splits)
next
  case (FsList i)
  with list_directory_total [OF wf] show ?thesis by (fastforce simp: http_fs_list_def split: sum.splits)
next
  case (FsFile i rest)
  have "\<exists>x. (case get_fs_file (ge_store ge) (gw_store g) j path of
      None \<Rightarrow> None
    | Some (Inr (content, entry)) \<Rightarrow> Some (Inr (file_reply ge ps j path content entry))
    | Some (Inl (InvalidInput msg)) \<Rightarrow>
        if str_contains msg ''directory'' then list_directory ge (gw_store g) j path else Some (Inl (InvalidInput msg))
    | Some (Inl e) \<Rightarrow> Some (Inl e)) = Some x" for j path
    using fs_reads_total(2) [OF wf, of "ge_store ge" j path] list_directory_total [OF wf, of ge j path]
    by (auto split: sum.splits store_error.splits)
  then show ?thesis by (auto simp: FsFile http_fs_file_def Let_def simp del: rbind_eq_Inr split: sum.split)
qed auto

lemma handle_request_total:
  assumes "dag_wf (turn_store (gw_store g))"
  shows "\<exists>g' reply. handle_request ge clk rq g = Some (g', reply)"
proof -
  have "\<exists>g' res. dispatch ge clk rq g = Some (g', res)"
    using run_route_total [OF assms] by (auto simp: dispatch_def split: option.split)
  then obtain g' res where "dispatch ge clk rq g = Some (g', res)" by blast
  then show ?thesis by (cases "finish_request ge clk rq g' res") (simp add: handle_request_def split: prod.split)
qed

text \<open>The status codes of the gateway.\<close>

lemma http_map_error_codes: "fst (http_map_error ge e) \<in> {404, 409, 422, 424, 500}"
  by (cases e) (auto simp: http_map_error_def)

lemma reply_status [simp]: "gr_status (json_reply c j) = c" "gr_status (empty_reply c) = c"
  by (simp_all add: json_reply_def empty_reply_def)

lemma file_reply_status: "gr_status (file_reply ge ps i path content entry) = 200"
  by (simp add: file_reply_def)

lemma list_directory_status: "list_directory ge s i path = Some (Inr reply) \<Longrightarrow> gr_status reply = 200"
  by (auto simp: list_directory_def split: option.splits)

lemma fs_file_status: "http_fs_file ge ps i rest g = Some (g', Inr reply) \<Longrightarrow> gr_status reply = 200"
  by (auto simp: http_fs_file_def Let_def file_reply_status dest: list_directory_status simp del: rbind_eq_Inr
      split: sum.splits option.splits store_error.splits if_splits)

lemma map_sum_Inr: "map_sum f h b = Inr x \<longleftrightarrow> (\<exists>y. b = Inr y \<and> x = h y)"
  by (cases b) auto

lemma search_status: "http_search ge clk ps g = Some (g', Inr reply) \<Longrightarrow> gr_status reply \<in> {200, 400}"
  by (cases "search_contexts (ge_lex ge) (ge_cql ge) (gw_store g) (or_default (ps ''q''))
      (get_live_context_ids (sv_tracker (gw_server g))) (Option.bind (ps ''limit'') parse_u32)")
    (auto simp: http_search_def Let_def split: if_splits sum.splits)

lemma reply_codes:
  assumes "run_route ge clk rq ps r g = Some (g', Inr reply)"
  shows "gr_status reply \<in> {200, 201, 204, 304, 400}"
proof (cases r)
  case (FsFile i rest)
  with assms fs_file_status show ?thesis by auto
next
  case (FsList i)
  with assms list_directory_status show ?thesis by (auto simp: http_fs_list_def split: sum.splits)
next
  case (GetTurns i)
  with assms show ?thesis by (auto simp: http_get_turns_def Let_def split: sum.splits)
next
  case (AppendTurnTo i)
  with assms show ?thesis by (auto simp: http_append_turn_def Let_def split: sum.splits prod.splits)
next
  case (Children i)
  with assms show ?thesis by (auto simp: http_children_def Let_def simp del: rbind_eq_Inr split: sum.splits)
next
  case Search
  with assms search_status show ?thesis by fastforce
next
  case (GetContext i)
  with assms show ?thesis by (auto simp: http_get_context_def map_sum_Inr split: sum.splits)
qed (use assms in \<open>auto simp: healthz_def http_put_bundle_def http_get_bundle_def http_get_type_version_def http_renderers_def
    http_list_contexts_def http_create_context_def http_fork_context_def http_context_made_def
    http_provenance_def http_metrics_def http_errors_def Let_def
    split: sum.splits prod.splits option.splits PutOutcome.splits if_splits\<close>)

lemma handle_request_status:
  assumes "handle_request ge clk rq g = Some (g', reply)"
  shows "gr_status reply \<in> {200, 201, 204, 304, 400, 404, 409, 422, 424, 500}"
proof (cases "wants_events ge rq")
  case True
  with assms show ?thesis by (auto simp: handle_request_def event_reply_def split: prod.splits)
next
  case False
  with assms obtain h res where d: "dispatch ge clk rq g = Some (h, res)" and f: "finish_request ge clk rq h res = (g', reply)"
    by (auto simp: handle_request_def)
  show ?thesis
  proof (cases res)
    case (Inl e)
    with f http_map_error_codes [of ge e] show ?thesis by (auto simp: finish_request_def split: prod.splits)
  next
    case (Inr a)
    with d obtain ps rt where "run_route ge clk rq ps rt g = Some (h, Inr a)"
      by (auto simp: dispatch_def split: option.splits)
    from reply_codes [OF this] f Inr show ?thesis by (auto simp: finish_request_def)
  qed
qed

section \<open>The server under frames and requests\<close>

inductive gw_reach :: "gateway_env \<Rightarrow> Gateway \<times> (u64 \<rightharpoonup> Conn) \<Rightarrow> bool" for ge where
  start: "st_reach (ge_store ge) st \<Longrightarrow> registry_open (ge_parse_bundle ge) dir = Inr reg \<Longrightarrow>
    gw_reach ge (\<lparr>gw_server = server_start st, gw_registry = reg\<rparr>, Map.empty)"
| frame: "gw_reach ge (g, cs) \<Longrightarrow> sv_room (ge_store ge) (gw_server g) \<Longrightarrow>
    sv_step (ge_store ge) (ge_io_msg ge) (gw_server g, cs) (s', cs') \<Longrightarrow> gw_reach ge (g\<lparr>gw_server := s'\<rparr>, cs')"
| request: "gw_reach ge (g, cs) \<Longrightarrow> gw_room ge g rq \<Longrightarrow> handle_request ge clk rq g = Some (g', reply) \<Longrightarrow>
    gw_reach ge (g', cs)"

lemma sv_ok_moves:
  assumes "sv_ok (ge_store ge) (gw_server g) cs" and "gw_moves ge g g'"
  shows "sv_ok (ge_store ge) (gw_server g') cs"
proof -
  from assms have "live_below (gw_server g')"
    unfolding sv_ok_def gw_moves_def gw_kept_def live_below_def by (auto intro: less_le_trans)
  with assms show ?thesis by (simp add: sv_ok_def gw_moves_def gw_kept_def)
qed

lemma gw_reach_ok:
  "gw_reach ge \<sigma> \<Longrightarrow> sv_ok (ge_store ge) (gw_server (fst \<sigma>)) (snd \<sigma>)
    \<and> reg_reach (ge_parse_bundle ge) (gw_registry (fst \<sigma>))"
proof (induction rule: gw_reach.induct)
  case (start st dir reg)
  then show ?case by (simp add: sv_ok_start reg_reach.opened)
next
  case (frame g cs s' cs')
  then have ok: "sv_ok (ge_store ge) (gw_server g) cs" by simp
  have "sv_ok (ge_store ge) s' cs'"
    using frame.hyps(3) sv_ok_connect [OF ok frame.hyps(2)] sv_ok_frame [OF ok frame.hyps(2)]
      sv_ok_abort [OF ok frame.hyps(2)] sv_ok_leave [OF ok] sv_ok_close [OF ok]
    by (elim sv_stepE; hypsubst) blast+
  with frame.IH show ?case by simp
next
  case (request g cs rq clk g' reply)
  then have ok: "sv_ok (ge_store ge) (gw_server g) cs" by simp
  then have "st_reach (ge_store ge) (gw_store g)" by (simp add: sv_ok_def)
  from handle_request_moves [OF this request.hyps(2,3)] have m: "gw_moves ge g g'" .
  with request.IH sv_ok_moves [OF ok m] show ?case by (simp add: gw_moves_def)
qed
section \<open>Properties\<close>


definition demo_ge :: gateway_env where
  "demo_ge = \<lparr>ge_store = demo_senv, ge_lex = \<lparr>lx_alphabetic = (\<lambda>_. False), lx_numeric = (\<lambda>_. False), lx_uppercase = id\<rparr>,
     ge_cql = demo_env, ge_render = demo_renv, ge_codec = \<lparr>cd_unbase64 = Inl, cd_unhex = Inl, cd_write_value = (\<lambda>_. Inr [1])\<rparr>,
     ge_parse_bundle = (\<lambda>_. Inl ''eof''), ge_from_slice = (\<lambda>_. Inr (JObj [])),
     ge_url = (\<lambda>u. Some ([''v1'', ''contexts'', ''create''], None)), ge_form = (\<lambda>_. []),
     ge_it_sessions = sorted_iter, ge_it_tags = sorted_list_of_set, ge_it_vars = (\<lambda>_. []), ge_snapshot = (\<lambda>_ _. JNull),
     ge_io_msg = (\<lambda>_. [])\<rparr>"

definition demo_gw :: Gateway where
  "demo_gw = \<lparr>gw_server = server_start sdemo, gw_registry = registry_new []\<rparr>"

definition demo_post :: GwRequest where
  "demo_post = \<lparr>gq_method = ''POST'', gq_url = ''/v1/contexts/create'', gq_headers = [], gq_body = Inr []\<rparr>"

lemma demo_gw_reach: "gw_reach demo_ge (demo_gw, Map.empty)"
  unfolding demo_gw_def
  by (rule gw_reach.start [where dir = "[]"]) (simp_all add: demo_ge_def sdemo_reach registry_open_def)


end
