(* ===== verification/Http_Roundtrip.thy ===== *)
theory Http_Roundtrip
  imports Http_Encode Projection_Props
begin

text \<open>
  What is posted is what is shown: the encoding of the HTTP gateway and the typed view of the projection are inverse
  to each other on objects that fit their type.
\<close>

section \<open>Sorted lists of entries\<close>

lemma bt_put_greatest: "\<forall>k' \<in> set (map fst xs). k' < k \<Longrightarrow> bt_put k v xs = xs @ [(k, v)]"
  by (induction xs) (auto dest: less_asym)

lemma foldl_bt_put_sorted: "sorted_wrt (<) (map fst (acc @ xs)) \<Longrightarrow> foldl (\<lambda>obj (k, v). bt_put k v obj) acc xs = acc @ xs"
proof (induction xs arbitrary: acc)
  case (Cons x xs)
  obtain k v where x: "x = (k, v)" by fastforce
  with Cons.prems have "bt_put k v acc = acc @ [(k, v)]" by (intro bt_put_greatest) (auto simp: sorted_wrt_append)
  with Cons.IH [of "acc @ [x]"] Cons.prems x show ?case by simp
qed simp

lemma sorted_entries_unique:
  fixes xs ys :: "('k::linorder \<times> 'v) list"
  assumes "sorted_wrt (<) (map fst xs)" and "sorted_wrt (<) (map fst ys)" and "map_of xs = map_of ys"
  shows "xs = ys"
proof -
  have d: "distinct (map fst xs)" "distinct (map fst ys)" using assms(1,2) strict_sorted_iff by blast+
  have "map fst xs = map fst ys" using assms by (intro strict_sorted_equal) (metis dom_map_of_conv_image_fst list.set_map)+
  moreover have "map (\<lambda>k. (k, the (map_of zs k))) (map fst zs) = zs" if "distinct (map fst zs)" for zs :: "('k \<times> 'v) list"
    using that by (auto simp: comp_def intro!: map_idI)
  ultimately show ?thesis using assms(3) d by metis
qed

lemma rmap_inverse:
  assumes "\<And>x. x \<in> set xs \<Longrightarrow> \<exists>y. f x = Inr y \<and> g y = h x"
  shows "\<exists>ys. rmap f xs = Inr ys \<and> map g ys = map h xs"
  using assms
proof (induction xs)
  case (Cons x xs)
  from Cons.prems obtain y where "f x = Inr y" "g y = h x" by fastforce
  moreover from Cons obtain ys where "rmap f xs = Inr ys" "map g ys = map h xs" by fastforce
  ultimately show ?case by (intro exI [of _ "y # ys"]) simp
qed simp

section \<open>Values without a type\<close>

text \<open>A JSON value as the parser delivers it, with keys that survive being read as numbers.\<close>

definition plain_key :: "string \<Rightarrow> bool" where
  "plain_key k \<longleftrightarrow> rust_string k \<and> (case parse_u64 k of Some n \<Rightarrow> u64_str n = k | None \<Rightarrow> True)"

fun json_plain :: "json \<Rightarrow> bool" where
  "json_plain JNull = True"
| "json_plain (JBool _) = True"
| "json_plain (JInt i) = (- (2 ^ 63) \<le> i \<and> i < 2 ^ 64)"
| "json_plain (JFloat w) = f64_is_finite w"
| "json_plain (JStr s) = rust_string s"
| "json_plain (JList vs) = list_all json_plain vs"
| "json_plain (JObj ms) = (sorted_wrt (<) (map fst ms) \<and> list_all (\<lambda>(k, v). plain_key k \<and> json_plain v) ms)"

lemma map_key_value: "plain_key k \<Longrightarrow> map_key (key_value k) = k"
  by (auto simp: plain_key_def key_value_def map_key_def str_or_empty_def from_utf8_as_bytes split: option.splits)

lemma uint_of_int_u64: "0 \<le> i \<Longrightarrow> i < 2 ^ 64 \<Longrightarrow> uint (of_int i :: u64) = i"
  by (simp add: uint_word_of_int)

lemma int_roundtrip:
  assumes "- (2 ^ 63) \<le> i" and "i < 2 ^ 64" and "u64_format opts = UF_Number"
  shows "\<exists>m. json_to_msgpack_value (JInt i) = Inr m \<and> render_value env opts m = JInt i"
  using assms by (auto simp: int_as_i64_def int_as_u64_def render_value.simps render_u64_raw_def uint_of_int_u64)

lemma json_value_roundtrip:
  "json_plain v \<Longrightarrow> u64_format opts = UF_Number \<Longrightarrow>
    \<exists>m. json_to_msgpack_value v = Inr m \<and> render_value env opts m = v"
proof (induction v)
  case (JInt i)
  then show ?case by (simp add: int_roundtrip del: json_to_msgpack_value.simps)
next
  case (JFloat w)
  then show ?case by (simp add: render_value.simps json_f64_def)
next
  case (JStr s)
  then show ?case by (simp add: render_value.simps str_or_empty_def from_utf8_as_bytes)
next
  case (JList vs)
  then have "\<exists>m. json_to_msgpack_value x = Inr m \<and> render_value env opts m = id x" if "x \<in> set vs" for x
    using that by (auto simp: list_all_iff)
  from rmap_inverse [where h = id, OF this] obtain ms where "rmap json_to_msgpack_value vs = Inr ms" "map (render_value env opts) ms = vs" by auto
  then show ?case by (simp add: render_value.simps)
next
  case (JObj ms)
  let ?f = "\<lambda>key. case obj_get key ms of None \<Rightarrow> Inl (InvalidInput ''missing object key'')
    | Some value \<Rightarrow> rbind (json_to_msgpack_value value) (\<lambda>v. Inr (key_value key, v))"
  have s: "sorted_wrt (<) (map fst ms)" using JObj.prems by simp
  then have d: "sort (map fst ms) = map fst ms" "distinct (map fst ms)"
    using strict_sorted_iff sorted_sort_id by blast+
  have "\<exists>y. ?f k = Inr y \<and> (map_key (fst y), render_value env opts (snd y)) = (k, the (map_of ms k))" if k: "k \<in> set (map fst ms)" for k
  proof -
    from k obtain v where kv: "(k, v) \<in> set ms" by auto
    with d have m: "map_of ms k = Some v" by simp
    have "plain_key k" "json_plain v" using JObj.prems kv by (auto simp: list_all_iff)
    with JObj.IH [OF kv, of v] JObj.prems m map_key_value show ?thesis by (auto simp: obj_get_def)
  qed
  from rmap_inverse [where xs = "map fst ms" and f = ?f and h = "\<lambda>k. (k, the (map_of ms k))", OF this] obtain ys where ys: "rmap ?f (map fst ms) = Inr ys"
      "map (\<lambda>y. (map_key (fst y), render_value env opts (snd y))) ys = map (\<lambda>k. (k, the (map_of ms k))) (map fst ms)" by blast
  have "map (\<lambda>k. (k, the (map_of ms k))) (map fst ms) = ms" using d(2) by (auto simp: comp_def intro!: map_idI)
  moreover have "foldl (\<lambda>obj (k, v). bt_put (map_key k) (render_value env opts v) obj) [] ys =
      foldl (\<lambda>obj (k, v). bt_put k v obj) [] (map (\<lambda>y. (map_key (fst y), render_value env opts (snd y))) ys)"
    by (simp add: foldl_map case_prod_unfold)
  ultimately have "render_value env opts (MMap ys) = JObj ms"
    using foldl_bt_put_sorted [of "[]" ms] s ys(2) by (simp add: render_value.simps)
  with ys(1) d(1) show ?case by simp
qed (simp_all add: render_value.simps)

section \<open>Values of the types that do not refer to others\<close>

text \<open>What a value of a type must be for the view to show it as it was given: integers in the range that both
  directions share, bytes in the spelling that the encoder gives them.\<close>

definition plain_scalar :: "codec_env \<Rightarrow> render_env \<Rightarrow> string \<Rightarrow> json \<Rightarrow> bool" where
  "plain_scalar cd env ty v =
     (if ty = ''string'' then (case v of JStr s \<Rightarrow> rust_string s | _ \<Rightarrow> False)
      else if ty = ''bool'' then (case v of JBool _ \<Rightarrow> True | _ \<Rightarrow> False)
      else if ty \<in> {''u64'', ''uint64'', ''i64''} then (case v of JInt i \<Rightarrow> 0 \<le> i \<and> i < 2 ^ 64 | _ \<Rightarrow> False)
      else if ty \<in> {''u32'', ''uint32'', ''u8'', ''uint8'', ''int64''} then (case v of JInt i \<Rightarrow> 0 \<le> i \<and> i < 2 ^ 63 | _ \<Rightarrow> False)
      else if ty \<in> {''int32'', ''unix_ms'', ''time_ms'', ''timestamp_ms''} then (case v of JInt i \<Rightarrow> - (2 ^ 63) \<le> i \<and> i < 2 ^ 63 | _ \<Rightarrow> False)
      else if ty \<in> {''bytes'', ''typed_blob''} then
        (case v of JStr s \<Rightarrow> (case cd_unbase64 cd s of Inr b \<Rightarrow> re_base64 env b = s | Inl _ \<Rightarrow> False) | _ \<Rightarrow> False)
      else ty \<notin> {''array'', ''ref'', ''map''} \<and> json_plain v)"

definition plain_opts :: "RenderOptions \<Rightarrow> bool" where
  "plain_opts opts \<longleftrightarrow>
     u64_format opts = UF_Number \<and> enum_render opts = ER_Label \<and> time_render opts = TR_UnixMs \<and> bytes_render opts = BR_Base64"

lemma scalar_roundtrip:
  assumes "plain_scalar cd env (fs_field_type field) v" and "plain_opts opts" and "fs_enum_ref field = None"
  shows "\<exists>m. encode_value_for_type cd v (fs_field_type field) = Inr m \<and> render_field_value env reg opts field m = v"
proof -
  have o: "u64_format opts = UF_Number" "time_render opts = TR_UnixMs" "bytes_render opts = BR_Base64" using assms(2) by (simp_all add: plain_opts_def)
  have e: "render_enum reg opts field m = None" for m using assms(3) by (simp add: render_enum_def)
  show ?thesis
    using assms(1) unfolding plain_scalar_def
    by (auto simp: encode_value_for_type_def render_field_value.simps e Let_def o j_str_def j_bool_def from_utf8_as_bytes str_or_empty_def
        parse_json_u64_opt_def parse_json_i64_opt_def j_u64_def j_i64_def or_else_def int_as_i64_def int_as_u64_def int_to_u64_def
        render_u64_def render_u64_raw_def render_int_def render_time_def render_bytes_def parse_bytes_value_def uint_of_int_u64
        split: if_splits json.splits sum.splits dest!: json_value_roundtrip [OF _ o(1), of _ env])
qed

section \<open>Values with a type\<close>

text \<open>The objects and fields that fit a type: every member is a field of the type, no field that the type requires is
  missing, and a label stands for exactly one number.\<close>

inductive plain_object :: "codec_env \<Rightarrow> render_env \<Rightarrow> Registry \<Rightarrow> TypeVersionSpec \<Rightarrow> (string \<times> json) list \<Rightarrow> bool"
  and plain_field :: "codec_env \<Rightarrow> render_env \<Rightarrow> Registry \<Rightarrow> FieldSpec \<Rightarrow> json \<Rightarrow> bool"
  and plain_ref :: "codec_env \<Rightarrow> render_env \<Rightarrow> Registry \<Rightarrow> string \<Rightarrow> json \<Rightarrow> bool"
  for cd :: codec_env and env :: render_env and reg :: Registry where
  object: "sorted_wrt (<) (map fst obj) \<Longrightarrow> distinct (map fst (vs_fields desc)) \<Longrightarrow> distinct (map (fs_name \<circ> snd) (vs_fields desc)) \<Longrightarrow>
    list_all (declared desc \<circ> fst) obj \<Longrightarrow>
    \<forall>(tag, field) \<in> set (vs_fields desc). (obj_get (fs_name field) obj = None \<and> fs_optional field) \<or>
      (\<exists>v. obj_get (fs_name field) obj = Some v \<and> plain_field cd env reg field v) \<Longrightarrow>
    plain_object cd env reg desc obj"
| null: "plain_field cd env reg field JNull"
| enum_label: "fs_enum_ref field = Some r \<Longrightarrow> parse_u64 label = None \<Longrightarrow> get_enum reg r = Some m \<Longrightarrow>
    find (\<lambda>(_, v). v = label) m = Some (num_str, label) \<Longrightarrow> parse_u64 num_str = Some n \<Longrightarrow> u64_str n = num_str \<Longrightarrow>
    distinct (map fst m) \<Longrightarrow> plain_field cd env reg field (JStr label)"
| scalar: "fs_enum_ref field = None \<Longrightarrow> plain_scalar cd env (fs_field_type field) v \<Longrightarrow> plain_field cd env reg field v"
| items_simple: "fs_enum_ref field = None \<Longrightarrow> fs_field_type field = ''array'' \<Longrightarrow> fs_items field = Some (Simple ty) \<Longrightarrow>
    \<forall>v \<in> set vs. plain_scalar cd env ty v \<Longrightarrow> plain_field cd env reg field (JList vs)"
| items_ref: "fs_enum_ref field = None \<Longrightarrow> fs_field_type field = ''array'' \<Longrightarrow> fs_items field = Some (Ref t) \<Longrightarrow>
    \<forall>v \<in> set vs. plain_ref cd env reg t v \<Longrightarrow> plain_field cd env reg field (JList vs)"
| items_any: "fs_enum_ref field = None \<Longrightarrow> fs_field_type field = ''array'' \<Longrightarrow> fs_items field = None \<Longrightarrow>
    \<forall>v \<in> set vs. json_plain v \<Longrightarrow> plain_field cd env reg field (JList vs)"
| ref_typed: "fs_enum_ref field = None \<Longrightarrow> fs_field_type field = ''ref'' \<Longrightarrow> fs_type_ref field = Some t \<Longrightarrow>
    plain_ref cd env reg t v \<Longrightarrow> plain_field cd env reg field v"
| ref_any: "fs_enum_ref field = None \<Longrightarrow> fs_field_type field \<in> {''ref'', ''map''} \<Longrightarrow> fs_type_ref field = None \<Longrightarrow>
    json_plain v \<Longrightarrow> plain_field cd env reg field v"
| ref: "get_latest_type_version reg t = Some desc \<Longrightarrow> plain_object cd env reg desc obj \<Longrightarrow> plain_ref cd env reg t (JObj obj)"

lemma find_map_of: "distinct (map fst m) \<Longrightarrow> find (\<lambda>(_, v). v = label) m = Some (k, l) \<Longrightarrow> map_of m k = Some label"
  by (auto simp: find_Some_iff intro!: map_of_is_SomeI dest: nth_mem)

lemma data_members_sorted:
  "sorted_wrt (<) (map fst acc) \<Longrightarrow> sorted_wrt (<) (map fst (data_members render m fs acc))"
  unfolding data_members_def by (induction fs arbitrary: acc) (auto simp: sorted_bt_put split: option.split)

text \<open>The tags of an encoded object are those of the fields that are there.\<close>

lemma tag_map_encoded:
  assumes "distinct (map fst fs)"
  shows "map_of (tag_map (map (\<lambda>(tag, v). (MInt (uint tag), v)) fs)) = map_of fs"
proof -
  have "map_of (foldl (\<lambda>out (k, v). case tag_of_key k of Some tag \<Rightarrow> hm_put tag v out | None \<Rightarrow> out) acc
      (map (\<lambda>(tag, v). (MInt (uint tag), v)) fs)) = map_of acc ++ map_of fs" for acc
    using assms
  proof (induction fs arbitrary: acc)
    case (Cons f fs)
    obtain t v where f: "f = (t, v)" by fastforce
    with Cons.prems have "map_of fs t = None" by (auto simp: map_of_eq_None_iff)
    with Cons f show ?case by (auto simp: int_to_u64_def map_add_def split: option.splits)
  qed simp
  from this [of "[]"] show ?thesis by (simp add: tag_map_def)
qed

lemma unknown_tags_none: "fst ` set m \<subseteq> fst ` set (vs_fields d) \<Longrightarrow> unknown_tags env opts d m = []"
proof -
  have "foldl (\<lambda>unknown (tag, val). if map_of (vs_fields d) tag \<noteq> None then unknown
      else bt_put (u64_str tag) (render_value env opts val) unknown) acc m = acc" if "fst ` set m \<subseteq> fst ` set (vs_fields d)" for acc m
    using that by (induction m arbitrary: acc) (auto simp: map_of_eq_None_iff rev_image_eqI)
  then show "fst ` set m \<subseteq> fst ` set (vs_fields d) \<Longrightarrow> unknown_tags env opts d m = []" by (simp add: unknown_tags_def)
qed

definition present :: "(json \<Rightarrow> FieldSpec \<Rightarrow> mp) \<Rightarrow> (string \<times> json) list \<Rightarrow> (u64 \<times> FieldSpec) list \<Rightarrow> (u64 \<times> mp) list" where
  "present enc obj fs = concat (map (\<lambda>(tag, field). case obj_get (fs_name field) obj of Some v \<Rightarrow> [(tag, enc v field)] | None \<Rightarrow> []) fs)"

lemma set_present: "(tag, e) \<in> set (present enc obj fs) \<longleftrightarrow> (\<exists>field v. (tag, field) \<in> set fs \<and> obj_get (fs_name field) obj = Some v \<and> e = enc v field)"
  unfolding present_def by (force split: option.splits)

lemma distinct_present: "distinct (map fst fs) \<Longrightarrow> distinct (map fst (present enc obj fs))"
proof (induction fs)
  case (Cons f fs)
  have "fst ` set (present enc obj fs) \<subseteq> fst ` set fs" by (force simp: set_present)
  moreover have "present enc obj (f # fs) = (case obj_get (fs_name (snd f)) obj of Some v \<Rightarrow> [(fst f, enc v (snd f))] | None \<Rightarrow> []) @ present enc obj fs"
    by (simp add: present_def case_prod_unfold)
  ultimately show ?case using Cons by (auto split: option.splits)
qed (simp add: present_def)

lemma encode_object_present:
  assumes "\<And>tag field. (tag, field) \<in> set (vs_fields desc) \<Longrightarrow> (obj_get (fs_name field) obj = None \<and> fs_optional field) \<or>
      (\<exists>v m. obj_get (fs_name field) obj = Some v \<and> encode_field_value cd reg v field = Inr m)"
    and "list_all (declared desc \<circ> fst) obj"
  shows "encode_object_with_descriptor cd reg obj desc = Inr (MMap (map (\<lambda>(tag, v). (MInt (uint tag), v))
    (present (\<lambda>v field. projr (encode_field_value cd reg v field)) obj (tagged_fields desc))))"
proof -
  let ?f = "\<lambda>(tag, field). case obj_get (fs_name field) obj of
      Some value \<Rightarrow> rbind (encode_field_value cd reg value field) (\<lambda>v. Inr [(MInt (uint tag), v)])
    | None \<Rightarrow> if fs_optional field then Inr [] else Inl (InvalidInput (''missing required field: '' @ fs_name field))"
  let ?g = "\<lambda>(tag, field). case obj_get (fs_name field) obj of
      Some v \<Rightarrow> [(tag, projr (encode_field_value cd reg v field))] | None \<Rightarrow> []"
  let ?tagged = "map (\<lambda>(tag :: u64, v :: mp). (MInt (uint tag), v))"
  have "?f x = Inr (?tagged (?g x))" if "x \<in> set (tagged_fields desc)" for x
  proof -
    obtain tag field where x: "x = (tag, field)" by fastforce
    with that have "(tag, field) \<in> set (vs_fields desc)" by (simp add: tagged_fields_def)
    from assms(1) [OF this] show ?thesis by (auto simp: x)
  qed
  then have "rmap ?f (tagged_fields desc) = Inr (map (?tagged \<circ> ?g) (tagged_fields desc))" by (intro rmap_Inr) (simp only: comp_apply)
  moreover have "rmap (\<lambda>(key, value). if declared desc key then Inr []
      else rbind (json_to_msgpack_value value) (\<lambda>v. Inr [(key_value key, v)])) obj = Inr (map (\<lambda>_. []) obj)"
    using assms(2) by (intro rmap_Inr) (auto simp: list_all_iff)
  moreover have "concat (map (?tagged \<circ> ?g) (tagged_fields desc)) = ?tagged (concat (map ?g (tagged_fields desc)))" by (simp add: map_concat comp_def)
  moreover have "concat (map (\<lambda>_. []) obj) = ([] :: (mp \<times> mp) list)" by simp
  ultimately show ?thesis
    unfolding present_def by (subst encode_object_with_descriptor.simps) (simp only: rbind_simps append_Nil2)
qed

lemma object_roundtrip:
  assumes "sorted_wrt (<) (map fst obj)" and "distinct (map fst (vs_fields desc))" and "distinct (map (fs_name \<circ> snd) (vs_fields desc))"
    and "list_all (declared desc \<circ> fst) obj"
    and "\<And>tag field. (tag, field) \<in> set (vs_fields desc) \<Longrightarrow> (obj_get (fs_name field) obj = None \<and> fs_optional field) \<or>
      (\<exists>v m. obj_get (fs_name field) obj = Some v \<and> encode_field_value cd reg v field = Inr m \<and> render field m = v)"
  shows "\<exists>kvs. encode_object_with_descriptor cd reg obj desc = Inr (MMap kvs) \<and>
    data_members render (tag_map kvs) (vs_fields desc) [] = obj \<and> unknown_tags env opts desc (tag_map kvs) = []"
proof -
  define m where "m = present (\<lambda>v field. projr (encode_field_value cd reg v field)) obj (tagged_fields desc)"
  define kvs where "kvs = map (\<lambda>(tag, v :: mp). (MInt (uint tag), v)) m"
  have fs: "set (tagged_fields desc) = set (vs_fields desc)" by (simp add: tagged_fields_def)
  have d: "distinct (map fst m)" unfolding m_def using assms(2) by (intro distinct_present) (simp add: tagged_fields_def distinct_map)
  have tags: "map_of (tag_map kvs) = map_of m" unfolding kvs_def by (rule tag_map_encoded [OF d])
  have shown: "\<exists>e. map_of m tag = Some e \<and> render field e = v"
    if "(tag, field) \<in> set (vs_fields desc)" "obj_get (fs_name field) obj = Some v" for tag field v
  proof -
    from assms(5) [OF that(1)] that(2) obtain e where e: "encode_field_value cd reg v field = Inr e" "render field e = v" by auto
    with that have "(tag, e) \<in> set m" unfolding m_def by (auto simp: set_present fs)
    with d e(2) show ?thesis by auto
  qed
  have "map_of (data_members render (tag_map kvs) (vs_fields desc) []) name = map_of obj name" for name
  proof (cases "map_of obj name")
    case (Some v)
    then obtain tag field where "(tag, field) \<in> set (vs_fields desc)" "fs_name field = name"
      using assms(4) by (auto simp: list_all_iff declared_def list_ex_iff fs dest!: map_of_SomeD)
    with shown [of tag field v] Some data_members_field [of tag field "vs_fields desc" "tag_map kvs" _ render "[]"] assms(3) tags
    show ?thesis by (auto simp: obj_get_def)
  next
    case None
    have "fs_name field \<noteq> name" if "(tag, field) \<in> set (vs_fields desc)" "map_of m tag = Some e" for tag field e
    proof -
      from map_of_SomeD [OF that(2)] obtain field' where "(tag, field') \<in> set (vs_fields desc)" "obj_get (fs_name field') obj \<noteq> None"
        unfolding m_def by (auto simp: set_present fs)
      with that(1) assms(2) have "obj_get (fs_name field) obj \<noteq> None" by (metis eq_key_imp_eq_value)
      with None show ?thesis by (auto simp: obj_get_def)
    qed
    with None tags data_members_from [of render "tag_map kvs" "vs_fields desc" "[]" name] show ?thesis
      by (cases "map_of (data_members render (tag_map kvs) (vs_fields desc) []) name") auto
  qed
  then have "data_members render (tag_map kvs) (vs_fields desc) [] = obj"
    using assms(1) by (intro sorted_entries_unique) (auto intro!: data_members_sorted)
  moreover have "unknown_tags env opts desc (tag_map kvs) = []"
  proof (rule unknown_tags_none)
    have "fst ` set (tag_map kvs) = fst ` set m" using tags by (metis dom_map_of_conv_image_fst)
    then show "fst ` set (tag_map kvs) \<subseteq> fst ` set (vs_fields desc)" by (auto simp: m_def set_present fs rev_image_eqI)
  qed
  moreover have "encode_object_with_descriptor cd reg obj desc = Inr (MMap kvs)"
    unfolding kvs_def m_def using assms(4,5) by (intro encode_object_present) blast+
  ultimately show ?thesis by blast
qed

lemma render_null: "render_field_value env reg opts field MNil = JNull"
  by (auto simp: render_field_value.simps render_type_ref.simps render_array.simps render_enum_def Let_def render_u64_def render_int_def
      render_bytes_def render_time_def normalize_tags_def render_value.simps split: option.split)

lemma encode_field_scalar:
  assumes "encode_value_for_type cd v (fs_field_type field) = Inr m" and "fs_enum_ref field = None" and "v \<noteq> JNull"
    and "fs_field_type field \<notin> {''array'', ''ref''}"
  shows "encode_field_value cd reg v field = Inr m"
  using assms by (subst encode_field_value.simps) (auto simp: encode_enum_def encode_value_for_type_def Let_def split: if_splits)

lemma plain_scalar_type: "plain_scalar cd env ty v \<Longrightarrow> ty \<notin> {''array'', ''ref'', ''map''}"
  by (auto simp: plain_scalar_def)

lemma encode_array:
  assumes "fs_enum_ref field = None" and "fs_field_type field = ''array''"
    and "\<And>v. v \<in> set vs \<Longrightarrow> \<exists>m. (case fs_items field of Some (Simple ty) \<Rightarrow> encode_value_for_type cd v ty
      | Some (Ref t) \<Rightarrow> encode_ref_value cd reg v t | None \<Rightarrow> json_to_msgpack_value v) = Inr m \<and>
      (case fs_items field of Some (Simple ty) \<Rightarrow> render_field_value env reg opts (item_field ty) m
      | Some (Ref t) \<Rightarrow> render_type_ref env reg opts t m | None \<Rightarrow> render_value env opts m) = v"
  shows "\<exists>m. encode_field_value cd reg (JList vs) field = Inr m \<and> render_field_value env reg opts field m = JList vs"
proof -
  let ?e = "\<lambda>v. case fs_items field of Some (Simple ty) \<Rightarrow> encode_value_for_type cd v ty
      | Some (Ref t) \<Rightarrow> encode_ref_value cd reg v t | None \<Rightarrow> json_to_msgpack_value v"
  let ?r = "\<lambda>m. case fs_items field of Some (Simple ty) \<Rightarrow> render_field_value env reg opts (item_field ty) m
      | Some (Ref t) \<Rightarrow> render_type_ref env reg opts t m | None \<Rightarrow> render_value env opts m"
  from rmap_inverse [of vs ?e ?r "\<lambda>v. v"] assms(3) obtain ms where ms: "rmap ?e vs = Inr ms" "map ?r ms = vs" by auto
  have "encode_field_value cd reg (JList vs) field = Inr (MArr ms)"
    using assms(1,2) ms(1) by (subst encode_field_value.simps) (simp add: encode_enum_def j_array_def Let_def)
  moreover have "render_field_value env reg opts field (MArr ms) = JList vs"
    using assms(1,2) ms(2) by (subst render_field_value.simps) (simp add: render_enum_def render_array.simps Let_def)
  ultimately show ?thesis by blast
qed

lemma plain_roundtrip:
  assumes "plain_opts opts"
  shows "plain_object cd env reg desc obj \<Longrightarrow> \<exists>kvs. encode_object_with_descriptor cd reg obj desc = Inr (MMap kvs) \<and>
      data_members (render_field_value env reg opts) (tag_map kvs) (vs_fields desc) [] = obj \<and> unknown_tags env opts desc (tag_map kvs) = []"
    and "plain_field cd env reg field v \<Longrightarrow> \<exists>m. encode_field_value cd reg v field = Inr m \<and> render_field_value env reg opts field m = v"
    and "plain_ref cd env reg t w \<Longrightarrow> \<exists>m. encode_ref_value cd reg w t = Inr m \<and> render_type_ref env reg opts t m = w"
proof (induction rule: plain_object_plain_field_plain_ref.inducts)
  case (object obj desc)
  then show ?case by (intro object_roundtrip) fast+
next
  case (null field)
  show ?case by (simp add: encode_field_value.simps render_null)
next
  case (enum_label field r label m num_str n)
  then have "map_of m (u64_str n) = Some label" using find_map_of [of m label num_str label] by simp
  with enum_label assms show ?case
    by (subst encode_field_value.simps)
      (simp add: encode_enum_def parse_json_u64_opt_def j_str_def render_field_value.simps render_enum_def int_to_u64_def plain_opts_def)
next
  case (scalar field v)
  then have h: "fs_enum_ref field = None" "plain_scalar cd env (fs_field_type field) v" by simp_all
  show ?case
  proof (cases "v = JNull")
    case True
    then show ?thesis by (simp add: encode_field_value.simps render_null)
  next
    case False
    from scalar_roundtrip [OF h(2) assms h(1), of reg] obtain m
      where "encode_value_for_type cd v (fs_field_type field) = Inr m" "render_field_value env reg opts field m = v" by blast
    with encode_field_scalar [OF this(1) h(1) False, of reg] plain_scalar_type [OF h(2)] show ?thesis by auto
  qed
next
  case (items_simple field ty vs)
  show ?case
  proof (rule encode_array)
    fix v assume "v \<in> set vs"
    with items_simple scalar_roundtrip [of cd env "item_field ty" v opts reg] assms
    show "\<exists>m. (case fs_items field of Some (Simple ty) \<Rightarrow> encode_value_for_type cd v ty
      | Some (Ref t) \<Rightarrow> encode_ref_value cd reg v t | None \<Rightarrow> json_to_msgpack_value v) = Inr m \<and>
      (case fs_items field of Some (Simple ty) \<Rightarrow> render_field_value env reg opts (item_field ty) m
      | Some (Ref t) \<Rightarrow> render_type_ref env reg opts t m | None \<Rightarrow> render_value env opts m) = v" by (simp add: item_field_def)
  qed (use items_simple in simp_all)
next
  case (items_ref field t vs)
  then show ?case by (intro encode_array) auto
next
  case (items_any field vs)
  with assms show ?case by (intro encode_array) (auto simp: plain_opts_def intro!: json_value_roundtrip)
next
  case (ref_typed field t v)
  then have h: "fs_enum_ref field = None" "fs_field_type field = ''ref''" "fs_type_ref field = Some t" "plain_ref cd env reg t v" by simp_all
  from ref_typed obtain m where "encode_ref_value cd reg v t = Inr m" "render_type_ref env reg opts t m = v" by blast
  moreover have "v \<noteq> JNull" using h(4) by (auto elim: plain_ref.cases)
  ultimately show ?case
    using h by (simp add: encode_field_value.simps encode_enum_def Let_def render_field_value.simps render_enum_def)
next
  case (ref_any field v)
  then obtain m where "json_to_msgpack_value v = Inr m" "render_value env opts m = v"
    using json_value_roundtrip [of v opts env] assms by (auto simp: plain_opts_def)
  with ref_any render_null [of env reg opts field] show ?case
    by (cases "v = JNull") (auto simp: encode_field_value.simps encode_enum_def Let_def render_field_value.simps render_enum_def encode_value_for_type_def)
next
  case (ref t desc obj)
  then obtain kvs where "encode_object_with_descriptor cd reg obj desc = Inr (MMap kvs)"
      "data_members (render_field_value env reg opts) (tag_map kvs) (vs_fields desc) [] = obj" "unknown_tags env opts desc (tag_map kvs) = []" by blast
  with ref show ?case
    by (simp add: encode_ref_value.simps render_type_ref.simps normalize_tags_def Let_def data_members_def)
qed

section \<open>Payloads\<close>

text \<open>What a client posts is what the typed view shows: an object that fits its registered type is encoded, and the
  projection of the stored payload gives exactly that object back.  The MessagePack crate enters through
  the assumption that it reads back the value that it wrote.\<close>

lemma http_payload_roundtrip:
  assumes "get_type_version reg type_id type_version = Some desc" and "plain_object cd env reg desc obj" and "plain_opts opts"
    and "\<And>value. encode_object_with_descriptor cd reg obj desc = Inr value \<Longrightarrow>
      cd_write_value cd value = Inr payload \<and> re_read_value env payload = Inr value"
  shows "encode_http_payload cd reg (JObj obj) type_id type_version = Inr payload \<and>
    (\<exists>p. project_msgpack env payload desc reg opts = Inr p \<and> pj_data p = JObj obj)"
proof -
  from plain_roundtrip(1) [OF assms(3,2)] obtain kvs where kvs: "encode_object_with_descriptor cd reg obj desc = Inr (MMap kvs)"
      "data_members (render_field_value env reg opts) (tag_map kvs) (vs_fields desc) [] = obj" by blast
  from assms(4) [OF kvs(1)] have "cd_write_value cd (MMap kvs) = Inr payload" "re_read_value env payload = Inr (MMap kvs)" by auto
  with kvs assms(1) show ?thesis
    by (simp add: encode_http_payload_def write_msgpack_def project_msgpack_def normalize_tags_def data_members_def Let_def)
qed

text \<open>A type that refers to itself, with an enum and an optional list.\<close>

definition tree_desc :: TypeVersionSpec where
  "tree_desc =
     \<lparr>vs_version = 1,
      vs_fields = [(3, item_field ''u8''\<lparr>fs_name := ''role'', fs_enum_ref := Some ''E''\<rparr>),
        (1, item_field ''array''\<lparr>fs_name := ''kids'', fs_optional := True, fs_items := Some (Ref ''T'')\<rparr>),
        (2, item_field ''u64''\<lparr>fs_name := ''n''\<rparr>)],
      vs_renderer = None\<rparr>"

definition tree_fields :: "(string \<times> FieldDef) list" where
  "tree_fields =
     [(''3'', demo_field),
      (''1'', demo_field\<lparr>fd_name := ''kids'', fd_field_type := ''array'', fd_enum_ref := None, fd_optional := Some True,
        fd_items := Some (JObj [(''ref'', JStr ''T''), (''type'', JStr ''ref'')])\<rparr>),
      (''2'', demo_field\<lparr>fd_name := ''n'', fd_field_type := ''u64'', fd_enum_ref := None\<rparr>)]"

definition tree_parse :: parse_bundle where
  "tree_parse raw =
     Inr \<lparr>rb_registry_version = 1, rb_bundle_id = ''t'',
       rb_types = [(''T'', \<lparr>te_versions = [(''1'', \<lparr>tv_fields = tree_fields, tv_renderer = None\<rparr>)]\<rparr>)], rb_enums = [(''E'', [(''1'', ''user'')])]\<rparr>"

definition tree_dir :: "(string \<times> bytes) list" where
  "tree_dir = [(''bundle_t.json'', [1])]"

definition tree_reg :: Registry where
  "tree_reg =
     \<lparr>rg_dir = tree_dir, rg_bundles = [(''t'', [1])],
      rg_types = [(''T'', \<lparr>ty_versions = [(1, tree_desc)],
        ty_tag_schema = [(3, \<lparr>sg_field_type = ''u8'', sg_enum_ref = Some ''E''\<rparr>), (1, \<lparr>sg_field_type = ''array'', sg_enum_ref = None\<rparr>),
          (2, \<lparr>sg_field_type = ''u64'', sg_enum_ref = None\<rparr>)]\<rparr>)],
      rg_enums = [(''E'', [(''1'', ''user'')])], rg_last_bundle_id = Some ''t''\<rparr>"

lemma parse_tags: "parse_u64 ''2'' = Some 2" "parse_u64 ''3'' = Some 3"
  by (simp_all add: parse_u64_def parse_uint_def digit_val_def)

lemma tree_opened: "registry_open tree_parse tree_dir = Inr tree_reg"
proof -
  have "path_extension ''bundle_t.json'' = Some ''json''" by code_simp
  then show ?thesis
    by (simp add: registry_open_def tree_dir_def tree_parse_def tree_reg_def tree_fields_def tree_desc_def item_field_def registry_new_def
        ingest_bundle_def hm_put_def merge_version_def parse_version_def parse_one parse_tags normalize_version_def spec_or_new_def
        check_enums_def all_fields_def missing_enum_def demo_field_def field_spec_def items_spec_def obj_get_def signature_def)
qed

definition leaf_obj :: "(string \<times> json) list" where
  "leaf_obj = [(''n'', JInt 2), (''role'', JStr ''user'')]"

definition tree_obj :: "(string \<times> json) list" where
  "tree_obj = [(''kids'', JList [JObj leaf_obj]), (''n'', JInt 1), (''role'', JStr ''user'')]"

definition tree_value :: mp where
  "tree_value = MMap [(MInt 1, MArr [MMap [(MInt 2, MInt 2), (MInt 3, MInt 1)]]), (MInt 2, MInt 1), (MInt 3, MInt 1)]"

definition tree_cd :: codec_env where
  "tree_cd = \<lparr>cd_unbase64 = (\<lambda>s. Inl s), cd_unhex = (\<lambda>s. Inl s), cd_write_value = (\<lambda>v. if v = tree_value then Inr [9] else Inl [])\<rparr>"

definition tree_env :: render_env where
  "tree_env = \<lparr>re_read_value = (\<lambda>bs. if bs = [9] then Inr tree_value else Inl []), re_base64 = chars_of, re_hex = chars_of, re_rfc3339 = (\<lambda>_. None)\<rparr>"

lemma tree_reg_lookups:
  "get_type_version tree_reg ''T'' 1 = Some tree_desc" "get_latest_type_version tree_reg ''T'' = Some tree_desc"
  "get_enum tree_reg ''E'' = Some [(''1'', ''user'')]" "parse_u64 ''user'' = None" "u64_str 1 = ''1''"
proof -
  have "dec_str 1 = ''1''" by code_simp
  then show "u64_str 1 = ''1''" by (simp add: u64_str_def)
qed (simp_all add: tree_reg_def get_type_version_def get_latest_type_version_def get_enum_def last_entry_def parse_u64_def parse_uint_def digit_val_def)

lemma tree_plain: "plain_object tree_cd tree_env tree_reg tree_desc leaf_obj" "plain_object tree_cd tree_env tree_reg tree_desc tree_obj"
proof -
  have role: "plain_field tree_cd tree_env tree_reg (item_field ''u8''\<lparr>fs_name := ''role'', fs_enum_ref := Some ''E''\<rparr>) (JStr ''user'')"
    by (rule plain_object_plain_field_plain_ref.enum_label [where r = "''E''" and m = "[(''1'', ''user'')]" and num_str = "''1''" and n = 1])
      (simp_all add: item_field_def tree_reg_lookups parse_one)
  have n: "plain_field tree_cd tree_env tree_reg (item_field ''u64''\<lparr>fs_name := ''n''\<rparr>) (JInt i)" if "0 \<le> i" "i < 2 ^ 64" for i
    using that by (intro plain_object_plain_field_plain_ref.scalar) (simp_all add: item_field_def plain_scalar_def)
  show leaf: "plain_object tree_cd tree_env tree_reg tree_desc leaf_obj"
    by (rule plain_object_plain_field_plain_ref.object)
      (simp_all add: leaf_obj_def tree_desc_def declared_def tagged_fields_def item_field_def obj_get_def role [unfolded item_field_def, simplified] n [unfolded item_field_def, simplified])
  have kids: "plain_field tree_cd tree_env tree_reg (item_field ''array''\<lparr>fs_name := ''kids'', fs_optional := True, fs_items := Some (Ref ''T'')\<rparr>) (JList [JObj leaf_obj])"
    by (rule plain_object_plain_field_plain_ref.items_ref)
      (auto simp: item_field_def intro!: plain_object_plain_field_plain_ref.ref [OF tree_reg_lookups(2) leaf])
  show "plain_object tree_cd tree_env tree_reg tree_desc tree_obj"
    by (rule plain_object_plain_field_plain_ref.object)
      (simp_all add: tree_obj_def tree_desc_def declared_def tagged_fields_def item_field_def obj_get_def role [unfolded item_field_def, simplified]
        n [unfolded item_field_def, simplified] kids [unfolded item_field_def, simplified])
qed

lemma tree_encoded: "encode_object_with_descriptor tree_cd tree_reg tree_obj tree_desc = Inr tree_value"
  by (simp add: encode_object_with_descriptor.simps encode_field_value.simps encode_ref_value.simps tree_reg_lookups tree_obj_def leaf_obj_def tree_desc_def
      tree_value_def tagged_fields_def item_field_def obj_get_def declared_def encode_enum_def parse_json_u64_opt_def parse_one j_str_def
      j_array_def j_u64_def or_else_def Let_def word_le_def)

end
