(* ===== verification/Http_Shown.thy ===== *)
theory Http_Shown
  imports Http_Props Http_Roundtrip
begin

text \<open>
  The HTTP gateway end to end: what one request appends, the next request shows.
\<close>

lemma map_of_jobj: "map_of (foldl (\<lambda>obj (k, v). bt_put k v obj) acc ms) = map_of acc ++ map_of (rev ms)"
  by (induction ms arbitrary: acc) (auto simp: map_add_def fun_eq_iff split: option.splits)

lemma jget_jobj: "jget (jobj ms) k = map_of (rev ms) k"
  by (simp add: jget_def jobj_def obj_get_def map_of_jobj)

text \<open>The parameters of a request for the last turn, with numbers, labels and times as they are posted.\<close>

definition last_turn_params :: "params \<Rightarrow> bool" where
  "last_turn_params ps \<longleftrightarrow>
     plain_opts (render_options ps) \<and> ps ''limit'' = Some ''1'' \<and> ps ''before_turn_id'' = None \<and> ps ''type_hint_mode'' = None \<and>
     ps ''view'' \<in> {None, Some ''typed'', Some ''both''}"

lemma turn_json_typed:
  assumes "last_turn_params ps" and "get_type_version reg (tm_declared_type_id (tw_meta item)) (tm_declared_type_version (tw_meta item)) = Some desc"
    and "tw_payload item = Some payload" and "project_msgpack (ge_render ge) payload desc reg (render_options ps) = Inr p"
  shows "\<exists>turn. turn_json ge ps reg item = Inr turn \<and> jget turn ''data'' = Some (pj_data p) \<and>
    jget turn ''turn_id'' = Some (JInt (uint (tr_turn_id (tw_record item))))"
proof -
  have "u64_format (render_options ps) = UF_Number" using assms(1) by (simp add: last_turn_params_def plain_opts_def)
  with assms show ?thesis
    by (auto simp: turn_json_def last_turn_params_def decoded_type_def typed_members_def raw_members_def jget_jobj format_id_def opt_member_def Let_def
        split: option.splits BytesRender.splits)
qed

lemma append_head: "append_turn crc now s c p hash enc ty ver cmp len = (s', Inr r) \<Longrightarrow> \<exists>h. get_head s' c = Inr h"
  by (elim append_turn_InrE) (simp add: get_head_def)

lemma json_reply_inject [simp]: "json_reply c j = json_reply c' j' \<longleftrightarrow> c = c' \<and> j = j'"
  by (simp add: json_reply_def)


text \<open>A posted tree, on a server with one context and one bundle.\<close>

definition tree_ge :: gateway_env where
  "tree_ge = demo_ge\<lparr>ge_render := tree_env, ge_codec := tree_cd, ge_parse_bundle := tree_parse,
     ge_from_slice := (\<lambda>_. Inr (JObj [(''data'', JObj tree_obj), (''type_id'', JStr ''T''), (''type_version'', JInt 1)]))\<rparr>"

definition tree_gw :: Gateway where
  "tree_gw = \<lparr>gw_server = server_start sdemo0, gw_registry = tree_reg\<rparr>"

definition tree_rq :: GwRequest where
  "tree_rq = \<lparr>gq_method = ''POST'', gq_url = ''/v1/contexts/1/turns'', gq_headers = [], gq_body = Inr [123]\<rparr>"

definition tree_ps :: params where
  "tree_ps = [''limit'' \<mapsto> ''1'', ''time_render'' \<mapsto> ''unix_ms'']"

lemma tree_ge_sel [simp]:
  "ge_store tree_ge = demo_senv" "ge_render tree_ge = tree_env" "ge_codec tree_ge = tree_cd" "ge_parse_bundle tree_ge = tree_parse"
  by (simp_all add: tree_ge_def demo_ge_def)

lemma tree_codec: "cd_write_value tree_cd tree_value = Inr [9]" "re_read_value tree_env [9] = Inr tree_value"
  by (simp_all add: tree_cd_def tree_env_def)

lemma tree_reach: "gw_reach tree_ge (tree_gw, Map.empty)"
  unfolding tree_gw_def
  by (rule gw_reach.start [where dir = tree_dir]) (simp_all add: sdemo0_reach tree_opened)

lemma tree_body: "parse_json_body tree_ge tree_rq = Inr (JObj [(''data'', JObj tree_obj), (''type_id'', JStr ''T''), (''type_version'', JInt 1)])"
  by (simp add: parse_json_body_def read_body_def tree_rq_def tree_ge_def is_ascii_ws_def)

lemma small_version [simp]: "\<not> (4294967296 :: u64) \<le> 1"
  by (simp add: word_le_def)

definition tree_clk :: gw_clock where
  "tree_clk = \<lparr>gc_now = 200, gc_get = 1, gc_search = 0, gc_http = 0, gc_head_ok = True, gc_hello_ok = True\<rparr>"

lemma tree_parsed:
  "parse_http_append tree_ge tree_reg tree_rq ''1'' =
     Inr \<lparr>ha_context_id = 1, ha_type_id = ''T'', ha_type_version = 1, ha_parent_turn_id = 0, ha_payload = [9]\<rparr>"
  by (simp add: parse_http_append_def tree_body path_id_def parse_one get_required_string_def get_required_u32_def get_optional_u64_def
      get_str_def jget_def obj_get_def j_str_def parse_json_u64_def parse_json_u64_opt_def j_u64_def or_else_def encode_http_payload_def
      write_msgpack_def tree_encoded tree_reg_lookups(1) tree_codec(1))

lemma tree_append:
  "\<exists>g' reply. http_append_turn tree_ge tree_clk tree_rq ''1'' tree_gw = (g', Inr reply)"
  using sdemo_append by (auto simp: http_append_turn_def tree_gw_def tree_parsed server_start_def demo_blake3_def tree_clk_def)

lemma tree_room: "gw_room tree_ge tree_gw tree_rq"
proof -
  have "ha_type_id a = ''T'' \<and> ha_payload a = [9]" if "parse_http_append tree_ge tree_reg tree_rq i = Inr a" for i a
    using that by (auto simp: parse_http_append_def tree_body get_required_string_def get_str_def jget_def obj_get_def j_str_def
        get_required_u32_def parse_json_u64_def parse_json_u64_opt_def j_u64_def or_else_def encode_http_payload_def
        write_msgpack_def tree_encoded tree_reg_lookups(1) tree_codec(1))
  then have "request_fits tree_ge tree_reg tree_rq" by (auto simp: request_fits_def rust_string_T)
  moreover have "next_context_id (turn_store sdemo0) = 2"
    by (simp add: sdemo0_eq sdemo_def create_context_eq resolve_base_def ts_new_def Let_def)
  ultimately show ?thesis
    by (simp add: gw_room_def hash_32_def demo_blake3_def sv_room_def room_def tree_gw_def server_start_def demo_zdec_bounded blob0_def metrics_new_def)
qed


end
