(* ===== verification/Client_Stream.thy ===== *)
theory Client_Stream
  imports Client Rust_Str Http_Encode
begin

text \<open>
  Subscribing to the events of a server (\<^verbatim>\<open>clients/rust/src/subscribe.rs\<close>) and decoding them
  (\<^verbatim>\<open>sse_decode.rs\<close>, \<^verbatim>\<open>events.rs\<close>).

  The body of a response is the list of its bytes and how it ends; whether the request is cancelled or past its deadline is
  asked once per line and is an argument.  The HTTP client, JSON text, the texts of I/O errors and the quoting of
  \<^verbatim>\<open>{:?}\<close> are the record \<open>stream_env\<close>.
\<close>

record stream_env =
  sn_from_slice :: "bytes \<Rightarrow> string + json"
  sn_io_msg :: "io_kind \<Rightarrow> string"
  sn_debug :: "string \<Rightarrow> string"

section \<open>Errors and options\<close>

datatype SubscribeErrorKind = SE_Cancelled | SE_Timeout | SE_Eof | SE_Other

record SubscribeError =
  su_kind :: SubscribeErrorKind
  su_detail :: string

definition su_cancelled :: SubscribeError where
  "su_cancelled = \<lparr>su_kind = SE_Cancelled, su_detail = ''context canceled''\<rparr>"

definition su_timeout :: SubscribeError where
  "su_timeout = \<lparr>su_kind = SE_Timeout, su_detail = ''context deadline exceeded''\<rparr>"

definition su_eof :: SubscribeError where
  "su_eof = \<lparr>su_kind = SE_Eof, su_detail = ''cxdb subscribe: stream closed''\<rparr>"

definition su_other :: "string \<Rightarrow> SubscribeError" where
  "su_other detail = \<lparr>su_kind = SE_Other, su_detail = detail\<rparr>"

record SubscribeOptions =
  so_max_event_bytes :: nat
  so_event_buffer :: nat
  so_error_buffer :: nat
  so_retry_delay :: nat
  so_max_retry_delay :: nat

text \<open>Durations are milliseconds.\<close>

definition SUB_RETRY_DELAY :: nat where "SUB_RETRY_DELAY = 500"

definition subscribe_defaults :: SubscribeOptions where
  "subscribe_defaults =
     \<lparr>so_max_event_bytes = 2 * 1024 * 1024, so_event_buffer = 128, so_error_buffer = 8, so_retry_delay = SUB_RETRY_DELAY,
      so_max_retry_delay = 10000\<rparr>"

definition with_max_event_bytes :: "nat \<Rightarrow> SubscribeOptions \<Rightarrow> SubscribeOptions" where
  "with_max_event_bytes n opts = opts\<lparr>so_max_event_bytes := n\<rparr>"

definition with_event_buffer :: "nat \<Rightarrow> SubscribeOptions \<Rightarrow> SubscribeOptions" where
  "with_event_buffer n opts = opts\<lparr>so_event_buffer := n\<rparr>"

definition with_error_buffer :: "nat \<Rightarrow> SubscribeOptions \<Rightarrow> SubscribeOptions" where
  "with_error_buffer n opts = opts\<lparr>so_error_buffer := n\<rparr>"

definition with_subscribe_retry_delay :: "nat \<Rightarrow> SubscribeOptions \<Rightarrow> SubscribeOptions" where
  "with_subscribe_retry_delay d opts = opts\<lparr>so_retry_delay := d\<rparr>"

definition with_subscribe_max_retry_delay :: "nat \<Rightarrow> SubscribeOptions \<Rightarrow> SubscribeOptions" where
  "with_subscribe_max_retry_delay d opts = opts\<lparr>so_max_retry_delay := d\<rparr>"

datatype CtxStatus = Ctx_Cancelled | Ctx_Timeout

fun su_of_status :: "CtxStatus \<Rightarrow> SubscribeError" where
  "su_of_status Ctx_Cancelled = su_cancelled"
| "su_of_status Ctx_Timeout = su_timeout"

definition ctx_status :: "nat \<Rightarrow> RequestContext \<Rightarrow> CtxStatus option" where
  "ctx_status now ctx =
     (if rc_cancelled ctx then Some Ctx_Cancelled
      else case rc_deadline ctx of
        Some deadline \<Rightarrow> if deadline \<le> now then Some Ctx_Timeout else None
      | None \<Rightarrow> None)"

section \<open>Events of a stream\<close>

record Event =
  ev_type :: string
  ev_data :: bytes
  ev_id :: string

record sse_state =
  ss_event_type :: string
  ss_data_lines :: "string list"
  ss_last_id :: string
  ss_data_size :: nat

definition reset_state :: sse_state where
  "reset_state = \<lparr>ss_event_type = [], ss_data_lines = [], ss_last_id = [], ss_data_size = 0\<rparr>"

type_synonym 's emit = "Event \<Rightarrow> 's \<Rightarrow> 's \<times> (SubscribeError + unit)"

definition flush_event :: "'s emit \<Rightarrow> sse_state \<Rightarrow> 's \<Rightarrow> sse_state \<times> 's \<times> (SubscribeError + unit)" where
  "flush_event emit ss s =
     (if ss_data_lines ss = [] \<and> ss_event_type ss = [] \<and> ss_last_id ss = [] then (reset_state, s, Inr ())
      else
        let data = join [LF] (ss_data_lines ss)
        in if data = [] then (reset_state, s, Inr ())
           else
             let ty = (if ss_event_type ss = [] then ''message'' else ss_event_type ss)
             in case emit \<lparr>ev_type = ty, ev_data = as_bytes data, ev_id = ss_last_id ss\<rparr> s of
                  (s, Inl e) \<Rightarrow> (ss\<lparr>ss_event_type := ty\<rparr>, s, Inl e)
                | (s, Inr _) \<Rightarrow> (reset_state, s, Inr ()))"

text \<open>\<^verbatim>\<open>split_once\<close> at an ASCII character.\<close>

definition split_once :: "char \<Rightarrow> string \<Rightarrow> (string \<times> string) option" where
  "split_once c s = (if c \<in> set s then Some (takeWhile (\<lambda>x. x \<noteq> c) s, tl (dropWhile (\<lambda>x. x \<noteq> c) s)) else None)"

text \<open>One line without its line end that is neither empty nor a comment.\<close>

definition stream_field :: "stream_env \<Rightarrow> nat \<Rightarrow> string \<Rightarrow> sse_state \<Rightarrow> SubscribeError + sse_state" where
  "stream_field sn max_event_bytes line ss =
     (let (field, value) = (case split_once (CHR '':'') line of Some (f, v) \<Rightarrow> (f, v) | None \<Rightarrow> (line, []))
      in if field = [] \<or> CHR '' '' \<in> set field \<or> char_of (9 :: nat) \<in> set field then
           Inl (su_other (''cxdb subscribe: malformed field '' @ sn_debug sn field))
         else
           let value = (case strip_prefix value '' '' of Some v \<Rightarrow> v | None \<Rightarrow> value)
           in if field = ''event'' then Inr (ss\<lparr>ss_event_type := value\<rparr>)
              else if field = ''data'' then
                (let size = ss_data_size ss + length value
                 in if 0 < max_event_bytes \<and> max_event_bytes < size then
                      Inl (su_other (''cxdb subscribe: event exceeds max size ('' @ dec_str size @ '' bytes)''))
                    else Inr (ss\<lparr>ss_data_lines := ss_data_lines ss @ [value], ss_data_size := size\<rparr>))
              else if field = ''id'' then Inr (ss\<lparr>ss_last_id := value\<rparr>)
              else Inr ss)"

text \<open>\<open>eof\<close>: the line ended without a line feed.\<close>

definition stream_line ::
    "stream_env \<Rightarrow> nat \<Rightarrow> 's emit \<Rightarrow> string \<Rightarrow> bool \<Rightarrow> sse_state \<Rightarrow> 's \<Rightarrow> sse_state \<times> 's \<times> (SubscribeError + unit)" where
  "stream_line sn max_event_bytes emit line eof ss s =
     (let stop = (\<lambda>(ss, s, r). (ss, s, case r of Inl e \<Rightarrow> Inl e | Inr _ \<Rightarrow> if eof then Inl su_eof else Inr ()))
      in if line = [] then stop (flush_event emit ss s)
         else if hd line = CHR '':'' then stop (ss, s, Inr ())
         else
           case stream_field sn max_event_bytes line ss of
             Inl e \<Rightarrow> (ss, s, Inl e)
           | Inr ss \<Rightarrow> if eof then stop (flush_event emit ss s) else (ss, s, Inr ()))"

definition trim_line_end :: "string \<Rightarrow> string" where
  "trim_line_end s = rev (dropWhile (\<lambda>c. c = CR \<or> c = LF) (rev s))"

text \<open>\<^verbatim>\<open>read_line\<close>: up to and with the next line feed.\<close>

definition line_bytes :: "bytes \<Rightarrow> bytes \<times> bytes" where
  "line_bytes bs =
     (let l = takeWhile (\<lambda>b. b \<noteq> 10) bs; rest = dropWhile (\<lambda>b. b \<noteq> 10) bs
      in (l @ take 1 rest, drop 1 rest))"

lemma line_bytes_append: "line_bytes bs = (l, rest) \<Longrightarrow> bs = l @ rest"
  by (auto simp: line_bytes_def Let_def)

lemma line_bytes_less: "line_bytes bs = (l, rest) \<Longrightarrow> l \<noteq> [] \<Longrightarrow> length rest < length bs"
  by (auto dest: line_bytes_append)

definition read_failed :: "stream_env \<Rightarrow> io_kind \<Rightarrow> SubscribeError" where
  "read_failed sn k = su_other (''cxdb subscribe: read error: '' @ sn_io_msg sn k)"

text \<open>\<open>status n\<close> is the state of the request before the \<open>n\<close>th line; \<open>ending\<close> is \<open>None\<close> for the end of the body
  and an error otherwise.  A line that is not UTF-8 is an error of the reader.\<close>

function read_event_stream ::
    "stream_env \<Rightarrow> nat \<Rightarrow> 's emit \<Rightarrow> (nat \<Rightarrow> CtxStatus option) \<Rightarrow> io_kind option \<Rightarrow> nat \<Rightarrow> bytes \<Rightarrow> sse_state \<Rightarrow> 's
     \<Rightarrow> 's \<times> SubscribeError" where
  "read_event_stream sn max_event_bytes emit status ending n bs ss s =
     (case status n of
        Some st \<Rightarrow> (s, su_of_status st)
      | None \<Rightarrow>
     (case line_bytes bs of (line, rest) \<Rightarrow>
       if rest = [] \<and> (line = [] \<or> last line \<noteq> 10) \<and> ending \<noteq> None then (s, read_failed sn (the ending))
       else if line = [] then (s, su_eof)
       else
         case from_utf8 line of
           None \<Rightarrow> (s, read_failed sn OtherIo)
         | Some str \<Rightarrow>
             (case stream_line sn max_event_bytes emit (trim_line_end str) (last line \<noteq> 10) ss s of
                (ss, s, Inl e) \<Rightarrow> (s, e)
              | (ss, s, Inr _) \<Rightarrow> read_event_stream sn max_event_bytes emit status ending (Suc n) rest ss s)))"
  by pat_completeness auto
termination
  by (relation "measure (\<lambda>(sn, max_event_bytes, emit, status, ending, n, bs, ss, s). length bs)")
    (auto intro: line_bytes_less [OF sym])

declare read_event_stream.simps [simp del]

section \<open>Subscribing\<close>

text \<open>Handing an event to the consumer: one round per attempt of \<^verbatim>\<open>send_timeout\<close>, with the state of the request before it.
  \<open>None\<close> is a consumer that never takes it.\<close>

datatype send_result = Sent | SendTimeout | Disconnected

fun send_event :: "(CtxStatus option \<times> send_result) list \<Rightarrow> (SubscribeError + unit) option" where
  "send_event [] = None"
| "send_event ((st, r) # rounds) =
     (case st of
        Some status \<Rightarrow> Some (Inl (su_of_status status))
      | None \<Rightarrow>
          (case r of
             Sent \<Rightarrow> Some (Inr ())
           | SendTimeout \<Rightarrow> send_event rounds
           | Disconnected \<Rightarrow> Some (Inl (su_other ''cxdb subscribe: event channel closed''))))"

datatype ureq_result = UR_Ok u16 bytes "io_kind option" | UR_Status u16 bytes | UR_Transport string

definition read_body_snippet :: "bytes \<Rightarrow> nat \<Rightarrow> string" where
  "read_body_snippet body limit = from_utf8_lossy (take limit body)"

definition unexpected_status :: "u16 \<Rightarrow> bytes \<Rightarrow> SubscribeError" where
  "unexpected_status code body =
     su_other (''cxdb subscribe: unexpected status '' @ dec_str (unat code) @ '': '' @ trim (read_body_snippet body 1024))"

definition subscribe_once ::
    "stream_env \<Rightarrow> SubscribeOptions \<Rightarrow> 's emit \<Rightarrow> (nat \<Rightarrow> CtxStatus option) \<Rightarrow> ureq_result \<Rightarrow> 's \<Rightarrow> 's \<times> SubscribeError" where
  "subscribe_once sn opts emit status response s =
     (case response of
        UR_Status code body \<Rightarrow> (s, unexpected_status code body)
      | UR_Transport err \<Rightarrow> (s, su_other (''cxdb subscribe: request failed: '' @ err))
      | UR_Ok code body ending \<Rightarrow>
          if code \<noteq> 200 then (s, unexpected_status code body)
          else read_event_stream sn (so_max_event_bytes opts) emit status ending 0 body reset_state s)"

definition next_retry_delay :: "nat \<Rightarrow> nat \<Rightarrow> nat" where
  "next_retry_delay current m =
     (if current = 0 then SUB_RETRY_DELAY
      else if 0 < m \<and> m < current * 2 then m else current * 2)"

text \<open>A full buffer loses the value.\<close>

definition non_blocking_send :: "nat \<Rightarrow> 'a list \<Rightarrow> 'a \<Rightarrow> 'a list" where
  "non_blocking_send capacity buffered value = (if length buffered < capacity then buffered @ [value] else buffered)"

text \<open>\<open>status k\<close> is the state of the request before the \<open>k\<close>th nap of 50 milliseconds.\<close>

function sub_sleep :: "(nat \<Rightarrow> CtxStatus option) \<Rightarrow> nat \<Rightarrow> nat \<Rightarrow> bool" where
  "sub_sleep status k delay =
     (if delay = 0 then True
      else if status k \<noteq> None then False
      else sub_sleep status (Suc k) (delay - (if 50 < delay then 50 else delay)))"
  by pat_completeness auto
termination
  by (relation "measure (\<lambda>(status, k, delay). delay)") auto

declare sub_sleep.simps [simp del]

record sub_worker =
  sw_retry_delay :: nat
  sw_errors :: "SubscribeError list"

definition current_delay :: "SubscribeOptions \<Rightarrow> nat \<Rightarrow> nat" where
  "current_delay opts d =
     (let d = (if d = 0 then SUB_RETRY_DELAY else d)
      in if 0 < so_max_retry_delay opts \<and> so_max_retry_delay opts < d then so_max_retry_delay opts else d)"

text \<open>One round of the thread: the state of the request before and after the connection, how the connection ended, and the
  state of the request during the sleep.  \<open>None\<close> is the end of the thread.\<close>

definition subscribe_round ::
    "SubscribeOptions \<Rightarrow> CtxStatus option \<Rightarrow> SubscribeError \<Rightarrow> CtxStatus option \<Rightarrow> (nat \<Rightarrow> CtxStatus option) \<Rightarrow> sub_worker
     \<Rightarrow> sub_worker \<times> bool" where
  "subscribe_round opts before err after napping w =
     (if before \<noteq> None then (w, False)
      else
        let w = (if su_kind err = SE_Cancelled then w
                 else w\<lparr>sw_errors := non_blocking_send (so_error_buffer opts) (sw_errors w) err\<rparr>)
        in if su_kind err = SE_Cancelled \<or> su_kind err = SE_Timeout then (w, False)
           else if after \<noteq> None then (w, False)
           else
             let d = current_delay opts (sw_retry_delay w)
             in if \<not> sub_sleep napping 0 d then (w\<lparr>sw_retry_delay := d\<rparr>, False)
                else (w\<lparr>sw_retry_delay := next_retry_delay d (so_max_retry_delay opts)\<rparr>, True))"

definition subscribe_start :: "SubscribeOptions \<Rightarrow> string \<Rightarrow> sub_worker \<times> bool" where
  "subscribe_start opts url =
     (if trim url = [] then
        (\<lparr>sw_retry_delay = so_retry_delay opts,
          sw_errors = non_blocking_send (so_error_buffer opts) [] (su_other ''cxdb subscribe: url is required'')\<rparr>, False)
      else (\<lparr>sw_retry_delay = so_retry_delay opts, sw_errors = []\<rparr>, True))"

section \<open>Decoding\<close>

text \<open>What the visitors of \<^verbatim>\<open>sse_decode.rs\<close> accept; the flag that a value was given is never read.\<close>

definition parse_u64_str :: "string \<Rightarrow> u64 option" where
  "parse_u64_str value = (let t = trim value in if t = [] then Some 0 else parse_u64 t)"

definition parse_i64_str :: "string \<Rightarrow> int option" where
  "parse_i64_str value = (let t = trim value in if t = [] then Some 0 else parse_i64 t)"

definition sse_uint64 :: "json \<Rightarrow> u64 option" where
  "sse_uint64 v =
     (case v of JInt i \<Rightarrow> int_as_u64 i | JStr s \<Rightarrow> parse_u64_str s | JNull \<Rightarrow> Some 0 | _ \<Rightarrow> None)"

definition sse_uint32 :: "json \<Rightarrow> u32 option" where
  "sse_uint32 v = Option.bind (sse_uint64 v) (\<lambda>n. if n < 2 ^ 32 then Some (ucast n) else None)"

definition sse_int64 :: "json \<Rightarrow> int option" where
  "sse_int64 v =
     (case v of JInt i \<Rightarrow> int_as_i64 i | JStr s \<Rightarrow> parse_i64_str s | JNull \<Rightarrow> Some 0 | _ \<Rightarrow> None)"

text \<open>\<^verbatim>\<open>derive(Deserialize)\<close> on a struct whose fields have defaults: an object, or a list of the fields in order.\<close>

datatype decode_error = DE_Json string | DE_Shape | DE_Field string

definition struct_members :: "string list \<Rightarrow> json \<Rightarrow> decode_error + (string \<times> json) list" where
  "struct_members names v =
     (case v of
        JObj ms \<Rightarrow> if distinct (filter (\<lambda>k. k \<in> set names) (map fst ms)) then Inr ms else Inl DE_Shape
      | JList vs \<Rightarrow> if length vs \<le> length names then Inr (zip names vs) else Inl DE_Shape
      | _ \<Rightarrow> Inl DE_Shape)"

definition member_or :: "'a \<Rightarrow> (json \<Rightarrow> 'a option) \<Rightarrow> string \<Rightarrow> (string \<times> json) list \<Rightarrow> decode_error + 'a" where
  "member_or d f k ms = (case map_of ms k of None \<Rightarrow> Inr d | Some v \<Rightarrow> ok_or (DE_Field k) (f v))"

definition de_opt :: "(json \<Rightarrow> 'a option) \<Rightarrow> json \<Rightarrow> 'a option option" where
  "de_opt f v = (if v = JNull then Some None else map_option Some (f v))"

definition de_strings :: "json \<Rightarrow> string list option" where
  "de_strings v = Option.bind (j_array v) (\<lambda>vs. if list_all (\<lambda>x. j_str x \<noteq> None) vs then Some (map (the \<circ> j_str) vs) else None)"

definition decode_struct :: "stream_env \<Rightarrow> string list \<Rightarrow> bytes \<Rightarrow> decode_error + (string \<times> json) list" where
  "decode_struct sn names data = rbind (map_sum DE_Json id (sn_from_slice sn data)) (struct_members names)"

record ContextCreatedEvent =
  cce_context_id :: u64
  cce_session_id :: string
  cce_client_tag :: string
  cce_created_at :: int

record ContextMetadataUpdatedEvent =
  cme_context_id :: u64
  cme_has_provenance :: bool
  cme_client_tag :: string
  cme_title :: string
  cme_labels :: "string list"

record TurnAppendedEvent =
  tae_context_id :: u64
  tae_turn_id :: u64
  tae_parent_turn_id :: u64
  tae_depth :: u32
  tae_declared_type_id :: string
  tae_declared_type_version :: u32
  tae_has_declared_type_id :: bool
  tae_has_declared_type_ver :: bool

record ClientConnectedEvent =
  cne_session_id :: string
  cne_client_tag :: string

record ClientDisconnectedEvent =
  cde_session_id :: string
  cde_client_tag :: string
  cde_contexts :: "string list"

definition decode_context_created :: "stream_env \<Rightarrow> bytes \<Rightarrow> decode_error + ContextCreatedEvent" where
  "decode_context_created sn data =
     rbind (decode_struct sn [''context_id'', ''session_id'', ''client_tag'', ''created_at''] data) (\<lambda>ms.
     rbind (member_or 0 sse_uint64 ''context_id'' ms) (\<lambda>context_id.
     rbind (member_or [] j_str ''session_id'' ms) (\<lambda>session_id.
     rbind (member_or [] j_str ''client_tag'' ms) (\<lambda>client_tag.
     rbind (member_or 0 sse_int64 ''created_at'' ms) (\<lambda>created_at.
     Inr \<lparr>cce_context_id = context_id, cce_session_id = session_id, cce_client_tag = client_tag, cce_created_at = created_at\<rparr>)))))"

definition decode_context_metadata_updated :: "stream_env \<Rightarrow> bytes \<Rightarrow> decode_error + ContextMetadataUpdatedEvent" where
  "decode_context_metadata_updated sn data =
     rbind (decode_struct sn [''context_id'', ''has_provenance'', ''client_tag'', ''title'', ''labels''] data) (\<lambda>ms.
     rbind (member_or 0 sse_uint64 ''context_id'' ms) (\<lambda>context_id.
     rbind (member_or False j_bool ''has_provenance'' ms) (\<lambda>has_provenance.
     rbind (member_or [] j_str ''client_tag'' ms) (\<lambda>client_tag.
     rbind (member_or [] j_str ''title'' ms) (\<lambda>title.
     rbind (member_or [] de_strings ''labels'' ms) (\<lambda>labels.
     Inr \<lparr>cme_context_id = context_id, cme_has_provenance = has_provenance, cme_client_tag = client_tag, cme_title = title,
          cme_labels = labels\<rparr>))))))"

definition decode_turn_appended :: "stream_env \<Rightarrow> bytes \<Rightarrow> decode_error + TurnAppendedEvent" where
  "decode_turn_appended sn data =
     rbind (decode_struct sn [''context_id'', ''turn_id'', ''parent_turn_id'', ''depth'', ''declared_type_id'', ''declared_type_version''] data) (\<lambda>ms.
     rbind (member_or 0 sse_uint64 ''context_id'' ms) (\<lambda>context_id.
     rbind (member_or 0 sse_uint64 ''turn_id'' ms) (\<lambda>turn_id.
     rbind (member_or 0 sse_uint64 ''parent_turn_id'' ms) (\<lambda>parent_turn_id.
     rbind (member_or 0 sse_uint32 ''depth'' ms) (\<lambda>depth.
     rbind (member_or None (de_opt j_str) ''declared_type_id'' ms) (\<lambda>type_id.
     rbind (member_or None (de_opt sse_uint32) ''declared_type_version'' ms) (\<lambda>ver.
     let declared_type_id = or_default type_id
     in Inr \<lparr>tae_context_id = context_id, tae_turn_id = turn_id, tae_parent_turn_id = parent_turn_id, tae_depth = depth,
             tae_declared_type_id = declared_type_id, tae_declared_type_version = (case ver of Some v \<Rightarrow> v | None \<Rightarrow> 0),
             tae_has_declared_type_id = (declared_type_id \<noteq> []), tae_has_declared_type_ver = (ver \<noteq> None)\<rparr>)))))))"

definition decode_client_connected :: "stream_env \<Rightarrow> bytes \<Rightarrow> decode_error + ClientConnectedEvent" where
  "decode_client_connected sn data =
     rbind (decode_struct sn [''session_id'', ''client_tag''] data) (\<lambda>ms.
     rbind (member_or [] j_str ''session_id'' ms) (\<lambda>session_id.
     rbind (member_or [] j_str ''client_tag'' ms) (\<lambda>client_tag.
     Inr \<lparr>cne_session_id = session_id, cne_client_tag = client_tag\<rparr>)))"

definition decode_client_disconnected :: "stream_env \<Rightarrow> bytes \<Rightarrow> decode_error + ClientDisconnectedEvent" where
  "decode_client_disconnected sn data =
     rbind (decode_struct sn [''session_id'', ''client_tag'', ''contexts''] data) (\<lambda>ms.
     rbind (member_or [] j_str ''session_id'' ms) (\<lambda>session_id.
     rbind (member_or [] j_str ''client_tag'' ms) (\<lambda>client_tag.
     rbind (member_or [] de_strings ''contexts'' ms) (\<lambda>contexts.
     Inr \<lparr>cde_session_id = session_id, cde_client_tag = client_tag, cde_contexts = contexts\<rparr>))))"

section \<open>Numbers as text\<close>

lemma rust_chars_ascii: "(\<And>c. c \<in> set s \<Longrightarrow> (of_char c :: nat) < 128) \<Longrightarrow> rust_chars s = map (\<lambda>c. [c]) s"
proof (induction s)
  case (Cons c s)
  then have "next_char (c # s) = Some ([c], s)" by (simp add: next_char_def utf8_len_def)
  with Cons show ?case by (subst rust_chars.simps) simp
qed simp

lemma trim_digits:
  assumes "\<And>c. c \<in> set s \<Longrightarrow> 48 \<le> (of_char c :: nat) \<and> (of_char c :: nat) \<le> 57"
  shows "trim s = s"
proof -
  have chars: "rust_chars s = map (\<lambda>c. [c]) s" using assms by (intro rust_chars_ascii) fastforce
  have nows: "\<not> is_whitespace [c]" if "c \<in> set s" for c using assms [OF that] by (auto simp: is_whitespace_def code1_def)
  then have "dropWhile is_whitespace (rust_chars s) = rust_chars s" "dropWhile is_whitespace (rev (rust_chars s)) = rev (rust_chars s)"
    unfolding chars by (auto simp: dropWhile_eq_self_iff hd_map hd_rev rev_map dest: hd_in_set last_in_set)
  then show ?thesis by (simp add: trim_def trim_start_def trim_end_def)
qed

lemma parse_u64_str_dec [simp]: "parse_u64_str (dec_str (unat (n :: u64))) = Some n"
  using trim_digits [OF digits_ascii] by (simp add: parse_u64_str_def Let_def)

end
