(* ===== verification/Client_Follow.thy ===== *)
theory Client_Follow
  imports Client_Stream
begin

text \<open>
  Following the turns of contexts (\<^verbatim>\<open>clients/rust/src/follow.rs\<close>): events say which context has changed, the turns are
  fetched over the binary protocol.

  The trait \<^verbatim>\<open>TurnClient\<close> is the record \<open>turn_client\<close> of what its two calls return at one moment; handing a turn to the
  consumer may fail, which is an argument.  A \<^verbatim>\<open>HashSet\<close> is a set, the deque of the turns seen a list, oldest first.
\<close>

datatype FollowError = FE_Cancelled | FE_Timeout | FE_Decode string | FE_Client client_error | FE_Other string

record turn_client =
  tc_get_head :: "u64 \<Rightarrow> ClientContextHead cres"
  tc_get_last :: "u64 \<Rightarrow> u32 \<Rightarrow> ClientTurnRecord list cres"

record FollowOptions =
  fo_buffer_size :: nat
  fo_max_seen_per_context :: nat

definition MAX_SEEN_PER_CONTEXT :: nat where "MAX_SEEN_PER_CONTEXT = 2048"

definition follow_defaults :: FollowOptions where
  "follow_defaults = \<lparr>fo_buffer_size = 128, fo_max_seen_per_context = MAX_SEEN_PER_CONTEXT\<rparr>"

definition with_follow_buffer :: "nat \<Rightarrow> FollowOptions \<Rightarrow> FollowOptions" where
  "with_follow_buffer n opts = opts\<lparr>fo_buffer_size := n\<rparr>"

definition with_max_seen_per_context :: "nat \<Rightarrow> FollowOptions \<Rightarrow> FollowOptions" where
  "with_max_seen_per_context n opts = opts\<lparr>fo_max_seen_per_context := n\<rparr>"

record FollowTurn =
  ft_context_id :: u64
  ft_turn :: ClientTurnRecord

record FollowState =
  fw_has_last :: bool
  fw_last_seen_turn_id :: u64
  fw_last_seen_depth :: u32
  fw_seen :: "u64 set"
  fw_seen_order :: "u64 list"
  fw_max_seen :: nat

definition follow_state_new :: "nat \<Rightarrow> FollowState" where
  "follow_state_new max_seen =
     \<lparr>fw_has_last = False, fw_last_seen_turn_id = 0, fw_last_seen_depth = 0, fw_seen = {}, fw_seen_order = [],
      fw_max_seen = (if max_seen = 0 then MAX_SEEN_PER_CONTEXT else max_seen)\<rparr>"

definition seen_turn :: "FollowState \<Rightarrow> u64 \<Rightarrow> bool" where
  "seen_turn st turn_id \<longleftrightarrow> turn_id \<in> fw_seen st"

fun evict :: "nat \<Rightarrow> u64 set \<Rightarrow> u64 list \<Rightarrow> u64 set \<times> u64 list" where
  "evict max_seen seen [] = (seen, [])"
| "evict max_seen seen (oldest # order) =
     (if max_seen < length (oldest # order) then evict max_seen (seen - {oldest}) order else (seen, oldest # order))"

definition record_turn :: "FollowState \<Rightarrow> ClientTurnRecord \<Rightarrow> FollowState" where
  "record_turn st turn =
     (case evict (fw_max_seen st) (insert (ct_turn_id turn) (fw_seen st)) (fw_seen_order st @ [ct_turn_id turn]) of
        (seen, order) \<Rightarrow>
          let st = st\<lparr>fw_seen := seen, fw_seen_order := order\<rparr>
          in if \<not> fw_has_last st \<or> fw_last_seen_depth st \<le> ct_depth turn
             then st\<lparr>fw_last_seen_depth := ct_depth turn, fw_last_seen_turn_id := ct_turn_id turn, fw_has_last := True\<rparr>
             else st)"

text \<open>\<^verbatim>\<open>send_follow_turn\<close>: one round per attempt, as for events.\<close>

fun send_follow_turn :: "(CtxStatus option \<times> send_result) list \<Rightarrow> (FollowError + unit) option" where
  "send_follow_turn [] = None"
| "send_follow_turn ((st, r) # rounds) =
     (case st of
        Some Ctx_Cancelled \<Rightarrow> Some (Inl FE_Cancelled)
      | Some Ctx_Timeout \<Rightarrow> Some (Inl FE_Timeout)
      | None \<Rightarrow>
          (case r of
             Sent \<Rightarrow> Some (Inr ())
           | SendTimeout \<Rightarrow> send_follow_turn rounds
           | Disconnected \<Rightarrow> Some (Inl (FE_Other ''follow turns: output channel closed''))))"

text \<open>The turns handed on, in order, and the state after them; \<open>send\<close> says how each hand-over ends.\<close>

fun emit_turns ::
    "(ClientTurnRecord \<Rightarrow> FollowError + unit) \<Rightarrow> u64 \<Rightarrow> ClientTurnRecord list \<Rightarrow> FollowState
     \<Rightarrow> FollowState \<times> FollowTurn list \<times> (FollowError + unit)" where
  "emit_turns send context_id [] st = (st, [], Inr ())"
| "emit_turns send context_id (turn # ts) st =
     (if seen_turn st (ct_turn_id turn) then emit_turns send context_id ts st
      else
        (case send turn of
           Inl e \<Rightarrow> (st, [], Inl e)
         | Inr _ \<Rightarrow>
             (case emit_turns send context_id ts (record_turn st turn) of
                (st, out, r) \<Rightarrow> (st, \<lparr>ft_context_id = context_id, ft_turn = turn\<rparr> # out, r))))"

definition missing_turns :: "FollowState \<Rightarrow> u32 \<Rightarrow> u32" where
  "missing_turns st head_depth =
     (if fw_has_last st \<and> fw_seen st \<noteq> {} then (if head_depth < fw_last_seen_depth st then 0 else head_depth - fw_last_seen_depth st)
      else head_depth + 1)"

definition sync_context ::
    "turn_client \<Rightarrow> (ClientTurnRecord \<Rightarrow> FollowError + unit) \<Rightarrow> u64 \<Rightarrow> FollowState
     \<Rightarrow> FollowState \<times> FollowTurn list \<times> (FollowError + unit)" where
  "sync_context tc send context_id st =
     (case tc_get_head tc context_id of
        Inl e \<Rightarrow> (st, [], Inl (FE_Client e))
      | Inr head \<Rightarrow>
          if fw_has_last st \<and> cc_head_depth head < fw_last_seen_depth st then
            (st, [], Inl (FE_Other (''follow turns: head depth regressed (context '' @ dec_str (unat context_id) @ '')'')))
          else if missing_turns st (cc_head_depth head) = 0 then (st, [], Inr ())
          else
            (case tc_get_last tc context_id (missing_turns st (cc_head_depth head)) of
               Inl e \<Rightarrow> (st, [], Inl (FE_Client e))
             | Inr ts \<Rightarrow> emit_turns send context_id ts st))"

definition decode_turn_appended_event :: "stream_env \<Rightarrow> (decode_error \<Rightarrow> string) \<Rightarrow> bytes \<Rightarrow> FollowError + TurnAppendedEvent" where
  "decode_turn_appended_event sn msg data =
     (if data = [] then Inl (FE_Decode ''turn_appended: empty payload'')
      else
        rbind (map_sum (\<lambda>e. FE_Decode (''turn_appended: decode: '' @ msg e)) id (decode_turn_appended sn data)) (\<lambda>event.
          if tae_context_id event = 0 then Inl (FE_Decode ''turn_appended: missing context_id'')
          else if tae_turn_id event = 0 then Inl (FE_Decode ''turn_appended: missing turn_id'')
          else Inr event))"

section \<open>The thread\<close>

record follower =
  fl_states :: "u64 \<rightharpoonup> FollowState"
  fl_out :: "FollowTurn list"
  fl_errors :: "FollowError list"

definition follower_new :: follower where
  "follower_new = \<lparr>fl_states = Map.empty, fl_out = [], fl_errors = []\<rparr>"

text \<open>One event.  \<open>fl_out\<close> is all that was handed on.\<close>

definition follow_event ::
    "stream_env \<Rightarrow> (decode_error \<Rightarrow> string) \<Rightarrow> FollowOptions \<Rightarrow> turn_client \<Rightarrow> (ClientTurnRecord \<Rightarrow> FollowError + unit) \<Rightarrow> Event \<Rightarrow> follower \<Rightarrow> follower" where
  "follow_event sn msg opts tc send ev f =
     (if ev_type ev \<noteq> ''turn_appended'' then f
      else
        (case decode_turn_appended_event sn msg (ev_data ev) of
           Inl err \<Rightarrow> f\<lparr>fl_errors := non_blocking_send (fo_buffer_size opts) (fl_errors f) err\<rparr>
         | Inr turn_event \<Rightarrow>
             let c = tae_context_id turn_event;
                 st = (case fl_states f c of Some st \<Rightarrow> st | None \<Rightarrow> follow_state_new (fo_max_seen_per_context opts))
             in (case sync_context tc send c st of
                   (st, out, r) \<Rightarrow>
                     f\<lparr>fl_states := (fl_states f)(c \<mapsto> st), fl_out := fl_out f @ out,
                       fl_errors := (case r of
                           Inl err \<Rightarrow> non_blocking_send (fo_buffer_size opts) (fl_errors f) err
                         | Inr _ \<Rightarrow> fl_errors f)\<rparr>)))"

text \<open>The events in turn, each with the calls and the hand-overs as they go at that moment.\<close>

definition follow_turns ::
    "stream_env \<Rightarrow> (decode_error \<Rightarrow> string) \<Rightarrow> FollowOptions
     \<Rightarrow> (turn_client \<times> (ClientTurnRecord \<Rightarrow> FollowError + unit) \<times> Event) list \<Rightarrow> follower" where
  "follow_turns sn msg opts rounds =
     foldl (\<lambda>f (tc, send, ev). follow_event sn msg opts tc send ev f) follower_new rounds"

end
