(* ===== verification/Stream_Props.thy ===== *)
theory Stream_Props
  imports Client_Follow Http_Gateway
begin

text \<open>
  The event stream between server and client: the client reads what the server wrote, event by event, and the decoders
  give back what was published.
\<close>

section \<open>Lines\<close>

lemma utf8_valid_append: "utf8_valid xs \<Longrightarrow> utf8_valid ys \<Longrightarrow> utf8_valid (xs @ ys)"
proof (induction xs rule: utf8_valid.induct)
  case (2 a bs)
  consider (one) "a < 0x80" | (two) "\<not> a < 0x80" "0xC2 \<le> a \<and> a \<le> 0xDF"
    | (three) "\<not> a < 0x80" "\<not> (0xC2 \<le> a \<and> a \<le> 0xDF)" "0xE0 \<le> a \<and> a \<le> 0xEF"
    | (four) "\<not> a < 0x80" "\<not> (0xC2 \<le> a \<and> a \<le> 0xDF)" "\<not> (0xE0 \<le> a \<and> a \<le> 0xEF)" "0xF0 \<le> a \<and> a \<le> 0xF4"
    using "2.prems"(1) unfolding utf8_valid.simps(2) by presburger
  note lead = this and valid = "2.prems"(1) [unfolded utf8_valid.simps(2) [of a bs]]
  show ?case
    unfolding append_Cons
    using lead
  proof cases
    case one
    with valid "2.IH"(1) "2.prems"(2) show "utf8_valid (a # bs @ ys)" by (subst utf8_valid.simps(2)) (simp del: utf8_valid.simps(2))
  next
    case two
    with valid obtain b r where "bs = b # r" "utf8_cont b" "utf8_valid r" by (cases bs) (auto simp del: utf8_valid.simps(2))
    with two "2.IH"(2) [of b r] "2.prems"(2) show "utf8_valid (a # bs @ ys)" by (subst utf8_valid.simps(2)) (simp del: utf8_valid.simps(2))
  next
    case three
    with valid obtain b c r where "bs = b # c # r" "utf8_valid r" "utf8_cont b" "utf8_cont c" "a = 0xE0 \<longrightarrow> 0xA0 \<le> b" "a = 0xED \<longrightarrow> b \<le> 0x9F"
      by (auto split: list.splits simp del: utf8_valid.simps(2))
    with three "2.IH"(3) [of b "c # r" c r] "2.prems"(2) show "utf8_valid (a # bs @ ys)"
      by (subst utf8_valid.simps(2)) (auto simp del: utf8_valid.simps(2))
  next
    case four
    with valid obtain b c d r where "bs = b # c # d # r" "utf8_valid r" "utf8_cont b" "utf8_cont c" "utf8_cont d"
        "a = 0xF0 \<longrightarrow> 0x90 \<le> b" "a = 0xF4 \<longrightarrow> b \<le> 0x8F"
      by (auto split: list.splits simp del: utf8_valid.simps(2))
    with four "2.IH"(4) [of b "c # d # r" c "d # r" d r] "2.prems"(2) show "utf8_valid (a # bs @ ys)"
      by (subst utf8_valid.simps(2)) (auto simp del: utf8_valid.simps(2))
  qed
qed simp

lemma as_bytes_append [simp]: "as_bytes (s @ t) = as_bytes s @ as_bytes t"
  by (simp add: as_bytes_def)

lemma rust_string_append: "rust_string s \<Longrightarrow> rust_string t \<Longrightarrow> rust_string (s @ t)"
  by (simp add: rust_string_def utf8_valid_append)

lemma as_bytes_LF [simp]: "as_bytes [LF] = [10]" "as_bytes [] = []"
  by (simp_all add: as_bytes_def as_byte_def LF_def)

lemma as_byte_LF: "as_byte c = 10 \<longleftrightarrow> c = LF"
  by (metis as_byte_def LF_def char_of_as_byte of_char_of unat_of_nat as_bytes_LF(1) as_bytes_def list.simps(9) list.inject)

lemma LF_as_bytes: "10 \<in> set (as_bytes l) \<longleftrightarrow> LF \<in> set l"
  by (auto simp: as_bytes_def as_byte_LF dest: sym)

lemma line_bytes_line: "LF \<notin> set l \<Longrightarrow> line_bytes (as_bytes l @ 10 # rest) = (as_bytes l @ [10], rest)"
proof -
  assume "LF \<notin> set l"
  then have "\<forall>b \<in> set (as_bytes l). b \<noteq> 10" using LF_as_bytes by metis
  then show ?thesis by (simp add: line_bytes_def Let_def takeWhile_append2 dropWhile_append2)
qed

lemma trim_line_end_line: "LF \<notin> set l \<Longrightarrow> CR \<notin> set l \<Longrightarrow> trim_line_end (l @ [LF]) = l"
  by (cases "rev l") (auto simp: trim_line_end_def)

definition plain_line :: "string \<Rightarrow> bool" where
  "plain_line l \<longleftrightarrow> rust_string l \<and> LF \<notin> set l \<and> CR \<notin> set l"

lemma read_line_step:
  assumes "plain_line l"
  shows "read_event_stream sn mx emit (\<lambda>_. None) ending n (as_bytes l @ 10 # rest) ss s =
    (case stream_line sn mx emit l False ss s of
       (ss, s, Inl e) \<Rightarrow> (s, e)
     | (ss, s, Inr _) \<Rightarrow> read_event_stream sn mx emit (\<lambda>_. None) ending (Suc n) rest ss s)"
proof -
  have "rust_string (l @ [LF])"
    using assms by (intro rust_string_append) (auto simp: plain_line_def rust_string_def)
  then have "from_utf8 (as_bytes l @ [10]) = Some (l @ [LF])" using from_utf8_as_bytes [of "l @ [LF]"] by simp
  with assms show ?thesis
    by (subst read_event_stream.simps) (simp add: plain_line_def line_bytes_line trim_line_end_line)
qed

section \<open>Messages\<close>

text \<open>What the server writes, message by message: an event with its data, or a heartbeat.\<close>

definition message_of :: "(string \<times> string) option \<Rightarrow> string" where
  "message_of x =
     (case x of
        Some (ty, data) \<Rightarrow> ''event: '' @ ty @ [LF] @ ''data: '' @ data @ [LF, LF]
      | None \<Rightarrow> '':heartbeat'' @ [LF, LF])"

definition client_event :: "string \<times> string \<Rightarrow> Event" where
  "client_event x = \<lparr>ev_type = fst x, ev_data = as_bytes (snd x), ev_id = []\<rparr>"

definition collect :: "Event list emit" where
  "collect e s = (s @ [e], Inr ())"

text \<open>What the client can take: one line of type, one line of data, within the limit.\<close>

definition readable :: "nat \<Rightarrow> string \<times> string \<Rightarrow> bool" where
  "readable mx x \<longleftrightarrow>
     plain_line (fst x) \<and> fst x \<noteq> [] \<and> plain_line (snd x) \<and> snd x \<noteq> [] \<and> (0 < mx \<longrightarrow> length (snd x) \<le> mx)"

lemma plain_line_prefix: "list_all (\<lambda>c. of_char c < (128 :: nat) \<and> c \<noteq> LF \<and> c \<noteq> CR) p \<Longrightarrow> plain_line l \<Longrightarrow> plain_line (p @ l)"
proof -
  assume p: "list_all (\<lambda>c. of_char c < (128 :: nat) \<and> c \<noteq> LF \<and> c \<noteq> CR) p" and l: "plain_line l"
  have "of_nat n < (0x80 :: byte)" if "n < 128" for n using that by (simp add: word_less_nat_alt unat_of_nat)
  with p have "rust_string p" by (auto simp: rust_string_def as_bytes_def as_byte_def list_all_iff intro!: utf8_valid_ascii)
  with p l show ?thesis by (auto simp: plain_line_def list_all_iff intro: rust_string_append)
qed

lemma split_field: "c \<notin> set f \<Longrightarrow> split_once c (f @ c # v) = Some (f, v)"
proof -
  assume "c \<notin> set f"
  then have "takeWhile (\<lambda>x. x \<noteq> c) (f @ c # v) = f" "dropWhile (\<lambda>x. x \<noteq> c) (f @ c # v) = c # v" by (induction f) auto
  then show ?thesis by (simp add: split_once_def)
qed

lemma control_chars: "LF = CHR 0x0A" "CR = CHR 0x0D" "char_of (9 :: nat) = CHR 0x09"
  unfolding LF_def CR_def by code_simp+

lemma event_line: "stream_line sn mx collect (''event: '' @ ty) False ss s = (ss\<lparr>ss_event_type := ty\<rparr>, s, Inr ())"
  using split_field [of "CHR '':''" "''event''" "'' '' @ ty"]
  by (simp add: stream_line_def stream_field_def strip_prefix_def Let_def control_chars)

lemma data_line:
  "(0 < mx \<longrightarrow> ss_data_size ss + length d \<le> mx) \<Longrightarrow> stream_line sn mx collect (''data: '' @ d) False ss s =
    (ss\<lparr>ss_data_lines := ss_data_lines ss @ [d], ss_data_size := ss_data_size ss + length d\<rparr>, s, Inr ())"
  using split_field [of "CHR '':''" "''data''" "'' '' @ d"]
  by (auto simp: stream_line_def stream_field_def strip_prefix_def Let_def control_chars)

lemma blank_line:
  "stream_line sn mx collect [] False ss s = (case flush_event collect ss s of (ss, s, r) \<Rightarrow> (ss, s, case r of Inl e \<Rightarrow> Inl e | Inr _ \<Rightarrow> Inr ()))"
  by (simp add: stream_line_def)

lemma flush_one:
  "ty \<noteq> [] \<Longrightarrow> d \<noteq> [] \<Longrightarrow> flush_event collect \<lparr>ss_event_type = ty, ss_data_lines = [d], ss_last_id = [], ss_data_size = k\<rparr> s =
    (reset_state, s @ [client_event (ty, d)], Inr ())"
  by (simp add: flush_event_def collect_def client_event_def Let_def)

lemma read_message:
  assumes "\<And>y. x = Some y \<Longrightarrow> readable mx y"
  shows "\<exists>n'. read_event_stream sn mx collect (\<lambda>_. None) ending n (as_bytes (message_of x) @ rest) reset_state s =
    read_event_stream sn mx collect (\<lambda>_. None) ending n' rest reset_state (s @ (case x of Some y \<Rightarrow> [client_event y] | None \<Rightarrow> []))"
proof (cases x)
  case None
  have h: "plain_line '':heartbeat''" using plain_line_prefix [of "'':heartbeat''" "[]"] by (simp add: control_chars plain_line_def rust_string_def)
  have e: "plain_line []" by (simp add: plain_line_def rust_string_def)
  have m: "as_bytes (message_of None) @ rest = as_bytes '':heartbeat'' @ 10 # as_bytes [] @ 10 # rest"
    by (simp add: message_of_def as_bytes_def as_byte_def LF_def)
  have "read_event_stream sn mx collect (\<lambda>_. None) ending n (as_bytes (message_of x) @ rest) reset_state s =
      read_event_stream sn mx collect (\<lambda>_. None) ending (Suc (Suc n)) rest reset_state s"
    unfolding None m read_line_step [OF h]
    by (simp add: stream_line_def Let_def read_line_step [OF e, simplified] flush_event_def reset_state_def)
  with None show ?thesis by auto
next
  case (Some y)
  obtain ty d where y: "y = (ty, d)" by fastforce
  with Some assms have r: "readable mx (ty, d)" by simp
  have t: "plain_line (''event: '' @ ty)" and dl: "plain_line (''data: '' @ d)" and e: "plain_line []"
    using r plain_line_prefix [of "''event: ''" ty] plain_line_prefix [of "''data: ''" d]
    by (simp_all add: readable_def control_chars) (simp add: plain_line_def rust_string_def)
  have m: "as_bytes (message_of x) @ rest = as_bytes (''event: '' @ ty) @ 10 # as_bytes (''data: '' @ d) @ 10 # as_bytes [] @ 10 # rest"
    by (simp add: Some y message_of_def as_bytes_def as_byte_def LF_def)
  have "read_event_stream sn mx collect (\<lambda>_. None) ending n (as_bytes (message_of x) @ rest) reset_state s =
      read_event_stream sn mx collect (\<lambda>_. None) ending (Suc (Suc (Suc n))) rest reset_state (s @ [client_event (ty, d)])"
  proof -
    have ne: "ty \<noteq> []" "d \<noteq> []" "0 < mx \<longrightarrow> length d \<le> mx" using r by (auto simp: readable_def)
    show ?thesis
      unfolding m read_line_step [OF t] event_line prod.case sum.case read_line_step [OF dl]
      by (simp add: reset_state_def data_line ne(3) read_line_step [OF e, simplified] blank_line flush_one [OF ne(1,2)] del: append.simps(2))
  qed
  with Some y show ?thesis by auto
qed

lemma read_messages:
  assumes "\<And>y. Some y \<in> set xs \<Longrightarrow> readable mx y"
  shows "read_event_stream sn mx collect (\<lambda>_. None) None n (as_bytes (concat (map message_of xs))) reset_state s =
    (s @ map client_event (List.map_filter id xs), su_eof)"
  using assms
proof (induction xs arbitrary: n s)
  case Nil
  show ?case by (subst read_event_stream.simps) (simp add: line_bytes_def map_filter_def)
next
  case (Cons x xs)
  from read_message [of x mx sn None n "as_bytes (concat (map message_of xs))" s] Cons
  show ?case by (auto simp: map_filter_def split: option.splits)
qed

section \<open>The server's side\<close>

text \<open>The rounds of the thread that forwards events, while its writes succeed: what each receives, and the time.\<close>

definition sse_thread :: "(json \<Rightarrow> string) \<Rightarrow> (StoreEvent option \<times> nat) list \<Rightarrow> sse_conn \<Rightarrow> sse_conn option" where
  "sse_thread to_string rounds sc =
     foldl (\<lambda>sc (received, now). Option.bind sc (sse_round to_string received now True)) (Some sc) rounds"

lemma sse_round_written:
  "\<exists>sc' ms. sse_round to_string received now True sc = Some sc' \<and>
    sc_written sc' = sc_written sc @ concat (map (sse_chunk \<circ> message_of) ms) \<and>
    List.map_filter id ms = (case received of Some e \<Rightarrow> [to_sse to_string e] | None \<Rightarrow> [])"
proof (cases received)
  case None
  then show ?thesis
    by (cases "20000 \<le> now - sc_last_heartbeat sc")
      (auto simp: sse_round_def write_sse_heartbeat_def message_of_def map_filter_def
        intro: exI [of _ "[None]"] exI [of _ "[]"])
next
  case (Some e)
  obtain ty d where "to_sse to_string e = (ty, d)" by fastforce
  with Some show ?thesis
    by (auto simp: sse_round_def write_sse_event_def message_of_def map_filter_def intro: exI [of _ "[Some (ty, d)]"])
qed

lemma sse_thread_written:
  "\<exists>sc' ms. sse_thread to_string rounds sc = Some sc' \<and>
    sc_written sc' = sc_written sc @ concat (map (sse_chunk \<circ> message_of) ms) \<and>
    List.map_filter id ms = map (to_sse to_string) (List.map_filter fst rounds)"
proof (induction rounds arbitrary: sc)
  case Nil
  show ?case by (intro exI [of _ "[]"] exI [of _ sc]) (simp add: sse_thread_def map_filter_def)
next
  case (Cons r rounds)
  obtain received now where r: "r = (received, now)" by fastforce
  obtain sc1 ms1 where 1: "sse_round to_string received now True sc = Some sc1"
      "sc_written sc1 = sc_written sc @ concat (map (sse_chunk \<circ> message_of) ms1)"
      "List.map_filter id ms1 = (case received of Some e \<Rightarrow> [to_sse to_string e] | None \<Rightarrow> [])"
    using sse_round_written by blast
  obtain sc2 ms2 where 2: "sse_thread to_string rounds sc1 = Some sc2"
      "sc_written sc2 = sc_written sc1 @ concat (map (sse_chunk \<circ> message_of) ms2)"
      "List.map_filter id ms2 = map (to_sse to_string) (List.map_filter fst rounds)"
    using Cons by blast
  have "List.map_filter id (ms1 @ ms2) = map (to_sse to_string) (List.map_filter fst (r # rounds))"
    using 1(3) 2(3) r by (simp add: map_filter_def split: option.splits)
  moreover have "sse_thread to_string (r # rounds) sc = Some sc2" using 1(1) 2(1) r by (simp add: sse_thread_def)
  ultimately show ?case using 1(2) 2(2) by (intro exI [of _ sc2] exI [of _ "ms1 @ ms2"]) (simp add: comp_def id_def)
qed

text \<open>The chunked encoding is undone by the HTTP client; this is what it has to do, with a decoder that does it.\<close>

definition unchunks :: "(string \<Rightarrow> string) \<Rightarrow> bool" where
  "unchunks f \<longleftrightarrow> (\<forall>ms. f (concat (map sse_chunk ms)) = concat ms)"

definition hex_val :: "string \<Rightarrow> nat" where
  "hex_val = foldl (\<lambda>v c. v * 16 + (let n = of_char c in if n < 58 then n - 48 else n - 87)) 0"

function dechunk :: "string \<Rightarrow> string" where
  "dechunk s =
     (if s = [] then []
      else
        let size = takeWhile (\<lambda>c. c \<noteq> CR) s; rest = drop (length size + 2) s; n = hex_val size
        in take n rest @ dechunk (drop (n + 2) rest))"
  by pat_completeness auto
termination
  by (relation "measure length") (auto simp: Let_def)

declare dechunk.simps [simp del]

lemma hex_digit_val: "d < 16 \<Longrightarrow> (let n = of_char (hex_digit d) in if n < 58 then n - 48 else n - 87) = d"
  by (auto simp: hex_digit_def digit_char_def Let_def)

lemma hex_val_hex_str: "hex_val (hex_str n) = n"
proof (induction n rule: hex_str.induct)
  case (1 n)
  show ?case
  proof (cases "n < 16")
    case True
    then show ?thesis using hex_digit_val [OF True] by (subst hex_str.simps) (simp add: hex_val_def)
  next
    case False
    with 1 have "hex_val (hex_str (n div 16)) = n div 16" by simp
    then show ?thesis using False hex_digit_val [of "n mod 16"] by (subst hex_str.simps) (simp add: hex_val_def)
  qed
qed

lemma hex_digit_CR: "d < 16 \<Longrightarrow> hex_digit d \<noteq> CR"
  by (auto simp: hex_digit_def digit_char_def CR_def dest!: arg_cong [of _ _ "of_char :: char \<Rightarrow> nat"])

lemma hex_str_CR: "CR \<notin> set (hex_str n)"
proof (induction n rule: hex_str.induct)
  case (1 n)
  then show ?case using hex_digit_CR [of n] hex_digit_CR [of "n mod 16"] by (subst hex_str.simps) (auto dest: sym)
qed

lemma dechunk_chunk: "dechunk (sse_chunk m @ rest) = m @ dechunk rest"
proof -
  have "takeWhile (\<lambda>c. c \<noteq> CR) (hex_str (length m) @ CR # x) = hex_str (length m)" for x
    using hex_str_CR [of "length m"] by (subst takeWhile_append2) auto
  moreover have "sse_chunk m @ rest = hex_str (length m) @ CR # LF # m @ [CR, LF] @ rest" "sse_chunk m \<noteq> []" by (simp_all add: sse_chunk_def)
  ultimately show ?thesis by (subst dechunk.simps) (simp add: hex_val_hex_str Let_def)
qed

lemma dechunk_unchunks: "unchunks dechunk"
proof -
  have "dechunk (concat (map sse_chunk ms)) = concat ms" for ms
    by (induction ms) (simp_all add: dechunk_chunk dechunk.simps [of "[]"])
  then show ?thesis by (simp add: unchunks_def)
qed

section \<open>Properties\<close>


text \<open>What the server publishes of an append is what the client decodes: the ids, which travel as decimal text, the
  depth, and the declared type, given that the client's JSON parser reads what the server's printer writes.\<close>

theorem turn_event_roundtrip:
  assumes "sn_from_slice sn (as_bytes (to_string (event_data e))) = Inr (event_data e)" and "c \<noteq> 0" and "t \<noteq> 0" and "to_string (event_data e) \<noteq> []"
    and "e = TurnAppended (id_str c) (id_str t) (id_str p) d ty ver"
  shows "decode_turn_appended_event sn msg (ev_data (client_event (to_sse to_string e))) =
    Inr \<lparr>tae_context_id = c, tae_turn_id = t, tae_parent_turn_id = p, tae_depth = d, tae_declared_type_id = or_default ty,
        tae_declared_type_version = (case ver of Some v \<Rightarrow> v | None \<Rightarrow> 0),
        tae_has_declared_type_id = (or_default ty \<noteq> []), tae_has_declared_type_ver = (ver \<noteq> None)\<rparr>"
proof -
  have n: "sse_uint32 (JInt (uint (w :: u32))) = Some w" for w
  proof -
    have "uint (ucast w :: u64) = uint w" by (simp add: unsigned_ucast_eq take_bit_word_eq_self flip: unsigned_take_bit_eq)
    moreover have "ucast (ucast w :: u64) = w" by (rule bit_word_eqI) (simp add: bit_simps)
    ultimately show ?thesis using uint_bounded [of w] by (simp add: sse_uint32_def sse_uint64_def int_as_u64_def word_less_def)
  qed
  from assms(1-4) n show ?thesis
    unfolding assms(5)
    by (cases ty; cases ver)
      (simp_all add: decode_turn_appended_event_def client_event_def to_sse_def decode_turn_appended_def decode_struct_def
        struct_members_def opt_member_def member_or_def sse_uint64_def id_str_def de_opt_def j_str_def or_default_def Let_def as_bytes_def)
qed


theorem turn_event_roundtrip_witness:
  "\<exists>e. decode_turn_appended_event \<lparr>sn_from_slice = \<lambda>_. Inr (event_data (TurnAppended (id_str 7) (id_str 9) (id_str 8) 2 (Some ''T'') None)), sn_io_msg = \<lambda>_. [], sn_debug = id\<rparr>
      (\<lambda>_. []) (as_bytes ''x'') = Inr e \<and> tae_context_id e = 7 \<and> tae_parent_turn_id e = 8 \<and> tae_has_declared_type_id e"
proof -
  let ?e = "TurnAppended (id_str 7) (id_str 9) (id_str 8) 2 (Some ''T'') None"
  let ?sn = "\<lparr>sn_from_slice = \<lambda>_. Inr (event_data ?e), sn_io_msg = \<lambda>_. [], sn_debug = id\<rparr>"
  have "ev_data (client_event (to_sse (\<lambda>_. ''x'') ?e)) = as_bytes ''x''" by (simp add: client_event_def to_sse_def)
  with turn_event_roundtrip [of ?sn "\<lambda>_. ''x''" ?e 7 9 8 2 "Some ''T''" None "\<lambda>_. []"] show ?thesis
    unfolding or_default_def by (simp del: event_data.simps)
qed

end
