(* ===== verification/Follow_Props.thy ===== *)
theory Follow_Props
  imports Client_Follow Server_Props
begin

text \<open>
  Following a context: what the consumer is handed, against the context's history.

  The interface is the locale \<open>turn_source\<close>: what the two calls of \<^verbatim>\<open>TurnClient\<close> say about a history of turns.  It is
  interpreted on the server's own answers to the client's requests.
\<close>

section \<open>What has been seen\<close>

lemma nth_not_later:
  assumes "distinct xs" and "k < n" and "k < length xs"
  shows "xs ! k \<notin> set (drop n (take j xs))"
proof
  assume "xs ! k \<in> set (drop n (take j xs))"
  then obtain i where i: "i < length (drop n (take j xs))" "drop n (take j xs) ! i = xs ! k" unfolding in_set_conv_nth by blast
  then have l: "n + i < length xs" "n \<le> length (take j xs)" "n + i < j" by auto
  with i(2) nth_drop [OF l(2), of i] have "xs ! (n + i) = xs ! k" by simp
  with l(1) assms show False by (simp add: nth_eq_iff_index_eq)
qed

abbreviation ids_of :: "ClientTurnRecord list \<Rightarrow> u64 list" where "ids_of \<equiv> map ct_turn_id"

text \<open>\<open>tracks h k st\<close>: all that was seen lies in the first \<open>k\<close> turns; \<open>followed\<close>: it reaches up to the \<open>k\<close>th.\<close>

definition tracks :: "ClientTurnRecord list \<Rightarrow> nat \<Rightarrow> FollowState \<Rightarrow> bool" where
  "tracks h k st \<longleftrightarrow>
     k \<le> length h \<and> 0 < fw_max_seen st \<and> distinct (fw_seen_order st) \<and> fw_seen st = set (fw_seen_order st) \<and>
     fw_seen st \<subseteq> set (ids_of (take k h)) \<and> (fw_has_last st \<longrightarrow> unat (fw_last_seen_depth st) < k)"

definition followed :: "ClientTurnRecord list \<Rightarrow> nat \<Rightarrow> FollowState \<Rightarrow> bool" where
  "followed h k st \<longleftrightarrow> tracks h k st \<and> fw_has_last st = (0 < k) \<and>
     (0 < k \<longrightarrow> unat (fw_last_seen_depth st) = k - 1 \<and> fw_seen st \<noteq> {})"

lemma tracks_later: "tracks h k st \<Longrightarrow> k \<le> k' \<Longrightarrow> k' \<le> length h \<Longrightarrow> tracks h k' st"
  using set_take_subset_set_take [of k k' h] by (fastforce simp: tracks_def)

lemma followed_new [simp]: "followed h 0 (follow_state_new m)"
  by (simp add: followed_def tracks_def follow_state_new_def MAX_SEEN_PER_CONTEXT_def)

lemma tracks_prefix: "tracks h k st \<Longrightarrow> prefix h h' \<Longrightarrow> tracks h' k st"
  by (auto simp: tracks_def prefix_def)

lemma followed_prefix: "followed h k st \<Longrightarrow> prefix h h' \<Longrightarrow> followed h' k st"
  by (auto simp: followed_def dest: tracks_prefix)

lemma followed_le: "followed h k st \<Longrightarrow> k \<le> length h"
  by (simp add: followed_def tracks_def)

lemma evict_drop: "evict m s xs = (s - set (take (length xs - m) xs), drop (length xs - m) xs)"
  by (induction m s xs rule: evict.induct) (auto simp: Suc_diff_le not_less)

lemma evict_order:
  assumes "distinct xs" and "s = set xs"
  shows "evict m s xs = (set (drop (length xs - m) xs), drop (length xs - m) xs)"
proof -
  let ?n = "length xs - m"
  have "set (take ?n xs) \<inter> set (drop ?n xs) = {}" using assms(1) by (simp add: set_take_disj_set_drop_if_distinct)
  moreover have "s = set (take ?n xs) \<union> set (drop ?n xs)" unfolding assms(2) by (metis append_take_drop_id set_append)
  ultimately show ?thesis by (auto simp: evict_drop)
qed

definition numbered :: "ClientTurnRecord list \<Rightarrow> bool" where
  "numbered h \<longleftrightarrow> map (unat \<circ> ct_depth) h = [0..<length h] \<and> distinct (ids_of h)"

lemma numbered_depth: "numbered h \<Longrightarrow> i < length h \<Longrightarrow> unat (ct_depth (h ! i)) = i"
  by (metis (no_types, lifting) numbered_def comp_apply length_map nth_map nth_upt add_0)

lemma numbered_fresh: "numbered h \<Longrightarrow> k < length h \<Longrightarrow> ct_turn_id (h ! k) \<notin> set (ids_of (take k h))"
  by (auto simp: numbered_def in_set_conv_nth distinct_conv_nth)

lemma record_followed:
  assumes "tracks h k st" and "numbered h" and "k < length h"
  shows "followed h (Suc k) (record_turn st (h ! k))"
proof -
  let ?o = "fw_seen_order st @ [ct_turn_id (h ! k)]" and ?m = "fw_max_seen st"
  have fresh: "ct_turn_id (h ! k) \<notin> fw_seen st" using numbered_fresh [OF assms(2,3)] assms(1) by (auto simp: tracks_def)
  then have d: "distinct ?o" and s: "insert (ct_turn_id (h ! k)) (fw_seen st) = set ?o"
    using assms(1) by (auto simp: tracks_def)
  have last: "ct_turn_id (h ! k) \<in> set (drop (length ?o - ?m) ?o)" using assms(1) by (auto simp: tracks_def)
  have "set (drop (length ?o - ?m) ?o) \<subseteq> set (ids_of (take (Suc k) h))"
  proof -
    have "set (drop (length ?o - ?m) ?o) \<subseteq> set ?o" by (rule set_drop_subset)
    also have "\<dots> \<subseteq> set (ids_of (take (Suc k) h))"
      using assms(1,3) unfolding tracks_def take_Suc_conv_app_nth [OF assms(3)] by auto
    finally show ?thesis .
  qed
  moreover have "fw_last_seen_depth st \<le> ct_depth (h ! k)" if "fw_has_last st"
    using that assms numbered_depth [OF assms(2,3)] by (auto simp: tracks_def word_le_nat_alt)
  moreover obtain D where "drop (length ?o - ?m) ?o = D" by blast
  ultimately show ?thesis
    using assms last numbered_depth [OF assms(2,3)] distinct_drop [OF d, of "length ?o - ?m"]
    unfolding record_turn_def evict_order [OF d s] prod.case Let_def followed_def tracks_def by (auto simp del: drop_append)
qed

lemma emit_followed:
  assumes "numbered h" and "tracks h k st" and "emit_turns send c (drop k h) st = (st', out, r)"
  shows "\<exists>j. k \<le> j \<and> (if j = k then st' = st else followed h j st') \<and> map ft_turn out = drop k (take j h) \<and> set (map ft_context_id out) \<subseteq> {c} \<and>
    (r = Inr () \<longrightarrow> j = length h) \<and> ((\<forall>t. send t = Inr ()) \<longrightarrow> r = Inr ())"
  using assms(2,3)
proof (induction "length h - k" arbitrary: k st out)
  case 0
  then have "k = length h" by (simp add: tracks_def)
  with 0 show ?case by (intro exI [of _ k]) auto
next
  case (Suc n)
  then have k: "k < length h" and n: "n = length h - Suc k" by simp_all
  have fresh: "\<not> seen_turn st (ct_turn_id (h ! k))"
    using numbered_fresh [OF assms(1) k] Suc.prems(1) by (auto simp: tracks_def seen_turn_def)
  show ?case
  proof (cases "send (h ! k)")
    case (Inl e)
    with Suc.prems fresh k show ?thesis by (intro exI [of _ k]) (auto simp: Cons_nth_drop_Suc [symmetric])
  next
    case (Inr u)
    obtain out1 where o: "emit_turns send c (drop (Suc k) h) (record_turn st (h ! k)) = (st', out1, r)"
        "out = \<lparr>ft_context_id = c, ft_turn = h ! k\<rparr> # out1"
      using Suc.prems(2) Inr fresh k by (auto simp: Cons_nth_drop_Suc [symmetric] split: prod.splits)
    note rec = record_followed [OF Suc.prems(1) assms(1) k]
    then have "tracks h (Suc k) (record_turn st (h ! k))" by (simp add: followed_def)
    from Suc.hyps(1) [OF n this o(1)] obtain j where
      j: "Suc k \<le> j" "if j = Suc k then st' = record_turn st (h ! k) else followed h j st'" "map ft_turn out1 = drop (Suc k) (take j h)" "set (map ft_context_id out1) \<subseteq> {c}"
        "r = Inr () \<longrightarrow> j = length h" "(\<forall>t. send t = Inr ()) \<longrightarrow> r = Inr ()" by blast
    with rec have f: "followed h j st'" by (simp split: if_splits)
    have "drop k (take j h) = h ! k # drop (Suc k) (take j h)"
      using j(1) followed_le [OF f] by (subst Cons_nth_drop_Suc [symmetric]) auto
    with j f o show ?thesis by (intro exI [of _ j]) auto
  qed
qed

text \<open>What a follower has handed on of one context, and how it stands to the histories.\<close>

definition handed :: "follower \<Rightarrow> u64 \<Rightarrow> ClientTurnRecord list" where
  "handed f c = map ft_turn (filter (\<lambda>t. ft_context_id t = c) (fl_out f))"

definition follower_ok :: "(u64 \<Rightarrow> ClientTurnRecord list) \<Rightarrow> follower \<Rightarrow> bool" where
  "follower_ok h f \<longleftrightarrow>
     (\<forall>c. \<exists>k. handed f c = take k (h c) \<and> (case fl_states f c of Some st \<Rightarrow> followed (h c) k st | None \<Rightarrow> k = 0))"

lemma follower_ok_new: "follower_ok h follower_new"
  by (simp add: follower_ok_def follower_new_def handed_def)

lemma follower_ok_grows:
  assumes "follower_ok h f" and "\<And>c. prefix (h c) (h' c)"
  shows "follower_ok h' f"
  unfolding follower_ok_def
proof
  fix c
  from assms(1) obtain k where k: "handed f c = take k (h c)" "case fl_states f c of Some st \<Rightarrow> followed (h c) k st | None \<Rightarrow> k = 0"
    by (auto simp: follower_ok_def)
  from assms(2) obtain z where "h' c = h c @ z" by (auto simp: prefix_def)
  with k followed_prefix [OF _ assms(2), of c] show "\<exists>k. handed f c = take k (h' c) \<and> (case fl_states f c of Some st \<Rightarrow> followed (h' c) k st | None \<Rightarrow> k = 0)"
    by (intro exI [of _ k]) (auto dest: followed_le split: option.splits)
qed

section \<open>The interface\<close>

locale turn_source =
  fixes calls :: "'s \<Rightarrow> turn_client"
    and history :: "'s \<Rightarrow> u64 \<Rightarrow> ClientTurnRecord list"
    and valid :: "'s \<Rightarrow> bool"
  assumes head_depth: "valid s \<Longrightarrow> tc_get_head (calls s) c = Inr hh \<Longrightarrow> unat (cc_head_depth hh) = length (history s c) - 1"
    and last_turns: "valid s \<Longrightarrow> tc_get_last (calls s) c n = Inr ts \<Longrightarrow> n \<noteq> 0 \<Longrightarrow> ts = drop (length (history s c) - unat n) (history s c)"
    and history_numbered: "valid s \<Longrightarrow> numbered (history s c)"
    and history_short: "valid s \<Longrightarrow> length (history s c) < 2 ^ 32"
begin

lemma missing_drop:
  assumes "valid s" and "tc_get_head (calls s) c = Inr hh" and "followed (history s c) k st"
  shows "\<not> (fw_has_last st \<and> cc_head_depth hh < fw_last_seen_depth st)"
    and "missing_turns st (cc_head_depth hh) = 0 \<Longrightarrow> k = length (history s c)"
    and "k < length (history s c) \<Longrightarrow> unat (missing_turns st (cc_head_depth hh)) = length (history s c) - k"
    and "missing_turns st (cc_head_depth hh) \<noteq> 0 \<Longrightarrow> length (history s c) - unat (missing_turns st (cc_head_depth hh)) = k"
proof -
  let ?n = "length (history s c)"
  have n: "unat (cc_head_depth hh) = ?n - 1" "?n < 2 ^ 32" "k \<le> ?n"
    using head_depth [OF assms(1,2)] history_short [OF assms(1)] followed_le [OF assms(3)] by auto
  have sub: "unat (cc_head_depth hh - fw_last_seen_depth st) = ?n - k" if "0 < k"
    using that n assms(3) by (subst unat_sub) (auto simp: followed_def word_le_nat_alt)
  have suc: "unat (cc_head_depth hh + 1) = ?n - 1 + 1"
    using n by (subst unat_plus_simple [THEN iffD1]) (auto simp: no_olen_add_nat)
  show "\<not> (fw_has_last st \<and> cc_head_depth hh < fw_last_seen_depth st)"
    using n assms(3) by (auto simp: followed_def word_less_nat_alt)
  have m: "unat (missing_turns st (cc_head_depth hh)) = (if k = 0 then ?n - 1 + 1 else ?n - k)"
    using n assms(3) sub suc by (auto simp: missing_turns_def followed_def word_less_nat_alt)
  show "missing_turns st (cc_head_depth hh) = 0 \<Longrightarrow> k = ?n"
    using m n by (auto simp: unat_eq_zero split: if_splits)
  show "k < ?n \<Longrightarrow> unat (missing_turns st (cc_head_depth hh)) = ?n - k" using m by auto
  show "missing_turns st (cc_head_depth hh) \<noteq> 0 \<Longrightarrow> ?n - unat (missing_turns st (cc_head_depth hh)) = k"
    using m n by (cases "k = 0") auto
qed

text \<open>One synchronisation hands on the next turns of the history, and all of them when nothing fails.\<close>

lemma sync_followed:
  assumes "valid s" and "followed (history s c) k st" and "sync_context (calls s) send c st = (st', out, r)"
  shows "\<exists>j. k \<le> j \<and> followed (history s c) j st' \<and> map ft_turn out = drop k (take j (history s c)) \<and>
    set (map ft_context_id out) \<subseteq> {c} \<and> (r = Inr () \<longrightarrow> j = length (history s c))"
proof (cases "tc_get_head (calls s) c")
  case (Inl e)
  with assms(2,3) show ?thesis by (intro exI [of _ k]) (auto simp: sync_context_def)
next
  case (Inr hh)
  note md = missing_drop [OF assms(1) Inr assms(2)]
  show ?thesis
  proof (cases "missing_turns st (cc_head_depth hh) = 0")
    case True
    with md(2) have "k = length (history s c)" by simp
    moreover from True md(1) Inr assms(3) have "st' = st \<and> out = [] \<and> r = Inr ()" by (auto simp: sync_context_def)
    ultimately show ?thesis using assms(2) by (intro exI [of _ k]) simp
  next
    case False
    show ?thesis
    proof (cases "tc_get_last (calls s) c (missing_turns st (cc_head_depth hh))")
      case (Inl e)
      with Inr False md(1) assms(2,3) show ?thesis by (intro exI [of _ k]) (auto simp: sync_context_def)
    next
      case ts: (Inr ts)
      from last_turns [OF assms(1) ts False] md(4) [OF False] have "ts = drop k (history s c)" by simp
      with ts Inr False md(1) assms(3) have "emit_turns send c (drop k (history s c)) st = (st', out, r)"
        by (auto simp: sync_context_def split: if_splits)
      moreover have "tracks (history s c) k st" using assms(2) by (simp add: followed_def)
      ultimately obtain j where "k \<le> j" "if j = k then st' = st else followed (history s c) j st'"
          "map ft_turn out = drop k (take j (history s c))" "set (map ft_context_id out) \<subseteq> {c}" "r = Inr () \<longrightarrow> j = length (history s c)"
        using emit_followed [OF history_numbered [OF assms(1)]] by metis
      with assms(2) show ?thesis by (intro exI [of _ j]) (auto split: if_splits)
    qed
  qed
qed

lemma sync_ok:
  assumes "valid s" and "followed (history s c) k st" and "\<And>t. send t = Inr ()"
    and "tc_get_head (calls s) c = Inr hh" and "\<And>n. \<exists>ts. tc_get_last (calls s) c n = Inr ts"
  shows "\<exists>st' out. sync_context (calls s) send c st = (st', out, Inr ())"
proof (cases "missing_turns st (cc_head_depth hh) = 0")
  case True
  with missing_drop(1) [OF assms(1,4,2)] assms(4) show ?thesis by (simp add: sync_context_def)
next
  case False
  obtain ts where ts: "tc_get_last (calls s) c (missing_turns st (cc_head_depth hh)) = Inr ts" using assms(5) by blast
  have "ts = drop k (history s c)"
    using last_turns [OF assms(1) ts False] missing_drop(4) [OF assms(1,4,2) False] by simp
  moreover obtain st' out r where "emit_turns send c (drop k (history s c)) st = (st', out, r)" by (metis prod_cases3)
  moreover have "tracks (history s c) k st" using assms(2) by (simp add: followed_def)
  moreover from emit_followed [OF history_numbered [OF assms(1)] this calculation(2)] assms(3) have "r = Inr ()" by blast
  ultimately show ?thesis using ts False missing_drop(1) [OF assms(1,4,2)] assms(4) by (simp add: sync_context_def)
qed

text \<open>The two calls may see different histories: \<open>s\<close> answers the first, \<open>s'\<close> the second.  As many turns are asked for
  as were missing at \<open>s\<close>, so the oldest missing ones fall out, as many as were added in between.\<close>

lemma sync_raced:
  assumes "valid s" and "valid s'" and "history s' c = history s c @ new" and "followed (history s c) k st" and "k < length (history s c)"
    and "tc_get_head (calls s) c = Inr hh" and "\<And>n. \<exists>ts. tc_get_last (calls s') c n = Inr ts" and "\<And>t. send t = Inr ()"
  shows "\<exists>st' out. sync_context \<lparr>tc_get_head = tc_get_head (calls s), tc_get_last = tc_get_last (calls s')\<rparr> send c st = (st', out, Inr ()) \<and>
    map ft_turn out = drop (k + length new) (history s' c) \<and> followed (history s' c) (length (history s' c)) st'"
proof -
  let ?m = "missing_turns st (cc_head_depth hh)" and ?h = "history s' c"
  note md = missing_drop [OF assms(1,6,4)]
  have m: "?m \<noteq> 0" using md(2) assms(5) by auto
  obtain ts where ts: "tc_get_last (calls s') c ?m = Inr ts" using assms(7) by blast
  have "length ?h - unat ?m = k + length new" using md(3) assms(3,5) by simp
  then have "ts = drop (k + length new) ?h" using last_turns [OF assms(2) ts m] by simp
  moreover have "tracks ?h (k + length new) st"
  proof (rule tracks_later)
    show "tracks ?h k st" using assms(3,4) by (auto simp: followed_def intro: tracks_prefix)
  qed (use assms(3,5) in auto)
  moreover obtain st' out r where e: "emit_turns send c (drop (k + length new) ?h) st = (st', out, r)" by (metis prod_cases3)
  ultimately obtain j where "k + length new \<le> j" "if j = k + length new then st' = st else followed ?h j st'"
      "map ft_turn out = drop (k + length new) (take j ?h)" "r = Inr ()" "j = length ?h"
    using emit_followed [OF history_numbered [OF assms(2)] _ e] assms(8) by blast
  moreover have "sync_context \<lparr>tc_get_head = tc_get_head (calls s), tc_get_last = tc_get_last (calls s')\<rparr> send c st = (st', out, r)"
    using e ts m md(1) assms(6) \<open>ts = _\<close> by (auto simp: sync_context_def)
  ultimately show ?thesis using assms(3,5) by (auto split: if_splits)
qed

lemma event_followed:
  assumes "valid s" and "follower_ok (history s) f"
  shows "follower_ok (history s) (follow_event sn msg opts (calls s) send ev f)"
proof (cases "ev_type ev = ''turn_appended'' \<and> (\<exists>e. decode_turn_appended_event sn msg (ev_data ev) = Inr e)")
  case False
  with assms(2) show ?thesis by (auto simp: follow_event_def follower_ok_def handed_def split: sum.split)
next
  case True
  then obtain e where e: "decode_turn_appended_event sn msg (ev_data ev) = Inr e" by blast
  let ?c = "tae_context_id e"
  define st where "st = (case fl_states f ?c of Some st \<Rightarrow> st | None \<Rightarrow> follow_state_new (fo_max_seen_per_context opts))"
  obtain st' out r where y: "sync_context (calls s) send ?c st = (st', out, r)" by (metis prod_cases3)
  from assms(2) obtain k where k: "handed f ?c = take k (history s ?c)" "followed (history s ?c) k st"
    unfolding follower_ok_def st_def by (metis (mono_tags, lifting) followed_new option.case_eq_if)
  from sync_followed [OF assms(1) k(2) y] obtain j where
    j: "k \<le> j" "followed (history s ?c) j st'" "map ft_turn out = drop k (take j (history s ?c))" "set (map ft_context_id out) \<subseteq> {?c}"
    by blast
  have "take k (history s ?c) @ drop k (take j (history s ?c)) = take j (history s ?c)"
    by (metis append_take_drop_id min.absorb1 take_take j(1))
  moreover have "filter (\<lambda>t. ft_context_id t = ?c) out = out" using j(4) by (auto simp: filter_id_conv)
  moreover have "filter (\<lambda>t. ft_context_id t = c) out = []" if "c \<noteq> ?c" for c using j(4) that by (auto simp: filter_empty_conv)
  ultimately show ?thesis
    using True e y j k assms(2)
    by (auto simp: follow_event_def follower_ok_def handed_def Let_def st_def [symmetric])
qed

lemma run_followed:
  assumes "\<And>s. s \<in> set (map fst rounds) \<Longrightarrow> valid s"
    and "sorted_wrt (\<lambda>s s'. \<forall>c. prefix (history s c) (history s' c)) (map fst rounds)"
    and "\<And>s c. s \<in> set (map fst rounds) \<Longrightarrow> prefix (h c) (history s c)" and "follower_ok h f"
  shows "follower_ok (if rounds = [] then h else history (fst (last rounds)))
    (foldl (\<lambda>f (tc, send, ev). follow_event sn msg opts tc send ev f) f (map (map_prod calls id) rounds))"
  using assms
proof (induction rounds arbitrary: h f)
  case (Cons x rounds)
  obtain s send ev where x: "x = (s, send, ev)" by (metis prod_cases3)
  have "follower_ok (history s) (follow_event sn msg opts (calls s) send ev f)"
    using Cons.prems x by (intro event_followed follower_ok_grows [OF Cons.prems(4)]) auto
  moreover have "\<And>s'. s' \<in> set (map fst rounds) \<Longrightarrow> valid s'"
      "sorted_wrt (\<lambda>s s'. \<forall>c. prefix (history s c) (history s' c)) (map fst rounds)"
      "\<And>s' c. s' \<in> set (map fst rounds) \<Longrightarrow> prefix (history s c) (history s' c)"
    using Cons.prems(1,2) x by auto
  ultimately show ?case using Cons.IH [of "history s" "follow_event sn msg opts (calls s) send ev f"] x by (simp split: if_splits)
qed simp

end

section \<open>The server as the source\<close>

text \<open>What the client makes of the outcome of a request: a reply is its payload, a reported error a server error, and a
  connection the server gives up ends before the response.\<close>

definition outcome_bytes :: "(io_kind \<Rightarrow> string) \<Rightarrow> outcome \<Rightarrow> bytes cres" where
  "outcome_bytes io_msg res =
     (case res of
        Reply ty resp \<Rightarrow> Inr resp
      | Fail e \<Rightarrow> (case map_error io_msg e of (code, detail) \<Rightarrow> Inl (Server code detail))
      | Abort e \<Rightarrow> Inl (map_header_error UnexpectedEof))"

definition server_calls :: "store_env \<Rightarrow> (io_kind \<Rightarrow> string) \<Rightarrow> u64 \<Rightarrow> nat \<Rightarrow> Conn \<Rightarrow> ServerState \<Rightarrow> turn_client" where
  "server_calls env io_msg now elapsed conn s =
     (let call = (\<lambda>ty payload. outcome_bytes io_msg (snd (snd (handle_message env now elapsed s conn
                    \<lparr>fh_len = of_nat (length payload), fh_msg_type = msg_code ty, fh_flags = 0, fh_req_id = 1\<rparr> payload))))
      in \<lparr>tc_get_head = \<lambda>c. rbind (call GetHead (client_u64_payload c)) parse_context_head,
          tc_get_last = \<lambda>c n. rbind (call GetLast (client_get_last_payload c n True)) parse_turn_records\<rparr>)"

text \<open>The whole history of a context, as the client sees its turns.\<close>

definition client_record :: "store_env \<Rightarrow> Store \<Rightarrow> TurnRecord \<Rightarrow> ClientTurnRecord" where
  "client_record env st r =
     client_turn \<lparr>tw_record = r, tw_meta = the (turn_meta (turn_store st) (tr_turn_id r)), tw_payload = None\<rparr>
       (case sblob_get env st (tr_payload_hash r) of Inr p \<Rightarrow> p | Inl _ \<Rightarrow> [])"

definition context_history :: "store_env \<Rightarrow> ServerState \<Rightarrow> u64 \<Rightarrow> ClientTurnRecord list" where
  "context_history env s c =
     (case get_last (turn_store (sv_store s)) c (- 1) of
        Inr rs \<Rightarrow> map (client_record env (sv_store s)) rs
      | Inl _ \<Rightarrow> [])"

text \<open>Fewer than \<open>2 ^ 32\<close> turns in every context.\<close>

definition source_valid :: "store_env \<Rightarrow> ServerState \<Rightarrow> bool" where
  "source_valid env s \<longleftrightarrow>
     zstd_ok (se_zenc env) (se_zdec env) \<and> st_reach env (sv_store s) \<and>
     (\<forall>c h. heads (turn_store (sv_store s)) c = Some h \<longrightarrow> ch_head_depth h \<noteq> - 1)"

lemma with_meta_records:
  "with_meta env st True rs = Inr out \<Longrightarrow> map (\<lambda>item. client_turn item (the (tw_payload item))) out = map (client_record env st) rs"
  by (induction rs arbitrary: out) (auto simp: client_record_def client_turn_def get_turn_meta_def map_sum_def split: sum.splits)

lemma source_dag: "source_valid env s \<Longrightarrow> dag_wf (turn_store (sv_store s))"
  using st_reach_inv by (auto simp: source_valid_def st_inv_def ts_inv_def)

lemma history_of:
  assumes "source_valid env s" and "heads (turn_store (sv_store s)) c = Some h"
    and "ancestry (turns (turn_store (sv_store s))) (ch_head_turn_id h) rs"
  shows "context_history env s c = map (client_record env (sv_store s)) (rev rs)" and "length rs < 2 ^ 32"
    and "unat (ch_head_depth h) = length rs - 1"
proof -
  note wf = source_dag [OF assms(1)]
  note len = ancestry_length_head [OF wf assms(2,3)]
  have "unat (ch_head_depth h) \<noteq> unat (- 1 :: u32)" using assms(1,2) unfolding source_valid_def by (metis unsigned_word_eqI)
  moreover have top: "unat (- 1 :: u32) = 2 ^ 32 - 1" by (simp add: unsigned_minus_1_eq_mask mask_eq_exp_minus_1)
  ultimately have d: "unat (ch_head_depth h) + 1 < 2 ^ 32" using unsigned_less [of "ch_head_depth h", where 'a = nat] by simp
  have z: "ch_head_turn_id h = 0 \<Longrightarrow> ch_head_depth h = 0" using dag_wf_headD [OF wf assms(2)] by (simp add: head_ok_def)
  show short: "length rs < 2 ^ 32" "unat (ch_head_depth h) = length rs - 1" using len d z by (auto split: if_splits)
  then have "take (unat (- 1 :: u32)) rs = rs" by (simp add: top)
  with get_last_ancestry [OF assms(2,3)] show "context_history env s c = map (client_record env (sv_store s)) (rev rs)"
    by (simp add: context_history_def)
qed

lemma history_ancestry:
  assumes "source_valid env s" and "heads (turn_store (sv_store s)) c = Some h"
  shows "\<exists>rs. get_last (turn_store (sv_store s)) c n = Inr (rev (take (unat n) rs)) \<and>
    context_history env s c = map (client_record env (sv_store s)) (rev rs) \<and> length rs < 2 ^ 32 \<and>
    map (unat \<circ> tr_depth) rs = rev [0..<length rs] \<and> unat (ch_head_depth h) = length rs - 1 \<and> distinct (map tr_turn_id rs)"
proof -
  note wf = source_dag [OF assms(1)]
  from head_ancestry [OF wf assms(2)] obtain rs where rs: "ancestry (turns (turn_store (sv_store s))) (ch_head_turn_id h) rs" ..
  moreover have "distinct (map tr_turn_id rs)"
    using ancestry_members [OF wf rs] ancestry_depths [OF wf rs]
    by (metis distinct_map distinct_rev distinct_upt inj_onI option.inject)
  ultimately show ?thesis
    using history_of [OF assms rs] get_last_ancestry [OF assms(2) rs] ancestry_depths [OF wf rs] by (intro exI [of _ rs]) simp
qed

lemma client_record_sel [simp]:
  "ct_turn_id (client_record env st r) = tr_turn_id r" "ct_depth (client_record env st r) = tr_depth r"
  by (simp_all add: client_record_def client_turn_def)

lemma history_ok: "source_valid env s \<Longrightarrow> numbered (context_history env s c) \<and> length (context_history env s c) < 2 ^ 32"
proof (cases "heads (turn_store (sv_store s)) c")
  case None
  then show ?thesis by (simp add: context_history_def get_last_def numbered_def)
next
  case (Some h)
  assume "source_valid env s"
  from history_ancestry [OF this Some] obtain rs where
    "context_history env s c = map (client_record env (sv_store s)) (rev rs)" "length rs < 2 ^ 32"
    "map (unat \<circ> tr_depth) rs = rev [0..<length rs]" "distinct (map tr_turn_id rs)" by blast
  moreover from this have "map (unat \<circ> tr_depth) (rev rs) = [0..<length rs]" "distinct (map tr_turn_id (rev rs))"
    by (simp_all only: rev_map rev_rev_ident distinct_rev flip: rev_map)
  ultimately show ?thesis by (simp add: numbered_def comp_def)
qed

lemma server_head:
  assumes "source_valid env s" and "tc_get_head (server_calls env io_msg now elapsed conn s) c = Inr hh"
  shows "unat (cc_head_depth hh) = length (context_history env s c) - 1"
proof -
  have "parse_get_head (client_u64_payload c) = Inr c" by (simp add: parse_get_head_def parse_ctx_create_def client_u64_payload_def)
  with assms(2) obtain h where h: "heads (turn_store (sv_store s)) c = Some h" "cc_head_depth hh = ch_head_depth h"
    by (auto simp: server_calls_def handle_message_def handle_get_head_def st_get_head_def get_head_def outcome_bytes_def
        parse_context_head_def encode_ctx_create_resp_def split: sum.splits option.splits prod.splits)
  from history_ancestry [OF assms(1) h(1), of 0] obtain rs where
    "context_history env s c = map (client_record env (sv_store s)) (rev rs)" "unat (ch_head_depth h) = length rs - 1" by blast
  with h(2) show ?thesis by simp
qed

lemma server_last:
  assumes "source_valid env s" and "tc_get_last (server_calls env io_msg now elapsed conn s) c n = Inr ts" and "n \<noteq> 0"
  shows "ts = drop (length (context_history env s c) - unat n) (context_history env s c)"
proof (cases "st_get_last env (sv_store s) c n True")
  case (Inl e)
  then show ?thesis
    using assms(2,3) by (simp add: server_calls_def handle_message_def handle_get_last_def client_get_last_payload_def
        parse_get_last_def outcome_bytes_def)
next
  case (Inr out)
  have reach: "zstd_ok (se_zenc env) (se_zdec env)" "st_reach env (sv_store s)" using assms(1) by (simp_all add: source_valid_def)
  note items = get_last_items [OF reach Inr]
  have "length out < 2 ^ 32" using items(1) unsigned_less [of n, where 'a = nat] by simp
  with parse_turn_items [of out] items(2) assms(2,3) handle_get_last_client [of env s c n True out now elapsed conn] Inr
  have ts: "ts = map (\<lambda>item. client_turn item (the (tw_payload item))) out" by (auto simp: server_calls_def outcome_bytes_def)
  from Inr obtain rs where rs: "get_last (turn_store (sv_store s)) c n = Inr rs" "with_meta env (sv_store s) True rs = Inr out"
    by (auto simp: st_get_last_def)
  from rs(1) obtain h where h: "heads (turn_store (sv_store s)) c = Some h" by (auto simp: get_last_def split: option.splits)
  from history_ancestry [OF assms(1) h, of n] obtain as where
    "get_last (turn_store (sv_store s)) c n = Inr (rev (take (unat n) as))"
    "context_history env s c = map (client_record env (sv_store s)) (rev as)" by blast
  with rs ts with_meta_records [OF rs(2)] show ?thesis by (simp add: rev_take drop_map)
qed

interpretation followed_server: turn_source "server_calls env io_msg now elapsed conn" "context_history env" "source_valid env"
  for env io_msg now elapsed conn
proof unfold_locales
  fix s c
  assume "source_valid env s"
  from history_ok [OF this] show "numbered (context_history env s c)" "length (context_history env s c) < 2 ^ 32" by auto
qed (fact server_head server_last)+

text \<open>A context that exists is answered for.\<close>

lemma server_calls_ok:
  assumes "source_valid env s" and "heads (turn_store (sv_store s)) c = Some h"
  shows "\<exists>hh. tc_get_head (server_calls env io_msg now elapsed conn s) c = Inr hh"
    and "\<exists>ts. tc_get_last (server_calls env io_msg now elapsed conn s) c n = Inr ts"
proof -
  have "parse_get_head (client_u64_payload c) = Inr c" by (simp add: parse_get_head_def parse_ctx_create_def client_u64_payload_def)
  with assms(2) show "\<exists>hh. tc_get_head (server_calls env io_msg now elapsed conn s) c = Inr hh"
    by (simp add: server_calls_def handle_message_def handle_get_head_def st_get_head_def get_head_def outcome_bytes_def
        parse_context_head_def encode_ctx_create_resp_def)
  have reach: "zstd_ok (se_zenc env) (se_zdec env)" "st_reach env (sv_store s)" using assms(1) by (simp_all add: source_valid_def)
  let ?n = "if n = 0 then 10 else n"
  from get_last_available [OF reach assms(2), of ?n] obtain out where out: "st_get_last env (sv_store s) c ?n True = Inr out" by blast
  note items = get_last_items [OF reach out]
  have "length out < 2 ^ 32" using items(1) unsigned_less [of ?n, where 'a = nat] by simp
  with parse_turn_items [of out] items(2) handle_get_last_client [OF out, of now elapsed conn]
  show "\<exists>ts. tc_get_last (server_calls env io_msg now elapsed conn s) c n = Inr ts" by (auto simp: server_calls_def outcome_bytes_def)
qed

text \<open>Appending to the head of a context makes its history longer by the new turn and changes no other.\<close>

lemma history_append:
  assumes s: "source_valid env s" and s': "source_valid env s'" and ok: "append_ok env (sv_store s) ty cmp len hash payload"
    and app: "st_append_turn env now (sv_store s) c 0 ty ver enc cmp len hash payload = (sv_store s', Inr (r, md))"
  shows "context_history env s' c' = (if c' = c then context_history env s c @ [client_record env (sv_store s') r] else context_history env s c')"
proof -
  let ?t = "turn_store (sv_store s)" and ?t' = "turn_store (sv_store s')"
  note wf = source_dag [OF s]
  from s have inv: "zstd_ok (se_zenc env) (se_zdec env)" "st_inv env (sv_store s)" by (auto simp: source_valid_def dest: st_reach_inv)
  from app obtain raw be where ck: "check_payload env cmp len hash payload = Inr raw"
      and t: "append_turn (se_crc env) now ?t c 0 hash enc ty ver cmp len = (?t', Inr r)"
      and b: "put_if_absent (se_crc env) (se_zenc env) (blob_store (sv_store s)) hash raw = (blob_store (sv_store s'), be)"
    by (rule st_append_InrE)
  from t obtain parent d where pd: "resolve_parent ?t c 0 = Inr (parent, d)" "r = new_turn (next_turn_id ?t) parent d enc hash now"
      and upd: "turns ?t' = (turns ?t)(next_turn_id ?t \<mapsto> r)" "heads ?t' = (heads ?t)(c \<mapsto> new_head c (next_turn_id ?t) d now)"
        "turn_meta ?t' = (turn_meta ?t)(next_turn_id ?t \<mapsto> new_meta ty ver enc cmp len)"
    by (elim append_turn_InrE)
  have fresh: "turns ?t (next_turn_id ?t) = None" "next_turn_id ?t \<noteq> 0" using dag_wf_next_fresh [OF wf] wf by (auto simp: dag_wf_def)
  have "blob_inv (se_crc env) (se_zdec env) (blob_store (sv_store s))" "blob_fits (blob_store (sv_store s)) hash raw"
    using inv ok ck by (simp_all add: st_inv_def blob_store_inv_def append_ok_def)
  from blob_get_put [OF inv(1) this] b
  have blob: "sblob_get env (sv_store s') k = (if k = hash \<and> index (blob_store (sv_store s)) hash = None then Inr raw else sblob_get env (sv_store s) k)" for k
    by simp
  have kept: "client_record env (sv_store s') q = client_record env (sv_store s) q" if "turns ?t (tr_turn_id q) = Some q" for q
  proof -
    from inv(2) that obtain v where "sblob_get env (sv_store s) (tr_payload_hash q) = Inr v"
      unfolding st_inv_def payloads_ok_def by blast
    moreover have "index (blob_store (sv_store s)) k = None \<Longrightarrow> sblob_get env (sv_store s) k \<noteq> Inr v" for k by (simp add: blob_get_None)
    ultimately show ?thesis using that fresh upd(3) by (auto simp: client_record_def blob client_turn_def)
  qed
  have old: "heads ?t c' = Some h \<Longrightarrow> ancestry (turns ?t) (ch_head_turn_id h) rs \<Longrightarrow>
      map (client_record env (sv_store s')) (rev rs) = context_history env s c'" for h rs c'
    using history_of(1) [OF s, of c' h rs] ancestry_members [OF wf, of "ch_head_turn_id h" rs] kept by simp
  show ?thesis
  proof (cases "heads ?t c'")
    case None
    then have "c' \<noteq> c" using pd(1) by (auto simp: resolve_parent_def)
    with None show ?thesis by (simp add: context_history_def get_last_def upd(2))
  next
    case (Some h)
    from head_ancestry [OF wf Some] obtain rs where rs: "ancestry (turns ?t) (ch_head_turn_id h) rs" ..
    note rs' = ancestry_upd [OF rs fresh(1), of r]
    show ?thesis
    proof (cases "c' = c")
      case True
      have "parent = ch_head_turn_id h"
        using pd(1) Some True dag_wf_turnD(1) [OF wf, of "ch_head_turn_id h"]
        by (auto simp: resolve_parent_def turn_ok_def split: if_splits option.splits)
      with rs' pd(2) fresh have "ancestry (turns ?t') (next_turn_id ?t) (r # rs)" by (simp add: upd ancestry_Cons)
      with history_of(1) [OF s', of c _ "r # rs"] old [OF Some rs] True show ?thesis by (simp add: upd(2))
    next
      case False
      with history_of(1) [OF s', of c' h rs] rs' Some old [OF Some rs] show ?thesis by (simp add: upd)
    qed
  qed
qed

text \<open>A run on the server: each event is handled at some state of the server, whose histories only grow.\<close>

definition growing :: "store_env \<Rightarrow> ServerState list \<Rightarrow> bool" where
  "growing env ss \<longleftrightarrow>
     list_all (source_valid env) ss \<and>
     sorted_wrt (\<lambda>s s'. \<forall>c. prefix (context_history env s c) (context_history env s' c)) ss"

section \<open>Witness server\<close>

text \<open>The store of \<open>Store_Props\<close> with a second turn in its context, and an event that names the context.\<close>

definition sdemo2 :: Store where
  "sdemo2 = fst (st_append_turn demo_senv 300 sdemo1 1 0 ''T'' 1 1 0 1 (replicate 32 1) [9])"

definition turn_event :: Event where
  "turn_event = \<lparr>ev_type = ''turn_appended'', ev_data = [0], ev_id = []\<rparr>"

definition demo_stream :: stream_env where
  "demo_stream =
     \<lparr>sn_from_slice = \<lambda>_. Inr (JObj [(''context_id'', JStr ''1''), (''turn_id'', JStr ''1'')]), sn_io_msg = \<lambda>_. [], sn_debug = id\<rparr>"

lemma turn_event_decoded: "\<exists>e. decode_turn_appended_event demo_stream msg (ev_data turn_event) = Inr e \<and> tae_context_id e = 1"
proof -
  have "dec_str (unat (1 :: u64)) = ''1''" by (simp add: dec_str.simps digit_char_def) code_simp
  then have "parse_u64_str ''1'' = Some 1" using parse_u64_str_dec [of 1] by simp
  then show ?thesis
    by (simp add: decode_turn_appended_event_def turn_event_def decode_turn_appended_def decode_struct_def demo_stream_def
        struct_members_def member_or_def sse_uint64_def Let_def)
qed

lemma sdemo1_heads: "heads (turn_store sdemo1) = [1 \<mapsto> new_head 1 1 0 200]" "next_turn_id (turn_store sdemo1) = 2"
    "\<exists>r. turns (turn_store sdemo1) 1 = Some r \<and> tr_turn_id r = 1 \<and> tr_depth r = 0"
proof -
  from sdemo_append obtain r where
    a: "st_append_turn demo_senv 200 sdemo0 1 0 ''T'' 1 1 0 1 (replicate 32 1) [9] = (sdemo1, Inr (r, None))" ..
  from a obtain raw be where "append_turn (se_crc demo_senv) 200 (turn_store sdemo0) 1 0 (replicate 32 1) 1 ''T'' 1 0 1
      = (turn_store sdemo1, Inr r)" by (rule st_append_InrE)
  then show "heads (turn_store sdemo1) = [1 \<mapsto> new_head 1 1 0 200]" "next_turn_id (turn_store sdemo1) = 2"
    "\<exists>r. turns (turn_store sdemo1) 1 = Some r \<and> tr_turn_id r = 1 \<and> tr_depth r = 0"
    by (auto elim!: append_turn_InrE simp: resolve_parent_def)
qed

lemma sdemo1_pack: "length (pack_file (blob_store sdemo1)) < 2 ^ 62"
proof -
  from sdemo_append obtain r where
    a: "st_append_turn demo_senv 200 sdemo0 1 0 ''T'' 1 1 0 1 (replicate 32 1) [9] = (sdemo1, Inr (r, None))" ..
  obtain t tres where "append_turn (se_crc demo_senv) 200 (turn_store sdemo0) 1 0 (replicate 32 1) 1 ''T'' 1 0 1 = (t, tres)" by fastforce
  from st_append_turn_parts(1) [OF check_demo a this] show ?thesis
    by (simp add: put_if_absent_eq blob0_def Let_def blob_record_def choose_codec_def demo_zenc_def split: prod.splits if_splits)
qed

lemma append_ok_demo1: "append_ok demo_senv sdemo1 ''T'' 0 1 (replicate 32 1) [9]"
  using sdemo1_pack by (simp add: append_ok_def check_demo rust_string_T blob_fits_def sdemo1_heads(2))

lemma sdemo2_reach: "st_reach demo_senv sdemo2"
  unfolding sdemo2_def by (rule st_reach.append [OF sdemo1_reach append_ok_demo1 surjective_pairing])

lemma sdemo2_append:
  "\<exists>r md. st_append_turn demo_senv 300 sdemo1 1 0 ''T'' 1 1 0 1 (replicate 32 1) [9] = (sdemo2, Inr (r, md))"
  and sdemo2_heads: "heads (turn_store sdemo2) = [1 \<mapsto> new_head 1 2 1 300]"
proof -
  obtain s res where a: "st_append_turn demo_senv 300 sdemo1 1 0 ''T'' 1 1 0 1 (replicate 32 1) [9] = (s, res)" by fastforce
  obtain t r where t: "append_turn demo_sum 300 (turn_store sdemo1) 1 0 (replicate 32 1) 1 ''T'' 1 0 1 = (t, Inr r)"
      "heads t = [1 \<mapsto> new_head 1 2 1 300]"
    using sdemo1_heads by (auto simp: append_turn_eq resolve_parent_def Let_def)
  from st_append_turn_parts(5) [OF check_demo a, of t "Inr r"] t a
  show "\<exists>r md. st_append_turn demo_senv 300 sdemo1 1 0 ''T'' 1 1 0 1 (replicate 32 1) [9] = (sdemo2, Inr (r, md))"
    by (auto simp: sdemo2_def)
  from st_append_turn_parts(2) [OF check_demo a, of t "Inr r"] t a show "heads (turn_store sdemo2) = [1 \<mapsto> new_head 1 2 1 300]"
    by (simp add: sdemo2_def)
qed

abbreviation "demo_history st \<equiv> context_history demo_senv (server_start st) 1"

lemma demo_sources:
  "source_valid demo_senv (server_start sdemo0)" "source_valid demo_senv (server_start sdemo1)" "source_valid demo_senv (server_start sdemo2)"
  using sdemo0_reach sdemo1_reach sdemo2_reach
  by (auto simp: source_valid_def server_start_def demo_zstd_ok sdemo1_heads(1) sdemo2_heads split: if_splits)

lemma demo_histories:
  "context_history demo_senv (server_start sdemo0) c = []"
  "\<exists>x. context_history demo_senv (server_start sdemo1) c = (if c = 1 then [x] else [])"
  "\<exists>y. context_history demo_senv (server_start sdemo2) c = context_history demo_senv (server_start sdemo1) c @ (if c = 1 then [y] else [])"
proof -
  have "walk_back ts 0 n = Inr []" for ts n by (cases n) simp_all
  then show h0: "context_history demo_senv (server_start sdemo0) c = []" for c
    by (simp add: context_history_def server_start_def get_last_def)
  from sdemo_append obtain r where
    a: "st_append_turn demo_senv 200 (sv_store (server_start sdemo0)) 1 0 ''T'' 1 1 0 1 (replicate 32 1) [9] = (sv_store (server_start sdemo1), Inr (r, None))"
    by (auto simp: server_start_def)
  from history_append [OF demo_sources(1,2) _ a, of c] append_ok_demo h0
  show "\<exists>x. context_history demo_senv (server_start sdemo1) c = (if c = 1 then [x] else [])" by (auto simp: server_start_def)
  from sdemo2_append obtain r md where
    a: "st_append_turn demo_senv 300 (sv_store (server_start sdemo1)) 1 0 ''T'' 1 1 0 1 (replicate 32 1) [9] = (sv_store (server_start sdemo2), Inr (r, md))"
    by (auto simp: server_start_def)
  from history_append [OF demo_sources(2,3) _ a, of c] append_ok_demo1
  show "\<exists>y. context_history demo_senv (server_start sdemo2) c = context_history demo_senv (server_start sdemo1) c @ (if c = 1 then [y] else [])"
    by (auto simp: server_start_def)
qed

lemma demo_growing: "growing demo_senv [server_start sdemo1, server_start sdemo2]"
proof -
  have "prefix (context_history demo_senv (server_start sdemo1) c) (context_history demo_senv (server_start sdemo2) c)" for c
    using demo_histories(3) [of c] by (metis prefixI)
  with demo_sources show ?thesis by (simp add: growing_def)
qed

section \<open>Properties\<close>

abbreviation follow_server ::
    "store_env \<Rightarrow> (io_kind \<Rightarrow> string) \<Rightarrow> Conn \<Rightarrow> stream_env \<Rightarrow> (decode_error \<Rightarrow> string) \<Rightarrow> FollowOptions
     \<Rightarrow> (ServerState \<times> (ClientTurnRecord \<Rightarrow> FollowError + unit) \<times> Event) list \<Rightarrow> follower" where
  "follow_server env io_msg conn sn msg opts rounds \<equiv>
     follow_turns sn msg opts (map (map_prod (server_calls env io_msg 0 0 conn) id) rounds)"

lemma follow_server_ok:
  assumes "growing env (map fst rounds @ [s])"
  shows "follower_ok (context_history env s) (follow_server env io_msg conn sn msg opts rounds)"
proof (rule follower_ok_grows)
  show "follower_ok (if rounds = [] then (\<lambda>_. []) else context_history env (fst (last rounds))) (follow_server env io_msg conn sn msg opts rounds)"
    unfolding follow_turns_def
    by (rule followed_server.run_followed) (use assms in \<open>auto simp: growing_def list_all_iff sorted_wrt_append follower_ok_new\<close>)
qed (use assms last_in_set [of rounds] in \<open>force simp: growing_def sorted_wrt_append split: if_splits\<close>)





text \<open>C38. The head and the turns are asked for in two calls.  A turn appended between them pushes the oldest missing
  turn out of the answer: it is not handed on now, nor by any later synchronisation, since the state says that everything
  up to the newest turn has been seen.\<close>

theorem follow_race_skips_turn:
  assumes "source_valid env s" and "source_valid env s'" and "source_valid env s''"
    and "context_history env s' c = context_history env s c @ new" and "new \<noteq> []"
    and "prefix (context_history env s' c) (context_history env s'' c)"
    and "followed (context_history env s c) k st" and "k < length (context_history env s c)"
    and "heads (turn_store (sv_store s)) c \<noteq> None" and "heads (turn_store (sv_store s')) c \<noteq> None"
    and "\<And>t. send t = Inr ()"
  shows "\<exists>st' out. sync_context \<lparr>tc_get_head = tc_get_head (server_calls env io_msg 0 0 conn s),
        tc_get_last = tc_get_last (server_calls env io_msg 0 0 conn s')\<rparr> send c st = (st', out, Inr ()) \<and>
      context_history env s c ! k \<notin> ft_turn ` set out \<and>
      (case sync_context (server_calls env io_msg 0 0 conn s'') send' c st' of (st'', out', r) \<Rightarrow> context_history env s c ! k \<notin> ft_turn ` set out')"
proof -
  let ?h = "context_history env s' c" and ?h2 = "context_history env s'' c" and ?calls = "server_calls env io_msg 0 0 conn"
  obtain h h' where h: "heads (turn_store (sv_store s)) c = Some h" "heads (turn_store (sv_store s')) c = Some h'"
    using assms(9,10) by blast
  obtain hh where hh: "tc_get_head (?calls s) c = Inr hh" using server_calls_ok(1) [OF assms(1) h(1)] by blast
  obtain st' out where y: "sync_context \<lparr>tc_get_head = tc_get_head (?calls s), tc_get_last = tc_get_last (?calls s')\<rparr> send c st = (st', out, Inr ())"
      "map ft_turn out = drop (k + length new) ?h" "followed ?h (length ?h) st'"
    using followed_server.sync_raced [where send = send, OF assms(1,2,4,7,8) hh server_calls_ok(2) [OF assms(2) h(2)] assms(11)] by blast
  obtain st2 out2 r where y2: "sync_context (?calls s'') send' c st' = (st2, out2, r)" by (metis prod_cases3)
  from followed_server.sync_followed [OF assms(3) followed_prefix [OF y(3) assms(6)] y2] obtain j where
    "map ft_turn out2 = drop (length ?h) (take j ?h2)" by blast
  have d: "distinct ?h2" using history_ok [OF assms(3), of c] by (auto simp: numbered_def distinct_map)
  have at: "context_history env s c ! k = ?h2 ! k" using assms(4,6,8) by (auto simp: prefix_def nth_append)
  have gone: "?h2 ! k \<notin> set (drop n (take j ?h2))" if "k < n" for n j
    by (rule nth_not_later [OF d that]) (use assms(4,6,8) in \<open>auto simp: prefix_def\<close>)
  have "drop (k + length new) ?h = drop (k + length new) (take (length ?h) ?h2)" using assms(6) by (auto simp: prefix_def)
  with y(2) gone [of "k + length new" "length ?h"] assms(5) have "context_history env s c ! k \<notin> ft_turn ` set out"
    unfolding at by (metis image_set length_greater_0_conv less_add_same_cancel1)
  moreover have "context_history env s c ! k \<notin> ft_turn ` set out2"
    using gone [of "length ?h" j] \<open>map ft_turn out2 = _\<close> assms(4,8) unfolding at by (metis image_set length_append trans_less_add1)
  ultimately show ?thesis using y(1) y2 by auto
qed

theorem follow_race_skips_turn_witness:
  "\<exists>st' out. sync_context \<lparr>tc_get_head = tc_get_head (server_calls demo_senv (\<lambda>_. []) 0 0 vconn0 (server_start sdemo1)),
        tc_get_last = tc_get_last (server_calls demo_senv (\<lambda>_. []) 0 0 vconn0 (server_start sdemo2))\<rparr> (\<lambda>_. Inr ()) 1 (follow_state_new 0) =
      (st', out, Inr ()) \<and> demo_history sdemo1 ! 0 \<notin> ft_turn ` set out"
proof -
  obtain x y where h: "demo_history sdemo1 = [x]" "demo_history sdemo2 = demo_history sdemo1 @ [y]" using demo_histories(2,3) [of 1] by auto
  have "heads (turn_store (sv_store (server_start sdemo1))) 1 \<noteq> None" "heads (turn_store (sv_store (server_start sdemo2))) 1 \<noteq> None"
    by (simp_all add: server_start_def sdemo1_heads(1) sdemo2_heads)
  from follow_race_skips_turn [OF demo_sources(2,3,3) h(2) _ _ _ _ this, where k = 0 and st = "follow_state_new 0" and send = "\<lambda>_. Inr ()"
      and io_msg = "\<lambda>_. []" and conn = vconn0 and send' = "\<lambda>_. Inr ()"]
  show ?thesis using h by auto
qed

end
