(* ===== verification/Client_Api.thy ===== *)
theory Client_Api
  imports Client Rust_Str
begin

text \<open>
  The calls of the Rust client (\<^verbatim>\<open>client.rs\<close>, \<^verbatim>\<open>context.rs\<close>, \<^verbatim>\<open>turn.rs\<close>, \<^verbatim>\<open>fs.rs\<close>) on a connection:
  options, dialling and one function per request.

  The other end is a state \<open>'w\<close> with a function that takes the bytes of a request and gives its next state, the bytes that
  can be read back and why they end there.  Resolving names, opening sockets and TLS are arguments.
\<close>

section \<open>Options\<close>

record ClientOptions =
  co_dial_timeout :: nat
  co_request_timeout :: nat
  co_client_tag :: string

text \<open>Durations are milliseconds.\<close>

definition DEFAULT_DIAL_TIMEOUT :: nat where "DEFAULT_DIAL_TIMEOUT = 5000"
definition DEFAULT_REQUEST_TIMEOUT :: nat where "DEFAULT_REQUEST_TIMEOUT = 30000"

definition client_options_default :: ClientOptions where
  "client_options_default =
     \<lparr>co_dial_timeout = DEFAULT_DIAL_TIMEOUT, co_request_timeout = DEFAULT_REQUEST_TIMEOUT, co_client_tag = []\<rparr>"

definition with_dial_timeout :: "nat \<Rightarrow> ClientOptions \<Rightarrow> ClientOptions" where
  "with_dial_timeout t o1 = o1\<lparr>co_dial_timeout := t\<rparr>"

definition with_request_timeout :: "nat \<Rightarrow> ClientOptions \<Rightarrow> ClientOptions" where
  "with_request_timeout t o1 = o1\<lparr>co_request_timeout := t\<rparr>"

definition co_with_client_tag :: "string \<Rightarrow> ClientOptions \<Rightarrow> ClientOptions" where
  "co_with_client_tag tag o1 = o1\<lparr>co_client_tag := tag\<rparr>"

definition rc_background :: RequestContext where
  "rc_background = \<lparr>rc_deadline = None, rc_cancelled = False\<rparr>"

definition rc_with_deadline :: "nat \<Rightarrow> RequestContext" where
  "rc_with_deadline deadline = \<lparr>rc_deadline = Some deadline, rc_cancelled = False\<rparr>"

definition rc_with_timeout :: "nat \<Rightarrow> nat \<Rightarrow> RequestContext" where
  "rc_with_timeout now timeout = rc_with_deadline (now + timeout)"

definition cancel :: "RequestContext \<Rightarrow> RequestContext" where
  "cancel ctx = ctx\<lparr>rc_cancelled := True\<rparr>"

section \<open>Requests on a connection\<close>

type_synonym 'w peer = "'w \<Rightarrow> bytes \<Rightarrow> 'w \<times> bytes \<times> io_kind"
type_synonym ('w, 'a) call = "ClientState \<times> 'w \<Rightarrow> (ClientState \<times> 'w) \<times> 'a cres"

definition send_on :: "nat \<Rightarrow> 'w peer \<Rightarrow> RequestContext \<Rightarrow> u16 \<Rightarrow> u16 \<Rightarrow> bytes \<Rightarrow> ('w, FrameHeader \<times> bytes) call" where
  "send_on now peer ctx msg_type flags payload cw =
     (case cw of (c, w) \<Rightarrow>
        (case peer w (client_write_frame msg_type flags (cl_req_id c + 1) payload) of (w1, resp, ending) \<Rightarrow>
           (case send_request_with_flags now (\<lambda>_. resp) ending c ctx msg_type flags payload of (c1, sent, r) \<Rightarrow>
              ((c1, if sent = [] then w else w1), r))))"

text \<open>\<^verbatim>\<open>send_request\<close>, and what the methods do with the payload of the response.\<close>

definition request :: "nat \<Rightarrow> 'w peer \<Rightarrow> RequestContext \<Rightarrow> MsgType \<Rightarrow> bytes \<Rightarrow> (bytes \<Rightarrow> 'a cres) \<Rightarrow> ('w, 'a) call" where
  "request now peer ctx ty payload parse cw =
     (case send_on now peer ctx (msg_code ty) 0 payload cw of (cw, r) \<Rightarrow> (cw, rbind r (\<lambda>(h, resp). parse resp)))"

definition client_create_context :: "nat \<Rightarrow> 'w peer \<Rightarrow> RequestContext \<Rightarrow> u64 \<Rightarrow> ('w, ClientContextHead) call" where
  "client_create_context now peer ctx base_turn_id = request now peer ctx CtxCreate (client_u64_payload base_turn_id) parse_context_head"

definition client_fork_context :: "nat \<Rightarrow> 'w peer \<Rightarrow> RequestContext \<Rightarrow> u64 \<Rightarrow> ('w, ClientContextHead) call" where
  "client_fork_context now peer ctx base_turn_id = request now peer ctx CtxFork (client_u64_payload base_turn_id) parse_context_head"

definition client_get_head :: "nat \<Rightarrow> 'w peer \<Rightarrow> RequestContext \<Rightarrow> u64 \<Rightarrow> ('w, ClientContextHead) call" where
  "client_get_head now peer ctx context_id = request now peer ctx GetHead (client_u64_payload context_id) parse_context_head"

definition client_append_turn :: "(bytes \<Rightarrow> bytes) \<Rightarrow> nat \<Rightarrow> 'w peer \<Rightarrow> RequestContext \<Rightarrow> AppendRequest \<Rightarrow> ('w, AppendResult) call" where
  "client_append_turn blake3 now peer ctx req = request now peer ctx AppendTurn (client_append_payload blake3 req) parse_append_result"

definition client_get_last :: "nat \<Rightarrow> 'w peer \<Rightarrow> RequestContext \<Rightarrow> u64 \<Rightarrow> u32 \<Rightarrow> bool \<Rightarrow> ('w, ClientTurnRecord list) call" where
  "client_get_last now peer ctx context_id limit include_payload =
     request now peer ctx GetLast (client_get_last_payload context_id limit include_payload) parse_turn_records"

definition client_attach_fs :: "nat \<Rightarrow> 'w peer \<Rightarrow> RequestContext \<Rightarrow> AttachFsRequest \<Rightarrow> ('w, AttachFsRequest) call" where
  "client_attach_fs now peer ctx req = request now peer ctx AttachFs (client_attach_fs_payload req) parse_attach_fs_result"

definition client_put_blob :: "(bytes \<Rightarrow> bytes) \<Rightarrow> nat \<Rightarrow> 'w peer \<Rightarrow> RequestContext \<Rightarrow> bytes \<Rightarrow> ('w, bytes \<times> bool) call" where
  "client_put_blob blake3 now peer ctx data = request now peer ctx PutBlob (client_put_blob_payload blake3 data) parse_put_blob_result"

definition client_put_blob_if_absent :: "(bytes \<Rightarrow> bytes) \<Rightarrow> nat \<Rightarrow> 'w peer \<Rightarrow> RequestContext \<Rightarrow> bytes \<Rightarrow> ('w, bytes \<times> bool) call" where
  "client_put_blob_if_absent blake3 now peer ctx data = client_put_blob blake3 now peer ctx data"

definition client_append_turn_with_fs ::
    "(bytes \<Rightarrow> bytes) \<Rightarrow> nat \<Rightarrow> 'w peer \<Rightarrow> RequestContext \<Rightarrow> AppendRequest \<Rightarrow> bytes option \<Rightarrow> ('w, AppendResult) call" where
  "client_append_turn_with_fs blake3 now peer ctx req fs_root_hash cw =
     (case client_append_with_fs blake3 req fs_root_hash of (flags, payload) \<Rightarrow>
        (case send_on now peer ctx (msg_code AppendTurn) flags payload cw of (cw, r) \<Rightarrow>
           (cw, rbind r (\<lambda>(h, resp). parse_append_result resp))))"

section \<open>Dialling\<close>

text \<open>\<open>addrs\<close>: what resolving the address gives, each address with what connecting to it gives.\<close>

fun connect_loop :: "(io_kind + 'a) list \<Rightarrow> io_kind option \<Rightarrow> 'a cres" where
  "connect_loop [] last_err = Inl (CIo (case last_err of Some k \<Rightarrow> k | None \<Rightarrow> OtherIo))"
| "connect_loop (Inr stream # addrs) last_err = Inr stream"
| "connect_loop (Inl k # addrs) last_err = connect_loop addrs (Some k)"

definition connect_tcp :: "io_kind + (io_kind + 'a) list \<Rightarrow> 'a cres" where
  "connect_tcp addrs = (case addrs of Inl k \<Rightarrow> Inl (CIo k) | Inr rs \<Rightarrow> connect_loop rs None)"

text \<open>The handshake on a new connection; a client that fails it is closed and dropped.\<close>

definition new_client :: "ClientOptions \<Rightarrow> ClientState" where
  "new_client opts =
     \<lparr>cl_req_id = 0, cl_closed = False, cl_timeout = co_request_timeout opts, cl_session_id = 0, cl_client_tag = co_client_tag opts\<rparr>"

definition greet :: "nat \<Rightarrow> 'w peer \<Rightarrow> ClientOptions \<Rightarrow> 'w \<Rightarrow> 'w \<times> ClientState cres" where
  "greet now peer opts w =
     (let c = new_client opts
      in case peer w (client_write_frame (msg_code Hello) 0 (cl_req_id c + 1) (client_hello_payload (co_client_tag opts))) of (w1, resp, ending) \<Rightarrow>
           (case send_hello now (\<lambda>_. resp) ending c (co_client_tag opts) of (c1, sent, r) \<Rightarrow>
              (if sent = [] then w else w1, case r of Inl e \<Rightarrow> Inl e | Inr _ \<Rightarrow> Inr c1)))"

definition dial :: "nat \<Rightarrow> 'w peer \<Rightarrow> ClientOptions \<Rightarrow> io_kind + (io_kind + 'w) list \<Rightarrow> 'w option \<times> ClientState cres" where
  "dial now peer opts addrs =
     (case connect_tcp addrs of
        Inl e \<Rightarrow> (None, Inl e)
      | Inr w \<Rightarrow> (case greet now peer opts w of (w, r) \<Rightarrow> (Some w, r)))"

text \<open>\<^verbatim>\<open>rsplit_once\<close>\<close>

definition rsplit_once :: "char \<Rightarrow> string \<Rightarrow> (string \<times> string) option" where
  "rsplit_once c s =
     (if c \<in> set s then
        Some (rev (tl (dropWhile (\<lambda>x. x \<noteq> c) (rev s))), rev (takeWhile (\<lambda>x. x \<noteq> c) (rev s)))
      else None)"

definition server_name_from_addr :: "(string \<Rightarrow> bool) \<Rightarrow> string \<Rightarrow> string cres" where
  "server_name_from_addr valid_name addr =
     (let host = (if starts_with addr ''['' then trim_start_matches (CHR ''['') (takeWhile (\<lambda>c. c \<noteq> CHR '']'') addr)
                  else case rsplit_once (CHR '':'') addr of Some (host, _) \<Rightarrow> host | None \<Rightarrow> addr)
      in if valid_name host then Inr host else Inl (Tls (''invalid server name: '' @ host)))"

text \<open>\<open>config\<close>: the TLS configuration or the error of reading the certificates; \<open>connect\<close> starts TLS for a name.\<close>

definition dial_tls ::
    "nat \<Rightarrow> 'w peer \<Rightarrow> ClientOptions \<Rightarrow> io_kind + (io_kind + 'w) list \<Rightarrow> (string + unit) \<Rightarrow> (string \<Rightarrow> bool) \<Rightarrow> (string \<Rightarrow> string + unit)
     \<Rightarrow> string \<Rightarrow> 'w option \<times> ClientState cres" where
  "dial_tls now peer opts addrs config valid_name connect addr =
     (case connect_tcp addrs of
        Inl e \<Rightarrow> (None, Inl e)
      | Inr w \<Rightarrow>
          (case config of
             Inl e \<Rightarrow> (Some w, Inl (Tls e))
           | Inr _ \<Rightarrow>
               (case server_name_from_addr valid_name addr of
                  Inl e \<Rightarrow> (Some w, Inl e)
                | Inr name \<Rightarrow>
                    (case connect name of
                       Inl e \<Rightarrow> (Some w, Inl (Tls e))
                     | Inr _ \<Rightarrow> (case greet now peer opts w of (w, r) \<Rightarrow> (Some w, r))))))"

end
