(* ===== verification/Client_Reconnect.thy ===== *)
theory Client_Reconnect
  imports Client_Api
begin

text \<open>
  The reconnecting client (\<^verbatim>\<open>clients/rust/src/reconnect.rs\<close>): callers put requests into a bounded queue, one worker
  thread runs them on the connection and dials again when it is lost.

  \<open>'w\<close> is everything outside the client, as in \<open>Client_Api\<close>.  What the worker finds when it looks at the flags and the
  clock (cancelled, past the deadline, closed by another thread) is an argument.  Sleeps last as long as asked; \<open>in_reported\<close> are the sessions
  a callback set with \<^verbatim>\<open>with_on_reconnect\<close> is told of.
\<close>

section \<open>Options\<close>

record ReconnectConfig =
  rcf_max_retries :: nat
  rcf_retry_delay :: nat
  rcf_max_retry_delay :: nat
  rcf_queue_size :: nat

definition DEFAULT_MAX_RETRIES :: nat where "DEFAULT_MAX_RETRIES = 5"
definition DEFAULT_RETRY_DELAY :: nat where "DEFAULT_RETRY_DELAY = 100"
definition DEFAULT_MAX_RETRY_DELAY :: nat where "DEFAULT_MAX_RETRY_DELAY = 30000"
definition DEFAULT_QUEUE_SIZE :: nat where "DEFAULT_QUEUE_SIZE = 10000"

definition reconnect_defaults :: ReconnectConfig where
  "reconnect_defaults =
     \<lparr>rcf_max_retries = DEFAULT_MAX_RETRIES, rcf_retry_delay = DEFAULT_RETRY_DELAY, rcf_max_retry_delay = DEFAULT_MAX_RETRY_DELAY,
      rcf_queue_size = DEFAULT_QUEUE_SIZE\<rparr>"

definition with_max_retries :: "nat \<Rightarrow> ReconnectConfig \<Rightarrow> ReconnectConfig" where
  "with_max_retries n cfg = cfg\<lparr>rcf_max_retries := n\<rparr>"

definition with_retry_delay :: "nat \<Rightarrow> ReconnectConfig \<Rightarrow> ReconnectConfig" where
  "with_retry_delay d cfg = cfg\<lparr>rcf_retry_delay := d\<rparr>"

definition with_max_retry_delay :: "nat \<Rightarrow> ReconnectConfig \<Rightarrow> ReconnectConfig" where
  "with_max_retry_delay d cfg = cfg\<lparr>rcf_max_retry_delay := d\<rparr>"

definition with_queue_size :: "nat \<Rightarrow> ReconnectConfig \<Rightarrow> ReconnectConfig" where
  "with_queue_size n cfg = cfg\<lparr>rcf_queue_size := n\<rparr>"

section \<open>Connection errors\<close>

definition conn_patterns :: "string list" where
  "conn_patterns =
     [''connection reset'', ''connection refused'', ''broken pipe'', ''use of closed network connection'', ''network is unreachable'',
      ''no route to host'', ''connection timed out'', ''i/o timeout'']"

text \<open>\<open>lower\<close> is \<^verbatim>\<open>to_lowercase\<close>, \<open>io_msg\<close> the text of an I/O error.\<close>

definition contains_connection_pattern :: "(string \<Rightarrow> string) \<Rightarrow> string \<Rightarrow> bool" where
  "contains_connection_pattern lower msg \<longleftrightarrow> list_ex (str_contains (lower msg)) conn_patterns"

fun client_error_text :: "(io_kind \<Rightarrow> string) \<Rightarrow> client_error \<Rightarrow> string" where
  "client_error_text io_msg ClientClosed = ''cxdb: client closed''"
| "client_error_text io_msg ContextNotFound = ''cxdb: context not found''"
| "client_error_text io_msg TurnNotFound = ''cxdb: turn not found''"
| "client_error_text io_msg (InvalidResponse msg) = ''cxdb: invalid response: '' @ msg"
| "client_error_text io_msg (Server code detail) = ''cxdb server error '' @ dec_str (unat code) @ '': '' @ detail"
| "client_error_text io_msg (CIo k) = ''cxdb io: '' @ io_msg k"
| "client_error_text io_msg (Tls msg) = ''cxdb tls: '' @ msg"
| "client_error_text io_msg Timeout = ''cxdb: deadline exceeded''"
| "client_error_text io_msg Cancelled = ''cxdb: request cancelled''"
| "client_error_text io_msg QueueFull = ''cxdb: request queue full''"

fun is_connection_error :: "(string \<Rightarrow> string) \<Rightarrow> (io_kind \<Rightarrow> string) \<Rightarrow> client_error \<Rightarrow> bool" where
  "is_connection_error lower io_msg ClientClosed \<longleftrightarrow> False"
| "is_connection_error lower io_msg (Server _ _) \<longleftrightarrow> False"
| "is_connection_error lower io_msg Timeout \<longleftrightarrow> False"
| "is_connection_error lower io_msg Cancelled \<longleftrightarrow> False"
| "is_connection_error lower io_msg QueueFull \<longleftrightarrow> False"
| "is_connection_error lower io_msg (CIo k) \<longleftrightarrow>
     k \<in> {ConnectionReset, ConnectionAborted, BrokenPipe, ConnectionRefused, TimedOut, UnexpectedEof, NotConnected} \<or>
     contains_connection_pattern lower (io_msg k)"
| "is_connection_error lower io_msg (Tls msg) \<longleftrightarrow> contains_connection_pattern lower msg"
| "is_connection_error lower io_msg (InvalidResponse msg) \<longleftrightarrow> contains_connection_pattern lower msg"
| "is_connection_error lower io_msg err \<longleftrightarrow> contains_connection_pattern lower (client_error_text io_msg err)"

section \<open>Reconnecting\<close>

record 'w Inner =
  in_client :: "ClientState option"
  in_world :: 'w
  in_reported :: "u64 list"

text \<open>What \<^verbatim>\<open>sleep_with_cancel\<close> finds at its \<open>k\<close>th look, and whether the client is closed before the \<open>n\<close>th attempt.\<close>

record looks =
  lk_closed_nap :: "nat \<Rightarrow> nat \<Rightarrow> bool"
  lk_cancelled :: "nat \<Rightarrow> nat \<Rightarrow> bool"
  lk_past_deadline :: "nat \<Rightarrow> nat \<Rightarrow> bool"
  lk_closed :: "nat \<Rightarrow> bool"

function sleep_with_cancel :: "looks \<Rightarrow> nat \<Rightarrow> nat \<Rightarrow> nat \<Rightarrow> unit cres" where
  "sleep_with_cancel lk n k remaining =
     (if remaining = 0 then Inr ()
      else if lk_closed_nap lk n k then Inl ClientClosed
      else if lk_cancelled lk n k then Inl Cancelled
      else if lk_past_deadline lk n k then Inl Timeout
      else sleep_with_cancel lk n (Suc k) (remaining - (if remaining < 50 then remaining else 50)))"
  by pat_completeness auto
termination
  by (relation "measure (\<lambda>(lk, n, k, remaining). remaining)") auto

declare sleep_with_cancel.simps [simp del]

text \<open>What the loop does besides: naps of some length, and dials.\<close>

datatype rn_act = Nap nat | Dial

text \<open>The attempts left, the number of the next one and the delay before it.  Closing the old connection can fail, which is
  ignored.\<close>

fun reconnect_loop ::
    "ReconnectConfig \<Rightarrow> ('w \<Rightarrow> 'w \<times> ClientState cres) \<Rightarrow> looks \<Rightarrow> nat \<Rightarrow> nat \<Rightarrow> nat \<Rightarrow> client_error option \<Rightarrow> 'w Inner
     \<Rightarrow> 'w Inner \<times> rn_act list \<times> unit cres" where
  "reconnect_loop cfg dial_func lk 0 attempt delay last_err inner =
     (inner, [], Inl (case last_err of Some e \<Rightarrow> e | None \<Rightarrow> ClientClosed))"
| "reconnect_loop cfg dial_func lk (Suc left) attempt delay last_err inner =
     (let nap = (if 1 < attempt then [Nap delay] else []);
          slept = (if 1 < attempt then sleep_with_cancel lk attempt 0 delay else Inr ());
          delay = (if 1 < attempt then min (delay * 2) (rcf_max_retry_delay cfg) else delay)
      in case slept of
           Inl e \<Rightarrow> (inner, nap, Inl e)
         | Inr _ \<Rightarrow>
             if lk_closed lk attempt then (inner, nap, Inl ClientClosed)
             else
               let inner = inner\<lparr>in_client := None\<rparr>
               in (case dial_func (in_world inner) of
                     (w, Inr client) \<Rightarrow>
                       (inner\<lparr>in_client := Some client, in_world := w, in_reported := in_reported inner @ [cl_session_id client]\<rparr>,
                        nap @ [Dial], Inr ())
                   | (w, Inl err) \<Rightarrow>
                       (case reconnect_loop cfg dial_func lk left (Suc attempt) delay (Some err) (inner\<lparr>in_world := w\<rparr>) of
                          (inner, acts, r) \<Rightarrow> (inner, nap @ Dial # acts, r))))"

definition reconnect ::
    "ReconnectConfig \<Rightarrow> ('w \<Rightarrow> 'w \<times> ClientState cres) \<Rightarrow> looks \<Rightarrow> 'w Inner \<Rightarrow> 'w Inner \<times> rn_act list \<times> unit cres" where
  "reconnect cfg dial_func lk inner = reconnect_loop cfg dial_func lk (rcf_max_retries cfg) 1 (rcf_retry_delay cfg) None inner"

section \<open>Requests\<close>

text \<open>Running an operation on the client in the slot.  The methods store the value of the operation next to the queue;
  here the operation returns it.\<close>

definition run_op :: "('w, 'a) call \<Rightarrow> ClientState \<Rightarrow> 'w Inner \<Rightarrow> 'w Inner \<times> 'a cres" where
  "run_op op client inner =
     (case op (client, in_world inner) of ((client, w), r) \<Rightarrow> (inner\<lparr>in_client := Some client, in_world := w\<rparr>, r))"

text \<open>\<open>cancelled\<close> and \<open>past_deadline\<close>: what the worker finds when it takes the request.\<close>

definition process_request ::
    "(string \<Rightarrow> string) \<Rightarrow> (io_kind \<Rightarrow> string) \<Rightarrow> ReconnectConfig \<Rightarrow> ('w \<Rightarrow> 'w \<times> ClientState cres) \<Rightarrow> looks \<Rightarrow> bool \<Rightarrow> bool
     \<Rightarrow> ('w, 'a) call \<Rightarrow> 'w Inner \<Rightarrow> 'w Inner \<times> rn_act list \<times> 'a cres" where
  "process_request lower io_msg cfg dial_func lk cancelled past_deadline op inner =
     (if cancelled then (inner, [], Inl Cancelled)
      else if past_deadline then (inner, [], Inl Timeout)
      else
        (case in_client inner of
           None \<Rightarrow> (inner, [], Inl ClientClosed)
         | Some client \<Rightarrow>
             (case run_op op client inner of
                (inner, Inl e) \<Rightarrow>
                  if is_connection_error lower io_msg e then
                    (case reconnect cfg dial_func lk inner of
                       (inner, acts, Inl reconn_err) \<Rightarrow> (inner, acts, Inl reconn_err)
                     | (inner, acts, Inr _) \<Rightarrow>
                         (case in_client inner of
                            Some client \<Rightarrow> (case run_op op client inner of (inner, r) \<Rightarrow> (inner, acts, r))
                          | None \<Rightarrow> (inner, acts, Inl e)))
                  else (inner, [], Inl e)
              | (inner, r) \<Rightarrow> (inner, [], r))))"

definition rn_session_id :: "'w Inner \<Rightarrow> u64" where
  "rn_session_id inner = (case in_client inner of Some c \<Rightarrow> cl_session_id c | None \<Rightarrow> 0)"

definition rn_client_tag :: "'w Inner \<Rightarrow> string" where
  "rn_client_tag inner = (case in_client inner of Some c \<Rightarrow> cl_client_tag c | None \<Rightarrow> [])"

text \<open>The first connection: dialling once, and failing when that fails.\<close>

definition dial_reconnecting :: "('w \<Rightarrow> 'w \<times> ClientState cres) \<Rightarrow> 'w \<Rightarrow> 'w \<times> 'w Inner cres" where
  "dial_reconnecting dial_func w =
     (case dial_func w of
        (w, Inl e) \<Rightarrow> (w, Inl e)
      | (w, Inr client) \<Rightarrow> (w, Inr \<lparr>in_client = Some client, in_world = w, in_reported = []\<rparr>))"

text \<open>\<^verbatim>\<open>wait_for_result\<close>: one round per receive, with what the caller finds before it (cancelled, past the deadline), what
  the receive gives and what the caller finds after a receive that ran out of time.  \<open>None\<close> is a caller that waits for ever.\<close>

datatype 'a recv_result = Received 'a | RecvTimeout | RecvDisconnected

fun wait_for_result :: "((bool \<times> bool) \<times> 'a cres recv_result \<times> bool \<times> bool) list \<Rightarrow> 'a cres option" where
  "wait_for_result [] = None"
| "wait_for_result (((cancelled, past_deadline), received, cancelled_after, past_after) # rounds) =
     (if cancelled then Some (Inl Cancelled)
      else if past_deadline then Some (Inl Timeout)
      else
        (case received of
           Received r \<Rightarrow> Some r
         | RecvTimeout \<Rightarrow>
             if cancelled_after then Some (Inl Cancelled)
             else if past_after then Some (Inl Timeout)
             else wait_for_result rounds
         | RecvDisconnected \<Rightarrow> Some (Inl ClientClosed)))"

section \<open>The queue\<close>

text \<open>
  The client with its callers.  A request is known by its number.  \<open>rq_admitted\<close> are the callers that have passed the
  checks of \<^verbatim>\<open>enqueue\<close> and not yet put their request into the queue; \<open>rq_sent\<close> are the requests put into it so far, in
  order, and \<open>rq_answers\<close> the answers sent back, in order.  The capacity of the queue is at least one.
\<close>

record ('w, 'a) rqueue =
  rq_inner :: "'w Inner"
  rq_queue :: "(nat \<times> ('w, 'a) call) list"
  rq_closed :: bool
  rq_shutdown :: bool
  rq_worker :: bool
  rq_admitted :: "(nat \<times> ('w, 'a) call) list"
  rq_refused :: "(nat \<times> client_error) list"
  rq_sent :: "nat list"
  rq_answers :: "(nat \<times> 'a cres) list"

definition rq_start :: "'w Inner \<Rightarrow> ('w, 'a) rqueue" where
  "rq_start inner =
     \<lparr>rq_inner = inner, rq_queue = [], rq_closed = False, rq_shutdown = False, rq_worker = True, rq_admitted = [], rq_refused = [],
      rq_sent = [], rq_answers = []\<rparr>"

text \<open>\<^verbatim>\<open>enqueue\<close> up to the queue, and \<^verbatim>\<open>try_send\<close>: other threads may run in between.\<close>

definition enqueue_check :: "nat \<Rightarrow> bool \<Rightarrow> bool \<Rightarrow> ('w, 'a) call \<Rightarrow> ('w, 'a) rqueue \<Rightarrow> ('w, 'a) rqueue" where
  "enqueue_check i cancelled past_deadline op q =
     (if rq_closed q then q\<lparr>rq_refused := rq_refused q @ [(i, ClientClosed)]\<rparr>
      else if cancelled then q\<lparr>rq_refused := rq_refused q @ [(i, Cancelled)]\<rparr>
      else if past_deadline then q\<lparr>rq_refused := rq_refused q @ [(i, Timeout)]\<rparr>
      else q\<lparr>rq_admitted := rq_admitted q @ [(i, op)]\<rparr>)"

definition enqueue_send :: "nat \<Rightarrow> nat \<Rightarrow> ('w, 'a) call \<Rightarrow> ('w, 'a) rqueue \<Rightarrow> ('w, 'a) rqueue" where
  "enqueue_send capacity i op q =
     (let q = q\<lparr>rq_admitted := filter (\<lambda>x. fst x \<noteq> i) (rq_admitted q)\<rparr>
      in if capacity \<le> length (rq_queue q) then q\<lparr>rq_refused := rq_refused q @ [(i, QueueFull)]\<rparr>
         else q\<lparr>rq_queue := rq_queue q @ [(i, op)], rq_sent := rq_sent q @ [i]\<rparr>)"

text \<open>The worker takes the oldest request.\<close>

definition worker_take ::
    "(string \<Rightarrow> string) \<Rightarrow> (io_kind \<Rightarrow> string) \<Rightarrow> ReconnectConfig \<Rightarrow> ('w \<Rightarrow> 'w \<times> ClientState cres) \<Rightarrow> looks \<Rightarrow> bool \<Rightarrow> bool
     \<Rightarrow> ('w, 'a) rqueue \<Rightarrow> ('w, 'a) rqueue" where
  "worker_take lower io_msg cfg dial_func lk cancelled past_deadline q =
     (case rq_queue q of
        [] \<Rightarrow> q
      | (i, op) # rest \<Rightarrow>
          (case process_request lower io_msg cfg dial_func lk cancelled past_deadline op (rq_inner q) of
             (inner, acts, r) \<Rightarrow> q\<lparr>rq_inner := inner, rq_queue := rest, rq_answers := rq_answers q @ [(i, r)]\<rparr>))"

definition drain_queue :: "('w, 'a) rqueue \<Rightarrow> ('w, 'a) rqueue" where
  "drain_queue q =
     q\<lparr>rq_answers := rq_answers q @ map (\<lambda>(i, op). (i, Inl ClientClosed)) (rq_queue q), rq_queue := []\<rparr>"

definition worker_stop :: "('w, 'a) rqueue \<Rightarrow> ('w, 'a) rqueue" where
  "worker_stop q = (drain_queue q)\<lparr>rq_shutdown := False, rq_worker := False\<rparr>"

text \<open>\<^verbatim>\<open>close\<close> before and after it waits for the worker.\<close>

definition close_begin :: "('w, 'a) rqueue \<Rightarrow> ('w, 'a) rqueue" where
  "close_begin q = (if rq_closed q then q else q\<lparr>rq_closed := True, rq_shutdown := True\<rparr>)"

definition close_end :: "('w, 'a) rqueue \<Rightarrow> ('w, 'a) rqueue" where
  "close_end q = q\<lparr>rq_inner := (rq_inner q)\<lparr>in_client := None\<rparr>\<rparr>"

text \<open>
  The methods: each puts an operation into the queue that runs the call of the plain client and keeps its value for the
  caller, who takes it when the answer says that the operation succeeded.  The queue holds operations of one type, so the
  values are tagged.
\<close>

datatype rn_value =
    V_Head ClientContextHead
  | V_Append AppendResult
  | V_Turns "ClientTurnRecord list"
  | V_Fs AttachFsRequest
  | V_Blob "bytes \<times> bool"

definition keeping :: "('a \<Rightarrow> rn_value) \<Rightarrow> ('w, 'a) call \<Rightarrow> ('w, rn_value) call" where
  "keeping f op cw = (case op cw of (cw, r) \<Rightarrow> (cw, map_sum id f r))"

type_synonym 'w enqueuing = "nat \<Rightarrow> bool \<Rightarrow> bool \<Rightarrow> ('w, rn_value) rqueue \<Rightarrow> ('w, rn_value) rqueue"

definition rn_create_context :: "nat \<Rightarrow> 'w peer \<Rightarrow> RequestContext \<Rightarrow> u64 \<Rightarrow> 'w enqueuing" where
  "rn_create_context now peer ctx base_turn_id i cancelled past_deadline =
     enqueue_check i cancelled past_deadline (keeping V_Head (client_create_context now peer ctx base_turn_id))"

definition rn_fork_context :: "nat \<Rightarrow> 'w peer \<Rightarrow> RequestContext \<Rightarrow> u64 \<Rightarrow> 'w enqueuing" where
  "rn_fork_context now peer ctx base_turn_id i cancelled past_deadline =
     enqueue_check i cancelled past_deadline (keeping V_Head (client_fork_context now peer ctx base_turn_id))"

definition rn_get_head :: "nat \<Rightarrow> 'w peer \<Rightarrow> RequestContext \<Rightarrow> u64 \<Rightarrow> 'w enqueuing" where
  "rn_get_head now peer ctx context_id i cancelled past_deadline =
     enqueue_check i cancelled past_deadline (keeping V_Head (client_get_head now peer ctx context_id))"

definition rn_append_turn :: "(bytes \<Rightarrow> bytes) \<Rightarrow> nat \<Rightarrow> 'w peer \<Rightarrow> RequestContext \<Rightarrow> AppendRequest \<Rightarrow> 'w enqueuing" where
  "rn_append_turn blake3 now peer ctx req i cancelled past_deadline =
     enqueue_check i cancelled past_deadline (keeping V_Append (client_append_turn blake3 now peer ctx req))"

definition rn_get_last :: "nat \<Rightarrow> 'w peer \<Rightarrow> RequestContext \<Rightarrow> u64 \<Rightarrow> u32 \<Rightarrow> bool \<Rightarrow> 'w enqueuing" where
  "rn_get_last now peer ctx context_id limit include_payload i cancelled past_deadline =
     enqueue_check i cancelled past_deadline (keeping V_Turns (client_get_last now peer ctx context_id limit include_payload))"

definition rn_attach_fs :: "nat \<Rightarrow> 'w peer \<Rightarrow> RequestContext \<Rightarrow> AttachFsRequest \<Rightarrow> 'w enqueuing" where
  "rn_attach_fs now peer ctx req i cancelled past_deadline =
     enqueue_check i cancelled past_deadline (keeping V_Fs (client_attach_fs now peer ctx req))"

definition rn_put_blob :: "(bytes \<Rightarrow> bytes) \<Rightarrow> nat \<Rightarrow> 'w peer \<Rightarrow> RequestContext \<Rightarrow> bytes \<Rightarrow> 'w enqueuing" where
  "rn_put_blob blake3 now peer ctx data i cancelled past_deadline =
     enqueue_check i cancelled past_deadline (keeping V_Blob (client_put_blob blake3 now peer ctx data))"

definition rn_put_blob_if_absent :: "(bytes \<Rightarrow> bytes) \<Rightarrow> nat \<Rightarrow> 'w peer \<Rightarrow> RequestContext \<Rightarrow> bytes \<Rightarrow> 'w enqueuing" where
  "rn_put_blob_if_absent blake3 now peer ctx data i cancelled past_deadline =
     enqueue_check i cancelled past_deadline (keeping V_Blob (client_put_blob_if_absent blake3 now peer ctx data))"

definition rn_append_turn_with_fs ::
    "(bytes \<Rightarrow> bytes) \<Rightarrow> nat \<Rightarrow> 'w peer \<Rightarrow> RequestContext \<Rightarrow> AppendRequest \<Rightarrow> bytes option \<Rightarrow> 'w enqueuing" where
  "rn_append_turn_with_fs blake3 now peer ctx req fs_root_hash i cancelled past_deadline =
     enqueue_check i cancelled past_deadline (keeping V_Append (client_append_turn_with_fs blake3 now peer ctx req fs_root_hash))"

definition queue_length :: "('w, 'a) rqueue \<Rightarrow> nat" where
  "queue_length q = length (rq_queue q)"

inductive rq_step ::
    "(string \<Rightarrow> string) \<Rightarrow> (io_kind \<Rightarrow> string) \<Rightarrow> ReconnectConfig \<Rightarrow> ('w \<Rightarrow> 'w \<times> ClientState cres)
     \<Rightarrow> ('w, 'a) rqueue \<Rightarrow> ('w, 'a) rqueue \<Rightarrow> bool" for lower io_msg cfg dial_func where
  check: "i \<notin> set (rq_sent q) \<union> fst ` set (rq_admitted q) \<union> fst ` set (rq_refused q) \<Longrightarrow> rq_step lower io_msg cfg dial_func q (enqueue_check i cancelled past_deadline op q)"
| send: "(i, op) \<in> set (rq_admitted q) \<Longrightarrow> rq_step lower io_msg cfg dial_func q (enqueue_send (rcf_queue_size cfg) i op q)"
| take: "rq_worker q \<Longrightarrow> rq_queue q \<noteq> [] \<Longrightarrow> rq_step lower io_msg cfg dial_func q (worker_take lower io_msg cfg dial_func lk cancelled past_deadline q)"
| stop: "rq_worker q \<Longrightarrow> rq_shutdown q \<Longrightarrow> rq_step lower io_msg cfg dial_func q (worker_stop q)"
| close_begin: "rq_step lower io_msg cfg dial_func q (close_begin q)"
| close_end: "rq_closed q \<Longrightarrow> \<not> rq_worker q \<Longrightarrow> rq_step lower io_msg cfg dial_func q (close_end q)"

inductive rq_reach ::
    "(string \<Rightarrow> string) \<Rightarrow> (io_kind \<Rightarrow> string) \<Rightarrow> ReconnectConfig \<Rightarrow> ('w \<Rightarrow> 'w \<times> ClientState cres) \<Rightarrow> ('w, 'a) rqueue \<Rightarrow> ('w, 'a) rqueue \<Rightarrow> bool"
  for lower io_msg cfg dial_func q0 where
  here: "rq_reach lower io_msg cfg dial_func q0 q0"
| further: "rq_reach lower io_msg cfg dial_func q0 q \<Longrightarrow> rq_step lower io_msg cfg dial_func q q' \<Longrightarrow> rq_reach lower io_msg cfg dial_func q0 q'"

end
