(* ===== verification/Reconnect_Props.thy ===== *)
theory Reconnect_Props
  imports Client_Reconnect Protocol_Props "HOL-Library.Sublist"
begin

text \<open>
  What the reconnecting client guarantees (one answer per accepted request, in order; bounded dialling), and where it stops
  reconnecting.
\<close>

section \<open>The queue\<close>

definition rq_inv :: "ReconnectConfig \<Rightarrow> ('w, 'a) rqueue \<Rightarrow> bool" where
  "rq_inv cfg q \<longleftrightarrow>
     rq_sent q = map fst (rq_answers q) @ map fst (rq_queue q) \<and>
     distinct (rq_sent q @ map fst (rq_admitted q) @ map fst (rq_refused q)) \<and> length (rq_queue q) \<le> rcf_queue_size cfg"

lemma rq_invD:
  assumes "rq_inv cfg q"
  shows "rq_sent q = map fst (rq_answers q) @ map fst (rq_queue q)" and "length (rq_queue q) \<le> rcf_queue_size cfg"
    and "distinct (rq_sent q @ map fst (rq_admitted q) @ map fst (rq_refused q))"
  using assms unfolding rq_inv_def by blast+

lemma rq_inv_start: "rq_inv cfg (rq_start inner)"
  by (simp add: rq_inv_def rq_start_def)

lemma rq_inv_send:
  assumes "rq_inv cfg q" and "(i, op) \<in> set (rq_admitted q)"
  shows "rq_inv cfg (enqueue_send (rcf_queue_size cfg) i op q)"
proof -
  note dist = rq_invD(3) [OF assms(1), unfolded distinct_append]
  then have d: "distinct (map fst (rq_admitted q))" by blast
  have i: "i \<in> fst ` set (rq_admitted q)" using assms(2) by (rule image_eqI [rotated]) simp
  let ?rest = "filter (\<lambda>x. fst x \<noteq> i) (rq_admitted q)"
  have "distinct (map fst ?rest)" "set (map fst ?rest) \<subseteq> set (map fst (rq_admitted q))" "i \<notin> set (map fst ?rest)"
    using d by (auto simp: distinct_map_filter)
  moreover have "i \<notin> set (rq_sent q)" "i \<notin> set (map fst (rq_refused q))" using dist i by auto
  moreover have "distinct (rq_sent q)" "distinct (map fst (rq_refused q))" "set (rq_sent q) \<inter> set (map fst (rq_admitted q)) = {}"
      "set (rq_sent q) \<inter> set (map fst (rq_refused q)) = {}" "set (map fst (rq_admitted q)) \<inter> set (map fst (rq_refused q)) = {}"
    using dist by auto
  ultimately have "distinct (rq_sent q @ [i] @ map fst ?rest @ map fst (rq_refused q))"
      "distinct (rq_sent q @ map fst ?rest @ map fst (rq_refused q) @ [i])"
    unfolding distinct_append by auto
  with rq_invD(1,2) [OF assms(1)] show ?thesis by (simp add: rq_inv_def enqueue_send_def Let_def del: distinct_append)
qed

lemma rq_inv_step: "rq_step lower io_msg cfg dial_func q q' \<Longrightarrow> rq_inv cfg q \<Longrightarrow> rq_inv cfg q'"
proof (induction rule: rq_step.cases)
  case (check i q cancelled past_deadline op)
  then have "i \<notin> set (rq_sent q)" "i \<notin> set (map fst (rq_admitted q))" "i \<notin> set (map fst (rq_refused q))" by simp_all
  with rq_invD(3) [OF check(4)] check(1) have "distinct (rq_sent q @ map fst (rq_admitted q) @ map fst (rq_refused q) @ [i])"
      "distinct (rq_sent q @ (map fst (rq_admitted q) @ [i]) @ map fst (rq_refused q))"
    unfolding distinct_append by auto
  with rq_invD(1,2) [OF check(4)] show ?case
    unfolding check(1,2) by (simp add: rq_inv_def enqueue_check_def del: distinct_append)
next
  case (send i op q)
  then show ?case by (simp add: rq_inv_send)
next
  case (take q lk cancelled past_deadline)
  then obtain i op rest where "rq_queue q = (i, op) # rest" by (cases "rq_queue q") auto
  with rq_invD [OF take(5)] show ?case
    unfolding take(1,2) by (simp add: rq_inv_def worker_take_def split: prod.split del: distinct_append)
next
  case (stop q)
  from rq_invD [OF stop(5)] show ?case
    unfolding stop(1,2) by (simp add: rq_inv_def worker_stop_def drain_queue_def comp_def case_prod_beta del: distinct_append)
next
  case (close_begin q)
  from rq_invD [OF close_begin(3)] show ?case
    unfolding close_begin(1,2) by (simp add: rq_inv_def close_begin_def del: distinct_append)
next
  case (close_end q)
  from rq_invD [OF close_end(5)] show ?case
    unfolding close_end(1,2) by (simp add: rq_inv_def close_end_def del: distinct_append)
qed

lemma rq_reach_inv: "rq_reach lower io_msg cfg dial_func q0 q \<Longrightarrow> rq_inv cfg q0 \<Longrightarrow> rq_inv cfg q"
  by (induction rule: rq_reach.induct) (auto dest: rq_inv_step)

text \<open>Without its worker the client answers nothing.\<close>

lemma rq_step_stopped:
  "rq_step lower io_msg cfg dial_func q q' \<Longrightarrow> \<not> rq_worker q \<Longrightarrow>
    \<not> rq_worker q' \<and> rq_answers q' = rq_answers q \<and> prefix (rq_queue q) (rq_queue q')"
  by (induction rule: rq_step.cases)
    (auto simp: enqueue_check_def enqueue_send_def close_begin_def close_end_def Let_def)

lemma rq_reach_stopped:
  "rq_reach lower io_msg cfg dial_func q q' \<Longrightarrow> \<not> rq_worker q \<Longrightarrow>
    \<not> rq_worker q' \<and> rq_answers q' = rq_answers q \<and> prefix (rq_queue q) (rq_queue q')"
proof (induction rule: rq_reach.induct)
  case (further q' q'')
  with rq_step_stopped [OF further.hyps(2)] show ?case by (auto intro: prefix_order.trans)
qed simp

section \<open>Dialling\<close>

definition dials :: "rn_act list \<Rightarrow> nat" where "dials acts = length (filter (\<lambda>a. a = Dial) acts)"

lemma dials_simps [simp]: "dials [] = 0" "dials (Dial # acts) = Suc (dials acts)" "dials (Nap d # acts) = dials acts" "dials (xs @ ys) = dials xs + dials ys"
  by (simp_all add: dials_def)

lemma reconnect_loop_bounded:
  assumes "reconnect_loop cfg dial_func lk left attempt delay last_err inner = (inner', acts, r)"
    and "delay \<le> max d (rcf_max_retry_delay cfg)"
  shows "dials acts \<le> left \<and> (\<forall>n. Nap n \<in> set acts \<longrightarrow> n \<le> max d (rcf_max_retry_delay cfg)) \<and>
    length acts \<le> 2 * left"
  using assms
proof (induction cfg dial_func lk left attempt delay last_err inner arbitrary: acts inner' r rule: reconnect_loop.induct)
  case (2 cfg dial_func lk left attempt delay last_err inner)
  let ?delay = "if 1 < attempt then min (delay * 2) (rcf_max_retry_delay cfg) else delay"
  have le: "?delay \<le> max d (rcf_max_retry_delay cfg)" using "2.prems"(2) by auto
  show ?case
  proof (cases "if 1 < attempt then sleep_with_cancel lk attempt 0 delay else Inr ()")
    case (Inl e)
    with "2.prems" show ?thesis by (auto simp: Let_def split: if_splits)
  next
    case (Inr u)
    show ?thesis
    proof (cases "lk_closed lk attempt")
      case True
      with Inr "2.prems" show ?thesis by (auto simp: Let_def)
    next
      case False
      obtain w res where d: "dial_func (in_world (inner\<lparr>in_client := None\<rparr>)) = (w, res)" by fastforce
      show ?thesis
      proof (cases res)
        case (Inr client)
        with False d \<open>_ = Inr u\<close> "2.prems" show ?thesis by (auto simp: Let_def)
      next
        case (Inl err)
        obtain acts1 where r: "reconnect_loop cfg dial_func lk left (Suc attempt) ?delay (Some err) (inner\<lparr>in_client := None, in_world := w\<rparr>) = (inner', acts1, r)"
            "acts = (if 1 < attempt then [Nap delay] else []) @ Dial # acts1"
          using Inl False d \<open>_ = Inr u\<close> "2.prems"(1) by (auto simp: Let_def split: prod.splits)
        have "dials acts1 \<le> left \<and> (\<forall>n. Nap n \<in> set acts1 \<longrightarrow> n \<le> max d (rcf_max_retry_delay cfg)) \<and>
            length acts1 \<le> 2 * left"
          using "2.IH" [OF refl refl refl \<open>_ = Inr u\<close> False refl d [symmetric] Inl] r(1) le by (simp split: if_splits)
        with r(2) "2.prems"(2) show ?thesis by auto
      qed
    qed
  qed
qed auto

text \<open>Once a dial has been tried and the loop fails, the slot is empty.\<close>

lemma reconnect_loop_failed:
  assumes "reconnect_loop cfg dial_func lk left attempt delay last_err inner = (inner', acts, Inl e)"
    and "Dial \<in> set acts \<or> in_client inner = None"
  shows "in_client inner' = None"
  using assms
proof (induction cfg dial_func lk left attempt delay last_err inner arbitrary: acts inner' e rule: reconnect_loop.induct)
  case (2 cfg dial_func lk left attempt delay last_err inner)
  obtain w res where d: "dial_func (in_world (inner\<lparr>in_client := None\<rparr>)) = (w, res)" by fastforce
  show ?case
  proof (cases "(if 1 < attempt then sleep_with_cancel lk attempt 0 delay else Inr ()) = Inr () \<and> \<not> lk_closed lk attempt \<and> (\<exists>err. res = Inl err)")
    case True
    then obtain err where t: "(if 1 < attempt then sleep_with_cancel lk attempt 0 delay else Inr ()) = Inr ()" "\<not> lk_closed lk attempt" "res = Inl err"
      by blast
    let ?delay = "if 1 < attempt then min (delay * 2) (rcf_max_retry_delay cfg) else delay"
    obtain acts1 where r: "reconnect_loop cfg dial_func lk left (Suc attempt) ?delay (Some err) (inner\<lparr>in_client := None, in_world := w\<rparr>) = (inner', acts1, Inl e)"
      using t d "2.prems"(1) by (auto simp: Let_def split: prod.splits)
    show ?thesis using "2.IH" [OF HOL.refl HOL.refl HOL.refl t(1,2) HOL.refl d [symmetric] t(3)] r by simp
  next
    case False
    with d "2.prems" show ?thesis by (auto simp: Let_def split: sum.splits prod.splits if_splits)
  qed
qed auto

lemma client_frame_nonempty: "client_write_frame ty flags i payload \<noteq> []"
proof -
  have "length (client_write_frame ty flags i payload) = 16 + length payload" by (simp add: client_write_frame_def)
  then show ?thesis by auto
qed

text \<open>A request on the connection in place: what is read back decides.\<close>

lemma process_get_head:
  assumes "in_client inner = Some cl" and "\<not> cl_closed cl" and "\<not> rc_cancelled ctx" and "compute_deadline now cl ctx = Inr d"
    and "peer (in_world inner) (client_write_frame (msg_code GetHead) 0 (cl_req_id cl + 1) (client_u64_payload c)) = (w, resp, ending)"
  shows "client_read_frame ending resp = Inl e \<Longrightarrow> \<not> is_connection_error lower io_msg e \<Longrightarrow>
      process_request lower io_msg cfg dial_func lk False False (client_get_head now peer ctx c) inner =
        (inner\<lparr>in_client := Some (cl\<lparr>cl_req_id := cl_req_id cl + 1\<rparr>), in_world := w\<rparr>, [], Inl e)"
    and "client_read_frame ending resp = Inr (h, payload, rest) \<Longrightarrow> fh_msg_type h \<noteq> msg_code Error \<Longrightarrow> parse_context_head payload = Inr v \<Longrightarrow>
      process_request lower io_msg cfg dial_func lk False False (client_get_head now peer ctx c) inner =
        (inner\<lparr>in_client := Some (cl\<lparr>cl_req_id := cl_req_id cl + 1\<rparr>), in_world := w\<rparr>, [], Inr v)"
  using assms client_frame_nonempty
  by (simp_all add: process_request_def run_op_def client_get_head_def request_def send_on_def send_request_with_flags_def Let_def)

section \<open>Witness clients\<close>

text \<open>A client with nothing outside, an operation that needs nothing, undisturbed sleeps, and a server whose answer to the
  first request comes when the second is read.\<close>

definition lone_client :: ClientState where
  "lone_client = \<lparr>cl_req_id = 0, cl_closed = False, cl_timeout = 30000, cl_session_id = 1, cl_client_tag = []\<rparr>"

definition lone_inner :: "unit Inner" where
  "lone_inner = \<lparr>in_client = Some lone_client, in_world = (), in_reported = []\<rparr>"

definition answer_true :: "(unit, bool) call" where
  "answer_true cw = (cw, Inr True)"

definition calm :: looks where
  "calm = \<lparr>lk_closed_nap = \<lambda>_ _. False, lk_cancelled = \<lambda>_ _. False, lk_past_deadline = \<lambda>_ _. False, lk_closed = \<lambda>_. False\<rparr>"

definition slow_inner :: "bool Inner" where
  "slow_inner = \<lparr>in_client = Some lone_client, in_world = False, in_reported = []\<rparr>"

definition slow_peer :: "bool peer" where
  "slow_peer late sent = (True, if late then write_frame (msg_code GetHead) 0 1 (encode_ctx_create_resp 3 30 2) else [], WouldBlock)"

section \<open>Properties\<close>

text \<open>C22. Every request that the queue has taken is answered at most once, and the answers come in the order in which the
  requests were taken: whatever callers, the worker, lost connections and closing do in whatever order, the requests taken
  are the ones answered followed by the ones waiting.  A refused request is never run.\<close>

theorem reconnect_answers_in_order:
  assumes "rq_reach lower io_msg cfg dial_func (rq_start inner) q"
  shows "rq_sent q = map fst (rq_answers q) @ map fst (rq_queue q) \<and> distinct (rq_sent q) \<and>
    set (rq_sent q) \<inter> fst ` set (rq_refused q) = {} \<and> length (rq_queue q) \<le> rcf_queue_size cfg"
proof -
  note inv = rq_invD [OF rq_reach_inv [OF assms rq_inv_start]]
  have "distinct (rq_sent q)" "set (rq_sent q) \<inter> fst ` set (rq_refused q) = {}" using inv(3) unfolding distinct_append by auto
  with inv(1,2) show ?thesis by blast
qed

theorem reconnect_answers_in_order_witness:
  "\<exists>q. rq_reach id (\<lambda>_. []) reconnect_defaults (\<lambda>w. (w, Inl Timeout)) (rq_start lone_inner) q \<and> rq_sent q = map fst (rq_answers q) @ map fst (rq_queue q)
    \<and> rq_answers q = [(7, Inr True)] \<and> rq_queue q = []"
proof -
  let ?q1 = "enqueue_check 7 False False answer_true (rq_start lone_inner)"
  let ?q2 = "enqueue_send 10000 7 answer_true ?q1"
  let ?q3 = "worker_take id (\<lambda>_. []) reconnect_defaults (\<lambda>w. (w, Inl Timeout)) calm False False ?q2"
  note qs = enqueue_check_def enqueue_send_def rq_start_def worker_take_def process_request_def run_op_def lone_inner_def answer_true_def
  let ?reach = "rq_reach id (\<lambda>_. []) reconnect_defaults (\<lambda>w. (w, Inl Timeout)) (rq_start lone_inner)"
  have "?reach ?q1" by (rule rq_reach.further [OF rq_reach.here rq_step.check]) (simp add: rq_start_def)
  then have "?reach (enqueue_send (rcf_queue_size reconnect_defaults) 7 answer_true ?q1)"
    by (rule rq_reach.further [OF _ rq_step.send]) (simp add: qs)
  then have "?reach ?q2" by (simp add: reconnect_defaults_def DEFAULT_QUEUE_SIZE_def)
  then have "?reach ?q3" by (rule rq_reach.further [OF _ rq_step.take]) (simp_all add: qs Let_def)
  moreover have "rq_answers ?q3 = [(7, Inr True)]" "rq_queue ?q3 = []" by (simp_all add: qs Let_def)
  ultimately show ?thesis using reconnect_answers_in_order by (intro exI [of _ ?q3]) blast
qed

text \<open>C23. A lost connection is dialled for at most the configured number of times, and no pause between the attempts is
  longer than the larger of the first delay and the maximum.\<close>

theorem reconnect_bounded:
  assumes "reconnect cfg dial_func lk inner = (inner', acts, r)"
  shows "dials acts \<le> rcf_max_retries cfg \<and>
    (\<forall>n. Nap n \<in> set acts \<longrightarrow> n \<le> max (rcf_retry_delay cfg) (rcf_max_retry_delay cfg)) \<and> length acts \<le> 2 * rcf_max_retries cfg"
  by (rule reconnect_loop_bounded [OF assms [unfolded reconnect_def]]) simp

theorem reconnect_bounded_witness:
  "dials (fst (snd (reconnect reconnect_defaults (\<lambda>w. (w, Inl Timeout)) calm lone_inner))) \<le> 5"
proof -
  obtain inner acts r where "reconnect reconnect_defaults (\<lambda>w. (w, Inl Timeout)) calm lone_inner = (inner, acts, r)" by (metis prod_cases3)
  with reconnect_bounded [OF this] show ?thesis by (simp add: reconnect_defaults_def DEFAULT_MAX_RETRIES_def)
qed

text \<open>When all attempts have failed, the client never dials again: every later request is answered that the client is
  closed, which it is not, even when the server is back.\<close>

theorem failed_reconnect_is_final:
  assumes "reconnect cfg dial_func lk inner = (inner', acts, Inl e)" and "Dial \<in> set acts"
  shows "process_request lower io_msg cfg dial_func lk' False False op inner' = (inner', [], Inl ClientClosed)"
  using reconnect_loop_failed [of cfg dial_func lk _ 1 "rcf_retry_delay cfg" None inner inner' acts e] assms
  by (simp add: reconnect_def process_request_def)

theorem failed_reconnect_is_final_witness:
  "\<exists>inner. process_request id (\<lambda>_. []) (reconnect_defaults\<lparr>rcf_max_retries := 1\<rparr>) (\<lambda>w. (w, Inl Timeout)) calm False False answer_true inner =
    (inner, [], Inl ClientClosed)"
proof -
  obtain inner where r: "reconnect (reconnect_defaults\<lparr>rcf_max_retries := 1\<rparr>) (\<lambda>w. (w, Inl Timeout)) calm lone_inner = (inner, [Dial], Inl Timeout)"
    by (simp add: reconnect_def calm_def)
  from failed_reconnect_is_final [OF r, of id "\<lambda>_. []" calm answer_true] show ?thesis by (intro exI [of _ inner]) simp
qed

text \<open>A connection that the server has closed is not dialled again: the end of the stream before a response is reported
  as an invalid response, which does not count as a connection error, and the request fails on the connection that stays in
  place.\<close>

theorem closed_connection_kept:
  assumes "in_client inner = Some cl" and "\<not> cl_closed cl" and "\<not> rc_cancelled ctx" and "compute_deadline now cl ctx = Inr d"
    and "peer (in_world inner) (client_write_frame (msg_code GetHead) 0 (cl_req_id cl + 1) (client_u64_payload c)) = (w, [], UnexpectedEof)"
    and "lower ''frame header truncated'' = ''frame header truncated''"
  shows "process_request lower io_msg cfg dial_func lk False False (client_get_head now peer ctx c) inner =
    (inner\<lparr>in_client := Some (cl\<lparr>cl_req_id := cl_req_id cl + 1\<rparr>), in_world := w\<rparr>, [], Inl (InvalidResponse ''frame header truncated''))"
proof -
  have "\<not> contains_connection_pattern lower ''frame header truncated''"
    by (simp add: contains_connection_pattern_def conn_patterns_def assms(6))
  moreover have "client_read_frame UnexpectedEof [] = Inl (InvalidResponse ''frame header truncated'')"
    by (simp add: client_read_frame_def map_header_error_def)
  ultimately show ?thesis using process_get_head(1) [where peer = peer, OF assms(1-5)] by simp
qed

theorem closed_connection_kept_witness:
  "\<exists>inner. process_request id (\<lambda>_. []) reconnect_defaults (\<lambda>w. (w, Inl Timeout)) calm False False
      (client_get_head 0 (\<lambda>w _. (w, [], UnexpectedEof)) rc_background 3) lone_inner = (inner, [], Inl (InvalidResponse ''frame header truncated''))"
  using closed_connection_kept [of lone_inner lone_client rc_background 0 30000 "\<lambda>w _. (w, [], UnexpectedEof)" 3 "()" id]
  by (simp add: lone_inner_def lone_client_def rc_background_def compute_deadline_def)

text \<open>C39. A response that comes too late answers the next request: a read that runs out of time on Unix is no connection
  error, the connection stays, and the number in a response is never compared with the number of the request.  Asked for the
  head of one context, the client returns the head of the one asked for before.\<close>

theorem late_response_answers_next:
  assumes "in_client inner = Some cl" and "\<not> cl_closed cl" and "\<not> rc_cancelled ctx" and "compute_deadline now cl ctx = Inr d"
    and "peer (in_world inner) (client_write_frame (msg_code GetHead) 0 (cl_req_id cl + 1) (client_u64_payload a)) = (w1, [], WouldBlock)"
    and "peer w1 (client_write_frame (msg_code GetHead) 0 (cl_req_id cl + 2) (client_u64_payload b)) =
      (w2, write_frame (msg_code GetHead) 0 (cl_req_id cl + 1) (encode_ctx_create_resp a t n) @ more_bytes, ending)"
    and "\<not> contains_connection_pattern lower (io_msg WouldBlock)"
  shows "\<exists>inner1 inner2.
    process_request lower io_msg cfg dial_func lk False False (client_get_head now peer ctx a) inner = (inner1, [], Inl (CIo WouldBlock)) \<and>
    process_request lower io_msg cfg dial_func lk' False False (client_get_head now peer ctx b) inner1 =
      (inner2, [], Inr \<lparr>cc_context_id = a, cc_head_turn_id = t, cc_head_depth = n\<rparr>)"
proof -
  have "client_read_frame WouldBlock [] = Inl (CIo WouldBlock)" by (simp add: client_read_frame_def map_header_error_def)
  from process_get_head(1) [where peer = peer, OF assms(1-5) this] assms(7)
  have 1: "process_request lower io_msg cfg dial_func lk False False (client_get_head now peer ctx a) inner =
      (inner\<lparr>in_client := Some (cl\<lparr>cl_req_id := cl_req_id cl + 1\<rparr>), in_world := w1\<rparr>, [], Inl (CIo WouldBlock))" (is "_ = (?inner1, _)") by simp
  let ?resp = "encode_ctx_create_resp a t n" and ?cl = "cl\<lparr>cl_req_id := cl_req_id cl + 1\<rparr>"
  have p: "parse_context_head ?resp = Inr \<lparr>cc_context_id = a, cc_head_turn_id = t, cc_head_depth = n\<rparr>"
    by (simp add: parse_context_head_def encode_ctx_create_resp_def)
  have len: "length ?resp = 20" by (simp add: encode_ctx_create_resp_def)
  have rd: "client_read_frame ending (write_frame (msg_code GetHead) 0 (cl_req_id cl + 1) ?resp @ more_bytes) =
      Inr (\<lparr>fh_len = of_nat (length ?resp), fh_msg_type = msg_code GetHead, fh_flags = 0, fh_req_id = cl_req_id cl + 1\<rparr>, ?resp, more_bytes)"
    by (rule client_read_frame_write_frame) (simp add: len CLIENT_MAX_FRAME_SIZE_def)
  have "in_client ?inner1 = Some ?cl" "\<not> cl_closed ?cl" "compute_deadline now ?cl ctx = Inr d"
    using assms(2,4) by (simp_all add: compute_deadline_def)
  moreover have "peer (in_world ?inner1) (client_write_frame (msg_code GetHead) 0 (cl_req_id ?cl + 1) (client_u64_payload b)) =
      (w2, write_frame (msg_code GetHead) 0 (cl_req_id cl + 1) ?resp @ more_bytes, ending)"
    using assms(6) by (simp add: add.commute [of _ 2])
  ultimately show ?thesis using 1 process_get_head(2) [where peer = peer, OF _ _ assms(3) _ _ rd _ p] by fastforce
qed

theorem late_response_answers_next_witness:
  "\<exists>inner1 inner2. process_request id (\<lambda>_. []) reconnect_defaults (\<lambda>w. (w, Inl Timeout)) calm False False
      (client_get_head 0 slow_peer rc_background 3) slow_inner = (inner1, [], Inl (CIo WouldBlock)) \<and>
    process_request id (\<lambda>_. []) reconnect_defaults (\<lambda>w. (w, Inl Timeout)) calm False False
      (client_get_head 0 slow_peer rc_background 4) inner1 = (inner2, [], Inr \<lparr>cc_context_id = 3, cc_head_turn_id = 30, cc_head_depth = 2\<rparr>)"
  by (rule late_response_answers_next [where d = 30000 and cl = lone_client and ?w1.0 = True and ?w2.0 = True and more_bytes = "[]" and ending = WouldBlock])
    (simp_all add: slow_inner_def lone_client_def rc_background_def compute_deadline_def slow_peer_def contains_connection_pattern_def conn_patterns_def)

text \<open>A caller that has passed the check for a closed client when another thread closes it can put its request into a
  queue that nobody reads any more: the request is never answered, whatever happens afterwards.\<close>

theorem request_after_close_waits:
  assumes "\<not> rq_worker q" and "(i, op) \<in> set (rq_queue q)" and "rq_inv cfg q" and "rq_reach lower io_msg cfg dial_func q q'"
  shows "(i, op) \<in> set (rq_queue q') \<and> i \<notin> fst ` set (rq_answers q')"
proof -
  note s = rq_reach_stopped [OF assms(4,1)]
  have "distinct (map fst (rq_answers q) @ map fst (rq_queue q))" using rq_invD(1,3) [OF assms(3)] by (metis distinct_append)
  with assms(2) have "i \<notin> fst ` set (rq_answers q)" by force
  with s assms(2) show ?thesis by (auto dest: set_mono_prefix)
qed

theorem request_after_close_waits_witness:
  "\<exists>q. rq_reach id (\<lambda>_. []) reconnect_defaults (\<lambda>w. (w, Inl Timeout)) (rq_start lone_inner) q \<and> (7, answer_true) \<in> set (rq_queue q) \<and> 7 \<notin> fst ` set (rq_answers q)"
proof -
  let ?q1 = "enqueue_check 7 False False answer_true (rq_start lone_inner)"
  let ?q2 = "worker_stop (close_begin ?q1)"
  let ?q3 = "enqueue_send 10000 7 answer_true ?q2"
  note qs = enqueue_check_def enqueue_send_def rq_start_def worker_stop_def drain_queue_def close_begin_def
  let ?reach = "rq_reach id (\<lambda>_. []) reconnect_defaults (\<lambda>w. (w, Inl Timeout)) (rq_start lone_inner)"
  have "?reach ?q1" by (rule rq_reach.further [OF rq_reach.here rq_step.check]) (simp add: rq_start_def)
  then have "?reach (close_begin ?q1)" by (rule rq_reach.further [OF _ rq_step.close_begin])
  then have "?reach ?q2" by (rule rq_reach.further [OF _ rq_step.stop]) (simp_all add: qs)
  then have "?reach (enqueue_send (rcf_queue_size reconnect_defaults) 7 answer_true ?q2)"
    by (rule rq_reach.further [OF _ rq_step.send]) (simp add: qs)
  then have r: "?reach ?q3" by (simp add: reconnect_defaults_def DEFAULT_QUEUE_SIZE_def)
  have "\<not> rq_worker ?q3" "(7, answer_true) \<in> set (rq_queue ?q3)" by (simp_all add: qs Let_def)
  from request_after_close_waits [OF this rq_reach_inv [OF r rq_inv_start] rq_reach.here] r show ?thesis by blast
qed

end
