(* ===== verification/Server_Config.thy ===== *)
theory Server_Config
  imports Rust_Str
begin

text \<open>
  The configuration of the server (\<^verbatim>\<open>server/src/config.rs\<close>) and of the backup (\<^verbatim>\<open>S3SyncConfig::from_env\<close> of
  \<^verbatim>\<open>s3_sync.rs\<close>), read from environment variables: \<open>var\<close> gives the value of a variable that is set to valid Unicode.
\<close>

record Config =
  cf_data_dir :: string
  cf_bind_addr :: string
  cf_http_bind_addr :: string
  cf_max_connections :: u64
  cf_connection_read_timeout_secs :: u64
  cf_connection_write_timeout_secs :: u64

definition var_or :: "'a option \<Rightarrow> 'a \<Rightarrow> 'a" where
  "var_or v d = (case v of Some x \<Rightarrow> x | None \<Rightarrow> d)"

definition config_from_env :: "(string \<Rightarrow> string option) \<Rightarrow> Config" where
  "config_from_env var =
     \<lparr>cf_data_dir = var_or (var ''CXDB_DATA_DIR'') ''./data'',
      cf_bind_addr = var_or (var ''CXDB_BIND'') ''127.0.0.1:9009'',
      cf_http_bind_addr = var_or (var ''CXDB_HTTP_BIND'') ''127.0.0.1:9010'',
      cf_max_connections = var_or (Option.bind (var ''CXDB_MAX_CONNECTIONS'') parse_u64) 512,
      cf_connection_read_timeout_secs = var_or (Option.bind (var ''CXDB_CONNECTION_READ_TIMEOUT_SECS'') parse_u64) 300,
      cf_connection_write_timeout_secs = var_or (Option.bind (var ''CXDB_CONNECTION_WRITE_TIMEOUT_SECS'') parse_u64) 30\<rparr>"

record S3SyncConfig =
  s3_bucket :: string
  s3_prefix :: string
  s3_region :: string
  s3_sync_interval_secs :: u64
  s3_enabled :: bool

definition s3_from_env :: "(string \<Rightarrow> string) \<Rightarrow> (string \<Rightarrow> string option) \<Rightarrow> S3SyncConfig option" where
  "s3_from_env lower var =
     (let enabled = (case var ''CXDB_S3_SYNC_ENABLED'' of Some v \<Rightarrow> v = ''1'' \<or> lower v = ''true'' | None \<Rightarrow> False)
      in if \<not> enabled then None
         else
           (case var ''CXDB_S3_BUCKET'' of
              None \<Rightarrow> None
            | Some bucket \<Rightarrow>
                Some \<lparr>s3_bucket = bucket, s3_prefix = var_or (var ''CXDB_S3_PREFIX'') [],
                      s3_region = var_or (var ''CXDB_S3_REGION'') ''us-west-2'',
                      s3_sync_interval_secs = var_or (Option.bind (var ''CXDB_S3_SYNC_INTERVAL_SECS'') parse_u64) 60,
                      s3_enabled = True\<rparr>))"

end
