(* ===== verification/S3_Sync.thy ===== *)
theory S3_Sync
  imports Server_Config Registry
begin

text \<open>
  Backup to an object store (\<^verbatim>\<open>server/src/s3_sync.rs\<close>): which files are uploaded when, the manifest, and restoring into an
  empty directory.

  A directory and a bucket are maps from paths to bytes.  How the requests to the object store and the file operations end is
  the record \<open>s3_ops\<close>; a request to store an object may have stored it although its answer is lost.  JSON text, the order of
  a \<^verbatim>\<open>HashMap\<close> and listing a bucket are the record \<open>s3_env\<close>; a list has at most one page of keys.  File sizes are natural
  numbers.
\<close>

section \<open>Data\<close>

type_synonym files = "string \<rightharpoonup> bytes"

record SyncState =
  sy_file_sizes :: "string \<rightharpoonup> nat"
  sy_last_sync_time :: nat

record S3Manifest =
  mf_files :: "string \<rightharpoonup> nat"
  mf_created_at :: nat
  mf_version :: u32

definition SYNC_FILES :: "string list" where
  "SYNC_FILES = [''blobs/blobs.pack'', ''blobs/blobs.idx'', ''turns/turns.log'', ''turns/turns.idx'', ''turns/turns.meta'', ''turns/heads.tbl'']"

record s3_env =
  s3_parse_state :: "bytes \<Rightarrow> SyncState option"
  s3_print_state :: "SyncState \<Rightarrow> bytes"
  s3_parse_manifest :: "bytes \<Rightarrow> string + S3Manifest"
  s3_print_manifest :: "S3Manifest \<Rightarrow> bytes"
  s3_order :: "(string \<rightharpoonup> nat) \<Rightarrow> (string \<times> nat) list"
  s3_list :: "files \<Rightarrow> string \<Rightarrow> string list"

datatype put_outcome = PutOk | PutLost | PutFailed

text \<open>Writing a file truncates it first: it may fail to open, or stop after some bytes.\<close>

datatype write_outcome = Written | NotOpened | Stopped nat

record s3_ops =
  op_put :: "string \<Rightarrow> put_outcome"
  op_get :: "string \<Rightarrow> bool"
  op_list :: bool
  op_stat :: "string \<Rightarrow> bool"
  op_mkdir :: "string \<Rightarrow> bool"
  op_read :: "string \<Rightarrow> bool"
  op_write :: "string \<Rightarrow> write_outcome"

definition state_default :: SyncState where
  "state_default = \<lparr>sy_file_sizes = Map.empty, sy_last_sync_time = 0\<rparr>"

definition state_load :: "s3_env \<Rightarrow> files \<Rightarrow> SyncState" where
  "state_load env local =
     (case local ''sync_state.json'' of
        Some data \<Rightarrow> (case s3_parse_state env data of Some st \<Rightarrow> st | None \<Rightarrow> state_default)
      | None \<Rightarrow> state_default)"

definition write_file :: "s3_ops \<Rightarrow> string \<Rightarrow> bytes \<Rightarrow> files \<Rightarrow> files \<times> unit res" where
  "write_file ops path data local =
     (case op_write ops path of
        Written \<Rightarrow> (local(path \<mapsto> data), Inr ())
      | NotOpened \<Rightarrow> (local, Inl (Io OtherIo))
      | Stopped n \<Rightarrow> (local(path \<mapsto> take n data), Inl (Io OtherIo)))"

definition state_save :: "s3_env \<Rightarrow> s3_ops \<Rightarrow> SyncState \<Rightarrow> files \<Rightarrow> files \<times> unit res" where
  "state_save env ops st local =
     write_file ops ''sync_state.json'' (s3_print_state env st) local"

section \<open>Objects\<close>

definition s3_key :: "S3SyncConfig \<Rightarrow> string \<Rightarrow> string" where
  "s3_key cfg relative_path =
     (if s3_prefix cfg = [] then relative_path else trim_end_matches (CHR ''/'') (s3_prefix cfg) @ ''/'' @ relative_path)"

definition put_object :: "s3_ops \<Rightarrow> string \<Rightarrow> bytes \<Rightarrow> files \<Rightarrow> files \<times> unit res" where
  "put_object ops key data bucket =
     (case op_put ops key of
        PutOk \<Rightarrow> (bucket(key \<mapsto> data), Inr ())
      | PutLost \<Rightarrow> (bucket(key \<mapsto> data), Inl (Io OtherIo))
      | PutFailed \<Rightarrow> (bucket, Inl (Io OtherIo)))"

definition upload_file :: "S3SyncConfig \<Rightarrow> s3_ops \<Rightarrow> files \<Rightarrow> string \<Rightarrow> files \<Rightarrow> files \<times> unit res" where
  "upload_file cfg ops local relative_path bucket =
     (case local relative_path of
        None \<Rightarrow> (bucket, Inl (Io OtherIo))
      | Some data \<Rightarrow>
          if op_read ops relative_path then put_object ops (s3_key cfg relative_path) data bucket
          else (bucket, Inl (Io OtherIo)))"

definition download_file :: "S3SyncConfig \<Rightarrow> s3_ops \<Rightarrow> files \<Rightarrow> string \<Rightarrow> files \<Rightarrow> files \<times> nat res" where
  "download_file cfg ops bucket relative_path local =
     (let key = s3_key cfg relative_path
      in case (if op_get ops key then bucket key else None) of
           None \<Rightarrow> (local, Inl (Io OtherIo))
         | Some data \<Rightarrow>
             (case write_file ops relative_path data local of
                (local, Inl e) \<Rightarrow> (local, Inl e)
              | (local, Inr _) \<Rightarrow> (local, Inr (length data))))"

definition upload_manifest :: "s3_env \<Rightarrow> S3SyncConfig \<Rightarrow> s3_ops \<Rightarrow> nat \<Rightarrow> SyncState \<Rightarrow> files \<Rightarrow> files \<times> unit res" where
  "upload_manifest env cfg ops now st bucket =
     put_object ops (s3_key cfg ''sync_manifest.json'')
       (s3_print_manifest env \<lparr>mf_files = sy_file_sizes st, mf_created_at = now, mf_version = 1\<rparr>) bucket"

definition fetch_manifest :: "s3_env \<Rightarrow> S3SyncConfig \<Rightarrow> s3_ops \<Rightarrow> files \<Rightarrow> S3Manifest option res" where
  "fetch_manifest env cfg ops bucket =
     (let key = s3_key cfg ''sync_manifest.json''
      in if \<not> op_get ops key then Inl (Io OtherIo)
         else
           (case bucket key of
              None \<Rightarrow> Inr None
            | Some data \<Rightarrow>
                (case s3_parse_manifest env data of
                   Inl e \<Rightarrow> Inl (Corrupt (''Invalid manifest: '' @ e))
                 | Inr m \<Rightarrow> Inr (Some m))))"

section \<open>Backing up\<close>

definition last_size :: "SyncState \<Rightarrow> string \<Rightarrow> nat" where
  "last_size st f = (case sy_file_sizes st f of Some n \<Rightarrow> n | None \<Rightarrow> 0)"

abbreviation size_noted :: "string \<Rightarrow> nat \<Rightarrow> SyncState \<Rightarrow> SyncState" where
  "size_noted f n st \<equiv> st\<lparr>sy_file_sizes := (sy_file_sizes st)(f \<mapsto> n)\<rparr>"

text \<open>The tracked files, each with the directory as it is when its turn comes.  A failed upload is logged and skipped; a size
  that cannot be read ends the round.\<close>

fun sync_tracked ::
    "S3SyncConfig \<Rightarrow> s3_ops \<Rightarrow> (string \<times> files) list \<Rightarrow> SyncState \<Rightarrow> files \<Rightarrow> SyncState \<times> files \<times> nat res" where
  "sync_tracked cfg ops [] st bucket = (st, bucket, Inr 0)"
| "sync_tracked cfg ops ((relative_path, local) # rest) st bucket =
     (case local relative_path of
        None \<Rightarrow> sync_tracked cfg ops rest st bucket
      | Some data \<Rightarrow>
          if \<not> op_stat ops relative_path then (st, bucket, Inl (Io OtherIo))
          else
            let current_size = length data
            in if last_size st relative_path < current_size then
                 (case upload_file cfg ops local relative_path bucket of
                    (bucket, Inr _) \<Rightarrow>
                      (case sync_tracked cfg ops rest (size_noted relative_path current_size st) bucket of
                         (st, bucket, r) \<Rightarrow> (st, bucket, map_sum id Suc r))
                  | (bucket, Inl _) \<Rightarrow> sync_tracked cfg ops rest st bucket)
               else sync_tracked cfg ops rest st bucket)"

text \<open>The bundles of the registry, in the order of the directory.  An entry is \<open>None\<close> where reading the directory fails; a
  directory that is not there has no entries.  The first failure ends the round.\<close>

fun sync_registry ::
    "S3SyncConfig \<Rightarrow> s3_ops \<Rightarrow> files \<Rightarrow> string option list \<Rightarrow> SyncState \<Rightarrow> files \<Rightarrow> SyncState \<times> files \<times> nat res" where
  "sync_registry cfg ops local [] st bucket = (st, bucket, Inr 0)"
| "sync_registry cfg ops local (None # names) st bucket = (st, bucket, Inl (Io OtherIo))"
| "sync_registry cfg ops local (Some name # names) st bucket =
     (if path_extension name \<noteq> Some ''json'' then sync_registry cfg ops local names st bucket
      else
        let relative_path = ''registry/'' @ name
        in case (if op_stat ops relative_path then local relative_path else None) of
             None \<Rightarrow> (st, bucket, Inl (Io OtherIo))
           | Some data \<Rightarrow>
               if length data \<noteq> last_size st relative_path then
                 (case upload_file cfg ops local relative_path bucket of
                    (bucket, Inl e) \<Rightarrow> (st, bucket, Inl e)
                  | (bucket, Inr _) \<Rightarrow>
                      (case sync_registry cfg ops local names (size_noted relative_path (length data) st) bucket of
                         (st, bucket, r) \<Rightarrow> (st, bucket, map_sum id Suc r)))
               else sync_registry cfg ops local names st bucket)"

text \<open>\<open>view k\<close> is the directory at the \<open>k\<close>th step of the round: loading the state, the six tracked files, the registry and
  saving the state.  The directory and the bucket afterwards.\<close>

definition do_sync ::
    "s3_env \<Rightarrow> S3SyncConfig \<Rightarrow> s3_ops \<Rightarrow> nat \<Rightarrow> (nat \<Rightarrow> files) \<Rightarrow> string option list \<Rightarrow> files \<Rightarrow> files \<times> files \<times> unit res" where
  "do_sync env cfg ops now view names bucket =
     (case sync_tracked cfg ops (zip SYNC_FILES (map view [1..<7])) (state_load env (view 0)) bucket of
        (st, bucket, Inl e) \<Rightarrow> (view 7, bucket, Inl e)
      | (st, bucket, Inr files_synced) \<Rightarrow>
          (case sync_registry cfg ops (view 7) names st bucket of
             (st, bucket, Inl e) \<Rightarrow> (view 7, bucket, Inl e)
           | (st, bucket, Inr registry_synced) \<Rightarrow>
               if 0 < files_synced \<or> 0 < registry_synced then
                 (case upload_manifest env cfg ops now st bucket of
                    (bucket, Inl e) \<Rightarrow> (view 7, bucket, Inl e)
                  | (bucket, Inr _) \<Rightarrow>
                      (case state_save env ops (st\<lparr>sy_last_sync_time := now\<rparr>) (view 7) of (local, r) \<Rightarrow> (local, bucket, r)))
               else (view 7, bucket, Inr ())))"

section \<open>Restoring\<close>

text \<open>The files of the manifest: a directory that cannot be made ends the restore, a failed download is logged.\<close>

fun restore_tracked :: "S3SyncConfig \<Rightarrow> s3_ops \<Rightarrow> files \<Rightarrow> string list \<Rightarrow> files \<Rightarrow> files \<times> unit res" where
  "restore_tracked cfg ops bucket [] local = (local, Inr ())"
| "restore_tracked cfg ops bucket (f # fs) local =
     (if \<not> op_mkdir ops f then (local, Inl (Io OtherIo))
      else restore_tracked cfg ops bucket fs (fst (download_file cfg ops bucket f local)))"

fun restore_files :: "S3SyncConfig \<Rightarrow> s3_ops \<Rightarrow> files \<Rightarrow> string list \<Rightarrow> files \<Rightarrow> files" where
  "restore_files cfg ops bucket [] local = local"
| "restore_files cfg ops bucket (f # fs) local = restore_files cfg ops bucket fs (fst (download_file cfg ops bucket f local))"

definition relative_of_key :: "S3SyncConfig \<Rightarrow> string \<Rightarrow> string" where
  "relative_of_key cfg key =
     (if s3_prefix cfg = [] then key
      else case strip_prefix key (trim_end_matches (CHR ''/'') (s3_prefix cfg) @ ''/'') of Some r \<Rightarrow> r | None \<Rightarrow> key)"

definition restore_registry :: "s3_env \<Rightarrow> S3SyncConfig \<Rightarrow> s3_ops \<Rightarrow> files \<Rightarrow> files \<Rightarrow> files \<times> unit res" where
  "restore_registry env cfg ops bucket local =
     (if \<not> op_mkdir ops ''registry/'' \<or> \<not> op_list ops then (local, Inl (Io OtherIo))
      else (restore_files cfg ops bucket (map (relative_of_key cfg) (s3_list env bucket (s3_key cfg ''registry/''))) local, Inr ()))"

definition maybe_restore :: "s3_env \<Rightarrow> S3SyncConfig \<Rightarrow> s3_ops \<Rightarrow> files \<Rightarrow> files \<Rightarrow> files \<times> bool res" where
  "maybe_restore env cfg ops bucket local =
     (if list_ex (\<lambda>f. local f \<noteq> None) SYNC_FILES then (local, Inr False)
      else
        (case fetch_manifest env cfg ops bucket of
           Inl e \<Rightarrow> (local, Inr False)
         | Inr None \<Rightarrow> (local, Inr False)
         | Inr (Some manifest) \<Rightarrow>
             (case restore_tracked cfg ops bucket (map fst (s3_order env (mf_files manifest))) local of
                (local, Inl e) \<Rightarrow> (local, Inl e)
              | (local, Inr _) \<Rightarrow> (fst (restore_registry env cfg ops bucket local), Inr True))))"

section \<open>The loop\<close>

text \<open>One round per tick, and a last one at the shutdown; a failed round is logged.  What is written meanwhile, before and
  during the steps of a round, is a function of the directory.\<close>

fun sync_loop ::
    "s3_env \<Rightarrow> S3SyncConfig \<Rightarrow> (s3_ops \<times> nat \<times> (nat \<Rightarrow> files \<Rightarrow> files) \<times> string option list) list \<Rightarrow> files \<times> files \<Rightarrow> files \<times> files" where
  "sync_loop env cfg [] lb = lb"
| "sync_loop env cfg ((ops, now, written, names) # rounds) (local, bucket) =
     (case do_sync env cfg ops now (\<lambda>k. written k local) names bucket of (local, bucket, r) \<Rightarrow> sync_loop env cfg rounds (local, bucket))"

end
