(* ===== verification/S3_Props.thy ===== *)
theory S3_Props
  imports S3_Sync Store_Props "HOL-Library.Sublist" "HOL-Library.Countable_Set"
begin

text \<open>
  Backing up and restoring: what the bucket holds while the files grow and requests fail, that a restore gives the files
  back, and what the backup does not keep.
\<close>

section \<open>Keys\<close>

lemma s3_key_eq [simp]: "s3_key cfg f = s3_key cfg g \<longleftrightarrow> f = g"
  by (simp add: s3_key_def)

lemma relative_of_key [simp]: "relative_of_key cfg (s3_key cfg f) = f"
  by (simp add: relative_of_key_def s3_key_def strip_prefix_def starts_with_iff)

lemma sync_files_distinct: "distinct SYNC_FILES"
  by (simp add: SYNC_FILES_def)

lemma sync_files_other [simp]:
  "''sync_state.json'' \<notin> set SYNC_FILES" "''sync_manifest.json'' \<notin> set SYNC_FILES" "''registry/'' @ name \<notin> set SYNC_FILES"
  by (simp_all add: SYNC_FILES_def)

section \<open>What the bucket holds\<close>

definition content :: "files \<Rightarrow> string \<Rightarrow> bytes" where
  "content local f = (case local f of Some d \<Rightarrow> d | None \<Rightarrow> [])"

lemma content_Some [simp]: "local f = Some d \<Longrightarrow> content local f = d"
  by (simp add: content_def)

definition backed_up :: "string \<Rightarrow> bool" where
  "backed_up f \<longleftrightarrow> f \<in> set SYNC_FILES \<or> prefix ''registry/'' f"

lemma backed_up_tracked [simp]: "f \<in> set SYNC_FILES \<Longrightarrow> backed_up f"
  by (simp add: backed_up_def)

lemma backed_up_registry: "backed_up (''registry/'' @ name)"
  by (simp add: backed_up_def)

definition sizes_ok :: "(string \<rightharpoonup> nat) \<Rightarrow> bool" where
  "sizes_ok m \<longleftrightarrow> finite (dom m) \<and> (\<forall>f\<in>dom m. backed_up f)"

lemma sizes_ok_simps [simp]: "sizes_ok Map.empty" "sizes_ok m \<Longrightarrow> backed_up f \<Longrightarrow> sizes_ok (m(f \<mapsto> n))"
  by (auto simp: sizes_ok_def)

text \<open>The objects of tracked files are beginnings of the files, at least as long as the state says.\<close>

definition held :: "S3SyncConfig \<Rightarrow> files \<Rightarrow> SyncState \<Rightarrow> files \<Rightarrow> bool" where
  "held cfg local st bucket \<longleftrightarrow>
     sizes_ok (sy_file_sizes st) \<and>
     (\<forall>f\<in>set SYNC_FILES. (\<forall>c. bucket (s3_key cfg f) = Some c \<longrightarrow> prefix c (content local f)) \<and>
       (\<forall>n. sy_file_sizes st f = Some n \<longrightarrow> (\<exists>c. bucket (s3_key cfg f) = Some c \<and> n \<le> length c)))"

definition grows :: "files \<Rightarrow> files \<Rightarrow> bool" where
  "grows l l' \<longleftrightarrow> (\<forall>f\<in>set SYNC_FILES. prefix (content l f) (content l' f)) \<and> l' ''sync_state.json'' = l ''sync_state.json''"

lemma grows_refl [simp]: "grows l l"
  by (simp add: grows_def)

lemma grows_trans: "grows l l' \<Longrightarrow> grows l' l'' \<Longrightarrow> grows l l''"
  by (auto simp: grows_def intro: prefix_order.trans)

lemma held_grows: "held cfg l st bucket \<Longrightarrow> grows l l' \<Longrightarrow> held cfg l' st bucket"
  unfolding held_def grows_def by (meson prefix_order.trans)

definition only_tracked :: "S3SyncConfig \<Rightarrow> files \<Rightarrow> files \<Rightarrow> bool" where
  "only_tracked cfg b b' \<longleftrightarrow> (\<forall>k. k \<notin> s3_key cfg ` set SYNC_FILES \<longrightarrow> b' k = b k)"

definition sizes_up :: "SyncState \<Rightarrow> SyncState \<Rightarrow> bool" where
  "sizes_up st st' \<longleftrightarrow> (\<forall>f n. sy_file_sizes st f = Some n \<longrightarrow> (\<exists>n'. n \<le> n' \<and> sy_file_sizes st' f = Some n'))"

lemma sizes_up_refl [simp]: "sizes_up st st"
  by (auto simp: sizes_up_def)

lemma sizes_up_trans: "sizes_up st st' \<Longrightarrow> sizes_up st' st'' \<Longrightarrow> sizes_up st st''"
  unfolding sizes_up_def by (meson order.trans)

definition all_ok :: "s3_ops \<Rightarrow> bool" where
  "all_ok ops \<longleftrightarrow> (\<forall>k. op_put ops k = PutOk \<and> op_get ops k \<and> op_stat ops k \<and> op_mkdir ops k \<and> op_read ops k \<and> op_write ops k = Written) \<and> op_list ops"

lemma upload_held:
  assumes "held cfg L st b" and "f \<in> set SYNC_FILES" and "local f = Some d" and "prefix d (content L f)" and "last_size st f < length d"
    and "upload_file cfg ops local f b = (b', r)"
  shows "held cfg L st b' \<and> only_tracked cfg b b' \<and> (r = Inr () \<longrightarrow> held cfg L (size_noted f (length d) st) b') \<and> (all_ok ops \<longrightarrow> r = Inr ())"
proof -
  have b': "b' = b \<or> b' = b(s3_key cfg f \<mapsto> d)" "r = Inr () \<longrightarrow> b' = b(s3_key cfg f \<mapsto> d)"
    using assms(3,6) by (auto simp: upload_file_def put_object_def split: if_splits put_outcome.splits)
  have "held cfg L st b'"
    using b'(1) assms(1,4,5) by (fastforce simp: held_def last_size_def)
  moreover have "only_tracked cfg b b'" using b'(1) assms(2) by (auto simp: only_tracked_def)
  moreover have "held cfg L (size_noted f (length d) st) b'" if "r = Inr ()"
    using b'(2) that assms(1,2,4) by (auto simp: held_def)
  moreover have "all_ok ops \<longrightarrow> r = Inr ()"
    using assms(3,6) by (auto simp: all_ok_def upload_file_def put_object_def)
  ultimately show ?thesis by blast
qed

lemma sync_tracked_held:
  assumes "sync_tracked cfg ops fs st b = (st', b', r)" and "held cfg L st b"
    and "\<forall>(f, v) \<in> set fs. f \<in> set SYNC_FILES \<and> prefix (content v f) (content L f)"
  shows "held cfg L st' b' \<and> only_tracked cfg b b' \<and> sizes_up st st' \<and> (r = Inr 0 \<longrightarrow> st' = st) \<and>
    (all_ok ops \<longrightarrow> isl r = False \<and> (\<forall>(f, v) \<in> set fs. content v f \<noteq> [] \<longrightarrow> (\<exists>n. sy_file_sizes st' f = Some n \<and> length (content v f) \<le> n)))"
  using assms
proof (induction cfg ops fs st b arbitrary: st' b' r rule: sync_tracked.induct)
  case (1 cfg ops st b)
  then show ?case by (auto simp: only_tracked_def)
next
  case (2 cfg ops f local rest st b)
  have f: "f \<in> set SYNC_FILES" "prefix (content local f) (content L f)" and rest: "\<forall>(f, v) \<in> set rest. f \<in> set SYNC_FILES \<and> prefix (content v f) (content L f)"
    using "2.prems"(3) by auto
  show ?case
  proof (cases "local f")
    case None
    with "2.IH"(1) [OF None _ "2.prems"(2) rest] "2.prems"(1) show ?thesis by (simp add: content_def)
  next
    case (Some d)
    with f have d: "prefix d (content L f)" by simp
    show ?thesis
    proof (cases "op_stat ops f")
      case False
      with Some "2.prems" show ?thesis by (auto simp: only_tracked_def all_ok_def)
    next
      case stat: True
      then have st: "\<not> \<not> op_stat ops f" by simp
      show ?thesis
      proof (cases "last_size st f < length d")
        case False
        note ih = "2.IH"(4) [OF Some st refl False _ "2.prems"(2) rest]
        have s: "sync_tracked cfg ops rest st b = (st', b', r)" using "2.prems"(1) Some stat False by simp
        have "\<exists>n. sy_file_sizes st' f = Some n \<and> length d \<le> n" if ne: "d \<noteq> []"
        proof -
          obtain k where k: "sy_file_sizes st f = Some k" "length d \<le> k" using False ne by (auto simp: last_size_def split: option.splits)
          with ih [OF s] obtain k' where "k \<le> k'" "sy_file_sizes st' f = Some k'" unfolding sizes_up_def by blast
          with k show ?thesis by auto
        qed
        with ih [OF s] Some show ?thesis by simp
      next
        case True
        obtain b1 u where u: "upload_file cfg ops local f b = (b1, u)" by fastforce
        note up = upload_held [OF "2.prems"(2) f(1) Some d True u]
        show ?thesis
        proof (cases u)
          case (Inl e)
          have s: "sync_tracked cfg ops rest st b1 = (st', b', r)" using "2.prems"(1) Some stat True u Inl by simp
          from "2.IH"(2) [OF Some st refl True u [symmetric] Inl s _ rest] up Inl show ?thesis
            by (auto simp: only_tracked_def)
        next
          case (Inr x)
          then have ur: "u = Inr ()" by simp
          obtain r1 where s: "sync_tracked cfg ops rest (size_noted f (length d) st) b1 = (st', b', r1)" "r = map_sum id Suc r1"
            using "2.prems"(1) Some stat True u Inr by (auto split: prod.splits)
          have "held cfg L (size_noted f (length d) st) b1" using up ur by blast
          note ih = "2.IH"(3) [OF Some st refl True u [symmetric] Inr s(1) this rest]
          have "sizes_up st (size_noted f (length d) st)" using True by (auto simp: sizes_up_def last_size_def)
          moreover have up': "sizes_up (size_noted f (length d) st) st'" using ih by blast
          moreover have "\<exists>k. sy_file_sizes st' f = Some k \<and> length d \<le> k"
            using up' [unfolded sizes_up_def, rule_format, of f "length d"] by auto
          moreover have "r \<noteq> Inr 0" "isl r = isl r1" using s(2) by (cases r1; simp)+
          ultimately show ?thesis using ih up Some by (auto simp: only_tracked_def dest: sizes_up_trans)
        qed
      qed
    qed
  qed
qed

definition manifest_key :: "S3SyncConfig \<Rightarrow> string" where "manifest_key cfg = s3_key cfg ''sync_manifest.json''"

lemma manifest_key_tracked [simp]: "f \<in> set SYNC_FILES \<Longrightarrow> s3_key cfg f \<noteq> manifest_key cfg" "manifest_key cfg \<notin> s3_key cfg ` set SYNC_FILES"
  by (auto simp: manifest_key_def)

text \<open>The registry touches neither the tracked files nor the manifest.\<close>

definition registry_kept :: "S3SyncConfig \<Rightarrow> SyncState \<Rightarrow> files \<Rightarrow> SyncState \<Rightarrow> files \<Rightarrow> bool" where
  "registry_kept cfg st b st' b' \<longleftrightarrow>
     (sizes_ok (sy_file_sizes st) \<longrightarrow> sizes_ok (sy_file_sizes st')) \<and> b' (manifest_key cfg) = b (manifest_key cfg) \<and>
     (\<forall>f\<in>set SYNC_FILES. sy_file_sizes st' f = sy_file_sizes st f \<and> b' (s3_key cfg f) = b (s3_key cfg f))"

lemma registry_kept_refl [simp]: "registry_kept cfg st b st b"
  by (simp add: registry_kept_def)

lemma registry_kept_trans: "registry_kept cfg st b st1 b1 \<Longrightarrow> registry_kept cfg st1 b1 st2 b2 \<Longrightarrow> registry_kept cfg st b st2 b2"
  by (simp add: registry_kept_def)

lemma upload_registry_kept:
  assumes "upload_file cfg ops local (''registry/'' @ name) b = (b', u)"
  shows "registry_kept cfg st b st b'" and "registry_kept cfg st b (size_noted (''registry/'' @ name) n st) b'"
    and "all_ok ops \<Longrightarrow> local (''registry/'' @ name) \<noteq> None \<Longrightarrow> u = Inr ()"
proof -
  have f: "f \<noteq> ''registry/'' @ name" if "f \<in> set SYNC_FILES" for f
    using that sync_files_other(3) [of name] by auto
  have b': "b' = b \<or> (\<exists>d. b' = b(s3_key cfg (''registry/'' @ name) \<mapsto> d))"
    using assms by (auto simp: upload_file_def put_object_def split: if_splits put_outcome.splits option.splits)
  then show "registry_kept cfg st b st b'" "registry_kept cfg st b (size_noted (''registry/'' @ name) n st) b'"
    using f backed_up_registry [of name] by (auto simp: registry_kept_def manifest_key_def)
  show "all_ok ops \<Longrightarrow> local (''registry/'' @ name) \<noteq> None \<Longrightarrow> u = Inr ()"
    using assms by (auto simp: upload_file_def put_object_def all_ok_def)
qed

definition entries_read :: "files \<Rightarrow> string option list \<Rightarrow> bool" where
  "entries_read local names \<longleftrightarrow> list_all (\<lambda>e. \<exists>name. e = Some name \<and> local (''registry/'' @ name) \<noteq> None) names"

lemma entries_read_Cons [simp]:
  "entries_read local []" "entries_read local (e # names) \<longleftrightarrow> (\<exists>name. e = Some name \<and> local (''registry/'' @ name) \<noteq> None) \<and> entries_read local names"
  by (simp_all add: entries_read_def)

lemma sync_registry_kept:
  assumes "sync_registry cfg ops local names st b = (st', b', r)"
  shows "registry_kept cfg st b st' b' \<and> (all_ok ops \<and> entries_read local names \<longrightarrow> \<not> isl r) \<and> (r = Inr 0 \<longrightarrow> st' = st)"
  using assms
proof (induction cfg ops local names st b arbitrary: st' b' r rule: sync_registry.induct)
  case (3 cfg ops local name names st b)
  define f where "f = ''registry/'' @ name"
  note step = "3.prems" [unfolded sync_registry.simps Let_def, folded f_def]
  consider (other) "path_extension name \<noteq> Some ''json''" | (unread) "path_extension name = Some ''json''" "\<not> op_stat ops f \<or> local f = None"
    | (same) d where "path_extension name = Some ''json''" "op_stat ops f" "local f = Some d" "length d = last_size st f"
    | (put) d b1 u where "path_extension name = Some ''json''" "op_stat ops f" "local f = Some d" "length d \<noteq> last_size st f"
        "upload_file cfg ops local f b = (b1, u)"
    by (metis not_None_eq surj_pair)
  then show ?case
  proof cases
    case other
    with "3.IH"(1) step show ?thesis by simp
  next
    case unread
    with step have "st' = st" "b' = b" "isl r" by (auto split: if_splits)
    with unread show ?thesis by (auto simp: all_ok_def f_def)
  next
    case same
    have s: "sync_registry cfg ops local names st b = (st', b', r)" using same step by simp
    with same "3.IH"(3) [OF _ f_def, of d st' b' r] show ?thesis by simp
  next
    case put
    note up = upload_registry_kept [OF put(5) [unfolded f_def], folded f_def]
    show ?thesis
    proof (cases u)
      case (Inl e)
      with step put have "st' = st" "b' = b1" "isl r" by auto
      with Inl put up(1,3) show ?thesis by auto
    next
      case (Inr x)
      obtain r1 where s: "sync_registry cfg ops local names (size_noted f (length d) st) b1 = (st', b', r1)" "r = map_sum id Suc r1"
        using put Inr step by (auto split: prod.splits)
      have "isl r = isl r1" "r \<noteq> Inr 0" using s(2) by (cases r1; simp)+
      with "3.IH"(2) [OF _ f_def, of d b1 u] put s(1) Inr up(2) show ?thesis
        by (auto intro: registry_kept_trans)
    qed
  qed
qed auto

lemma held_sizes:
  assumes "held cfg L st' b" and "sizes_ok (sy_file_sizes st)"
    and "\<And>f n. f \<in> set SYNC_FILES \<Longrightarrow> sy_file_sizes st f = Some n \<Longrightarrow> \<exists>n'. n \<le> n' \<and> sy_file_sizes st' f = Some n'"
    and "\<And>f. f \<in> set SYNC_FILES \<Longrightarrow> b' (s3_key cfg f) = b (s3_key cfg f)" and "\<And>f. f \<in> set SYNC_FILES \<Longrightarrow> content L' f = content L f"
  shows "held cfg L' st b'"
  unfolding held_def
proof (intro conjI ballI allI impI)
  fix f n
  assume f: "f \<in> set SYNC_FILES" "sy_file_sizes st f = Some n"
  from assms(3) [OF f] obtain n' where n': "n \<le> n'" "sy_file_sizes st' f = Some n'" by blast
  with assms(1) f(1) obtain c where "b (s3_key cfg f) = Some c" "n' \<le> length c" unfolding held_def by blast
  with n' assms(4) [OF f(1)] show "\<exists>c. b' (s3_key cfg f) = Some c \<and> n \<le> length c" by auto
qed (use assms in \<open>auto simp: held_def\<close>)

text \<open>The manifest in the bucket lists what the saved state says was uploaded.\<close>

definition listed :: "s3_env \<Rightarrow> S3SyncConfig \<Rightarrow> SyncState \<Rightarrow> files \<Rightarrow> bool" where
  "listed env cfg st b \<longleftrightarrow>
     (case b (manifest_key cfg) of
        None \<Rightarrow> \<forall>f\<in>set SYNC_FILES. sy_file_sizes st f = None
      | Some d \<Rightarrow> \<exists>m. d = s3_print_manifest env m \<and> sizes_ok (mf_files m) \<and>
          (\<forall>f\<in>set SYNC_FILES. sy_file_sizes st f \<noteq> None \<longrightarrow> mf_files m f \<noteq> None))"

lemma listed_sizes:
  assumes "listed env cfg st b" and "b' (manifest_key cfg) = b (manifest_key cfg)"
    and "\<And>f. f \<in> set SYNC_FILES \<Longrightarrow> sy_file_sizes st' f \<noteq> None \<Longrightarrow> sy_file_sizes st f \<noteq> None"
  shows "listed env cfg st' b'"
proof (cases "b (manifest_key cfg)")
  case None
  with assms(1) have "\<forall>f\<in>set SYNC_FILES. sy_file_sizes st f = None" by (simp add: listed_def)
  then have "\<forall>f\<in>set SYNC_FILES. sy_file_sizes st' f = None" using assms(3) by blast
  with None assms(2) show ?thesis by (simp add: listed_def)
next
  case (Some d)
  then obtain m where m: "d = s3_print_manifest env m" "sizes_ok (mf_files m)" "\<forall>f\<in>set SYNC_FILES. sy_file_sizes st f \<noteq> None \<longrightarrow> mf_files m f \<noteq> None"
    using assms(1) by (auto simp: listed_def)
  have "\<forall>f\<in>set SYNC_FILES. sy_file_sizes st' f \<noteq> None \<longrightarrow> mf_files m f \<noteq> None" using m(3) assms(3) by blast
  then have "\<exists>m. d = s3_print_manifest env m \<and> sizes_ok (mf_files m) \<and> (\<forall>f\<in>set SYNC_FILES. sy_file_sizes st' f \<noteq> None \<longrightarrow> mf_files m f \<noteq> None)"
    using m(1,2) by blast
  with Some assms(2) show ?thesis by (simp add: listed_def del: not_None_eq)
qed

definition s3_ok :: "s3_env \<Rightarrow> S3SyncConfig \<Rightarrow> files \<Rightarrow> files \<Rightarrow> bool" where
  "s3_ok env cfg l b \<longleftrightarrow> held cfg l (state_load env l) b \<and> listed env cfg (state_load env l) b"

text \<open>What the parameters have to do: JSON is read as it was printed and not read where it is cut off, iterating visits every key, a listing keeps to its prefix.\<close>

definition s3_faithful :: "s3_env \<Rightarrow> bool" where
  "s3_faithful env \<longleftrightarrow>
     (\<forall>st. finite (dom (sy_file_sizes st)) \<longrightarrow> s3_parse_state env (s3_print_state env st) = Some st \<and>
        (\<forall>n < length (s3_print_state env st). s3_parse_state env (take n (s3_print_state env st)) = None)) \<and>
     (\<forall>m. finite (dom (mf_files m)) \<longrightarrow> s3_parse_manifest env (s3_print_manifest env m) = Inr m) \<and>
     (\<forall>m. finite (dom m) \<longrightarrow> fst ` set (s3_order env m) = dom m) \<and>
     (\<forall>b p k. k \<in> set (s3_list env b p) \<longrightarrow> prefix p k)"

lemma state_load_grows: "grows l l' \<Longrightarrow> state_load env l' = state_load env l"
  by (simp add: grows_def state_load_def)

text \<open>Saving the state, whether it is written, not opened or cut off.\<close>

lemma write_file_cases:
  assumes "write_file ops path d l = (l', r)"
  obtains "l' = l" "r \<noteq> Inr ()" | n where "l' = l(path \<mapsto> take n d)" "r \<noteq> Inr ()" | "l' = l(path \<mapsto> d)" "r = Inr ()"
  using assms by (auto simp: write_file_def split: write_outcome.splits)

lemma write_file_ok [simp]: "all_ok ops \<Longrightarrow> write_file ops path d l = (l(path \<mapsto> d), Inr ())"
  by (simp add: write_file_def all_ok_def)

lemma state_load_upd [simp]:
  "state_load env (l(''sync_state.json'' \<mapsto> d)) = (case s3_parse_state env d of Some st \<Rightarrow> st | None \<Rightarrow> state_default)"
  by (simp add: state_load_def)

lemma state_saved:
  assumes "s3_faithful env" and "sizes_ok (sy_file_sizes st)" and "state_save env ops st l = (l', r)"
  shows "state_load env l' \<in> {st, state_load env l, state_default} \<and> (r = Inr () \<longrightarrow> state_load env l' = st)"
proof -
  have fin: "finite (dom (sy_file_sizes st))" using assms(2) by (simp add: sizes_ok_def)
  have cut_off: "s3_parse_state env (take n (s3_print_state env st)) \<in> {Some st, None}" for n
    using assms(1) fin unfolding s3_faithful_def by (cases "n < length (s3_print_state env st)") simp_all
  have whole: "s3_parse_state env (s3_print_state env st) = Some st" using assms(1) fin by (simp add: s3_faithful_def)
  from assms(3) [unfolded state_save_def] show ?thesis
  proof (cases rule: write_file_cases)
    case (2 n)
    have "state_load env l' = (case s3_parse_state env (take n (s3_print_state env st)) of Some st \<Rightarrow> st | None \<Rightarrow> state_default)"
      unfolding 2(1) by (rule state_load_upd)
    with cut_off [of n] 2(2) show ?thesis by auto
  next
    case 3
    have "state_load env l' = st" unfolding 3(1) state_load_upd whole by simp
    then show ?thesis by simp
  qed simp
qed

lemma state_save_content:
  assumes "state_save env ops st l = (l', r)" and "f \<noteq> ''sync_state.json''"
  shows "content l' f = content l f"
  using assms(1) [unfolded state_save_def] assms(2) by (cases rule: write_file_cases) (simp_all add: content_def)

text \<open>One round, whatever fails in it and however the files grow during it.\<close>

abbreviation manifest_of :: "nat \<Rightarrow> SyncState \<Rightarrow> S3Manifest" where
  "manifest_of now st \<equiv> \<lparr>mf_files = sy_file_sizes st, mf_created_at = now, mf_version = 1\<rparr>"

lemma do_sync_cases:
  assumes "do_sync env cfg ops now view names b = (l', b', r)"
  obtains st1 b1 e where "sync_tracked cfg ops (zip SYNC_FILES (map view [1..<7])) (state_load env (view 0)) b = (st1, b1, Inl e)"
      "l' = view 7" "b' = b1" "r = Inl e"
  | st1 b1 n st2 b2 r2 where "sync_tracked cfg ops (zip SYNC_FILES (map view [1..<7])) (state_load env (view 0)) b = (st1, b1, Inr n)"
      "sync_registry cfg ops (view 7) names st1 b1 = (st2, b2, r2)" "l' = view 7" "b' = b2"
      "r2 = Inr 0 \<and> n = 0 \<and> r = Inr () \<or> isl r2 \<and> isl r \<or> isl r \<and> \<not> all_ok ops"
  | st1 b1 n st2 b2 k where "sync_tracked cfg ops (zip SYNC_FILES (map view [1..<7])) (state_load env (view 0)) b = (st1, b1, Inr n)"
      "sync_registry cfg ops (view 7) names st1 b1 = (st2, b2, Inr k)"
      "b' = b2(manifest_key cfg \<mapsto> s3_print_manifest env (manifest_of now st2))"
      "l' = view 7 \<and> isl r \<and> \<not> all_ok ops \<or> state_save env ops (st2\<lparr>sy_last_sync_time := now\<rparr>) (view 7) = (l', r)"
proof -
  obtain st1 b1 r1 where t: "sync_tracked cfg ops (zip SYNC_FILES (map view [1..<7])) (state_load env (view 0)) b = (st1, b1, r1)" by (metis prod_cases3)
  note step = assms [unfolded do_sync_def t prod.case]
  show thesis
  proof (cases r1)
    case (Inl e)
    with t step that(1) show thesis by simp
  next
    case (Inr n)
    obtain st2 b2 r2 where g: "sync_registry cfg ops (view 7) names st1 b1 = (st2, b2, r2)" by (metis prod_cases3)
    show thesis
    proof (cases "\<exists>k. r2 = Inr k \<and> (0 < n \<or> 0 < k)")
      case False
      then have "l' = view 7 \<and> b' = b2 \<and> (r2 = Inr 0 \<and> n = 0 \<and> r = Inr () \<or> isl r2 \<and> isl r)"
        using step [unfolded Inr sum.case g prod.case] by (cases r2) auto
      then show thesis by (intro that(2) [OF t [unfolded Inr] g]) blast+
    next
      case True
      then obtain k where k: "r2 = Inr k" "0 < n \<or> 0 < k" by blast
      obtain b3 u where u: "upload_manifest env cfg ops now st2 b2 = (b3, u)" by fastforce
      obtain l3 s where s: "state_save env ops (st2\<lparr>sy_last_sync_time := now\<rparr>) (view 7) = (l3, s)" by fastforce
      have *: "(case u of Inl e \<Rightarrow> (view 7, b3, Inl e) | Inr x \<Rightarrow> (l3, b3, s)) = (l', b', r)"
        using step [unfolded Inr sum.case g prod.case k(1)] k(2) u s by (cases u) auto
      have b3: "b3 = b2 \<and> isl u \<and> \<not> all_ok ops \<or> b3 = b2(manifest_key cfg \<mapsto> s3_print_manifest env (manifest_of now st2)) \<and> (isl u \<longrightarrow> \<not> all_ok ops)"
        using u by (auto simp: upload_manifest_def put_object_def manifest_key_def all_ok_def split: put_outcome.splits)
      then consider "b3 = b2" "isl u" "\<not> all_ok ops" | "b3 = b2(manifest_key cfg \<mapsto> s3_print_manifest env (manifest_of now st2))" "isl u \<longrightarrow> \<not> all_ok ops" by blast
      then show thesis
      proof cases
        case 1
        with * have "l' = view 7" "b' = b2" "isl r" by (auto simp: isl_def)
        with 1 show thesis by (intro that(2) [OF t [unfolded Inr] g]) simp_all
      next
        case 2
        with * s show thesis by (intro that(3) [OF t [unfolded Inr] g [unfolded k(1)]]) (cases u; auto)+
      qed
    qed
  qed
qed

definition view_grows :: "(nat \<Rightarrow> files) \<Rightarrow> bool" where
  "view_grows view \<longleftrightarrow> (\<forall>k < 7. grows (view k) (view (Suc k)))"

lemma view_growsD:
  assumes "view_grows view" and "i \<le> j" and "j \<le> 7"
  shows "grows (view i) (view j)"
  using assms(2,3)
proof (induction j rule: dec_induct)
  case (step j)
  then show ?case using assms(1) by (auto simp: view_grows_def intro: grows_trans)
qed simp

lemma sync_views: "(f, v) \<in> set (zip SYNC_FILES (map view [1..<7])) \<longleftrightarrow> (\<exists>k < 6. f = SYNC_FILES ! k \<and> v = view (Suc k))"
proof -
  have "length SYNC_FILES = 6" by (simp add: SYNC_FILES_def)
  then show ?thesis by (fastforce simp: in_set_zip)
qed

lemma sync_file_nth: "f \<in> set SYNC_FILES \<longleftrightarrow> (\<exists>k < 6. f = SYNC_FILES ! k)"
proof -
  have "length SYNC_FILES = 6" by (simp add: SYNC_FILES_def)
  then show ?thesis by (auto simp: in_set_conv_nth)
qed

lemma do_sync_tracked:
  assumes "view_grows view" and "s3_ok env cfg (view 0) b"
    and "sync_tracked cfg ops (zip SYNC_FILES (map view [1..<7])) (state_load env (view 0)) b = (st1, b1, r1)"
  shows "held cfg (view 7) st1 b1 \<and> sizes_up (state_load env (view 0)) st1 \<and> b1 (manifest_key cfg) = b (manifest_key cfg) \<and>
    (r1 = Inr 0 \<longrightarrow> st1 = state_load env (view 0)) \<and>
    (all_ok ops \<longrightarrow> \<not> isl r1 \<and> (\<forall>f\<in>set SYNC_FILES. content (view 1) f \<noteq> [] \<longrightarrow> (\<exists>n. sy_file_sizes st1 f = Some n \<and> length (content (view 1) f) \<le> n)))"
proof -
  have held: "held cfg (view 7) (state_load env (view 0)) b"
    using assms(2) view_growsD [OF assms(1), of 0 7] by (auto simp: s3_ok_def intro: held_grows)
  have views: "f \<in> set SYNC_FILES \<and> prefix (content v f) (content (view 7) f) \<and> prefix (content (view 1) f) (content v f)"
    if fv: "(f, v) \<in> set (zip SYNC_FILES (map view [1..<7]))" for f v
  proof -
    obtain k where "f \<in> set SYNC_FILES" "k < 6" "v = view (Suc k)" using fv unfolding sync_views sync_file_nth by blast
    then show ?thesis using view_growsD [OF assms(1), of "Suc k" 7] view_growsD [OF assms(1), of 1 "Suc k"] by (auto simp: grows_def)
  qed
  have "\<forall>(f, v) \<in> set (zip SYNC_FILES (map view [1..<7])). f \<in> set SYNC_FILES \<and> prefix (content v f) (content (view 7) f)"
    using views by blast
  note t = sync_tracked_held [OF assms(3) held this]
  have "\<exists>n. sy_file_sizes st1 f = Some n \<and> length (content (view 1) f) \<le> n" if f: "f \<in> set SYNC_FILES" "all_ok ops" "content (view 1) f \<noteq> []" for f
  proof -
    obtain v where v: "(f, v) \<in> set (zip SYNC_FILES (map view [1..<7]))" using f(1) unfolding sync_views sync_file_nth by blast
    then have le: "prefix (content (view 1) f) (content v f)" using views by blast
    with f(3) have "content v f \<noteq> []" by auto
    with t f(2) v obtain n where "sy_file_sizes st1 f = Some n" "length (content v f) \<le> n" by fastforce
    with prefix_length_le [OF le] show ?thesis by auto
  qed
  moreover have "b1 (manifest_key cfg) = b (manifest_key cfg)" using t by (simp add: only_tracked_def)
  ultimately show ?thesis using t by blast
qed

lemma do_sync_registry:
  assumes "held cfg L st1 b1" and "sync_registry cfg ops local names st1 b1 = (st2, b2, r2)"
  shows "held cfg L st2 b2"
  using assms(1) sync_registry_kept [OF assms(2)]
  by (intro held_sizes [OF assms(1)]) (auto simp: registry_kept_def held_def)

lemma do_sync_unsaved:
  assumes "view_grows view" and "s3_ok env cfg (view 0) b" and "held cfg (view 7) st2 b'" and "b' (manifest_key cfg) = b (manifest_key cfg)"
    and "\<forall>f\<in>set SYNC_FILES. \<forall>n. sy_file_sizes (state_load env (view 0)) f = Some n \<longrightarrow> (\<exists>n'. n \<le> n' \<and> sy_file_sizes st2 f = Some n')"
  shows "s3_ok env cfg (view 7) b'"
proof -
  have st: "state_load env (view 7) = state_load env (view 0)"
    using view_growsD [OF assms(1), of 0 7] by (simp add: state_load_grows)
  have "held cfg (view 7) (state_load env (view 0)) b'"
    using assms(2,5) by (intro held_sizes [OF assms(3)]) (auto simp: s3_ok_def held_def)
  moreover have "listed env cfg (state_load env (view 0)) b'"
    using assms(2,4) by (auto simp: s3_ok_def intro: listed_sizes)
  ultimately show ?thesis by (simp add: s3_ok_def st)
qed

lemma do_sync_saved:
  assumes "s3_faithful env" and "held cfg L st2 b2" and "sizes_ok (sy_file_sizes (state_load env L))"
    and less: "\<And>f n. f \<in> set SYNC_FILES \<Longrightarrow> sy_file_sizes (state_load env L) f = Some n \<Longrightarrow> \<exists>n'. n \<le> n' \<and> sy_file_sizes st2 f = Some n'"
    and "l' = L \<or> state_save env ops (st2\<lparr>sy_last_sync_time := now\<rparr>) L = (l', r)"
  shows "s3_ok env cfg l' (b2(manifest_key cfg \<mapsto> s3_print_manifest env (manifest_of now st2)))"
proof -
  have ok: "sizes_ok (sy_file_sizes st2)" using assms(2) by (simp add: held_def)
  have load: "state_load env l' \<in> {st2\<lparr>sy_last_sync_time := now\<rparr>, state_load env L, state_default}"
    using assms(5) state_saved [OF assms(1), of "st2\<lparr>sy_last_sync_time := now\<rparr>"] ok by auto
  then have sizes: "sizes_ok (sy_file_sizes (state_load env l'))"
    "\<And>f n. f \<in> set SYNC_FILES \<Longrightarrow> sy_file_sizes (state_load env l') f = Some n \<Longrightarrow> \<exists>n'. n \<le> n' \<and> sy_file_sizes st2 f = Some n'"
    using ok assms(3) less by (auto simp: state_default_def)
  have same: "content l' f = content L f" if "f \<in> set SYNC_FILES" for f
    using assms(5) state_save_content [of env ops _ L l' r f] that sync_files_other(1) by metis
  have "held cfg l' (state_load env l') (b2(manifest_key cfg \<mapsto> s3_print_manifest env (manifest_of now st2)))"
    using sizes same by (intro held_sizes [OF assms(2)]) auto
  moreover have "listed env cfg (state_load env l') (b2(manifest_key cfg \<mapsto> s3_print_manifest env (manifest_of now st2)))"
    using ok by (auto simp: listed_def dest: sizes(2) intro!: exI [of _ "manifest_of now st2"])
  ultimately show ?thesis by (simp add: s3_ok_def)
qed

lemma do_sync_ok:
  assumes "s3_faithful env" and "view_grows view" and "s3_ok env cfg (view 0) b" and "do_sync env cfg ops now view names b = (l', b', r)"
  shows "s3_ok env cfg l' b'"
  using assms(4)
proof (cases rule: do_sync_cases)
  case (1 st1 b1 e)
  note t = do_sync_tracked [OF assms(2,3) 1(1)]
  show ?thesis unfolding 1(2,3)
    using t by (intro do_sync_unsaved [OF assms(2,3), of st1]) (auto simp: sizes_up_def)
next
  case (2 st1 b1 n st2 b2 r2)
  note t = do_sync_tracked [OF assms(2,3) 2(1)] and g = sync_registry_kept [OF 2(2)]
  have "held cfg (view 7) st2 b2" using do_sync_registry [OF _ 2(2)] t by blast
  with t g show ?thesis unfolding 2(3,4)
    by (intro do_sync_unsaved [OF assms(2,3), of st2]) (auto simp: sizes_up_def registry_kept_def)
next
  case (3 st1 b1 n st2 b2 k)
  note t = do_sync_tracked [OF assms(2,3) 3(1)] and g = sync_registry_kept [OF 3(2)]
  have h: "held cfg (view 7) st2 b2" using do_sync_registry [OF _ 3(2)] t by blast
  have st0: "state_load env (view 7) = state_load env (view 0)"
    using view_growsD [OF assms(2), of 0 7] by (simp add: state_load_grows)
  show ?thesis unfolding 3(3)
  proof (rule do_sync_saved [OF assms(1) h])
    show "sizes_ok (sy_file_sizes (state_load env (view 7)))" using assms(3) by (simp add: st0 s3_ok_def held_def)
    show "\<exists>n'. n \<le> n' \<and> sy_file_sizes st2 f = Some n'" if "f \<in> set SYNC_FILES" "sy_file_sizes (state_load env (view 7)) f = Some n" for f n
      using that t g by (auto simp: st0 sizes_up_def registry_kept_def)
    show "l' = view 7 \<or> state_save env ops (st2\<lparr>sy_last_sync_time := now\<rparr>) (view 7) = (l', r)" using 3(4) by blast
  qed
qed

lemma do_sync_content:
  assumes "do_sync env cfg ops now view names b = (l', b', r)" and "f \<in> set SYNC_FILES"
  shows "content l' f = content (view 7) f"
  using assms(1)
proof (cases rule: do_sync_cases)
  case (3 st1 b1 n st2 b2 k)
  then show ?thesis using state_save_content [of env ops _ "view 7" l' r f] assms(2) sync_files_other(1) by metis
qed simp_all

text \<open>A round in which nothing fails uploads every file as it is when the round starts, or longer.\<close>

lemma do_sync_covers:
  assumes "s3_faithful env" and "view_grows view" and "s3_ok env cfg (view 0) b" and "do_sync env cfg ops now view names b = (l', b', r)"
    and "all_ok ops" and "entries_read (view 7) names" and "f \<in> set SYNC_FILES" and "content (view 1) f \<noteq> []"
  shows "\<exists>n. sy_file_sizes (state_load env l') f = Some n \<and> length (content (view 1) f) \<le> n"
  using assms(4)
proof (cases rule: do_sync_cases)
  case (1 st1 b1 e)
  with do_sync_tracked [OF assms(2,3) 1(1)] assms(5) show ?thesis by simp
next
  case (2 st1 b1 n st2 b2 r2)
  note t = do_sync_tracked [OF assms(2,3) 2(1)] and g = sync_registry_kept [OF 2(2)]
  have "n = 0" using 2(5) g assms(5,6) by auto
  with t have "st1 = state_load env (view 0)" by blast
  moreover have "state_load env l' = state_load env (view 0)"
    using view_growsD [OF assms(2), of 0 7] 2(3) by (simp add: state_load_grows)
  ultimately show ?thesis using t assms(5,7,8) by auto
next
  case (3 st1 b1 n st2 b2 k)
  note t = do_sync_tracked [OF assms(2,3) 3(1)] and g = sync_registry_kept [OF 3(2)]
  have h: "held cfg (view 7) st2 b2" using do_sync_registry [OF _ 3(2)] t by blast
  have s: "state_save env ops (st2\<lparr>sy_last_sync_time := now\<rparr>) (view 7) = (l', r)" using 3(4) assms(5) by blast
  then have "r = Inr ()" using assms(5) by (auto simp: state_save_def)
  then have "state_load env l' = st2\<lparr>sy_last_sync_time := now\<rparr>"
    using state_saved [OF assms(1) _ s] h by (simp add: held_def)
  then show ?thesis using t g assms(5,7,8) by (simp add: registry_kept_def)
qed

section \<open>What a restore gives\<close>

lemma download_file_at:
  "fst (download_file cfg ops b f l) g =
     (if g = f \<and> op_get ops (s3_key cfg f) then
        (case (b (s3_key cfg f), op_write ops f) of
           (Some d, Written) \<Rightarrow> Some d
         | (Some d, Stopped n) \<Rightarrow> Some (take n d)
         | _ \<Rightarrow> l g)
      else l g)"
  by (auto simp: download_file_def write_file_def Let_def split: option.splits write_outcome.splits)

text \<open>A restored file is the beginning of its object; other files are left alone.\<close>

definition restored_from :: "S3SyncConfig \<Rightarrow> files \<Rightarrow> string set \<Rightarrow> files \<Rightarrow> files \<Rightarrow> bool" where
  "restored_from cfg b F l l' \<longleftrightarrow> (\<forall>g. l' g = l g \<or> g \<in> F \<and> (\<exists>d n. b (s3_key cfg g) = Some d \<and> l' g = Some (take n d)))"

lemma restored_from_trans: "restored_from cfg b F l l1 \<Longrightarrow> restored_from cfg b G l1 l2 \<Longrightarrow> restored_from cfg b (F \<union> G) l l2"
  unfolding restored_from_def by (metis UnCI)

lemma download_restored: "restored_from cfg b {f} l (fst (download_file cfg ops b f l))"
proof -
  have "fst (download_file cfg ops b f l) g = l g \<or> g \<in> {f} \<and> (\<exists>d n. b (s3_key cfg g) = Some d \<and> fst (download_file cfg ops b f l) g = Some (take n d))" for g
  proof (cases "g = f \<and> op_get ops (s3_key cfg f)")
    case True
    show ?thesis
    proof (cases "b (s3_key cfg f)")
      case (Some d)
      with True show ?thesis
        by (cases "op_write ops f") (auto simp: download_file_at intro: exI [of _ "length d"])
    qed (simp add: download_file_at)
  qed (auto simp: download_file_at)
  then show ?thesis unfolding restored_from_def by blast
qed

lemma download_then_restored:
  "restored_from cfg b G (fst (download_file cfg ops b f l)) l' \<Longrightarrow> restored_from cfg b (insert f G) l l'"
  using restored_from_trans [OF download_restored] by fastforce

lemma restored_from_refl [simp]: "restored_from cfg b F l l"
  by (simp add: restored_from_def)

lemma restore_tracked_restored: "restored_from cfg b (set fs) l (fst (restore_tracked cfg ops b fs l))"
proof (induction cfg ops b fs l rule: restore_tracked.induct)
  case (2 cfg ops b f fs l)
  then show ?case by (auto intro: download_then_restored)
qed simp

lemma restore_files_restored: "restored_from cfg b (set fs) l (restore_files cfg ops b fs l)"
proof (induction cfg ops b fs l rule: restore_files.induct)
  case (2 cfg ops b f fs l)
  then show ?case by (auto intro: download_then_restored)
qed simp

text \<open>Where nothing fails every listed object is there.\<close>

lemma restore_tracked_ok:
  "all_ok ops \<Longrightarrow> \<exists>l'. restore_tracked cfg ops b fs l = (l', Inr ()) \<and> (\<forall>g\<in>set fs. b (s3_key cfg g) \<noteq> None \<longrightarrow> l' g = b (s3_key cfg g))"
proof (induction cfg ops b fs l rule: restore_tracked.induct)
  case (2 cfg ops b f fs l)
  let ?l = "fst (download_file cfg ops b f l)"
  obtain l' where l': "restore_tracked cfg ops b fs ?l = (l', Inr ())" "\<forall>g\<in>set fs. b (s3_key cfg g) \<noteq> None \<longrightarrow> l' g = b (s3_key cfg g)"
    using 2 by (auto simp: all_ok_def)
  have "?l f = b (s3_key cfg f)" if "b (s3_key cfg f) \<noteq> None"
    using that "2.prems" by (auto simp: download_file_at all_ok_def)
  moreover have "l' f = ?l f" if "f \<notin> set fs"
    using that restore_tracked_restored [of cfg b fs ?l ops] l'(1) by (auto simp: restored_from_def)
  ultimately have "b (s3_key cfg f) \<noteq> None \<longrightarrow> l' f = b (s3_key cfg f)" using l'(2) by metis
  with l' "2.prems" show ?case by (simp add: all_ok_def)
qed simp

lemma prefix_s3_key: "prefix (s3_key cfg p) k \<Longrightarrow> \<exists>x. k = s3_key cfg (p @ x)"
  by (auto simp: prefix_def s3_key_def)

lemma restore_registry_restored:
  assumes "s3_faithful env"
  shows "restored_from cfg b {f. prefix ''registry/'' f} l (fst (restore_registry env cfg ops b l))"
proof -
  have "set (map (relative_of_key cfg) (s3_list env b (s3_key cfg ''registry/''))) \<subseteq> {f. prefix ''registry/'' f}"
  proof
    fix f
    assume "f \<in> set (map (relative_of_key cfg) (s3_list env b (s3_key cfg ''registry/'')))"
    then obtain k where k: "f = relative_of_key cfg k" "k \<in> set (s3_list env b (s3_key cfg ''registry/''))" by auto
    then have "prefix (s3_key cfg ''registry/'') k" using assms unfolding s3_faithful_def by meson
    then obtain x where "k = s3_key cfg (''registry/'' @ x)" using prefix_s3_key by blast
    then have "f = ''registry/'' @ x" using k(1) by (simp only: relative_of_key)
    then show "f \<in> {f. prefix ''registry/'' f}" by (simp add: prefix_def)
  qed
  then have "restored_from cfg b {f. prefix ''registry/'' f} l
    (restore_files cfg ops b (map (relative_of_key cfg) (s3_list env b (s3_key cfg ''registry/''))) l)"
    using restore_files_restored unfolding restored_from_def by blast
  then show ?thesis unfolding restore_registry_def by simp
qed

section \<open>Backups while files grow and requests fail\<close>

text \<open>From an empty bucket: the files grow and rounds are run, whatever fails in them.\<close>

inductive s3_reach :: "s3_env \<Rightarrow> S3SyncConfig \<Rightarrow> files \<Rightarrow> files \<Rightarrow> bool" for env cfg where
  fresh: "l ''sync_state.json'' = None \<Longrightarrow> s3_reach env cfg l Map.empty"
| growing: "s3_reach env cfg l b \<Longrightarrow> grows l l' \<Longrightarrow> s3_reach env cfg l' b"
| round: "s3_reach env cfg (view 0) b \<Longrightarrow> view_grows view \<Longrightarrow> do_sync env cfg ops now view names b = (l', b', r) \<Longrightarrow> s3_reach env cfg l' b'"

lemma s3_reach_ok: "s3_reach env cfg l b \<Longrightarrow> s3_faithful env \<Longrightarrow> s3_ok env cfg l b"
proof (induction rule: s3_reach.induct)
  case (fresh l)
  then show ?case by (simp add: s3_ok_def state_load_def held_def listed_def state_default_def)
next
  case (growing l b l')
  then show ?case by (auto simp: s3_ok_def state_load_grows intro: held_grows)
next
  case (round view b ops now names l' b' r)
  then show ?case by (blast intro: do_sync_ok)
qed

lemma sync_loop_reach:
  assumes "s3_reach env cfg l b"
    and "\<forall>(ops, now, written, names) \<in> set rounds. \<forall>l. grows l (written 0 l) \<and> view_grows (\<lambda>k. written k l)"
  shows "s3_reach env cfg (fst (sync_loop env cfg rounds (l, b))) (snd (sync_loop env cfg rounds (l, b)))"
  using assms
proof (induction rounds arbitrary: l b)
  case (Cons x rounds)
  obtain ops now written names where x: "x = (ops, now, written, names)" by (metis prod_cases4)
  obtain l' b' r where s: "do_sync env cfg ops now (\<lambda>k. written k l) names b = (l', b', r)" by (metis prod_cases3)
  have "s3_reach env cfg l' b'"
    using Cons.prems x by (intro s3_reach.round [OF _ _ s]) (auto intro: s3_reach.growing)
  with Cons x s show ?case by simp
qed simp

lemma maybe_restore_restored:
  assumes "s3_faithful env" and "listed env cfg st b"
  shows "restored_from cfg b {f. backed_up f} l (fst (maybe_restore env cfg ops b l))"
proof -
  have files: "set (map fst (s3_order env (mf_files m))) \<subseteq> {f. backed_up f}" if m: "fetch_manifest env cfg ops b = Inr (Some m)" for m
  proof -
    obtain m' where m': "b (manifest_key cfg) = Some (s3_print_manifest env m')" "sizes_ok (mf_files m')"
      using m assms(2) by (auto simp: fetch_manifest_def listed_def manifest_key_def Let_def split: if_splits option.splits)
    have "m = m'" "fst ` set (s3_order env (mf_files m')) = dom (mf_files m')"
      using m m' assms(1) by (simp_all add: fetch_manifest_def manifest_key_def s3_faithful_def sizes_ok_def Let_def split: if_splits)
    with m'(2) show ?thesis by (auto simp: sizes_ok_def)
  qed
  have tracked: "restored_from cfg b {f. backed_up f} l (fst (restore_tracked cfg ops b (map fst (s3_order env (mf_files m))) l))"
    if "fetch_manifest env cfg ops b = Inr (Some m)" for m
    using files [OF that] restore_tracked_restored [of cfg b "map fst (s3_order env (mf_files m))" l ops] unfolding restored_from_def by blast
  have "restored_from cfg b {f. backed_up f} l' (fst (restore_registry env cfg ops b l'))" for l'
    using restore_registry_restored [OF assms(1), of cfg b l' ops] unfolding restored_from_def backed_up_def by blast
  with tracked have "restored_from cfg b {f. backed_up f} l
      (fst (restore_registry env cfg ops b (fst (restore_tracked cfg ops b (map fst (s3_order env (mf_files m))) l))))"
    if "fetch_manifest env cfg ops b = Inr (Some m)" for m
    using that restored_from_trans [of cfg b "{f. backed_up f}" l _ "{f. backed_up f}"] by (metis sup.idem)
  with tracked show ?thesis
    unfolding maybe_restore_def by (auto split: sum.splits option.splits prod.splits)
qed

lemma maybe_restore_ok:
  assumes "s3_faithful env" and "listed env cfg st b" and "all_ok ops" and "\<forall>f\<in>set SYNC_FILES. l0 f = None"
    and "f \<in> set SYNC_FILES" and "sy_file_sizes st f \<noteq> None" and "b (s3_key cfg f) \<noteq> None"
  shows "fst (maybe_restore env cfg ops b l0) f = b (s3_key cfg f)"
proof -
  obtain m where m: "b (manifest_key cfg) = Some (s3_print_manifest env m)" "finite (dom (mf_files m))" "mf_files m f \<noteq> None"
    using assms(2,5,6) by (auto simp: listed_def sizes_ok_def split: option.splits)
  have fetch: "fetch_manifest env cfg ops b = Inr (Some m)" and files: "f \<in> set (map fst (s3_order env (mf_files m)))"
    using m assms(1,3) by (auto simp: fetch_manifest_def manifest_key_def [symmetric] all_ok_def s3_faithful_def Let_def)
  obtain l' where l': "restore_tracked cfg ops b (map fst (s3_order env (mf_files m))) l0 = (l', Inr ())"
      "\<forall>g\<in>set (map fst (s3_order env (mf_files m))). b (s3_key cfg g) \<noteq> None \<longrightarrow> l' g = b (s3_key cfg g)"
    using restore_tracked_ok [OF assms(3)] by blast
  have "\<not> prefix ''registry/'' f" using assms(5) sync_files_other(3) by (auto simp: prefix_def)
  then have "fst (restore_registry env cfg ops b l') f = l' f"
    using restore_registry_restored [OF assms(1), of cfg b l' ops] unfolding restored_from_def by blast
  moreover have "\<not> list_ex (\<lambda>f. l0 f \<noteq> None) SYNC_FILES" using assms(4) by (auto simp: list_ex_iff)
  moreover have "l' f = b (s3_key cfg f)" using l'(2) files assms(7) by blast
  ultimately show ?thesis using l'(1) fetch by (simp add: maybe_restore_def)
qed

lemma restore_prefix:
  assumes "s3_faithful env" and "s3_ok env cfg l b" and "f \<in> set SYNC_FILES" and "l0 f = None"
  shows "prefix (content (fst (maybe_restore env cfg ops b l0)) f) (content l f)"
proof -
  from maybe_restore_restored [OF assms(1)] assms(2)
  have "restored_from cfg b {f. backed_up f} l0 (fst (maybe_restore env cfg ops b l0))" unfolding s3_ok_def by blast
  then consider "fst (maybe_restore env cfg ops b l0) f = None"
    | d n where "b (s3_key cfg f) = Some d" "fst (maybe_restore env cfg ops b l0) f = Some (take n d)"
    using assms(4) unfolding restored_from_def by metis
  then show ?thesis
  proof cases
    case 1
    then show ?thesis by (simp add: content_def)
  next
    case (2 d n)
    then have "prefix d (content l f)" using assms(2,3) by (simp add: s3_ok_def held_def)
    then show ?thesis using 2(2) by (simp add: content_def) (meson prefix_order.trans take_is_prefix)
  qed
qed

lemma restore_complete:
  assumes "s3_faithful env" and "s3_ok env cfg l b" and "all_ok ops" and "all_ok ops'" and "entries_read l names"
    and "\<forall>f\<in>set SYNC_FILES. l0 f = None" and "f \<in> set SYNC_FILES"
  shows "content (fst (maybe_restore env cfg ops' (fst (snd (do_sync env cfg ops now (\<lambda>_. l) names b))) l0)) f = content l f"
proof -
  obtain l' b' r where s: "do_sync env cfg ops now (\<lambda>_. l) names b = (l', b', r)" by (metis prod_cases3)
  have g: "view_grows (\<lambda>_. l)" by (simp add: view_grows_def)
  have ok': "s3_ok env cfg l' b'" using do_sync_ok [OF assms(1) g _ s] assms(2) by simp
  have same: "content l' f = content l f" using do_sync_content [OF s assms(7)] by simp
  have pre: "prefix (content (fst (maybe_restore env cfg ops' b' l0)) f) (content l f)"
    using restore_prefix [OF assms(1) ok' assms(7)] assms(6,7) same by simp
  show ?thesis
  proof (cases "content l f = []")
    case True
    with pre s show ?thesis by simp
  next
    case False
    obtain n where n: "sy_file_sizes (state_load env l') f = Some n" "length (content l f) \<le> n"
      using do_sync_covers [OF assms(1) g _ s assms(3) _ assms(7)] assms(2,5) False by auto
    with ok' assms(7) obtain c where c: "b' (s3_key cfg f) = Some c" "n \<le> length c" "prefix c (content l f)"
      unfolding s3_ok_def held_def same [symmetric] by blast
    then have "c = content l f" using n(2) by (metis order.trans not_equal_is_parallel parallelD2 prefix_length_le prefix_length_prefix prefix_order.antisym prefix_order.refl)
    moreover have "fst (maybe_restore env cfg ops' b' l0) f = Some c"
      using maybe_restore_ok [OF assms(1) _ assms(4,6,7)] ok' n(1) c(1) unfolding s3_ok_def by auto
    ultimately show ?thesis using s by simp
  qed
qed

section \<open>A concrete object store\<close>

text \<open>Texts made of a number: the state and the manifest are counted, a cut-off text lacks its last character.\<close>

definition number_text :: "nat \<Rightarrow> bytes" where
  "number_text n = replicate n 1 @ [0]"

definition text_number :: "bytes \<Rightarrow> nat option" where
  "text_number d = (if d = number_text (length d - 1) then Some (length d - 1) else None)"

lemma text_number [simp]: "text_number (number_text n) = Some n"
  by (simp add: text_number_def number_text_def)

lemma text_number_cut: "n < length (number_text k) \<Longrightarrow> text_number (take n (number_text k)) = None"
proof -
  assume "n < length (number_text k)"
  then have cut_off: "take n (number_text k) = replicate n 1" by (simp add: number_text_def min_def)
  have "replicate n 1 \<noteq> number_text (n - 1)"
  proof
    assume eq: "replicate n 1 = number_text (n - 1)"
    have "(0 :: u8) \<in> set (number_text (n - 1))" by (simp add: number_text_def)
    then show False unfolding eq [symmetric] by simp
  qed
  with cut_off show ?thesis by (simp add: text_number_def)
qed

definition finite_maps :: "(string \<rightharpoonup> nat) set" where
  "finite_maps = {m. finite (dom m)}"

lemma graph_inject: "Map.graph m = Map.graph m' \<Longrightarrow> m = m'"
proof
  fix x
  assume "Map.graph m = Map.graph m'"
  then have "m x = Some y \<longleftrightarrow> m' x = Some y" for y by (metis in_graphD in_graphI)
  then show "m x = m' x" by (metis option.exhaust)
qed

lemma countable_finite_maps: "countable finite_maps"
proof (rule countableI' [where f = "\<lambda>m. to_nat_on (Collect finite) (Map.graph m)"], rule inj_onI)
  fix m m' :: "string \<rightharpoonup> nat"
  assume "m \<in> finite_maps" "m' \<in> finite_maps" "to_nat_on (Collect finite) (Map.graph m) = to_nat_on (Collect finite) (Map.graph m')"
  then show "m = m'"
    by (intro graph_inject inj_onD [OF inj_on_to_nat_on [OF countable_Collect_finite]]) (simp_all add: finite_maps_def)
qed

lemma from_finite_maps [simp]: "finite (dom m) \<Longrightarrow> from_nat_into finite_maps (to_nat_on finite_maps m) = m"
  using countable_finite_maps by (simp add: finite_maps_def)

definition demo_store :: s3_env where
  "demo_store =
     \<lparr>s3_parse_state = (\<lambda>d. map_option (\<lambda>n. case from_nat n of (m, t) \<Rightarrow> \<lparr>sy_file_sizes = from_nat_into finite_maps m, sy_last_sync_time = t\<rparr>) (text_number d)),
      s3_print_state = (\<lambda>st. number_text (to_nat (to_nat_on finite_maps (sy_file_sizes st), sy_last_sync_time st))),
      s3_parse_manifest = (\<lambda>d. case text_number d of
         None \<Rightarrow> Inl ''expected value''
       | Some n \<Rightarrow> (case from_nat n of (m, t, v) \<Rightarrow> Inr \<lparr>mf_files = from_nat_into finite_maps m, mf_created_at = t, mf_version = word_of_nat v\<rparr>)),
      s3_print_manifest = (\<lambda>m. number_text (to_nat (to_nat_on finite_maps (mf_files m), mf_created_at m, unat (mf_version m)))),
      s3_order = (\<lambda>m. map (\<lambda>i. (from_nat i, the (m (from_nat i)))) (sorted_list_of_set (to_nat ` dom m))),
      s3_list = (\<lambda>b p. filter (prefix p) (map from_nat (sorted_list_of_set (to_nat ` dom b))))\<rparr>"

lemma demo_store_faithful: "s3_faithful demo_store"
  unfolding s3_faithful_def
proof (intro conjI allI impI)
  fix st :: SyncState
  assume "finite (dom (sy_file_sizes st))"
  then show "s3_parse_state demo_store (s3_print_state demo_store st) = Some st" by (simp add: demo_store_def)
next
  fix st n
  assume "n < length (s3_print_state demo_store st)"
  then show "s3_parse_state demo_store (take n (s3_print_state demo_store st)) = None"
    by (simp add: demo_store_def text_number_cut)
next
  fix m :: S3Manifest
  assume "finite (dom (mf_files m))"
  then show "s3_parse_manifest demo_store (s3_print_manifest demo_store m) = Inr m" by (simp add: demo_store_def)
next
  fix m :: "string \<rightharpoonup> nat"
  assume "finite (dom m)"
  then show "fst ` set (s3_order demo_store m) = dom m" by (simp add: demo_store_def image_image)
qed (simp add: demo_store_def)

section \<open>What a backup is worth\<close>

lemma upload_file_ok: "all_ok ops \<Longrightarrow> local f = Some d \<Longrightarrow> upload_file cfg ops local f b = (b(s3_key cfg f \<mapsto> d), Inr ())"
  by (simp add: upload_file_def put_object_def all_ok_def)

lemma sync_tracked_Cons_ok:
  assumes "all_ok ops"
  shows "fst (snd (sync_tracked cfg ops ((g, l) # rest) st b)) =
    (case l g of
       Some d \<Rightarrow> if last_size st g < length d then fst (snd (sync_tracked cfg ops rest (size_noted g (length d) st) (b(s3_key cfg g \<mapsto> d))))
         else fst (snd (sync_tracked cfg ops rest st b))
     | None \<Rightarrow> fst (snd (sync_tracked cfg ops rest st b)))"
proof -
  have "op_stat ops g" using assms by (simp add: all_ok_def)
  then show ?thesis by (auto simp: upload_file_ok [OF assms] Let_def split: option.splits prod.splits)
qed

lemma sync_tracked_untouched:
  "all_ok ops \<Longrightarrow> f \<notin> fst ` set fs \<Longrightarrow> fst (snd (sync_tracked cfg ops fs st b)) (s3_key cfg f) = b (s3_key cfg f)"
proof (induction fs arbitrary: st b)
  case (Cons gl rest)
  then show ?case by (cases gl) (auto simp: sync_tracked_Cons_ok simp del: sync_tracked.simps(2) split: option.splits)
qed simp

lemma sync_tracked_uploads:
  assumes "all_ok ops" and "distinct (map fst fs)" and "(f, v) \<in> set fs" and "v f = Some d" and "last_size st f < length d"
  shows "fst (snd (sync_tracked cfg ops fs st b)) (s3_key cfg f) = Some d"
  using assms(2,3,5)
proof (induction fs arbitrary: st b)
  case (Cons gl rest)
  obtain g local where gl: "gl = (g, local)" by fastforce
  show ?case
  proof (cases "g = f")
    case True
    then have "v = local" and "f \<notin> fst ` set rest" using Cons.prems(1,2) gl by force+
    with True gl assms(4) Cons.prems(3) sync_tracked_untouched [OF assms(1)] show ?thesis
      by (simp add: sync_tracked_Cons_ok [OF assms(1)] del: sync_tracked.simps(2))
  next
    case False
    then have "(f, v) \<in> set rest" "distinct (map fst rest)" using Cons.prems gl by auto
    with Cons.IH Cons.prems(3) False gl show ?thesis
      by (auto simp: sync_tracked_Cons_ok [OF assms(1)] last_size_def simp del: sync_tracked.simps(2) split: option.splits)
  qed
qed simp

lemma do_sync_uploads:
  assumes "all_ok ops" and "state_load env l = state_default" and "f \<in> set SYNC_FILES" and "l f = Some d" and "d \<noteq> []"
  shows "fst (snd (do_sync env cfg ops now (\<lambda>_. l) names b)) (s3_key cfg f) = Some d"
proof -
  obtain l' b' r where s: "do_sync env cfg ops now (\<lambda>_. l) names b = (l', b', r)" by (metis prod_cases3)
  have up: "b1 (s3_key cfg f) = Some d"
    if "sync_tracked cfg ops (zip SYNC_FILES (map (\<lambda>_. l) [1..<7])) (state_load env l) b = (st1, b1, r1)" for st1 b1 r1
  proof -
    obtain k where "k < 6" "f = SYNC_FILES ! k" using assms(3) sync_file_nth by blast
    then have "(f, l) \<in> set (zip SYNC_FILES (map (\<lambda>_. l) [1..<7]))" unfolding sync_views by blast
    then have fv: "(f, l) \<in> set (zip SYNC_FILES (map (\<lambda>_. l) [1..<7]))" .
    have "distinct (map fst (zip SYNC_FILES (map (\<lambda>_. l) [1..<7])))"
      using sync_files_distinct by (simp add: map_fst_zip_take)
    then have "fst (snd (sync_tracked cfg ops (zip SYNC_FILES (map (\<lambda>_. l) [1..<7])) (state_load env l) b)) (s3_key cfg f) = Some d"
      using assms(2,5) by (intro sync_tracked_uploads [OF assms(1) _ fv assms(4)]) (auto simp: last_size_def state_default_def)
    with that show ?thesis by simp
  qed
  from s have "b' (s3_key cfg f) = Some d"
  proof (cases rule: do_sync_cases)
    case (1 st1 b1 e)
    with up show ?thesis by blast
  next
    case (2 st1 b1 n st2 b2 r2)
    with up [OF 2(1)] sync_registry_kept [OF 2(2)] assms(3) show ?thesis by (simp add: registry_kept_def)
  next
    case (3 st1 b1 n st2 b2 k)
    with up [OF 3(1)] sync_registry_kept [OF 3(2)] assms(3) show ?thesis by (simp add: registry_kept_def)
  qed
  with s show ?thesis by simp
qed

text \<open>C36. At every moment after a first start, whatever failed in the rounds so far and in the restore itself, a file restored
  into a new directory is a beginning of the file that was backed up: nothing is reordered, mixed or made up.  Different
  files may be restored at different lengths, though: they are uploaded one after another while appends go on.\<close>

theorem s3_restore_prefix:
  assumes "s3_faithful env" and "s3_reach env cfg l b" and "f \<in> set SYNC_FILES" and "l0 f = None"
  shows "prefix (content (fst (maybe_restore env cfg ops b l0)) f) (content l f)"
  using assms s3_reach_ok restore_prefix by blast


definition quiet_ops :: s3_ops where
  "quiet_ops = \<lparr>op_put = \<lambda>_. PutOk, op_get = \<lambda>_. True, op_list = True, op_stat = \<lambda>_. True, op_mkdir = \<lambda>_. True, op_read = \<lambda>_. True, op_write = \<lambda>_. Written\<rparr>"

lemma quiet_ops_ok: "all_ok quiet_ops"
  by (simp add: all_ok_def quiet_ops_def)

definition demo_bucket :: S3SyncConfig where
  "demo_bucket = \<lparr>s3_bucket = ''backups'', s3_prefix = ''cxdb/prod/'', s3_region = ''us-west-2'', s3_sync_interval_secs = 60, s3_enabled = True\<rparr>"

definition demo_dir :: files where
  "demo_dir = [''blobs/blobs.pack'' \<mapsto> [1, 2, 3], ''turns/turns.log'' \<mapsto> [4, 5]]"

theorem s3_restore_prefix_witness:
  "s3_faithful demo_store \<and> s3_reach demo_store demo_bucket demo_dir Map.empty \<and>
   prefix (content (fst (maybe_restore demo_store demo_bucket quiet_ops Map.empty Map.empty)) ''turns/turns.log'') (content demo_dir ''turns/turns.log'')"
proof (intro conjI)
  show r: "s3_reach demo_store demo_bucket demo_dir Map.empty" by (rule s3_reach.fresh) (simp add: demo_dir_def)
  show "prefix (content (fst (maybe_restore demo_store demo_bucket quiet_ops Map.empty Map.empty)) ''turns/turns.log'') (content demo_dir ''turns/turns.log'')"
    by (rule s3_restore_prefix [OF demo_store_faithful r]) (simp_all add: SYNC_FILES_def)
qed (rule demo_store_faithful)


text \<open>C37. A download that fails while restoring is only logged and the start goes on (the answer is that data was restored).
  The directory has no record of what was uploaded, so once the missing file has been written anew its short contents
  replace the complete object in the bucket: the backup is lost although nothing failed in that round.\<close>

theorem failed_restore_overwrites_backup:
  assumes "s3_faithful env" and "s3_reach env cfg l b" and "b (s3_key cfg ''sync_manifest.json'') \<noteq> None"
    and "op_get ops = (\<lambda>k. k \<noteq> s3_key cfg f)" and "\<forall>g. op_mkdir ops g" and "f \<in> set SYNC_FILES"
    and "\<forall>g\<in>set SYNC_FILES. l0 g = None" and "l0 ''sync_state.json'' = None"
    and "grows (fst (maybe_restore env cfg ops b l0)) l1" and "l1 f = Some d" and "d \<noteq> []" and "all_ok ops'"
  shows "snd (maybe_restore env cfg ops b l0) = Inr True \<and>
    fst (snd (do_sync env cfg ops' now (\<lambda>_. l1) names b)) (s3_key cfg f) = Some d"
proof
  have ok: "listed env cfg (state_load env l) b" using s3_reach_ok [OF assms(2,1)] by (simp add: s3_ok_def)
  then obtain m where m: "b (manifest_key cfg) = Some (s3_print_manifest env m)" "finite (dom (mf_files m))"
    using assms(3) by (auto simp: listed_def sizes_ok_def manifest_key_def [symmetric] split: option.splits)
  have get: "op_get ops (manifest_key cfg)" using assms(4,6) manifest_key_tracked(1) by metis
  have "fetch_manifest env cfg ops b = Inr (Some m)"
    using m get assms(1) by (simp add: fetch_manifest_def manifest_key_def [symmetric] s3_faithful_def)
  moreover have "snd (restore_tracked cfg ops b fs x) = Inr ()" for fs x
    using assms(5) by (induction fs arbitrary: x) simp_all
  moreover have "\<not> list_ex (\<lambda>f. l0 f \<noteq> None) SYNC_FILES" using assms(7) by (auto simp: list_ex_iff)
  ultimately show "snd (maybe_restore env cfg ops b l0) = Inr True"
    by (simp add: maybe_restore_def split: prod.splits sum.splits) (metis Inl_Inr_False snd_conv)
  have nb: "\<not> backed_up ''sync_state.json''" by (simp add: backed_up_def)
  have "fst (maybe_restore env cfg ops b l0) ''sync_state.json'' = l0 ''sync_state.json''"
    using maybe_restore_restored [OF assms(1) ok, of l0 ops] nb unfolding restored_from_def by blast
  then have "state_load env l1 = state_default" using assms(8,9) by (simp add: grows_def state_load_def)
  then show "fst (snd (do_sync env cfg ops' now (\<lambda>_. l1) names b)) (s3_key cfg f) = Some d"
    by (rule do_sync_uploads [where l = l1, OF assms(12) _ assms(6,10,11)])
qed

text \<open>A restore creates the six tracked files and registry files and nothing else; the index of the filesystem
  snapshots, \<^verbatim>\<open>fs/roots.idx\<close>, is neither uploaded nor restored.\<close>

theorem snapshots_not_restored:
  assumes "s3_faithful env" and "s3_reach env cfg l b"
  shows "fst (maybe_restore env cfg ops b l0) ''fs/roots.idx'' = l0 ''fs/roots.idx''"
proof -
  have ok: "listed env cfg (state_load env l) b" using s3_reach_ok [OF assms(2,1)] by (simp add: s3_ok_def)
  have "\<not> backed_up ''fs/roots.idx''" by (simp add: backed_up_def SYNC_FILES_def)
  then show ?thesis using maybe_restore_restored [OF assms(1) ok, of l0 ops] unfolding restored_from_def by blast
qed

text \<open>A file whose object cannot be fetched is not restored.\<close>

lemma not_fetched:
  assumes "\<not> op_get ops (s3_key cfg f)"
  shows "fst (maybe_restore env cfg ops b l) f = l f"
proof -
  have *: "fst (download_file cfg ops b g l) f = l f" for g l using assms by (auto simp: download_file_at)
  have files: "restore_files cfg ops b fs l f = l f" for fs l by (induction fs arbitrary: l) (simp_all add: *)
  have tracked: "fst (restore_tracked cfg ops b fs l) f = l f" for fs l by (induction fs arbitrary: l) (simp_all add: *)
  have "fst (restore_registry env cfg ops b l) f = l f" for l by (simp add: restore_registry_def files)
  with tracked show ?thesis
    by (auto simp: maybe_restore_def split: sum.splits option.splits prod.splits) (metis fst_conv)+
qed

definition demo_backup :: files where
  "demo_backup = fst (snd (do_sync demo_store demo_bucket quiet_ops 7 (\<lambda>_. demo_dir) [] Map.empty))"

lemma demo_backup_reach: "s3_reach demo_store demo_bucket (fst (do_sync demo_store demo_bucket quiet_ops 7 (\<lambda>_. demo_dir) [] Map.empty)) demo_backup"
proof (rule s3_reach.round [where view = "\<lambda>_. demo_dir"])
  show "s3_reach demo_store demo_bucket demo_dir Map.empty" by (rule s3_reach.fresh) (simp add: demo_dir_def)
  show "view_grows (\<lambda>_. demo_dir)" by (simp add: view_grows_def)
  show "do_sync demo_store demo_bucket quiet_ops 7 (\<lambda>_. demo_dir) [] Map.empty =
    (fst (do_sync demo_store demo_bucket quiet_ops 7 (\<lambda>_. demo_dir) [] Map.empty), demo_backup,
     snd (snd (do_sync demo_store demo_bucket quiet_ops 7 (\<lambda>_. demo_dir) [] Map.empty)))"
    by (simp add: demo_backup_def)
qed

lemma demo_backup_manifest: "demo_backup (s3_key demo_bucket ''sync_manifest.json'') \<noteq> None"
  by (simp add: demo_backup_def do_sync_def SYNC_FILES_def upt_rec state_load_def demo_dir_def last_size_def state_default_def upload_file_def
      put_object_def upload_manifest_def quiet_ops_def state_save_def write_file_def)

definition lossy_ops :: s3_ops where
  "lossy_ops = quiet_ops\<lparr>op_get := (\<lambda>k. k \<noteq> s3_key demo_bucket ''turns/turns.log'')\<rparr>"

theorem failed_restore_overwrites_backup_witness:
  "fst (snd (do_sync demo_store demo_bucket quiet_ops 8
      (\<lambda>_. (fst (maybe_restore demo_store demo_bucket lossy_ops demo_backup Map.empty))(''turns/turns.log'' \<mapsto> [9])) [] demo_backup))
    (s3_key demo_bucket ''turns/turns.log'') = Some [9]"
proof -
  have "fst (maybe_restore demo_store demo_bucket lossy_ops demo_backup Map.empty) ''turns/turns.log'' = None"
    by (rule not_fetched [THEN trans]) (simp_all add: lossy_ops_def)
  then have g: "grows (fst (maybe_restore demo_store demo_bucket lossy_ops demo_backup Map.empty))
    ((fst (maybe_restore demo_store demo_bucket lossy_ops demo_backup Map.empty))(''turns/turns.log'' \<mapsto> [9]))"
    by (simp add: grows_def content_def)
  have "snd (maybe_restore demo_store demo_bucket lossy_ops demo_backup Map.empty) = Inr True \<and>
    fst (snd (do_sync demo_store demo_bucket quiet_ops 8
      (\<lambda>_. (fst (maybe_restore demo_store demo_bucket lossy_ops demo_backup Map.empty))(''turns/turns.log'' \<mapsto> [9])) [] demo_backup))
    (s3_key demo_bucket ''turns/turns.log'') = Some [9]"
    by (rule failed_restore_overwrites_backup [OF demo_store_faithful demo_backup_reach demo_backup_manifest _ _ _ _ _ g _ _ quiet_ops_ok])
      (simp_all add: lossy_ops_def quiet_ops_def SYNC_FILES_def)
  then show ?thesis by (rule conjunct2)
qed

theorem snapshots_not_restored_witness:
  "fst (maybe_restore demo_store demo_bucket quiet_ops demo_backup Map.empty) ''fs/roots.idx'' = None"
  using snapshots_not_restored [OF demo_store_faithful demo_backup_reach, of quiet_ops Map.empty] by simp

end
