(* ===== verification/Spec2Isabelle.thy ===== *)
theory Spec2Isabelle
  imports Store_Refine Server_Props Cql_Print Projection_Props Provider_Props Http_Shown Stream_Props Follow_Props Reconnect_Props S3_Props
begin

text \<open>
  \<^bold>\<open>Verification of CXDB.\<close>  CXDB stores the conversations of AI agents.  A context is a branch of a DAG of
  immutable turns; the payload of a turn is a content-addressed blob.  Clients talk to the server in a binary protocol
  of length-prefixed frames (\<^verbatim>\<open>server/src/main.rs\<close>, \<^verbatim>\<open>clients/rust\<close>); \<^verbatim>\<open>cxtx\<close> runs an agent behind a local
  proxy, reads the conversation off the provider's traffic and uploads it.  All paths below are relative to
  \<^verbatim>\<open>src/\<close>.

  \<^bold>\<open>How code is modelled.\<close>  Structs are records, enums are datatypes, machine integers are words of their width,
  and strings are lists of the bytes of their UTF-8 form.  A method that changes state takes the state and returns the
  new one with its result; a fallible result is a sum, with the error on the left.  A file is its list of bytes, and the
  stores keep their files next to their maps, so that crashes (a prefix of the bytes of an operation) and reopenings can
  be stated.  Third-party code is a parameter: hashing, compression and checksums (\<open>store_env\<close>),
  MessagePack and JSON text, the clock, the calendar, regular expressions and Unicode tables (\<open>cql_env\<close>, \<open>lex_env\<close>,
  \<open>render_env\<close>, \<open>cxtx_env\<close>), URLs (\<open>url_env\<close>), what
  comes back from an HTTP request (\<open>http_env\<close>) and whether a file operation succeeds (\<open>io\<close>).  What a theorem needs of
  a parameter is one of its hypotheses, and its witness names a parameter for which they hold.

  \<^bold>\<open>Shared theories.\<close>  \<open>Prelude\<close> holds error plumbing and the collections of simplification rules, \<open>Bytes\<close> the
  little-endian reads and writes, \<open>Record_Log\<close> the interface of an append-only file of records as a locale: what a loader
  makes of a file that was cut at any byte.  The turn, head, metadata, blob index and snapshot files are its
  interpretations.  \<open>Rust_Str\<close> has the string functions of the standard library, \<open>Json\<close>, \<open>Msgpack\<close> and \<open>Floats\<close> the
  values of the data formats.

  \<^bold>\<open>Storage.\<close>
  \<^item> \<open>Turn_Store\<close> (\<^verbatim>\<open>server/src/turn_store/mod.rs\<close>): the three record files and every operation.  \<open>Turn_Dag\<close>,
    \<open>Turn_Persist\<close>, \<open>Turn_Props\<close>: the well-formed DAG as an invariant of all reachable stores, histories as paths to the
    root, termination of the walks, reopening, crashes.
  \<^item> \<open>Blob_Store\<close> (\<^verbatim>\<open>server/src/blob_store/mod.rs\<close>) and \<open>Blob_Props\<close>: put and get, the checks of a read, crashes.
  \<^item> \<open>Fs_Store\<close> (\<^verbatim>\<open>server/src/fs_store/mod.rs\<close>) and \<open>Fs_Props\<close>: snapshots of file trees and their inheritance.
  \<^item> \<open>Metadata\<close>, \<open>Store\<close> (\<^verbatim>\<open>server/src/store.rs\<close>), \<open>Store_Props\<close> and \<open>Store_Refine\<close>: the store as the composition;
    payloads are always available, appends read back, and the store refines the abstract machine of append-only logs.

  \<^bold>\<open>Queries.\<close>  \<open>Cql_Lexer\<close>, \<open>Cql_Parser\<close> (\<^verbatim>\<open>server/src/cql/parser.rs\<close>), \<open>Cql_Index\<close>
  (\<^verbatim>\<open>cql/indexes.rs\<close>) and \<open>Cql_Executor\<close> (\<^verbatim>\<open>cql/executor.rs\<close>); \<open>Cql_Grammar\<close>, \<open>Cql_Text\<close>, \<open>Cql_Print\<close>,
  \<open>Cql_Facts\<close> and \<open>Cql_Props\<close>: the parser accepts exactly the grammar, printed queries parse back, errors point at the
  right place, and a search returns exactly the contexts that satisfy the query.

  \<^bold>\<open>Server.\<close>  \<open>Protocol\<close> (\<^verbatim>\<open>server/src/protocol/mod.rs\<close>), \<open>Client\<close> (the wire layer of \<^verbatim>\<open>clients/rust\<close>),
  \<open>Events\<close> (\<^verbatim>\<open>events.rs\<close>), \<open>Metrics\<close> (\<^verbatim>\<open>metrics.rs\<close>), \<open>Server\<close> (\<^verbatim>\<open>main.rs\<close>); \<open>Protocol_Props\<close> and
  \<open>Server_Props\<close>: frames and requests round-trip between client and server, and the server keeps its invariant whatever
  clients send and however connections end.

  \<^bold>\<open>HTTP gateway.\<close>  \<open>Http_Encode\<close> and \<open>Http_Gateway\<close> (\<^verbatim>\<open>server/src/http/mod.rs\<close>): reading JSON requests, encoding
  payloads by their registered type, one definition per route, the dispatch over method and path, the bookkeeping of a
  request and the event stream; \<open>Http_Props\<close>: frames and requests in any order keep the invariant of the server, and every
  request is answered; \<open>Http_Roundtrip\<close> and \<open>Http_Shown\<close>: the encoding and the typed view are inverse to each other on
  objects that fit their type, and what is posted is what the next request shows.  URLs, forms and JSON text are in the record
  \<open>gateway_env\<close>, the decoders of bytes in \<open>codec_env\<close>; the figures of \<^verbatim>\<open>GET /v1/metrics\<close> are a parameter.

  \<^bold>\<open>Backup.\<close>  \<open>Server_Config\<close> (\<^verbatim>\<open>config.rs\<close>) holds the values read from the environment, \<open>S3_Sync\<close> (\<^verbatim>\<open>s3_sync.rs\<close>) the
  rounds that upload grown files, the manifest and restoring into an empty directory; a directory and a bucket are maps from
  paths to bytes, and how each request and file operation ends is an argument.  \<open>S3_Props\<close>: from an empty bucket on, objects
  are beginnings of the files, a round and a restore without failures give the files back, and a failed restore can destroy the
  backup.  That files only grow is what the append-only stores do while they are open; cutting off a torn end when a store is
  reopened, and a restored directory as a new start with a non-empty bucket, are outside of the relation \<open>s3_reach\<close>: there
  files need not extend the objects.

  \<^bold>\<open>Rust client.\<close>
  \<^item> \<open>Client_Api\<close> (\<^verbatim>\<open>client.rs\<close>, \<^verbatim>\<open>context.rs\<close>, \<^verbatim>\<open>turn.rs\<close>, \<^verbatim>\<open>fs.rs\<close> of \<^verbatim>\<open>clients/rust/src\<close>): options, dialling and
    one call per request on top of the wire layer \<open>Client\<close>; the other end is a state with a function from bytes to bytes.
  \<^item> \<open>Client_Stream\<close> (\<^verbatim>\<open>subscribe.rs\<close>, \<^verbatim>\<open>sse_decode.rs\<close>, \<^verbatim>\<open>events.rs\<close>): the event stream; \<open>Stream_Props\<close>: a subscriber
    reads what the server wrote, and the events decode to what was published.
  \<^item> \<open>Client_Follow\<close> (\<^verbatim>\<open>follow.rs\<close>): following contexts; \<open>Follow_Props\<close>: the locale \<open>turn_source\<close> says what the two calls of
    a follower tell about a history, the server is its interpretation, and the consumer gets the history in order, without
    gaps and repetitions, as long as no append comes between the two calls.
  \<^item> \<open>Client_Reconnect\<close> (\<^verbatim>\<open>reconnect.rs\<close>): the queue, its worker and the dialling, with threads as steps of a relation;
    \<open>Reconnect_Props\<close>: answers come once and in order, dialling is bounded, and the ways in which the client ceases to
    reconnect.

  \<^bold>\<open>Types.\<close>  \<open>Registry\<close> (\<^verbatim>\<open>server/src/registry/mod.rs\<close>) and \<open>Projection\<close> (\<^verbatim>\<open>server/src/projection/mod.rs\<close>)
  with \<open>Registry_Props\<close> and \<open>Projection_Props\<close>: tags keep their meaning across versions and bundles, and a typed view
  shows every tag of a payload once.

  \<^bold>\<open>cxtx.\<close>
  \<^item> \<open>Conversation\<close> (\<^verbatim>\<open>clients/rust/src/types\<close>): the items that are uploaded, their builders and JSON form.
  \<^item> \<open>Cxtx_Session\<close> (\<^verbatim>\<open>turns.rs\<close>, \<^verbatim>\<open>session.rs\<close>): the session, its counters and the history seen so far;
    \<open>Cxtx_History\<close>: what the captured turns say.
  \<^item> \<open>Cxtx_Provider\<close> (\<^verbatim>\<open>provider/\<close>): server-sent events and the two protocols; \<open>Cxtx_Sse\<close>: frames do not depend on
    how a stream is cut.
  \<^item> \<open>Cxtx_Http\<close>, \<open>Cxtx_Ledger\<close>, \<open>Cxtx_Delivery\<close> (\<^verbatim>\<open>cxdb_http.rs\<close>, \<^verbatim>\<open>ledger.rs\<close>, \<^verbatim>\<open>delivery.rs\<close>): the upload
    worker with its retries; \<open>Delivery_Props\<close>: nothing is lost, doubled or overtaken, everything arrives once the server
    accepts requests again, a shutdown ends in time.
  \<^item> \<open>Cxtx_Proxy\<close> (\<^verbatim>\<open>proxy.rs\<close>): routing, headers, plain and streamed answers, the websocket relay; \<open>Proxy_Props\<close> and
    \<open>Provider_Props\<close>: turns are numbered without gaps whatever fails, captured streams equal captured bodies, replayed
    conversations are recognised, routes lead where the agent would have gone.

  \<^bold>\<open>Fuel and bounds.\<close>  The loops over histories and the descendants search are bounded by the number of turns and
  contexts, and the theorems show that the bound is never the reason to stop.  The recursive-descent parser carries
  fuel of six times the number of tokens and four more, which \<open>cql_grammar_exact\<close> shows to be enough on every input.  The
  delivery worker is a function of one round of its loop; liveness quantifies over the number of rounds.

  \<^bold>\<open>Not modelled.\<close>  Process start, sockets and TLS are I/O; metrics beyond counters are floating-point statistics.  The Go client, the gateway and the
  frontend are other programs.
\<close>

end
